(* ===== verification/Prelude.thy ===== *)
theory Prelude
  imports Main "HOL-Library.AList" "HOL-Library.Sublist"
begin

text \<open>
  What every component shares: the string operations of the JavaScript library the
  source uses, the insertion-ordered \<^verbatim>\<open>Map\<close> of JavaScript as an association list,
  the contract of a key/value store, and the collections of simplification rules.

  Strings are lists of characters, one per byte. The operations are the ones of the
  source for ASCII input; white space and letter case outside ASCII are left alone.
\<close>

named_theorems js_string \<open>equations that evaluate the string operations on literals\<close>
named_theorems js_map \<open>lookup and key lemmas of insertion-ordered maps\<close>

section \<open>Characters and strings\<close>

definition is_digit :: "char \<Rightarrow> bool" where
  "is_digit c \<longleftrightarrow> 48 \<le> (of_char c :: nat) \<and> (of_char c :: nat) \<le> 57"

definition digit_val :: "char \<Rightarrow> nat" where
  "digit_val c = of_char c - 48"

definition is_lower :: "char \<Rightarrow> bool" where
  "is_lower c \<longleftrightarrow> 97 \<le> (of_char c :: nat) \<and> (of_char c :: nat) \<le> 122"

definition is_upper :: "char \<Rightarrow> bool" where
  "is_upper c \<longleftrightarrow> 65 \<le> (of_char c :: nat) \<and> (of_char c :: nat) \<le> 90"

definition is_letter :: "char \<Rightarrow> bool" where
  "is_letter c \<longleftrightarrow> is_lower c \<or> is_upper c"

text \<open>The class \<^verbatim>\<open>[A-Za-z0-9_]\<close> of regular expressions (\<^verbatim>\<open>\w\<close>).\<close>

definition is_word_char :: "char \<Rightarrow> bool" where
  "is_word_char c \<longleftrightarrow> is_letter c \<or> is_digit c \<or> c = CHR ''_''"

text \<open>The ASCII part of \<^verbatim>\<open>\s\<close>: tab, line feed, vertical tab, form feed, return, space.\<close>

definition is_space :: "char \<Rightarrow> bool" where
  "is_space c \<longleftrightarrow> (9 \<le> (of_char c :: nat) \<and> (of_char c :: nat) \<le> 13) \<or> (of_char c :: nat) = 32"

definition lower_char :: "char \<Rightarrow> char" where
  "lower_char c = (if is_upper c then char_of (of_char c + 32 :: nat) else c)"

text \<open>\<^verbatim>\<open>s.toLowerCase()\<close>, \<^verbatim>\<open>s.trim()\<close>, \<^verbatim>\<open>s.replace(/\D/g, '')\<close>, \<^verbatim>\<open>s.slice(-n)\<close>.\<close>

definition to_lower :: "string \<Rightarrow> string" where
  "to_lower s = map lower_char s"

definition trim :: "string \<Rightarrow> string" where
  "trim s = rev (dropWhile is_space (rev (dropWhile is_space s)))"

definition only_digits :: "string \<Rightarrow> string" where
  "only_digits s = filter is_digit s"

definition last_chars :: "nat \<Rightarrow> string \<Rightarrow> string" where
  "last_chars n s = drop (length s - n) s"

text \<open>\<^verbatim>\<open>s.split(c)\<close> for a one-character separator: never the empty list.\<close>

fun split_on :: "char \<Rightarrow> string \<Rightarrow> string list" where
  "split_on c [] = [[]]"
| "split_on c (x # xs) =
     (if x = c then [] # split_on c xs
      else (case split_on c xs of [] \<Rightarrow> [[x]] | y # ys \<Rightarrow> (x # y) # ys))"

text \<open>The decimal digits of a number, as a template literal prints them.\<close>

fun show_nat :: "nat \<Rightarrow> string" where
  "show_nat n = (if n < 10 then [char_of (48 + n)] else show_nat (n div 10) @ [char_of (48 + n mod 10)])"

definition show_int :: "int \<Rightarrow> string" where
  "show_int i = (if i < 0 then ''-'' @ show_nat (nat (- i)) else show_nat (nat i))"

declare show_nat.simps [simp del]

lemmas char_class_defs [js_string] =
  is_digit_def is_lower_def is_upper_def is_letter_def is_word_char_def is_space_def lower_char_def

lemmas string_defs [js_string] =
  to_lower_def trim_def only_digits_def last_chars_def show_nat.simps show_int_def digit_val_def

lemma split_on_nonempty [simp]: "split_on c s \<noteq> []"
  by (cases s) (auto split: list.splits)

lemma split_on_no_sep: "c \<notin> set s \<Longrightarrow> split_on c s = [s]"
  by (induction s) auto

lemma split_on_append: "c \<notin> set s \<Longrightarrow> split_on c (s @ c # t) = s # split_on c t"
  by (induction s) auto

lemma only_digits_digits [simp]: "list_all is_digit (only_digits s)"
  by (simp add: only_digits_def list_all_iff)

lemma only_digits_idem [simp]: "only_digits (only_digits s) = only_digits s"
  by (simp add: only_digits_def)

lemma only_digits_append [simp]: "only_digits (s @ t) = only_digits s @ only_digits t"
  by (simp add: only_digits_def)

lemma only_digits_id: "list_all is_digit s \<Longrightarrow> only_digits s = s"
  by (simp add: only_digits_def list_all_iff)

lemma length_last_chars: "length (last_chars n s) = min n (length s)"
  by (simp add: last_chars_def)

lemma suffix_last_chars: "suffix (last_chars n s) s"
  by (simp add: last_chars_def suffix_drop)

lemma length_to_lower [simp]: "length (to_lower s) = length s"
  by (simp add: to_lower_def)

lemma to_lower_append [simp]: "to_lower (s @ t) = to_lower s @ to_lower t"
  by (simp add: to_lower_def)

lemma lower_char_idem [simp]: "lower_char (lower_char c) = lower_char c"
proof -
  have "\<not> is_upper (char_of (of_char c + 32 :: nat))" if "is_upper c"
    using that by (simp add: is_upper_def of_char_of take_bit_eq_mod)
  then show ?thesis by (simp add: lower_char_def)
qed

lemma to_lower_idem [simp]: "to_lower (to_lower s) = to_lower s"
  by (simp add: to_lower_def comp_def)

lemma digit_char [simp]: "d < 10 \<Longrightarrow> is_digit (char_of (48 + d :: nat))"
  by (simp add: is_digit_def of_char_of take_bit_eq_mod)

lemma show_nat_digits: "list_all is_digit (show_nat n)"
proof (induction n rule: show_nat.induct)
  case (1 n)
  then show ?case by (subst show_nat.simps) simp
qed

lemma show_nat_nonempty [simp]: "show_nat n \<noteq> []"
  by (subst show_nat.simps) simp

section \<open>Optional values\<close>

text \<open>\<^verbatim>\<open>x ?? d\<close> on an optional value, and \<^verbatim>\<open>s || d\<close> on an optional string.\<close>

definition or_else :: "'a option \<Rightarrow> 'a \<Rightarrow> 'a" where
  "or_else x d = (case x of Some v \<Rightarrow> v | None \<Rightarrow> d)"

text \<open>The truthiness of an optional string: absent and empty are both false.\<close>

definition truthy :: "string option \<Rightarrow> bool" where
  "truthy x = (case x of None \<Rightarrow> False | Some s \<Rightarrow> s \<noteq> [])"

text \<open>\<^verbatim>\<open>s || undefined\<close>: the empty string becomes absent.\<close>

definition non_empty :: "string option \<Rightarrow> string option" where
  "non_empty x = (if truthy x then x else None)"

text \<open>\<^verbatim>\<open>s || d\<close>.\<close>

definition str_or :: "string option \<Rightarrow> string \<Rightarrow> string" where
  "str_or x d = (if truthy x then the x else d)"

lemma or_else_simps [simp]: "or_else (Some v) d = v" "or_else None d = d"
  by (simp_all add: or_else_def)

lemma truthy_simps [simp]: "truthy None = False" "truthy (Some s) = (s \<noteq> [])"
  by (simp_all add: truthy_def)

lemma non_empty_simps [simp]:
  "non_empty None = None" "non_empty (Some []) = None" "non_empty (Some (c # s)) = Some (c # s)"
  by (simp_all add: non_empty_def)

lemma str_or_simps [simp]:
  "str_or None d = d" "str_or (Some []) d = d" "str_or (Some (c # s)) d = c # s"
  by (simp_all add: str_or_def)

lemma truthyE: "truthy x \<Longrightarrow> (\<And>s. x = Some s \<Longrightarrow> s \<noteq> [] \<Longrightarrow> P) \<Longrightarrow> P"
  by (cases x) auto

section \<open>Key/value stores\<close>

text \<open>
  The contract of a key/value store. \<^verbatim>\<open>Map\<close> of the language satisfies it, and so
  do the registration stores; the clients' lemmas are proved once, inside.
\<close>

locale keyed_store =
  fixes get :: "'m \<Rightarrow> 'k \<Rightarrow> 'v option"
    and put :: "'k \<Rightarrow> 'v \<Rightarrow> 'm \<Rightarrow> 'm"
    and del :: "'k \<Rightarrow> 'm \<Rightarrow> 'm"
  assumes get_put: "get (put k v m) j = (if j = k then Some v else get m j)"
    and get_del: "get (del k m) j = (if j = k then None else get m j)"
begin

lemma get_put_same: "get (put k v m) k = Some v"
  by (simp add: get_put)

lemma get_put_other: "j \<noteq> k \<Longrightarrow> get (put k v m) j = get m j"
  by (simp add: get_put)

lemma get_del_same: "get (del k m) k = None"
  by (simp add: get_del)

lemma get_del_other: "j \<noteq> k \<Longrightarrow> get (del k m) j = get m j"
  by (simp add: get_del)

lemma put_overwrites: "get (put k v (put k w m)) j = get (put k v m) j"
  by (simp add: get_put)

lemma del_undoes_put: "get m k = None \<Longrightarrow> get (del k (put k v m)) j = get m j"
  by (simp add: get_put get_del)

lemma present_put: "get (put k v m) j \<noteq> None \<longleftrightarrow> j = k \<or> get m j \<noteq> None"
  by (simp add: get_put)

end

section \<open>Insertion-ordered maps\<close>

text \<open>
  A JavaScript \<^verbatim>\<open>Map\<close> keeps its keys in the order of their first insertion:
  \<^verbatim>\<open>set\<close> on a present key replaces the value in place, on an absent key appends.
  That is \<open>AList.update\<close>; \<^verbatim>\<open>delete\<close> is \<open>AList.delete\<close>. Iteration
  (\<^verbatim>\<open>values\<close>, \<^verbatim>\<open>keys\<close>, \<^verbatim>\<open>for ... of\<close>) is list order.
\<close>

type_synonym ('k, 'v) js_map = "('k \<times> 'v) list"

abbreviation m_get :: "('k, 'v) js_map \<Rightarrow> 'k \<Rightarrow> 'v option" where
  "m_get m k \<equiv> map_of m k"

abbreviation m_set :: "'k \<Rightarrow> 'v \<Rightarrow> ('k, 'v) js_map \<Rightarrow> ('k, 'v) js_map" where
  "m_set k v m \<equiv> AList.update k v m"

abbreviation m_del :: "'k \<Rightarrow> ('k, 'v) js_map \<Rightarrow> ('k, 'v) js_map" where
  "m_del k m \<equiv> AList.delete k m"

abbreviation m_keys :: "('k, 'v) js_map \<Rightarrow> 'k list" where
  "m_keys m \<equiv> map fst m"

abbreviation m_vals :: "('k, 'v) js_map \<Rightarrow> 'v list" where
  "m_vals m \<equiv> map snd m"

definition m_has :: "('k, 'v) js_map \<Rightarrow> 'k \<Rightarrow> bool" where
  "m_has m k \<longleftrightarrow> m_get m k \<noteq> None"

text \<open>Every key occurs once: what \<^verbatim>\<open>Map\<close> guarantees of any map built by its operations.\<close>

abbreviation m_ok :: "('k, 'v) js_map \<Rightarrow> bool" where
  "m_ok m \<equiv> distinct (map fst m)"

interpretation js: keyed_store map_of AList.update AList.delete
  by unfold_locales (simp_all add: update_conv' delete_conv')

lemmas [js_map, simp] = js.get_put_same js.get_del_same

lemmas [js_map] = js.get_put js.get_del

lemma m_has_set [js_map, simp]: "m_has (m_set k v m) j \<longleftrightarrow> j = k \<or> m_has m j"
  by (simp add: m_has_def js.get_put)

lemma m_has_del [js_map, simp]: "m_has (m_del k m) j \<longleftrightarrow> j \<noteq> k \<and> m_has m j"
  by (simp add: m_has_def js.get_del)

lemma m_has_keys: "m_has m k \<longleftrightarrow> k \<in> set (m_keys m)"
  by (simp add: m_has_def map_of_eq_None_iff)

lemma m_ok_set [simp]: "m_ok m \<Longrightarrow> m_ok (m_set k v m)"
  by (rule distinct_update)

lemma m_ok_del [simp]: "m_ok m \<Longrightarrow> m_ok (m_del k m)"
  by (rule distinct_delete)

lemma m_keys_set: "m_keys (m_set k v m) = (if k \<in> set (m_keys m) then m_keys m else m_keys m @ [k])"
  by (rule update_keys)

lemma m_keys_set_present [simp]: "m_get m k = Some w \<Longrightarrow> m_keys (m_set k v m) = m_keys m"
  by (metis map_of_eq_None_iff option.distinct(1) set_map update_keys)

lemma m_set_append: "m_get m k = None \<Longrightarrow> m_set k v m = m @ [(k, v)]"
  by (induction m) (auto split: if_splits)

lemma length_m_set: "length (m_set k v m) = (if m_has m k then length m else Suc (length m))"
  by (induction m) (auto simp: m_has_def)

lemma length_m_del: "m_ok m \<Longrightarrow> length (m_del k m) = (if m_has m k then length m - 1 else length m)"
proof (induction m)
  case (Cons p m)
  then show ?case
    by (cases "m = []") (auto simp: m_has_def map_of_eq_None_iff Suc_diff_1 image_iff)
qed (simp add: m_has_def)

lemma m_get_mem: "m_get m k = Some v \<Longrightarrow> v \<in> set (m_vals m)"
  by (force dest: map_of_SomeD)

lemma m_get_iff: "m_ok m \<Longrightarrow> m_get m k = Some v \<longleftrightarrow> (k, v) \<in> set m"
  by (simp add: map_of_eq_Some_iff)

lemma m_vals_get: "m_ok m \<Longrightarrow> v \<in> set (m_vals m) \<longleftrightarrow> (\<exists>k. m_get m k = Some v)"
  by (force simp: m_get_iff)

lemma m_vals_ex: "m_ok m \<Longrightarrow> list_ex P (m_vals m) \<longleftrightarrow> (\<exists>k v. m_get m k = Some v \<and> P v)"
  unfolding list_ex_iff by (metis m_vals_get)

text \<open>Updating every value of a map, as a loop over \<^verbatim>\<open>values()\<close> that assigns fields does.\<close>

definition m_map :: "('v \<Rightarrow> 'w) \<Rightarrow> ('k, 'v) js_map \<Rightarrow> ('k, 'w) js_map" where
  "m_map f m = map (\<lambda>(k, v). (k, f v)) m"

lemma m_get_map [simp]: "m_get (m_map f m) k = map_option f (m_get m k)"
  by (simp add: m_map_def map_of_map comp_def)

lemma m_keys_map [simp]: "m_keys (m_map f m) = m_keys m"
  by (simp add: m_map_def comp_def case_prod_beta)

lemma m_vals_map [simp]: "m_vals (m_map f m) = map f (m_vals m)"
  by (simp add: m_map_def comp_def case_prod_beta)

lemma m_has_map [simp]: "m_has (m_map f m) k = m_has m k"
  by (simp add: m_has_def)

section \<open>Lists\<close>

text \<open>The first element satisfying a predicate stays first under a longer list.\<close>

lemma find_append: "List.find P (xs @ ys) = (case List.find P xs of None \<Rightarrow> List.find P ys | Some x \<Rightarrow> Some x)"
  by (induction xs) auto

lemma find_SomeD: "List.find P xs = Some x \<Longrightarrow> x \<in> set xs \<and> P x"
  by (metis (no_types, lifting) find_Some_iff nth_mem)

lemma find_NoneD: "List.find P xs = None \<Longrightarrow> x \<in> set xs \<Longrightarrow> \<not> P x"
  by (simp add: find_None_iff)

lemma find_exists: "x \<in> set xs \<Longrightarrow> P x \<Longrightarrow> \<exists>y. List.find P xs = Some y"
  by (metis find_NoneD not_None_eq)

text \<open>Counting with a filter after one element changed.\<close>

lemma length_filter_m_set:
  assumes "m_ok m" "m_get m k = Some w"
  shows "length (filter P (m_vals (m_set k v m))) + (if P w then 1 else 0) =
         length (filter P (m_vals m)) + (if P v then 1 else 0)"
  using assms by (induction m) auto

end
