(* ===== verification/Js_Number.thy ===== *)
theory Js_Number
  imports Prelude Complex_Main
begin

text \<open>
  Conversions of strings to numbers as the language defines them: \<^verbatim>\<open>Number(s)\<close> (white
  space trimmed, the empty string is 0, decimal literals with sign, fraction and exponent,
  hexadecimal, octal and binary literals, \<^verbatim>\<open>Infinity\<close>, anything else not a number) and
  \<^verbatim>\<open>parseInt(s, 10)\<close> (the longest digit prefix). Numbers are exact rationals: the
  rounding of a value to the nearest double is not modelled.
\<close>

datatype js_num = NaN | PosInf | NegInf | Num rat

definition neg_num :: "js_num \<Rightarrow> js_num" where
  "neg_num x = (case x of NaN \<Rightarrow> NaN | PosInf \<Rightarrow> NegInf | NegInf \<Rightarrow> PosInf | Num q \<Rightarrow> Num (- q))"

definition is_finite :: "js_num \<Rightarrow> bool" where
  "is_finite x = (case x of Num _ \<Rightarrow> True | _ \<Rightarrow> False)"

text \<open>\<^verbatim>\<open>Number.isInteger\<close> with the integer it finds.\<close>

definition num_int :: "js_num \<Rightarrow> int option" where
  "num_int x = (case x of Num q \<Rightarrow> if of_int \<lfloor>q\<rfloor> = q then Some \<lfloor>q\<rfloor> else None | _ \<Rightarrow> None)"

section \<open>Digits\<close>

definition dec_val :: "string \<Rightarrow> nat" where
  "dec_val ds = foldl (\<lambda>n c. 10 * n + digit_val c) 0 ds"

definition radix_digit :: "char \<Rightarrow> nat option" where
  "radix_digit c =
     (if is_digit c then Some (digit_val c)
      else if is_lower c then Some (of_char c - 87)
      else if is_upper c then Some (of_char c - 55) else None)"

fun radix_val :: "nat \<Rightarrow> nat \<Rightarrow> string \<Rightarrow> nat option" where
  "radix_val b n [] = Some n"
| "radix_val b n (c # cs) =
     (case radix_digit c of
        None \<Rightarrow> None
      | Some d \<Rightarrow> if d < b then radix_val b (b * n + d) cs else None)"

definition radix_literal :: "nat \<Rightarrow> string \<Rightarrow> js_num" where
  "radix_literal b s =
     (if s = [] then NaN
      else (case radix_val b 0 s of None \<Rightarrow> NaN | Some n \<Rightarrow> Num (of_nat n)))"

section \<open>Decimal literals\<close>

text \<open>The exponent part after the mantissa: nothing, or \<^verbatim>\<open>e\<close> with a signed digit string.\<close>

definition with_exponent :: "rat \<Rightarrow> string \<Rightarrow> js_num" where
  "with_exponent m r =
     (case r of
        [] \<Rightarrow> Num m
      | c # t \<Rightarrow>
          if c = CHR ''e'' \<or> c = CHR ''E'' then
            (let neg = (t \<noteq> [] \<and> hd t = CHR ''-'');
                 ds = (if t \<noteq> [] \<and> (hd t = CHR ''-'' \<or> hd t = CHR ''+'') then tl t else t)
             in if ds = [] \<or> \<not> list_all is_digit ds then NaN
                else if neg then Num (m / 10 ^ dec_val ds) else Num (m * 10 ^ dec_val ds))
          else NaN)"

definition unsigned_literal :: "string \<Rightarrow> js_num" where
  "unsigned_literal r =
     (if r = ''Infinity'' then PosInf
      else
        (let a = takeWhile is_digit r; r1 = dropWhile is_digit r
         in case r1 of
              [] \<Rightarrow> if a = [] then NaN else Num (of_nat (dec_val a))
            | c # r2 \<Rightarrow>
                if c = CHR ''.'' then
                  (let b = takeWhile is_digit r2; r3 = dropWhile is_digit r2
                   in if a = [] \<and> b = [] then NaN
                      else with_exponent (of_nat (dec_val a) + of_nat (dec_val b) / 10 ^ length b) r3)
                else if a = [] then NaN
                else with_exponent (of_nat (dec_val a)) r1))"

definition js_number :: "string \<Rightarrow> js_num" where
  "js_number s =
     (let t = trim s
      in if t = [] then Num 0
         else if take 2 t \<in> {''0x'', ''0X''} then radix_literal 16 (drop 2 t)
         else if take 2 t \<in> {''0o'', ''0O''} then radix_literal 8 (drop 2 t)
         else if take 2 t \<in> {''0b'', ''0B''} then radix_literal 2 (drop 2 t)
         else if hd t = CHR ''+'' then unsigned_literal (tl t)
         else if hd t = CHR ''-'' then neg_num (unsigned_literal (tl t))
         else unsigned_literal t)"

text \<open>\<^verbatim>\<open>parseInt(s, 10)\<close>: \<open>None\<close> where it returns not-a-number.\<close>

definition parse_int :: "string \<Rightarrow> int option" where
  "parse_int s =
     (let t = dropWhile is_space s;
          neg = (t \<noteq> [] \<and> hd t = CHR ''-'');
          r = (if t \<noteq> [] \<and> (hd t = CHR ''-'' \<or> hd t = CHR ''+'') then tl t else t);
          ds = takeWhile is_digit r
      in if ds = [] then None else Some (if neg then - int (dec_val ds) else int (dec_val ds)))"

section \<open>Rounding\<close>

text \<open>\<^verbatim>\<open>Math.round\<close>: halves go up, also below zero.\<close>

definition js_round :: "rat \<Rightarrow> int" where
  "js_round q = \<lfloor>q + 1 / 2\<rfloor>"

lemma js_round_int [simp]: "js_round (of_int i) = i"
  by (simp add: js_round_def floor_unique)

lemma js_round_0 [simp]: "js_round 0 = 0"
  using js_round_int [of 0] by simp

lemma js_round_mono: "p \<le> q \<Longrightarrow> js_round p \<le> js_round q"
  by (simp add: js_round_def floor_mono)

lemma js_round_error: "\<bar>of_int (js_round q) - q\<bar> \<le> 1 / 2"
  unfolding js_round_def by linarith

section \<open>Digit strings are their own literals\<close>

lemmas num_defs [js_string] =
  js_number_def unsigned_literal_def with_exponent_def radix_literal_def parse_int_def
  dec_val_def neg_num_def num_int_def is_finite_def radix_digit_def

lemma dec_val_Nil [simp]: "dec_val [] = 0"
  by (simp add: dec_val_def)

lemma dec_val_snoc: "dec_val (ds @ [c]) = 10 * dec_val ds + digit_val c"
  by (simp add: dec_val_def)

lemma digit_val_char [simp]: "d < 10 \<Longrightarrow> digit_val (char_of (48 + d :: nat)) = d"
  by (simp add: digit_val_def of_char_of take_bit_eq_mod)

lemma dec_val_show [simp]: "dec_val (show_nat n) = n"
proof (induction n rule: show_nat.induct)
  case (1 n)
  show ?case
  proof (cases "n < 10")
    case True
    then show ?thesis by (simp add: show_nat.simps dec_val_def)
  next
    case False
    with "1" have "dec_val (show_nat (n div 10)) = n div 10" by simp
    with False show ?thesis by (simp add: show_nat.simps [of n] dec_val_snoc)
  qed
qed

lemma digit_not_space: "is_digit c \<Longrightarrow> \<not> is_space c"
  by (simp add: is_digit_def is_space_def)

lemma dropWhile_all: "list_all (\<lambda>x. \<not> P x) xs \<Longrightarrow> dropWhile P xs = xs"
  by (cases xs) auto

lemma trim_digits: "list_all is_digit ds \<Longrightarrow> trim ds = ds"
  using digit_not_space by (simp add: trim_def dropWhile_all list_all_iff)

lemma takeWhile_all: "list_all P xs \<Longrightarrow> takeWhile P xs = xs"
  by (induction xs) auto

lemma dropWhile_none: "list_all P xs \<Longrightarrow> dropWhile P xs = []"
  by (induction xs) auto

lemma digit_not_special:
  "is_digit c \<Longrightarrow> c \<notin> {CHR ''x'', CHR ''X'', CHR ''o'', CHR ''O'', CHR ''b'', CHR ''B'', CHR ''+'', CHR ''-'', CHR ''I'', CHR ''.'', CHR ''/''}"
  by (auto simp: is_digit_def)

lemma js_number_digits:
  assumes "list_all is_digit ds" "ds \<noteq> []"
  shows "js_number ds = Num (of_nat (dec_val ds))"
proof -
  obtain c r where ds: "ds = c # r" using assms(2) by (cases ds) auto
  have c: "is_digit c" and r: "list_all is_digit r" using assms(1) ds by auto
  have "take 2 ds \<notin> {''0x'', ''0X'', ''0o'', ''0O'', ''0b'', ''0B''}"
    using r digit_not_special by (cases r) (auto simp: ds)
  moreover have "hd ds \<noteq> CHR ''+''" "hd ds \<noteq> CHR ''-''" "ds \<noteq> ''Infinity''"
    using digit_not_special [OF c] by (auto simp: ds)
  ultimately show ?thesis
    using assms
    by (simp add: js_number_def trim_digits unsigned_literal_def takeWhile_all dropWhile_none)
qed

lemma js_number_show: "js_number (show_nat n) = Num (of_nat n)"
  by (simp add: js_number_digits show_nat_digits)

lemma num_int_nat [simp]: "num_int (Num (of_nat n)) = Some (int n)"
  by (simp add: num_int_def)

lemma num_int_show: "num_int (js_number (show_nat n)) = Some (int n)"
  by (simp add: js_number_show)

lemma parse_int_digits:
  assumes "list_all is_digit ds" "ds \<noteq> []"
  shows "parse_int ds = Some (int (dec_val ds))"
proof -
  have "dropWhile is_space ds = ds"
    using assms(1) digit_not_space by (auto simp: list_all_iff intro: dropWhile_all)
  moreover have "hd ds \<noteq> CHR ''+''" "hd ds \<noteq> CHR ''-''"
    using assms digit_not_special by (cases ds; auto)+
  ultimately show ?thesis
    using assms by (simp add: parse_int_def takeWhile_all Let_def)
qed

lemma parse_int_show: "parse_int (show_nat n) = Some (int n)"
  by (simp add: parse_int_digits show_nat_digits)

end
