(* ===== verification/Core_Types.thy ===== *)
theory Core_Types
  imports Js_Number
begin

text \<open>
  The shared domain types of \<^verbatim>\<open>src/src/core/types.ts\<close>: SIP status codes, the outcome of a
  call, the reasons of the fallback chain, the call record with its partial updates, the
  user and the registration. Instants are milliseconds since the epoch; an ISO string of
  the source stands for the instant it denotes. Amounts of money are exact rationals.
\<close>

section \<open>SIP status codes\<close>

datatype sip_status =
    OK | Trying | Ringing_180 | SessionProgress | RateLimited | Forbidden | NotFound
  | RequestTimeout | Gone | TemporarilyUnavailable | BusyHere | RequestTerminated
  | ServiceUnavailable | Decline | ServerError

fun sip_code :: "sip_status \<Rightarrow> int" where
  "sip_code OK = 200"
| "sip_code Trying = 100"
| "sip_code Ringing_180 = 180"
| "sip_code SessionProgress = 183"
| "sip_code RateLimited = 429"
| "sip_code Forbidden = 403"
| "sip_code NotFound = 404"
| "sip_code RequestTimeout = 408"
| "sip_code Gone = 410"
| "sip_code TemporarilyUnavailable = 480"
| "sip_code BusyHere = 486"
| "sip_code RequestTerminated = 487"
| "sip_code ServiceUnavailable = 503"
| "sip_code Decline = 603"
| "sip_code ServerError = 500"

section \<open>Calls\<close>

datatype call_status = Ringing | Answered | Ended | Missed | Failed | Voicemail | Unreachable

datatype unreachable_reason = Busy | NoAnswer | Offline

datatype call_direction = Inbound | Outbound

text \<open>The events and reasons pushed to the caller over the signalling socket.\<close>

datatype notify_event =
  NeRinging | NeAnswered | NeDeclined | NeNoAnswer | NeForwarding | NeUnavailable | NeFailed

datatype notify_reason =
    NrBlocked | NrBusy | NrPstnFailed | NrVoicemail | NrDnd | NrError | NrForwardFailed
  | NrUnreachable unreachable_reason

record call_log =
  cl_id :: string
  cl_from :: string
  cl_to :: string
  cl_from_name :: string
  cl_status :: call_status
  cl_direction :: call_direction
  cl_start :: int
  cl_end :: "int option"
  cl_duration :: "rat option"
  cl_from_ext :: "string option"
  cl_to_ext :: "string option"
  cl_cost :: "rat option"
  cl_currency :: "string option"
  cl_rate_prefix :: "string option"
  cl_billed_secs :: "rat option"

text \<open>
  \<^verbatim>\<open>Partial<CallLog>\<close>: the fields an update names, and \<^verbatim>\<open>Object.assign\<close> of them.
  Only the fields that some update of the source names are present.
\<close>

record call_update =
  up_status :: "call_status option"
  up_direction :: "call_direction option"
  up_to :: "string option"
  up_end :: "int option"
  up_duration :: "rat option"
  up_cost :: "rat option"
  up_currency :: "string option"
  up_rate_prefix :: "string option"
  up_billed_secs :: "rat option"

definition no_update :: call_update where
  "no_update = \<lparr>up_status = None, up_direction = None, up_to = None, up_end = None,
     up_duration = None, up_cost = None, up_currency = None, up_rate_prefix = None,
     up_billed_secs = None\<rparr>"

text \<open>A field the update names overwrites; the others stay.\<close>

definition opt_over :: "'a option \<Rightarrow> 'a option \<Rightarrow> 'a option" where
  "opt_over new old = (case new of Some v \<Rightarrow> Some v | None \<Rightarrow> old)"

definition assign_call :: "call_log \<Rightarrow> call_update \<Rightarrow> call_log" where
  "assign_call c u = c\<lparr>
     cl_status := or_else (up_status u) (cl_status c),
     cl_direction := or_else (up_direction u) (cl_direction c),
     cl_to := or_else (up_to u) (cl_to c),
     cl_end := opt_over (up_end u) (cl_end c),
     cl_duration := opt_over (up_duration u) (cl_duration c),
     cl_cost := opt_over (up_cost u) (cl_cost c),
     cl_currency := opt_over (up_currency u) (cl_currency c),
     cl_rate_prefix := opt_over (up_rate_prefix u) (cl_rate_prefix c),
     cl_billed_secs := opt_over (up_billed_secs u) (cl_billed_secs c)\<rparr>"

text \<open>The update \<^verbatim>\<open>{ status }\<close> and \<^verbatim>\<open>{ status, direction }\<close>.\<close>

definition set_status :: "call_status \<Rightarrow> call_update" where
  "set_status st = no_update\<lparr>up_status := Some st\<rparr>"

definition set_status_dir :: "call_status \<Rightarrow> call_direction \<Rightarrow> call_update" where
  "set_status_dir st d = no_update\<lparr>up_status := Some st, up_direction := Some d\<rparr>"

lemma opt_over_simps [simp]: "opt_over (Some v) x = Some v" "opt_over None x = x"
  by (simp_all add: opt_over_def)

lemma no_update_simps [simp]:
  "up_status no_update = None" "up_direction no_update = None" "up_to no_update = None"
  "up_end no_update = None" "up_duration no_update = None" "up_cost no_update = None"
  "up_currency no_update = None" "up_rate_prefix no_update = None" "up_billed_secs no_update = None"
  by (simp_all add: no_update_def)

lemma set_status_simps [simp]:
  "up_status (set_status st) = Some st" "up_direction (set_status st) = None"
  "up_to (set_status st) = None" "up_end (set_status st) = None"
  "up_duration (set_status st) = None" "up_cost (set_status st) = None"
  by (simp_all add: set_status_def)

lemma set_status_dir_simps [simp]:
  "up_status (set_status_dir st d) = Some st" "up_direction (set_status_dir st d) = Some d"
  "up_to (set_status_dir st d) = None" "up_end (set_status_dir st d) = None"
  "up_duration (set_status_dir st d) = None" "up_cost (set_status_dir st d) = None"
  by (simp_all add: set_status_dir_def)

lemma assign_no_update [simp]: "assign_call c no_update = c"
  by (simp add: assign_call_def)

text \<open>What an update can never touch: the identity of the call and who is on it.\<close>

lemma assign_call_frame [simp]:
  "cl_id (assign_call c u) = cl_id c" "cl_from (assign_call c u) = cl_from c"
  "cl_from_name (assign_call c u) = cl_from_name c" "cl_start (assign_call c u) = cl_start c"
  "cl_from_ext (assign_call c u) = cl_from_ext c" "cl_to_ext (assign_call c u) = cl_to_ext c"
  by (simp_all add: assign_call_def)

lemma assign_call_fields [simp]:
  "cl_status (assign_call c u) = or_else (up_status u) (cl_status c)"
  "cl_direction (assign_call c u) = or_else (up_direction u) (cl_direction c)"
  "cl_to (assign_call c u) = or_else (up_to u) (cl_to c)"
  "cl_cost (assign_call c u) = opt_over (up_cost u) (cl_cost c)"
  "cl_currency (assign_call c u) = opt_over (up_currency u) (cl_currency c)"
  by (simp_all add: assign_call_def)

section \<open>Finite enumerations\<close>

text \<open>The statuses are finitely many and enumerable, so statements about all of them compute.\<close>

instantiation call_status :: enum
begin

definition enum_call_status :: "call_status list" where
  "enum_call_status = [Ringing, Answered, Ended, Missed, Failed, Voicemail, Unreachable]"

definition enum_all_call_status :: "(call_status \<Rightarrow> bool) \<Rightarrow> bool" where
  "enum_all_call_status P = list_all P enum_class.enum"

definition enum_ex_call_status :: "(call_status \<Rightarrow> bool) \<Rightarrow> bool" where
  "enum_ex_call_status P = list_ex P enum_class.enum"

instance
proof
  have all: "x \<in> set enum_class.enum" for x :: call_status
    by (cases x) (simp_all add: enum_call_status_def)
  then show u: "UNIV = set (enum_class.enum :: call_status list)" by blast
  show "distinct (enum_class.enum :: call_status list)" by (simp add: enum_call_status_def)
  show "enum_class.enum_all P \<longleftrightarrow> Ball UNIV P" for P :: "call_status \<Rightarrow> bool"
    by (simp add: enum_all_call_status_def list_all_iff u)
  show "enum_class.enum_ex P \<longleftrightarrow> Bex UNIV P" for P :: "call_status \<Rightarrow> bool"
    by (simp add: enum_ex_call_status_def list_ex_iff u)
qed

end

section \<open>Users and registrations\<close>

record sip_source =
  src_address :: string
  src_port :: int
  src_protocol :: string

record sip_registration =
  rg_contact :: string
  rg_expires :: "int option"
  rg_ua :: "string option"
  rg_source :: "sip_source option"

record sip_user =
  su_extension :: string
  su_username :: string
  su_name :: string
  su_mobile :: "string option"
  su_registered :: bool
  su_contact :: "string option"
  su_user_agent :: "string option"
  su_blocked :: "string list option"
  su_fwd_busy :: "string option"
  su_fwd_no_answer :: "string option"
  su_fwd_unavailable :: "string option"
  su_pstn_forward :: bool
  su_pstn_target :: "string option"
  su_dnd :: bool
  su_rate_plan :: "int option"
  su_outbound_caller_id :: "string option"
  su_balance :: "rat option"
  su_balance_currency :: "string option"

end
