(* ===== verification/Dialplan.thy ===== *)
theory Dialplan
  imports Core_Types
begin

text \<open>
  The dial plan, \<^verbatim>\<open>src/src/services/dialplan.service.ts\<close>: the classification of a dialled
  string into a route and the E.164 normalisation of external numbers. The regular
  expressions are written as the predicates they denote. The emergency numbers and the
  approved SIP peers are configuration and stay parameters, and so does \<open>parse_uri\<close>,
  the URI parser of the SIP library (\<open>None\<close> where it throws).
\<close>

datatype route_type = RInternal | RExternal | RIvr | REmergency | RConference | RQueue | RBlocked | RSipUri

record dial_result =
  dr_type :: route_type
  dr_target :: string
  dr_original :: string
  dr_normalized :: string

record sip_peer =
  pr_host :: string
  pr_port :: "nat option"
  pr_transport :: "string option"
  pr_username :: "string option"
  pr_password :: "string option"
  pr_proxy :: "string option"
  pr_from_user :: "string option"
  pr_from_host :: "string option"

section \<open>The patterns\<close>

definition digits_between :: "nat \<Rightarrow> nat \<Rightarrow> string \<Rightarrow> bool" where
  "digits_between lo hi s \<longleftrightarrow> list_all is_digit s \<and> lo \<le> length s \<and> length s \<le> hi"

text \<open>\<^verbatim>\<open>/^\d{4,7}$/\<close> and \<^verbatim>\<open>/^\+?\d{7,15}$/\<close>.\<close>

definition internal_pattern :: "string \<Rightarrow> bool" where
  "internal_pattern s \<longleftrightarrow> digits_between 4 7 s"

definition strip_plus :: "string \<Rightarrow> string" where
  "strip_plus s = (case s of [] \<Rightarrow> [] | c # r \<Rightarrow> if c = CHR ''+'' then r else s)"

definition external_pattern :: "string \<Rightarrow> bool" where
  "external_pattern s \<longleftrightarrow> digits_between 7 15 (strip_plus s)"

text \<open>
  \<^verbatim>\<open>/^(5000|18\d{8}|1800\d+|800\d+|888\d+|877\d+|866\d+|855\d+|844\d+|833\d+)$/\<close>.
\<close>

definition prefixed_digits :: "string \<Rightarrow> string \<Rightarrow> bool" where
  "prefixed_digits p s \<longleftrightarrow> take (length p) s = p \<and> list_all is_digit s \<and> length p < length s"

definition ivr_pattern :: "string \<Rightarrow> bool" where
  "ivr_pattern s \<longleftrightarrow>
     s = ''5000'' \<or> (prefixed_digits ''18'' s \<and> length s = 10) \<or> prefixed_digits ''1800'' s \<or>
     list_ex (\<lambda>p. prefixed_digits p s) [''800'', ''888'', ''877'', ''866'', ''855'', ''844'', ''833'']"

text \<open>
  \<^verbatim>\<open>/^conf([a-z0-9]{3,32})$/i\<close> and \<^verbatim>\<open>/^queue([a-z0-9]{2,32})$/i\<close>: the captured group,
  if the string matches.
\<close>

definition is_alnum :: "char \<Rightarrow> bool" where
  "is_alnum c \<longleftrightarrow> is_letter c \<or> is_digit c"

definition keyword_match :: "string \<Rightarrow> nat \<Rightarrow> nat \<Rightarrow> string \<Rightarrow> string option" where
  "keyword_match kw lo hi s =
     (let r = drop (length kw) s
      in if to_lower (take (length kw) s) = kw \<and> list_all is_alnum r \<and> lo \<le> length r \<and> length r \<le> hi
         then Some r else None)"

definition conference_match :: "string \<Rightarrow> string option" where
  "conference_match s = keyword_match ''conf'' 3 32 s"

definition queue_match :: "string \<Rightarrow> string option" where
  "queue_match s = keyword_match ''queue'' 2 32 s"

section \<open>Resolution\<close>

text \<open>\<^verbatim>\<open>replace(/[\s\-()]/g, '')\<close> and \<^verbatim>\<open>replace(/[^+\d]/g, '')\<close>.\<close>

definition strip_separators :: "string \<Rightarrow> string" where
  "strip_separators s = filter (\<lambda>c. \<not> (is_space c \<or> c = CHR ''-'' \<or> c = CHR ''('' \<or> c = CHR '')'')) s"

definition plus_digits :: "string \<Rightarrow> string" where
  "plus_digits s = filter (\<lambda>c. c = CHR ''+'' \<or> is_digit c) s"

definition indian_mobile :: "string \<Rightarrow> bool" where
  "indian_mobile s \<longleftrightarrow> s \<noteq> [] \<and> hd s \<in> {CHR ''6'', CHR ''7'', CHR ''8'', CHR ''9''}"

definition normalize_external :: "string \<Rightarrow> string" where
  "normalize_external number =
     (let clean = plus_digits number
      in if \<not> prefix ''+'' clean then
           (if length clean = 10 \<and> indian_mobile clean then ''+91'' @ clean
            else if length clean = 10 then ''+1'' @ clean
            else ''+'' @ clean)
         else clean)"

definition dial_to :: "route_type \<Rightarrow> string \<Rightarrow> string \<Rightarrow> string \<Rightarrow> dial_result" where
  "dial_to t target original normalized =
     \<lparr>dr_type = t, dr_target = target, dr_original = original, dr_normalized = normalized\<rparr>"

definition resolve :: "string list \<Rightarrow> string \<Rightarrow> dial_result" where
  "resolve emergency dialed =
     (let cleaned = strip_separators dialed
      in if cleaned \<in> set emergency then dial_to REmergency cleaned dialed cleaned
         else case conference_match cleaned of
           Some g \<Rightarrow> (let roomId = to_lower g in dial_to RConference roomId dialed (''conf-'' @ roomId))
         | None \<Rightarrow> (case queue_match cleaned of
           Some g \<Rightarrow> (let queueId = to_lower g in dial_to RQueue queueId dialed (''queue-'' @ queueId))
         | None \<Rightarrow>
             if ivr_pattern cleaned then dial_to RIvr cleaned dialed cleaned
             else if internal_pattern cleaned \<and> \<not> prefix ''+'' cleaned
                  then dial_to RInternal cleaned dialed cleaned
             else if external_pattern cleaned
                  then (let n = normalize_external cleaned in dial_to RExternal n dialed n)
             else dial_to RInternal cleaned dialed cleaned))"

text \<open>
  \<^verbatim>\<open>findSipPeer\<close> and \<^verbatim>\<open>resolveExternalSip\<close>; \<open>parse_uri\<close> gives the host and the user
  part of a URI where it has them.
\<close>

definition find_sip_peer :: "sip_peer list \<Rightarrow> string \<Rightarrow> sip_peer option" where
  "find_sip_peer peers host =
     (if host = [] then None else List.find (\<lambda>p. pr_host p = to_lower host) peers)"

definition resolve_external_sip ::
  "sip_peer list \<Rightarrow> (string \<Rightarrow> (string option \<times> string option) option) \<Rightarrow> string option \<Rightarrow> dial_result option" where
  "resolve_external_sip peers parse_uri uri =
     (case uri of
        None \<Rightarrow> None
      | Some u \<Rightarrow>
          if u = [] \<or> peers = [] then None
          else (case parse_uri u of
             None \<Rightarrow> None
           | Some (h, us) \<Rightarrow>
               (let host = to_lower (str_or h [])
                in if host = [] \<or> find_sip_peer peers host = None then None
                   else (let user = trim (str_or us []);
                             target = (if user \<noteq> [] then user @ ''@'' @ host else host)
                         in Some (dial_to RSipUri target u (''sip:'' @ target))))))"

definition is_internal :: "string list \<Rightarrow> string \<Rightarrow> bool" where
  "is_internal em n \<longleftrightarrow> dr_type (resolve em n) = RInternal"

definition is_external :: "string list \<Rightarrow> string \<Rightarrow> bool" where
  "is_external em n \<longleftrightarrow> dr_type (resolve em n) = RExternal"

definition is_ivr :: "string list \<Rightarrow> string \<Rightarrow> bool" where
  "is_ivr em n \<longleftrightarrow> dr_type (resolve em n) = RIvr"

section \<open>Lemmas\<close>

lemmas pattern_defs [js_string] =
  internal_pattern_def external_pattern_def ivr_pattern_def conference_match_def queue_match_def
  keyword_match_def digits_between_def prefixed_digits_def strip_plus_def strip_separators_def
  plus_digits_def indian_mobile_def is_alnum_def

lemma dial_to_simps [simp]:
  "dr_type (dial_to t a b c) = t" "dr_target (dial_to t a b c) = a"
  "dr_original (dial_to t a b c) = b" "dr_normalized (dial_to t a b c) = c"
  by (simp_all add: dial_to_def)

lemma plus_not_digit [simp]: "\<not> is_digit CHR ''+''"
  by (simp add: is_digit_def)

lemma plus_digits_id: "list_all is_digit (strip_plus s) \<Longrightarrow> plus_digits s = s"
  by (cases s) (auto simp: strip_plus_def plus_digits_def list_all_iff filter_id_conv split: if_splits)

lemma prefix_plus: "prefix ''+'' s \<longleftrightarrow> s \<noteq> [] \<and> hd s = CHR ''+''"
  by (cases s) auto

lemma strip_plus_plus [simp]: "strip_plus (CHR ''+'' # r) = r"
  by (simp add: strip_plus_def)

lemma strip_plus_digits: "list_all is_digit s \<Longrightarrow> strip_plus s = s"
  by (cases s) (auto simp: strip_plus_def)

lemma strip_plus_no: "\<not> prefix ''+'' s \<Longrightarrow> strip_plus s = s"
  by (cases s) (auto simp: strip_plus_def)

text \<open>An external match normalises to a plus sign and seven to fifteen digits.\<close>

lemma normalize_external_shape:
  assumes "external_pattern s"
  obtains ds where "normalize_external s = CHR ''+'' # ds" "digits_between 7 15 ds"
    "suffix (strip_plus s) ds"
proof -
  let ?d = "strip_plus s"
  have d: "list_all is_digit ?d" "7 \<le> length ?d" "length ?d \<le> 15"
    using assms by (auto simp: external_pattern_def digits_between_def)
  have pd: "plus_digits s = s" using d(1) by (rule plus_digits_id)
  show thesis
  proof (cases "prefix ''+'' s")
    case True
    then obtain r where s: "s = CHR ''+'' # r" by (cases s) auto
    show ?thesis
      by (rule that [of r]) (use d pd s in \<open>auto simp: normalize_external_def digits_between_def Let_def\<close>)
  next
    case False
    then have sd: "?d = s" by (rule strip_plus_no)
    consider "length s = 10" "indian_mobile s" | "length s = 10" "\<not> indian_mobile s" | "length s \<noteq> 10"
      by blast
    then show ?thesis
    proof cases
      case 1
      show ?thesis
        by (rule that [of "''91'' @ s"])
          (use 1 d sd pd False in \<open>auto simp: normalize_external_def digits_between_def is_digit_def suffix_def\<close>)
    next
      case 2
      show ?thesis
        by (rule that [of "''1'' @ s"])
          (use 2 d sd pd False in \<open>auto simp: normalize_external_def digits_between_def is_digit_def suffix_def\<close>)
    next
      case 3
      show ?thesis
        by (rule that [of s])
          (use 3 d sd pd False in \<open>auto simp: normalize_external_def digits_between_def\<close>)
    qed
  qed
qed

text \<open>The route type decides which pattern the cleaned string matched.\<close>

lemma resolve_external_iff:
  "dr_type (resolve em s) = RExternal \<longleftrightarrow>
     (let c = strip_separators s in c \<notin> set em \<and> conference_match c = None \<and> queue_match c = None \<and>
       \<not> ivr_pattern c \<and> \<not> (internal_pattern c \<and> \<not> prefix ''+'' c) \<and> external_pattern c)"
  by (auto simp: resolve_def Let_def split: option.splits)

lemma resolve_external_target:
  assumes "dr_type (resolve em s) = RExternal"
  shows "dr_target (resolve em s) = normalize_external (strip_separators s)"
    and "dr_normalized (resolve em s) = normalize_external (strip_separators s)"
  using assms by (auto simp: resolve_def Let_def split: option.splits if_splits)

lemma strip_separators_digits: "list_all is_digit r \<Longrightarrow> strip_separators (CHR ''+'' # r) = CHR ''+'' # r"
  by (auto simp: strip_separators_def is_space_def is_digit_def list_all_iff filter_id_conv)

lemma plus_number_no_keyword:
  "conference_match (CHR ''+'' # r) = None" "queue_match (CHR ''+'' # r) = None"
  by (simp_all add: conference_match_def queue_match_def keyword_match_def to_lower_def
      lower_char_def is_upper_def)

lemma plus_number_no_ivr: "\<not> ivr_pattern (CHR ''+'' # r)"
  by (simp add: ivr_pattern_def prefixed_digits_def)

lemma plus_number_no_internal: "\<not> internal_pattern (CHR ''+'' # r)"
  by (simp add: internal_pattern_def digits_between_def)

lemma normalize_plus_number: "list_all is_digit r \<Longrightarrow> normalize_external (CHR ''+'' # r) = CHR ''+'' # r"
  by (simp add: normalize_external_def plus_digits_id Let_def)

text \<open>A string in E.164 form resolves to itself.\<close>

lemma resolve_e164:
  assumes "digits_between 7 15 r" "CHR ''+'' # r \<notin> set em"
  shows "resolve em (CHR ''+'' # r) = dial_to RExternal (CHR ''+'' # r) (CHR ''+'' # r) (CHR ''+'' # r)"
  using assms
  by (simp add: resolve_def strip_separators_digits digits_between_def plus_number_no_keyword
      plus_number_no_ivr plus_number_no_internal external_pattern_def normalize_plus_number Let_def)

lemma find_sip_peer_host: "find_sip_peer peers h = Some p \<Longrightarrow> p \<in> set peers \<and> pr_host p = to_lower h"
  by (auto simp: find_sip_peer_def split: if_splits dest: find_SomeD)

section \<open>Properties\<close>

lemma digits_plus_not_listed:
  "\<forall>e\<in>set em. \<not> prefix ''+'' e \<Longrightarrow> CHR ''+'' # r \<notin> set em"
  by (auto simp: prefix_def)

text \<open>Only E.164 numbers reach the trunk: a dialled string classified external has a
  target of a plus sign and seven to fifteen digits, whatever was dialled, and dialling the
  target again gives the target itself (the emergency list holds no number with a plus
  sign).\<close>

theorem external_is_e164:
  assumes "dr_type (resolve em s) = RExternal" "\<forall>e\<in>set em. \<not> prefix ''+'' e"
  shows "(\<exists>ds. dr_target (resolve em s) = CHR ''+'' # ds \<and> digits_between 7 15 ds) \<and>
    dr_normalized (resolve em s) = dr_target (resolve em s) \<and>
    resolve em (dr_target (resolve em s)) =
      dial_to RExternal (dr_target (resolve em s)) (dr_target (resolve em s)) (dr_target (resolve em s))"
proof -
  have "external_pattern (strip_separators s)"
    using assms(1) by (simp add: resolve_external_iff Let_def)
  then obtain ds where ds: "normalize_external (strip_separators s) = CHR ''+'' # ds" "digits_between 7 15 ds"
    by (rule normalize_external_shape)
  have t: "dr_target (resolve em s) = CHR ''+'' # ds" "dr_normalized (resolve em s) = CHR ''+'' # ds"
    using resolve_external_target [OF assms(1)] ds by simp_all
  have "CHR ''+'' # ds \<notin> set em" using assms(2) by (rule digits_plus_not_listed)
  from resolve_e164 [OF ds(2) this] show ?thesis using t ds(2) by simp
qed

lemma sample_dial:
  "resolve [''112''] ''(987) 654-3210'' =
     dial_to RExternal ''+919876543210'' ''(987) 654-3210'' ''+919876543210''"
  by (simp add: resolve_def Let_def js_string normalize_external_def prefix_def)

theorem external_is_e164_witness:
  "(\<exists>ds. ''+919876543210'' = CHR ''+'' # ds \<and> digits_between 7 15 ds) \<and>
    resolve [''112''] ''+919876543210'' =
      dial_to RExternal ''+919876543210'' ''+919876543210'' ''+919876543210''"
  using external_is_e164 [of "[''112'']" "''(987) 654-3210''"]
  by (simp add: sample_dial prefix_def)

lemma keyword_match_alnum:
  "keyword_match w a b s = Some g \<Longrightarrow> list_all is_alnum g \<and> a \<le> length g \<and> length g \<le> b"
  by (auto simp: keyword_match_def Let_def split: if_splits)

text \<open>The order of the routes: a listed emergency number is an emergency call before any
  other pattern is read, and only a listed number is; the spelling of the number (spaces,
  hyphens, brackets) never changes where it goes; and nothing dialled is classified as a
  SIP-URI route or as blocked.\<close>

theorem resolve_classes:
  "(dr_type (resolve em s) = REmergency \<longleftrightarrow> strip_separators s \<in> set em) \<and>
   dr_type (resolve em (strip_separators s)) = dr_type (resolve em s) \<and>
   dr_target (resolve em (strip_separators s)) = dr_target (resolve em s) \<and>
   dr_type (resolve em s) \<notin> {RSipUri, RBlocked}"
proof -
  have idem: "strip_separators (strip_separators s) = strip_separators s"
    by (simp add: strip_separators_def)
  show ?thesis
    by (auto simp: resolve_def Let_def idem split: option.splits)
qed

text \<open>A SIP address outside the configured peers is never dialled: where the resolver of
  external SIP URIs answers, it is a SIP-URI route to the lower-case host of a configured
  peer, and with no peers configured it never answers.\<close>

theorem external_sip_allowlist:
  assumes "resolve_external_sip peers parse_uri uri = Some d"
  shows "dr_type d = RSipUri \<and>
    (\<exists>p\<in>set peers. \<exists>us. (dr_target d = pr_host p \<or> dr_target d = us @ ''@'' @ pr_host p) \<and>
      dr_normalized d = ''sip:'' @ dr_target d)"
proof -
  obtain u h us where u: "uri = Some u" "parse_uri u = Some (h, us)"
    and f: "find_sip_peer peers (to_lower (str_or h [])) \<noteq> None"
    and d: "d = (let user = trim (str_or us []); host = to_lower (str_or h []);
        target = (if user \<noteq> [] then user @ ''@'' @ host else host)
      in dial_to RSipUri target u (''sip:'' @ target))"
    using assms by (auto simp: resolve_external_sip_def Let_def split: option.splits if_splits)
  from f obtain p where "p \<in> set peers" "pr_host p = to_lower (to_lower (str_or h []))"
    using find_sip_peer_host by fastforce
  then have "p \<in> set peers" "pr_host p = to_lower (str_or h [])" by (simp_all add: to_lower_def)
  then show ?thesis
    by (intro conjI bexI [of _ p] exI [of _ "trim (str_or us [])"]) (simp_all add: d Let_def)
qed

definition sample_peer :: "sip_peer" where
  "sample_peer = \<lparr>pr_host = ''pbx.org'', pr_port = None, pr_transport = None, pr_username = None,
     pr_password = None, pr_proxy = None, pr_from_user = None, pr_from_host = None\<rparr>"

definition sample_uri :: "string \<Rightarrow> (string option \<times> string option) option" where
  "sample_uri u = (if u = ''sip:bob@PBX.org'' then Some (Some ''PBX.org'', Some ''bob'') else None)"

lemma sample_sip:
  "resolve_external_sip [sample_peer] sample_uri (Some ''sip:bob@PBX.org'') =
     Some (dial_to RSipUri ''bob@pbx.org'' ''sip:bob@PBX.org'' ''sip:bob@pbx.org'')"
  by code_simp

theorem external_sip_allowlist_witness:
  "resolve_external_sip [sample_peer] sample_uri (Some ''sip:bob@PBX.org'') \<noteq> None \<and>
   (\<exists>p\<in>set [sample_peer]. \<exists>us. ''bob@pbx.org'' = pr_host p \<or> ''bob@pbx.org'' = us @ ''@'' @ pr_host p)"
  using external_sip_allowlist [OF sample_sip] by (auto simp: sample_sip)

end
