(* ===== verification/Trunk.thy ===== *)
theory Trunk
  imports Dialplan "HOL-Library.Word"
begin

text \<open>
  The PSTN trunk's pure parts, \<^verbatim>\<open>src/src/services/trunk.service.ts\<close> and the shared provider
  base \<^verbatim>\<open>src/src/trunk/base.trunk.ts\<close>: the allowlist match of a source address against
  exact addresses and CIDR ranges (on 32-bit words, as the bit operators of the language
  compute), the outbound URI, the caller-ID sanitiser. Placing a call is in \<open>Engine\<close>.
\<close>

unbundle bit_operations_syntax

record trunk_config =
  tk_name :: string
  tk_host :: string
  tk_port :: nat
  tk_transport :: string
  tk_username :: string
  tk_password :: string
  tk_caller_number :: string
  tk_enabled :: bool
  tk_prefix :: string
  tk_inbound_ips :: "string list"

section \<open>Source addresses\<close>

text \<open>\<^verbatim>\<open>toInt\<close>: four numbers of one byte each, shifted together.\<close>

fun shift_octets :: "32 word \<Rightarrow> string list \<Rightarrow> 32 word option" where
  "shift_octets n [] = Some n"
| "shift_octets n (p # ps) =
     (case num_int (js_number p) of
        None \<Rightarrow> None
      | Some o' \<Rightarrow> if o' < 0 \<or> 255 < o' then None else shift_octets (push_bit 8 n OR word_of_int o') ps)"

definition ipv4_to_int :: "string \<Rightarrow> 32 word option" where
  "ipv4_to_int a = (let parts = split_on CHR ''.'' a in if length parts \<noteq> 4 then None else shift_octets 0 parts)"

definition cidr_mask :: "int \<Rightarrow> 32 word" where
  "cidr_mask bits = (if bits = 0 then 0 else push_bit (nat (32 - bits)) (NOT 0))"

definition trunk_ip_matches :: "string \<Rightarrow> string \<Rightarrow> bool" where
  "trunk_ip_matches ip entry =
     (if ip = [] \<or> entry = [] then False
      else if CHR ''/'' \<notin> set entry then ip = entry
      else (let parts = split_on CHR ''/'' entry
            in case num_int (js_number (parts ! 1)) of
                 None \<Rightarrow> False
               | Some bits \<Rightarrow>
                   if bits < 0 \<or> 32 < bits then False
                   else (case (ipv4_to_int ip, ipv4_to_int (parts ! 0)) of
                      (Some a, Some r) \<Rightarrow> a AND cidr_mask bits = r AND cidr_mask bits
                    | _ \<Rightarrow> False)))"

definition is_from_trunk :: "trunk_config \<Rightarrow> string \<Rightarrow> bool" where
  "is_from_trunk t source =
     ((tk_enabled t \<and> source = tk_host t) \<or> list_ex (trunk_ip_matches source) (tk_inbound_ips t))"

section \<open>Outbound numbers\<close>

definition format_outbound_uri :: "trunk_config \<Rightarrow> string \<Rightarrow> string" where
  "format_outbound_uri t number =
     (let clean = plus_digits number;
          e164 = (if \<not> prefix ''+'' clean then
                    (if length clean = 10 \<and> indian_mobile clean then ''+91'' @ clean
                     else if length clean = 10 then ''+1'' @ clean
                     else ''+'' @ clean)
                  else clean)
      in ''sip:'' @ tk_prefix t @ e164 @ ''@'' @ tk_host t @ '':'' @ show_nat (tk_port t))"

text \<open>\<^verbatim>\<open>/^\+?\d{6,15}$/\<close> on the plus signs and digits of the caller ID.\<close>

definition sanitize_caller_id :: "string option \<Rightarrow> string" where
  "sanitize_caller_id caller_id =
     (if \<not> truthy caller_id then []
      else (let clean = plus_digits (the caller_id)
            in if digits_between 6 15 (strip_plus clean) then clean else []))"

text \<open>\<^verbatim>\<open>createOutboundLeg\<close>'s From user: the sanitised caller ID, else the trunk's number.\<close>

definition outbound_from_user :: "trunk_config \<Rightarrow> string option \<Rightarrow> string" where
  "outbound_from_user t caller_id =
     (let s = sanitize_caller_id caller_id in if s \<noteq> [] then s else tk_caller_number t)"

section \<open>The provider base class\<close>

record sip_trunk_config =
  st_host :: string
  st_port :: nat
  st_transport :: string
  st_prefix :: "string option"

definition normalize_e164 :: "string \<Rightarrow> string" where
  "normalize_e164 number =
     (let clean = plus_digits number
      in if prefix ''+'' clean then clean
         else if length clean = 10 \<and> indian_mobile clean then ''+91'' @ clean
         else if length clean = 10 then ''+1'' @ clean
         else ''+'' @ clean)"

definition provider_outbound_uri :: "sip_trunk_config \<Rightarrow> string \<Rightarrow> string" where
  "provider_outbound_uri sip number =
     ''sip:'' @ or_else (st_prefix sip) [] @ normalize_e164 number @ ''@'' @ st_host sip @ '':'' @
       show_nat (st_port sip) @ '';transport='' @ st_transport sip"

section \<open>Lemmas\<close>

text \<open>The dotted form of four bytes.\<close>

definition dotted :: "nat \<Rightarrow> nat \<Rightarrow> nat \<Rightarrow> nat \<Rightarrow> string" where
  "dotted a b c d = show_nat a @ ''.'' @ show_nat b @ ''.'' @ show_nat c @ ''.'' @ show_nat d"

definition octets_value :: "nat \<Rightarrow> nat \<Rightarrow> nat \<Rightarrow> nat \<Rightarrow> nat" where
  "octets_value a b c d = ((a * 256 + b) * 256 + c) * 256 + d"

lemma show_nat_chars: "c \<in> set (show_nat n) \<Longrightarrow> is_digit c"
  using show_nat_digits by (auto simp: list_all_iff)

lemma show_nat_no_sep: "CHR ''.'' \<notin> set (show_nat n)" "CHR ''/'' \<notin> set (show_nat n)"
  using show_nat_chars [of "CHR ''.''" n] show_nat_chars [of "CHR ''/''" n] by (auto simp: is_digit_def)

lemma split_dotted: "split_on CHR ''.'' (dotted a b c d) = [show_nat a, show_nat b, show_nat c, show_nat d]"
  by (simp add: dotted_def split_on_append split_on_no_sep show_nat_no_sep)

lemma dotted_no_slash: "CHR ''/'' \<notin> set (dotted a b c d)"
  by (simp add: dotted_def show_nat_no_sep)

lemma dotted_nonempty [simp]: "dotted a b c d \<noteq> []"
  by (simp add: dotted_def)

lemma shift_or: "v < 256 \<Longrightarrow> push_bit 8 w OR word_of_int (int v) = (w * 256 + of_nat v :: 32 word)"
proof -
  assume v: "v < 256"
  have eq: "(of_nat v :: 32 word) = take_bit 8 (of_nat v)"
    using v by (simp add: take_bit_of_nat take_bit_nat_eq_self)
  have "push_bit 8 w AND (of_nat v :: 32 word) = 0"
    by (subst eq) (auto simp: bit_eq_iff bit_simps)
  then have "push_bit 8 w OR of_nat v = push_bit 8 w + (of_nat v :: 32 word)"
    by (simp add: disjunctive_add_eq_or)
  then show ?thesis by (simp add: push_bit_eq_mult)
qed

lemma shift_octets_show:
  "v < 256 \<Longrightarrow> shift_octets w (show_nat v # ps) = shift_octets (w * 256 + of_nat v) ps"
  using shift_or [of v w] by (simp add: num_int_show)

lemma ipv4_dotted:
  assumes "a < 256" "b < 256" "c < 256" "d < 256"
  shows "ipv4_to_int (dotted a b c d) = Some (of_nat (octets_value a b c d))"
  using assms 
  by (simp add: ipv4_to_int_def split_dotted shift_octets_show octets_value_def del: shift_octets.simps(2))

lemma octets_value_bound:
  "a < 256 \<Longrightarrow> b < 256 \<Longrightarrow> c < 256 \<Longrightarrow> d < 256 \<Longrightarrow> octets_value a b c d < 2 ^ 32"
  by (simp add: octets_value_def)

text \<open>The mask keeps the leading bits: masked words agree when the shifted words do.\<close>

lemma mask_agree:
  assumes "0 \<le> n" "n \<le> 32"
  shows "(x AND cidr_mask n = y AND cidr_mask n) \<longleftrightarrow>
         unat x div 2 ^ nat (32 - n) = unat y div 2 ^ nat (32 - n)"
proof (cases "n = 0")
  case True
  have "unat w < 2 ^ LENGTH(32)" for w :: "32 word"
    by (rule unsigned_less)
  then have "unat w div 2 ^ 32 = 0" for w :: "32 word"
    by simp
  with True show ?thesis by (simp add: cidr_mask_def)
next
  case False
  let ?k = "nat (32 - n)"
  have m: "cidr_mask n = push_bit ?k (NOT 0)" using False by (simp add: cidr_mask_def)
  have "(x AND push_bit ?k (NOT 0) = y AND push_bit ?k (NOT 0)) \<longleftrightarrow> drop_bit ?k x = drop_bit ?k y"
  proof
    assume *: "x AND push_bit ?k (NOT 0) = y AND push_bit ?k (NOT 0)"
    show "drop_bit ?k x = drop_bit ?k y"
    proof (rule bit_word_eqI)
      fix i
      assume "i < LENGTH(32)"
      from * have "bit (x AND push_bit ?k (NOT 0)) (?k + i) = bit (y AND push_bit ?k (NOT 0)) (?k + i)"
        by simp
      then show "bit (drop_bit ?k x) i = bit (drop_bit ?k y) i"
        using bit_imp_le_length [of x "?k + i"] bit_imp_le_length [of y "?k + i"]
        by (auto simp: bit_simps)
    qed
  next
    assume *: "drop_bit ?k x = drop_bit ?k y"
    show "x AND push_bit ?k (NOT 0) = y AND push_bit ?k (NOT 0)"
    proof (rule bit_word_eqI)
      fix i
      assume "i < LENGTH(32)"
      from * have "bit (drop_bit ?k x) (i - ?k) = bit (drop_bit ?k y) (i - ?k)" by simp
      then show "bit (x AND push_bit ?k (NOT 0)) i = bit (y AND push_bit ?k (NOT 0)) i"
        by (auto simp: bit_simps)
    qed
  qed
  also have "\<dots> \<longleftrightarrow> unat (drop_bit ?k x) = unat (drop_bit ?k y)"
    by (rule word_unat_eq_iff)
  also have "\<dots> \<longleftrightarrow> unat x div 2 ^ ?k = unat y div 2 ^ ?k"
    by (simp only: unat_drop_bit_eq) (simp only: drop_bit_eq_div)
  finally show ?thesis by (simp add: m)
qed

text \<open>An entry with one slash, evaluated.\<close>

lemma trunk_ip_matches_slash:
  assumes "CHR ''/'' \<notin> set r" "CHR ''/'' \<notin> set bs" "ip \<noteq> []"
  shows "trunk_ip_matches ip (r @ ''/'' @ bs) =
    (case num_int (js_number bs) of
       None \<Rightarrow> False
     | Some bits \<Rightarrow> 0 \<le> bits \<and> bits \<le> 32 \<and>
         (case (ipv4_to_int ip, ipv4_to_int r) of
            (Some a, Some b) \<Rightarrow> a AND cidr_mask bits = b AND cidr_mask bits
          | _ \<Rightarrow> False))"
  using assms
  by (auto simp: trunk_ip_matches_def split_on_append split_on_no_sep split: option.splits)

lemma js_number_empty [simp]: "js_number [] = Num 0"
  by (simp add: js_number_def trim_def)

lemma normalize_e164_external: "normalize_e164 n = normalize_external n"
  by (simp add: normalize_e164_def normalize_external_def Let_def)

lemma format_outbound_external:
  "format_outbound_uri t n =
     ''sip:'' @ tk_prefix t @ normalize_external n @ ''@'' @ tk_host t @ '':'' @ show_nat (tk_port t)"
  by (simp add: format_outbound_uri_def normalize_external_def Let_def)

lemma sanitize_chars: "c \<in> set (sanitize_caller_id x) \<Longrightarrow> c = CHR ''+'' \<or> is_digit c"
  by (auto simp: sanitize_caller_id_def plus_digits_def Let_def split: if_splits)

section \<open>Properties\<close>

lemma dotted_value: "unat (of_nat (octets_value a b c d) :: 32 word) = octets_value a b c d"
  if "a < 256" "b < 256" "c < 256" "d < 256"
  using octets_value_bound [OF that] by (simp add: unsigned_of_nat take_bit_nat_eq_self)

text \<open>C38: An allowlist range admits the addresses that share its leading bits: for dotted
  addresses and a prefix length n between 0 and 32, the source matches the entry exactly
  when the two 32-bit numbers agree after dropping the low 32 - n bits, the 32-bit
  complement and shift of the mask notwithstanding.\<close>

theorem cidr_is_prefix:
  assumes "a < 256" "b < 256" "c < 256" "d < 256"
    and "a' < 256" "b' < 256" "c' < 256" "d' < 256" "n \<le> 32"
  shows "trunk_ip_matches (dotted a b c d) (dotted a' b' c' d' @ ''/'' @ show_nat n) \<longleftrightarrow>
    octets_value a b c d div 2 ^ (32 - n) = octets_value a' b' c' d' div 2 ^ (32 - n)"
  using assms mask_agree [of "int n" "of_nat (octets_value a b c d)" "of_nat (octets_value a' b' c' d')"]
  by (simp add: trunk_ip_matches_slash dotted_no_slash show_nat_no_sep num_int_show ipv4_dotted
      dotted_value nat_diff_distrib del: split_paired_All append_Cons append.simps)

theorem cidr_is_prefix_witness:
  "trunk_ip_matches (dotted 54 172 60 3) (dotted 54 172 60 0 @ ''/'' @ show_nat 30) \<and>
   \<not> trunk_ip_matches (dotted 54 172 60 4) (dotted 54 172 60 0 @ ''/'' @ show_nat 30)"
  using cidr_is_prefix [of 54 172 60 3 54 172 60 0 30] cidr_is_prefix [of 54 172 60 4 54 172 60 0 30]
  by (simp add: octets_value_def)

text \<open>A trailing slash opens the allowlist: an entry of an address, a slash and nothing more
  (which the comment calls malformed and not matching) has the prefix length 0, the
  number of the empty string, and admits every IPv4 source as the trunk.\<close>

theorem slash_admits_everyone:
  assumes "a < 256" "b < 256" "c < 256" "d < 256"
    and "a' < 256" "b' < 256" "c' < 256" "d' < 256" "dotted a' b' c' d' @ ''/'' \<in> set (tk_inbound_ips t)"
  shows "is_from_trunk t (dotted a b c d)"
proof -
  have "trunk_ip_matches (dotted a b c d) (dotted a' b' c' d' @ ''/'' @ [])"
    using assms by (subst trunk_ip_matches_slash)
      (simp_all add: dotted_no_slash num_int_def ipv4_dotted cidr_mask_def del: append_Nil2)
  then have "list_ex (trunk_ip_matches (dotted a b c d)) (tk_inbound_ips t)"
    using assms(9) by (auto simp: list_ex_iff)
  then show ?thesis by (simp add: is_from_trunk_def)
qed

definition open_trunk :: "trunk_config" where
  "open_trunk = \<lparr>tk_name = ''t'', tk_host = ''h'', tk_port = 5060, tk_transport = ''udp'', tk_username = [],
     tk_password = [], tk_caller_number = ''+15550100'', tk_enabled = True, tk_prefix = [],
     tk_inbound_ips = [dotted 54 172 60 0 @ ''/'']\<rparr>"

theorem slash_admits_everyone_witness: "is_from_trunk open_trunk (dotted 203 0 113 9)"
  using slash_admits_everyone [of 203 0 113 9 54 172 60 0 open_trunk] by (simp add: open_trunk_def)

end
