(* ===== verification/Rate_Limit.thy ===== *)
theory Rate_Limit
  imports Core_Types
begin

text \<open>
  The three request limiters of the engine: the SIP limiter per source address
  (\<^verbatim>\<open>checkSipRate\<close> in \<^verbatim>\<open>src/src/sip/sip.server.ts\<close>), the HTTP middleware
  (\<^verbatim>\<open>src/src/http/middleware/rate-limit.ts\<close>) and the per-caller limiter of Teams joins
  (\<^verbatim>\<open>src/src/sip/routes/teams-meeting.handler.ts\<close>). All three keep a counter and the end of
  its window per key; the locale states that contract, proves the bound on what passes in
  one window length, and is interpreted on each of them.
\<close>

record limit_entry =
  le_count :: nat
  le_reset :: int

type_synonym limit_map = "(string, limit_entry) js_map"

section \<open>The limiters\<close>

definition check_sip_rate :: "int \<Rightarrow> int \<Rightarrow> int \<Rightarrow> string \<Rightarrow> limit_map \<Rightarrow> bool \<times> limit_map" where
  "check_sip_rate limit window now ip m =
     (case m_get m ip of
        None \<Rightarrow> (True, m_set ip \<lparr>le_count = 1, le_reset = now + window\<rparr> m)
      | Some e \<Rightarrow>
          if now > le_reset e then (True, m_set ip \<lparr>le_count = 1, le_reset = now + window\<rparr> m)
          else (let e' = e\<lparr>le_count := le_count e + 1\<rparr>
                in (int (le_count e') \<le> limit, m_set ip e' m)))"

text \<open>The middleware answers 429 with the seconds to wait, or calls the next handler.\<close>

datatype http_verdict = Next | TooMany int

definition http_rate_limit :: "int \<Rightarrow> int \<Rightarrow> int \<Rightarrow> string \<Rightarrow> limit_map \<Rightarrow> http_verdict \<times> limit_map" where
  "http_rate_limit window max_requests now ip m =
     (case m_get m ip of
        None \<Rightarrow> (Next, m_set ip \<lparr>le_count = 1, le_reset = now + window\<rparr> m)
      | Some e \<Rightarrow>
          if now > le_reset e then (Next, m_set ip \<lparr>le_count = 1, le_reset = now + window\<rparr> m)
          else (let e' = e\<lparr>le_count := le_count e + 1\<rparr>; m' = m_set ip e' m
                in if int (le_count e') > max_requests
                   then (TooMany \<lceil>(of_int (le_reset e' - now) / 1000 :: rat)\<rceil>, m')
                   else (Next, m')))"

definition http_sweep :: "int \<Rightarrow> limit_map \<Rightarrow> limit_map" where
  "http_sweep now m = filter (\<lambda>(k, e). \<not> now > le_reset e) m"

definition teams_limit :: nat where
  "teams_limit = 5"

definition teams_window_ms :: int where
  "teams_window_ms = 60000"

definition teams_allow :: "int \<Rightarrow> string \<Rightarrow> limit_map \<Rightarrow> bool \<times> limit_map" where
  "teams_allow now caller m =
     (case m_get m caller of
        None \<Rightarrow> (True, m_set caller \<lparr>le_count = 1, le_reset = now + teams_window_ms\<rparr> m)
      | Some e \<Rightarrow>
          if now > le_reset e then (True, m_set caller \<lparr>le_count = 1, le_reset = now + teams_window_ms\<rparr> m)
          else if le_count e \<ge> teams_limit then (False, m)
          else (True, m_set caller (e\<lparr>le_count := le_count e + 1\<rparr>) m))"

section \<open>Runs of requests\<close>

type_synonym 'm limiter = "int \<Rightarrow> string \<Rightarrow> 'm \<Rightarrow> bool \<times> 'm"

text \<open>The verdicts on a sequence of timed requests, each with its key.\<close>

fun run_limiter :: "'m limiter \<Rightarrow> (int \<times> string) list \<Rightarrow> 'm \<Rightarrow> (string \<times> bool) list" where
  "run_limiter step [] m = []"
| "run_limiter step ((t, k) # rs) m = (case step t k m of (b, m') \<Rightarrow> (k, b) # run_limiter step rs m')"

definition allowed :: "string \<Rightarrow> (string \<times> bool) list \<Rightarrow> nat" where
  "allowed k vs = length (filter (\<lambda>v. v = (k, True)) vs)"

definition requests :: "string \<Rightarrow> (int \<times> string) list \<Rightarrow> nat" where
  "requests k rs = length (filter (\<lambda>r. snd r = k) rs)"

lemma requests_simps [simp]:
  "requests k [] = 0"
  "requests k ((t, j) # rs) = (if j = k then Suc (requests k rs) else requests k rs)"
  by (simp_all add: requests_def)

lemma allowed_simps [simp]:
  "allowed k [] = 0"
  "allowed k ((j, b) # vs) = (if j = k \<and> b then Suc (allowed k vs) else allowed k vs)"
  by (auto simp: allowed_def)

text \<open>
  The contract: a key has no open window, or one that has let \<open>c\<close> requests pass and ends
  at \<open>r\<close>. A request without an open window passes and opens one; in an open window it
  passes while fewer than the limit have; other keys are not affected.
\<close>

locale window_limiter =
  fixes step :: "'m limiter"
    and view :: "'m \<Rightarrow> string \<Rightarrow> (nat \<times> int) option"
    and limit :: nat
    and window :: int
  assumes limit_pos: "0 < limit"
    and fresh: "(\<And>c r. view m k = Some (c, r) \<Longrightarrow> r < t) \<Longrightarrow>
      fst (step t k m) \<and> view (snd (step t k m)) k = Some (1, t + window)"
    and inside: "view m k = Some (c, r) \<Longrightarrow> t \<le> r \<Longrightarrow>
      fst (step t k m) = (c < limit) \<and>
      view (snd (step t k m)) k = Some (if c < limit then Suc c else c, r)"
    and other: "j \<noteq> k \<Longrightarrow> view (snd (step t k m)) j = view m j"
begin

text \<open>Requests that stay inside the open window pass up to what is left of the limit.\<close>

lemma allowed_inside:
  assumes "view m k = Some (c, r)" "\<forall>(t, j)\<in>set rs. t \<le> r"
  shows "allowed k (run_limiter step rs m) = min (limit - c) (requests k rs)"
  using assms
proof (induction rs arbitrary: m c)
  case (Cons a rs)
  obtain t j where a: "a = (t, j)" by force
  obtain b m' where s: "step t j m = (b, m')" by force
  show ?case
  proof (cases "j = k")
    case True
    have "b = (c < limit)" "view m' k = Some (if c < limit then Suc c else c, r)"
      using inside [OF Cons.prems(1), of t] Cons.prems(2) s a True by auto
    moreover have "\<forall>(t, j)\<in>set rs. t \<le> r" using Cons.prems(2) by simp
    ultimately show ?thesis
      using Cons.IH [of m' "if c < limit then Suc c else c"] a s True by (auto split: if_splits)
  next
    case False
    then have "view m' k = Some (c, r)" using other [of k j t m] Cons.prems(1) s by simp
    then show ?thesis using Cons.IH [of m' c] Cons.prems(2) a s False by auto
  qed
qed simp

text \<open>A request that opens a window covering the rest of the run.\<close>

lemma allowed_opening:
  assumes "\<And>c r. view m k = Some (c, r) \<Longrightarrow> r < t" "\<forall>(u, j)\<in>set rs. u \<le> t + window"
  shows "allowed k (run_limiter step ((t, k) # rs) m) = min limit (Suc (requests k rs))"
proof -
  obtain b m' where s: "step t k m = (b, m')" by force
  have v: "b" "view m' k = Some (1, t + window)"
    using fresh [of m k t, OF assms(1)] s by auto
  show ?thesis
    using allowed_inside [OF v(2) assms(2)] s v(1) limit_pos by (auto simp: min_def)
qed

text \<open>
  A stretch of one window length passes at most the limit when no window is open at its
  start, and at most the rest of the open window more when one is.
\<close>

lemma allowed_bound:
  assumes "\<forall>(t, j)\<in>set rs. t0 \<le> t \<and> t \<le> t0 + window"
  shows "allowed k (run_limiter step rs m) \<le>
    limit + (case view m k of None \<Rightarrow> 0 | Some (c, r) \<Rightarrow> if r < t0 then 0 else limit - c)"
  using assms
proof (induction rs arbitrary: m)
  case (Cons a rs)
  obtain t j where a: "a = (t, j)" by force
  obtain b m' where s: "step t j m = (b, m')" by force
  have rest: "\<forall>(t, j)\<in>set rs. t0 \<le> t \<and> t \<le> t0 + window" and t: "t0 \<le> t"
    using Cons.prems a by auto
  note IH = Cons.IH [OF rest, of m']
  show ?case
  proof (cases "j = k")
    case False
    then have "view m' k = view m k" using other [of k j t m] s by simp
    with IH show ?thesis using a s False by simp
  next
    case k: True
    show ?thesis
    proof (cases "\<forall>c r. view m k = Some (c, r) \<longrightarrow> r < t")
      case True
      have "\<forall>(u, j)\<in>set rs. u \<le> t + window" using rest t by force
      then have "allowed k (run_limiter step ((t, k) # rs) m) \<le> limit"
        using allowed_opening [of m k t rs] True by auto
      then show ?thesis using a k by simp
    next
      case False
      then obtain c r where cr: "view m k = Some (c, r)" "t \<le> r" by (meson not_le)
      have v: "b = (c < limit)" "view m' k = Some (if c < limit then Suc c else c, r)"
        using inside [OF cr] s k by auto
      have "\<not> r < t0" using t cr(2) by simp
      then show ?thesis using IH v cr a s k by (auto split: if_splits)
    qed
  qed
qed simp

lemma allowed_twice:
  assumes "\<forall>(t, j)\<in>set rs. t0 \<le> t \<and> t \<le> t0 + window"
  shows "allowed k (run_limiter step rs m) \<le> 2 * limit"
  using allowed_bound [OF assms, of k m] by (auto split: option.splits prod.splits if_splits)

end

section \<open>The limiters satisfy the contract\<close>

text \<open>What has passed in the open window: the counter, capped at the limit where it counts refusals too.\<close>

definition limit_view :: "nat \<Rightarrow> limit_map \<Rightarrow> string \<Rightarrow> (nat \<times> int) option" where
  "limit_view limit m k = map_option (\<lambda>e. (min limit (le_count e), le_reset e)) (m_get m k)"

definition http_allow :: "int \<Rightarrow> int \<Rightarrow> limit_map limiter" where
  "http_allow window max_requests now ip m =
     (case http_rate_limit window max_requests now ip m of (v, m') \<Rightarrow> (v = Next, m'))"

lemma http_allow_sip: "http_allow window limit now ip m = check_sip_rate limit window now ip m"
  by (auto simp: http_allow_def http_rate_limit_def check_sip_rate_def Let_def split: option.splits)

lemma limit_view_Some: "limit_view n m k = Some (c, r) \<longleftrightarrow>
    (\<exists>e. m_get m k = Some e \<and> c = min n (le_count e) \<and> r = le_reset e)"
  by (auto simp: limit_view_def)

lemma limit_view_set: "limit_view n (m_set k e m) j =
    (if j = k then Some (min n (le_count e), le_reset e) else limit_view n m j)"
  by (simp add: limit_view_def js.get_put)

interpretation sip: window_limiter "check_sip_rate (int (Suc n)) w" "limit_view (Suc n)" "Suc n" w for n w
proof unfold_locales
  fix m :: limit_map and k t
  assume "\<And>c r. limit_view (Suc n) m k = Some (c, r) \<Longrightarrow> r < t"
  then show "fst (check_sip_rate (int (Suc n)) w t k m) \<and>
      limit_view (Suc n) (snd (check_sip_rate (int (Suc n)) w t k m)) k = Some (1, t + w)"
    by (cases "m_get m k") (auto simp: limit_view_Some check_sip_rate_def limit_view_set)
next
  fix m :: limit_map and k c r t
  assume "limit_view (Suc n) m k = Some (c, r)" "t \<le> r"
  then obtain e where "m_get m k = Some e" "c = min (Suc n) (le_count e)" "r = le_reset e" "t \<le> r"
    by (auto simp: limit_view_Some)
  then show "fst (check_sip_rate (int (Suc n)) w t k m) = (c < Suc n) \<and>
      limit_view (Suc n) (snd (check_sip_rate (int (Suc n)) w t k m)) k =
      Some (if c < Suc n then Suc c else c, r)"
    by (cases "le_count e < Suc n") (auto simp: check_sip_rate_def limit_view_set Let_def)
next
  fix j k :: string and t m
  assume "j \<noteq> k"
  then show "limit_view (Suc n) (snd (check_sip_rate (int (Suc n)) w t k m)) j = limit_view (Suc n) m j"
    by (simp add: check_sip_rate_def limit_view_set Let_def split: option.split)
qed simp

interpretation http: window_limiter "http_allow w (int (Suc n))" "limit_view (Suc n)" "Suc n" w for n w
proof -
  have "http_allow w (int (Suc n)) = check_sip_rate (int (Suc n)) w"
    by (intro ext) (rule http_allow_sip)
  then show "window_limiter (http_allow w (int (Suc n))) (limit_view (Suc n)) (Suc n) w"
    using sip.window_limiter_axioms by simp
qed

interpretation teams: window_limiter teams_allow "limit_view teams_limit" teams_limit teams_window_ms
proof unfold_locales
  fix m :: limit_map and k t
  assume "\<And>c r. limit_view teams_limit m k = Some (c, r) \<Longrightarrow> r < t"
  then show "fst (teams_allow t k m) \<and>
      limit_view teams_limit (snd (teams_allow t k m)) k = Some (1, t + teams_window_ms)"
    by (cases "m_get m k") (auto simp: limit_view_Some teams_allow_def limit_view_set teams_limit_def)
next
  fix m :: limit_map and k c r t
  assume "limit_view teams_limit m k = Some (c, r)" "t \<le> r"
  then obtain e where "m_get m k = Some e" "c = min teams_limit (le_count e)" "r = le_reset e" "t \<le> r"
    by (auto simp: limit_view_Some)
  then show "fst (teams_allow t k m) = (c < teams_limit) \<and>
      limit_view teams_limit (snd (teams_allow t k m)) k =
      Some (if c < teams_limit then Suc c else c, r)"
    by (cases "le_count e < teams_limit") (auto simp: teams_allow_def limit_view_def)
next
  fix j k :: string and t m
  assume "j \<noteq> k"
  then show "limit_view teams_limit (snd (teams_allow t k m)) j = limit_view teams_limit m j"
    by (simp add: teams_allow_def limit_view_set split: option.split)
qed (simp add: teams_limit_def)

text \<open>The sweep drops closed windows only, so no later decision changes.\<close>

lemma http_sweep_get:
  assumes "m_ok m"
  shows "m_get (http_sweep now m) k =
    (case m_get m k of None \<Rightarrow> None | Some e \<Rightarrow> if now > le_reset e then None else Some e)"
  using assms
proof (induction m)
  case (Cons p m)
  then show ?case
    by (cases p) (auto simp: http_sweep_def map_of_eq_None_iff [symmetric] split: option.splits)
qed (simp add: http_sweep_def)

text \<open>Two maps that only differ in closed windows give the same verdicts from then on.\<close>

definition same_open :: "int \<Rightarrow> limit_map \<Rightarrow> limit_map \<Rightarrow> bool" where
  "same_open now m m' \<longleftrightarrow> (\<forall>k. m_get m k = m_get m' k \<or>
     (\<forall>e. m_get m k = Some e \<or> m_get m' k = Some e \<longrightarrow> le_reset e < now))"

lemma same_open_step:
  assumes "same_open now m m'" "now \<le> t"
  shows "fst (http_allow w n t k m) = fst (http_allow w n t k m')"
    and "same_open now (snd (http_allow w n t k m)) (snd (http_allow w n t k m'))"
proof -
  have k: "m_get m k = m_get m' k \<or> (\<forall>e. m_get m k = Some e \<or> m_get m' k = Some e \<longrightarrow> le_reset e < now)"
    using assms by (auto simp: same_open_def)
  show "fst (http_allow w n t k m) = fst (http_allow w n t k m')"
    using k assms(2)
    by (cases "m_get m k"; cases "m_get m' k") (auto simp: http_allow_sip check_sip_rate_def Let_def)
  show "same_open now (snd (http_allow w n t k m)) (snd (http_allow w n t k m'))"
    using k assms
    by (cases "m_get m k"; cases "m_get m' k")
      (auto simp: http_allow_sip check_sip_rate_def Let_def same_open_def js.get_put)
qed

lemma same_open_run:
  assumes "same_open now m m'" "\<forall>(t, k)\<in>set rs. now \<le> t"
  shows "run_limiter (http_allow w n) rs m = run_limiter (http_allow w n) rs m'"
  using assms
proof (induction rs arbitrary: m m')
  case (Cons a rs)
  obtain t k where a: "a = (t, k)" by force
  then have t: "now \<le> t" using Cons.prems(2) by simp
  note step = same_open_step [OF Cons.prems(1) t, of w n k]
  show ?case
    using Cons.IH [OF step(2)] Cons.prems(2) step(1) a by (auto split: prod.split)
qed simp

section \<open>Properties\<close>

text \<open>The SIP limiter lets at most twice its limit of one source's requests pass in any
  stretch of one window length, whatever the other sources send in between and whatever is
  in the table at the start.\<close>

theorem sip_rate_bound:
  assumes "0 < limit" "\<forall>(t, k)\<in>set rs. t0 \<le> t \<and> t \<le> t0 + window"
  shows "int (allowed ip (run_limiter (check_sip_rate limit window) rs m)) \<le> 2 * limit"
proof -
  obtain n where n: "limit = int (Suc n)"
    using assms(1) by (metis gr0_implies_Suc pos_int_cases)
  show ?thesis using sip.allowed_twice [OF assms(2), of ip n m] by (simp add: n)
qed

theorem sip_rate_bound_witness:
  "int (allowed ''a'' (run_limiter (check_sip_rate 1 60) [(0, ''a''), (5, ''b''), (60, ''a'')] [])) \<le> 2 * 1"
  by (rule sip_rate_bound [of 1 _ 0]) simp_all

text \<open>A source the SIP limiter has not seen gets exactly its limit in the window its first
  request opens: of any requests in that window, as many pass as fit into the limit.\<close>

theorem sip_rate_exact:
  assumes "0 < limit" "m_get m ip = None" "\<forall>(u, k)\<in>set rs. u \<le> t + window"
  shows "int (allowed ip (run_limiter (check_sip_rate limit window) ((t, ip) # rs) m)) =
    min limit (int (requests ip ((t, ip) # rs)))"
proof -
  obtain n where n: "limit = int (Suc n)"
    using assms(1) by (metis gr0_implies_Suc pos_int_cases)
  have "\<And>c r. limit_view (Suc n) m ip = Some (c, r) \<Longrightarrow> r < t"
    using assms(2) by (simp add: limit_view_def)
  from sip.allowed_opening [OF this assms(3)] show ?thesis by (simp add: n)
qed

theorem sip_rate_exact_witness:
  "int (allowed ''a'' (run_limiter (check_sip_rate 1 60) ((0, ''a'') # [(5, ''a''), (60, ''b'')]) [])) =
    min 1 (int (requests ''a'' ((0, ''a'') # [(5, ''a''), (60, ''b'')])))"
  by (rule sip_rate_exact) simp_all

text \<open>The bound of two limits is reached: the window is fixed, not sliding, so a source
  that waits for the end of its window gets twice the Teams limit through in two
  milliseconds.\<close>

theorem teams_burst:
  "allowed c (run_limiter teams_allow
     ((0, c) # replicate 4 (teams_window_ms, c) @ replicate 5 (teams_window_ms + 1, c)) []) = 2 * teams_limit"
  by (simp add: teams_limit_def teams_window_ms_def teams_allow_def numeral_eq_Suc)

text \<open>The periodic sweep of the HTTP limiter's table changes no later verdict.\<close>

theorem http_sweep_invisible:
  assumes "m_ok m" "\<forall>(t, k)\<in>set rs. now \<le> t"
  shows "run_limiter (http_allow window max_requests) rs (http_sweep now m) =
    run_limiter (http_allow window max_requests) rs m"
proof -
  have "same_open now (http_sweep now m) m"
    by (auto simp: same_open_def http_sweep_get [OF assms(1)] split: option.splits if_splits)
  then show ?thesis using assms(2) by (rule same_open_run)
qed

theorem http_sweep_invisible_witness:
  "run_limiter (http_allow 60 1) [(9, ''a''), (9, ''b'')]
     (http_sweep 7 [(''a'', \<lparr>le_count = 1, le_reset = 5\<rparr>), (''b'', \<lparr>le_count = 1, le_reset = 9\<rparr>)]) =
   run_limiter (http_allow 60 1) [(9, ''a''), (9, ''b'')]
     [(''a'', \<lparr>le_count = 1, le_reset = 5\<rparr>), (''b'', \<lparr>le_count = 1, le_reset = 9\<rparr>)]"
  by (rule http_sweep_invisible) simp_all

end
