(* ===== verification/Abuse_Guard.thy ===== *)
theory Abuse_Guard
  imports Js_Number
begin

text \<open>
  The SIP abuse tracker (\<^verbatim>\<open>src/src/sip/abuse-guard.ts\<close>): offences counted per source
  address, bans with an end, the operating-system firewall command run on a ban. The command
  is returned as the argument vector \<^verbatim>\<open>execFile\<close> gets. Lemmas: a ban stands until its
  end whatever is recorded, an address is banned exactly by enough offences in one window, a
  trusted address never has a record, sweeping changes no later decision.
\<close>

section \<open>State and operations\<close>

record offense =
  of_count :: nat
  of_window_start :: int
  of_last_seen :: int
  of_banned_until :: int

record guard =
  gd_threshold :: int
  gd_window :: int
  gd_ban_ms :: int
  gd_firewall :: string
  gd_trusted :: "string \<Rightarrow> bool"
  gd_records :: "(string, offense) js_map"

definition new_guard :: "int \<Rightarrow> int \<Rightarrow> int \<Rightarrow> string option \<Rightarrow> (string \<Rightarrow> bool) option \<Rightarrow> guard" where
  "new_guard threshold window ban_ms firewall trusted =
     \<lparr>gd_threshold = max 1 threshold, gd_window = max 1000 window, gd_ban_ms = max 1000 ban_ms,
      gd_firewall = trim (str_or firewall []), gd_trusted = or_else trusted (\<lambda>_. False),
      gd_records = []\<rparr>"

definition is_hex :: "char \<Rightarrow> bool" where
  "is_hex c \<longleftrightarrow> is_digit c \<or> (97 \<le> (of_char c :: nat) \<and> (of_char c :: nat) \<le> 102)
     \<or> (65 \<le> (of_char c :: nat) \<and> (of_char c :: nat) \<le> 70)"

definition dotted_quad :: "string \<Rightarrow> bool" where
  "dotted_quad ip =
     (let parts = split_on CHR ''.'' ip
      in length parts = 4 \<and> list_all (\<lambda>p. list_all is_digit p \<and> 1 \<le> length p \<and> length p \<le> 3) parts)"

definition is_valid_ip :: "string \<Rightarrow> bool" where
  "is_valid_ip ip =
     (if dotted_quad ip
      then list_all (\<lambda>p. case js_number p of Num q \<Rightarrow> q \<le> 255 | _ \<Rightarrow> False) (split_on CHR ''.'' ip)
      else ip \<noteq> [] \<and> list_all (\<lambda>c. is_hex c \<or> c = CHR '':'') ip \<and> CHR '':'' \<in> set ip \<and> length ip \<le> 45)"

text \<open>\<^verbatim>\<open>s.split(/\s+/)\<close>.\<close>

function split_ws :: "string \<Rightarrow> string list" where
  "split_ws [] = [[]]"
| "split_ws (x # xs) =
     (if is_space x then [] # split_ws (dropWhile is_space xs)
      else (case split_ws xs of [] \<Rightarrow> [[x]] | y # ys \<Rightarrow> (x # y) # ys))"
  by pat_completeness auto

termination split_ws
  by (relation "measure length") (auto simp: le_imp_less_Suc length_dropWhile_le)

definition apply_firewall :: "guard \<Rightarrow> string \<Rightarrow> string list option" where
  "apply_firewall g ip =
     (if gd_firewall g = [] then None
      else if \<not> is_valid_ip ip then None
      else (let parts = map (\<lambda>p. if p = ''{ip}'' then ip else p) (split_ws (gd_firewall g))
            in if hd parts = [] then None else Some parts))"

definition is_banned :: "int \<Rightarrow> guard \<Rightarrow> string \<Rightarrow> bool" where
  "is_banned now g ip = (case m_get (gd_records g) ip of None \<Rightarrow> False | Some r \<Rightarrow> of_banned_until r > now)"

definition record_offense :: "int \<Rightarrow> string \<Rightarrow> guard \<Rightarrow> guard \<times> string list option" where
  "record_offense now ip g =
     (if ip = [] \<or> gd_trusted g ip then (g, None)
      else (let old = m_get (gd_records g) ip;
                fresh = \<lparr>of_count = 0, of_window_start = now, of_last_seen = now,
                         of_banned_until = (case old of None \<Rightarrow> 0 | Some r \<Rightarrow> of_banned_until r)\<rparr>;
                r0 = (case old of None \<Rightarrow> fresh
                      | Some r \<Rightarrow> if now - of_window_start r > gd_window g then fresh else r);
                r1 = r0\<lparr>of_count := of_count r0 + 1, of_last_seen := now\<rparr>
            in if int (of_count r1) \<ge> gd_threshold g \<and> of_banned_until r1 \<le> now
               then (g\<lparr>gd_records := m_set ip (r1\<lparr>of_banned_until := now + gd_ban_ms g\<rparr>) (gd_records g)\<rparr>,
                     apply_firewall g ip)
               else (g\<lparr>gd_records := m_set ip r1 (gd_records g)\<rparr>, None)))"

definition record_success :: "int \<Rightarrow> string \<Rightarrow> guard \<Rightarrow> guard" where
  "record_success now ip g =
     (case m_get (gd_records g) ip of
        None \<Rightarrow> g
      | Some r \<Rightarrow> if of_banned_until r \<le> now then g\<lparr>gd_records := m_del ip (gd_records g)\<rparr> else g)"

definition sweep_keeps :: "int \<Rightarrow> guard \<Rightarrow> offense \<Rightarrow> bool" where
  "sweep_keeps now g r \<longleftrightarrow> of_banned_until r > now \<or> now - of_last_seen r < gd_window g"

definition sweep :: "int \<Rightarrow> guard \<Rightarrow> guard" where
  "sweep now g = g\<lparr>gd_records := filter (\<lambda>(ip, r). sweep_keeps now g r) (gd_records g)\<rparr>"

section \<open>Histories\<close>

datatype guard_op = Offense string | Success string | Sweep

fun guard_step :: "int \<times> guard_op \<Rightarrow> guard \<Rightarrow> guard" where
  "guard_step (t, Offense ip) g = fst (record_offense t ip g)"
| "guard_step (t, Success ip) g = record_success t ip g"
| "guard_step (t, Sweep) g = sweep t g"

definition guard_run :: "(int \<times> guard_op) list \<Rightarrow> guard \<Rightarrow> guard" where
  "guard_run ops g = fold guard_step ops g"

lemma guard_run_simps [simp]:
  "guard_run [] g = g" "guard_run (p # ops) g = guard_run ops (guard_step p g)"
  "guard_run (ops @ ops') g = guard_run ops' (guard_run ops g)"
  by (simp_all add: guard_run_def)

section \<open>Lemmas\<close>

definition settings :: "guard \<Rightarrow> int \<times> int \<times> int \<times> string \<times> (string \<Rightarrow> bool)" where
  "settings g = (gd_threshold g, gd_window g, gd_ban_ms g, gd_firewall g, gd_trusted g)"

lemma settings_step [simp]: "settings (guard_step p g) = settings g"
  by (cases p; cases "snd p")
    (auto simp: settings_def record_offense_def record_success_def sweep_def Let_def split: option.splits)

lemma settings_run [simp]: "settings (guard_run ops g) = settings g"
  by (induction ops arbitrary: g) simp_all

lemma settings_fields:
  "settings g = settings h \<Longrightarrow> gd_threshold g = gd_threshold h \<and> gd_window g = gd_window h \<and>
     gd_ban_ms g = gd_ban_ms h \<and> gd_firewall g = gd_firewall h \<and> gd_trusted g = gd_trusted h"
  by (simp add: settings_def)

lemma m_get_sweep:
  "m_ok (gd_records g) \<Longrightarrow> m_get (gd_records (sweep t g)) ip =
    (case m_get (gd_records g) ip of None \<Rightarrow> None | Some r \<Rightarrow> if sweep_keeps t g r then Some r else None)"
proof -
  have "m_ok xs \<Longrightarrow> m_get (filter (\<lambda>(ip, r). P r) xs) ip =
      (case m_get xs ip of None \<Rightarrow> None | Some r \<Rightarrow> if P r then Some r else None)" for P and xs :: "(string, offense) js_map"
  proof (induction xs)
    case (Cons p xs)
    then show ?case by (cases p) (auto simp: map_of_eq_None_iff [symmetric] split: option.splits)
  qed simp
  then show "m_ok (gd_records g) \<Longrightarrow> ?thesis" by (simp add: sweep_def)
qed

lemma m_ok_step: "m_ok (gd_records g) \<Longrightarrow> m_ok (gd_records (guard_step p g))"
  by (cases p; cases "snd p")
    (auto simp: record_offense_def record_success_def sweep_def Let_def distinct_map_filter split: option.splits)

lemma m_ok_run: "m_ok (gd_records g) \<Longrightarrow> m_ok (gd_records (guard_run ops g))"
  by (induction ops arbitrary: g) (simp_all add: m_ok_step)

text \<open>The record of an address after an offence.\<close>

lemma offense_record:
  assumes "ip \<noteq> []" "\<not> gd_trusted g ip"
  shows "\<exists>r. m_get (gd_records (fst (record_offense t ip g))) ip = Some r \<and> of_last_seen r = t \<and>
    (\<forall>r0. m_get (gd_records g) ip = Some r0 \<longrightarrow> t < of_banned_until r0 \<longrightarrow> of_banned_until r = of_banned_until r0)"
  using assms by (auto simp: record_offense_def Let_def split: option.splits)

lemma offense_other: "j \<noteq> ip \<Longrightarrow> m_get (gd_records (fst (record_offense t ip g))) j = m_get (gd_records g) j"
  by (auto simp: record_offense_def Let_def js.get_put split: option.splits)

lemma success_other: "j \<noteq> ip \<Longrightarrow> m_get (gd_records (record_success t ip g)) j = m_get (gd_records g) j"
  by (auto simp: record_success_def js.get_del split: option.splits)

text \<open>A ban that has not ended is not moved by any step.\<close>

lemma ban_step:
  assumes "m_ok (gd_records g)" "m_get (gd_records g) ip = Some r" "of_banned_until r = b" "fst p < b"
  shows "\<exists>r'. m_get (gd_records (guard_step p g)) ip = Some r' \<and> of_banned_until r' = b"
proof (cases p)
  case (Pair t op)
  show ?thesis
  proof (cases op)
    case (Offense j)
    show ?thesis
    proof (cases "j = ip \<and> j \<noteq> [] \<and> \<not> gd_trusted g j")
      case True
      then show ?thesis
        using offense_record [of j g t] assms Pair Offense by auto
    next
      case False
      then have "m_get (gd_records (fst (record_offense t j g))) ip = m_get (gd_records g) ip"
        using offense_other [of ip j t g] by (cases "j = ip") (auto simp: record_offense_def)
      then show ?thesis using assms Pair Offense by auto
    qed
  next
    case (Success j)
    then show ?thesis
      using assms Pair success_other [of ip j t g]
      by (cases "j = ip") (auto simp: record_success_def)
  next
    case Sweep
    then show ?thesis using assms Pair by (auto simp: m_get_sweep sweep_keeps_def)
  qed
qed

lemma ban_run:
  assumes "m_ok (gd_records g)" "m_get (gd_records g) ip = Some r" "of_banned_until r = b"
    "\<forall>p\<in>set ops. fst p < b"
  shows "\<exists>r'. m_get (gd_records (guard_run ops g)) ip = Some r' \<and> of_banned_until r' = b"
  using assms
proof (induction ops arbitrary: g r)
  case (Cons p ops)
  from ban_step [OF Cons.prems(1-3), of p] Cons.prems(4)
  obtain r' where "m_get (gd_records (guard_step p g)) ip = Some r'" "of_banned_until r' = b" by auto
  then show ?case using Cons.IH [of "guard_step p g" r'] Cons.prems m_ok_step by simp
qed simp

text \<open>The number of offences of one address in a history.\<close>

definition offenses :: "string \<Rightarrow> (int \<times> guard_op) list \<Rightarrow> nat" where
  "offenses ip ops = length (filter (\<lambda>p. snd p = Offense ip) ops)"

lemma offenses_simps [simp]:
  "offenses ip [] = 0"
  "offenses ip ((t, op) # ops) = (if op = Offense ip then 1 else 0) + offenses ip ops"
  by (simp_all add: offenses_def)

lemma offenses_snoc [simp]:
  "offenses ip (ops @ [(t, op)]) = offenses ip ops + (if op = Offense ip then 1 else 0)"
  by (simp add: offenses_def)

text \<open>The steps that concern one address: its own offences and successes, and every sweep.\<close>

lemma step_other:
  assumes "m_ok (gd_records g)" "op \<noteq> Offense ip" "op \<noteq> Success ip" "op \<noteq> Sweep"
  shows "m_get (gd_records (guard_step (t, op) g)) ip = m_get (gd_records g) ip"
  using assms by (cases op) (auto simp: offense_other success_other)

text \<open>Below the threshold: the tally never exceeds the offences, and nothing is banned.\<close>

lemma below_threshold:
  assumes "m_get (gd_records g) ip = None" "m_ok (gd_records g)" "int (offenses ip ops) < gd_threshold g"
  shows "case m_get (gd_records (guard_run ops g)) ip of None \<Rightarrow> True
    | Some r \<Rightarrow> of_count r \<le> offenses ip ops \<and> of_banned_until r = 0"
  using assms(3)
proof (induction ops rule: rev_induct)
  case Nil
  show ?case using assms(1) by simp
next
  case (snoc p ops)
  obtain t op where p: "p = (t, op)" by force
  let ?g = "guard_run ops g"
  have ok: "m_ok (gd_records ?g)" by (rule m_ok_run [OF assms(2)])
  have th: "gd_threshold ?g = gd_threshold g" using settings_fields [OF settings_run] by blast
  have IH: "case m_get (gd_records ?g) ip of None \<Rightarrow> True
    | Some r \<Rightarrow> of_count r \<le> offenses ip ops \<and> of_banned_until r = 0"
    using snoc p by (auto split: if_splits)
  consider "op = Offense ip" | "op = Success ip" | "op = Sweep"
    | "op \<noteq> Offense ip" "op \<noteq> Success ip" "op \<noteq> Sweep" by blast
  then show ?case
  proof cases
    case 1
    have "offenses ip (ops @ [p]) = Suc (offenses ip ops)" using 1 p by simp
    then show ?thesis using IH 1 p th snoc.prems
      by (auto simp: record_offense_def Let_def split: option.splits if_splits)
  next
    case 2
    then show ?thesis using IH p by (auto simp: record_success_def split: option.splits)
  next
    case 3
    then show ?thesis using IH p by (auto simp: m_get_sweep [OF ok] split: option.splits)
  next
    case 4
    then show ?thesis using IH 4(1) step_other [OF ok 4, of t] by (simp add: p split: option.splits)
  qed
qed

text \<open>Enough offences within one window, with no success between them, ban the address.\<close>

lemma reaches_threshold:
  assumes "m_get (gd_records g) ip = None" "m_ok (gd_records g)" "ip \<noteq> []" "\<not> gd_trusted g ip"
    "0 \<le> t0" "0 < gd_threshold g" "0 \<le> gd_ban_ms g"
    "\<forall>(t, op)\<in>set ops. t0 \<le> t \<and> t < t0 + gd_window g \<and> op \<noteq> Success ip"
  shows "case m_get (gd_records (guard_run ops g)) ip of None \<Rightarrow> offenses ip ops = 0
    | Some r \<Rightarrow> of_count r = offenses ip ops \<and> t0 \<le> of_window_start r \<and> t0 \<le> of_last_seen r \<and>
        of_banned_until r \<ge> 0 \<and>
        (if int (offenses ip ops) < gd_threshold g then of_banned_until r = 0
         else t0 + gd_ban_ms g \<le> of_banned_until r)"
  using assms(8)
proof (induction ops rule: rev_induct)
  case Nil
  show ?case using assms(1) by simp
next
  case (snoc p ops)
  obtain t op where p: "p = (t, op)" by force
  let ?g = "guard_run ops g"
  have ok: "m_ok (gd_records ?g)" by (rule m_ok_run [OF assms(2)])
  have fs: "gd_threshold ?g = gd_threshold g" "gd_window ?g = gd_window g" "gd_ban_ms ?g = gd_ban_ms g"
    "gd_trusted ?g = gd_trusted g"
    using settings_fields [OF settings_run] by blast+
  have t: "t0 \<le> t" "t < t0 + gd_window g" "op \<noteq> Success ip" using snoc.prems p by auto
  note IH = snoc.IH
  have rest: "\<forall>(t, op)\<in>set ops. t0 \<le> t \<and> t < t0 + gd_window g \<and> op \<noteq> Success ip"
    using snoc.prems by simp
  consider "op = Offense ip" | "op = Sweep" | "op \<noteq> Offense ip" "op \<noteq> Success ip" "op \<noteq> Sweep"
    using t(3) by blast
  then show ?case
  proof cases
    case 1
    have "offenses ip (ops @ [p]) = Suc (offenses ip ops)" using 1 p by simp
    then show ?thesis using IH [OF rest] 1 p fs t assms(3-7)
      by (auto simp: record_offense_def Let_def split: option.splits if_splits)
  next
    case 2
    then show ?thesis using IH [OF rest] p fs t
      by (auto simp: m_get_sweep [OF ok] sweep_keeps_def split: option.splits if_splits)
  next
    case 3
    then show ?thesis using IH [OF rest] 3(1) step_other [OF ok 3, of t] by (simp add: p split: option.splits)
  qed
qed

text \<open>A trusted address, or the empty one, never gets a record.\<close>

lemma trusted_no_record:
  assumes "ip = [] \<or> gd_trusted g ip" "m_ok (gd_records g)" "m_get (gd_records g) ip = None"
  shows "m_get (gd_records (guard_run ops g)) ip = None"
  using assms
proof (induction ops arbitrary: g)
  case (Cons p ops)
  obtain t op where p: "p = (t, op)" by force
  have tr: "gd_trusted (guard_step p g) = gd_trusted g" using settings_fields [OF settings_step] by blast
  have "m_get (gd_records (guard_step p g)) ip = None"
  proof (cases "op = Offense ip \<or> op = Success ip \<or> op = Sweep")
    case True
    then show ?thesis using Cons.prems p
      by (auto simp: record_offense_def record_success_def m_get_sweep)
  next
    case False
    then show ?thesis using step_other [OF Cons.prems(2), of op ip t] Cons.prems(3) p by auto
  qed
  then show ?case using Cons.IH [of "guard_step p g"] Cons.prems m_ok_step tr by simp
qed simp

section \<open>Sweeping\<close>

text \<open>
  Two tables are the same for every step after \<open>t\<close>: an entry one of them lacks has neither
  a ban nor a recent offence, and entries of both differ at most in bans that have ended.
\<close>

definition entry_rel :: "int \<Rightarrow> int \<Rightarrow> offense option \<Rightarrow> offense option \<Rightarrow> bool" where
  "entry_rel t w x y = (case (x, y) of
     (None, None) \<Rightarrow> True
   | (None, Some r) \<Rightarrow> of_banned_until r \<le> t \<and> w \<le> t - of_last_seen r \<and> of_window_start r \<le> of_last_seen r
   | (Some q, Some r) \<Rightarrow> of_count q = of_count r \<and> of_window_start q = of_window_start r \<and>
       of_last_seen q = of_last_seen r \<and>
       (of_banned_until q = of_banned_until r \<or> of_banned_until q \<le> t \<and> of_banned_until r \<le> t)
   | (Some q, None) \<Rightarrow> False)"

lemmas entry_rel_simps [simp] = entry_rel_def [of _ _ None None, simplified]
  entry_rel_def [of _ _ None "Some r" for r, simplified]
  entry_rel_def [of _ _ "Some q" "Some r" for q r, simplified]
  entry_rel_def [of _ _ "Some q" None for q, simplified]

lemma entry_rel_refl [simp]: "entry_rel t w x x"
  by (cases x) simp_all

definition guard_rel :: "int \<Rightarrow> guard \<Rightarrow> guard \<Rightarrow> bool" where
  "guard_rel t g h \<longleftrightarrow> settings g = settings h \<and> m_ok (gd_records g) \<and> m_ok (gd_records h) \<and>
     (\<forall>ip. entry_rel t (gd_window g) (m_get (gd_records g) ip) (m_get (gd_records h) ip))"

lemma guard_rel_banned:
  assumes "guard_rel t g h" "t < u"
  shows "is_banned u g ip = is_banned u h ip"
proof -
  have "entry_rel t (gd_window g) (m_get (gd_records g) ip) (m_get (gd_records h) ip)"
    using assms(1) by (simp add: guard_rel_def)
  then show ?thesis using assms(2)
    by (cases "m_get (gd_records g) ip"; cases "m_get (gd_records h) ip") (auto simp: is_banned_def)
qed

lemma guard_rel_offense:
  assumes "guard_rel t g h" "t < u" "0 \<le> t"
  shows "entry_rel t (gd_window g) (m_get (gd_records (fst (record_offense u ip g))) ip)
      (m_get (gd_records (fst (record_offense u ip h))) ip)"
    and "snd (record_offense u ip g) = snd (record_offense u ip h)"
proof -
  have e: "entry_rel t (gd_window g) (m_get (gd_records g) ip) (m_get (gd_records h) ip)"
    and s: "settings g = settings h"
    using assms(1) by (simp_all add: guard_rel_def)
  note fs = settings_fields [OF s]
  have fw: "apply_firewall g ip = apply_firewall h ip" using fs by (simp add: apply_firewall_def)
  show "entry_rel t (gd_window g) (m_get (gd_records (fst (record_offense u ip g))) ip)
      (m_get (gd_records (fst (record_offense u ip h))) ip)"
    using e fs assms(2,3)
    by (cases "m_get (gd_records g) ip"; cases "m_get (gd_records h) ip")
      (auto simp: record_offense_def Let_def)
  show "snd (record_offense u ip g) = snd (record_offense u ip h)"
    using e fs assms(2,3) fw
    by (cases "m_get (gd_records g) ip"; cases "m_get (gd_records h) ip")
      (auto simp: record_offense_def Let_def)
qed

lemma guard_rel_step:
  assumes "guard_rel t g h" "t < u" "0 \<le> t"
  shows "guard_rel t (guard_step (u, op) g) (guard_step (u, op) h)"
proof -
  have ok: "m_ok (gd_records g)" "m_ok (gd_records h)" and s: "settings g = settings h"
    and e: "\<And>ip. entry_rel t (gd_window g) (m_get (gd_records g) ip) (m_get (gd_records h) ip)"
    using assms(1) by (simp_all add: guard_rel_def)
  have w: "gd_window (guard_step (u, op) g) = gd_window g"
    using settings_fields [OF settings_step] by blast
  have "entry_rel t (gd_window g) (m_get (gd_records (guard_step (u, op) g)) ip)
      (m_get (gd_records (guard_step (u, op) h)) ip)" for ip
  proof -
    consider "op = Offense ip" | "op = Success ip" | "op = Sweep"
      | "op \<noteq> Offense ip" "op \<noteq> Success ip" "op \<noteq> Sweep" by blast
    then show ?thesis
    proof cases
      case 1
      then show ?thesis using guard_rel_offense(1) [OF assms] by simp
    next
      case 2
      then show ?thesis using e [of ip] assms(2)
        by (cases "m_get (gd_records g) ip"; cases "m_get (gd_records h) ip")
          (auto simp: record_success_def)
    next
      case 3
      have "gd_window h = gd_window g" using settings_fields [OF s] by simp
      then show ?thesis using 3 e [of ip] assms(2)
        by (cases "m_get (gd_records g) ip"; cases "m_get (gd_records h) ip")
          (auto simp: m_get_sweep ok sweep_keeps_def)
    next
      case 4
      then show ?thesis using e [of ip] step_other [OF ok(1) 4] step_other [OF ok(2) 4] by simp
    qed
  qed
  then show ?thesis using ok s w m_ok_step by (simp add: guard_rel_def)
qed

lemma guard_rel_run:
  assumes "guard_rel t g h" "0 \<le> t" "\<forall>(u, op)\<in>set ops. t < u"
  shows "guard_rel t (guard_run ops g) (guard_run ops h)"
  using assms
proof (induction ops arbitrary: g h)
  case (Cons p ops)
  then show ?case using guard_rel_step by (cases p) auto
qed simp

section \<open>The firewall command\<close>

lemma split_ws_no_space: "p \<in> set (split_ws s) \<Longrightarrow> list_all (\<lambda>c. \<not> is_space c) p"
  by (induction s arbitrary: p rule: split_ws.induct) (auto split: if_splits list.splits)

lemma hex_no_space: "is_hex c \<Longrightarrow> \<not> is_space c"
  by (auto simp: is_hex_def is_space_def is_digit_def)

lemma hex_no_dash: "is_hex c \<Longrightarrow> c \<noteq> CHR ''-''"
  by (auto simp: is_hex_def is_digit_def)

lemma split_on_chars: "c \<in> set s \<Longrightarrow> c \<noteq> d \<Longrightarrow> \<exists>p\<in>set (split_on d s). c \<in> set p"
proof (induction s)
  case (Cons x s)
  show ?case
  proof (cases "x = d")
    case True
    then show ?thesis using Cons by auto
  next
    case False
    then show ?thesis using Cons by (cases "split_on d s") auto
  qed
qed simp

lemma valid_ip_chars: "is_valid_ip ip \<Longrightarrow> c \<in> set ip \<Longrightarrow> is_hex c \<or> c = CHR ''.'' \<or> c = CHR '':''"
proof (cases "dotted_quad ip")
  case True
  assume "c \<in> set ip"
  show ?thesis
  proof (cases "c = CHR ''.''")
    case False
    with split_on_chars [OF \<open>c \<in> set ip\<close>, of "CHR ''.''"]
    obtain p where "p \<in> set (split_on CHR ''.'' ip)" "c \<in> set p" by blast
    then have "is_digit c" using True by (auto simp: dotted_quad_def Let_def list_all_iff)
    then show ?thesis by (simp add: is_hex_def)
  qed simp
qed (auto simp: is_valid_ip_def list_all_iff)

lemma valid_ip_nonempty: "is_valid_ip ip \<Longrightarrow> ip \<noteq> []"
  by (auto simp: is_valid_ip_def dotted_quad_def)

section \<open>Properties\<close>

text \<open>A ban stands: once an address is banned, no sequence of offences, successes and
  sweeps of any address moves or lifts the ban before its end.\<close>

theorem ban_stands:
  assumes "m_ok (gd_records g)" "m_get (gd_records g) ip = Some r"
    "\<forall>(t, op)\<in>set ops. t < of_banned_until r" "now < of_banned_until r"
  shows "is_banned now (guard_run ops g) ip"
proof -
  have "\<forall>p\<in>set ops. fst p < of_banned_until r" using assms(3) by force
  from ban_run [OF assms(1,2) refl this] assms(4) show ?thesis by (auto simp: is_banned_def)
qed

theorem ban_stands_witness:
  "is_banned 30 (guard_run [(11, Success ''1.2.3.4''), (12, Sweep), (13, Offense ''1.2.3.4'')]
     \<lparr>gd_threshold = 2, gd_window = 1000, gd_ban_ms = 1000, gd_firewall = [], gd_trusted = (\<lambda>_. False),
      gd_records = [(''1.2.3.4'', \<lparr>of_count = 2, of_window_start = 9, of_last_seen = 10, of_banned_until = 40\<rparr>)]\<rparr>)
     ''1.2.3.4''"
  by (rule ban_stands [of _ _ "\<lparr>of_count = 2, of_window_start = 9, of_last_seen = 10, of_banned_until = 40\<rparr>"])
    simp_all

text \<open>Bans are exact. With a new guard, an address with fewer offences than the threshold
  is never banned, whatever else happens; an untrusted one with at least the threshold of
  offences inside one window, and no success of its own in between, is banned for the ban
  time from the start of the window on.\<close>

theorem ban_iff_threshold:
  assumes "g = new_guard threshold window ban_ms firewall trusted" "0 \<le> t0" "t0 \<le> now"
    "ip \<noteq> []" "\<not> gd_trusted g ip" "now < t0 + gd_ban_ms g"
    "\<forall>(t, op)\<in>set ops. t0 \<le> t \<and> t < t0 + gd_window g \<and> op \<noteq> Success ip"
  shows "is_banned now (guard_run ops g) ip \<longleftrightarrow> gd_threshold g \<le> int (offenses ip ops)"
proof -
  have g: "m_get (gd_records g) ip = None" "m_ok (gd_records g)" "0 < gd_threshold g" "0 \<le> gd_ban_ms g"
    using assms(1) by (simp_all add: new_guard_def)
  show ?thesis
    using reaches_threshold [OF g(1,2) assms(4,5,2) g(3,4) assms(7)] g(3) assms(2,3,6)
    by (auto simp: is_banned_def split: option.splits if_splits)
qed

theorem ban_iff_threshold_witness:
  "is_banned 9 (guard_run [(5, Offense ''1.2.3.4''), (6, Sweep), (7, Offense ''1.2.3.4'')]
     (new_guard 2 1000 1000 None None)) ''1.2.3.4'' \<longleftrightarrow>
   gd_threshold (new_guard 2 1000 1000 None None) \<le>
     int (offenses ''1.2.3.4'' [(5, Offense ''1.2.3.4''), (6, Sweep), (7, Offense ''1.2.3.4'')])"
  by (rule ban_iff_threshold [OF refl, of 5]) (simp_all add: new_guard_def)

text \<open>The periodic sweep of the guard is invisible: after any later history the same
  addresses are banned, and the same firewall command runs on the next offence.\<close>

theorem sweep_invisible:
  assumes "m_ok (gd_records g)" "0 \<le> t" "\<forall>(u, op)\<in>set ops. t < u" "t < now"
    "\<forall>ip r. m_get (gd_records g) ip = Some r \<longrightarrow> of_window_start r \<le> of_last_seen r"
  shows "is_banned now (guard_run ops (sweep t g)) ip = is_banned now (guard_run ops g) ip \<and>
    snd (record_offense now ip (guard_run ops (sweep t g))) = snd (record_offense now ip (guard_run ops g))"
proof -
  have s: "settings (sweep t g) = settings g" "m_ok (gd_records (sweep t g))" "gd_window (sweep t g) = gd_window g"
    using settings_step [of "(t, Sweep)" g] m_ok_step [OF assms(1), of "(t, Sweep)"]
      settings_fields [of "sweep t g" g] by simp_all
  have "entry_rel t (gd_window g) (m_get (gd_records (sweep t g)) ip) (m_get (gd_records g) ip)" for ip
    using assms(5) by (cases "m_get (gd_records g) ip") (auto simp: m_get_sweep [OF assms(1)] sweep_keeps_def)
  then have "guard_rel t (sweep t g) g" using s assms(1) by (simp add: guard_rel_def)
  from guard_rel_run [OF this assms(2,3)] guard_rel_banned [OF _ assms(4)] guard_rel_offense(2) [OF _ assms(4,2)]
  show ?thesis by blast
qed

theorem sweep_invisible_witness:
  "is_banned 3000 (guard_run [(2000, Offense ''b'')] (sweep 1500
     (guard_run [(5, Offense ''a'')] (new_guard 1 1000 1000 None None)))) ''b'' =
   is_banned 3000 (guard_run [(2000, Offense ''b'')]
     (guard_run [(5, Offense ''a'')] (new_guard 1 1000 1000 None None))) ''b''"
proof -
  let ?g = "guard_run [(5, Offense ''a'')] (new_guard 1 1000 1000 None None)"
  have "gd_records ?g = [(''a'', \<lparr>of_count = 1, of_window_start = 5, of_last_seen = 5, of_banned_until = 1005\<rparr>)]"
    by (simp add: new_guard_def record_offense_def)
  then show ?thesis
    using sweep_invisible [of ?g 1500 "[(2000, Offense ''b'')]" 3000 "''b''"] by (simp del: guard_run_simps)
qed

text \<open>No command injection: the program and arguments run on a ban are the words of the
  configured command, with the word \<open>{ip}\<close> replaced by the address; the address is then a
  valid literal, one argument without white space that cannot start an option.\<close>

theorem firewall_argv:
  assumes "snd (record_offense now ip g) = Some argv"
  shows "is_valid_ip ip \<and> \<not> gd_trusted g ip \<and> hd argv \<noteq> [] \<and> prefix [hd ip] ip \<and> hd ip \<noteq> CHR ''-'' \<and>
    list_all (\<lambda>c. \<not> is_space c) ip \<and>
    list_all2 (\<lambda>w a. a = (if w = ''{ip}'' then ip else w) \<and> list_all (\<lambda>c. \<not> is_space c) a)
      (split_ws (gd_firewall g)) argv"
proof -
  have a: "apply_firewall g ip = Some argv" "\<not> gd_trusted g ip"
    using assms by (auto simp: record_offense_def Let_def split: if_splits)
  then have v: "is_valid_ip ip" and argv: "argv = map (\<lambda>p. if p = ''{ip}'' then ip else p) (split_ws (gd_firewall g))"
      "hd argv \<noteq> []"
    by (auto simp: apply_firewall_def Let_def split: if_splits)
  have sp: "list_all (\<lambda>c. \<not> is_space c) ip"
  proof -
    have "\<not> is_space c" if "c \<in> set ip" for c
      using valid_ip_chars [OF v that] hex_no_space by (auto simp: is_space_def)
    then show ?thesis by (simp add: list_all_iff)
  qed
  obtain c cs where ip: "ip = c # cs" using valid_ip_nonempty [OF v] by (cases ip) auto
  have "c \<noteq> CHR ''-''" using valid_ip_chars [OF v, of c] hex_no_dash ip by auto
  then show ?thesis
    using v a(2) argv sp ip split_ws_no_space [of _ "gd_firewall g"]
    by (auto simp: list_all2_map2 intro!: list.rel_refl_strong)
qed

theorem firewall_argv_witness:
  "is_valid_ip ''1.2.3.4'' \<and>
    list_all2 (\<lambda>w a. a = (if w = ''{ip}'' then ''1.2.3.4'' else w) \<and> list_all (\<lambda>c. \<not> is_space c) a)
      (split_ws ''ban {ip}'') [''ban'', ''1.2.3.4'']"
  using firewall_argv [of 5 "''1.2.3.4''" "new_guard 1 1000 1000 (Some ''ban {ip}'') None" "[''ban'', ''1.2.3.4'']"]
  by (simp add: record_offense_def new_guard_def apply_firewall_def is_valid_ip_def dotted_quad_def
      js_number_def js_string num_defs)

text \<open>A trusted source (a trunk edge, an office) is never recorded or banned, whatever
  offences are reported for it.\<close>

theorem trusted_never_banned:
  "or_else trusted (\<lambda>_. False) ip \<Longrightarrow>
    \<not> is_banned now (guard_run ops (new_guard threshold window ban_ms firewall trusted)) ip"
  using trusted_no_record [of ip "new_guard threshold window ban_ms firewall trusted" ops]
  by (simp add: new_guard_def is_banned_def)

theorem trusted_never_banned_witness:
  "\<not> is_banned 8 (guard_run (replicate 9 (5, Offense ''10.0.0.1'')) (new_guard 2 1000 1000 None (Some (\<lambda>ip. ip = ''10.0.0.1'')))) ''10.0.0.1''"
  by (rule trusted_never_banned) simp

end
