(* ===== verification/Acd_Queue.thy ===== *)
theory Acd_Queue
  imports Js_Number
begin

text \<open>
  The call queues (ACD) of \<^verbatim>\<open>src/src/services/queue.service.ts\<close>: rosters of agents, waiting
  callers, and the choice of the next agent to ring. The registry of queues is the state;
  the presence resolver \<^verbatim>\<open>isRegistered\<close> is a predicate in it, \<^verbatim>\<open>Date.now()\<close> an
  argument, and the \<^verbatim>\<open>updated\<close> events are the list \<open>qs_emitted\<close>. Lemmas: the invariant of
  every operation, the choice of each strategy, and that the queue protocol never gives
  one agent two callers.
\<close>

section \<open>State\<close>

datatype agent_state = AgOffline | AgAvailable | AgRinging | AgBusy | AgPaused

datatype caller_state = CsWaiting | CsRinging | CsConnected

datatype strategy = LongestIdle | RoundRobin | Sequential

record agent =
  ag_extension :: string
  ag_name :: string
  ag_state :: agent_state
  ag_paused :: bool
  ag_idle_since :: int
  ag_calls_handled :: nat

record caller =
  qc_id :: string
  qc_from :: string
  qc_from_name :: string
  qc_enqueued_at :: int
  qc_state :: caller_state
  qc_agent :: "string option"

record queue =
  qu_id :: string
  qu_name :: string
  qu_strategy :: strategy
  qu_agents :: "(string, agent) js_map"
  qu_callers :: "(string, caller) js_map"
  qu_cursor :: nat

record queue_definition =
  qd_id :: string
  qd_name :: string
  qd_agents :: "string list"
  qd_strategy :: string

record queue_service =
  qs_queues :: "(string, queue) js_map"
  qs_online :: "string \<Rightarrow> bool"
  qs_emitted :: "string list"

section \<open>Construction and presence\<close>

definition normalize_strategy :: "string \<Rightarrow> strategy" where
  "normalize_strategy s =
     (if s = ''round-robin'' then RoundRobin else if s = ''sequential'' then Sequential else LongestIdle)"

definition new_agent :: "int \<Rightarrow> string \<Rightarrow> agent" where
  "new_agent now ext = \<lparr>ag_extension = ext, ag_name = ext, ag_state = AgOffline, ag_paused = False,
     ag_idle_since = now, ag_calls_handled = 0\<rparr>"

definition new_queue :: "int \<Rightarrow> queue_definition \<Rightarrow> queue" where
  "new_queue now d = \<lparr>qu_id = qd_id d, qu_name = qd_name d,
     qu_strategy = normalize_strategy (qd_strategy d),
     qu_agents = fold (\<lambda>ext m. m_set ext (new_agent now ext) m) (qd_agents d) [],
     qu_callers = [], qu_cursor = 0\<rparr>"

definition new_service :: "int \<Rightarrow> queue_definition list \<Rightarrow> queue_service" where
  "new_service now defs = \<lparr>qs_queues = fold (\<lambda>d m. m_set (qd_id d) (new_queue now d) m) defs [],
     qs_online = (\<lambda>_. False), qs_emitted = []\<rparr>"

definition presence_state :: "bool \<Rightarrow> agent \<Rightarrow> agent_state" where
  "presence_state online a =
     (if \<not> online then AgOffline
      else if ag_paused a then AgPaused
      else if ag_state a = AgOffline \<or> ag_state a = AgPaused then AgAvailable
      else ag_state a)"

definition recompute_agent :: "(string \<Rightarrow> bool) \<Rightarrow> int \<Rightarrow> agent \<Rightarrow> agent" where
  "recompute_agent online now a =
     (let next = presence_state (online (ag_extension a)) a
      in if next \<noteq> ag_state a
         then a\<lparr>ag_state := next,
                ag_idle_since := (if next = AgAvailable then now else ag_idle_since a)\<rparr>
         else a)"

definition recompute_presence :: "(string \<Rightarrow> bool) \<Rightarrow> int \<Rightarrow> queue \<Rightarrow> queue \<times> bool" where
  "recompute_presence online now q =
     (q\<lparr>qu_agents := m_map (recompute_agent online now) (qu_agents q)\<rparr>,
      list_ex (\<lambda>a. presence_state (online (ag_extension a)) a \<noteq> ag_state a) (m_vals (qu_agents q)))"

definition set_presence_provider ::
  "(string \<Rightarrow> bool) \<Rightarrow> (string \<Rightarrow> string option) option \<Rightarrow> int \<Rightarrow> queue_service \<Rightarrow> queue_service" where
  "set_presence_provider online name_of now s =
     s\<lparr>qs_online := online,
       qs_queues := m_map (\<lambda>q. fst (recompute_presence online now
         (case name_of of None \<Rightarrow> q
          | Some f \<Rightarrow> q\<lparr>qu_agents :=
              m_map (\<lambda>a. a\<lparr>ag_name := str_or (f (ag_extension a)) (ag_extension a)\<rparr>) (qu_agents q)\<rparr>)))
         (qs_queues s)\<rparr>"

definition sync_presence :: "int \<Rightarrow> queue_service \<Rightarrow> queue_service" where
  "sync_presence now s =
     s\<lparr>qs_queues := m_map (\<lambda>q. fst (recompute_presence (qs_online s) now q)) (qs_queues s),
       qs_emitted := qs_emitted s @
         map qu_id (filter (\<lambda>q. snd (recompute_presence (qs_online s) now q)) (m_vals (qs_queues s)))\<rparr>"

definition get_queue :: "queue_service \<Rightarrow> string \<Rightarrow> queue option" where
  "get_queue s qid = m_get (qs_queues s) qid"

definition agent_availability :: "queue_service \<Rightarrow> string \<Rightarrow> nat \<times> nat \<times> nat" where
  "agent_availability s qid =
     (case get_queue s qid of None \<Rightarrow> (0, 0, 0)
      | Some q \<Rightarrow>
          (length (filter (\<lambda>a. ag_state a \<noteq> AgOffline) (m_vals (qu_agents q))),
           length (filter (\<lambda>a. ag_state a = AgAvailable) (m_vals (qu_agents q))),
           length (qu_agents q)))"

definition queues_for_agent :: "queue_service \<Rightarrow> string \<Rightarrow> string list" where
  "queues_for_agent s ext = map qu_id (filter (\<lambda>q. m_has (qu_agents q) ext) (m_vals (qs_queues s)))"

section \<open>The life of a caller\<close>

text \<open>Store a queue back and emit \<^verbatim>\<open>updated\<close>; set one agent or caller of a queue.\<close>

definition put_queue :: "string \<Rightarrow> queue \<Rightarrow> queue_service \<Rightarrow> queue_service" where
  "put_queue qid q s = s\<lparr>qs_queues := m_set qid q (qs_queues s), qs_emitted := qs_emitted s @ [qid]\<rparr>"

definition put_agent :: "string \<Rightarrow> agent \<Rightarrow> queue \<Rightarrow> queue" where
  "put_agent ext a q = q\<lparr>qu_agents := m_set ext a (qu_agents q)\<rparr>"

definition put_caller :: "string \<Rightarrow> caller \<Rightarrow> queue \<Rightarrow> queue" where
  "put_caller qid c q = q\<lparr>qu_callers := m_set qid c (qu_callers q)\<rparr>"

definition enqueue :: "int \<Rightarrow> string \<Rightarrow> string \<Rightarrow> string \<Rightarrow> string \<Rightarrow> queue_service \<Rightarrow> queue_service" where
  "enqueue now qid call_id from_num from_name s =
     (case get_queue s qid of None \<Rightarrow> s
      | Some q \<Rightarrow> put_queue qid (put_caller call_id
          \<lparr>qc_id = call_id, qc_from = from_num, qc_from_name = (if from_name = [] then from_num else from_name),
           qc_enqueued_at = now, qc_state = CsWaiting, qc_agent = None\<rparr> q) s)"

definition mark_caller_ringing :: "string \<Rightarrow> string \<Rightarrow> string \<Rightarrow> queue_service \<Rightarrow> queue_service" where
  "mark_caller_ringing qid call_id ext s =
     (case get_queue s qid of None \<Rightarrow> s
      | Some q \<Rightarrow>
          (case m_get (qu_callers q) call_id of None \<Rightarrow> s
           | Some c \<Rightarrow>
               (let q1 = put_caller call_id (c\<lparr>qc_state := CsRinging, qc_agent := Some ext\<rparr>) q;
                    q2 = (case m_get (qu_agents q) ext of None \<Rightarrow> q1
                          | Some a \<Rightarrow> if ag_state a = AgAvailable
                              then put_agent ext (a\<lparr>ag_state := AgRinging\<rparr>) q1 else q1)
                in put_queue qid q2 s)))"

text \<open>What a freed agent goes back to.\<close>

definition idle_state :: "(string \<Rightarrow> bool) \<Rightarrow> string \<Rightarrow> agent \<Rightarrow> agent_state" where
  "idle_state online ext a =
     (if online ext then (if ag_paused a then AgPaused else AgAvailable) else AgOffline)"

definition release_ring :: "int \<Rightarrow> string \<Rightarrow> string \<Rightarrow> string \<Rightarrow> queue_service \<Rightarrow> queue_service" where
  "release_ring now qid call_id ext s =
     (case get_queue s qid of None \<Rightarrow> s
      | Some q \<Rightarrow>
          (let q1 = (case m_get (qu_callers q) call_id of None \<Rightarrow> q
                     | Some c \<Rightarrow> if qc_agent c = Some ext
                         then put_caller call_id (c\<lparr>qc_state := CsWaiting, qc_agent := None\<rparr>) q else q);
               q2 = (case m_get (qu_agents q) ext of None \<Rightarrow> q1
                     | Some a \<Rightarrow> if ag_state a = AgRinging
                         then put_agent ext (a\<lparr>ag_state := idle_state (qs_online s) ext a,
                                              ag_idle_since := now\<rparr>) q1 else q1)
           in put_queue qid q2 s))"

definition mark_caller_connected :: "string \<Rightarrow> string \<Rightarrow> string \<Rightarrow> queue_service \<Rightarrow> queue_service" where
  "mark_caller_connected qid call_id ext s =
     (case get_queue s qid of None \<Rightarrow> s
      | Some q \<Rightarrow>
          (case m_get (qu_callers q) call_id of None \<Rightarrow> s
           | Some c \<Rightarrow>
               (let q1 = put_caller call_id (c\<lparr>qc_state := CsConnected, qc_agent := Some ext\<rparr>) q;
                    q2 = (case m_get (qu_agents q) ext of None \<Rightarrow> q1
                          | Some a \<Rightarrow> put_agent ext
                              (a\<lparr>ag_state := AgBusy, ag_calls_handled := ag_calls_handled a + 1\<rparr>) q1)
                in put_queue qid q2 s)))"

definition dequeue :: "int \<Rightarrow> string \<Rightarrow> string \<Rightarrow> queue_service \<Rightarrow> queue_service" where
  "dequeue now qid call_id s =
     (case get_queue s qid of None \<Rightarrow> s
      | Some q \<Rightarrow>
          (case m_get (qu_callers q) call_id of None \<Rightarrow> s
           | Some c \<Rightarrow>
               (let q1 = q\<lparr>qu_callers := m_del call_id (qu_callers q)\<rparr>;
                    q2 = (if \<not> truthy (qc_agent c) then q1
                          else (case m_get (qu_agents q) (the (qc_agent c)) of None \<Rightarrow> q1
                            | Some a \<Rightarrow> if ag_state a = AgBusy \<or> ag_state a = AgRinging
                                then put_agent (the (qc_agent c))
                                  (a\<lparr>ag_state := idle_state (qs_online s) (ag_extension a) a,
                                     ag_idle_since := now\<rparr>) q1 else q1))
                in put_queue qid q2 s)))"

section \<open>Choosing an agent\<close>

definition eligible :: "string list \<Rightarrow> agent \<Rightarrow> bool" where
  "eligible exclude a \<longleftrightarrow> ag_state a = AgAvailable \<and> ag_extension a \<notin> set exclude"

definition longest_idle :: "agent \<Rightarrow> agent list \<Rightarrow> agent" where
  "longest_idle c cs = fold (\<lambda>a best. if ag_idle_since a < ag_idle_since best then a else best) cs c"

text \<open>The loop over the roster from behind the cursor: the position and agent it stops at.\<close>

fun rr_scan :: "queue \<Rightarrow> string list \<Rightarrow> string list \<Rightarrow> nat list \<Rightarrow> (nat \<times> agent) option" where
  "rr_scan q exclude roster [] = None"
| "rr_scan q exclude roster (i # is) =
     (let ext = roster ! ((qu_cursor q + i) mod length roster)
      in case m_get (qu_agents q) ext of
           Some a \<Rightarrow> if ag_state a = AgAvailable \<and> ext \<notin> set exclude
             then Some ((qu_cursor q + i) mod length roster, a) else rr_scan q exclude roster is
         | None \<Rightarrow> rr_scan q exclude roster is)"

definition next_available_agent :: "string \<Rightarrow> string list \<Rightarrow> queue_service \<Rightarrow> agent option \<times> queue_service" where
  "next_available_agent qid exclude s =
     (case get_queue s qid of None \<Rightarrow> (None, s)
      | Some q \<Rightarrow>
          (case filter (eligible exclude) (m_vals (qu_agents q)) of [] \<Rightarrow> (None, s)
           | c # cs \<Rightarrow>
               (case qu_strategy q of
                  LongestIdle \<Rightarrow> (Some (longest_idle c cs), s)
                | RoundRobin \<Rightarrow>
                    (let roster = m_keys (qu_agents q)
                     in case rr_scan q exclude roster [1..<Suc (length roster)] of
                          Some (p, a) \<Rightarrow> (Some a, s\<lparr>qs_queues := m_set qid (q\<lparr>qu_cursor := p\<rparr>) (qs_queues s)\<rparr>)
                        | None \<Rightarrow> (Some c, s))
                | Sequential \<Rightarrow> (Some c, s))))"

section \<open>Agent controls\<close>

definition set_agent_paused :: "int \<Rightarrow> string \<Rightarrow> string \<Rightarrow> bool \<Rightarrow> queue_service \<Rightarrow> bool \<times> queue_service" where
  "set_agent_paused now qid ext paused s =
     (case get_queue s qid of None \<Rightarrow> (False, s)
      | Some q \<Rightarrow>
          (case m_get (qu_agents q) ext of None \<Rightarrow> (False, s)
           | Some a \<Rightarrow>
               if ag_paused a = paused then (False, s)
               else (let a1 = a\<lparr>ag_paused := paused\<rparr>;
                         st = (if \<not> qs_online s ext then AgOffline else if paused then AgPaused else AgAvailable);
                         a2 = (if ag_state a \<in> {AgAvailable, AgPaused, AgOffline}
                               then a1\<lparr>ag_state := st,
                                       ag_idle_since := (if st = AgAvailable then now else ag_idle_since a)\<rparr>
                               else a1)
                     in (True, put_queue qid (put_agent ext a2 q) s))))"

fun pause_each :: "int \<Rightarrow> string \<Rightarrow> bool \<Rightarrow> string list \<Rightarrow> queue_service \<Rightarrow> string list \<times> queue_service" where
  "pause_each now ext paused [] s = ([], s)"
| "pause_each now ext paused (qid # qids) s =
     (case set_agent_paused now qid ext paused s of (b, s1) \<Rightarrow>
        (case pause_each now ext paused qids s1 of (changed, s2) \<Rightarrow> (if b then qid # changed else changed, s2)))"

definition set_agent_paused_all :: "int \<Rightarrow> string \<Rightarrow> bool \<Rightarrow> queue_service \<Rightarrow> string list \<times> queue_service" where
  "set_agent_paused_all now ext paused s = pause_each now ext paused (queues_for_agent s ext) s"

section \<open>Snapshots\<close>

record caller_snapshot =
  sc_id :: string
  sc_from :: string
  sc_from_name :: string
  sc_state :: caller_state
  sc_agent :: "string option"
  sc_waiting_secs :: int

record agent_snapshot =
  sa_extension :: string
  sa_name :: string
  sa_state :: agent_state
  sa_paused :: bool
  sa_calls_handled :: nat

record queue_stats =
  qt_waiting :: nat
  qt_connected :: nat
  qt_agents_available :: nat
  qt_agents_total :: nat
  qt_longest_wait :: int

record queue_snapshot =
  sq_id :: string
  sq_name :: string
  sq_strategy :: strategy
  sq_agents :: "agent_snapshot list"
  sq_callers :: "caller_snapshot list"
  sq_stats :: queue_stats

definition caller_view :: "int \<Rightarrow> caller \<Rightarrow> caller_snapshot" where
  "caller_view now c = \<lparr>sc_id = qc_id c, sc_from = qc_from c, sc_from_name = qc_from_name c,
     sc_state = qc_state c, sc_agent = qc_agent c,
     sc_waiting_secs = max 0 (js_round (of_int (now - qc_enqueued_at c) / 1000))\<rparr>"

definition agent_view :: "agent \<Rightarrow> agent_snapshot" where
  "agent_view a = \<lparr>sa_extension = ag_extension a, sa_name = ag_name a, sa_state = ag_state a,
     sa_paused = ag_paused a, sa_calls_handled = ag_calls_handled a\<rparr>"

definition snapshot :: "int \<Rightarrow> queue_service \<Rightarrow> string \<Rightarrow> queue_snapshot option" where
  "snapshot now s qid =
     (case get_queue s qid of None \<Rightarrow> None
      | Some q \<Rightarrow>
          (let cs = map (caller_view now) (m_vals (qu_callers q));
               as = map agent_view (m_vals (qu_agents q));
               waiting = filter (\<lambda>c. sc_state c \<noteq> CsConnected) cs
           in Some \<lparr>sq_id = qu_id q, sq_name = qu_name q, sq_strategy = qu_strategy q,
                sq_agents = as, sq_callers = cs,
                sq_stats = \<lparr>qt_waiting = length waiting,
                  qt_connected = length (filter (\<lambda>c. sc_state c = CsConnected) cs),
                  qt_agents_available = length (filter (\<lambda>a. sa_state a = AgAvailable) as),
                  qt_agents_total = length as,
                  qt_longest_wait = fold (\<lambda>c m. max m (sc_waiting_secs c)) waiting 0\<rparr>\<rparr>))"

definition snapshot_all :: "int \<Rightarrow> queue_service \<Rightarrow> queue_snapshot list" where
  "snapshot_all now s = List.map_filter (snapshot now s) (m_keys (qs_queues s))"

section \<open>Well-formed queues\<close>

text \<open>Keys are the names inside, an available agent is not paused, and exactly the
  waiting callers have no agent.\<close>

definition agent_ok :: "string \<Rightarrow> agent \<Rightarrow> bool" where
  "agent_ok ext a \<longleftrightarrow> ag_extension a = ext \<and>
     (ag_state a = AgAvailable \<longrightarrow> \<not> ag_paused a) \<and> (ag_state a = AgPaused \<longrightarrow> ag_paused a)"

definition caller_ok :: "string \<Rightarrow> caller \<Rightarrow> bool" where
  "caller_ok cid c \<longleftrightarrow> qc_id c = cid \<and> (qc_state c = CsWaiting \<longleftrightarrow> qc_agent c = None)"

definition queue_ok :: "queue \<Rightarrow> bool" where
  "queue_ok q \<longleftrightarrow> m_ok (qu_agents q) \<and> m_ok (qu_callers q) \<and>
     (\<forall>ext a. m_get (qu_agents q) ext = Some a \<longrightarrow> agent_ok ext a) \<and>
     (\<forall>cid c. m_get (qu_callers q) cid = Some c \<longrightarrow> caller_ok cid c)"

definition service_ok :: "queue_service \<Rightarrow> bool" where
  "service_ok s \<longleftrightarrow> m_ok (qs_queues s) \<and>
     (\<forall>qid q. get_queue s qid = Some q \<longrightarrow> qu_id q = qid \<and> queue_ok q)"

lemmas queue_oks = agent_ok_def caller_ok_def queue_ok_def

lemma get_put_queue [simp]: "get_queue (put_queue qid q s) j = (if j = qid then Some q else get_queue s j)"
  by (simp add: get_queue_def put_queue_def js.get_put)

lemma put_simps [simp]:
  "qu_agents (put_agent ext a q) = m_set ext a (qu_agents q)" "qu_callers (put_agent ext a q) = qu_callers q"
  "qu_callers (put_caller cid c q) = m_set cid c (qu_callers q)" "qu_agents (put_caller cid c q) = qu_agents q"
  "qu_id (put_agent ext a q) = qu_id q" "qu_id (put_caller cid c q) = qu_id q"
  "qs_online (put_queue qid q s) = qs_online s"
  by (simp_all add: put_agent_def put_caller_def put_queue_def)

lemma service_ok_put:
  "service_ok s \<Longrightarrow> queue_ok q \<Longrightarrow> qu_id q = qid \<Longrightarrow> service_ok (put_queue qid q s)"
  unfolding service_ok_def by (simp add: put_queue_def [of qid q s] m_ok_set) (simp add: get_queue_def js.get_put)

lemma service_okD: "service_ok s \<Longrightarrow> get_queue s qid = Some q \<Longrightarrow> queue_ok q \<and> qu_id q = qid"
  by (auto simp: service_ok_def)

lemma queue_ok_put_agent: "queue_ok q \<Longrightarrow> agent_ok ext a \<Longrightarrow> queue_ok (put_agent ext a q)"
  by (simp add: queue_ok_def js.get_put)

lemma queue_ok_put_caller: "queue_ok q \<Longrightarrow> caller_ok cid c \<Longrightarrow> queue_ok (put_caller cid c q)"
  by (simp add: queue_ok_def js.get_put)

lemma queue_ok_del_caller: "queue_ok q \<Longrightarrow> queue_ok (q\<lparr>qu_callers := m_del cid (qu_callers q)\<rparr>)"
  by (simp add: queue_ok_def js.get_del)

lemma queue_okD:
  assumes "queue_ok q"
  shows "m_get (qu_agents q) ext = Some a \<Longrightarrow> agent_ok ext a"
    and "m_get (qu_callers q) cid = Some c \<Longrightarrow> caller_ok cid c"
  using assms by (auto simp: queue_ok_def)

lemma service_okD2:
  assumes "service_ok s" "get_queue s qid = Some q"
  shows "m_get (qu_agents q) ext = Some a \<Longrightarrow> ag_extension a = ext"
    and "m_get (qu_callers q) cid = Some c \<Longrightarrow> qc_id c = cid"
    and "m_get (qu_agents q) ext = Some a \<Longrightarrow> ag_state a = AgAvailable \<Longrightarrow> \<not> ag_paused a"
    and "m_get (qu_callers q) cid = Some c \<Longrightarrow> qc_state c = CsWaiting \<longleftrightarrow> qc_agent c = None"
  using assms queue_okD [of q] by (auto simp: agent_ok_def caller_ok_def dest!: service_okD)

lemma idle_state_eq [simp]:
  "idle_state p ext a = AgAvailable \<longleftrightarrow> p ext \<and> \<not> ag_paused a"
  "idle_state p ext a = AgPaused \<longleftrightarrow> p ext \<and> ag_paused a"
  by (auto simp: idle_state_def)

lemma idle_state_not [simp]: "idle_state p ext a \<noteq> AgRinging" "idle_state p ext a \<noteq> AgBusy"
  by (auto simp: idle_state_def)

lemma recompute_agent_ok: "agent_ok ext a \<Longrightarrow> agent_ok ext (recompute_agent p now a)"
  by (auto simp: agent_ok_def recompute_agent_def presence_state_def Let_def)

lemma recompute_simps [simp]:
  "qu_callers (fst (recompute_presence p now q)) = qu_callers q"
  "qu_id (fst (recompute_presence p now q)) = qu_id q"
  "qu_agents (fst (recompute_presence p now q)) = m_map (recompute_agent p now) (qu_agents q)"
  by (simp_all add: recompute_presence_def)

lemma queue_ok_recompute: "queue_ok q \<Longrightarrow> queue_ok (fst (recompute_presence p now q))"
  by (auto simp: queue_ok_def recompute_agent_ok)

lemma queue_ok_rename: "queue_ok q \<Longrightarrow> queue_ok (q\<lparr>qu_agents := m_map (\<lambda>a. a\<lparr>ag_name := f a\<rparr>) (qu_agents q)\<rparr>)"
  by (simp add: queue_ok_def agent_ok_def split_paired_all map_option_case split: option.splits)

lemma service_ok_map:
  assumes "service_ok s" "\<And>q. queue_ok q \<Longrightarrow> queue_ok (f q) \<and> qu_id (f q) = qu_id q"
  shows "service_ok (s\<lparr>qs_queues := m_map f (qs_queues s), qs_emitted := es\<rparr>)"
    and "service_ok (s\<lparr>qs_online := p, qs_queues := m_map f (qs_queues s)\<rparr>)"
  using assms by (auto simp: service_ok_def get_queue_def)

section \<open>Every operation keeps the queues well-formed\<close>

lemma service_ok_sync: "service_ok s \<Longrightarrow> service_ok (sync_presence now s)"
  unfolding sync_presence_def by (rule service_ok_map(1)) (auto intro: queue_ok_recompute)

lemma service_ok_provider: "service_ok s \<Longrightarrow> service_ok (set_presence_provider p name_of now s)"
  unfolding set_presence_provider_def
  by (rule service_ok_map(2)) (auto intro!: queue_ok_recompute queue_ok_rename split: option.split)

lemma service_ok_enqueue: "service_ok s \<Longrightarrow> service_ok (enqueue now qid cid num name s)"
  by (auto simp: enqueue_def caller_ok_def split: option.split
      intro!: service_ok_put queue_ok_put_caller dest: service_okD)

lemma service_ok_ringing:
  assumes "service_ok s"
  shows "service_ok (mark_caller_ringing qid cid ext s)"
proof (cases "get_queue s qid")
  case (Some q)
  note D = service_okD2 [OF assms Some]
  have "queue_ok q" "qu_id q = qid" using service_okD [OF assms Some] by auto
  then show ?thesis
    using Some assms
    by (auto simp: mark_caller_ringing_def Let_def agent_ok_def caller_ok_def split: option.split
        intro!: service_ok_put queue_ok_put_agent queue_ok_put_caller dest: D)
qed (simp add: mark_caller_ringing_def assms)

lemma service_ok_release:
  assumes "service_ok s"
  shows "service_ok (release_ring now qid cid ext s)"
proof (cases "get_queue s qid")
  case (Some q)
  note D = service_okD2 [OF assms Some]
  have "queue_ok q" "qu_id q = qid" using service_okD [OF assms Some] by auto
  then show ?thesis
    using Some assms
    by (auto simp: release_ring_def Let_def agent_ok_def caller_ok_def split: option.split
        intro!: service_ok_put queue_ok_put_agent queue_ok_put_caller dest: D)
qed (simp add: release_ring_def assms)

lemma service_ok_connected:
  assumes "service_ok s"
  shows "service_ok (mark_caller_connected qid cid ext s)"
proof (cases "get_queue s qid")
  case (Some q)
  note D = service_okD2 [OF assms Some]
  have "queue_ok q" "qu_id q = qid" using service_okD [OF assms Some] by auto
  then show ?thesis
    using Some assms
    by (auto simp: mark_caller_connected_def Let_def agent_ok_def caller_ok_def split: option.split
        intro!: service_ok_put queue_ok_put_agent queue_ok_put_caller dest: D)
qed (simp add: mark_caller_connected_def assms)

lemma service_ok_dequeue:
  assumes "service_ok s"
  shows "service_ok (dequeue now qid cid s)"
proof (cases "get_queue s qid")
  case (Some q)
  note D = service_okD2 [OF assms Some]
  have "queue_ok q" "qu_id q = qid" using service_okD [OF assms Some] by auto
  then show ?thesis
    using Some assms
    by (auto simp: dequeue_def Let_def agent_ok_def caller_ok_def split: option.split
        intro!: service_ok_put queue_ok_put_agent queue_ok_del_caller dest: D)
qed (simp add: dequeue_def assms)

lemma service_ok_paused:
  assumes "service_ok s"
  shows "service_ok (snd (set_agent_paused now qid ext b s))"
proof (cases "get_queue s qid")
  case (Some q)
  note D = service_okD2 [OF assms Some]
  have "queue_ok q" "qu_id q = qid" using service_okD [OF assms Some] by auto
  then show ?thesis
    using Some assms
    by (auto simp: set_agent_paused_def Let_def agent_ok_def caller_ok_def split: option.split
        intro!: service_ok_put queue_ok_put_agent dest: D)
qed (simp add: set_agent_paused_def assms)

lemma service_ok_pause_each: "service_ok s \<Longrightarrow> service_ok (snd (pause_each now ext b qids s))"
proof (induction qids arbitrary: s)
  case (Cons qid qids)
  obtain c1 s1 where "set_agent_paused now qid ext b s = (c1, s1)" by force
  moreover obtain c2 s2 where "pause_each now ext b qids s1 = (c2, s2)" by force
  ultimately show ?case
    using service_ok_paused [of s now qid ext b] Cons.IH [of s1] Cons.prems by simp
qed simp

lemma service_ok_next: "service_ok s \<Longrightarrow> service_ok (snd (next_available_agent qid ex s))"
  by (auto simp: next_available_agent_def Let_def split: option.split list.split strategy.split dest: service_okD)
    (auto simp: service_ok_def get_queue_def js.get_put queue_ok_def)

section \<open>The choice of an agent\<close>

lemma longest_idle_least:
  "longest_idle c cs \<in> set (c # cs) \<and> (\<forall>b\<in>set (c # cs). ag_idle_since (longest_idle c cs) \<le> ag_idle_since b)"
  unfolding longest_idle_def
proof (induction cs arbitrary: c)
  case (Cons b cs)
  show ?case using Cons.IH [of b] Cons.IH [of c] by auto
qed simp

lemma rr_scan_Some:
  assumes "rr_scan q ex roster is = Some (p, a)"
  shows "\<exists>i pre. (\<exists>post. is = pre @ i # post) \<and> p = (qu_cursor q + i) mod length roster \<and>
    m_get (qu_agents q) (roster ! p) = Some a \<and> ag_state a = AgAvailable \<and> roster ! p \<notin> set ex \<and>
    (\<forall>j\<in>set pre. \<forall>b. m_get (qu_agents q) (roster ! ((qu_cursor q + j) mod length roster)) = Some b \<longrightarrow>
       \<not> (ag_state b = AgAvailable \<and> roster ! ((qu_cursor q + j) mod length roster) \<notin> set ex))"
  using assms
proof (induction "is")
  case (Cons i "is")
  let ?x = "roster ! ((qu_cursor q + i) mod length roster)"
  show ?case
  proof (cases "\<exists>b. m_get (qu_agents q) ?x = Some b \<and> ag_state b = AgAvailable \<and> ?x \<notin> set ex")
    case True
    then show ?thesis using Cons.prems by (intro exI [of _ i] exI [of _ "[]"]) (auto simp: Let_def)
  next
    case False
    then have "rr_scan q ex roster is = Some (p, a)"
      using Cons.prems by (auto simp: Let_def split: option.splits if_splits)
    from Cons.IH [OF this] obtain k pre post where
      "is = pre @ k # post" "p = (qu_cursor q + k) mod length roster"
      "m_get (qu_agents q) (roster ! p) = Some a" "ag_state a = AgAvailable" "roster ! p \<notin> set ex"
      "\<forall>j\<in>set pre. \<forall>b. m_get (qu_agents q) (roster ! ((qu_cursor q + j) mod length roster)) = Some b \<longrightarrow>
        \<not> (ag_state b = AgAvailable \<and> roster ! ((qu_cursor q + j) mod length roster) \<notin> set ex)"
      by auto
    then show ?thesis using False by (intro exI [of _ k] exI [of _ "i # pre"]) auto
  qed
qed simp

lemma rr_scan_None:
  assumes "rr_scan q ex roster is = None" "i \<in> set is"
    "m_get (qu_agents q) (roster ! ((qu_cursor q + i) mod length roster)) = Some a" "ag_state a = AgAvailable"
  shows "roster ! ((qu_cursor q + i) mod length roster) \<in> set ex"
  using assms by (induction "is") (auto simp: Let_def split: option.splits if_splits)

text \<open>Every position of a roster is visited by the scan.\<close>

lemma cursor_reaches:
  assumes "p < (n :: nat)"
  shows "\<exists>i\<in>{1..n}. (c + i) mod n = p"
proof -
  obtain r where r: "r = (c + 1) mod n" "r < n" using assms by auto
  define d where "d = (if r \<le> p then p - r else p + n - r)"
  have "d < n" using assms r by (auto simp: d_def)
  moreover have "(c + (d + 1)) mod n = (r + d) mod n"
    unfolding r(1) by (metis add.assoc add.commute mod_add_left_eq)
  moreover have "(r + d) mod n = p"
    using assms r(2) by (auto simp: d_def)
  ultimately show ?thesis by (intro bexI [of _ "d + 1"]) auto
qed

lemma next_cases:
  assumes "service_ok s" "get_queue s qid = Some q" "next_available_agent qid ex s = (Some a, s')"
  shows "m_get (qu_agents q) (ag_extension a) = Some a" "ag_state a = AgAvailable" "ag_extension a \<notin> set ex"
    and "qu_strategy q \<noteq> RoundRobin \<Longrightarrow> s' = s"
proof -
  have ok: "m_ok (qu_agents q)" and ext: "\<And>e b. m_get (qu_agents q) e = Some b \<Longrightarrow> ag_extension b = e"
    using service_okD [OF assms(1,2)] service_okD2(1) [OF assms(1,2)] by (auto simp: queue_ok_def)
  obtain c cs where f: "filter (eligible ex) (m_vals (qu_agents q)) = c # cs"
    using assms(2,3) by (cases "filter (eligible ex) (m_vals (qu_agents q))") (auto simp: next_available_agent_def)
  have mem: "m_get (qu_agents q) (ag_extension b) = Some b \<and> ag_state b = AgAvailable \<and> ag_extension b \<notin> set ex"
    if "b \<in> set (c # cs)" for b
  proof -
    have "b \<in> set (filter (eligible ex) (m_vals (qu_agents q)))" using that f by simp
    then obtain e where e: "(e, b) \<in> set (qu_agents q)" "eligible ex b" by auto
    then have "m_get (qu_agents q) e = Some b" using ok by (simp add: m_get_iff)
    then show ?thesis using e(2) ext by (auto simp: eligible_def)
  qed
  have a: "m_get (qu_agents q) (ag_extension a) = Some a \<and> ag_state a = AgAvailable \<and> ag_extension a \<notin> set ex"
  proof (cases "qu_strategy q")
    case RoundRobin
    show ?thesis
    proof (cases "rr_scan q ex (m_keys (qu_agents q)) [1..<Suc (length (m_keys (qu_agents q)))]")
      case None
      then show ?thesis using mem assms(2,3) f RoundRobin
        by (auto simp: next_available_agent_def Let_def simp del: upt_Suc)
    next
      case (Some pa)
      then obtain p where "rr_scan q ex (m_keys (qu_agents q)) [1..<Suc (length (m_keys (qu_agents q)))] = Some (p, a)"
        using assms(2,3) f RoundRobin
        by (cases pa) (auto simp: next_available_agent_def Let_def simp del: upt_Suc)
      from rr_scan_Some [OF this] show ?thesis using ext by auto
    qed
  next
    case LongestIdle
    then show ?thesis
      using mem longest_idle_least [of c cs] assms(2,3) f by (auto simp: next_available_agent_def)
  next
    case Sequential
    then show ?thesis using mem assms(2,3) f by (auto simp: next_available_agent_def)
  qed
  then show "m_get (qu_agents q) (ag_extension a) = Some a" "ag_state a = AgAvailable" "ag_extension a \<notin> set ex"
    by auto
  show "qu_strategy q \<noteq> RoundRobin \<Longrightarrow> s' = s"
    using assms(2,3) f by (cases "qu_strategy q") (auto simp: next_available_agent_def)
qed

text \<open>A choice changes nothing but the cursor.\<close>

lemma next_frame:
  assumes "next_available_agent qid ex s = (r, s')"
  shows "s' = s \<or> (\<exists>q n. get_queue s qid = Some q \<and> s' = s\<lparr>qs_queues := m_set qid (q\<lparr>qu_cursor := n\<rparr>) (qs_queues s)\<rparr>)"
  using assms by (auto simp: next_available_agent_def Let_def split: option.splits list.splits strategy.splits)

lemma next_None_iff:
  assumes "get_queue s qid = Some q"
  shows "fst (next_available_agent qid ex s) = None \<longleftrightarrow> (\<forall>a\<in>set (m_vals (qu_agents q)). \<not> eligible ex a)"
proof (cases "filter (eligible ex) (m_vals (qu_agents q))")
  case Nil
  then have "\<forall>a\<in>set (m_vals (qu_agents q)). \<not> eligible ex a" by (simp add: filter_empty_conv)
  then show ?thesis using Nil assms by (simp add: next_available_agent_def)
next
  case (Cons c cs)
  then have "c \<in> set (filter (eligible ex) (m_vals (qu_agents q)))" by simp
  then have "\<exists>a\<in>set (m_vals (qu_agents q)). eligible ex a" by (auto simp del: filter.simps)
  moreover have "fst (next_available_agent qid ex s) \<noteq> None"
    using Cons assms by (auto simp: next_available_agent_def Let_def split: strategy.split option.split)
  ultimately show ?thesis by blast
qed

section \<open>The protocol of a queue\<close>

definition live :: "agent \<Rightarrow> bool" where
  "live a \<longleftrightarrow> ag_state a = AgRinging \<or> ag_state a = AgBusy"

text \<open>What the matching of callers and agents depends on: the agent of each caller, with
  whether the caller is connected, and the state of each agent.\<close>

definition assignment :: "queue \<Rightarrow> string \<Rightarrow> (bool \<times> string) option" where
  "assignment q cid = (case m_get (qu_callers q) cid of None \<Rightarrow> None
     | Some c \<Rightarrow> map_option (\<lambda>ext. (qc_state c = CsConnected, ext)) (qc_agent c))"

definition roster_state :: "queue \<Rightarrow> string \<Rightarrow> agent_state option" where
  "roster_state q ext = map_option ag_state (m_get (qu_agents q) ext)"

text \<open>
  Every caller that has an agent has one of the roster, ringing or busy as the caller is;
  no two callers have the same agent; every ringing or busy agent has a caller.
\<close>

definition matching :: "(string \<Rightarrow> (bool \<times> string) option) \<Rightarrow> (string \<Rightarrow> agent_state option) \<Rightarrow> bool" where
  "matching C A \<longleftrightarrow>
     (\<forall>cid b e. C cid = Some (b, e) \<longrightarrow> A e = Some (if b then AgBusy else AgRinging)) \<and>
     (\<forall>cid cid' b b' e. C cid = Some (b, e) \<longrightarrow> C cid' = Some (b', e) \<longrightarrow> cid = cid') \<and>
     (\<forall>e. A e = Some AgRinging \<or> A e = Some AgBusy \<longrightarrow> (\<exists>cid b. C cid = Some (b, e)))"

definition matched :: "queue \<Rightarrow> bool" where
  "matched q \<longleftrightarrow> matching (assignment q) (roster_state q) \<and> roster_state q [] = None"

lemma matchingI:
  assumes "\<And>cid b e. C cid = Some (b, e) \<Longrightarrow> A e = Some (if b then AgBusy else AgRinging)"
    "\<And>cid cid' b b' e. C cid = Some (b, e) \<Longrightarrow> C cid' = Some (b', e) \<Longrightarrow> cid = cid'"
    "\<And>e st. A e = Some st \<Longrightarrow> st = AgRinging \<or> st = AgBusy \<Longrightarrow> \<exists>cid b. C cid = Some (b, e)"
  shows "matching C A"
  unfolding matching_def using assms by blast

lemma matchingD:
  assumes "matching C A"
  shows "C cid = Some (b, e) \<Longrightarrow> A e = Some (if b then AgBusy else AgRinging)"
    and "C cid = Some (b, e) \<Longrightarrow> C cid' = Some (b', e) \<Longrightarrow> cid = cid'"
    and "A e = Some st \<Longrightarrow> st = AgRinging \<or> st = AgBusy \<Longrightarrow> \<exists>cid b. C cid = Some (b, e)"
  using assms unfolding matching_def by blast+

lemma matching_offer:
  assumes "matching C A" "C cid = None" "A e = Some AgAvailable"
  shows "matching (C(cid := Some (False, e))) (A(e := Some AgRinging))"
proof (rule matchingI)
  have free: "C x \<noteq> Some (b, e)" for x b using matchingD(1) [OF assms(1), of x b e] assms(3) by (cases b) auto
  show "(A(e := Some AgRinging)) x = Some (if b then AgBusy else AgRinging)"
    if "(C(cid := Some (False, e))) k = Some (b, x)" for k b x
    using that free [of k b] matchingD(1) [OF assms(1), of k b x] by (cases "k = cid"; cases "x = e") auto
  show "k = k'" if "(C(cid := Some (False, e))) k = Some (b, x)" "(C(cid := Some (False, e))) k' = Some (b', x)" for k k' b b' x
    using that free matchingD(2) [OF assms(1), of k b x k' b'] by (cases "k = cid"; cases "k' = cid") auto
  show "\<exists>k b. (C(cid := Some (False, e))) k = Some (b, x)"
    if "(A(e := Some AgRinging)) x = Some st" "st = AgRinging \<or> st = AgBusy" for x st
  proof (cases "x = e")
    case False
    then have "A x = Some st" using that(1) by simp
    from matchingD(3) [OF assms(1) this that(2)] obtain k b where "C k = Some (b, x)" by blast
    then show ?thesis using assms(2) by (intro exI [of _ k] exI [of _ b]) auto
  qed auto
qed

text \<open>Replacing the entry of a caller and the state of its agent together.\<close>
lemma matching_update:
  assumes "matching C A" "C cid = Some (b, e)" "\<And>k. k \<noteq> cid \<Longrightarrow> C' k = C k" "\<And>x. x \<noteq> e \<Longrightarrow> A' x = A x"
    "C' cid = Some (True, e) \<and> A' e = Some AgBusy \<or> C' cid = None \<and> A' e \<noteq> Some AgBusy \<and> A' e \<noteq> Some AgRinging"
  shows "matching C' A'"
proof (rule matchingI)
  have own: "k = cid" if "C' k = Some (b', e)" for k b'
    using matchingD(2) [OF assms(1) _ assms(2)] assms(3) that by metis
  have other: "k \<noteq> cid \<and> C k = Some (b', x)" if "C' k = Some (b', x)" "x \<noteq> e" for k b' x
    using assms(3,5) that by (metis option.distinct(1) option.inject prod.inject)
  show "A' x = Some (if b' then AgBusy else AgRinging)" if "C' k = Some (b', x)" for k b' x
  proof (cases "x = e")
    case True
    then have "k = cid" using own that by blast
    then show ?thesis using assms(5) that True by auto
  next
    case False
    then show ?thesis using other [OF that] matchingD(1) [OF assms(1)] assms(4) by metis
  qed
  show "k = k'" if "C' k = Some (b1, x)" "C' k' = Some (b2, x)" for k k' b1 b2 x
  proof (cases "x = e")
    case True
    then show ?thesis using own that by blast
  next
    case False
    then show ?thesis using other that matchingD(2) [OF assms(1)] by blast
  qed
  show "\<exists>k b. C' k = Some (b, x)" if st: "A' x = Some st" "st = AgRinging \<or> st = AgBusy" for x st
  proof (cases "x = e")
    case True
    then show ?thesis using assms(5) st by auto
  next
    case False
    then obtain k b' where k: "C k = Some (b', x)" using matchingD(3) [OF assms(1) _ st(2)] st(1) assms(4) by metis
    then have "k \<noteq> cid" using False assms(2) by auto
    from assms(3) [OF this] k show ?thesis by metis
  qed
qed
lemma matching_set:
  assumes "matching C A" "C cid = Some (b, e)"
  shows "matching (C(cid := Some (True, e))) (A(e := Some AgBusy))"
    and "st \<noteq> AgRinging \<Longrightarrow> st \<noteq> AgBusy \<Longrightarrow> matching (C(cid := None)) (A(e := Some st))"
  by (rule matching_update [OF assms]; simp)+

lemma matching_idle:
  assumes "matching C A" "\<And>e st. st = AgRinging \<or> st = AgBusy \<Longrightarrow> A' e = Some st \<longleftrightarrow> A e = Some st"
  shows "matching C A'"
proof (rule matchingI)
  show "A' e = Some (if b then AgBusy else AgRinging)" if "C k = Some (b, e)" for k b e
    using matchingD(1) [OF assms(1) that] assms(2) [of "if b then AgBusy else AgRinging" e] by (simp split: if_splits)
  show "k = k'" if "C k = Some (b, e)" "C k' = Some (b', e)" for k k' b b' e
    using matchingD(2) [OF assms(1) that] .
  show "\<exists>k b. C k = Some (b, e)" if "A' e = Some st" "st = AgRinging \<or> st = AgBusy" for e st
    using matchingD(3) [OF assms(1), of e st] assms(2) [OF that(2), of e] that by simp
qed

lemma assignment_put [simp]:
  "assignment (put_caller cid c q) =
     (assignment q)(cid := map_option (\<lambda>ext. (qc_state c = CsConnected, ext)) (qc_agent c))"
  "assignment (put_agent ext a q) = assignment q"
  "assignment (q\<lparr>qu_callers := m_del cid (qu_callers q)\<rparr>) = (assignment q)(cid := None)"
  "assignment (q\<lparr>qu_cursor := n\<rparr>) = assignment q"
  by (auto simp: assignment_def js.get_put js.get_del fun_eq_iff)

lemma roster_put [simp]:
  "roster_state (put_agent ext a q) = (roster_state q)(ext := Some (ag_state a))"
  "roster_state (put_caller cid c q) = roster_state q"
  "roster_state (q\<lparr>qu_callers := cs\<rparr>) = roster_state q"
  "roster_state (q\<lparr>qu_cursor := n\<rparr>) = roster_state q"
  by (auto simp: roster_state_def js.get_put fun_eq_iff)

text \<open>
  The calls the SIP path makes: a new call enters; a waiting caller is offered to the agent
  chosen for it (choice and mark in one turn of the event loop); an offer is declined or
  answered; a caller leaves. Agents pause and presence changes at any time; presence is
  synchronised while every ringing or busy agent is registered and not paused.
\<close>

inductive acd_step :: "queue_service \<Rightarrow> queue_service \<Rightarrow> bool" where
  enter: "get_queue s qid = Some q \<Longrightarrow> m_get (qu_callers q) cid = None \<Longrightarrow>
     acd_step s (enqueue now qid cid num name s)"
| offer: "get_queue s qid = Some q \<Longrightarrow> m_get (qu_callers q) cid = Some c \<Longrightarrow> qc_state c = CsWaiting \<Longrightarrow>
     next_available_agent qid ex s = (Some a, s') \<Longrightarrow>
     acd_step s (mark_caller_ringing qid cid (ag_extension a) s')"
| decline: "get_queue s qid = Some q \<Longrightarrow> m_get (qu_callers q) cid = Some c \<Longrightarrow> qc_state c = CsRinging \<Longrightarrow>
     qc_agent c = Some ext \<Longrightarrow> acd_step s (release_ring now qid cid ext s)"
| answer: "get_queue s qid = Some q \<Longrightarrow> m_get (qu_callers q) cid = Some c \<Longrightarrow> qc_state c = CsRinging \<Longrightarrow>
     qc_agent c = Some ext \<Longrightarrow> acd_step s (mark_caller_connected qid cid ext s)"
| leave: "acd_step s (dequeue now qid cid s)"
| pause: "acd_step s (snd (set_agent_paused now qid ext b s))"
| presence: "acd_step s (s\<lparr>qs_online := p\<rparr>)"
| sync: "(\<forall>qid q ext a. get_queue s qid = Some q \<longrightarrow> m_get (qu_agents q) ext = Some a \<longrightarrow> live a \<longrightarrow>
       qs_online s ext \<and> \<not> ag_paused a) \<Longrightarrow> acd_step s (sync_presence now s)"

inductive_cases acd_stepE: "acd_step s t"

lemma matched_cursor [simp]: "matched (q\<lparr>qu_cursor := n\<rparr>) = matched q"
  by (simp add: matched_def)

definition all_matched :: "queue_service \<Rightarrow> bool" where
  "all_matched s \<longleftrightarrow> (\<forall>qid q. get_queue s qid = Some q \<longrightarrow> matched q)"

lemma all_matched_put: "all_matched s \<Longrightarrow> matched q \<Longrightarrow> all_matched (put_queue qid q s)"
  by (simp add: all_matched_def)

lemma all_matchedD: "all_matched s \<Longrightarrow> get_queue s qid = Some q \<Longrightarrow> matched q"
  by (simp add: all_matched_def)

text \<open>An operation that frees the agent of a caller.\<close>

lemma matched_release:
  assumes "matched q" "m_get (qu_callers q) cid = Some c" "qc_agent c = Some ext"
    "m_get (qu_agents q) ext = Some a" "ag_state a' \<noteq> AgRinging" "ag_state a' \<noteq> AgBusy"
  shows "matched (put_agent ext a' (put_caller cid (c\<lparr>qc_state := st, qc_agent := None\<rparr>) q))"
    and "matched (put_agent ext a' (q\<lparr>qu_callers := m_del cid (qu_callers q)\<rparr>))"
proof -
  have C: "assignment q cid = Some (qc_state c = CsConnected, ext)" using assms by (simp add: assignment_def)
  have "ext \<noteq> []" using assms(1,4) by (auto simp: matched_def roster_state_def)
  with matching_set(2) [of "assignment q" "roster_state q", OF _ C assms(5,6)] assms(1)
  show "matched (put_agent ext a' (put_caller cid (c\<lparr>qc_state := st, qc_agent := None\<rparr>) q))"
    and "matched (put_agent ext a' (q\<lparr>qu_callers := m_del cid (qu_callers q)\<rparr>))"
    by (auto simp: matched_def)
qed

text \<open>The agent of a caller is in the roster, in the caller's state.\<close>

lemma matched_agent:
  assumes "matched q" "m_get (qu_callers q) cid = Some c" "qc_agent c = Some ext"
  obtains a where "m_get (qu_agents q) ext = Some a" "ag_state a = (if qc_state c = CsConnected then AgBusy else AgRinging)"
    "ext \<noteq> []"
proof -
  have C: "assignment q cid = Some (qc_state c = CsConnected, ext)" using assms by (simp add: assignment_def)
  have "roster_state q ext = Some (if qc_state c = CsConnected then AgBusy else AgRinging)" "ext \<noteq> []"
    using assms(1) matchingD(1) [of "assignment q" "roster_state q", OF _ C] by (auto simp: matched_def split: if_splits)
  then show thesis using that by (auto simp: roster_state_def split: if_splits)
qed

lemma all_matched_enter:
  assumes "all_matched s" "get_queue s qid = Some q" "m_get (qu_callers q) cid = None"
  shows "all_matched (enqueue now qid cid num name s)"
proof -
  have "assignment q cid = None" using assms(3) by (simp add: assignment_def)
  then have "matched (put_caller cid \<lparr>qc_id = cid, qc_from = num, qc_from_name = (if name = [] then num else name),
      qc_enqueued_at = now, qc_state = CsWaiting, qc_agent = None\<rparr> q)"
    using all_matchedD [OF assms(1,2)] by (simp add: matched_def fun_upd_idem)
  then show ?thesis using assms(1,2) by (simp add: enqueue_def all_matched_put)
qed

lemma all_matched_next:
  assumes "all_matched s" "next_available_agent qid ex s = (r, s')"
  shows "all_matched s'"
  using next_frame [OF assms(2)] assms(1)
  by (auto simp: all_matched_def get_queue_def js.get_put split: if_splits)

lemma all_matched_offer:
  assumes "service_ok s" "all_matched s" "get_queue s qid = Some q" "m_get (qu_callers q) cid = Some c"
    "qc_state c = CsWaiting" "next_available_agent qid ex s = (Some a, s')"
  shows "all_matched (mark_caller_ringing qid cid (ag_extension a) s')"
proof -
  note a = next_cases(1,2) [OF assms(1,3,6)]
  obtain n where q': "get_queue s' qid = Some (q\<lparr>qu_cursor := n\<rparr>)"
  proof (cases "s' = s")
    case True
    then have "get_queue s' qid = Some (q\<lparr>qu_cursor := qu_cursor q\<rparr>)" using assms(3) by simp
    then show thesis by (rule that)
  next
    case False
    then show thesis using next_frame [OF assms(6)] assms(3) that by (auto simp: get_queue_def)
  qed
  have none: "assignment q cid = None"
    using service_okD2(4) [OF assms(1,3,4)] assms(4,5) by (simp add: assignment_def)
  have av: "roster_state q (ag_extension a) = Some AgAvailable" using a by (simp add: roster_state_def)
  have "matched q" by (rule all_matchedD [OF assms(2,3)])
  then have "matched (put_agent (ag_extension a) (a\<lparr>ag_state := AgRinging\<rparr>)
      (put_caller cid (c\<lparr>qc_state := CsRinging, qc_agent := Some (ag_extension a)\<rparr>) (q\<lparr>qu_cursor := n\<rparr>)))"
    using matching_offer [of "assignment q" "roster_state q", OF _ none av] av by (auto simp: matched_def)
  then show ?thesis
    using q' assms(4) a all_matched_next [OF assms(2,6)]
    by (simp add: mark_caller_ringing_def all_matched_put)
qed

lemma all_matched_decline:
  assumes "all_matched s" "get_queue s qid = Some q" "m_get (qu_callers q) cid = Some c"
    "qc_state c = CsRinging" "qc_agent c = Some ext"
  shows "all_matched (release_ring now qid cid ext s)"
proof -
  have m: "matched q" by (rule all_matchedD [OF assms(1,2)])
  obtain a where "m_get (qu_agents q) ext = Some a" "ag_state a = AgRinging"
    using matched_agent [OF m assms(3,5)] assms(4) by auto
  then show ?thesis
    using matched_release(1) [OF m assms(3,5)] assms by (simp add: release_ring_def all_matched_put)
qed

lemma all_matched_answer:
  assumes "all_matched s" "get_queue s qid = Some q" "m_get (qu_callers q) cid = Some c"
    "qc_agent c = Some ext"
  shows "all_matched (mark_caller_connected qid cid ext s)"
proof -
  have m: "matched q" by (rule all_matchedD [OF assms(1,2)])
  obtain a where a: "m_get (qu_agents q) ext = Some a" "ext \<noteq> []"
    using matched_agent [OF m assms(3,4)] by auto
  have C: "assignment q cid = Some (qc_state c = CsConnected, ext)" using assms by (simp add: assignment_def)
  have "matched (put_agent ext (a\<lparr>ag_state := AgBusy, ag_calls_handled := ag_calls_handled a + 1\<rparr>)
      (put_caller cid (c\<lparr>qc_state := CsConnected, qc_agent := Some ext\<rparr>) q))"
    using m matching_set(1) [of "assignment q" "roster_state q", OF _ C] a(2) by (auto simp: matched_def)
  then show ?thesis using assms(1-3) a by (simp add: mark_caller_connected_def all_matched_put)
qed

lemma all_matched_dequeue:
  assumes "all_matched s"
  shows "all_matched (dequeue now qid cid s)"
proof (cases "get_queue s qid")
  case (Some q)
  note m = all_matchedD [OF assms Some]
  show ?thesis
  proof (cases "m_get (qu_callers q) cid")
    case c: (Some c)
    show ?thesis
    proof (cases "qc_agent c")
      case None
      then have "assignment q cid = None" using c by (simp add: assignment_def)
      then have "matched (q\<lparr>qu_callers := m_del cid (qu_callers q)\<rparr>)"
        using m by (simp add: matched_def fun_upd_idem)
      then show ?thesis using Some c None assms by (simp add: dequeue_def all_matched_put)
    next
      case ext: (Some ext)
      obtain a where a: "m_get (qu_agents q) ext = Some a" "ext \<noteq> []" "ag_state a = AgBusy \<or> ag_state a = AgRinging"
        using matched_agent [OF m c ext] by (metis (full_types))
      then show ?thesis
        using Some c ext assms matched_release(2) [OF m c ext a(1)]
        by (auto simp: dequeue_def intro!: all_matched_put)
    qed
  qed (simp add: dequeue_def Some assms)
qed (simp add: dequeue_def assms)

lemma matched_put_agent:
  assumes "matched q" "m_get (qu_agents q) ext = Some a" "live a \<or> live a' \<longrightarrow> ag_state a' = ag_state a"
  shows "matched (put_agent ext a' q)"
proof -
  have rq: "roster_state q ext = Some (ag_state a)" using assms(2) by (simp add: roster_state_def)
  have "matching (assignment q) ((roster_state q)(ext := Some (ag_state a')))"
  proof (rule matching_idle)
    show "matching (assignment q) (roster_state q)" using assms(1) by (simp add: matched_def)
    show "((roster_state q)(ext := Some (ag_state a'))) e = Some st \<longleftrightarrow> roster_state q e = Some st"
      if "st = AgRinging \<or> st = AgBusy" for e st
    proof -
      have "ag_state a' = st \<longleftrightarrow> ag_state a = st" using that assms(3) unfolding live_def by metis
      then show ?thesis using rq by simp
    qed
  qed
  moreover have "ext \<noteq> []" using assms(1) rq unfolding matched_def by force
  ultimately show ?thesis using assms(1) unfolding matched_def by simp
qed

lemma all_matched_paused:
  assumes "service_ok s" "all_matched s"
  shows "all_matched (snd (set_agent_paused now qid ext b s))"
proof (cases "get_queue s qid")
  case q: (Some q)
  show ?thesis
  proof (cases "m_get (qu_agents q) ext")
    case (Some a)
    define st where "st = (if \<not> qs_online s ext then AgOffline else if b then AgPaused else AgAvailable)"
    define a' where "a' = (if ag_state a \<in> {AgAvailable, AgPaused, AgOffline}
      then a\<lparr>ag_paused := b, ag_state := st, ag_idle_since := (if st = AgAvailable then now else ag_idle_since a)\<rparr>
      else a\<lparr>ag_paused := b\<rparr>)"
    have "live a \<or> live a' \<longrightarrow> ag_state a' = ag_state a" by (auto simp: a'_def st_def live_def)
    then have "all_matched (put_queue qid (put_agent ext a' q) s)"
      using all_matched_put matched_put_agent Some all_matchedD [OF assms(2) q] assms(2) by blast
    moreover have "snd (set_agent_paused now qid ext b s) = (if ag_paused a = b then s else put_queue qid (put_agent ext a' q) s)"
      using q Some by (simp add: set_agent_paused_def Let_def a'_def st_def)
    ultimately show ?thesis using assms(2) by simp
  qed (simp add: set_agent_paused_def q assms(2))
qed (simp add: set_agent_paused_def assms)

lemma all_matched_sync:
  assumes "service_ok s" "all_matched s"
    "\<forall>qid q ext a. get_queue s qid = Some q \<longrightarrow> m_get (qu_agents q) ext = Some a \<longrightarrow> live a \<longrightarrow>
       qs_online s ext \<and> \<not> ag_paused a"
  shows "all_matched (sync_presence now s)"
  unfolding all_matched_def
proof (intro allI impI)
  fix qid q'
  assume "get_queue (sync_presence now s) qid = Some q'"
  then obtain q where q: "get_queue s qid = Some q" "q' = fst (recompute_presence (qs_online s) now q)"
    by (auto simp: sync_presence_def get_queue_def)
  note m = all_matchedD [OF assms(2) q(1)]
  have st: "roster_state q' e = map_option (\<lambda>a. presence_state (qs_online s e) a) (m_get (qu_agents q) e)" for e
    using service_okD2(1) [OF assms(1) q(1), of e]
    by (cases "m_get (qu_agents q) e") (auto simp: q(2) roster_state_def recompute_agent_def Let_def)
  have "matching (assignment q) (roster_state q')"
  proof (rule matching_idle)
    show "matching (assignment q) (roster_state q)" using m by (simp add: matched_def)
    show "roster_state q' e = Some t \<longleftrightarrow> roster_state q e = Some t" if "t = AgRinging \<or> t = AgBusy" for e t
    proof (cases "m_get (qu_agents q) e")
      case (Some a)
      have "roster_state q e = Some (ag_state a)" "roster_state q' e = Some (presence_state (qs_online s e) a)"
        using Some by (simp_all add: st roster_state_def [of q])
      moreover have "live a \<Longrightarrow> qs_online s e \<and> \<not> ag_paused a" using assms(3) q(1) Some by blast
      ultimately show ?thesis using that by (auto simp: presence_state_def live_def)
    qed (simp add: st roster_state_def [of q])
  qed
  moreover have "assignment q' = assignment q" by (simp add: q(2) assignment_def fun_eq_iff)
  moreover have "roster_state q' [] = None"
    unfolding st using m by (simp add: matched_def roster_state_def)
  ultimately show "matched q'" by (simp add: matched_def)
qed

lemma acd_step_matched:
  assumes "acd_step s t" "service_ok s" "all_matched s"
  shows "service_ok t \<and> all_matched t"
  using assms(1)
proof cases
  case (enter qid q cid now num name)
  then show ?thesis using all_matched_enter service_ok_enqueue assms by simp
next
  case (offer qid q cid c ex a s')
  have "service_ok s'" using service_ok_next [OF assms(2), of qid ex] offer(5) by simp
  then show ?thesis
    using offer all_matched_offer [OF assms(2,3) offer(2-5)] service_ok_ringing by simp
next
  case (decline qid q cid c ext now)
  then show ?thesis using all_matched_decline [OF assms(3)] service_ok_release assms(2) by blast
next
  case (answer qid q cid c ext)
  then show ?thesis using all_matched_answer [OF assms(3)] service_ok_connected assms(2) by blast
next
  case (leave now qid cid)
  then show ?thesis using all_matched_dequeue service_ok_dequeue assms by simp
next
  case (pause now qid ext b)
  then show ?thesis using all_matched_paused service_ok_paused assms by simp
next
  case (presence p)
  then show ?thesis using assms by (simp add: service_ok_def all_matched_def get_queue_def)
next
  case (sync now)
  then show ?thesis using all_matched_sync [OF assms(2,3)] service_ok_sync assms(2) by simp
qed

text \<open>A new service with named agents starts matched.\<close>

lemma new_agent_simps [simp]:
  "ag_extension (new_agent now e) = e" "ag_state (new_agent now e) = AgOffline" "\<not> ag_paused (new_agent now e)"
  by (simp_all add: new_agent_def)

lemma fold_roster:
  "m_get (fold (\<lambda>ext m. m_set ext (new_agent now ext) m) exts m) e =
    (if e \<in> set exts then Some (new_agent now e) else m_get m e)"
  by (induction exts arbitrary: m) (auto simp: js.get_put)

lemma fold_m_ok: "m_ok m \<Longrightarrow> m_ok (fold (\<lambda>x m. m_set (f x) (g x) m) xs m)"
  by (induction xs arbitrary: m) simp_all

lemma fold_get: "m_get (fold (\<lambda>x m. m_set (f x) (g x) m) xs m) k = Some v \<Longrightarrow>
    (\<exists>x\<in>set xs. k = f x \<and> v = g x) \<or> m_get m k = Some v"
  by (induction xs arbitrary: m) (fastforce simp: js.get_put split: if_splits)+

lemma new_service_ok: "service_ok (new_service now defs)"
proof -
  have "queue_ok (new_queue now d)" for d
    by (auto simp: new_queue_def queue_ok_def fold_roster agent_ok_def
        intro!: fold_m_ok [where f = "\<lambda>x. x"] split: if_splits)
  moreover have "qu_id (new_queue now d) = qd_id d" for d by (simp add: new_queue_def)
  moreover have "\<exists>d. qid = qd_id d \<and> q = new_queue now d" if "get_queue (new_service now defs) qid = Some q" for qid q
    using fold_get [of qd_id "new_queue now" defs "[]" qid q] that by (auto simp: new_service_def get_queue_def)
  moreover have "m_ok (qs_queues (new_service now defs))" by (simp add: new_service_def fold_m_ok)
  ultimately show ?thesis unfolding service_ok_def by metis
qed

lemma new_service_matched:
  assumes "\<forall>d\<in>set defs. [] \<notin> set (qd_agents d)"
  shows "all_matched (new_service now defs)"
proof -
  have "matched (new_queue now d)" if "d \<in> set defs" for d
    using that assms
    by (auto simp: matched_def matching_def assignment_def roster_state_def new_queue_def fold_roster split: if_splits)
  then show ?thesis
    using fold_get [of qd_id "new_queue now" defs "[]"]
    by (fastforce simp: all_matched_def new_service_def get_queue_def)
qed

lemma acd_reachable:
  assumes "acd_step\<^sup>*\<^sup>* (new_service now defs) s" "\<forall>d\<in>set defs. [] \<notin> set (qd_agents d)"
  shows "service_ok s \<and> all_matched s"
  using assms(1) by (induction rule: rtranclp_induct)
    (auto simp: new_service_ok new_service_matched assms(2) dest: acd_step_matched)

lemma find_filter: "List.find P xs = (case filter P xs of [] \<Rightarrow> None | y # _ \<Rightarrow> Some y)"
  by (induction xs) auto

section \<open>Round-robin is fair\<close>

text \<open>The agents that successive choices give, each with its own excluded agents.\<close>

fun picks :: "string \<Rightarrow> string list list \<Rightarrow> queue_service \<Rightarrow> string list" where
  "picks qid [] s = []"
| "picks qid (ex # exs) s =
     (case next_available_agent qid ex s of
        (None, s') \<Rightarrow> picks qid exs s'
      | (Some a, s') \<Rightarrow> ag_extension a # picks qid exs s')"

text \<open>A choice either takes the agent at distance \<open>i\<close> behind the cursor or brings it closer.\<close>

lemma rr_progress:
  assumes "service_ok s" "get_queue s qid = Some q" "qu_strategy q = RoundRobin"
    "m_get (qu_agents q) b = Some ab" "ag_state ab = AgAvailable" "b \<notin> set ex"
    "1 \<le> i" "i \<le> length (qu_agents q)"
    "m_keys (qu_agents q) ! ((qu_cursor q + i) mod length (qu_agents q)) = b"
  shows "\<exists>a s' n. next_available_agent qid ex s = (Some a, s') \<and>
    get_queue s' qid = Some (q\<lparr>qu_cursor := n\<rparr>) \<and> service_ok s' \<and>
    (ag_extension a = b \<or> (\<exists>j. 1 \<le> j \<and> j < i \<and>
       m_keys (qu_agents q) ! ((n + j) mod length (qu_agents q)) = b))"
proof -
  let ?r = "m_keys (qu_agents q)" and ?n = "length (qu_agents q)"
  let ?is = "[1..<Suc (length ?r)]"
  have i: "i \<in> set ?is" using assms(7,8) by auto
  have ok: "m_ok (qu_agents q)" using service_okD [OF assms(1,2)] by (simp add: queue_ok_def)
  have "ab \<in> set (filter (eligible ex) (m_vals (qu_agents q)))"
    using m_get_mem [OF assms(4)] service_okD2(1) [OF assms(1,2,4)] assms(5,6) by (simp add: eligible_def)
  then obtain c cs where f: "filter (eligible ex) (m_vals (qu_agents q)) = c # cs"
    by (cases "filter (eligible ex) (m_vals (qu_agents q))") auto
  have "rr_scan q ex ?r ?is \<noteq> None"
  proof
    assume "rr_scan q ex ?r ?is = None"
    from rr_scan_None [OF this i, of ab] show False using assms(4-6,9) by simp
  qed
  then obtain p a where scan: "rr_scan q ex ?r ?is = Some (p, a)" by auto
  let ?s' = "s\<lparr>qs_queues := m_set qid (q\<lparr>qu_cursor := p\<rparr>) (qs_queues s)\<rparr>"
  have next': "next_available_agent qid ex s = (Some a, ?s')"
    using assms(2,3) f scan by (simp add: next_available_agent_def Let_def del: upt_Suc)
  obtain k pre post where k: "?is = pre @ k # post" "p = (qu_cursor q + k) mod length ?r"
    "m_get (qu_agents q) (?r ! p) = Some a"
    "\<forall>j\<in>set pre. \<forall>b. m_get (qu_agents q) (?r ! ((qu_cursor q + j) mod length ?r)) = Some b \<longrightarrow>
      \<not> (ag_state b = AgAvailable \<and> ?r ! ((qu_cursor q + j) mod length ?r) \<notin> set ex)"
    using rr_scan_Some [OF scan] by blast
  have "i \<notin> set pre" using k(4) assms(4-6,9) by auto
  moreover have "sorted (pre @ k # post)" by (metis k(1) sorted_upt)
  moreover have "i \<in> set (pre @ k # post)" using i unfolding k(1) .
  ultimately have "k \<le> i" by (auto simp: sorted_append)
  have k1: "1 \<le> k" using k(1) by (metis atLeastLessThan_iff in_set_conv_decomp set_upt)
  have a: "ag_extension a = ?r ! p" using service_okD2(1) [OF assms(1,2) k(3)] .
  have "ag_extension a = b \<or> (\<exists>j. 1 \<le> j \<and> j < i \<and> ?r ! ((p + j) mod ?n) = b)"
  proof (cases "k = i")
    case True
    then show ?thesis using a k(2) assms(9) by simp
  next
    case False
    have "(p + (i - k)) mod ?n = (qu_cursor q + i) mod ?n"
      unfolding k(2) length_map mod_add_left_eq using \<open>k \<le> i\<close> by simp
    then show ?thesis using False \<open>k \<le> i\<close> k1 assms(9) by (intro disjI2 exI [of _ "i - k"]) auto
  qed
  moreover have "get_queue ?s' qid = Some (q\<lparr>qu_cursor := p\<rparr>)" by (simp add: get_queue_def)
  moreover have "service_ok ?s'" using service_ok_next [OF assms(1), of qid ex] next' by simp
  ultimately show ?thesis using next' by blast
qed

lemma picks_reach:
  assumes "service_ok s" "get_queue s qid = Some q" "qu_strategy q = RoundRobin"
    "m_get (qu_agents q) b = Some ab" "ag_state ab = AgAvailable" "\<forall>ex\<in>set exs. b \<notin> set ex"
    "1 \<le> i" "i \<le> length (qu_agents q)" "i \<le> length exs"
    "m_keys (qu_agents q) ! ((qu_cursor q + i) mod length (qu_agents q)) = b"
  shows "b \<in> set (picks qid exs s)"
  using assms
proof (induction exs arbitrary: s q i)
  case (Cons ex exs)
  have "b \<notin> set ex" using Cons.prems(6) by simp
  from rr_progress [OF Cons.prems(1-5) this Cons.prems(7,8,10)]
  obtain a s' n where step: "next_available_agent qid ex s = (Some a, s')"
    "get_queue s' qid = Some (q\<lparr>qu_cursor := n\<rparr>)" "service_ok s'"
    "ag_extension a = b \<or> (\<exists>j. 1 \<le> j \<and> j < i \<and> m_keys (qu_agents q) ! ((n + j) mod length (qu_agents q)) = b)"
    by blast
  show ?case
  proof (cases "ag_extension a = b")
    case False
    then obtain j where j: "1 \<le> j" "j < i" "m_keys (qu_agents q) ! ((n + j) mod length (qu_agents q)) = b"
      using step(4) by blast
    have "b \<in> set (picks qid exs s')"
      using Cons.prems(3-9) j by (intro Cons.IH [OF step(3,2)]) auto
    then show ?thesis using step(1) by simp
  qed (simp add: step(1))
qed simp

section \<open>A sample run\<close>

text \<open>A queue with two agents, one of them on the phone with the only caller.\<close>

definition sample_defs :: "queue_definition list" where
  "sample_defs = [\<lparr>qd_id = ''sales'', qd_name = ''Sales'', qd_agents = [''101'', ''102''], qd_strategy = ''round-robin''\<rparr>]"

definition sample_online :: queue_service where
  "sample_online = sync_presence 5 ((new_service 0 sample_defs)\<lparr>qs_online := (\<lambda>_. True)\<rparr>)"

definition sample_waiting :: queue_service where
  "sample_waiting = enqueue 6 ''sales'' ''c1'' ''555'' ''Bob'' sample_online"

definition sample_ringing :: queue_service where
  "sample_ringing = mark_caller_ringing ''sales'' ''c1'' ''102'' (snd (next_available_agent ''sales'' [] sample_waiting))"

definition sample_talking :: queue_service where
  "sample_talking = mark_caller_connected ''sales'' ''c1'' ''102'' sample_ringing"

lemmas sample_defs_all = sample_defs_def sample_online_def sample_waiting_def sample_ringing_def sample_talking_def
  new_service_def new_queue_def new_agent_def normalize_strategy_def sync_presence_def recompute_presence_def
  recompute_agent_def presence_state_def m_map_def get_queue_def enqueue_def put_queue_def put_caller_def
  put_agent_def mark_caller_ringing_def mark_caller_connected_def next_available_agent_def eligible_def Let_def

lemma sample_online_state:
  "get_queue sample_online ''sales'' = Some \<lparr>qu_id = ''sales'', qu_name = ''Sales'', qu_strategy = RoundRobin,
    qu_agents = [(''101'', \<lparr>ag_extension = ''101'', ag_name = ''101'', ag_state = AgAvailable, ag_paused = False,
        ag_idle_since = 5, ag_calls_handled = 0\<rparr>),
      (''102'', \<lparr>ag_extension = ''102'', ag_name = ''102'', ag_state = AgAvailable, ag_paused = False,
        ag_idle_since = 5, ag_calls_handled = 0\<rparr>)],
    qu_callers = [], qu_cursor = 0\<rparr>"
  by (simp add: sample_defs_all)

lemma sample_reachable: "acd_step\<^sup>*\<^sup>* (new_service 0 sample_defs) sample_talking"
proof -
  let ?s0 = "new_service 0 sample_defs"
  let ?s1 = "?s0\<lparr>qs_online := (\<lambda>_. True)\<rparr>"
  have "acd_step ?s0 ?s1" by (rule acd_step.presence)
  moreover have "acd_step ?s1 sample_online"
    unfolding sample_online_def by (rule acd_step.sync) (auto simp: sample_defs_all live_def split: if_splits)
  moreover have "acd_step sample_online sample_waiting"
    unfolding sample_waiting_def by (rule acd_step.enter [OF sample_online_state]) simp
  moreover have "acd_step sample_waiting sample_ringing"
  proof -
    obtain a s' where n: "next_available_agent ''sales'' [] sample_waiting = (Some a, s')" "ag_extension a = ''102''"
      by (simp add: sample_defs_all)
    obtain q c where "get_queue sample_waiting ''sales'' = Some q" "m_get (qu_callers q) ''c1'' = Some c" "qc_state c = CsWaiting"
      by (simp add: sample_defs_all)
    from acd_step.offer [OF this n(1)] show ?thesis using n by (simp add: sample_ringing_def)
  qed
  moreover have "acd_step sample_ringing sample_talking"
  proof -
    obtain q c where "get_queue sample_ringing ''sales'' = Some q" "m_get (qu_callers q) ''c1'' = Some c"
      "qc_state c = CsRinging" "qc_agent c = Some ''102''"
      by (simp add: sample_defs_all)
    from acd_step.answer [OF this] show ?thesis by (simp add: sample_talking_def)
  qed
  ultimately show ?thesis by (meson rtranclp.rtrancl_into_rtrancl rtranclp.rtrancl_refl)
qed

lemma sample_names: "\<forall>d\<in>set sample_defs. [] \<notin> set (qd_agents d)"
  by (simp add: sample_defs_def)

lemma sample_ok: "service_ok sample_online"
  unfolding sample_online_def
  by (intro service_ok_sync) (use new_service_ok [of 0 sample_defs] in \<open>simp add: service_ok_def get_queue_def\<close>)

lemma sample_talking_state:
  "\<exists>q c. get_queue sample_talking ''sales'' = Some q \<and> m_get (qu_callers q) ''c1'' = Some c \<and> qc_agent c = Some ''102''"
  by (simp add: sample_defs_all)

section \<open>Properties\<close>



text \<open>The choice follows the strategy: an available, not excluded agent of the queue whenever
  there is one, under every strategy; the one idle longest of these under longest-idle, the
  first of them in the roster under sequential.\<close>

theorem choice_follows_strategy:
  assumes "service_ok s" "get_queue s qid = Some q"
  shows "(fst (next_available_agent qid ex s) = None \<longleftrightarrow> \<not> list_ex (eligible ex) (m_vals (qu_agents q))) \<and>
    (\<forall>a s'. next_available_agent qid ex s = (Some a, s') \<longrightarrow>
      m_get (qu_agents q) (ag_extension a) = Some a \<and> eligible ex a \<and>
      (qu_strategy q = LongestIdle \<longrightarrow> s' = s \<and>
         (\<forall>b\<in>set (m_vals (qu_agents q)). eligible ex b \<longrightarrow> ag_idle_since a \<le> ag_idle_since b)) \<and>
      (qu_strategy q = Sequential \<longrightarrow> s' = s \<and> List.find (eligible ex) (m_vals (qu_agents q)) = Some a))"
proof -
  have "m_get (qu_agents q) (ag_extension a) = Some a \<and> eligible ex a \<and>
      (qu_strategy q = LongestIdle \<longrightarrow> s' = s \<and>
         (\<forall>b\<in>set (m_vals (qu_agents q)). eligible ex b \<longrightarrow> ag_idle_since a \<le> ag_idle_since b)) \<and>
      (qu_strategy q = Sequential \<longrightarrow> s' = s \<and> List.find (eligible ex) (m_vals (qu_agents q)) = Some a)"
    if n: "next_available_agent qid ex s = (Some a, s')" for a s'
  proof -
    note c = next_cases [OF assms n]
    obtain b bs where f: "filter (eligible ex) (m_vals (qu_agents q)) = b # bs"
      using assms(2) n by (cases "filter (eligible ex) (m_vals (qu_agents q))") (auto simp: next_available_agent_def)
    have "\<forall>x\<in>set (m_vals (qu_agents q)). eligible ex x \<longrightarrow> ag_idle_since a \<le> ag_idle_since x"
      if "qu_strategy q = LongestIdle"
    proof -
      have "a = longest_idle b bs" using that n f assms(2) by (simp add: next_available_agent_def)
      then have "\<forall>x\<in>set (filter (eligible ex) (m_vals (qu_agents q))). ag_idle_since a \<le> ag_idle_since x"
        using longest_idle_least f by simp
      then show ?thesis by simp
    qed
    moreover have "List.find (eligible ex) (m_vals (qu_agents q)) = Some a" if "qu_strategy q = Sequential"
      using that n f assms(2) by (simp add: next_available_agent_def find_filter)
    ultimately show ?thesis using c by (auto simp: eligible_def)
  qed
  then show ?thesis using next_None_iff [OF assms(2)] by (auto simp: list_ex_iff)
qed

theorem choice_follows_strategy_witness:
  "fst (next_available_agent ''sales'' [''101'', ''102''] sample_online) = None"
  using choice_follows_strategy [OF sample_ok sample_online_state, of "[''101'', ''102'']"]
  by (simp add: eligible_def)

text \<open>C40: Round-robin starves nobody: an agent who stays available is chosen within as many
  consecutive choices as the roster has agents, wherever the cursor stands and whoever else
  is excluded.\<close>

theorem round_robin_fair:
  assumes "service_ok s" "get_queue s qid = Some q" "qu_strategy q = RoundRobin"
    "m_get (qu_agents q) b = Some a" "ag_state a = AgAvailable" "\<forall>ex\<in>set exs. b \<notin> set ex"
    "length (qu_agents q) \<le> length exs"
  shows "b \<in> set (picks qid exs s)"
proof -
  have "b \<in> set (m_keys (qu_agents q))" using assms(4) by (metis map_of_eq_None_iff option.distinct(1) set_map)
  then obtain p where p: "p < length (qu_agents q)" "m_keys (qu_agents q) ! p = b"
    by (auto simp: in_set_conv_nth)
  obtain i where "1 \<le> i" "i \<le> length (qu_agents q)" "(qu_cursor q + i) mod length (qu_agents q) = p"
    using cursor_reaches [OF p(1), of "qu_cursor q"] by auto
  then show ?thesis using picks_reach [OF assms(1-6)] p(2) assms(7) by simp
qed

lemma fold_max: "(\<forall>x\<in>set xs. f x \<le> fold (\<lambda>c m. max m (f c)) xs (b::int)) \<and> b \<le> fold (\<lambda>c m. max m (f c)) xs b"
  by (induction xs arbitrary: b) (auto, (metis max.boundedE)+)

theorem round_robin_fair_witness: "''101'' \<in> set (picks ''sales'' [[], []] sample_online)"
  by (rule round_robin_fair [OF sample_ok sample_online_state], simp, simp, simp, simp, simp)

text \<open>The supervisor's counts add up: waiting and connected callers are all callers, the
  agents the snapshot reports available are the ones \<open>agent_availability\<close> reports, and no
  unconnected caller has waited longer than the longest wait.\<close>

theorem snapshot_counts:
  assumes "snapshot now s qid = Some v"
  shows "qt_waiting (sq_stats v) + qt_connected (sq_stats v) = length (sq_callers v) \<and>
    fst (snd (agent_availability s qid)) = qt_agents_available (sq_stats v) \<and>
    snd (snd (agent_availability s qid)) = qt_agents_total (sq_stats v) \<and>
    (\<forall>c\<in>set (sq_callers v). sc_state c \<noteq> CsConnected \<longrightarrow> sc_waiting_secs c \<le> qt_longest_wait (sq_stats v))"
proof -
  obtain q where q: "get_queue s qid = Some q" using assms by (auto simp: snapshot_def split: option.splits)
  let ?cs = "map (caller_view now) (m_vals (qu_callers q))"
  have "length (filter P xs) + length (filter (\<lambda>x. \<not> P x) xs) = length xs" for P and xs :: "caller_snapshot list"
    by (rule sum_length_filter_compl)
  from this [of "\<lambda>c. sc_state c \<noteq> CsConnected" ?cs]
  show ?thesis
    using assms q fold_max [where xs = "filter (\<lambda>c. sc_state c \<noteq> CsConnected) ?cs" and f = sc_waiting_secs and b = 0]
    by (auto simp: snapshot_def Let_def agent_availability_def agent_view_def comp_def filter_map)
qed

theorem snapshot_counts_witness:
  "\<exists>v. snapshot 9 sample_talking ''sales'' = Some v \<and> qt_waiting (sq_stats v) + qt_connected (sq_stats v) = 1"
proof -
  obtain v where v: "snapshot 9 sample_talking ''sales'' = Some v"
    using sample_talking_state by (auto simp: snapshot_def Let_def)
  moreover have "length (sq_callers v) = 1"
    using v by (simp add: snapshot_def sample_defs_all split: if_splits) (auto simp: caller_view_def)
  ultimately show ?thesis using snapshot_counts [OF v] by simp
qed

text \<open>Presence does not respect live calls: after a registration of a busy agent lapses and
  returns while the call goes on, the two presence updates leave the agent available, and the
  queue offers the next caller to an agent who is talking.\<close>

theorem presence_flap_frees_busy_agent:
  "let s1 = sync_presence 10 (sample_talking\<lparr>qs_online := (\<lambda>e. e \<noteq> ''102'')\<rparr>);
       s2 = sync_presence 11 (s1\<lparr>qs_online := (\<lambda>_. True)\<rparr>)
   in map_option (\<lambda>q. (map_option qc_agent (m_get (qu_callers q) ''c1''), map_option qc_state (m_get (qu_callers q) ''c1'')))
        (get_queue s2 ''sales'') = Some (Some (Some ''102''), Some CsConnected) \<and>
      map_option ag_extension (fst (next_available_agent ''sales'' [''101''] s2)) = Some ''102''"
  by (simp add: sample_defs_all numeral_eq_Suc)

end
