(* ===== verification/Conference.thy ===== *)
theory Conference
  imports Prelude
begin

text \<open>
  The registry of conference rooms (\<^verbatim>\<open>src/src/services/conference.service.ts\<close>): who is
  invited, ringing or joined, and the \<^verbatim>\<open>updated\<close> and \<^verbatim>\<open>closed\<close> events as the
  list \<open>cs_emitted\<close>. The random room ids are a list of candidate draws. Lemmas: every
  operation keeps the rooms well-formed with at most one host, and a room goes away exactly
  when it is closed or its last joined or ringing member leaves.
\<close>

section \<open>State\<close>

datatype participant_state = PInvited | PRinging | PJoined | PLeft

record participant =
  cp_extension :: string
  cp_name :: string
  cp_state :: participant_state
  cp_joined_at :: "int option"
  cp_muted :: bool
  cp_is_host :: bool

record room =
  ro_id :: string
  ro_name :: string
  ro_host :: string
  ro_created_at :: int
  ro_participants :: "(string, participant) js_map"

datatype room_event = Updated string | Closed string

record conferences =
  cs_rooms :: "(string, room) js_map"
  cs_emitted :: "room_event list"

definition no_rooms :: conferences where
  "no_rooms = \<lparr>cs_rooms = [], cs_emitted = []\<rparr>"

section \<open>Operations\<close>

text \<open>The loop draws until an id is free; a list of draws that are all taken gives \<open>None\<close>.\<close>

definition generate_id :: "string list \<Rightarrow> conferences \<Rightarrow> string option" where
  "generate_id draws s = List.find (\<lambda>rid. \<not> m_has (cs_rooms s) rid) draws"

definition put_room :: "string \<Rightarrow> room \<Rightarrow> conferences \<Rightarrow> conferences" where
  "put_room rid r s = s\<lparr>cs_rooms := m_set rid r (cs_rooms s), cs_emitted := cs_emitted s @ [Updated rid]\<rparr>"

definition room_label :: "string option \<Rightarrow> string" where
  "room_label name = (let t = trim (str_or name []) in if t = [] then ''Conference'' else t)"

definition create_room ::
  "int \<Rightarrow> string list \<Rightarrow> string \<Rightarrow> string \<Rightarrow> string option \<Rightarrow> conferences \<Rightarrow> (room \<times> conferences) option" where
  "create_room now draws host host_name name s =
     (case generate_id draws s of None \<Rightarrow> None
      | Some rid \<Rightarrow>
          (let r = \<lparr>ro_id = rid, ro_name = room_label name, ro_host = host, ro_created_at = now,
                    ro_participants = m_set host \<lparr>cp_extension = host,
                      cp_name = (if host_name = [] then host else host_name), cp_state = PInvited,
                      cp_joined_at = None, cp_muted = False, cp_is_host = True\<rparr> []\<rparr>
           in Some (r, put_room rid r s)))"

definition get_room :: "conferences \<Rightarrow> string \<Rightarrow> room option" where
  "get_room s rid = m_get (cs_rooms s) rid"

definition ensure_room :: "int \<Rightarrow> string \<Rightarrow> string \<Rightarrow> string option \<Rightarrow> conferences \<Rightarrow> room \<times> conferences" where
  "ensure_room now rid caller name s =
     (case get_room s rid of Some r \<Rightarrow> (r, s)
      | None \<Rightarrow>
          (let r = \<lparr>ro_id = rid, ro_name = room_label name, ro_host = caller, ro_created_at = now,
                    ro_participants = []\<rparr>
           in (r, put_room rid r s)))"

definition get_room_for_extension :: "conferences \<Rightarrow> string \<Rightarrow> room option" where
  "get_room_for_extension s ext = List.find (\<lambda>r. m_has (ro_participants r) ext) (m_vals (cs_rooms s))"

definition put_participant :: "string \<Rightarrow> participant \<Rightarrow> room \<Rightarrow> room" where
  "put_participant ext p r = r\<lparr>ro_participants := m_set ext p (ro_participants r)\<rparr>"

definition add_invite :: "string \<Rightarrow> string \<Rightarrow> string \<Rightarrow> conferences \<Rightarrow> conferences" where
  "add_invite rid ext name s =
     (case get_room s rid of None \<Rightarrow> s
      | Some r \<Rightarrow>
          (let existing = m_get (ro_participants r) ext
           in if \<exists>p. existing = Some p \<and> cp_state p = PJoined then s
              else put_room rid (put_participant ext
                \<lparr>cp_extension = ext, cp_name = (if name = [] then ext else name), cp_state = PInvited,
                 cp_joined_at = None, cp_muted = or_else (map_option cp_muted existing) False,
                 cp_is_host = or_else (map_option cp_is_host existing) False\<rparr> r) s))"

definition mark_ringing :: "string \<Rightarrow> string \<Rightarrow> conferences \<Rightarrow> conferences" where
  "mark_ringing rid ext s =
     (case get_room s rid of None \<Rightarrow> s
      | Some r \<Rightarrow>
          (case m_get (ro_participants r) ext of None \<Rightarrow> s
           | Some p \<Rightarrow> if cp_state p = PJoined then s
               else put_room rid (put_participant ext (p\<lparr>cp_state := PRinging\<rparr>) r) s))"

definition mark_joined :: "int \<Rightarrow> string \<Rightarrow> string \<Rightarrow> string \<Rightarrow> conferences \<Rightarrow> conferences" where
  "mark_joined now rid ext name s =
     (case get_room s rid of None \<Rightarrow> s
      | Some r \<Rightarrow>
          (let existing = m_get (ro_participants r) ext
           in put_room rid (put_participant ext
                \<lparr>cp_extension = ext,
                 cp_name = (if name \<noteq> [] then name else str_or (map_option cp_name existing) ext),
                 cp_state = PJoined, cp_joined_at = Some now,
                 cp_muted = or_else (map_option cp_muted existing) False,
                 cp_is_host = or_else (map_option cp_is_host existing) (length (ro_participants r) = 0)\<rparr> r) s))"

definition still_active :: "room \<Rightarrow> bool" where
  "still_active r \<longleftrightarrow> list_ex (\<lambda>p. cp_state p = PJoined \<or> cp_state p = PRinging) (m_vals (ro_participants r))"

definition drop_room :: "string \<Rightarrow> conferences \<Rightarrow> conferences" where
  "drop_room rid s = s\<lparr>cs_rooms := m_del rid (cs_rooms s), cs_emitted := cs_emitted s @ [Closed rid]\<rparr>"

definition mark_left :: "string \<Rightarrow> string \<Rightarrow> conferences \<Rightarrow> conferences" where
  "mark_left rid ext s =
     (case get_room s rid of None \<Rightarrow> s
      | Some r \<Rightarrow>
          if \<not> m_has (ro_participants r) ext then s
          else (let r' = r\<lparr>ro_participants := m_del ext (ro_participants r)\<rparr>
                in if \<not> still_active r' then drop_room rid s else put_room rid r' s))"

definition close_room :: "string \<Rightarrow> conferences \<Rightarrow> conferences" where
  "close_room rid s = (if m_has (cs_rooms s) rid then drop_room rid s else s)"

definition set_muted :: "string \<Rightarrow> string \<Rightarrow> bool \<Rightarrow> conferences \<Rightarrow> conferences" where
  "set_muted rid ext muted s =
     (case get_room s rid of None \<Rightarrow> s
      | Some r \<Rightarrow>
          (case m_get (ro_participants r) ext of None \<Rightarrow> s
           | Some p \<Rightarrow> put_room rid (put_participant ext (p\<lparr>cp_muted := muted\<rparr>) r) s))"

record roster_entry =
  re_extension :: string
  re_name :: string
  re_state :: participant_state
  re_muted :: bool
  re_is_host :: bool

record conference_snapshot =
  cv_room_id :: string
  cv_name :: string
  cv_host :: string
  cv_participants :: "roster_entry list"

definition conference_snapshot :: "conferences \<Rightarrow> string \<Rightarrow> conference_snapshot option" where
  "conference_snapshot s rid =
     (case get_room s rid of None \<Rightarrow> None
      | Some r \<Rightarrow> Some \<lparr>cv_room_id = ro_id r, cv_name = ro_name r, cv_host = ro_host r,
          cv_participants = map (\<lambda>p. \<lparr>re_extension = cp_extension p, re_name = cp_name p, re_state = cp_state p,
            re_muted = cp_muted p, re_is_host = cp_is_host p\<rparr>) (m_vals (ro_participants r))\<rparr>)"

section \<open>The steps and their invariant\<close>

text \<open>Every call the SIP path and the signalling server make, in any order.\<close>

inductive conf_step :: "conferences \<Rightarrow> conferences \<Rightarrow> bool" where
  create: "create_room now draws host host_name name s = Some (r, s') \<Longrightarrow> conf_step s s'"
| ensure: "ensure_room now rid caller name s = (r, s') \<Longrightarrow> conf_step s s'"
| invite: "conf_step s (add_invite rid ext name s)"
| ringing: "conf_step s (mark_ringing rid ext s)"
| joined: "conf_step s (mark_joined now rid ext name s)"
| left: "conf_step s (mark_left rid ext s)"
| close: "conf_step s (close_room rid s)"
| mute: "conf_step s (set_muted rid ext b s)"

definition one_host :: "(string, participant) js_map \<Rightarrow> bool" where
  "one_host ps \<longleftrightarrow> (\<forall>e f p q. m_get ps e = Some p \<and> m_get ps f = Some q \<and> cp_is_host p \<and> cp_is_host q \<longrightarrow> e = f)"

definition room_ok :: "string \<Rightarrow> room \<Rightarrow> bool" where
  "room_ok rid r \<longleftrightarrow> ro_id r = rid \<and> m_ok (ro_participants r) \<and> one_host (ro_participants r) \<and>
     (\<forall>e p. m_get (ro_participants r) e = Some p \<longrightarrow> cp_extension p = e)"

definition rooms_ok :: "conferences \<Rightarrow> bool" where
  "rooms_ok s \<longleftrightarrow> m_ok (cs_rooms s) \<and> (\<forall>rid r. get_room s rid = Some r \<longrightarrow> room_ok rid r)"

lemma get_room_simps [simp]:
  "get_room (put_room rid r s) k = (if k = rid then Some r else get_room s k)"
  "get_room (drop_room rid s) k = (if k = rid then None else get_room s k)"
  by (simp_all add: get_room_def put_room_def drop_room_def js.get_put js.get_del)

lemma rooms_ok_put: "rooms_ok s \<Longrightarrow> room_ok rid r \<Longrightarrow> rooms_ok (put_room rid r s)"
  unfolding rooms_ok_def by (simp add: put_room_def [of rid r s] m_ok_set) (simp add: get_room_def js.get_put)

lemma rooms_ok_drop: "rooms_ok s \<Longrightarrow> rooms_ok (drop_room rid s)"
  unfolding rooms_ok_def by (simp add: drop_room_def [of rid s] m_ok_del) (simp add: get_room_def js.get_del)

lemma rooms_okD: "rooms_ok s \<Longrightarrow> get_room s rid = Some r \<Longrightarrow> room_ok rid r"
  by (simp add: rooms_ok_def)

text \<open>A participant may be stored when it is no new host among others.\<close>

lemma room_ok_put:
  assumes "room_ok rid r" "cp_extension p = ext"
    "cp_is_host p \<Longrightarrow> (\<exists>q. m_get (ro_participants r) ext = Some q \<and> cp_is_host q) \<or> ro_participants r = []"
  shows "room_ok rid (put_participant ext p r)"
  using assms unfolding room_ok_def one_host_def put_participant_def
  by (auto simp: js.get_put) metis+

lemma room_ok_remove: "room_ok rid r \<Longrightarrow> room_ok rid (r\<lparr>ro_participants := m_del ext (ro_participants r)\<rparr>)"
  by (simp add: room_ok_def one_host_def js.get_del)

lemma room_ok_ext: "room_ok rid r \<Longrightarrow> m_get (ro_participants r) e = Some p \<Longrightarrow> cp_extension p = e"
  by (simp add: room_ok_def)

lemma conf_step_ok:
  assumes "conf_step s t" "rooms_ok s"
  shows "rooms_ok t"
  using assms(1)
proof cases
  case (create now draws host host_name name r)
  then show ?thesis
    using assms(2)
    by (auto simp: create_room_def Let_def room_ok_def one_host_def split: option.splits if_splits
        intro!: rooms_ok_put)
next
  case (ensure now rid caller name r)
  then show ?thesis
    using assms(2)
    by (auto simp: ensure_room_def Let_def room_ok_def one_host_def split: option.splits intro!: rooms_ok_put)
next
  case (invite rid ext name)
  then show ?thesis
    using assms(2) rooms_okD [OF assms(2), of rid]
    by (cases "get_room s rid"; cases "m_get (ro_participants (the (get_room s rid))) ext")
      (auto simp: add_invite_def Let_def intro!: rooms_ok_put room_ok_put)
next
  case (ringing rid ext)
  then show ?thesis
    using assms(2) rooms_okD [OF assms(2), of rid]
    by (cases "get_room s rid"; cases "m_get (ro_participants (the (get_room s rid))) ext")
      (auto simp: mark_ringing_def Let_def room_ok_ext
        intro!: rooms_ok_put room_ok_put)
next
  case (joined now rid ext name)
  then show ?thesis
    using assms(2) rooms_okD [OF assms(2), of rid]
    by (cases "get_room s rid"; cases "m_get (ro_participants (the (get_room s rid))) ext")
      (auto simp: mark_joined_def Let_def intro!: rooms_ok_put room_ok_put)
next
  case (left rid ext)
  then show ?thesis
    using assms(2) rooms_okD [OF assms(2), of rid]
    by (auto simp: mark_left_def Let_def split: option.split intro!: rooms_ok_put rooms_ok_drop room_ok_remove)
next
  case (close rid)
  then show ?thesis using assms(2) by (simp add: close_room_def rooms_ok_drop)
next
  case (mute rid ext b)
  then show ?thesis
    using assms(2) rooms_okD [OF assms(2), of rid]
    by (cases "get_room s rid"; cases "m_get (ro_participants (the (get_room s rid))) ext")
      (auto simp: set_muted_def Let_def room_ok_ext
        intro!: rooms_ok_put room_ok_put)
qed

lemma no_rooms_ok: "rooms_ok no_rooms"
  by (simp add: rooms_ok_def no_rooms_def get_room_def)

section \<open>Rooms and events\<close>

definition event_room :: "room_event \<Rightarrow> string" where
  "event_room ev = (case ev of Updated rid \<Rightarrow> rid | Closed rid \<Rightarrow> rid)"

text \<open>What a listener knows: a room is open when the last event about it is an update.\<close>

definition heard_open :: "room_event list \<Rightarrow> string \<Rightarrow> bool" where
  "heard_open evs rid = (List.find (\<lambda>ev. event_room ev = rid) (rev evs) = Some (Updated rid))"

lemma heard_open_snoc [simp]:
  "heard_open (evs @ [Updated k]) rid = (k = rid \<or> heard_open evs rid)"
  "heard_open (evs @ [Closed k]) rid = (k \<noteq> rid \<and> heard_open evs rid)"
  by (auto simp: heard_open_def event_room_def)

definition in_step :: "conferences \<Rightarrow> bool" where
  "in_step s \<longleftrightarrow> (\<forall>rid. get_room s rid \<noteq> None \<longleftrightarrow> heard_open (cs_emitted s) rid)"

lemma in_step_put: "in_step s \<Longrightarrow> in_step (put_room rid r s)"
  unfolding in_step_def by (simp add: put_room_def [of rid r s]) (simp add: get_room_def js.get_put)

lemma in_step_drop: "in_step s \<Longrightarrow> in_step (drop_room rid s)"
  unfolding in_step_def by (simp add: drop_room_def [of rid s]) (auto simp: get_room_def js.get_del)

lemma conf_step_in_step: "conf_step s t \<Longrightarrow> in_step s \<Longrightarrow> in_step t"
  by (erule conf_step.cases)
    (auto simp: create_room_def ensure_room_def add_invite_def mark_ringing_def mark_joined_def mark_left_def
      close_room_def set_muted_def Let_def in_step_put in_step_drop split: option.splits if_splits)

lemma no_rooms_in_step: "in_step no_rooms"
  by (simp add: in_step_def no_rooms_def get_room_def heard_open_def)

lemma reach_in_step: "conf_step\<^sup>*\<^sup>* no_rooms s \<Longrightarrow> in_step s"
  by (induction rule: rtranclp_induct) (auto simp: no_rooms_in_step intro: conf_step_in_step)

lemma reach_rooms_ok: "conf_step\<^sup>*\<^sup>* no_rooms s \<Longrightarrow> rooms_ok s"
  by (induction rule: rtranclp_induct) (auto simp: no_rooms_ok intro: conf_step_ok)

lemma still_active_left:
  assumes "room_ok rid r"
  shows "still_active (r\<lparr>ro_participants := m_del ext (ro_participants r)\<rparr>) \<longleftrightarrow>
    (\<exists>e p. e \<noteq> ext \<and> m_get (ro_participants r) e = Some p \<and> (cp_state p = PJoined \<or> cp_state p = PRinging))"
proof -
  have "m_ok (m_del ext (ro_participants r))" using assms by (simp add: room_ok_def)
  from m_vals_ex [OF this] show ?thesis
    unfolding still_active_def by (simp add: js.get_del) metis
qed

section \<open>Properties\<close>

text \<open>Whatever calls reach the registry, a room is stored under its own id, its participants
  under their own extensions, and it has at most one host.\<close>

theorem conference_one_host:
  assumes "conf_step\<^sup>*\<^sup>* no_rooms s" "get_room s rid = Some r"
  shows "room_ok rid r"
  by (rule rooms_okD [OF reach_rooms_ok [OF assms(1)] assms(2)])

theorem conference_one_host_witness:
  "\<exists>r. get_room (mark_joined 3 ''r1'' ''102'' ''B'' (snd (ensure_room 1 ''r1'' ''101'' None no_rooms))) ''r1'' = Some r \<and>
     room_ok ''r1'' r"
proof -
  let ?s = "snd (ensure_room 1 ''r1'' ''101'' None no_rooms)"
  let ?t = "mark_joined 3 ''r1'' ''102'' ''B'' ?s"
  have "conf_step no_rooms ?s" by (rule conf_step.ensure [OF surjective_pairing])
  moreover have "conf_step ?s ?t" by (rule conf_step.joined)
  ultimately have reach: "conf_step\<^sup>*\<^sup>* no_rooms ?t"
    by (rule converse_rtranclp_into_rtranclp [OF _ r_into_rtranclp])
  obtain r where r: "get_room (mark_joined 3 ''r1'' ''102'' ''B'' ?s) ''r1'' = Some r"
    by (simp add: mark_joined_def ensure_room_def no_rooms_def get_room_def put_room_def Let_def)
  from conference_one_host [OF reach this] r show ?thesis by blast
qed

text \<open>A listener of the events knows the open rooms: in every reachable state a room is open
  exactly when the last event about it was an update and not a close; and the one operation of
  a member that closes a room, leaving, does so exactly when no joined or ringing member is
  left in it.\<close>

theorem conference_events_complete:
  assumes "conf_step\<^sup>*\<^sup>* no_rooms s"
  shows "(get_room s rid \<noteq> None \<longleftrightarrow> heard_open (cs_emitted s) rid) \<and>
    (\<forall>r ext. get_room s rid = Some r \<and> m_has (ro_participants r) ext \<longrightarrow>
      (get_room (mark_left rid ext s) rid = None \<longleftrightarrow>
        (\<forall>e p. e \<noteq> ext \<and> m_get (ro_participants r) e = Some p \<longrightarrow> cp_state p \<noteq> PJoined \<and> cp_state p \<noteq> PRinging)))"
proof (intro conjI allI impI)
  show "get_room s rid \<noteq> None \<longleftrightarrow> heard_open (cs_emitted s) rid"
    using reach_in_step [OF assms] by (simp only: in_step_def)
  fix r ext
  assume r: "get_room s rid = Some r \<and> m_has (ro_participants r) ext"
  then have "room_ok rid r" using rooms_okD [OF reach_rooms_ok [OF assms]] by blast
  note act = still_active_left [OF this, of ext]
  have "get_room (mark_left rid ext s) rid = None \<longleftrightarrow>
      \<not> still_active (r\<lparr>ro_participants := m_del ext (ro_participants r)\<rparr>)"
    using r by (simp add: mark_left_def Let_def)
  then show "get_room (mark_left rid ext s) rid = None \<longleftrightarrow>
      (\<forall>e p. e \<noteq> ext \<and> m_get (ro_participants r) e = Some p \<longrightarrow> cp_state p \<noteq> PJoined \<and> cp_state p \<noteq> PRinging)"
    unfolding act by blast
qed

theorem conference_events_complete_witness:
  "get_room no_rooms ''r1'' \<noteq> None \<longleftrightarrow> heard_open (cs_emitted no_rooms) ''r1''"
  using conference_events_complete [of no_rooms "''r1''"] by blast

text \<open>An ad-hoc room whose only caller never joins is never closed: after the dial-in that
  created it has failed and left, the room is still open, with nobody in it.\<close>

theorem conference_adhoc_leak:
  assumes "get_room s rid = None"
  shows "map_option ro_participants (get_room
    (mark_left rid caller (mark_ringing rid caller (snd (ensure_room now rid caller name s)))) rid) = Some []"
  using assms by (simp add: ensure_room_def mark_ringing_def mark_left_def Let_def m_has_def)

theorem conference_adhoc_leak_witness:
  "map_option ro_participants (get_room
    (mark_left ''r1'' ''101'' (mark_ringing ''r1'' ''101'' (snd (ensure_room 1 ''r1'' ''101'' None no_rooms)))) ''r1'') = Some []"
  by (rule conference_adhoc_leak) (simp add: no_rooms_def get_room_def)

end
