(* ===== verification/Rating.thy ===== *)
theory Rating
  imports Core_Types
begin

text \<open>
  Call rating, \<^verbatim>\<open>src/src/services/rating.service.ts\<close>: the rate book, longest-prefix
  matching, increment rounding, the price of a call, the cheapest possible charge, the
  unrated-destination test and the billing fields merged into the update of an ended call.
  Prices and durations are exact rationals where the source computes with doubles.
\<close>

record rate_row =
  rr_id :: int
  rr_plan :: int
  rr_prefix :: string
  rr_sell_per_min :: rat
  rr_buy_per_min :: rat
  rr_setup_fee :: rat
  rr_increment_secs :: rat
  rr_min_secs :: rat

record rate_plan =
  rp_id :: int
  rp_name :: string
  rp_currency :: string
  rp_default :: bool
  rp_rates :: "rate_row list"

record rate_book =
  rb_plans :: "(int, rate_plan) js_map"
  rb_default :: "int option"

record rating_result =
  rt_cost :: rat
  rt_currency :: string
  rt_prefix :: string
  rt_billed_secs :: rat

section \<open>Pure helpers\<close>

definition better_rate :: "string \<Rightarrow> rate_row option \<Rightarrow> rate_row \<Rightarrow> rate_row option" where
  "better_rate digits best rate =
     (if rr_prefix rate = [] then best
      else if prefix (rr_prefix rate) digits then
        (case best of
           None \<Rightarrow> Some rate
         | Some b \<Rightarrow> if length (rr_prefix rate) > length (rr_prefix b) then Some rate else best)
      else best)"

definition longest_prefix_match :: "rate_row list \<Rightarrow> string \<Rightarrow> rate_row option" where
  "longest_prefix_match rates digits = foldl (better_rate digits) None rates"

definition billable_seconds :: "rat \<Rightarrow> rat \<Rightarrow> rat \<Rightarrow> rat" where
  "billable_seconds duration increment minimum =
     (let inc = (if increment > 0 then increment else 60);
          rounded = of_int \<lceil>duration / inc\<rceil> * inc
      in max rounded (if minimum > 0 then minimum else 0))"

definition round5 :: "rat \<Rightarrow> rat" where
  "round5 v = of_int (js_round (v * 100000)) / 100000"

definition derived_duration :: "int \<Rightarrow> int option \<Rightarrow> rat" where
  "derived_duration start end_at =
     (case end_at of
        None \<Rightarrow> 0
      | Some e \<Rightarrow> of_int (max 0 (js_round (of_int (e - start) / 1000))))"

section \<open>The rate book\<close>

definition empty_book :: rate_book where
  "empty_book = \<lparr>rb_plans = [], rb_default = None\<rparr>"

definition has_rates :: "rate_book \<Rightarrow> bool" where
  "has_rates b \<longleftrightarrow> 0 < length (rb_plans b)"

text \<open>
  \<^verbatim>\<open>reload\<close>: the rows are what the repository returned, \<open>None\<close> where it threw. The
  plan flagged default wins, the first one where several are; with none flagged the first.
\<close>

definition reload :: "rate_plan list option \<Rightarrow> rate_book \<Rightarrow> rate_book \<times> nat" where
  "reload rows b =
     (case rows of
        None \<Rightarrow> (b, length (rb_plans b))
      | Some ps \<Rightarrow>
          (let next = foldl (\<lambda>m p. m_set (rp_id p) p m) [] ps;
               flagged = map_option rp_id (List.find rp_default ps);
               default_id = (case flagged of
                   Some i \<Rightarrow> Some i
                 | None \<Rightarrow> (case ps of [] \<Rightarrow> None | p # _ \<Rightarrow> Some (rp_id p)))
           in (\<lparr>rb_plans = next, rb_default = default_id\<rparr>, length next)))"

definition resolve_plan :: "rate_book \<Rightarrow> int option \<Rightarrow> rate_plan option" where
  "resolve_plan b plan_id =
     (case (case plan_id of None \<Rightarrow> None | Some i \<Rightarrow> m_get (rb_plans b) i) of
        Some p \<Rightarrow> Some p
      | None \<Rightarrow> (case rb_default b of None \<Rightarrow> None | Some d \<Rightarrow> m_get (rb_plans b) d))"

text \<open>The rate row that prices a destination, where one does.\<close>

definition charge_for :: "rate_row \<Rightarrow> rat \<Rightarrow> rat" where
  "charge_for r billed = round5 (rr_setup_fee r + rr_sell_per_min r * billed / 60)"

definition rate :: "rate_book \<Rightarrow> string \<Rightarrow> rat \<Rightarrow> int option \<Rightarrow> rating_result option" where
  "rate b dialed duration plan_id =
     (if duration \<le> 0 then None
      else case resolve_plan b plan_id of
        None \<Rightarrow> None
      | Some plan \<Rightarrow>
          (let digits = only_digits dialed
           in if digits = [] then None
              else case longest_prefix_match (rp_rates plan) digits of
                None \<Rightarrow> None
              | Some r \<Rightarrow>
                  (let billed = billable_seconds duration (rr_increment_secs r) (rr_min_secs r)
                   in Some \<lparr>rt_cost = charge_for r billed, rt_currency = rp_currency plan,
                            rt_prefix = rr_prefix r, rt_billed_secs = billed\<rparr>)))"

definition estimate_min_charge :: "rate_book \<Rightarrow> string \<Rightarrow> int option \<Rightarrow> (rat \<times> string) option" where
  "estimate_min_charge b dialed plan_id =
     (case resolve_plan b plan_id of
        None \<Rightarrow> None
      | Some plan \<Rightarrow>
          (let digits = only_digits dialed
           in if digits = [] then None
              else case longest_prefix_match (rp_rates plan) digits of
                None \<Rightarrow> None
              | Some r \<Rightarrow>
                  (let min_billed = billable_seconds 1 (rr_increment_secs r) (rr_min_secs r)
                   in Some (charge_for r min_billed, rp_currency plan))))"

definition is_unrated :: "rate_book \<Rightarrow> string \<Rightarrow> int option \<Rightarrow> bool" where
  "is_unrated b dialed plan_id =
     (if \<not> has_rates b then False
      else case resolve_plan b plan_id of
        None \<Rightarrow> False
      | Some plan \<Rightarrow>
          (let digits = only_digits dialed
           in if digits = [] then False else longest_prefix_match (rp_rates plan) digits = None))"

definition call_duration :: "call_log \<Rightarrow> call_update \<Rightarrow> rat" where
  "call_duration call u =
     (case up_duration u of
        Some d \<Rightarrow> d
      | None \<Rightarrow> derived_duration (cl_start call) (opt_over (up_end u) (cl_end call)))"

definition apply_to_ended_call :: "rate_book \<Rightarrow> call_log \<Rightarrow> call_update \<Rightarrow> int option \<Rightarrow> call_update" where
  "apply_to_ended_call b call u plan_id =
     (if truthy (cl_to_ext call) then u
      else case rate b (cl_to call) (call_duration call u) plan_id of
        None \<Rightarrow> u
      | Some r \<Rightarrow> u\<lparr>up_cost := Some (rt_cost r), up_currency := Some (rt_currency r),
                    up_rate_prefix := Some (rt_prefix r), up_billed_secs := Some (rt_billed_secs r)\<rparr>)"

section \<open>Longest-prefix matching\<close>

definition usable :: "string \<Rightarrow> rate_row \<Rightarrow> bool" where
  "usable digits r \<longleftrightarrow> rr_prefix r \<noteq> [] \<and> prefix (rr_prefix r) digits"

lemma better_rate_usable:
  "better_rate digits best r =
     (if usable digits r \<and> (\<forall>b. best = Some b \<longrightarrow> length (rr_prefix b) < length (rr_prefix r))
      then Some r else best)"
  by (auto simp: better_rate_def usable_def split: option.splits)

text \<open>The accumulator of the loop: its best so far against the rows read so far.\<close>

lemma match_fold:
  assumes "\<forall>b. best = Some b \<longrightarrow> usable digits b"
  shows "foldl (better_rate digits) best rates = None \<longleftrightarrow> best = None \<and> (\<forall>r\<in>set rates. \<not> usable digits r)"
    and "foldl (better_rate digits) best rates = Some m \<Longrightarrow>
      usable digits m \<and> (m \<in> set rates \<or> best = Some m) \<and>
      (\<forall>r\<in>set rates. usable digits r \<longrightarrow> length (rr_prefix r) \<le> length (rr_prefix m)) \<and>
      (\<forall>b. best = Some b \<longrightarrow> length (rr_prefix b) \<le> length (rr_prefix m))"
proof (atomize (full), use assms in \<open>induction rates arbitrary: best\<close>)
  case Nil
  then show ?case by auto
next
  case (Cons r rates)
  let ?best = "better_rate digits best r"
  have "\<forall>b. ?best = Some b \<longrightarrow> usable digits b"
    using Cons.prems by (simp add: better_rate_usable)
  from Cons.IH [OF this] show ?case
    by (auto simp: better_rate_usable split: if_splits)
qed

lemma match_None: "longest_prefix_match rates digits = None \<longleftrightarrow> (\<forall>r\<in>set rates. \<not> usable digits r)"
  by (simp add: longest_prefix_match_def match_fold)

lemma match_Some:
  assumes "longest_prefix_match rates digits = Some m"
  shows "m \<in> set rates" "usable digits m"
    "r \<in> set rates \<Longrightarrow> usable digits r \<Longrightarrow> length (rr_prefix r) \<le> length (rr_prefix m)"
  using match_fold(2) [of None digits rates m] assms by (auto simp: longest_prefix_match_def)

text \<open>Two usable prefixes of one length are the same string.\<close>

lemma usable_same_length:
  "usable digits r \<Longrightarrow> usable digits s \<Longrightarrow> length (rr_prefix r) = length (rr_prefix s) \<Longrightarrow>
     rr_prefix r = rr_prefix s"
  by (metis usable_def prefix_length_prefix prefix_order.antisym order_refl)

section \<open>Billing arithmetic\<close>

lemma billable_mono:
  assumes "d \<le> e"
  shows "billable_seconds d inc mn \<le> billable_seconds e inc mn"
proof -
  define i where "i = (if inc > 0 then inc else 60)"
  have "i > 0" by (simp add: i_def)
  then have "d / i \<le> e / i" using assms by (simp add: divide_right_mono)
  then have "\<lceil>d / i\<rceil> \<le> \<lceil>e / i\<rceil>" by (rule ceiling_mono)
  then have "(of_int \<lceil>d / i\<rceil> :: rat) * i \<le> of_int \<lceil>e / i\<rceil> * i"
    using \<open>i > 0\<close> by (intro mult_right_mono) simp_all
  then show ?thesis
    unfolding billable_seconds_def i_def [symmetric] Let_def by simp
qed

lemma billable_covers: "d \<le> billable_seconds d inc mn"
proof -
  define i where "i = (if inc > 0 then inc else 60)"
  have "i > 0" by (simp add: i_def)
  then have "d = d / i * i" by simp
  also have "\<dots> \<le> of_int \<lceil>d / i\<rceil> * i"
    using \<open>i > 0\<close> by (intro mult_right_mono) simp_all
  finally show ?thesis
    unfolding billable_seconds_def i_def [symmetric] Let_def by simp
qed

text \<open>Less than one increment is added, unless the minimum applies.\<close>

lemma billable_tight:
  "billable_seconds d inc mn < d + (if inc > 0 then inc else 60) \<or>
   billable_seconds d inc mn = (if mn > 0 then mn else 0)"
proof -
  define i where "i = (if inc > 0 then inc else 60)"
  have i: "i > 0" by (simp add: i_def)
  have "of_int \<lceil>d / i\<rceil> < d / i + 1" by linarith
  then have "of_int \<lceil>d / i\<rceil> * i < (d / i + 1) * i" using i by simp
  also have "\<dots> = d + i" using i by (simp add: field_simps)
  finally show ?thesis
    unfolding billable_seconds_def i_def [symmetric] Let_def by (auto simp: max_def)
qed

lemma billable_nonneg: "0 \<le> d \<Longrightarrow> 0 \<le> billable_seconds d inc mn"
  using billable_covers [of d inc mn] by linarith

text \<open>
  Every positive duration bills at least what one second bills, when the increment is a
  whole number of seconds.
\<close>

lemma one_second_least:
  assumes "0 < d" "inc \<in> \<int>"
  shows "billable_seconds 1 inc mn \<le> billable_seconds d inc mn"
proof -
  define i where "i = (if inc > 0 then inc else 60)"
  have "i \<in> \<int>" using assms(2) by (simp add: i_def)
  then obtain k where k: "i = of_int k" by (auto elim: Ints_cases)
  have "i > 0" by (simp add: i_def)
  then have "1 \<le> k" using k by simp
  then have "1 \<le> i" using k by simp
  then have "\<lceil>1 / i\<rceil> \<le> 1" by (simp add: ceiling_le_iff)
  moreover have "1 \<le> \<lceil>d / i\<rceil>"
    using assms(1) \<open>i > 0\<close> by (metis less_ceiling_iff of_int_0 add_0 divide_pos_pos zless_imp_add1_zle)
  ultimately have "\<lceil>1 / i\<rceil> \<le> \<lceil>d / i\<rceil>" by (rule order_trans)
  then have "(of_int \<lceil>1 / i\<rceil> :: rat) * i \<le> of_int \<lceil>d / i\<rceil> * i"
    using \<open>i > 0\<close> by (intro mult_right_mono) simp_all
  then show ?thesis
    unfolding billable_seconds_def i_def [symmetric] Let_def by simp
qed

lemma round5_mono: "u \<le> v \<Longrightarrow> round5 u \<le> round5 v"
  by (simp add: round5_def divide_right_mono js_round_mono)

lemma round5_error: "\<bar>round5 v - v\<bar> \<le> 1 / 200000"
proof -
  have "\<bar>of_int (js_round (v * 100000)) - v * 100000\<bar> \<le> 1 / 2" by (rule js_round_error)
  then show ?thesis unfolding round5_def by (simp add: abs_le_iff field_simps)
qed

lemma charge_for_mono:
  assumes "0 \<le> rr_sell_per_min r" "a \<le> c"
  shows "charge_for r a \<le> charge_for r c"
  unfolding charge_for_def
  using assms by (intro round5_mono add_left_mono divide_right_mono mult_left_mono) simp_all

lemma charge_for_nonneg:
  assumes "0 \<le> rr_setup_fee r" "0 \<le> rr_sell_per_min r" "0 \<le> a"
  shows "0 \<le> charge_for r a"
proof -
  have "round5 0 \<le> charge_for r a"
    unfolding charge_for_def using assms by (intro round5_mono) simp
  then show ?thesis by (simp add: round5_def)
qed

section \<open>Rating results\<close>

lemma rate_Some:
  assumes "rate b dialed d p = Some res"
  obtains plan r where "resolve_plan b p = Some plan"
    "longest_prefix_match (rp_rates plan) (only_digits dialed) = Some r"
    "0 < d" "only_digits dialed \<noteq> []"
    "rt_billed_secs res = billable_seconds d (rr_increment_secs r) (rr_min_secs r)"
    "rt_cost res = charge_for r (rt_billed_secs res)"
    "rt_prefix res = rr_prefix r" "rt_currency res = rp_currency plan"
  using assms by (auto simp: rate_def Let_def split: if_splits option.splits)

lemma rate_None_iff:
  "rate b dialed d p = None \<longleftrightarrow>
     d \<le> 0 \<or> only_digits dialed = [] \<or>
     (case resolve_plan b p of
        None \<Rightarrow> True
      | Some plan \<Rightarrow> \<forall>r\<in>set (rp_rates plan). \<not> usable (only_digits dialed) r)"
  by (auto simp: rate_def Let_def match_None split: option.splits)
     (auto dest: match_Some)

lemma resolve_plan_rates: "resolve_plan b p \<noteq> None \<Longrightarrow> has_rates b"
  by (auto simp: resolve_plan_def has_rates_def split: option.splits)

lemma apply_to_ended_frame:
  "up_status (apply_to_ended_call b c u p) = up_status u"
  "up_direction (apply_to_ended_call b c u p) = up_direction u"
  "up_to (apply_to_ended_call b c u p) = up_to u"
  "up_end (apply_to_ended_call b c u p) = up_end u"
  "up_duration (apply_to_ended_call b c u p) = up_duration u"
  by (simp_all add: apply_to_ended_call_def split: option.splits)

section \<open>Properties\<close>

text \<open>A call is priced by the most specific rate: the result names a non-empty prefix of the
  dialled digits from the resolved plan's table, no rate of the table with a longer
  matching prefix exists, and there is no result only where the duration is not positive,
  no plan resolves or no prefix of its table matches.\<close>

theorem rate_longest_prefix:
  "(case rate b dialed d p of
      Some res \<Rightarrow> (\<exists>plan r. resolve_plan b p = Some plan \<and> r \<in> set (rp_rates plan) \<and>
        rt_prefix res = rr_prefix r \<and> usable (only_digits dialed) r \<and>
        (\<forall>s\<in>set (rp_rates plan). usable (only_digits dialed) s \<longrightarrow>
           length (rr_prefix s) \<le> length (rt_prefix res) \<and>
           (length (rr_prefix s) = length (rt_prefix res) \<longrightarrow> rr_prefix s = rt_prefix res)))
    | None \<Rightarrow> d \<le> 0 \<or> only_digits dialed = [] \<or> resolve_plan b p = None \<or>
        (\<exists>plan. resolve_plan b p = Some plan \<and> (\<forall>r\<in>set (rp_rates plan). \<not> usable (only_digits dialed) r)))"
proof (cases "rate b dialed d p")
  case None
  have "d \<le> 0 \<or> only_digits dialed = [] \<or> resolve_plan b p = None \<or>
      (\<exists>plan. resolve_plan b p = Some plan \<and> (\<forall>r\<in>set (rp_rates plan). \<not> usable (only_digits dialed) r))"
    using None unfolding rate_None_iff by (cases "resolve_plan b p") auto
  with None show ?thesis by simp
next
  case (Some res)
  then obtain plan r where "resolve_plan b p = Some plan" "rt_prefix res = rr_prefix r"
    and m: "longest_prefix_match (rp_rates plan) (only_digits dialed) = Some r"
    by (rule rate_Some)
  with match_Some [OF m] Some show ?thesis
    by (auto intro: usable_same_length)
qed

definition usa :: "rate_row" where
  "usa = \<lparr>rr_id = 1, rr_plan = 1, rr_prefix = ''1'', rr_sell_per_min = 3 / 100, rr_buy_per_min = 1 / 100,
     rr_setup_fee = 0, rr_increment_secs = 6, rr_min_secs = 30\<rparr>"

definition jamaica :: "rate_row" where
  "jamaica = usa\<lparr>rr_id := 2, rr_prefix := ''1876'', rr_sell_per_min := 1 / 2\<rparr>"

definition sample_book :: "rate_book" where
  "sample_book =
     fst (reload (Some [\<lparr>rp_id = 1, rp_name = ''std'', rp_currency = ''USD'', rp_default = True,
                         rp_rates = [jamaica, usa]\<rparr>]) empty_book)"

theorem rate_longest_prefix_witness:
  "map_option rt_prefix (rate sample_book ''+1 (876) 555-0100'' 61 None) = Some ''1876'' \<and>
   usable (only_digits ''+1 (876) 555-0100'') jamaica"
proof -
  have s: "map_option rt_prefix (rate sample_book ''+1 (876) 555-0100'' 61 None) = Some ''1876''"
    by code_simp
  have "\<exists>r. usable (only_digits ''+1 (876) 555-0100'') r \<and> rr_prefix r = ''1876''"
    using rate_longest_prefix [where b = sample_book and dialed = "''+1 (876) 555-0100''" and d = 61 and p = None] s
    by (auto split: option.splits)
  then have "usable (only_digits ''+1 (876) 555-0100'') jamaica"
    by (auto simp: usable_def jamaica_def)
  with s show ?thesis ..
qed

text \<open>The admission gate never under-asks: with whole-second increments and fees that are not
  negative, an answered call to a number is charged at least the minimum the gate required
  before it, in the same currency.\<close>

theorem estimate_is_floor:
  assumes "rate b dialed d p = Some res" "estimate_min_charge b dialed p = Some (c, cur)"
    and "\<forall>plan. resolve_plan b p = Some plan \<longrightarrow>
      (\<forall>r\<in>set (rp_rates plan). 0 \<le> rr_sell_per_min r \<and> rr_increment_secs r \<in> \<int>)"
  shows "c \<le> rt_cost res \<and> rt_currency res = cur"
proof -
  obtain plan r where p: "resolve_plan b p = Some plan"
    and m: "longest_prefix_match (rp_rates plan) (only_digits dialed) = Some r"
    and res: "0 < d" "only_digits dialed \<noteq> []"
      "rt_billed_secs res = billable_seconds d (rr_increment_secs r) (rr_min_secs r)"
      "rt_cost res = charge_for r (rt_billed_secs res)" "rt_currency res = rp_currency plan"
    using assms(1) by (rule rate_Some)
  have "c = charge_for r (billable_seconds 1 (rr_increment_secs r) (rr_min_secs r))" "cur = rp_currency plan"
    using assms(2) p m res(2) by (auto simp: estimate_min_charge_def Let_def)
  moreover have "0 \<le> rr_sell_per_min r" "rr_increment_secs r \<in> \<int>"
    using assms(3) p match_Some(1) [OF m] by auto
  ultimately show ?thesis
    using res one_second_least [OF res(1)] by (simp add: charge_for_mono)
qed

theorem estimate_is_floor_witness:
  "rt_cost (the (rate sample_book ''+18765550100'' 61 None)) \<ge>
     fst (the (estimate_min_charge sample_book ''+18765550100'' None))"
proof -
  have r: "rate sample_book ''+18765550100'' 61 None =
      Some \<lparr>rt_cost = 11 / 20, rt_currency = ''USD'', rt_prefix = ''1876'', rt_billed_secs = 66\<rparr>"
    by code_simp
  have e: "estimate_min_charge sample_book ''+18765550100'' None = Some (1 / 4, ''USD'')" by code_simp
  have "resolve_plan sample_book None = Some \<lparr>rp_id = 1, rp_name = ''std'', rp_currency = ''USD'',
      rp_default = True, rp_rates = [jamaica, usa]\<rparr>"
    by code_simp
  then have h: "\<forall>plan. resolve_plan sample_book None = Some plan \<longrightarrow>
      (\<forall>r\<in>set (rp_rates plan). 0 \<le> rr_sell_per_min r \<and> rr_increment_secs r \<in> \<int>)"
    by (simp add: jamaica_def usa_def)
  show ?thesis using estimate_is_floor [OF r e h] by (simp add: r e)
qed

text \<open>What is billed: the billed seconds cover the call, exceed it by less than one increment
  unless the minimum applies, and never drop when the call is longer; the price is within
  half of a hundred-thousandth of fee and per-minute rate for the billed seconds.\<close>

theorem billing_bounds:
  assumes "rate b dialed d p = Some res"
  shows "d \<le> rt_billed_secs res \<and>
    (\<exists>plan r. resolve_plan b p = Some plan \<and> r \<in> set (rp_rates plan) \<and> rt_prefix res = rr_prefix r \<and>
      (rt_billed_secs res < d + (if rr_increment_secs r > 0 then rr_increment_secs r else 60) \<or>
       rt_billed_secs res = (if rr_min_secs r > 0 then rr_min_secs r else 0)) \<and>
      \<bar>rt_cost res - (rr_setup_fee r + rr_sell_per_min r * rt_billed_secs res / 60)\<bar> \<le> 1 / 200000 \<and>
      (\<forall>e\<ge>d. \<exists>res'. rate b dialed e p = Some res' \<and> rt_billed_secs res \<le> rt_billed_secs res'))"
proof -
  obtain plan r where p: "resolve_plan b p = Some plan"
    and m: "longest_prefix_match (rp_rates plan) (only_digits dialed) = Some r"
    and res: "0 < d" "only_digits dialed \<noteq> []"
      "rt_billed_secs res = billable_seconds d (rr_increment_secs r) (rr_min_secs r)"
      "rt_cost res = charge_for r (rt_billed_secs res)" "rt_prefix res = rr_prefix r"
    using assms by (rule rate_Some)
  have longer: "\<exists>res'. rate b dialed e p = Some res' \<and> rt_billed_secs res \<le> rt_billed_secs res'"
    if "e \<ge> d" for e
    using that p m res billable_mono [OF that] by (simp add: rate_def Let_def)
  have "\<bar>rt_cost res - (rr_setup_fee r + rr_sell_per_min r * rt_billed_secs res / 60)\<bar> \<le> 1 / 200000"
    using res(4) round5_error by (simp add: charge_for_def)
  with longer p res match_Some(1) [OF m] show ?thesis
    using billable_covers [of d "rr_increment_secs r" "rr_min_secs r"]
      billable_tight [of d "rr_increment_secs r" "rr_min_secs r"]
    by auto
qed

theorem billing_bounds_witness:
  "61 \<le> rt_billed_secs (the (rate sample_book ''+18765550100'' 61 None))"
proof -
  have r: "rate sample_book ''+18765550100'' 61 None =
      Some \<lparr>rt_cost = 11 / 20, rt_currency = ''USD'', rt_prefix = ''1876'', rt_billed_secs = 66\<rparr>"
    by code_simp
  show ?thesis using billing_bounds [OF r] by (simp add: r)
qed

end
