(* ===== verification/Postgres.thy ===== *)
theory Postgres
  imports Core_Types Js_Number "HOL-Library.Product_Lexorder"
begin

text \<open>
  The repositories over the shared database (\<^verbatim>\<open>src/src/services/postgres/*.repo.ts\<close>): row
  conversion, and the queries as functions on tables (a \<^verbatim>\<open>WHERE\<close> is a filter, an
  \<^verbatim>\<open>ORDER BY\<close> a stable sort, an \<^verbatim>\<open>ON CONFLICT\<close> upsert an update of the row with the
  key). The server itself is not modelled; a failing query is an argument where the code
  handles one.
\<close>

section \<open>Routing rules\<close>

datatype match_type = MatchAll | MatchNumber

record routing_rule =
  ru_id :: int
  ru_owner :: string
  ru_match :: match_type
  ru_match_number :: string
  ru_dest_type :: string
  ru_dest_value :: string
  ru_enabled :: bool

record routing_rule_row =
  rw_id :: int
  rw_owner :: string
  rw_match_type :: string
  rw_match_number :: "string option"
  rw_dest_type :: string
  rw_dest_value :: "string option"
  rw_enabled :: bool

definition row_to_rule :: "routing_rule_row \<Rightarrow> routing_rule" where
  "row_to_rule r = \<lparr>ru_id = rw_id r, ru_owner = rw_owner r,
     ru_match = (if rw_match_type r = ''number'' then MatchNumber else MatchAll),
     ru_match_number = or_else (rw_match_number r) [], ru_dest_type = rw_dest_type r,
     ru_dest_value = or_else (rw_dest_value r) [], ru_enabled = rw_enabled r\<rparr>"

definition rule_applies :: "string \<Rightarrow> routing_rule_row \<Rightarrow> bool" where
  "rule_applies number r \<longleftrightarrow> rw_enabled r \<and>
     ((rw_match_type r = ''number'' \<and> rw_match_number r = Some number) \<or>
      (rw_match_type r = ''all'' \<and> rw_owner r = number))"

definition rule_order :: "routing_rule_row \<Rightarrow> nat \<times> int" where
  "rule_order r = (if rw_match_type r = ''number'' then 0 else 1, rw_id r)"

definition load_routing_rule_by_number :: "routing_rule_row list \<Rightarrow> string \<Rightarrow> routing_rule option" where
  "load_routing_rule_by_number rows number =
     (case sort_key rule_order (filter (rule_applies number) rows) of
        [] \<Rightarrow> None | r # _ \<Rightarrow> Some (row_to_rule r))"

section \<open>Webhooks, agents, connectors\<close>

record webhook_record =
  wh_id :: int
  wh_owner :: string
  wh_name :: string
  wh_url :: string
  wh_secret :: string
  wh_events :: "string list"
  wh_enabled :: bool

record webhook_row =
  wr_id :: int
  wr_owner :: string
  wr_name :: string
  wr_url :: string
  wr_secret :: "string option"
  wr_events :: "string option"
  wr_enabled :: bool

definition comma_list :: "string \<Rightarrow> string list" where
  "comma_list s = filter (\<lambda>x. x \<noteq> []) (map trim (split_on CHR '','' s))"

definition row_to_webhook :: "webhook_row \<Rightarrow> webhook_record" where
  "row_to_webhook r = \<lparr>wh_id = wr_id r, wh_owner = wr_owner r, wh_name = wr_name r, wh_url = wr_url r,
     wh_secret = or_else (wr_secret r) [], wh_events = comma_list (or_else (wr_events r) []),
     wh_enabled = wr_enabled r\<rparr>"

text \<open>The outcome of a query: rows, a missing table (SQLSTATE 42P01), or another error.\<close>

datatype 'r query = Rows 'r | Undefined_Table | Query_Error

definition load_enabled_webhooks :: "webhook_row list query \<Rightarrow> webhook_record list option" where
  "load_enabled_webhooks q =
     (case q of Rows rs \<Rightarrow> Some (map row_to_webhook (filter wr_enabled rs))
      | Undefined_Table \<Rightarrow> Some [] | Query_Error \<Rightarrow> None)"

record ai_agent_record =
  ai_id :: int
  ai_owner :: string
  ai_name :: string
  ai_greeting :: string
  ai_language :: string
  ai_stt :: string
  ai_llm :: string
  ai_llm_model :: string
  ai_prompt :: string
  ai_temperature :: js_num
  ai_tts :: string
  ai_voice :: string
  ai_enabled :: bool

record ai_agent_row =
  aw_id :: int
  aw_owner :: string
  aw_name :: string
  aw_greeting :: "string option"
  aw_language :: "string option"
  aw_stt :: "string option"
  aw_llm :: "string option"
  aw_llm_model :: "string option"
  aw_prompt :: "string option"
  aw_temperature :: "string option"
  aw_tts :: "string option"
  aw_voice :: "string option"
  aw_enabled :: bool

definition row_to_agent :: "ai_agent_row \<Rightarrow> ai_agent_record" where
  "row_to_agent r = \<lparr>ai_id = aw_id r, ai_owner = aw_owner r, ai_name = aw_name r,
     ai_greeting = or_else (aw_greeting r) [], ai_language = or_else (aw_language r) ''en'',
     ai_stt = or_else (aw_stt r) ''speechmatics'', ai_llm = or_else (aw_llm r) ''openai'',
     ai_llm_model = or_else (aw_llm_model r) ''gpt-4o-mini'', ai_prompt = or_else (aw_prompt r) [],
     ai_temperature = (case aw_temperature r of None \<Rightarrow> Num (7 / 10) | Some t \<Rightarrow> js_number t),
     ai_tts = or_else (aw_tts r) ''deepgram'', ai_voice = or_else (aw_voice r) [],
     ai_enabled = aw_enabled r\<rparr>"

definition load_ai_agent_by_id :: "ai_agent_row list query \<Rightarrow> int \<Rightarrow> ai_agent_record option option" where
  "load_ai_agent_by_id q i =
     (case q of Rows rs \<Rightarrow> Some (map_option row_to_agent (List.find (\<lambda>r. aw_id r = i \<and> aw_enabled r) rs))
      | Undefined_Table \<Rightarrow> Some None | Query_Error \<Rightarrow> None)"

definition load_enabled_ai_agents :: "ai_agent_row list query \<Rightarrow> ai_agent_record list option" where
  "load_enabled_ai_agents q =
     (case q of Rows rs \<Rightarrow> Some (map row_to_agent (filter aw_enabled rs))
      | Undefined_Table \<Rightarrow> Some [] | Query_Error \<Rightarrow> None)"

section \<open>Call records\<close>

record call_row =
  cr_id :: nat
  cr_call_id :: "string option"
  cr_from :: string
  cr_to :: string
  cr_from_name :: "string option"
  cr_direction :: "call_direction option"
  cr_status :: "call_status option"
  cr_duration :: "rat option"
  cr_started_at :: int
  cr_ended_at :: "int option"
  cr_from_ext :: "string option"
  cr_to_ext :: "string option"
  cr_cost :: "rat option"
  cr_currency :: "string option"
  cr_rate_prefix :: "string option"
  cr_billed_secs :: "rat option"
  cr_rated_at :: "int option"

record call_table =
  ct_rows :: "call_row list"
  ct_next_id :: nat

definition duration_seconds :: "call_log \<Rightarrow> rat" where
  "duration_seconds c =
     (case cl_duration c of Some d \<Rightarrow> d
      | None \<Rightarrow> (case cl_end c of
            Some e \<Rightarrow> of_int (max 0 (js_round (of_int (e - cl_start c) / 1000)))
          | None \<Rightarrow> 0))"

definition inserted_row :: "int \<Rightarrow> nat \<Rightarrow> call_log \<Rightarrow> call_row" where
  "inserted_row now i c = \<lparr>cr_id = i, cr_call_id = Some (cl_id c), cr_from = cl_from c, cr_to = cl_to c,
     cr_from_name = Some (cl_from_name c), cr_direction = Some (cl_direction c),
     cr_status = Some (cl_status c), cr_duration = Some (duration_seconds c), cr_started_at = cl_start c,
     cr_ended_at = cl_end c, cr_from_ext = cl_from_ext c, cr_to_ext = cl_to_ext c,
     cr_cost = Some (or_else (cl_cost c) 0), cr_currency = cl_currency c, cr_rate_prefix = cl_rate_prefix c,
     cr_billed_secs = Some (or_else (cl_billed_secs c) 0),
     cr_rated_at = (if cl_cost c \<noteq> None then Some now else None)\<rparr>"

definition conflict_update :: "call_row \<Rightarrow> call_row \<Rightarrow> call_row" where
  "conflict_update excl r = r\<lparr>cr_status := cr_status excl, cr_duration := cr_duration excl,
     cr_ended_at := cr_ended_at excl, cr_cost := cr_cost excl, cr_currency := cr_currency excl,
     cr_rate_prefix := cr_rate_prefix excl, cr_billed_secs := cr_billed_secs excl,
     cr_rated_at := (case cr_rated_at r of Some t \<Rightarrow> Some t | None \<Rightarrow> cr_rated_at excl)\<rparr>"

definition upsert_call :: "int \<Rightarrow> call_log \<Rightarrow> call_table \<Rightarrow> call_table" where
  "upsert_call now c t =
     (let excl = inserted_row now (ct_next_id t) c
      in if list_ex (\<lambda>r. cr_call_id r = Some (cl_id c)) (ct_rows t)
         then t\<lparr>ct_rows := map (\<lambda>r. if cr_call_id r = Some (cl_id c) then conflict_update excl r else r) (ct_rows t),
                ct_next_id := ct_next_id t + 1\<rparr>
         else t\<lparr>ct_rows := ct_rows t @ [excl], ct_next_id := ct_next_id t + 1\<rparr>)"

definition row_to_call :: "call_row \<Rightarrow> call_log" where
  "row_to_call r = \<lparr>cl_id = (case cr_call_id r of Some i \<Rightarrow> i | None \<Rightarrow> show_nat (cr_id r)),
     cl_from = cr_from r, cl_to = cr_to r, cl_from_name = or_else (cr_from_name r) [],
     cl_status = or_else (cr_status r) Ended, cl_direction = or_else (cr_direction r) Inbound,
     cl_start = cr_started_at r, cl_end = cr_ended_at r, cl_duration = cr_duration r,
     cl_from_ext = cr_from_ext r, cl_to_ext = cr_to_ext r, cl_cost = cr_cost r,
     cl_currency = cr_currency r, cl_rate_prefix = cr_rate_prefix r, cl_billed_secs = cr_billed_secs r\<rparr>"

definition load_recent_calls :: "nat \<Rightarrow> call_table \<Rightarrow> call_log list" where
  "load_recent_calls limit t =
     map row_to_call (take limit (sort_key (\<lambda>r. (- cr_started_at r, - int (cr_id r))) (ct_rows t)))"

section \<open>Prepaid wallets\<close>

record balance_debit_job =
  bj_extension :: string
  bj_call_id :: string
  bj_amount :: rat
  bj_currency :: string

record balance_txn =
  bt_extension :: string
  bt_amount :: rat
  bt_currency :: string
  bt_reason :: string
  bt_call_id :: string

record wallets =
  wl_txns :: "balance_txn list"
  wl_balances :: "(string, string \<times> rat) js_map"

definition round4 :: "rat \<Rightarrow> rat" where
  "round4 v = of_int (js_round (v * 10000)) / 10000"

definition upsert_balance :: "string \<Rightarrow> string \<Rightarrow> rat \<Rightarrow> (string, string \<times> rat) js_map \<Rightarrow> (string, string \<times> rat) js_map" where
  "upsert_balance ext currency amount m =
     (case m_get m ext of None \<Rightarrow> m_set ext (currency, - amount) m
      | Some (cur, bal) \<Rightarrow> m_set ext (if cur = [] then currency else cur, bal - amount) m)"

text \<open>
  The transaction. \<open>broken\<close> tells that one of its queries fails: everything is rolled back
  and the error goes to the write queue, which retries. The result says whether it threw.
\<close>

definition debit_for_call :: "bool \<Rightarrow> balance_debit_job \<Rightarrow> wallets \<Rightarrow> bool \<times> wallets" where
  "debit_for_call broken job w =
     (let amount = round4 (bj_amount job)
      in if bj_extension job = [] \<or> bj_call_id job = [] \<or> \<not> amount > 0 then (False, w)
         else if broken then (True, w)
         else if list_ex (\<lambda>t. bt_call_id t = bj_call_id job \<and> bt_reason t = ''call'') (wl_txns w) then (False, w)
         else (False, w\<lparr>wl_txns := wl_txns w @ [\<lparr>bt_extension = bj_extension job, bt_amount = - amount,
                           bt_currency = bj_currency job, bt_reason = ''call'', bt_call_id = bj_call_id job\<rparr>],
                        wl_balances := upsert_balance (bj_extension job) (bj_currency job) amount (wl_balances w)\<rparr>))"

section \<open>User detail\<close>

record db_user =
  du_extension :: string
  du_username :: string
  du_name :: string
  du_mobile :: string

record blocked_row =
  bk_extension :: string
  bk_number :: string

record forwarding_row =
  fw_extension :: string
  fw_type :: string
  fw_target :: "string option"

record pstn_row =
  ps_extension :: string
  ps_enabled :: bool
  ps_mobile :: "string option"
  ps_dnd :: bool
  ps_rate_plan :: "int option"
  ps_outbound_caller_id :: "string option"

record balance_row =
  br_extension :: string
  br_balance :: rat
  br_currency :: string

record user_settings_row =
  us_extension :: string
  us_pstn_enabled :: bool
  us_pstn_mobile :: "string option"
  us_dnd :: "bool option"
  us_rate_plan :: "int option"
  us_caller_id :: "string option"
  us_caller_id_verified :: "bool option"
  us_verified_at :: "int option"

text \<open>The freshness clause: \<open>days\<close> is the configured lifetime, not positive for none.\<close>

definition caller_id_fresh :: "int \<Rightarrow> int \<Rightarrow> user_settings_row \<Rightarrow> bool" where
  "caller_id_fresh days now r =
     (if days \<le> 0 then True
      else case us_verified_at r of None \<Rightarrow> False | Some t \<Rightarrow> t > now - days * 86400000)"

definition settings_to_pstn :: "int \<Rightarrow> int \<Rightarrow> user_settings_row \<Rightarrow> pstn_row" where
  "settings_to_pstn days now r = \<lparr>ps_extension = us_extension r, ps_enabled = us_pstn_enabled r,
     ps_mobile = us_pstn_mobile r, ps_dnd = or_else (us_dnd r) False, ps_rate_plan = us_rate_plan r,
     ps_outbound_caller_id =
       (if or_else (us_caller_id_verified r) False \<and> caller_id_fresh days now r then us_caller_id r else None)\<rparr>"

definition load_all_pstn :: "int \<Rightarrow> int \<Rightarrow> user_settings_row list \<Rightarrow> pstn_row list" where
  "load_all_pstn days now rows = map (settings_to_pstn days now) rows"

definition load_pstn_by_extension :: "int \<Rightarrow> int \<Rightarrow> user_settings_row list \<Rightarrow> string \<Rightarrow> pstn_row option" where
  "load_pstn_by_extension days now rows ext =
     map_option (settings_to_pstn days now) (List.find (\<lambda>r. us_extension r = ext) rows)"

definition load_blocked_by_extension :: "blocked_row list \<Rightarrow> string \<Rightarrow> blocked_row list" where
  "load_blocked_by_extension rows ext = filter (\<lambda>r. bk_extension r = ext) rows"

definition load_forwarding_by_extension :: "forwarding_row list \<Rightarrow> string \<Rightarrow> forwarding_row list" where
  "load_forwarding_by_extension rows ext = filter (\<lambda>r. fw_extension r = ext) rows"

definition load_balance_by_extension :: "balance_row list \<Rightarrow> string \<Rightarrow> balance_row option" where
  "load_balance_by_extension rows ext = List.find (\<lambda>r. br_extension r = ext) rows"

definition load_user_by_extension :: "db_user list \<Rightarrow> string \<Rightarrow> db_user option" where
  "load_user_by_extension rows ext = List.find (\<lambda>r. du_extension r = ext) rows"

section \<open>Lemmas: one row per call\<close>

definition row_of :: "call_table \<Rightarrow> string \<Rightarrow> call_row option" where
  "row_of t i = List.find (\<lambda>r. cr_call_id r = Some i) (ct_rows t)"

lemma conflict_call_id [simp]: "cr_call_id (conflict_update e r) = cr_call_id r"
  by (simp add: conflict_update_def)

lemma find_map_same:
  assumes "\<And>r. P (f r) = P r"
  shows "List.find P (map f xs) = map_option f (List.find P xs)"
  using assms by (induction xs) auto

lemma row_of_upsert:
  "row_of (upsert_call now c t) i =
    (if i = cl_id c then Some (case row_of t i of None \<Rightarrow> inserted_row now (ct_next_id t) c
       | Some r \<Rightarrow> conflict_update (inserted_row now (ct_next_id t) c) r)
     else row_of t i)"
proof (cases "list_ex (\<lambda>r. cr_call_id r = Some (cl_id c)) (ct_rows t)")
  case True
  let ?f = "\<lambda>r. if cr_call_id r = Some (cl_id c) then conflict_update (inserted_row now (ct_next_id t) c) r else r"
  have "row_of (upsert_call now c t) i = map_option ?f (row_of t i)"
    using True by (simp add: upsert_call_def row_of_def Let_def find_map_same)
  moreover obtain r where "row_of t (cl_id c) = Some r"
    using True find_exists by (fastforce simp: row_of_def list_ex_iff)
  moreover have "cr_call_id r = Some i" if "row_of t i = Some r" for r
    using that find_SomeD by (fastforce simp: row_of_def)
  ultimately show ?thesis by (cases "row_of t i") fastforce+
next
  case False
  then have none: "row_of t (cl_id c) = None" by (auto simp: row_of_def find_None_iff list_ex_iff)
  have "cr_call_id (inserted_row now n c) = Some (cl_id c)" for n by (simp add: inserted_row_def)
  then show ?thesis
    using False none by (auto simp: upsert_call_def row_of_def Let_def find_append split: option.split)
qed

text \<open>The versions of a call, written in order, with the time of each write.\<close>

definition write_calls :: "(int \<times> call_log) list \<Rightarrow> call_table \<Rightarrow> call_table" where
  "write_calls vs t = fold (\<lambda>(now, c). upsert_call now c) vs t"

definition no_calls :: call_table where
  "no_calls = \<lparr>ct_rows = [], ct_next_id = 1\<rparr>"

definition versions :: "string \<Rightarrow> (int \<times> call_log) list \<Rightarrow> (int \<times> call_log) list" where
  "versions i vs = filter (\<lambda>v. cl_id (snd v) = i) vs"

lemma write_calls_snoc: "write_calls (vs @ [(now, c)]) t = upsert_call now c (write_calls vs t)"
  by (simp add: write_calls_def)

lemma versions_snoc: "versions i (vs @ [(now, c)]) = versions i vs @ (if cl_id c = i then [(now, c)] else [])"
  by (simp add: versions_def)

definition describes :: "call_log \<Rightarrow> call_log \<Rightarrow> call_row \<Rightarrow> bool" where
  "describes c0 c r \<longleftrightarrow> cr_from r = cl_from c0 \<and> cr_to r = cl_to c0 \<and>
     cr_direction r = Some (cl_direction c0) \<and> cr_started_at r = cl_start c0 \<and>
     cr_status r = Some (cl_status c) \<and> cr_ended_at r = cl_end c \<and>
     cr_duration r = Some (duration_seconds c) \<and> cr_cost r = Some (or_else (cl_cost c) 0) \<and>
     cr_currency r = cl_currency c \<and> cr_billed_secs r = Some (or_else (cl_billed_secs c) 0)"

lemma describes_insert: "describes c c (inserted_row now n c)"
  by (simp add: describes_def inserted_row_def)

lemma describes_update: "describes c0 c r \<Longrightarrow> describes c0 c' (conflict_update (inserted_row now n c') r)"
  by (simp add: describes_def inserted_row_def conflict_update_def)

lemma row_of_write:
  "case row_of (write_calls vs no_calls) i of
     None \<Rightarrow> versions i vs = []
   | Some r \<Rightarrow> versions i vs \<noteq> [] \<and> describes (snd (hd (versions i vs))) (snd (last (versions i vs))) r"
proof (induction vs rule: rev_induct)
  case Nil
  show ?case by (simp add: versions_def write_calls_def no_calls_def row_of_def)
next
  case (snoc v vs)
  obtain now c where v: "v = (now, c)" by force
  show ?case
  proof (cases "cl_id c = i")
    case False
    then show ?thesis using snoc
      by (simp add: v write_calls_snoc versions_snoc row_of_upsert split: option.splits)
  next
    case True
    show ?thesis
    proof (cases "row_of (write_calls vs no_calls) i")
      case None
      then show ?thesis using snoc True
        by (simp add: v write_calls_snoc versions_snoc row_of_upsert describes_insert)
    next
      case (Some r)
      then show ?thesis using snoc True
        by (auto simp: v write_calls_snoc versions_snoc row_of_upsert intro: describes_update)
    qed
  qed
qed

section \<open>Lemmas: the ledger\<close>

definition debits :: "(bool \<times> balance_debit_job) list \<Rightarrow> wallets \<Rightarrow> wallets" where
  "debits js w = fold (\<lambda>(broken, j) w. snd (debit_for_call broken j w)) js w"

text \<open>What the ledger says an extension has, on top of a starting balance.\<close>

definition ledger_sum :: "string \<Rightarrow> balance_txn list \<Rightarrow> rat" where
  "ledger_sum ext ts = sum_list (map bt_amount (filter (\<lambda>t. bt_extension t = ext) ts))"

definition balance_of :: "wallets \<Rightarrow> string \<Rightarrow> rat" where
  "balance_of w ext = (case m_get (wl_balances w) ext of None \<Rightarrow> 0 | Some (cur, b) \<Rightarrow> b)"

definition call_debits :: "string \<Rightarrow> wallets \<Rightarrow> nat" where
  "call_debits cid w = length (filter (\<lambda>t. bt_call_id t = cid \<and> bt_reason t = ''call'') (wl_txns w))"

lemma ledger_sum_snoc [simp]:
  "ledger_sum ext (ts @ [t]) = ledger_sum ext ts + (if bt_extension t = ext then bt_amount t else 0)"
  by (simp add: ledger_sum_def)

lemma balance_upsert:
  "balance_of (w\<lparr>wl_txns := ts, wl_balances := upsert_balance e cur a (wl_balances w)\<rparr>) ext =
    balance_of w ext - (if ext = e then a else 0)"
  by (auto simp: balance_of_def upsert_balance_def js.get_put split: option.splits)

lemma debit_effect:
  "balance_of (snd (debit_for_call broken j w)) ext - ledger_sum ext (wl_txns (snd (debit_for_call broken j w))) =
    balance_of w ext - ledger_sum ext (wl_txns w)"
  by (simp add: debit_for_call_def Let_def balance_upsert)

lemma debit_count:
  "call_debits cid (snd (debit_for_call broken j w)) \<le> max 1 (call_debits cid w) \<and>
   call_debits cid w \<le> call_debits cid (snd (debit_for_call broken j w))"
proof -
  have "filter (\<lambda>t. bt_call_id t = bj_call_id j \<and> bt_reason t = ''call'') (wl_txns w) = []"
    if "\<not> list_ex (\<lambda>t. bt_call_id t = bj_call_id j \<and> bt_reason t = ''call'') (wl_txns w)"
    using that by (auto simp: list_ex_iff filter_empty_conv)
  then show ?thesis by (auto simp: debit_for_call_def Let_def call_debits_def)
qed

lemma debits_mono: "call_debits cid w \<le> call_debits cid (debits js w)"
proof (induction js arbitrary: w)
  case (Cons a js)
  obtain b j where "a = (b, j)" by force
  then show ?case using Cons.IH [of "snd (debit_for_call b j w)"] debit_count [of cid b j w]
    by (simp add: debits_def)
qed (simp add: debits_def)

section \<open>Properties\<close>

text \<open>C35: Prepaid charges apply once. Whatever the write queue retries, in whatever order and
  with whatever failures, a call is debited at most once, exactly once as soon as one attempt
  of a valid job reaches the database, and the balances move by the ledger's sum.\<close>

theorem debit_exactly_once:
  assumes "call_debits cid w \<le> 1"
  shows "call_debits cid (debits js w) \<le> 1 \<and>
    (\<forall>j. (False, j) \<in> set js \<and> bj_call_id j = cid \<and> cid \<noteq> [] \<and> bj_extension j \<noteq> [] \<and> 0 < round4 (bj_amount j) \<longrightarrow>
       call_debits cid (debits js w) = 1) \<and>
    balance_of (debits js w) ext - balance_of w ext = ledger_sum ext (wl_txns (debits js w)) - ledger_sum ext (wl_txns w)"
  using assms
proof (induction js arbitrary: w)
  case Nil
  then show ?case by (simp add: debits_def)
next
  case (Cons a js)
  obtain b j where a: "a = (b, j)" by force
  let ?w = "snd (debit_for_call b j w)"
  have step: "debits (a # js) w = debits js ?w" by (simp add: debits_def a)
  have le: "call_debits cid ?w \<le> 1" using debit_count [of cid b j w] Cons.prems by simp
  note IH = Cons.IH [OF le]
  have own: "call_debits cid (debits js ?w) = 1"
    if "\<not> b" "bj_call_id j = cid" "cid \<noteq> []" "bj_extension j \<noteq> []" "0 < round4 (bj_amount j)"
  proof -
    have "0 < call_debits cid ?w"
      using that by (auto simp: debit_for_call_def Let_def call_debits_def list_ex_iff filter_empty_conv)
    then show ?thesis using debits_mono [of cid ?w js] IH by linarith
  qed
  have "balance_of (debits js ?w) ext - balance_of w ext = ledger_sum ext (wl_txns (debits js ?w)) - ledger_sum ext (wl_txns w)"
    using IH debit_effect [of b j w ext] by linarith
  then show ?case using IH own unfolding step by (auto simp: a)
qed

theorem debit_exactly_once_witness:
  "call_debits ''c1'' (debits [(True, \<lparr>bj_extension = ''101'', bj_call_id = ''c1'', bj_amount = 3, bj_currency = ''USD''\<rparr>),
      (False, \<lparr>bj_extension = ''101'', bj_call_id = ''c1'', bj_amount = 3, bj_currency = ''USD''\<rparr>),
      (False, \<lparr>bj_extension = ''101'', bj_call_id = ''c1'', bj_amount = 3, bj_currency = ''USD''\<rparr>)]
    \<lparr>wl_txns = [], wl_balances = []\<rparr>) = 1"
proof -
  have "round4 3 = 3" by (simp add: round4_def js_round_def floor_eq_iff)
  then show ?thesis
    using debit_exactly_once [of "''c1''" "\<lparr>wl_txns = [], wl_balances = []\<rparr>"
      "[(True, \<lparr>bj_extension = ''101'', bj_call_id = ''c1'', bj_amount = 3, bj_currency = ''USD''\<rparr>),
        (False, \<lparr>bj_extension = ''101'', bj_call_id = ''c1'', bj_amount = 3, bj_currency = ''USD''\<rparr>),
        (False, \<lparr>bj_extension = ''101'', bj_call_id = ''c1'', bj_amount = 3, bj_currency = ''USD''\<rparr>)]"]
    by (simp add: call_debits_def)
qed

text \<open>The stored record of a call has the status, end, duration and price of its last version
  and the parties, direction and start of its first: a later change of the destination or the
  direction, as a queue or conference dial makes, is not written.\<close>

theorem stored_call_versions:
  assumes "versions i vs \<noteq> []"
  shows "\<exists>r. row_of (write_calls vs no_calls) i = Some r \<and>
    (let c0 = snd (hd (versions i vs)) in
      cl_from (row_to_call r) = cl_from c0 \<and> cl_to (row_to_call r) = cl_to c0 \<and>
      cl_direction (row_to_call r) = cl_direction c0 \<and> cl_start (row_to_call r) = cl_start c0) \<and>
    (let c = snd (last (versions i vs)) in
      cl_status (row_to_call r) = cl_status c \<and> cl_end (row_to_call r) = cl_end c \<and>
      cl_duration (row_to_call r) = Some (duration_seconds c) \<and>
      cl_cost (row_to_call r) = Some (or_else (cl_cost c) 0) \<and>
      cl_billed_secs (row_to_call r) = Some (or_else (cl_billed_secs c) 0))"
  using row_of_write [of i vs] assms
  by (cases "row_of (write_calls vs no_calls) i") (simp_all add: describes_def Let_def row_to_call_def)

theorem stored_call_versions_witness:
  "let c = \<lparr>cl_id = ''c1'', cl_from = ''101'', cl_to = ''700'', cl_from_name = [], cl_status = Ringing,
        cl_direction = Inbound, cl_start = 0, cl_end = None, cl_duration = None, cl_from_ext = None,
        cl_to_ext = None, cl_cost = None, cl_currency = None, cl_rate_prefix = None, cl_billed_secs = None\<rparr>;
       c' = c\<lparr>cl_status := Answered, cl_to := ''queue:sales'', cl_direction := Outbound\<rparr>
   in \<exists>r. row_of (write_calls [(1, c), (2, c')] no_calls) ''c1'' = Some r \<and> cl_to (row_to_call r) = ''700'' \<and>
        cl_status (row_to_call r) = Answered"
  unfolding Let_def
  by (rule exE [OF stored_call_versions [where i = "''c1''" and vs =
      "[(1, \<lparr>cl_id = ''c1'', cl_from = ''101'', cl_to = ''700'', cl_from_name = [], cl_status = Ringing,
        cl_direction = Inbound, cl_start = 0, cl_end = None, cl_duration = None, cl_from_ext = None,
        cl_to_ext = None, cl_cost = None, cl_currency = None, cl_rate_prefix = None, cl_billed_secs = None\<rparr>),
        (2, \<lparr>cl_id = ''c1'', cl_from = ''101'', cl_to = ''queue:sales'', cl_from_name = [], cl_status = Answered,
        cl_direction = Outbound, cl_start = 0, cl_end = None, cl_duration = None, cl_from_ext = None,
        cl_to_ext = None, cl_cost = None, cl_currency = None, cl_rate_prefix = None, cl_billed_secs = None\<rparr>)]"]])
    (auto simp: versions_def)

text \<open>A rule for the dialled number itself beats a catch-all rule of the owner, the oldest
  rule wins among equals, and a disabled or foreign rule is never returned.\<close>

theorem number_rule_first:
  assumes "load_routing_rule_by_number rows number = Some ru"
  shows "\<exists>r\<in>set rows. ru = row_to_rule r \<and> rule_applies number r \<and>
    (\<forall>q\<in>set rows. rule_applies number q \<longrightarrow> rule_order r \<le> rule_order q)"
proof -
  let ?s = "sort_key rule_order (filter (rule_applies number) rows)"
  obtain r rs where s: "?s = r # rs" "ru = row_to_rule r"
    using assms by (auto simp: load_routing_rule_by_number_def split: list.splits)
  have set_s: "set (r # rs) = {q \<in> set rows. rule_applies number q}" using s(1) by (metis set_filter set_sort)
  have "sorted (map rule_order (r # rs))" using s(1) sorted_sort_key by metis
  then have "\<forall>q\<in>set (r # rs). rule_order r \<le> rule_order q" by auto
  then show ?thesis using set_s s(2) by (intro bexI [of _ r]) auto
qed

theorem number_rule_first_witness:
  "\<exists>r\<in>set [\<lparr>rw_id = 1, rw_owner = ''101'', rw_match_type = ''all'', rw_match_number = None,
        rw_dest_type = ''voicemail'', rw_dest_value = None, rw_enabled = True\<rparr>,
      \<lparr>rw_id = 2, rw_owner = ''102'', rw_match_type = ''number'', rw_match_number = Some ''101'',
        rw_dest_type = ''ivr'', rw_dest_value = Some ''6000'', rw_enabled = True\<rparr>].
    rule_applies ''101'' r \<and> rw_id r = 2"
proof -
  let ?rows = "[\<lparr>rw_id = 1, rw_owner = ''101'', rw_match_type = ''all'', rw_match_number = None,
        rw_dest_type = ''voicemail'', rw_dest_value = None, rw_enabled = True\<rparr>,
      \<lparr>rw_id = 2, rw_owner = ''102'', rw_match_type = ''number'', rw_match_number = Some ''101'',
        rw_dest_type = ''ivr'', rw_dest_value = Some ''6000'', rw_enabled = True\<rparr>]"
  obtain ru where "load_routing_rule_by_number ?rows ''101'' = Some ru" "ru_id ru = 2"
    by (simp add: load_routing_rule_by_number_def rule_applies_def rule_order_def row_to_rule_def)
  from number_rule_first [OF this(1)] this(2) show ?thesis by (auto simp: row_to_rule_def)
qed

end
