(* ===== verification/Database.thy ===== *)
theory Database
  imports Rating Postgres
begin

text \<open>
  The in-memory store of the engine, \<^verbatim>\<open>src/src/services/database.service.ts\<close>. The user
  map holds one object under two keys (extension and username), so users live in a heap of
  objects and the map gives addresses. Emitted events are the list \<open>db_events\<close>. What the
  repositories answer is an argument (\<open>None\<close> where a query threw and the code catches it).
  The rating engine is behind the interface \<^verbatim>\<open>CallRater\<close>, a locale interpreted on
  \<^verbatim>\<open>Rating\<close>.
\<close>

section \<open>State\<close>

datatype db_event = CallUpserted call_log | BalanceDebit balance_debit_job

record call_rater =
  ra_apply :: "call_log \<Rightarrow> call_update \<Rightarrow> int option \<Rightarrow> call_update"
  ra_estimate :: "string \<Rightarrow> int option \<Rightarrow> (rat \<times> string) option"
  ra_unrated :: "string \<Rightarrow> int option \<Rightarrow> bool"

record database =
  db_heap :: "sip_user list"
  db_users :: "(string, nat) js_map"
  db_calls :: "call_log list"
  db_registrations :: "(string, sip_registration) js_map"
  db_phones :: "(string, string) js_map"
  db_ivr_flows :: "string list"
  db_rules :: "(string, routing_rule option) js_map"
  db_webhooks :: "(string, webhook_record list) js_map option"
  db_agents :: "(int, ai_agent_record option) js_map"
  db_agents_by_owner :: "(string, ai_agent_record list) js_map option"
  db_rater :: "call_rater option"
  db_prepaid :: bool
  db_currency :: string
  db_events :: "db_event list"

definition empty_db :: "bool \<Rightarrow> string \<Rightarrow> database" where
  "empty_db prepaid currency = \<lparr>db_heap = [], db_users = [], db_calls = [], db_registrations = [],
     db_phones = [], db_ivr_flows = [], db_rules = [], db_webhooks = None, db_agents = [],
     db_agents_by_owner = None, db_rater = None, db_prepaid = prepaid, db_currency = currency,
     db_events = []\<rparr>"

definition set_rater :: "call_rater \<Rightarrow> database \<Rightarrow> database" where
  "set_rater r s = s\<lparr>db_rater := Some r\<rparr>"

definition emit :: "db_event \<Rightarrow> database \<Rightarrow> database" where
  "emit e s = s\<lparr>db_events := db_events s @ [e]\<rparr>"

section \<open>Users\<close>

definition get_user :: "database \<Rightarrow> string \<Rightarrow> sip_user option" where
  "get_user s key = map_option (\<lambda>a. db_heap s ! a) (m_get (db_users s) key)"

text \<open>Assignments to the fields of the object a key refers to.\<close>

definition modify_user :: "string \<Rightarrow> (sip_user \<Rightarrow> sip_user) \<Rightarrow> database \<Rightarrow> database" where
  "modify_user key f s =
     (case m_get (db_users s) key of None \<Rightarrow> s
      | Some a \<Rightarrow> s\<lparr>db_heap := (db_heap s)[a := f (db_heap s ! a)]\<rparr>)"

text \<open>A new object, stored under its extension and its username.\<close>

definition store_user :: "sip_user \<Rightarrow> database \<Rightarrow> database" where
  "store_user u s = s\<lparr>db_heap := db_heap s @ [u],
     db_users := m_set (su_username u) (length (db_heap s)) (m_set (su_extension u) (length (db_heap s)) (db_users s))\<rparr>"

definition add_user :: "sip_user \<Rightarrow> database \<Rightarrow> database" where
  "add_user u s = store_user u s"

definition fresh_user :: "db_user \<Rightarrow> sip_user" where
  "fresh_user i = \<lparr>su_extension = du_extension i, su_username = du_username i, su_name = du_name i,
     su_mobile = Some (du_mobile i), su_registered = False, su_contact = None, su_user_agent = None,
     su_blocked = None, su_fwd_busy = None, su_fwd_no_answer = None, su_fwd_unavailable = None,
     su_pstn_forward = False, su_pstn_target = None, su_dnd = False, su_rate_plan = None,
     su_outbound_caller_id = None, su_balance = None, su_balance_currency = None\<rparr>"

definition upsert_user :: "db_user \<Rightarrow> database \<Rightarrow> database" where
  "upsert_user i s =
     (let u = (case get_user s (du_extension i) of
                 Some e \<Rightarrow> e\<lparr>su_extension := du_extension i, su_username := du_username i,
                             su_name := du_name i, su_mobile := Some (du_mobile i)\<rparr>
               | None \<Rightarrow> fresh_user i);
          s1 = store_user u s
      in if truthy (su_mobile u)
         then s1\<lparr>db_phones := m_set (only_digits (the (su_mobile u))) (su_extension u) (db_phones s1)\<rparr>
         else s1)"

definition remove_user :: "string \<Rightarrow> database \<Rightarrow> database" where
  "remove_user ext s =
     (case get_user s ext of None \<Rightarrow> s
      | Some u \<Rightarrow> s\<lparr>
          db_users := m_del (su_username u) (m_del (su_extension u) (db_users s)),
          db_phones := (if truthy (su_mobile u) then m_del (only_digits (the (su_mobile u))) (db_phones s)
                        else db_phones s),
          db_registrations := m_del (su_extension u) (db_registrations s)\<rparr>)"

definition get_extension_by_phone :: "database \<Rightarrow> string \<Rightarrow> string option" where
  "get_extension_by_phone s phone = m_get (db_phones s) (only_digits phone)"

definition get_user_by_phone :: "database \<Rightarrow> string \<Rightarrow> sip_user option" where
  "get_user_by_phone s phone =
     (case get_extension_by_phone s phone of None \<Rightarrow> None
      | Some ext \<Rightarrow> if ext = [] then None else get_user s ext)"

text \<open>\<^verbatim>\<open>getUsers\<close>: the objects in map order, each extension once.\<close>

fun dedupe :: "string list \<Rightarrow> sip_user list \<Rightarrow> sip_user list" where
  "dedupe seen [] = []"
| "dedupe seen (u # us) =
     (if su_extension u \<in> set seen then dedupe seen us else u # dedupe (su_extension u # seen) us)"

definition get_users :: "database \<Rightarrow> sip_user list" where
  "get_users s = dedupe [] (map (\<lambda>a. db_heap s ! a) (m_vals (db_users s)))"

definition estimate_for :: "database \<Rightarrow> string \<Rightarrow> string option \<Rightarrow> (rat \<times> string) option" where
  "estimate_for s dialed ext =
     (case db_rater s of None \<Rightarrow> None
      | Some r \<Rightarrow> ra_estimate r dialed
          (if truthy ext then Option.bind (get_user s (the ext)) su_rate_plan else None))"

definition is_unrated_destination :: "database \<Rightarrow> string \<Rightarrow> string option \<Rightarrow> bool" where
  "is_unrated_destination s dialed ext =
     (case db_rater s of None \<Rightarrow> False
      | Some r \<Rightarrow> ra_unrated r dialed
          (if truthy ext then Option.bind (get_user s (the ext)) su_rate_plan else None))"

section \<open>Detail from the database\<close>

definition apply_forwarding_row :: "forwarding_row \<Rightarrow> sip_user \<Rightarrow> sip_user" where
  "apply_forwarding_row r u =
     (let target = non_empty (fw_target r)
      in if fw_type r = ''busy'' then u\<lparr>su_fwd_busy := target\<rparr>
         else if fw_type r = ''noAnswer'' then u\<lparr>su_fwd_no_answer := target\<rparr>
         else if fw_type r = ''unavailable'' then u\<lparr>su_fwd_unavailable := target\<rparr>
         else u)"

definition apply_pstn :: "bool \<Rightarrow> string option \<Rightarrow> bool \<Rightarrow> int option \<Rightarrow> string option \<Rightarrow> sip_user \<Rightarrow> sip_user" where
  "apply_pstn enabled mobile dnd plan caller_id u =
     u\<lparr>su_pstn_forward := enabled, su_pstn_target := non_empty mobile, su_dnd := dnd,
       su_rate_plan := plan, su_outbound_caller_id := caller_id\<rparr>"

definition apply_balance :: "rat option \<Rightarrow> string option \<Rightarrow> sip_user \<Rightarrow> sip_user" where
  "apply_balance balance currency u = u\<lparr>su_balance := balance, su_balance_currency := non_empty currency\<rparr>"

definition reset_detail :: "sip_user \<Rightarrow> sip_user" where
  "reset_detail u = u\<lparr>su_blocked := Some [], su_fwd_busy := None, su_fwd_no_answer := None,
     su_fwd_unavailable := None, su_pstn_forward := False, su_pstn_target := None, su_dnd := False,
     su_rate_plan := None, su_outbound_caller_id := None, su_balance := None, su_balance_currency := None\<rparr>"

definition hydrate_all_detail ::
  "blocked_row list \<Rightarrow> forwarding_row list \<Rightarrow> pstn_row list \<Rightarrow> balance_row list \<Rightarrow> database \<Rightarrow> database" where
  "hydrate_all_detail blocked forwarding pstn balances s =
     (let s1 = fold (\<lambda>u. modify_user (su_extension u) reset_detail) (get_users s) s;
          s2 = fold (\<lambda>b. modify_user (bk_extension b)
                 (\<lambda>u. u\<lparr>su_blocked := Some (or_else (su_blocked u) [] @ [bk_number b])\<rparr>)) blocked s1;
          s3 = fold (\<lambda>f. modify_user (fw_extension f) (apply_forwarding_row f)) forwarding s2;
          s4 = fold (\<lambda>p. modify_user (ps_extension p)
                 (apply_pstn (ps_enabled p) (ps_mobile p) (ps_dnd p) (ps_rate_plan p) (ps_outbound_caller_id p))) pstn s3
      in if db_prepaid s4
         then fold (\<lambda>b. modify_user (br_extension b) (apply_balance (Some (br_balance b)) (Some (br_currency b)))) balances s4
         else s4)"

definition hydrate_user_detail ::
  "blocked_row list \<Rightarrow> forwarding_row list \<Rightarrow> pstn_row option \<Rightarrow> balance_row option \<Rightarrow> string \<Rightarrow> database \<Rightarrow> database" where
  "hydrate_user_detail blocked forwarding pstn bal ext s =
     modify_user ext (\<lambda>u.
       (let u1 = u\<lparr>su_blocked := Some (map bk_number blocked), su_fwd_busy := None,
                   su_fwd_no_answer := None, su_fwd_unavailable := None\<rparr>;
            u2 = fold apply_forwarding_row forwarding u1;
            u3 = (case pstn of None \<Rightarrow> apply_pstn False None False None None u2
                  | Some p \<Rightarrow> apply_pstn (ps_enabled p) (ps_mobile p) (ps_dnd p) (ps_rate_plan p)
                      (ps_outbound_caller_id p) u2)
        in if db_prepaid s
           then apply_balance (map_option br_balance bal) (map_option br_currency bal) u3
           else u3\<lparr>su_balance := None, su_balance_currency := None\<rparr>)) s"

definition sync_user ::
  "db_user option \<Rightarrow> blocked_row list \<Rightarrow> forwarding_row list \<Rightarrow> pstn_row option \<Rightarrow> balance_row option \<Rightarrow>
     string \<Rightarrow> database \<Rightarrow> database" where
  "sync_user row blocked forwarding pstn bal ext s =
     (case row of None \<Rightarrow> remove_user ext s
      | Some r \<Rightarrow> hydrate_user_detail blocked forwarding pstn bal (du_extension r) (upsert_user r s))"

definition hydrate_ivr_flow_extensions :: "string list option \<Rightarrow> database \<Rightarrow> database" where
  "hydrate_ivr_flow_extensions exts s =
     (case exts of None \<Rightarrow> s | Some es \<Rightarrow> s\<lparr>db_ivr_flows := remdups es\<rparr>)"

definition hydrate_from_postgres ::
  "db_user list \<Rightarrow> blocked_row list \<Rightarrow> forwarding_row list \<Rightarrow> pstn_row list \<Rightarrow> balance_row list \<Rightarrow>
     string list option \<Rightarrow> database \<Rightarrow> database \<times> nat" where
  "hydrate_from_postgres rows blocked forwarding pstn balances flows s =
     (hydrate_ivr_flow_extensions flows
        (hydrate_all_detail blocked forwarding pstn balances (fold upsert_user rows s)), length rows)"

definition hydrate_calls :: "call_log list \<Rightarrow> database \<Rightarrow> database \<times> nat" where
  "hydrate_calls calls s = (s\<lparr>db_calls := calls\<rparr>, length calls)"

section \<open>Registrations\<close>

definition register_user :: "string \<Rightarrow> sip_registration \<Rightarrow> database \<Rightarrow> database" where
  "register_user ext rg s =
     modify_user ext (\<lambda>u. u\<lparr>su_registered := True, su_contact := Some (rg_contact rg), su_user_agent := rg_ua rg\<rparr>)
       (s\<lparr>db_registrations := m_set ext rg (db_registrations s)\<rparr>)"

definition unregister_user :: "string \<Rightarrow> database \<Rightarrow> database" where
  "unregister_user ext s =
     modify_user ext (\<lambda>u. u\<lparr>su_registered := False, su_contact := None\<rparr>)
       (s\<lparr>db_registrations := m_del ext (db_registrations s)\<rparr>)"

definition get_registration :: "database \<Rightarrow> string \<Rightarrow> sip_registration option" where
  "get_registration s ext = m_get (db_registrations s) ext"

definition is_registered :: "database \<Rightarrow> string \<Rightarrow> bool" where
  "is_registered s ext = m_has (db_registrations s) ext"

section \<open>The call log\<close>

definition resolve_extension :: "database \<Rightarrow> string \<Rightarrow> string option" where
  "resolve_extension s leg =
     (if leg = [] then None
      else case get_user s leg of Some u \<Rightarrow> Some (su_extension u)
        | None \<Rightarrow> map_option su_extension (get_user_by_phone s leg))"

definition log_call :: "call_log \<Rightarrow> database \<Rightarrow> database" where
  "log_call d s =
     (let c = d\<lparr>cl_from_ext := resolve_extension s (cl_from d), cl_to_ext := resolve_extension s (cl_to d)\<rparr>;
          cs = c # db_calls s
      in emit (CallUpserted c) (s\<lparr>db_calls := (if length cs > 500 then butlast cs else cs)\<rparr>))"

definition get_call :: "database \<Rightarrow> string \<Rightarrow> call_log option" where
  "get_call s cid = List.find (\<lambda>c. cl_id c = cid) (db_calls s)"

text \<open>Assigning to the first call with the id.\<close>

fun set_first :: "string \<Rightarrow> call_log \<Rightarrow> call_log list \<Rightarrow> call_log list" where
  "set_first cid c' [] = []"
| "set_first cid c' (c # cs) = (if cl_id c = cid then c' # cs else c # set_first cid c' cs)"

definition calling_user :: "database \<Rightarrow> call_log \<Rightarrow> sip_user option" where
  "calling_user s c = (if truthy (cl_from_ext c) then get_user s (the (cl_from_ext c)) else get_user_by_phone s (cl_from c))"

definition update_call :: "string \<Rightarrow> call_update \<Rightarrow> database \<Rightarrow> database" where
  "update_call cid u s =
     (case get_call s cid of None \<Rightarrow> s
      | Some c \<Rightarrow>
          (let (next, debit) =
             (case db_rater s of
                Some r \<Rightarrow>
                  if up_status u = Some Ended \<and> cl_cost c = None
                  then (let caller = calling_user s c;
                            n = ra_apply r c u (Option.bind caller su_rate_plan)
                        in (n, case (caller, up_cost n) of
                                 (Some p, Some cost) \<Rightarrow>
                                   if db_prepaid s \<and> cost > 0
                                   then [BalanceDebit \<lparr>bj_extension = su_extension p, bj_call_id = cl_id c,
                                           bj_amount = cost, bj_currency = or_else (up_currency n) (db_currency s)\<rparr>]
                                   else []
                               | _ \<Rightarrow> []))
                  else (u, [])
              | None \<Rightarrow> (u, []));
             c' = assign_call c next
           in s\<lparr>db_calls := set_first cid c' (db_calls s),
                db_events := db_events s @ debit @ [CallUpserted c']\<rparr>))"

section \<open>Blocking and forwarding\<close>

definition block_number :: "string \<Rightarrow> string \<Rightarrow> database \<Rightarrow> bool \<times> database" where
  "block_number ext number s =
     (case get_user s ext of None \<Rightarrow> (False, s)
      | Some _ \<Rightarrow> (True, modify_user ext (\<lambda>u. u\<lparr>su_blocked :=
          (let bs = or_else (su_blocked u) [] in Some (if number \<in> set bs then bs else bs @ [number]))\<rparr>) s))"

definition unblock_number :: "string \<Rightarrow> string \<Rightarrow> database \<Rightarrow> bool \<times> database" where
  "unblock_number ext number s =
     (case get_user s ext of None \<Rightarrow> (False, s)
      | Some u \<Rightarrow> (case su_blocked u of None \<Rightarrow> (False, s)
          | Some bs \<Rightarrow> (True, modify_user ext (\<lambda>u. u\<lparr>su_blocked := Some (filter (\<lambda>n. n \<noteq> number) bs)\<rparr>) s)))"

definition is_blocked :: "database \<Rightarrow> string \<Rightarrow> string \<Rightarrow> bool" where
  "is_blocked s callee caller =
     (case get_user s callee of None \<Rightarrow> False
      | Some u \<Rightarrow> (case su_blocked u of None \<Rightarrow> False | Some bs \<Rightarrow> caller \<in> set bs))"

definition get_blocked_numbers :: "database \<Rightarrow> string \<Rightarrow> string list" where
  "get_blocked_numbers s ext = or_else (Option.bind (get_user s ext) su_blocked) []"

datatype forward_type = FwdBusy | FwdNoAnswer | FwdUnavailable

definition set_forwarding :: "string \<Rightarrow> forward_type \<Rightarrow> string option \<Rightarrow> database \<Rightarrow> bool \<times> database" where
  "set_forwarding ext ty target s =
     (case get_user s ext of None \<Rightarrow> (False, s)
      | Some _ \<Rightarrow> (True, modify_user ext (\<lambda>u. case ty of
            FwdBusy \<Rightarrow> u\<lparr>su_fwd_busy := non_empty target\<rparr>
          | FwdNoAnswer \<Rightarrow> u\<lparr>su_fwd_no_answer := non_empty target\<rparr>
          | FwdUnavailable \<Rightarrow> u\<lparr>su_fwd_unavailable := non_empty target\<rparr>) s))"

record forwarding =
  fo_busy :: "string option"
  fo_no_answer :: "string option"
  fo_unavailable :: "string option"

definition get_forwarding :: "database \<Rightarrow> string \<Rightarrow> forwarding" where
  "get_forwarding s ext =
     (let u = get_user s ext
      in \<lparr>fo_busy = Option.bind u su_fwd_busy, fo_no_answer = Option.bind u su_fwd_no_answer,
          fo_unavailable = Option.bind u su_fwd_unavailable\<rparr>)"

definition set_pstn_forward :: "string \<Rightarrow> bool \<Rightarrow> string option \<Rightarrow> database \<Rightarrow> bool \<times> database" where
  "set_pstn_forward ext enabled target s =
     (case get_user s ext of None \<Rightarrow> (False, s)
      | Some _ \<Rightarrow> (True, modify_user ext
          (\<lambda>u. u\<lparr>su_pstn_forward := enabled, su_pstn_target := non_empty target\<rparr>) s))"

definition get_pstn_forward :: "database \<Rightarrow> string \<Rightarrow> bool \<times> string option" where
  "get_pstn_forward s ext =
     (case get_user s ext of None \<Rightarrow> (False, None) | Some u \<Rightarrow> (su_pstn_forward u, su_pstn_target u))"

definition find_pstn_forward_target :: "database \<Rightarrow> string \<Rightarrow> (sip_user \<times> string) option" where
  "find_pstn_forward_target s called =
     (let norm = last_chars 10 (only_digits called)
      in map_option (\<lambda>u. (u, str_or (su_pstn_target u) (su_extension u)))
           (List.find (\<lambda>u. su_pstn_forward u \<and> truthy (su_mobile u) \<and>
                last_chars 10 (only_digits (the (su_mobile u))) = norm)
              (map (\<lambda>a. db_heap s ! a) (m_vals (db_users s)))))"

section \<open>Caches\<close>

text \<open>
  A cache of hits and misses in front of a loader: a cached entry is the answer, also when it
  is a miss; a loader that threw (\<open>None\<close>) answers nothing and leaves the cache alone.
\<close>

definition read_through :: "'v option option \<Rightarrow> 'k \<Rightarrow> ('k, 'v option) js_map \<Rightarrow> 'v option \<times> ('k, 'v option) js_map" where
  "read_through loaded k m =
     (case m_get m k of Some v \<Rightarrow> (v, m)
      | None \<Rightarrow> (case loaded of None \<Rightarrow> (None, m) | Some v \<Rightarrow> (v, m_set k v m)))"

definition get_routing_rule :: "routing_rule option option \<Rightarrow> string \<Rightarrow> database \<Rightarrow> routing_rule option \<times> database" where
  "get_routing_rule loaded number s =
     (case read_through loaded number (db_rules s) of (r, m) \<Rightarrow> (r, s\<lparr>db_rules := m\<rparr>))"

definition clear_routing_rule_cache :: "database \<Rightarrow> database" where
  "clear_routing_rule_cache s = s\<lparr>db_rules := []\<rparr>"

definition get_ai_agent :: "ai_agent_record option option \<Rightarrow> int \<Rightarrow> database \<Rightarrow> ai_agent_record option \<times> database" where
  "get_ai_agent loaded i s =
     (if i \<le> 0 then (None, s)
      else case read_through loaded i (db_agents s) of (r, m) \<Rightarrow> (r, s\<lparr>db_agents := m\<rparr>))"

text \<open>Rows grouped by their owner, in row order; the empty owner has none.\<close>

definition group_by_owner :: "('r \<Rightarrow> string) \<Rightarrow> 'r list \<Rightarrow> (string, 'r list) js_map" where
  "group_by_owner owner rows = fold (\<lambda>r m. m_set (owner r) (or_else (m_get m (owner r)) [] @ [r]) m) rows []"

definition get_webhooks_for_owner :: "webhook_record list option \<Rightarrow> string \<Rightarrow> database \<Rightarrow> webhook_record list \<times> database" where
  "get_webhooks_for_owner loaded owner s =
     (if owner = [] then ([], s)
      else case db_webhooks s of
        Some m \<Rightarrow> (or_else (m_get m owner) [], s)
      | None \<Rightarrow> (case loaded of None \<Rightarrow> ([], s)
          | Some rows \<Rightarrow> (let m = group_by_owner wh_owner rows
                          in (or_else (m_get m owner) [], s\<lparr>db_webhooks := Some m\<rparr>))))"

definition clear_webhook_cache :: "database \<Rightarrow> database" where
  "clear_webhook_cache s = s\<lparr>db_webhooks := None\<rparr>"

definition get_default_ai_agent_for_owner ::
  "ai_agent_record list option \<Rightarrow> string \<Rightarrow> database \<Rightarrow> ai_agent_record option \<times> database" where
  "get_default_ai_agent_for_owner loaded owner s =
     (let first = (\<lambda>m. case m_get m owner of Some (a # _) \<Rightarrow> Some a | _ \<Rightarrow> None)
      in if owner = [] then (None, s)
         else case db_agents_by_owner s of
           Some m \<Rightarrow> (first m, s)
         | None \<Rightarrow> (case loaded of None \<Rightarrow> (None, s)
             | Some rows \<Rightarrow> (let m = group_by_owner ai_owner rows
                             in (first m, s\<lparr>db_agents_by_owner := Some m\<rparr>))))"

definition clear_ai_agent_cache :: "database \<Rightarrow> database" where
  "clear_ai_agent_cache s = s\<lparr>db_agents := [], db_agents_by_owner := None\<rparr>"

definition is_ivr_flow_extension :: "database \<Rightarrow> string \<Rightarrow> bool" where
  "is_ivr_flow_extension s ext \<longleftrightarrow> ext \<in> set (db_ivr_flows s)"

definition sync_ivr_flow_extension :: "bool option \<Rightarrow> string \<Rightarrow> database \<Rightarrow> database" where
  "sync_ivr_flow_extension enabled ext s =
     (case enabled of None \<Rightarrow> s
      | Some True \<Rightarrow> s\<lparr>db_ivr_flows := (if ext \<in> set (db_ivr_flows s) then db_ivr_flows s else db_ivr_flows s @ [ext])\<rparr>
      | Some False \<Rightarrow> s\<lparr>db_ivr_flows := removeAll ext (db_ivr_flows s)\<rparr>)"

section \<open>Lemmas: users and aliases\<close>

text \<open>Every key refers to an object of the heap.\<close>

definition db_ok :: "database \<Rightarrow> bool" where
  "db_ok s \<longleftrightarrow> (\<forall>k a. m_get (db_users s) k = Some a \<longrightarrow> a < length (db_heap s))"

lemma db_ok_empty: "db_ok (empty_db b c)"
  by (simp add: db_ok_def empty_db_def)

lemma db_ok_modify: "db_ok s \<Longrightarrow> db_ok (modify_user k f s)"
  by (auto simp: db_ok_def modify_user_def split: option.split)

lemma db_ok_store: "db_ok s \<Longrightarrow> db_ok (store_user u s)"
  by (auto simp: db_ok_def store_user_def js.get_put less_Suc_eq)

lemma db_ok_fold: "db_ok s \<Longrightarrow> (\<And>x t. db_ok t \<Longrightarrow> db_ok (f x t)) \<Longrightarrow> db_ok (fold f xs s)"
  by (induction xs arbitrary: s) simp_all

lemma get_user_modify_same:
  "db_ok s \<Longrightarrow> get_user (modify_user k f s) k = map_option f (get_user s k)"
  by (auto simp: db_ok_def get_user_def modify_user_def split: option.split)

lemma get_user_modify_alias:
  "db_ok s \<Longrightarrow> m_get (db_users s) j = m_get (db_users s) k \<Longrightarrow>
    get_user (modify_user k f s) j = map_option f (get_user s k)"
  by (auto simp: db_ok_def get_user_def modify_user_def split: option.split)

lemma get_user_modify_other:
  "m_get (db_users s) j \<noteq> m_get (db_users s) k \<Longrightarrow> get_user (modify_user k f s) j = get_user s j"
  by (cases "m_get (db_users s) j") (auto simp: get_user_def modify_user_def split: option.split)

lemma modify_frame [simp]:
  "db_users (modify_user k f s) = db_users s" "db_calls (modify_user k f s) = db_calls s"
  "db_registrations (modify_user k f s) = db_registrations s" "db_phones (modify_user k f s) = db_phones s"
  "db_rater (modify_user k f s) = db_rater s" "db_events (modify_user k f s) = db_events s"
  "db_prepaid (modify_user k f s) = db_prepaid s" "db_rules (modify_user k f s) = db_rules s"
  "length (db_heap (modify_user k f s)) = length (db_heap s)"
  by (simp_all add: modify_user_def split: option.split)

lemma get_user_frame [simp]:
  "get_user (s\<lparr>db_registrations := r\<rparr>) k = get_user s k" "get_user (s\<lparr>db_phones := p\<rparr>) k = get_user s k"
  "get_user (s\<lparr>db_calls := c, db_events := e\<rparr>) k = get_user s k"
  "get_user (s\<lparr>db_calls := c\<rparr>) k = get_user s k" "get_user (emit ev s) k = get_user s k"
  "db_ok (s\<lparr>db_registrations := r\<rparr>) = db_ok s" "db_ok (s\<lparr>db_phones := p\<rparr>) = db_ok s"
  by (simp_all add: get_user_def db_ok_def emit_def)

lemma get_user_store:
  "db_ok s \<Longrightarrow> get_user (store_user u s) k = (if k = su_username u \<or> k = su_extension u then Some u else get_user s k)"
  by (cases "m_get (db_users s) k") (auto simp: get_user_def store_user_def js.get_put db_ok_def nth_append)

text \<open>The user an upsert leaves: the identity of the row, the state of the old entry.\<close>

definition upserted :: "db_user \<Rightarrow> database \<Rightarrow> sip_user" where
  "upserted i s = (case get_user s (du_extension i) of
     Some e \<Rightarrow> e\<lparr>su_extension := du_extension i, su_username := du_username i,
                 su_name := du_name i, su_mobile := Some (du_mobile i)\<rparr>
   | None \<Rightarrow> fresh_user i)"

lemma upserted_simps [simp]:
  "su_extension (upserted i s) = du_extension i" "su_username (upserted i s) = du_username i"
  "su_name (upserted i s) = du_name i" "su_mobile (upserted i s) = Some (du_mobile i)"
  by (simp_all add: upserted_def fresh_user_def split: option.split)

lemma upsert_user_alt:
  "upsert_user i s = (if du_mobile i \<noteq> []
     then (store_user (upserted i s) s)\<lparr>db_phones := m_set (only_digits (du_mobile i)) (du_extension i) (db_phones s)\<rparr>
     else store_user (upserted i s) s)"
  by (simp add: upsert_user_def upserted_def fresh_user_def Let_def store_user_def split: option.split)

lemma get_user_upsert:
  "db_ok s \<Longrightarrow> get_user (upsert_user i s) k =
    (if k = du_username i \<or> k = du_extension i then Some (upserted i s) else get_user s k)"
  by (simp add: upsert_user_alt get_user_store)

lemma db_ok_upsert: "db_ok s \<Longrightarrow> db_ok (upsert_user i s)"
  by (simp add: upsert_user_alt db_ok_store)

lemma upsert_alias:
  "m_get (db_users (upsert_user i s)) (du_username i) = m_get (db_users (upsert_user i s)) (du_extension i)"
  by (simp add: upsert_user_alt store_user_def js.get_put)

section \<open>Lemmas: registrations\<close>

interpretation registrations: keyed_store get_registration register_user unregister_user
  by unfold_locales (simp_all add: get_registration_def register_user_def unregister_user_def js.get_put js.get_del)

lemma is_registered_get: "is_registered s ext \<longleftrightarrow> get_registration s ext \<noteq> None"
  by (simp add: is_registered_def get_registration_def m_has_def)

section \<open>The rating interface\<close>

text \<open>
  What the store relies on: rating adds the price fields and nothing else, leaves calls to a
  local extension alone, and cannot price a destination it calls unrated.
\<close>

locale call_rater =
  fixes rater :: call_rater
  assumes rater_frame: "up_status (ra_apply rater c u p) = up_status u"
      "up_to (ra_apply rater c u p) = up_to u" "up_end (ra_apply rater c u p) = up_end u"
    and rater_local: "truthy (cl_to_ext c) \<Longrightarrow> ra_apply rater c u p = u"
    and rater_unrated: "ra_unrated rater (cl_to c) p \<Longrightarrow> ra_apply rater c u p = u"
begin

lemma status_after_end:
  assumes "db_rater s = Some rater" "get_call s cid = Some c"
  shows "\<exists>u'. update_call cid u s = s\<lparr>db_calls := set_first cid (assign_call c u') (db_calls s),
      db_events := db_events (update_call cid u s)\<rparr> \<and> up_status u' = up_status u \<and> up_to u' = up_to u"
  using assms rater_frame by (auto simp: update_call_def Let_def)

text \<open>Calls to a local extension or an unrated destination are never priced or debited.\<close>

lemma unpriced:
  assumes "db_rater s = Some rater" "get_call s cid = Some c" "up_cost u = None"
    "truthy (cl_to_ext c) \<or> (\<forall>p. ra_unrated rater (cl_to c) p)"
  shows "update_call cid u s = s\<lparr>db_calls := set_first cid (assign_call c u) (db_calls s),
      db_events := db_events s @ [CallUpserted (assign_call c u)]\<rparr>"
proof -
  have "ra_apply rater c u p = u" for p using assms(4) rater_local rater_unrated by blast
  then show ?thesis using assms(1-3) by (simp add: update_call_def Let_def split: option.split)
qed

end

text \<open>The rating engine over a rate book, as the server installs it.\<close>

definition rating_rater :: "rate_book \<Rightarrow> call_rater" where
  "rating_rater b = \<lparr>ra_apply = apply_to_ended_call b, ra_estimate = estimate_min_charge b,
     ra_unrated = is_unrated b\<rparr>"

interpretation rating: call_rater "rating_rater b" for b
proof unfold_locales
  fix c u p
  show "up_status (ra_apply (rating_rater b) c u p) = up_status u"
    "up_to (ra_apply (rating_rater b) c u p) = up_to u" "up_end (ra_apply (rating_rater b) c u p) = up_end u"
    by (simp_all add: rating_rater_def apply_to_ended_call_def split: option.split)
  show "ra_apply (rating_rater b) c u p = u" if "truthy (cl_to_ext c)"
    using that by (simp add: rating_rater_def apply_to_ended_call_def)
  show "ra_apply (rating_rater b) c u p = u" if "ra_unrated (rating_rater b) (cl_to c) p"
    using that by (simp add: rating_rater_def apply_to_ended_call_def is_unrated_def rate_def Let_def
        split: option.splits if_splits)
qed

section \<open>Lemmas: the call log\<close>

lemma find_set_first:
  assumes "List.find (\<lambda>c. cl_id c = cid) cs = Some c" "cl_id c' = cid"
  shows "List.find (\<lambda>c. cl_id c = j) (set_first cid c' cs) = (if j = cid then Some c' else List.find (\<lambda>c. cl_id c = j) cs)"
  using assms by (induction cs) auto

lemma length_set_first [simp]: "length (set_first cid c' cs) = length cs"
  by (induction cs) auto

lemma get_call_id: "get_call s cid = Some c \<Longrightarrow> cl_id c = cid"
  using find_SomeD by (fastforce simp: get_call_def)

lemma update_call_frame [simp]:
  "db_users (update_call cid u s) = db_users s" "db_heap (update_call cid u s) = db_heap s"
  "db_registrations (update_call cid u s) = db_registrations s" "db_rater (update_call cid u s) = db_rater s"
  "db_prepaid (update_call cid u s) = db_prepaid s" "db_phones (update_call cid u s) = db_phones s"
  "db_rules (update_call cid u s) = db_rules s" "db_ivr_flows (update_call cid u s) = db_ivr_flows s"
  "length (db_calls (update_call cid u s)) = length (db_calls s)"
  by (auto simp: update_call_def Let_def split: option.split)

lemma log_call_frame [simp]:
  "db_users (log_call d s) = db_users s" "db_heap (log_call d s) = db_heap s"
  "db_registrations (log_call d s) = db_registrations s" "db_rater (log_call d s) = db_rater s"
  "db_prepaid (log_call d s) = db_prepaid s" "db_phones (log_call d s) = db_phones s"
  "db_rules (log_call d s) = db_rules s" "db_ivr_flows (log_call d s) = db_ivr_flows s"
  by (simp_all add: log_call_def emit_def Let_def)

lemma get_call_update:
  assumes "get_call s cid = Some c"
  shows "\<exists>u'. get_call (update_call cid u s) j = (if j = cid then Some (assign_call c u') else get_call s j) \<and>
    (up_cost u' = up_cost u \<or> cl_cost c = None)"
proof -
  have "cl_id c = cid" using get_call_id [OF assms] .
  then show ?thesis
    using assms find_set_first [of cid "db_calls s" c _ j]
    by (auto simp: update_call_def Let_def get_call_def split: option.split)
qed

text \<open>Logging another call keeps a call, or drops it from the full log.\<close>

lemma find_butlast: "List.find P (butlast cs) = List.find P cs \<or> List.find P (butlast cs) = None"
proof (cases cs rule: rev_cases)
  case (snoc ys y)
  then show ?thesis by (auto simp: find_append split: option.split)
qed simp

lemma get_call_log_other:
  assumes "cl_id d \<noteq> cid"
  shows "get_call (log_call d s) cid = get_call s cid \<or> get_call (log_call d s) cid = None"
  using assms find_butlast [of "\<lambda>c. cl_id c = cid" "db_calls s"]
  by (auto simp: log_call_def get_call_def emit_def Let_def butlast.simps)

lemma get_call_log: "\<exists>c. get_call (log_call d s) (cl_id d) = Some c \<and> cl_id c = cl_id d \<and> cl_cost c = cl_cost d"
  by (auto simp: log_call_def get_call_def emit_def Let_def)

lemma log_bounded: "length (db_calls s) \<le> 500 \<Longrightarrow> length (db_calls (log_call d s)) \<le> 500"
  by (simp add: log_call_def emit_def Let_def)

section \<open>A call is charged once\<close>

datatype call_op = OpLog call_log | OpUpdate string call_update

fun call_step :: "call_op \<Rightarrow> database \<Rightarrow> database" where
  "call_step (OpLog d) s = log_call d s"
| "call_step (OpUpdate cid u) s = update_call cid u s"

fun event_jobs :: "string \<Rightarrow> db_event list \<Rightarrow> balance_debit_job list" where
  "event_jobs cid [] = []"
| "event_jobs cid (BalanceDebit j # es) = (if bj_call_id j = cid then j # event_jobs cid es else event_jobs cid es)"
| "event_jobs cid (CallUpserted c # es) = event_jobs cid es"

definition debit_jobs :: "string \<Rightarrow> database \<Rightarrow> balance_debit_job list" where
  "debit_jobs cid s = event_jobs cid (db_events s)"

definition charged :: "string \<Rightarrow> database \<Rightarrow> bool" where
  "charged cid s \<longleftrightarrow> debit_jobs cid s = [] \<or>
     (\<exists>j. debit_jobs cid s = [j] \<and> (\<forall>c. get_call s cid = Some c \<longrightarrow> cl_cost c = Some (bj_amount j)))"

lemma event_jobs_append [simp]: "event_jobs cid (es @ fs) = event_jobs cid es @ event_jobs cid fs"
  by (induction es rule: event_jobs.induct) auto

lemma debit_jobs_log [simp]: "debit_jobs cid (log_call d s) = debit_jobs cid s"
  by (simp add: debit_jobs_def log_call_def emit_def Let_def)

text \<open>The two outcomes of an update: no debit, or one for the price just given to an unpriced call.\<close>

lemma update_call_cases:
  assumes "get_call s j = Some c"
  shows "\<exists>n debit. update_call j u s = s\<lparr>db_calls := set_first j (assign_call c n) (db_calls s),
      db_events := db_events s @ debit @ [CallUpserted (assign_call c n)]\<rparr> \<and>
    (debit = [] \<and> (n = u \<or> cl_cost c = None) \<or>
     (\<exists>job. debit = [BalanceDebit job] \<and> bj_call_id job = j \<and> up_cost n = Some (bj_amount job) \<and> cl_cost c = None))"
proof (cases "\<exists>r. db_rater s = Some r \<and> up_status u = Some Ended \<and> cl_cost c = None")
  case False
  then show ?thesis
    using assms by (intro exI [of _ u] exI [of _ "[]"]) (auto simp: update_call_def Let_def split: option.split)
next
  case True
  then obtain r where r: "db_rater s = Some r" "up_status u = Some Ended" "cl_cost c = None" by blast
  define n where "n = ra_apply r c u (Option.bind (calling_user s c) su_rate_plan)"
  define debit where "debit = (case (calling_user s c, up_cost n) of
      (Some p, Some cost) \<Rightarrow>
        if db_prepaid s \<and> cost > 0
        then [BalanceDebit \<lparr>bj_extension = su_extension p, bj_call_id = cl_id c, bj_amount = cost,
                bj_currency = or_else (up_currency n) (db_currency s)\<rparr>]
        else []
    | _ \<Rightarrow> [])"
  have "update_call j u s = s\<lparr>db_calls := set_first j (assign_call c n) (db_calls s),
      db_events := db_events s @ debit @ [CallUpserted (assign_call c n)]\<rparr>"
    using assms r unfolding n_def debit_def by (simp add: update_call_def Let_def)
  moreover have "debit = [] \<or> (\<exists>job. debit = [BalanceDebit job] \<and> bj_call_id job = j \<and> up_cost n = Some (bj_amount job))"
    using get_call_id [OF assms] by (auto simp: debit_def split: option.split)
  ultimately show ?thesis using r(3) by blast
qed

lemma update_debits:
  "debit_jobs cid (update_call j u s) = debit_jobs cid s \<or>
    (j = cid \<and> (\<exists>c n job. get_call s j = Some c \<and> cl_cost c = None \<and> debit_jobs cid (update_call j u s) = debit_jobs cid s @ [job] \<and>
       get_call (update_call j u s) cid = Some (assign_call c n) \<and> up_cost n = Some (bj_amount job)))"
proof (cases "get_call s j")
  case (Some c)
  have id: "cl_id c = j" using get_call_id [OF Some] .
  obtain n debit where eq: "update_call j u s = s\<lparr>db_calls := set_first j (assign_call c n) (db_calls s),
      db_events := db_events s @ debit @ [CallUpserted (assign_call c n)]\<rparr>"
    "debit = [] \<and> (n = u \<or> cl_cost c = None) \<or>
     (\<exists>job. debit = [BalanceDebit job] \<and> bj_call_id job = j \<and> up_cost n = Some (bj_amount job) \<and> cl_cost c = None)"
    using update_call_cases [OF Some] by blast
  have "get_call (update_call j u s) j = Some (assign_call c n)"
    using find_set_first [of j "db_calls s" c "assign_call c n" j] Some id by (simp add: eq(1) get_call_def)
  note get = this
  from eq(2) consider "debit = []" | job where "debit = [BalanceDebit job]" "bj_call_id job = j"
      "up_cost n = Some (bj_amount job)" "cl_cost c = None" by blast
  then show ?thesis
  proof cases
    case 1
    then show ?thesis by (simp add: eq(1) debit_jobs_def)
  next
    case job: 2
    have new: "debit_jobs cid (update_call j u s) = debit_jobs cid s @ (if j = cid then [job] else [])"
      using job(1,2) by (simp add: eq(1) debit_jobs_def)
    show ?thesis
    proof (cases "j = cid")
      case True
      then have "get_call s j = Some c \<and> cl_cost c = None \<and> debit_jobs cid (update_call j u s) = debit_jobs cid s @ [job] \<and>
          get_call (update_call j u s) cid = Some (assign_call c n) \<and> up_cost n = Some (bj_amount job)"
        using new job Some get by simp
      then show ?thesis using True by blast
    qed (simp add: new)
  qed
qed (simp add: update_call_def)

lemma charged_step:
  assumes "charged cid s" "\<forall>d. op = OpLog d \<longrightarrow> cl_id d \<noteq> cid" "\<forall>j u. op = OpUpdate j u \<longrightarrow> up_cost u = None"
  shows "charged cid (call_step op s)"
proof (cases op)
  case (OpLog d)
  then show ?thesis
    using assms get_call_log_other [of d cid s] by (auto simp: charged_def)
next
  case (OpUpdate j u)
  have u: "up_cost u = None" using assms(3) OpUpdate by blast
  from update_debits [of cid j u s] show ?thesis
  proof
    assume same: "debit_jobs cid (update_call j u s) = debit_jobs cid s"
    have "cl_cost c = Some a" if "get_call (update_call j u s) cid = Some c"
      "\<forall>c. get_call s cid = Some c \<longrightarrow> cl_cost c = Some a" for c a
    proof (cases "get_call s j")
      case None
      then show ?thesis using that by (simp add: update_call_def)
    next
      case (Some c0)
      obtain n where n: "get_call (update_call j u s) cid = (if cid = j then Some (assign_call c0 n) else get_call s cid)"
          "up_cost n = up_cost u \<or> cl_cost c0 = None"
        using get_call_update [OF Some, of u cid] by blast
      show ?thesis
      proof (cases "cid = j")
        case True
        then have "cl_cost c0 = Some a" using that(2) Some by simp
        then show ?thesis using n that(1) True u by auto
      next
        case False
        then show ?thesis using n(1) that by simp
      qed
    qed
    then show ?thesis using assms(1) same OpUpdate by (auto simp: charged_def)
  next
    assume "j = cid \<and> (\<exists>c n job. get_call s j = Some c \<and> cl_cost c = None \<and>
      debit_jobs cid (update_call j u s) = debit_jobs cid s @ [job] \<and>
      get_call (update_call j u s) cid = Some (assign_call c n) \<and> up_cost n = Some (bj_amount job))"
    then obtain c n job where c: "get_call s cid = Some c" "cl_cost c = None"
      "debit_jobs cid (update_call j u s) = debit_jobs cid s @ [job]"
      "get_call (update_call j u s) cid = Some (assign_call c n)" "up_cost n = Some (bj_amount job)" by blast
    then have "debit_jobs cid s = []" using assms(1) by (auto simp: charged_def)
    then show ?thesis using c OpUpdate by (auto simp: charged_def)
  qed
qed

section \<open>Properties\<close>

text \<open>C34: A call is charged at most once. After it is logged, no sequence of updates (repeated
  ends included) and of other calls, with any rate book and plan, emits a second wallet debit
  for it; and the one debit is for the price the call record shows.\<close>

theorem call_charged_once:
  assumes "debit_jobs cid s = []" "\<forall>d. OpLog d \<in> set ops \<longrightarrow> cl_id d \<noteq> cid"
    "\<forall>j u. OpUpdate j u \<in> set ops \<longrightarrow> up_cost u = None"
  shows "debit_jobs cid (fold call_step ops s) = [] \<or>
    (\<exists>j. debit_jobs cid (fold call_step ops s) = [j] \<and>
      (\<forall>c. get_call (fold call_step ops s) cid = Some c \<longrightarrow> cl_cost c = Some (bj_amount j)))"
proof -
  have "charged cid s" using assms(1) by (simp add: charged_def)
  then have "charged cid (fold call_step ops s)"
    using assms(2,3)
  proof (induction ops arbitrary: s)
    case (Cons op ops)
    have "charged cid (call_step op s)" using Cons.prems by (intro charged_step) auto
    then show ?case using Cons.IH Cons.prems(2,3) by simp
  qed simp
  then show ?thesis by (simp add: charged_def)
qed

theorem call_charged_once_witness:
  "let c = \<lparr>cl_id = ''c1'', cl_from = ''101'', cl_to = ''15551234'', cl_from_name = [], cl_status = Answered,
        cl_direction = Outbound, cl_start = 0, cl_end = None, cl_duration = None, cl_from_ext = Some ''101'',
        cl_to_ext = None, cl_cost = None, cl_currency = None, cl_rate_prefix = None, cl_billed_secs = None\<rparr>;
       price = \<lparr>ra_apply = (\<lambda>c u p. u\<lparr>up_cost := Some 2\<rparr>), ra_estimate = (\<lambda>d p. None), ra_unrated = (\<lambda>d p. False)\<rparr>;
       s = (add_user (fresh_user \<lparr>du_extension = ''101'', du_username = ''bob'', du_name = [], du_mobile = []\<rparr>)
              (empty_db True ''USD''))\<lparr>db_calls := [c], db_rater := Some price\<rparr>;
       ops = [OpUpdate ''c1'' (set_status Ended), OpUpdate ''c1'' (set_status Ended)]
   in \<exists>j. debit_jobs ''c1'' (fold call_step ops s) = [j]"
proof -
  define c where "c = \<lparr>cl_id = ''c1'', cl_from = ''101'', cl_to = ''15551234'', cl_from_name = [], cl_status = Answered,
        cl_direction = Outbound, cl_start = 0, cl_end = None, cl_duration = None, cl_from_ext = Some ''101'',
        cl_to_ext = None, cl_cost = None, cl_currency = None, cl_rate_prefix = None, cl_billed_secs = None\<rparr>"
  define price where "price = \<lparr>ra_apply = (\<lambda>c u p. u\<lparr>up_cost := Some 2\<rparr>), ra_estimate = (\<lambda>d p. None),
        ra_unrated = (\<lambda>d p. False)\<rparr>"
  define s where "s = (add_user (fresh_user \<lparr>du_extension = ''101'', du_username = ''bob'', du_name = [], du_mobile = []\<rparr>)
              (empty_db True ''USD''))\<lparr>db_calls := [c], db_rater := Some price\<rparr>"
  let ?ops = "[OpUpdate ''c1'' (set_status Ended), OpUpdate ''c1'' (set_status Ended)]"
  have "debit_jobs ''c1'' s = []" by (simp add: s_def debit_jobs_def add_user_def store_user_def empty_db_def)
  from call_charged_once [OF this, of ?ops]
  have "debit_jobs ''c1'' (fold call_step ?ops s) = [] \<or> (\<exists>j. debit_jobs ''c1'' (fold call_step ?ops s) = [j])" by auto
  moreover have "debit_jobs ''c1'' (fold call_step ?ops s) \<noteq> []"
    by (simp add: s_def c_def price_def update_call_def get_call_def calling_user_def get_user_def add_user_def
        store_user_def empty_db_def fresh_user_def debit_jobs_def Let_def assign_call_def)
  ultimately show ?thesis by (simp add: c_def price_def s_def Let_def)
qed

text \<open>A reload of a user gives lookups by extension and by username the same refreshed user:
  the identity of the row, its registration state as before, and exactly the blocked numbers,
  forwarding and PSTN detail of the database.\<close>

theorem sync_user_refreshes:
  assumes "db_ok s" "get_user s (du_extension r) = Some old"
  shows "\<exists>u. get_user (sync_user (Some r) blocked [] pstn bal ext s) (du_extension r) = Some u \<and>
    get_user (sync_user (Some r) blocked [] pstn bal ext s) (du_username r) = Some u \<and>
    su_extension u = du_extension r \<and> su_username u = du_username r \<and> su_name u = du_name r \<and>
    su_registered u = su_registered old \<and> su_contact u = su_contact old \<and>
    su_blocked u = Some (map bk_number blocked) \<and> su_fwd_busy u = None \<and> su_fwd_no_answer u = None \<and>
    su_fwd_unavailable u = None \<and> su_dnd u = or_else (map_option ps_dnd pstn) False \<and>
    su_pstn_forward u = or_else (map_option ps_enabled pstn) False"
proof -
  let ?s = "upsert_user r s"
  have ok: "db_ok ?s" by (rule db_ok_upsert [OF assms(1)])
  have u: "get_user ?s (du_extension r) = Some (upserted r s)" using assms(1) by (simp add: get_user_upsert)
  have reg: "su_registered (upserted r s) = su_registered old" "su_contact (upserted r s) = su_contact old"
    using assms(2) by (simp_all add: upserted_def)
  show ?thesis
    using get_user_modify_same [OF ok, of "du_extension r"] u reg
      get_user_modify_alias [OF ok upsert_alias [of r s]]
    by (auto simp: sync_user_def hydrate_user_detail_def apply_pstn_def apply_balance_def Let_def
        split: option.split)
qed

theorem sync_user_refreshes_witness:
  "let r = \<lparr>du_extension = ''101'', du_username = ''bob'', du_name = ''Bob'', du_mobile = []\<rparr>;
       s = register_user ''101'' \<lparr>rg_contact = ''sip:101@10.0.0.5'', rg_expires = Some 60, rg_ua = None, rg_source = None\<rparr>
             (upsert_user r (empty_db True ''USD''))
   in \<exists>u. get_user (sync_user (Some r) [\<lparr>bk_extension = ''101'', bk_number = ''555''\<rparr>] [] None None ''101'' s) ''bob'' = Some u \<and>
        su_registered u \<and> su_blocked u = Some [''555'']"
proof -
  let ?r = "\<lparr>du_extension = ''101'', du_username = ''bob'', du_name = ''Bob'', du_mobile = []\<rparr>"
  let ?s = "register_user ''101'' \<lparr>rg_contact = ''sip:101@10.0.0.5'', rg_expires = Some 60, rg_ua = None, rg_source = None\<rparr>
             (upsert_user ?r (empty_db True ''USD''))"
  have ok: "db_ok ?s" by (simp add: register_user_def db_ok_modify db_ok_upsert db_ok_empty)
  obtain old where old: "get_user ?s (du_extension ?r) = Some old" "su_registered old"
    by (simp add: register_user_def get_user_modify_same db_ok_upsert db_ok_empty get_user_upsert)
  show ?thesis
    using sync_user_refreshes [OF ok old(1), of "[\<lparr>bk_extension = ''101'', bk_number = ''555''\<rparr>]" None None "''101''"] old(2)
    by (auto simp: Let_def)
qed

text \<open>A renamed user leaves the old username behind: after the rename and the deletion of the
  user, the old username still finds the user, as registered as the stale object was.\<close>

theorem renamed_user_survives_deletion:
  assumes "db_ok s" "old \<noteq> ext" "new \<noteq> old"
  shows "get_user (remove_user ext (upsert_user \<lparr>du_extension = ext, du_username = new, du_name = n, du_mobile = m\<rparr>
      (upsert_user \<lparr>du_extension = ext, du_username = old, du_name = n, du_mobile = m\<rparr> s))) old \<noteq> None"
proof -
  let ?a = "\<lparr>du_extension = ext, du_username = old, du_name = n, du_mobile = m\<rparr>"
  let ?b = "\<lparr>du_extension = ext, du_username = new, du_name = n, du_mobile = m\<rparr>"
  let ?s1 = "upsert_user ?a s" and ?s2 = "upsert_user ?b (upsert_user ?a s)"
  have ok1: "db_ok ?s1" by (rule db_ok_upsert [OF assms(1)])
  have e: "get_user ?s2 ext = Some (upserted ?b ?s1)" using ok1 by (simp add: get_user_upsert)
  have old: "get_user ?s2 old = Some (upserted ?a s)" using ok1 assms by (simp add: get_user_upsert)
  have "m_get (db_users (remove_user ext ?s2)) old = m_get (db_users ?s2) old"
    using e assms(2,3) by (simp add: remove_user_def js.get_del)
  moreover have "db_heap (remove_user ext ?s2) = db_heap ?s2" using e by (simp add: remove_user_def)
  ultimately have "get_user (remove_user ext ?s2) old = get_user ?s2 old" unfolding get_user_def by simp
  then show ?thesis using old by simp
qed

theorem renamed_user_survives_deletion_witness:
  "get_user (remove_user ''101'' (upsert_user \<lparr>du_extension = ''101'', du_username = ''bob'', du_name = [], du_mobile = []\<rparr>
      (upsert_user \<lparr>du_extension = ''101'', du_username = ''rob'', du_name = [], du_mobile = []\<rparr> (empty_db True ''USD'')))) ''rob'' \<noteq> None"
  by (rule renamed_user_survives_deletion) (simp_all add: db_ok_empty)

end
