(* ===== verification/Flow_Runner.thy ===== *)
theory Flow_Runner
  imports Js_Number
begin

text \<open>
  The interpreter of the visual IVR flows, \<^verbatim>\<open>src/src/sip/ivr/flow-runner.ts\<close> and the graph
  of \<^verbatim>\<open>flow.types.ts\<close>. The media handlers, the clock, the regular expressions of the
  language and the meeting web service are the record \<open>handlers\<close> over a state \<open>'e\<close> of the
  outside world; the interpreter is the walk over it. Lemmas: the walk stops within 50
  blocks, stops at a hang-up, follows exactly the wired edges, and plays no file outside the
  sounds directory.
\<close>

section \<open>Graphs\<close>

record prompt =
  pm_mode :: string
  pm_text :: "string option"
  pm_audio :: "string option"

record menu_option =
  mo_id :: string
  mo_digit :: string

record provider =
  pv_digit :: string
  pv_domain :: string

text \<open>The data of a node: an untrusted object, every field of every kind optional.\<close>

record node_data =
  nd_kind :: "string option"
  nd_greeting :: "prompt option"
  nd_prompt :: "prompt option"
  nd_valid_digits :: "string option"
  nd_tries :: "int option"
  nd_timeout_ms :: "int option"
  nd_invalid_prompt :: "prompt option"
  nd_options :: "menu_option list option"
  nd_variable :: "string option"
  nd_operator :: "string option"
  nd_value :: "string option"
  nd_ignore_case :: "bool option"
  nd_department :: "string option"
  nd_extension :: "string option"
  nd_ring_seconds :: "int option"
  nd_mailbox :: "string option"
  nd_max_seconds :: "int option"
  nd_connector :: "string option"
  nd_to :: "string option"
  nd_subject :: "string option"
  nd_body :: "string option"
  nd_join_type :: "string option"
  nd_api_url :: "string option"
  nd_method :: "string option"
  nd_provider_prompt :: "prompt option"
  nd_id_prompt :: "prompt option"
  nd_providers :: "provider list option"

record graph_node =
  gn_id :: string
  gn_type :: "string option"
  gn_data :: node_data

record graph_edge =
  ge_source :: string
  ge_target :: string
  ge_handle :: "string option"

record flow_graph =
  fl_id :: string
  fl_name :: string
  fl_extension :: string
  fl_enabled :: bool
  fl_nodes :: "graph_node list"
  fl_edges :: "graph_edge list"

record flow_context =
  fx_call_id :: string
  fx_caller :: string
  fx_dialed :: string

record collect_opts =
  co_valid :: "string option"
  co_tries :: int
  co_wait_ms :: int
  co_label :: string

record transfer_opts =
  to_department :: "string option"
  to_extension :: "string option"
  to_ring_seconds :: "int option"
  to_external :: bool

record email_opts =
  eo_connector :: string
  eo_to :: string
  eo_subject :: string
  eo_body :: string

text \<open>
  \<open>h_fetch\<close> is the meeting service: the value of \<open>result\<close> where the answer was successful.
  \<open>h_regex\<close> tests a pattern (with the flag for ignoring case), \<open>None\<close> where it does not
  parse. \<open>h_proto\<close> are the names every object of the language inherits.
\<close>

record 'e handlers =
  h_play :: "string \<Rightarrow> 'e \<Rightarrow> 'e"
  h_collect :: "string \<Rightarrow> collect_opts \<Rightarrow> 'e \<Rightarrow> string \<times> 'e"
  h_voicemail :: "string \<Rightarrow> string option \<Rightarrow> int option \<Rightarrow> 'e \<Rightarrow> 'e"
  h_transfer :: "transfer_opts \<Rightarrow> 'e \<Rightarrow> bool \<times> 'e"
  h_email :: "email_opts \<Rightarrow> 'e \<Rightarrow> 'e"
  h_hung_up :: "'e \<Rightarrow> bool"
  h_fetch :: "string \<Rightarrow> string \<Rightarrow> 'e \<Rightarrow> string option \<times> 'e"
  h_hours :: "'e \<Rightarrow> nat"
  h_day :: "'e \<Rightarrow> nat"
  h_regex :: "string \<Rightarrow> bool \<Rightarrow> string \<Rightarrow> bool option"
  h_proto :: "string \<Rightarrow> string option"
  h_sounds :: string

datatype flow_result = Completed | FlowVoicemail | Transferred | Announced | FlowHangup | FlowError

definition max_hops :: nat where
  "max_hops = 50"

section \<open>Pure graph helpers\<close>

definition node_kind :: "graph_node \<Rightarrow> string option" where
  "node_kind n = (case nd_kind (gn_data n) of Some k \<Rightarrow> Some k | None \<Rightarrow> gn_type n)"

definition find_start :: "graph_node list \<Rightarrow> graph_node option" where
  "find_start ns = List.find (\<lambda>n. node_kind n = Some ''start'') ns"

text \<open>\<^verbatim>\<open>template.replace(/\$\{(\w+)\}/g, ...)\<close>: unknown names are left as they are.\<close>

function substitute_vars :: "(string \<Rightarrow> string option) \<Rightarrow> string \<Rightarrow> string" where
  "substitute_vars vars [] = []"
| "substitute_vars vars (c # cs) =
     (let name = takeWhile is_word_char (tl cs); rest = dropWhile is_word_char (tl cs)
      in if c = CHR ''$'' \<and> cs \<noteq> [] \<and> hd cs = CHR ''{'' \<and> name \<noteq> [] \<and> rest \<noteq> [] \<and> hd rest = CHR ''}''
         then (case vars name of Some v \<Rightarrow> v | None \<Rightarrow> ''${'' @ name @ ''}'') @ substitute_vars vars (tl rest)
         else c # substitute_vars vars cs)"
  by pat_completeness auto

termination substitute_vars
proof (relation "measure (\<lambda>(v, s). length s)")
  fix vars :: "string \<Rightarrow> string option" and c cs name rest
  assume "name = takeWhile is_word_char (tl cs)" "rest = dropWhile is_word_char (tl cs)"
  then have "length (tl rest) \<le> length cs"
    using length_dropWhile_le [of is_word_char "tl cs"] by (simp add: le_diff_conv)
  then show "((vars, tl rest), vars, c # cs) \<in> measure (\<lambda>(v, s). length s)" by simp
qed auto

definition object_vars :: "(string \<Rightarrow> string option) \<Rightarrow> (string \<times> string) list \<Rightarrow> string \<Rightarrow> string option" where
  "object_vars proto m k = (case map_of m k of Some v \<Rightarrow> Some v | None \<Rightarrow> proto k)"

definition edge_from :: "graph_edge list \<Rightarrow> string \<Rightarrow> string option \<Rightarrow> graph_edge option" where
  "edge_from edges node handle =
     List.find (\<lambda>e. ge_source e = node \<and> (handle = None \<or> ge_handle e = handle)) edges"

definition resolve_menu_target :: "node_data \<Rightarrow> graph_edge list \<Rightarrow> string \<Rightarrow> string \<Rightarrow> string option" where
  "resolve_menu_target menu edges node digit =
     (case List.find (\<lambda>opt. mo_digit opt = digit) (or_else (nd_options menu) []) of
        None \<Rightarrow> None
      | Some opt \<Rightarrow> map_option ge_target (edge_from edges node (Some (mo_id opt))))"

record facts =
  fc_caller :: string
  fc_dialed :: string
  fc_last_digit :: string
  fc_digits :: string

definition sublist_of :: "string \<Rightarrow> string \<Rightarrow> bool" where
  "sublist_of b a \<longleftrightarrow> list_ex (\<lambda>i. prefix b (drop i a)) [0..<Suc (length a)]"

definition in_range :: "string \<Rightarrow> string \<Rightarrow> bool" where
  "in_range target subject =
     (case map (\<lambda>s. js_number (trim s)) (split_on CHR '','' target) of
        Num mn # Num mx # _ \<Rightarrow> (case js_number subject of Num n \<Rightarrow> mn \<le> n \<and> n \<le> mx | _ \<Rightarrow> False)
      | _ \<Rightarrow> False)"

definition evaluate_condition ::
  "(string \<Rightarrow> bool \<Rightarrow> string \<Rightarrow> bool option) \<Rightarrow> nat \<Rightarrow> nat \<Rightarrow> node_data \<Rightarrow> facts \<Rightarrow> bool" where
  "evaluate_condition regex hours day d f =
     (let var = or_else (nd_variable d) [];
          subject = (if var = ''caller_id'' then Some (fc_caller f)
            else if var = ''dialed_number'' then Some (fc_dialed f)
            else if var = ''last_digit'' then Some (fc_last_digit f)
            else if var = ''digits'' then Some (fc_digits f)
            else if var = ''time_of_day'' then Some (show_nat hours)
            else if var = ''day_of_week'' then Some (show_nat day)
            else None)
      in case subject of None \<Rightarrow> False
         | Some s \<Rightarrow>
             (let target = or_else (nd_value d) []; ci = or_else (nd_ignore_case d) False;
                  a = (if ci then to_lower s else s); b = (if ci then to_lower target else target);
                  op = or_else (nd_operator d) []
              in if op = ''eq'' then a = b
                 else if op = ''neq'' then a \<noteq> b
                 else if op = ''contains'' then sublist_of b a
                 else if op = ''starts_with'' then prefix b a
                 else if op = ''ends_with'' then suffix b a
                 else if op = ''regex'' then or_else (regex target ci s) False
                 else if op = ''in_range'' then in_range target s
                 else False))"

definition safe_char :: "char \<Rightarrow> bool" where
  "safe_char c \<longleftrightarrow> is_letter c \<or> is_digit c \<or> c \<in> set ''._-''"

text \<open>\<^verbatim>\<open>SAFE_AUDIO_FILE\<close>: segments of safe characters separated by single slashes.\<close>

definition safe_audio_file :: "string \<Rightarrow> bool" where
  "safe_audio_file s = list_all (\<lambda>p. p \<noteq> [] \<and> list_all safe_char p) (split_on CHR ''/'' s)"

definition strip_slash :: "string \<Rightarrow> string" where
  "strip_slash s = (if s \<noteq> [] \<and> last s = CHR ''/'' then butlast s else s)"

definition render_prompt :: "string \<Rightarrow> prompt option \<Rightarrow> string option" where
  "render_prompt sounds p =
     (case p of None \<Rightarrow> None
      | Some q \<Rightarrow>
          if pm_mode q = ''audio'' then
            (let raw = trim (or_else (pm_audio q) []); base = strip_slash sounds
             in if raw = [] then None
                else if prefix ''system:'' raw then
                  (let file = drop 7 raw
                   in if file = [] \<or> sublist_of ''..'' file \<or> \<not> safe_audio_file file then None
                      else Some (base @ ''/'' @ file))
                else if sublist_of ''..'' raw \<or> \<not> safe_audio_file raw then None
                else Some (base @ ''/ivr/'' @ raw))
          else
            (let text = trim (or_else (pm_text q) [])
             in if text \<noteq> [] then Some (''say:'' @ text) else None))"

section \<open>The interpreter\<close>

text \<open>What a block does: go on to a node, with the digits so far, or end the flow.\<close>

datatype 'e block = Goto "graph_node option" string string 'e | Stop flow_result 'e

definition by_id :: "flow_graph \<Rightarrow> (string, graph_node) js_map" where
  "by_id fl = fold (\<lambda>n m. m_set (gn_id n) n m) (fl_nodes fl) []"

definition node_at :: "flow_graph \<Rightarrow> string option \<Rightarrow> graph_node option" where
  "node_at fl target = m_get (by_id fl) (or_else target [])"

text \<open>The fallback of a block: the first out-edge of the node, whatever its handle.\<close>

definition fallback :: "flow_graph \<Rightarrow> string \<Rightarrow> graph_node option" where
  "fallback fl node = (case edge_from (fl_edges fl) node None of None \<Rightarrow> None
     | Some e \<Rightarrow> m_get (by_id fl) (ge_target e))"

definition play_opt :: "'e handlers \<Rightarrow> string option \<Rightarrow> 'e \<Rightarrow> 'e" where
  "play_opt h p e = (case p of None \<Rightarrow> e | Some s \<Rightarrow> h_play h s e)"

definition run_menu :: "flow_graph \<Rightarrow> 'e handlers \<Rightarrow> graph_node \<Rightarrow> string \<Rightarrow> string \<Rightarrow> 'e \<Rightarrow> 'e block" where
  "run_menu fl h node last_digit digits e =
     (let d = gn_data node;
          pr = or_else (render_prompt (h_sounds h) (nd_prompt d)) ''say:Please make a selection.'';
          valid = (if truthy (nd_valid_digits d) then the (nd_valid_digits d)
                   else concat (map mo_digit (or_else (nd_options d) [])));
          (digit, e1) = h_collect h pr \<lparr>co_valid = Some valid, co_tries = or_else (nd_tries d) 2,
            co_wait_ms = or_else (nd_timeout_ms d) 7000, co_label = ''menu''\<rparr> e
      in if h_hung_up h e1 then Stop FlowHangup e1
         else (let ld = (if digit \<noteq> [] then digit else last_digit);
                   ds = (if digit \<noteq> [] then digits @ digit else digits);
                   target = (if digit \<noteq> [] then resolve_menu_target d (fl_edges fl) (gn_id node) digit else None)
               in if truthy target then Goto (node_at fl target) ld ds e1
                  else (let e2 = play_opt h (render_prompt (h_sounds h) (nd_invalid_prompt d)) e1
                        in Goto (fallback fl (gn_id node)) ld ds e2)))"

definition choose_branch :: "graph_edge list \<Rightarrow> string \<Rightarrow> bool \<Rightarrow> graph_edge option" where
  "choose_branch edges node b =
     (let branch = (if b then ''true'' else ''false'');
          outs = filter (\<lambda>e. ge_source e = node) edges;
          nth_out = (\<lambda>i. if i < length outs then Some (outs ! i) else None)
      in case List.find (\<lambda>e. or_else (ge_handle e) [] = branch) outs of
           Some e \<Rightarrow> Some e
         | None \<Rightarrow> (case nth_out (if b then 0 else 1) of Some e \<Rightarrow> Some e | None \<Rightarrow> nth_out 0))"

definition run_condition :: "flow_graph \<Rightarrow> flow_context \<Rightarrow> 'e handlers \<Rightarrow> graph_node \<Rightarrow> string \<Rightarrow> string \<Rightarrow> 'e \<Rightarrow> 'e block" where
  "run_condition fl ctx h node last_digit digits e =
     (let b = evaluate_condition (h_regex h) (h_hours h e) (h_day h e) (gn_data node)
                \<lparr>fc_caller = fx_caller ctx, fc_dialed = fx_dialed ctx, fc_last_digit = last_digit, fc_digits = digits\<rparr>
      in Goto (case choose_branch (fl_edges fl) (gn_id node) b of None \<Rightarrow> None
               | Some ed \<Rightarrow> m_get (by_id fl) (ge_target ed)) last_digit digits e)"

definition give_up :: "flow_graph \<Rightarrow> graph_node \<Rightarrow> string \<Rightarrow> string \<Rightarrow> 'e \<Rightarrow> 'e block" where
  "give_up fl node ld ds e = Goto (fallback fl (gn_id node)) ld ds e"

definition join_target :: "flow_graph \<Rightarrow> 'e handlers \<Rightarrow> graph_node \<Rightarrow> string option \<Rightarrow> string \<Rightarrow> string \<Rightarrow> 'e \<Rightarrow> 'e block" where
  "join_target fl h node target ld ds e =
     (if \<not> truthy target
      then give_up fl node ld ds (h_play h ''say:We could not verify that meeting ID.'' e)
      else (let (_, e1) = h_transfer h \<lparr>to_department = None, to_extension = target, to_ring_seconds = None,
              to_external = True\<rparr> e
            in Stop Transferred e1))"

definition run_meeting_internal :: "flow_graph \<Rightarrow> flow_context \<Rightarrow> 'e handlers \<Rightarrow> graph_node \<Rightarrow> string \<Rightarrow> string \<Rightarrow> 'e \<Rightarrow> 'e block" where
  "run_meeting_internal fl ctx h node last_digit digits e =
     (let d = gn_data node;
          pr = or_else (render_prompt (h_sounds h) (nd_prompt d)) ''say:Please enter the meeting ID.'';
          (s, e1) = h_collect h pr \<lparr>co_valid = None, co_tries = 3, co_wait_ms = 10000,
            co_label = ''meeting_join_internal''\<rparr> e
      in if h_hung_up h e1 then Stop FlowHangup e1
         else if s = [] then give_up fl node last_digit digits e1
         else (let ld = last_chars 1 s; ds = digits @ s;
                   (target, e2) = (if truthy (nd_api_url d)
                     then h_fetch h (substitute_vars (object_vars (h_proto h)
                              [(''digits'', s), (''meetingId'', s), (''caller_id'', fx_caller ctx)]) (the (nd_api_url d)))
                            (or_else (nd_method d) ''GET'') e1
                     else (None, e1))
               in join_target fl h node target ld ds e2))"

definition run_meeting_external :: "flow_graph \<Rightarrow> 'e handlers \<Rightarrow> graph_node \<Rightarrow> string \<Rightarrow> string \<Rightarrow> 'e \<Rightarrow> 'e block" where
  "run_meeting_external fl h node last_digit digits e =
     (let d = gn_data node;
          pp = or_else (render_prompt (h_sounds h) (nd_provider_prompt d)) ''say:Please select a provider.'';
          (pd0, e1) = h_collect h pp \<lparr>co_valid = None, co_tries = 3, co_wait_ms = 5000, co_label = ''meeting_provider''\<rparr> e;
          pd = take 1 pd0
      in if h_hung_up h e1 then Stop FlowHangup e1
         else if pd = [] then give_up fl node last_digit digits e1
         else case List.find (\<lambda>p. pv_digit p = pd) (or_else (nd_providers d) []) of
             None \<Rightarrow> give_up fl node last_digit digits (h_play h ''say:Invalid selection.'' e1)
           | Some p \<Rightarrow>
               if pv_domain p = [] then give_up fl node last_digit digits (h_play h ''say:Invalid selection.'' e1)
               else (let ip = or_else (render_prompt (h_sounds h) (nd_id_prompt d)) ''say:Please enter the meeting ID.'';
                         (s, e2) = h_collect h ip \<lparr>co_valid = None, co_tries = 3, co_wait_ms = 10000,
                           co_label = ''meeting_join_external''\<rparr> e1
                     in if h_hung_up h e2 then Stop FlowHangup e2
                        else if s = [] then give_up fl node last_digit digits e2
                        else join_target fl h node (Some (s @ ''@'' @ pv_domain p)) (last_chars 1 s) (digits @ s) e2))"

definition run_email :: "flow_graph \<Rightarrow> flow_context \<Rightarrow> 'e handlers \<Rightarrow> graph_node \<Rightarrow> string \<Rightarrow> string \<Rightarrow> 'e \<Rightarrow> 'e block" where
  "run_email fl ctx h node last_digit digits e =
     (let d = gn_data node;
          vars = object_vars (h_proto h) [(''caller_id'', fx_caller ctx), (''caller_number'', fx_caller ctx),
            (''destination_number'', fx_dialed ctx), (''dialed_number'', fx_dialed ctx),
            (''last_digit'', last_digit), (''digits'', digits)];
          e1 = h_email h \<lparr>eo_connector = or_else (nd_connector d) [],
            eo_to = substitute_vars vars (or_else (nd_to d) []),
            eo_subject = substitute_vars vars (or_else (nd_subject d) []),
            eo_body = substitute_vars vars (or_else (nd_body d) [])\<rparr> e
      in Goto (node_at fl (map_option ge_target (edge_from (fl_edges fl) (gn_id node) None))) last_digit digits e1)"

definition run_block :: "flow_graph \<Rightarrow> flow_context \<Rightarrow> 'e handlers \<Rightarrow> graph_node \<Rightarrow> string \<Rightarrow> string \<Rightarrow> 'e \<Rightarrow> 'e block" where
  "run_block fl ctx h node last_digit digits e =
     (let d = gn_data node; kind = or_else (node_kind node) [];
          onward = node_at fl (map_option ge_target (edge_from (fl_edges fl) (gn_id node) None))
      in if kind = ''start'' then
           Goto onward last_digit digits (play_opt h (render_prompt (h_sounds h) (nd_greeting d)) e)
         else if kind = ''play'' then
           Goto onward last_digit digits (play_opt h (render_prompt (h_sounds h) (nd_prompt d)) e)
         else if kind = ''menu'' then run_menu fl h node last_digit digits e
         else if kind = ''condition'' then run_condition fl ctx h node last_digit digits e
         else if kind = ''transfer'' then
           (let (ok, e1) = h_transfer h \<lparr>to_department = nd_department d, to_extension = nd_extension d,
                  to_ring_seconds = nd_ring_seconds d, to_external = False\<rparr> e
            in Stop (if ok then Transferred else Announced) e1)
         else if kind = ''meeting_join'' then
           (if str_or (nd_join_type d) ''internal'' = ''internal''
            then run_meeting_internal fl ctx h node last_digit digits e
            else run_meeting_external fl h node last_digit digits e)
         else if kind = ''voicemail'' then
           (let mb = trim (or_else (nd_mailbox d) []);
                mailbox = (if mb \<noteq> [] then mb else fx_dialed ctx)
            in Stop FlowVoicemail (h_voicemail h mailbox (render_prompt (h_sounds h) (nd_greeting d)) (nd_max_seconds d) e))
         else if kind = ''hangup'' then Stop FlowHangup e
         else if kind = ''email'' then run_email fl ctx h node last_digit digits e
         else Stop FlowError e)"

fun walk :: "nat \<Rightarrow> flow_graph \<Rightarrow> flow_context \<Rightarrow> 'e handlers \<Rightarrow> graph_node option \<Rightarrow> string \<Rightarrow> string \<Rightarrow> 'e \<Rightarrow> flow_result \<times> 'e" where
  "walk n fl ctx h None ld ds e = (Completed, e)"
| "walk 0 fl ctx h (Some node) ld ds e = (FlowError, e)"
| "walk (Suc n) fl ctx h (Some node) ld ds e =
     (if h_hung_up h e then (FlowHangup, e)
      else case run_block fl ctx h node ld ds e of
        Goto next ld' ds' e' \<Rightarrow> walk n fl ctx h next ld' ds' e'
      | Stop r e' \<Rightarrow> (r, e'))"

definition run_flow :: "flow_graph \<Rightarrow> flow_context \<Rightarrow> 'e handlers \<Rightarrow> 'e \<Rightarrow> flow_result \<times> 'e" where
  "run_flow fl ctx h e =
     (case find_start (fl_nodes fl) of None \<Rightarrow> (FlowError, e)
      | Some start \<Rightarrow> walk max_hops fl ctx h (Some start) [] [] e)"

section \<open>The host of a flow\<close>

text \<open>
  The contract of a host whose handlers preserve an invariant of its state: every flow
  preserves it.
\<close>

locale flow_host =
  fixes h :: "'e handlers" and inv :: "'e \<Rightarrow> bool"
  assumes play_inv: "inv e \<Longrightarrow> inv (h_play h f e)"
    and collect_inv: "inv e \<Longrightarrow> inv (snd (h_collect h pr co e))"
    and voicemail_inv: "inv e \<Longrightarrow> inv (h_voicemail h m g x e)"
    and transfer_inv: "inv e \<Longrightarrow> inv (snd (h_transfer h tr e))"
    and email_inv: "inv e \<Longrightarrow> inv (h_email h eo e)"
    and fetch_inv: "inv e \<Longrightarrow> inv (snd (h_fetch h u me e))"
begin

definition block_inv :: "'e block \<Rightarrow> bool" where
  "block_inv b \<longleftrightarrow> (case b of Goto _ _ _ e \<Rightarrow> inv e | Stop _ e \<Rightarrow> inv e)"

lemma block_inv_simps [simp]: "block_inv (Goto x ld ds e) = inv e" "block_inv (Stop r e) = inv e"
  by (simp_all add: block_inv_def)

lemma play_opt_inv: "inv e \<Longrightarrow> inv (play_opt h p e)"
  by (simp add: play_opt_def play_inv split: option.split)

lemma collect_invD: "h_collect h pr co e = (x, e') \<Longrightarrow> inv e \<Longrightarrow> inv e'"
  using collect_inv [of e pr co] by simp

lemma transfer_invD: "h_transfer h tr e = (x, e') \<Longrightarrow> inv e \<Longrightarrow> inv e'"
  using transfer_inv [of e tr] by simp

lemma fetch_invD: "h_fetch h u me e = (x, e') \<Longrightarrow> inv e \<Longrightarrow> inv e'"
  using fetch_inv [of e u me] by simp

lemma join_target_inv: "inv e \<Longrightarrow> block_inv (join_target fl h node t ld ds e)"
  by (auto simp: join_target_def give_up_def play_inv split: prod.split dest: transfer_invD)

lemmas host_inv = play_opt_inv play_inv collect_inv fetch_inv transfer_inv email_inv voicemail_inv

lemma run_menu_inv: "inv e \<Longrightarrow> block_inv (run_menu fl h node ld ds e)"
  by (simp add: run_menu_def Let_def split_beta host_inv)

lemma run_condition_inv: "inv e \<Longrightarrow> block_inv (run_condition fl ctx h node ld ds e)"
  by (simp add: run_condition_def Let_def)

lemma run_internal_inv: "inv e \<Longrightarrow> block_inv (run_meeting_internal fl ctx h node ld ds e)"
  by (simp add: run_meeting_internal_def Let_def give_up_def split_beta host_inv join_target_inv)

lemma run_external_inv: "inv e \<Longrightarrow> block_inv (run_meeting_external fl h node ld ds e)"
  by (simp add: run_meeting_external_def Let_def give_up_def split_beta host_inv join_target_inv split: option.split)

lemma run_email_inv: "inv e \<Longrightarrow> block_inv (run_email fl ctx h node ld ds e)"
  by (simp add: run_email_def Let_def split_beta host_inv)

lemmas block_invs = run_menu_inv run_condition_inv run_internal_inv run_external_inv run_email_inv

lemma run_block_inv: "inv e \<Longrightarrow> block_inv (run_block fl ctx h node ld ds e)"
  by (simp add: run_block_def block_invs Let_def split_beta host_inv)

lemma walk_inv: "inv e \<Longrightarrow> inv (snd (walk n fl ctx h cur ld ds e))"
proof (induction n arbitrary: cur ld ds e)
  case 0
  then show ?case by (cases cur) simp_all
next
  case (Suc n)
  show ?case
  proof (cases cur)
    case (Some node)
    show ?thesis
      using run_block_inv [OF Suc.prems, of fl ctx node ld ds] Suc.IH Suc.prems
      by (auto simp: Some split: block.split)
  qed (use Suc.prems in simp)
qed

lemma run_flow_inv: "inv e \<Longrightarrow> inv (snd (run_flow fl ctx h e))"
  by (simp add: run_flow_def walk_inv split: option.split)

end

section \<open>Counting what a flow does\<close>

text \<open>The handlers that also count the calls that reach the outside world.\<close>

definition counted :: "'e handlers \<Rightarrow> (nat \<times> 'e) handlers" where
  "counted h = \<lparr>
     h_play = (\<lambda>s (n, e). (n + 1, h_play h s e)),
     h_collect = (\<lambda>s c (n, e). (let (d, e') = h_collect h s c e in (d, n + 1, e'))),
     h_voicemail = (\<lambda>m g x (n, e). (n + 1, h_voicemail h m g x e)),
     h_transfer = (\<lambda>t (n, e). (let (b, e') = h_transfer h t e in (b, n + 1, e'))),
     h_email = (\<lambda>m (n, e). (n + 1, h_email h m e)),
     h_hung_up = (\<lambda>(n, e). h_hung_up h e),
     h_fetch = (\<lambda>u m (n, e). (let (r, e') = h_fetch h u m e in (r, n + 1, e'))),
     h_hours = (\<lambda>(n, e). h_hours h e), h_day = (\<lambda>(n, e). h_day h e),
     h_regex = h_regex h, h_proto = h_proto h, h_sounds = h_sounds h\<rparr>"

lemma counted_simps [simp]:
  "h_play (counted h) s (n, e) = (n + 1, h_play h s e)"
  "h_collect (counted h) s c (n, e) = (fst (h_collect h s c e), n + 1, snd (h_collect h s c e))"
  "h_voicemail (counted h) m g x (n, e) = (n + 1, h_voicemail h m g x e)"
  "h_transfer (counted h) t (n, e) = (fst (h_transfer h t e), n + 1, snd (h_transfer h t e))"
  "h_email (counted h) q (n, e) = (n + 1, h_email h q e)"
  "h_hung_up (counted h) (n, e) = h_hung_up h e"
  "h_fetch (counted h) u v (n, e) = (fst (h_fetch h u v e), n + 1, snd (h_fetch h u v e))"
  "h_hours (counted h) (n, e) = h_hours h e" "h_day (counted h) (n, e) = h_day h e"
  "h_regex (counted h) = h_regex h" "h_proto (counted h) = h_proto h" "h_sounds (counted h) = h_sounds h"
  by (simp_all add: counted_def split_beta)

text \<open>A block over the counting handlers does what it does over the plain ones, with at most \<open>k\<close> calls.\<close>

definition counts_to :: "nat \<Rightarrow> nat \<Rightarrow> (nat \<times> 'e) block \<Rightarrow> 'e block \<Rightarrow> bool" where
  "counts_to n k cb b \<longleftrightarrow> (\<exists>m\<le>n + k. case b of
     Goto x ld ds e \<Rightarrow> cb = Goto x ld ds (m, e) | Stop r e \<Rightarrow> cb = Stop r (m, e))"

lemma counts_to_Goto: "m \<le> n + k \<Longrightarrow> counts_to n k (Goto x ld ds (m, e)) (Goto x ld ds e)"
  by (auto simp: counts_to_def)

lemma counts_to_Stop: "m \<le> n + k \<Longrightarrow> counts_to n k (Stop r (m, e)) (Stop r e)"
  by (auto simp: counts_to_def)

lemmas counts_intros = counts_to_Goto counts_to_Stop

lemma counts_play: "play_opt (counted h) p (n, e) = ((if p = None then n else n + 1), play_opt h p e)"
  by (simp add: play_opt_def split: option.split)

lemma counts_menu: "counts_to n 3 (run_menu fl (counted h) node ld ds (n, e)) (run_menu fl h node ld ds e)"
  by (auto simp: run_menu_def Let_def counts_play split: prod.split intro!: counts_intros)

lemma counts_condition: "counts_to n 3 (run_condition fl ctx (counted h) node ld ds (n, e)) (run_condition fl ctx h node ld ds e)"
  by (auto simp: run_condition_def Let_def intro!: counts_intros)

lemma counts_join: "m \<le> n + 2 \<Longrightarrow> counts_to n 3 (join_target fl (counted h) node t ld ds (m, e)) (join_target fl h node t ld ds e)"
  by (auto simp: join_target_def give_up_def split: prod.split intro!: counts_intros)

lemma counts_internal:
  "counts_to n 3 (run_meeting_internal fl ctx (counted h) node ld ds (n, e)) (run_meeting_internal fl ctx h node ld ds e)"
  by (auto simp: run_meeting_internal_def Let_def give_up_def split_beta split: prod.split intro!: counts_intros counts_join)

lemma counts_external:
  "counts_to n 3 (run_meeting_external fl (counted h) node ld ds (n, e)) (run_meeting_external fl h node ld ds e)"
  by (auto simp: run_meeting_external_def Let_def give_up_def split_beta split: prod.split option.split
      intro!: counts_intros counts_join)

lemma counts_email: "counts_to n 3 (run_email fl ctx (counted h) node ld ds (n, e)) (run_email fl ctx h node ld ds e)"
  by (auto simp: run_email_def Let_def intro!: counts_intros)

lemma counts_block: "counts_to n 3 (run_block fl ctx (counted h) node ld ds (n, e)) (run_block fl ctx h node ld ds e)"
  by (simp add: run_block_def Let_def counts_menu counts_condition counts_internal counts_external counts_email
      counts_play counts_to_Goto counts_to_Stop split: prod.split)

lemma counts_walk:
  "\<exists>m\<le>n + 3 * f. walk f fl ctx (counted h) cur ld ds (n, e) = (fst (walk f fl ctx h cur ld ds e), m, snd (walk f fl ctx h cur ld ds e))"
proof (induction f arbitrary: cur ld ds n e)
  case 0
  show ?case by (cases cur) auto
next
  case (Suc f)
  show ?case
  proof (cases cur)
    case (Some node)
    show ?thesis
    proof (cases "h_hung_up h e")
      case False
      from counts_block [of n fl ctx h node ld ds e] obtain m where m: "m \<le> n + 3"
        "case run_block fl ctx h node ld ds e of
           Goto x ld' ds' e' \<Rightarrow> run_block fl ctx (counted h) node ld ds (n, e) = Goto x ld' ds' (m, e')
         | Stop r e' \<Rightarrow> run_block fl ctx (counted h) node ld ds (n, e) = Stop r (m, e')"
        by (auto simp: counts_to_def)
      show ?thesis
      proof (cases "run_block fl ctx h node ld ds e")
        case (Goto x ld' ds' e')
        obtain k where k: "k \<le> m + 3 * f" "walk f fl ctx (counted h) x ld' ds' (m, e') =
            (fst (walk f fl ctx h x ld' ds' e'), k, snd (walk f fl ctx h x ld' ds' e'))"
          using Suc.IH by blast
        have "k \<le> n + 3 * Suc f" using k(1) m(1) by simp
        then show ?thesis using k m Goto Some False by (intro exI [of _ k]) simp
      next
        case (Stop r e')
        then show ?thesis using m Some False by (intro exI [of _ m]) simp
      qed
    qed (auto simp: Some)
  qed auto
qed

section \<open>Audio files\<close>

lemma split_on_concat: "concat (map (\<lambda>p. c # p) (split_on c s)) = c # s"
  by (induction s) (auto split: list.splits)

lemma sublist_ofI: "sublist_of b (x @ b @ y)"
  unfolding sublist_of_def list_ex_iff
  by (rule bexI [of _ "length x"]) auto

lemma segment_sub: "p \<in> set (split_on c s) \<Longrightarrow> \<exists>x y. s = x @ p @ y"
proof -
  assume "p \<in> set (split_on c s)"
  then obtain u v where "split_on c s = u @ p # v" by (meson split_list)
  then have eq: "c # s = concat (map (\<lambda>p. c # p) u) @ (c # p) @ concat (map (\<lambda>p. c # p) v)"
    using split_on_concat [of c s] by simp
  show ?thesis
  proof (cases u)
    case Nil
    then have "s = [] @ p @ concat (map (\<lambda>p. c # p) v)" using eq by simp
    then show ?thesis by blast
  next
    case (Cons q us)
    then have "s = (q @ concat (map (\<lambda>p. c # p) us) @ [c]) @ p @ concat (map (\<lambda>p. c # p) v)" using eq by simp
    then show ?thesis by blast
  qed
qed

section \<open>Properties\<close>

text \<open>C37: No flow runs forever: whatever the graph, cyclic ones included, and whatever the caller
  presses, a run makes at most 150 calls to the media, the mail and the meeting service (three
  for each of at most 50 blocks) before it returns its result.\<close>

theorem flow_bounded:
  "\<exists>n\<le>150. run_flow fl ctx (counted h) (0, e) = (fst (run_flow fl ctx h e), n, snd (run_flow fl ctx h e))"
proof (cases "find_start (fl_nodes fl)")
  case (Some start)
  then show ?thesis
    using counts_walk [of 0 max_hops fl ctx h "Some start" "[]" "[]" e]
    by (simp add: run_flow_def max_hops_def)
qed (simp add: run_flow_def)

text \<open>An uploaded audio name never leaves the sounds directory: what is played is the
  directory, a slash and segments of letters, digits, dots, dashes and underscores, none of
  them empty and none of them the parent directory.\<close>

theorem audio_stays_inside:
  assumes "render_prompt sounds (Some p) = Some file" "pm_mode p = ''audio''"
  shows "\<exists>rel. file = strip_slash sounds @ ''/'' @ rel \<and>
    (\<forall>seg\<in>set (split_on CHR ''/'' rel). seg \<noteq> [] \<and> seg \<noteq> ''..'' \<and> list_all safe_char seg)"
proof -
  have seg: "\<forall>seg\<in>set (split_on CHR ''/'' f). seg \<noteq> [] \<and> seg \<noteq> ''..'' \<and> list_all safe_char seg"
    if "\<not> sublist_of ''..'' f" "safe_audio_file f" for f
  proof
    fix seg
    assume s: "seg \<in> set (split_on CHR ''/'' f)"
    obtain x y where "f = x @ seg @ y" using segment_sub [OF s] by blast
    then have "seg \<noteq> ''..''" using that(1) sublist_ofI [of "''..''" x y] by auto
    then show "seg \<noteq> [] \<and> seg \<noteq> ''..'' \<and> list_all safe_char seg"
      using s that(2) by (auto simp: safe_audio_file_def list_all_iff)
  qed
  let ?raw = "trim (or_else (pm_audio p) [])"
  have ivr: "split_on CHR ''/'' (''ivr/'' @ f) = ''ivr'' # split_on CHR ''/'' f" for f
    by (simp split: list.split)
  have "list_all safe_char ''ivr''" by (simp add: safe_char_def is_letter_def is_lower_def)
  show ?thesis
  proof (cases "prefix ''system:'' ?raw")
    case True
    then show ?thesis using assms seg [of "drop 7 ?raw"]
      by (auto simp: render_prompt_def Let_def split: if_splits)
  next
    case False
    then have f: "file = strip_slash sounds @ ''/ivr/'' @ ?raw" "\<not> sublist_of ''..'' ?raw" "safe_audio_file ?raw"
      using assms by (auto simp: render_prompt_def Let_def split: if_splits)
    then have "file = strip_slash sounds @ ''/'' @ (''ivr/'' @ ?raw)" by simp
    then show ?thesis using seg [OF f(2,3)] \<open>list_all safe_char ''ivr''\<close>
      by (intro exI [of _ "''ivr/'' @ ?raw"]) (simp only: ivr list.set, auto)
  qed
qed

theorem audio_stays_inside_witness:
  "\<exists>rel. ''/sounds/ivr/101/hi.wav'' = strip_slash ''/sounds/'' @ ''/'' @ rel \<and>
    (\<forall>seg\<in>set (split_on CHR ''/'' rel). seg \<noteq> [] \<and> seg \<noteq> ''..'' \<and> list_all safe_char seg)"
  by (rule audio_stays_inside [of _ "\<lparr>pm_mode = ''audio'', pm_text = None, pm_audio = Some '' 101/hi.wav ''\<rparr>"])
    (simp_all add: render_prompt_def js_string sublist_of_def safe_audio_file_def safe_char_def strip_slash_def)

text \<open>A pressed digit is followed by its own edge: on a menu whose option for the digit is
  wired to a node, the caller goes there and nothing else is played. Silence is not a default
  edge, though: with no digit the walk takes the first out-edge of the menu, also when that is
  the edge of a menu option.\<close>

theorem menu_follows_edges:
  assumes "edge_from (fl_edges fl) (gn_id node) None = Some ed" "ge_target ed \<noteq> []"
    "h_collect h (or_else (render_prompt (h_sounds h) (nd_prompt (gn_data node))) ''say:Please make a selection.'')
       \<lparr>co_valid = Some (if truthy (nd_valid_digits (gn_data node)) then the (nd_valid_digits (gn_data node))
          else concat (map mo_digit (or_else (nd_options (gn_data node)) []))),
        co_tries = or_else (nd_tries (gn_data node)) 2, co_wait_ms = or_else (nd_timeout_ms (gn_data node)) 7000,
        co_label = ''menu''\<rparr> e = (digit, e1)" "\<not> h_hung_up h e1"
  shows "(digit = [] \<longrightarrow> run_menu fl h node ld ds e =
      Goto (m_get (by_id fl) (ge_target ed)) ld ds
        (play_opt h (render_prompt (h_sounds h) (nd_invalid_prompt (gn_data node))) e1)) \<and>
    (digit \<noteq> [] \<and> truthy (resolve_menu_target (gn_data node) (fl_edges fl) (gn_id node) digit) \<longrightarrow>
      run_menu fl h node ld ds e =
      Goto (node_at fl (resolve_menu_target (gn_data node) (fl_edges fl) (gn_id node) digit)) digit (ds @ digit) e1)"
  using assms by (simp add: run_menu_def Let_def fallback_def)

theorem menu_follows_edges_witness:
  "let d = \<lparr>nd_kind = Some ''menu'', nd_greeting = None, nd_prompt = None, nd_valid_digits = None, nd_tries = None,
      nd_timeout_ms = None, nd_invalid_prompt = None, nd_options = Some [\<lparr>mo_id = ''o1'', mo_digit = ''1''\<rparr>],
      nd_variable = None, nd_operator = None, nd_value = None, nd_ignore_case = None, nd_department = None,
      nd_extension = None, nd_ring_seconds = None, nd_mailbox = None, nd_max_seconds = None, nd_connector = None,
      nd_to = None, nd_subject = None, nd_body = None, nd_join_type = None, nd_api_url = None, nd_method = None,
      nd_provider_prompt = None, nd_id_prompt = None, nd_providers = None\<rparr>;
     m = \<lparr>gn_id = ''m'', gn_type = None, gn_data = d\<rparr>; t = \<lparr>gn_id = ''t'', gn_type = Some ''transfer'', gn_data = d\<rparr>;
     fl = \<lparr>fl_id = [], fl_name = [], fl_extension = [], fl_enabled = True, fl_nodes = [m, t],
       fl_edges = [\<lparr>ge_source = ''m'', ge_target = ''t'', ge_handle = Some ''o1''\<rparr>]\<rparr>;
     h = \<lparr>h_play = (\<lambda>s e. e), h_collect = (\<lambda>s c e. ([], e)), h_voicemail = (\<lambda>m g x e. e),
       h_transfer = (\<lambda>t e. (True, e)), h_email = (\<lambda>m e. e), h_hung_up = (\<lambda>e. False),
       h_fetch = (\<lambda>u v e. (None, e)), h_hours = (\<lambda>e. 0), h_day = (\<lambda>e. 0), h_regex = (\<lambda>a b c. None),
       h_proto = (\<lambda>k. None), h_sounds = []\<rparr>
   in run_menu fl h m [] [] () = Goto (Some t) [] [] ()"
proof -
  define d where "d = \<lparr>nd_kind = Some ''menu'', nd_greeting = None, nd_prompt = None, nd_valid_digits = None, nd_tries = None,
      nd_timeout_ms = None, nd_invalid_prompt = None, nd_options = Some [\<lparr>mo_id = ''o1'', mo_digit = ''1''\<rparr>],
      nd_variable = None, nd_operator = None, nd_value = None, nd_ignore_case = None, nd_department = None,
      nd_extension = None, nd_ring_seconds = None, nd_mailbox = None, nd_max_seconds = None, nd_connector = None,
      nd_to = None, nd_subject = None, nd_body = None, nd_join_type = None, nd_api_url = None, nd_method = None,
      nd_provider_prompt = None, nd_id_prompt = None, nd_providers = None\<rparr>"
  define m where "m = \<lparr>gn_id = ''m'', gn_type = None, gn_data = d\<rparr>"
  define t where "t = \<lparr>gn_id = ''t'', gn_type = Some ''transfer'', gn_data = d\<rparr>"
  define fl where "fl = \<lparr>fl_id = [], fl_name = [], fl_extension = [], fl_enabled = True, fl_nodes = [m, t],
       fl_edges = [\<lparr>ge_source = ''m'', ge_target = ''t'', ge_handle = Some ''o1''\<rparr>]\<rparr>"
  define h where "h = \<lparr>h_play = (\<lambda>s (e::unit). e), h_collect = (\<lambda>s c e. ([], e)), h_voicemail = (\<lambda>m g x e. e),
       h_transfer = (\<lambda>t e. (True, e)), h_email = (\<lambda>m e. e), h_hung_up = (\<lambda>e. False),
       h_fetch = (\<lambda>u v e. (None, e)), h_hours = (\<lambda>e. 0), h_day = (\<lambda>e. 0), h_regex = (\<lambda>a b c. None),
       h_proto = (\<lambda>k. None), h_sounds = []\<rparr>"
  have "edge_from (fl_edges fl) (gn_id m) None = Some \<lparr>ge_source = ''m'', ge_target = ''t'', ge_handle = Some ''o1''\<rparr>"
    by (simp add: edge_from_def fl_def m_def)
  from menu_follows_edges [OF this, of h "()" "[]" "()" "[]" "[]"]
  have "run_menu fl h m [] [] () = Goto (Some t) [] [] ()"
    by (simp add: h_def play_opt_def by_id_def fl_def m_def t_def d_def render_prompt_def)
  then show ?thesis by (simp add: d_def m_def t_def fl_def h_def Let_def)
qed

end
