(* ===== verification/Schedule.thy ===== *)
theory Schedule
  imports Postgres "HOL-Library.Product_Lexorder"
begin

text \<open>
  The routing module, \<^verbatim>\<open>src/src/modules/routing\<close>: business hours with calendar
  exceptions, the users' availability windows, the policy snapshot, the decision engine, the
  orchestrator and the announcement texts. The tables are lists of rows behind the outcome
  of a query (\<open>Undefined_Table\<close> where the migration has not run, \<open>Query_Error\<close>
  where the statement failed); a thrown error is \<open>None\<close>. A \<^verbatim>\<open>Date\<close> is its local fields,
  which the platform computes from the process's time zone.
\<close>

record local_time =
  lt_year :: nat
  lt_month :: nat
  lt_date :: nat
  lt_day :: int
  lt_hours :: int
  lt_minutes :: int

section \<open>Entities\<close>

record availability_window =
  aw_extension :: string
  aw_day :: int
  aw_start :: int
  aw_end :: int
  aw_timezone :: string
  aw_enabled :: bool

record hours_window =
  hw_day :: int
  hw_start :: int
  hw_end :: int

record hours_exception =
  he_date :: string
  he_closed :: bool
  he_start :: "int option"
  he_end :: "int option"
  he_note :: "string option"

record hours_policy =
  hp_timezone :: string
  hp_enabled :: bool
  hp_windows :: "hours_window list"
  hp_exceptions :: "hours_exception list"

record routing_context =
  rc_call_id :: string
  rc_caller :: string
  rc_called :: string
  rc_extension :: "string option"
  rc_queue :: "string option"
  rc_prefer_queue :: bool

datatype decision_type =
  DtExtension | DtQueue | DtPstn | DtVoicemail | DtAnnouncement | DtReject

datatype unavailable_reason =
  OutsideCompanyHours | OutsideUserHours | UserDnd | UserOffline | AgentsBusy | NoAgentsOnline | UnknownReason

record routing_decision =
  rd_type :: decision_type
  rd_reason :: "unavailable_reason option"
  rd_extension :: "string option"
  rd_queue :: "string option"
  rd_announcement :: "string option"

section \<open>The tables and the repositories\<close>

record policy_row =
  pl_id :: int
  pl_timezone :: string
  pl_enabled :: bool

record exception_row =
  er_policy :: int
  er_date :: "nat \<times> nat \<times> nat"
  er_closed :: bool
  er_start :: "int option"
  er_end :: "int option"
  er_note :: "string option"

record profile_row =
  pf_extension :: string
  pf_dnd :: "bool option"
  pf_mobile :: "string option"

record user_profile =
  ux_extension :: string
  ux_dnd :: bool
  ux_mobile :: "string option"

record routing_tables =
  tb_availability :: "availability_window list query"
  tb_policies :: "policy_row list query"
  tb_windows :: "(int \<times> hours_window) list query"
  tb_exceptions :: "exception_row list query"
  tb_profiles :: "profile_row list query"
  tb_prompts :: "(string \<times> string) list query"
  tb_today :: "nat \<times> nat \<times> nat"

text \<open>A table the migration has not created answers with the empty default.\<close>

definition tolerant :: "'r \<Rightarrow> 'r query \<Rightarrow> 'r option" where
  "tolerant d q = (case q of Rows r \<Rightarrow> Some r | Undefined_Table \<Rightarrow> Some d | Query_Error \<Rightarrow> None)"

definition get_windows :: "routing_tables \<Rightarrow> string \<Rightarrow> availability_window list option" where
  "get_windows t extension =
     (if extension = [] then Some []
      else map_option (\<lambda>rows. sort_key (\<lambda>w. (aw_day w, aw_start w))
             (filter (\<lambda>w. aw_extension w = extension) rows)) (tolerant [] (tb_availability t)))"

definition pad2 :: "nat \<Rightarrow> string" where
  "pad2 n = (let s = show_nat n in replicate (2 - length s) CHR ''0'' @ s)"

definition pad4 :: "nat \<Rightarrow> string" where
  "pad4 n = (let s = show_nat n in replicate (4 - length s) CHR ''0'' @ s)"

definition to_char_date :: "nat \<times> nat \<times> nat \<Rightarrow> string" where
  "to_char_date d = (case d of (y, m, dd) \<Rightarrow> pad4 y @ ''-'' @ pad2 m @ ''-'' @ pad2 dd)"

definition row_to_exception :: "exception_row \<Rightarrow> hours_exception" where
  "row_to_exception e = \<lparr>he_date = to_char_date (er_date e), he_closed = er_closed e,
     he_start = er_start e, he_end = er_end e, he_note = er_note e\<rparr>"

text \<open>
  \<^verbatim>\<open>getPolicy\<close>: the policy of the least id with its windows and the exceptions from today
  on. A missing table in any of the three statements reads as no policy.
\<close>

definition get_policy :: "routing_tables \<Rightarrow> hours_policy option option" where
  "get_policy t =
     (case tb_policies t of
        Query_Error \<Rightarrow> None
      | Undefined_Table \<Rightarrow> Some None
      | Rows ps \<Rightarrow>
          (case sort_key pl_id ps of
             [] \<Rightarrow> Some None
           | p # _ \<Rightarrow>
               (case tb_windows t of
                  Query_Error \<Rightarrow> None
                | Undefined_Table \<Rightarrow> Some None
                | Rows ws \<Rightarrow>
                    (case tb_exceptions t of
                       Query_Error \<Rightarrow> None
                     | Undefined_Table \<Rightarrow> Some None
                     | Rows es \<Rightarrow> Some (Some \<lparr>
                         hp_timezone = pl_timezone p, hp_enabled = pl_enabled p,
                         hp_windows = sort_key (\<lambda>w. (hw_day w, hw_start w))
                           (map snd (filter (\<lambda>w. fst w = pl_id p) ws)),
                         hp_exceptions = map row_to_exception (sort_key er_date
                           (filter (\<lambda>e. er_policy e = pl_id p \<and> tb_today t \<le> er_date e) es))\<rparr>)))))"

text \<open>\<^verbatim>\<open>getByExtension\<close> of the profiles has no guard for a missing table.\<close>

definition get_profile :: "routing_tables \<Rightarrow> string \<Rightarrow> user_profile option option" where
  "get_profile t extension =
     (if extension = [] then Some None
      else case tb_profiles t of
        Rows rows \<Rightarrow> Some (map_option
          (\<lambda>r. \<lparr>ux_extension = pf_extension r, ux_dnd = or_else (pf_dnd r) False, ux_mobile = pf_mobile r\<rparr>)
          (List.find (\<lambda>r. pf_extension r = extension) rows))
      | _ \<Rightarrow> None)"

definition get_overrides :: "routing_tables \<Rightarrow> (string, string) js_map option" where
  "get_overrides t =
     map_option (foldl (\<lambda>m (k, text). if trim text \<noteq> [] then m_set k (trim text) m else m) [])
       (tolerant [] (tb_prompts t))"

section \<open>Hours\<close>

definition minute_of :: "local_time \<Rightarrow> int" where
  "minute_of now = lt_hours now * 60 + lt_minutes now"

definition is_within_user_hours :: "routing_tables \<Rightarrow> string \<Rightarrow> local_time \<Rightarrow> bool option" where
  "is_within_user_hours t extension now =
     map_option
       (\<lambda>windows. windows = [] \<or>
          list_ex (\<lambda>w. aw_enabled w \<and> aw_day w = lt_day now \<and>
                       aw_start w \<le> minute_of now \<and> minute_of now < aw_end w) windows)
       (get_windows t extension)"

definition local_date_key :: "local_time \<Rightarrow> string" where
  "local_date_key d = show_nat (lt_year d) @ ''-'' @ pad2 (lt_month d + 1) @ ''-'' @ pad2 (lt_date d)"

definition policy_open :: "hours_policy \<Rightarrow> local_time \<Rightarrow> bool" where
  "policy_open p now =
     (case List.find (\<lambda>e. he_date e = local_date_key now) (hp_exceptions p) of
        Some e \<Rightarrow>
          (if he_closed e then False
           else case (he_start e, he_end e) of
             (Some s, Some t) \<Rightarrow> s \<le> minute_of now \<and> minute_of now < t
           | _ \<Rightarrow> False)
      | None \<Rightarrow>
          list_ex (\<lambda>w. hw_day w = lt_day now \<and> hw_start w \<le> minute_of now \<and> minute_of now < hw_end w)
            (hp_windows p))"

definition is_open :: "routing_tables \<Rightarrow> local_time \<Rightarrow> bool option" where
  "is_open t now =
     map_option (\<lambda>policy. case policy of None \<Rightarrow> True | Some p \<Rightarrow> \<not> hp_enabled p \<or> policy_open p now)
       (get_policy t)"

section \<open>Snapshot, decision, orchestrator\<close>

record policy_snapshot =
  ps_company_open :: bool
  ps_within_hours :: bool
  ps_online :: bool
  ps_dnd :: bool

text \<open>\<^verbatim>\<open>DatabasePresenceProvider\<close>: the empty extension is never online.\<close>

definition presence_online :: "(string \<Rightarrow> bool) \<Rightarrow> string \<Rightarrow> bool" where
  "presence_online registered extension \<longleftrightarrow> extension \<noteq> [] \<and> registered extension"

definition take_snapshot ::
  "routing_tables \<Rightarrow> (string \<Rightarrow> bool) \<Rightarrow> string \<Rightarrow> local_time \<Rightarrow> bool \<Rightarrow> policy_snapshot option" where
  "take_snapshot t registered extension now dnd =
     (case (is_open t now, is_within_user_hours t extension now) of
        (Some company, Some inside) \<Rightarrow> Some
          \<lparr>ps_company_open = company, ps_within_hours = inside,
           ps_online = presence_online registered extension, ps_dnd = dnd\<rparr>
      | _ \<Rightarrow> None)"

definition decision ::
  "decision_type \<Rightarrow> unavailable_reason option \<Rightarrow> string option \<Rightarrow> string option \<Rightarrow> string option \<Rightarrow> routing_decision" where
  "decision ty r e q a =
     \<lparr>rd_type = ty, rd_reason = r, rd_extension = e, rd_queue = q, rd_announcement = a\<rparr>"

definition decide :: "routing_context \<Rightarrow> policy_snapshot \<Rightarrow> routing_decision" where
  "decide ctx p =
     (if \<not> ps_company_open p then
        decision DtAnnouncement (Some OutsideCompanyHours) None None (Some ''company_closed'')
      else if \<not> ps_within_hours p then
        decision DtAnnouncement (Some OutsideUserHours) None None (Some ''user_unavailable_by_schedule'')
      else if ps_dnd p then decision DtVoicemail (Some UserDnd) None None None
      else if ps_online p then decision DtExtension None (rc_extension ctx) None None
      else if rc_prefer_queue ctx \<and> truthy (rc_queue ctx) then
        decision DtQueue (Some UserOffline) None (rc_queue ctx) None
      else decision DtVoicemail (Some UserOffline) None None None)"

definition evaluate ::
  "routing_tables \<Rightarrow> (string \<Rightarrow> bool) \<Rightarrow> local_time \<Rightarrow> routing_context \<Rightarrow> routing_decision option" where
  "evaluate t registered now ctx =
     (let extension = str_or (rc_extension ctx) []
      in case get_profile t extension of
           None \<Rightarrow> None
         | Some user \<Rightarrow>
             map_option (decide ctx)
               (take_snapshot t registered extension now
                  (case user of None \<Rightarrow> False | Some u \<Rightarrow> ux_dnd u)))"

section \<open>Announcements\<close>

definition announcement_prompts :: "(string \<times> string) list" where
  "announcement_prompts =
    [(''company_closed'', ''say:Our company is currently closed. Please call us during business hours.''),
     (''user_unavailable_by_schedule'', ''say:The person you are trying to reach is currently unavailable. Please try again later.''),
     (''user_unreachable'', ''say:The person you are trying to reach is unavailable. Please leave a message after the beep.''),
     (''all_agents_busy'', ''say:All of our agents are currently busy. Please hold, or try again later.''),
     (''no_agents_online'', ''say:No agents are currently online. Please call back during working hours.'')]"

definition strip_say :: "string \<Rightarrow> string" where
  "strip_say s = (if prefix ''say:'' s then drop 4 s else s)"

definition announcement_text :: "string option \<Rightarrow> string option" where
  "announcement_text key =
     (if \<not> truthy key then None else map_option strip_say (map_of announcement_prompts (the key)))"

definition announcement :: "routing_tables option \<Rightarrow> string option \<Rightarrow> string option" where
  "announcement prompts key =
     (if \<not> truthy key then None
      else case (case prompts of None \<Rightarrow> None | Some t \<Rightarrow> get_overrides t) of
        Some m \<Rightarrow> (case m_get m (the key) of
            Some text \<Rightarrow> if trim text \<noteq> [] then Some (trim text) else announcement_text key
          | None \<Rightarrow> announcement_text key)
      | None \<Rightarrow> announcement_text key)"

section \<open>Lemmas\<close>

lemma decision_simps [simp]:
  "rd_type (decision ty r e q a) = ty" "rd_reason (decision ty r e q a) = r"
  "rd_announcement (decision ty r e q a) = a"
  by (simp_all add: decision_def)

lemma decide_announces:
  "rd_type (decide ctx p) = DtAnnouncement \<longleftrightarrow> \<not> ps_company_open p \<or> \<not> ps_within_hours p"
  by (simp add: decide_def)

lemma evaluateE:
  assumes "evaluate t reg now ctx = Some d"
  obtains user company inside where
    "get_profile t (str_or (rc_extension ctx) []) = Some user"
    "is_open t now = Some company"
    "is_within_user_hours t (str_or (rc_extension ctx) []) now = Some inside"
    "d = decide ctx \<lparr>ps_company_open = company, ps_within_hours = inside,
           ps_online = presence_online reg (str_or (rc_extension ctx) []),
           ps_dnd = (case user of None \<Rightarrow> False | Some u \<Rightarrow> ux_dnd u)\<rparr>"
  using assms by (auto simp: evaluate_def take_snapshot_def Let_def split: option.splits)

lemma find_unique:
  "distinct (map f xs) \<Longrightarrow> x \<in> set xs \<Longrightarrow> List.find (\<lambda>y. f y = f x) xs = Some x"
  by (induction xs) (auto simp: image_iff)

section \<open>Properties\<close>

text \<open>The schedule gate: a call is answered by a closing announcement exactly when the company
  is closed or the callee is outside their hours, the company's closing is announced first,
  and every announcement decided on has a text to speak.\<close>

theorem schedule_gate:
  assumes "evaluate t registered now ctx = Some d"
  shows "(rd_type d = DtAnnouncement \<longleftrightarrow> is_open t now = Some False \<or>
      is_within_user_hours t (str_or (rc_extension ctx) []) now = Some False) \<and>
    (rd_reason d = Some OutsideCompanyHours \<longleftrightarrow> is_open t now = Some False) \<and>
    (rd_type d = DtAnnouncement \<longrightarrow> announcement tp (rd_announcement d) \<noteq> None)"
proof -
  obtain user company inside where "get_profile t (str_or (rc_extension ctx) []) = Some user"
    and o: "is_open t now = Some company" "is_within_user_hours t (str_or (rc_extension ctx) []) now = Some inside"
    and d: "d = decide ctx \<lparr>ps_company_open = company, ps_within_hours = inside,
           ps_online = presence_online registered (str_or (rc_extension ctx) []),
           ps_dnd = (case user of None \<Rightarrow> False | Some u \<Rightarrow> ux_dnd u)\<rparr>"
    using assms by (rule evaluateE)
  have "rd_type d = DtAnnouncement \<Longrightarrow>
      rd_announcement d \<in> {Some ''company_closed'', Some ''user_unavailable_by_schedule''}"
    by (auto simp: d decide_def split: if_splits)
  moreover have "announcement tp k \<noteq> None"
    if "k \<in> {Some ''company_closed'', Some ''user_unavailable_by_schedule''}" for k
    using that by (auto simp: announcement_def announcement_text_def announcement_prompts_def
        split: option.splits)
  ultimately show ?thesis
    using o by (auto simp: d decide_def)
qed

definition christmas :: local_time where
  "christmas = \<lparr>lt_year = 2025, lt_month = 11, lt_date = 25, lt_day = 4, lt_hours = 10, lt_minutes = 30\<rparr>"

definition office :: routing_tables where
  "office = \<lparr>tb_availability = Undefined_Table,
     tb_policies = Rows [\<lparr>pl_id = 1, pl_timezone = ''Asia/Kolkata'', pl_enabled = True\<rparr>],
     tb_windows = Rows [(1, \<lparr>hw_day = 4, hw_start = 540, hw_end = 1080\<rparr>)],
     tb_exceptions = Rows [\<lparr>er_policy = 1, er_date = (2025, 12, 25), er_closed = True, er_start = None,
        er_end = None, er_note = None\<rparr>],
     tb_profiles = Rows [], tb_prompts = Undefined_Table, tb_today = (2025, 12, 25)\<rparr>"

definition plain_call :: routing_context where
  "plain_call = \<lparr>rc_call_id = ''c'', rc_caller = ''1001'', rc_called = ''1002'', rc_extension = Some ''1002'',
     rc_queue = None, rc_prefer_queue = False\<rparr>"

theorem schedule_gate_witness:
  "is_open office christmas = Some False \<and>
   map_option rd_reason (evaluate office (\<lambda>_. True) christmas plain_call) = Some (Some OutsideCompanyHours)"
proof -
  have "evaluate office (\<lambda>_. True) christmas plain_call =
      Some (decision DtAnnouncement (Some OutsideCompanyHours) None None (Some ''company_closed''))"
    by code_simp
  from this schedule_gate [OF this, of None] show ?thesis by simp
qed

text \<open>No schedule, no gate: with the schedule tables missing or empty for the callee no call
  is ever announced away, so a deployment that never set a schedule routes as before.\<close>

theorem no_schedule_no_gate:
  assumes "evaluate t registered now ctx = Some d"
    and "tb_policies t \<in> {Undefined_Table, Rows []}"
    and "tb_availability t = Undefined_Table \<or>
      (\<exists>rows. tb_availability t = Rows rows \<and> (\<forall>w\<in>set rows. rc_extension ctx \<noteq> Some (aw_extension w)))"
  shows "rd_type d \<noteq> DtAnnouncement"
proof -
  let ?e = "str_or (rc_extension ctx) []"
  have "is_open t now = Some True"
    using assms(2) by (auto simp: is_open_def get_policy_def)
  moreover have f: "filter (\<lambda>w. aw_extension w = ?e) rows = []"
    if "?e \<noteq> []" "\<forall>w\<in>set rows. rc_extension ctx \<noteq> Some (aw_extension w)" for rows
    using that by (auto simp: filter_empty_conv str_or_def truthy_def split: option.splits if_splits)
  have none: "sort_key k (filter (\<lambda>w. aw_extension w = ?e) rows) = []"
    if "?e \<noteq> []" "\<forall>w\<in>set rows. rc_extension ctx \<noteq> Some (aw_extension w)" for rows and k :: "_ \<Rightarrow> int \<times> int"
    by (simp only: f [OF that] sort_key_simps)
  have "get_windows t ?e = Some []"
    using assms(3) none by (auto simp: get_windows_def tolerant_def)
  then have "is_within_user_hours t ?e now = Some True"
    by (simp add: is_within_user_hours_def)
  ultimately show ?thesis
    using assms(1) by (auto elim!: evaluateE simp: decide_announces)
qed

theorem no_schedule_no_gate_witness:
  "map_option rd_type (evaluate (office\<lparr>tb_policies := Undefined_Table\<rparr>) (\<lambda>_. True) christmas plain_call)
     \<noteq> Some DtAnnouncement"
proof -
  have e: "evaluate (office\<lparr>tb_policies := Undefined_Table\<rparr>) (\<lambda>_. True) christmas plain_call =
      Some (decision DtExtension None (Some ''1002'') None None)"
    by code_simp
  have "rd_type (decision DtExtension None (Some ''1002'') None None) \<noteq> DtAnnouncement"
    by (rule no_schedule_no_gate [OF e]) (simp_all add: office_def)
  then show ?thesis by (simp only: e option.map option.inject not_False_eq_True simp_thms)
qed

text \<open>A calendar exception overrides the week: on the date of an exception (dates are unique)
  the company is closed if the exception says so or gives no hours, and else open exactly in
  the exception's hours, whatever the weekly windows.\<close>

theorem exception_overrides_week:
  assumes "e \<in> set (hp_exceptions p)" "distinct (map he_date (hp_exceptions p))"
    and "he_date e = local_date_key now"
  shows "policy_open p now \<longleftrightarrow> \<not> he_closed e \<and>
    (\<exists>s f. he_start e = Some s \<and> he_end e = Some f \<and> s \<le> minute_of now \<and> minute_of now < f)"
proof -
  have "List.find (\<lambda>x. he_date x = local_date_key now) (hp_exceptions p) = Some e"
    using find_unique [OF assms(2,1)] assms(3) by simp
  then show ?thesis
    by (auto simp: policy_open_def split: option.splits)
qed

theorem exception_overrides_week_witness:
  "\<not> policy_open (the (the (get_policy office))) christmas"
proof -
  define e where "e = \<lparr>he_date = ''2025-12-25'', he_closed = True, he_start = None, he_end = None, he_note = None\<rparr>"
  have x: "hp_exceptions (the (the (get_policy office))) = [e]"
    unfolding e_def by code_simp
  have "local_date_key christmas = ''2025-12-25''" by code_simp
  then show ?thesis
    using exception_overrides_week [of e "the (the (get_policy office))" christmas] by (simp add: x e_def)
qed

definition rezone :: "(string \<Rightarrow> string) \<Rightarrow> routing_tables \<Rightarrow> routing_tables" where
  "rezone z t = t\<lparr>
     tb_policies := (case tb_policies t of
        Rows ps \<Rightarrow> Rows (map (\<lambda>p. p\<lparr>pl_timezone := z (pl_timezone p)\<rparr>) ps) | q \<Rightarrow> q),
     tb_availability := (case tb_availability t of
        Rows ws \<Rightarrow> Rows (map (\<lambda>w. w\<lparr>aw_timezone := z (aw_timezone w)\<rparr>) ws) | q \<Rightarrow> q)\<rparr>"

lemma insort_key_map: "insort_key f (g x) (map g xs) = map g (insort_key (\<lambda>y. f (g y)) x xs)"
  by (induction xs) auto

lemma sort_key_map: "sort_key f (map g xs) = map g (sort_key (\<lambda>y. f (g y)) xs)"
  by (induction xs) (simp_all add: insort_key_map)

lemma rezone_frame [simp]:
  "tb_windows (rezone z t) = tb_windows t" "tb_exceptions (rezone z t) = tb_exceptions t"
  "tb_profiles (rezone z t) = tb_profiles t" "tb_today (rezone z t) = tb_today t"
  by (simp_all add: rezone_def)

lemma rezone_profile: "get_profile (rezone z t) e = get_profile t e"
  by (simp only: get_profile_def rezone_frame)

lemma rezone_windows:
  "is_within_user_hours (rezone z t) e now = is_within_user_hours t e now"
  by (auto simp: is_within_user_hours_def get_windows_def tolerant_def rezone_def filter_map o_def
      sort_key_map list_ex_iff split: query.splits)

lemma rezone_open: "is_open (rezone z t) now = is_open t now"
  by (auto simp: is_open_def get_policy_def rezone_def sort_key_map policy_open_def
      split: query.splits list.splits option.splits)

text \<open>The stored time zones are never read: the decision is the same whatever time zone the
  policy and the windows name, so hours meant for another zone are judged by the process's
  local clock.\<close>

theorem timezone_ignored: "evaluate (rezone z t) registered now ctx = evaluate t registered now ctx"
  by (simp add: evaluate_def take_snapshot_def rezone_windows rezone_open rezone_profile Let_def split: option.split)

end
