(* ===== verification/Registration.thy ===== *)
theory Registration
  imports Core_Types
begin

text \<open>
  The registration store, \<^verbatim>\<open>src/src/services/registration\<close>: the interface
  \<^verbatim>\<open>RegistrationStore\<close> as a locale, the in-memory store with its expiry timers
  and the store kept in a Redis-protocol server. A timer is the instant at which its callback
  runs; \<open>ms_advance\<close> runs the callbacks that are due. The Redis client and the
  JSON codec are parameters.
\<close>

section \<open>The interface\<close>

locale registration_store = keyed_store get register unregister
  for get :: "'m \<Rightarrow> string \<Rightarrow> sip_registration option"
    and register :: "string \<Rightarrow> sip_registration \<Rightarrow> 'm \<Rightarrow> 'm"
    and unregister :: "string \<Rightarrow> 'm \<Rightarrow> 'm" +
  fixes has :: "'m \<Rightarrow> string \<Rightarrow> bool"
    and get_all :: "'m \<Rightarrow> (string \<times> sip_registration) list"
    and close_store :: "'m \<Rightarrow> 'm"
  assumes has_get: "has m e \<longleftrightarrow> get m e \<noteq> None"
    and get_all_get: "map_of (get_all m) = get m"
    and get_close: "get (close_store m) e = None"
begin

lemma registered_after: "has (register e d m) j \<longleftrightarrow> j = e \<or> has m j"
  by (simp add: has_get get_put)

lemma unregistered_after: "has (unregister e m) j \<longleftrightarrow> j \<noteq> e \<and> has m j"
  by (simp add: has_get get_del)

lemma listed_iff: "e \<in> fst ` set (get_all m) \<longleftrightarrow> has m e"
proof -
  have "e \<in> fst ` set (get_all m) \<longleftrightarrow> map_of (get_all m) e \<noteq> None"
    by (simp add: map_of_eq_None_iff)
  then show ?thesis by (simp add: get_all_get has_get)
qed

lemma renew_replaces: "get (register e d (register e d' m)) j = get (register e d m) j"
  by (rule put_overwrites)

lemma closed_is_empty: "\<not> has (close_store m) e"
  by (simp add: has_get get_close)

end

section \<open>The in-memory store\<close>

record memory_store =
  ms_store :: "(string, sip_registration) js_map"
  ms_timers :: "(string, int) js_map"

definition empty_store :: memory_store where
  "empty_store = \<lparr>ms_store = [], ms_timers = []\<rparr>"

text \<open>
  \<^verbatim>\<open>setTimeout\<close>: a delay that is not a number, below one or above the largest signed
  32-bit integer is one millisecond.
\<close>

definition timer_delay :: "int option \<Rightarrow> int" where
  "timer_delay ms = (case ms of None \<Rightarrow> 1 | Some d \<Rightarrow> if 1 \<le> d \<and> d \<le> 2147483647 then d else 1)"

definition expiry_delay :: "sip_registration \<Rightarrow> int" where
  "expiry_delay d = timer_delay (map_option (\<lambda>s. s * 1000) (rg_expires d))"

definition ms_register :: "int \<Rightarrow> string \<Rightarrow> sip_registration \<Rightarrow> memory_store \<Rightarrow> memory_store" where
  "ms_register now e d st = \<lparr>ms_store = m_set e d (ms_store st),
     ms_timers = m_set e (now + expiry_delay d) (ms_timers st)\<rparr>"

definition ms_unregister :: "string \<Rightarrow> memory_store \<Rightarrow> memory_store" where
  "ms_unregister e st = \<lparr>ms_store = m_del e (ms_store st), ms_timers = m_del e (ms_timers st)\<rparr>"

definition ms_get :: "memory_store \<Rightarrow> string \<Rightarrow> sip_registration option" where
  "ms_get st e = m_get (ms_store st) e"

definition ms_has :: "memory_store \<Rightarrow> string \<Rightarrow> bool" where
  "ms_has st e = m_has (ms_store st) e"

definition ms_get_all :: "memory_store \<Rightarrow> (string \<times> sip_registration) list" where
  "ms_get_all st = ms_store st"

definition ms_close :: "memory_store \<Rightarrow> memory_store" where
  "ms_close st = empty_store"

text \<open>The callbacks due at an instant: each deletes its extension from both maps.\<close>

definition due :: "int \<Rightarrow> memory_store \<Rightarrow> string list" where
  "due now st = map fst (filter (\<lambda>(e, t). t \<le> now) (ms_timers st))"

definition ms_advance :: "int \<Rightarrow> memory_store \<Rightarrow> memory_store" where
  "ms_advance now st = foldl (\<lambda>s e. ms_unregister e s) st (due now st)"

interpretation memory: registration_store ms_get "ms_register now" ms_unregister ms_has ms_get_all ms_close
  for now
  by unfold_locales
    (auto simp: fun_eq_iff ms_get_def ms_register_def ms_unregister_def ms_has_def ms_get_all_def ms_close_def
      empty_store_def js.get_put js.get_del m_has_def)

section \<open>The Redis store\<close>

text \<open>
  The client commands the store uses; a write answers \<open>None\<close> where the server refuses it.
\<close>

record 'r redis_client =
  rc_get :: "'r \<Rightarrow> string \<Rightarrow> string option"
  rc_set_ex :: "string \<Rightarrow> string \<Rightarrow> int option \<Rightarrow> 'r \<Rightarrow> 'r option"
  rc_del :: "string \<Rightarrow> 'r \<Rightarrow> 'r"
  rc_keys :: "string \<Rightarrow> 'r \<Rightarrow> string list"

record json_codec =
  jc_stringify :: "sip_registration \<Rightarrow> string"
  jc_parse :: "string \<Rightarrow> sip_registration"

definition reg_prefix :: string where
  "reg_prefix = ''sip:reg:''"

definition rs_register ::
  "'r redis_client \<Rightarrow> json_codec \<Rightarrow> string \<Rightarrow> sip_registration \<Rightarrow> 'r \<Rightarrow> 'r option" where
  "rs_register c j e d r = rc_set_ex c (reg_prefix @ e) (jc_stringify j d) (rg_expires d) r"

definition rs_unregister :: "'r redis_client \<Rightarrow> string \<Rightarrow> 'r \<Rightarrow> 'r" where
  "rs_unregister c e r = rc_del c (reg_prefix @ e) r"

definition rs_get :: "'r redis_client \<Rightarrow> json_codec \<Rightarrow> 'r \<Rightarrow> string \<Rightarrow> sip_registration option" where
  "rs_get c j r e = (case rc_get c r (reg_prefix @ e) of
       None \<Rightarrow> None
     | Some raw \<Rightarrow> if raw = [] then None else Some (jc_parse j raw))"

definition rs_has :: "'r redis_client \<Rightarrow> 'r \<Rightarrow> string \<Rightarrow> bool" where
  "rs_has c r e \<longleftrightarrow> rc_get c r (reg_prefix @ e) \<noteq> None"

definition rs_get_all :: "'r redis_client \<Rightarrow> json_codec \<Rightarrow> 'r \<Rightarrow> (string, sip_registration) js_map" where
  "rs_get_all c j r =
     foldl (\<lambda>m key. case rc_get c r key of
         None \<Rightarrow> m
       | Some raw \<Rightarrow> if raw = [] then m else m_set (drop (length reg_prefix) key) (jc_parse j raw) m)
       [] (rc_keys c (reg_prefix @ ''*'') r)"

section \<open>Lemmas on the timers\<close>

definition store_ok :: "memory_store \<Rightarrow> bool" where
  "store_ok st \<longleftrightarrow> m_ok (ms_store st) \<and> m_ok (ms_timers st) \<and> dom (map_of (ms_store st)) = dom (map_of (ms_timers st))"

lemma store_ok_empty: "store_ok empty_store"
  by (simp add: store_ok_def empty_store_def)

lemma store_ok_register: "store_ok st \<Longrightarrow> store_ok (ms_register now e d st)"
  by (simp add: store_ok_def ms_register_def update_conv')

lemma store_ok_unregister: "store_ok st \<Longrightarrow> store_ok (ms_unregister e st)"
  by (simp add: store_ok_def ms_unregister_def delete_conv')

lemma store_ok_unregister_all: "store_ok st \<Longrightarrow> store_ok (foldl (\<lambda>s e. ms_unregister e s) st es)"
  by (induction es arbitrary: st) (simp_all add: store_ok_unregister)

lemma store_ok_advance: "store_ok st \<Longrightarrow> store_ok (ms_advance now st)"
  by (simp add: ms_advance_def store_ok_unregister_all)

lemma unregister_view:
  "m_get (ms_store (ms_unregister e st)) j = (if j = e then None else m_get (ms_store st) j)"
  "m_get (ms_timers (ms_unregister e st)) j = (if j = e then None else m_get (ms_timers st) j)"
  by (simp_all add: ms_unregister_def js.get_del)

lemma unregister_all_view:
  "m_get (ms_store (foldl (\<lambda>s e. ms_unregister e s) st es)) e =
     (if e \<in> set es then None else m_get (ms_store st) e)"
  "m_get (ms_timers (foldl (\<lambda>s e. ms_unregister e s) st es)) e =
     (if e \<in> set es then None else m_get (ms_timers st) e)"
  by (induction es arbitrary: st) (auto simp: ms_unregister_def js.get_del)

lemma due_iff: "store_ok st \<Longrightarrow> e \<in> set (due now st) \<longleftrightarrow> (\<exists>t. m_get (ms_timers st) e = Some t \<and> t \<le> now)"
  by (force simp: store_ok_def due_def m_get_iff)

datatype reg_op = RegisterAt int string sip_registration | UnregisterAt string | TimersUntil int

fun reg_step :: "reg_op \<Rightarrow> memory_store \<Rightarrow> memory_store" where
  "reg_step (RegisterAt now e d) st = ms_register now e d st"
| "reg_step (UnregisterAt e) st = ms_unregister e st"
| "reg_step (TimersUntil now) st = ms_advance now st"

fun touches :: "string \<Rightarrow> reg_op \<Rightarrow> bool" where
  "touches e (RegisterAt _ j _) \<longleftrightarrow> j = e"
| "touches e (UnregisterAt j) \<longleftrightarrow> j = e"
| "touches e (TimersUntil _) \<longleftrightarrow> False"

definition reg_run :: "reg_op list \<Rightarrow> memory_store \<Rightarrow> memory_store" where
  "reg_run ops st = fold reg_step ops st"

lemma store_ok_step: "store_ok st \<Longrightarrow> store_ok (reg_step op st)"
  by (cases op) (simp_all add: store_ok_register store_ok_unregister store_ok_advance)

definition entry :: "memory_store \<Rightarrow> string \<Rightarrow> (sip_registration option \<times> int option)" where
  "entry st e = (m_get (ms_store st) e, m_get (ms_timers st) e)"

lemma entry_step:
  assumes "store_ok st" "\<not> touches e op"
  shows "entry (reg_step op st) e =
    (case op of
       TimersUntil now \<Rightarrow>
         (case snd (entry st e) of
            Some t \<Rightarrow> if t \<le> now then (None, None) else entry st e
          | None \<Rightarrow> entry st e)
     | _ \<Rightarrow> entry st e)"
  using assms
  by (cases op)
    (auto simp: entry_def ms_register_def unregister_view ms_advance_def js.get_put
      unregister_all_view due_iff split: option.splits)

lemma entry_gone:
  assumes "store_ok st" "\<forall>op\<in>set ops. \<not> touches e op" "entry st e = (None, None)"
  shows "entry (reg_run ops st) e = (None, None)"
  using assms
proof (induction ops arbitrary: st)
  case (Cons op ops)
  then have "entry (reg_step op st) e = (None, None)"
    by (simp add: entry_step split: reg_op.splits)
  with Cons show ?case by (simp add: reg_run_def store_ok_step)
qed (simp add: reg_run_def)

lemma entry_run:
  assumes "store_ok st" "\<forall>op\<in>set ops. \<not> touches e op" "entry st e = (Some d, Some t)"
  shows "fst (entry (reg_run ops st) e) = (if \<exists>now\<ge>t. TimersUntil now \<in> set ops then None else Some d)"
  using assms
proof (induction ops arbitrary: st)
  case (Cons op ops)
  have ok: "store_ok (reg_step op st)" using Cons.prems(1) by (rule store_ok_step)
  have run: "reg_run (op # ops) st = reg_run ops (reg_step op st)" by (simp add: reg_run_def)
  show ?case
  proof (cases "\<exists>now\<ge>t. op = TimersUntil now")
    case True
    then have "entry (reg_step op st) e = (None, None)"
      using Cons.prems by (auto simp: entry_step)
    from entry_gone [OF ok _ this] show ?thesis
      using Cons.prems True by (auto simp: run)
  next
    case False
    then have "entry (reg_step op st) e = (Some d, Some t)"
      using Cons.prems by (auto simp: entry_step split: reg_op.splits)
    from Cons.IH [OF ok _ this] show ?thesis
      using Cons.prems False by (auto simp: run)
  qed
qed (simp add: reg_run_def entry_def)

section \<open>Properties\<close>

text \<open>A registration lives for its announced seconds: whatever the store does for other
  extensions afterwards, the registration is found until the timers have run up to its
  expiry, and not after (for an expiry the platform's timers can hold).\<close>

theorem registration_lifetime:
  assumes "store_ok st" "rg_expires d = Some s" "1 \<le> s" "s \<le> 2147483"
    and "\<forall>op\<in>set ops. \<not> touches e op"
  shows "ms_get (reg_run ops (ms_register t0 e d st)) e =
    (if \<exists>now\<ge>t0 + s * 1000. TimersUntil now \<in> set ops then None else Some d)"
proof -
  have "entry (ms_register t0 e d st) e = (Some d, Some (t0 + s * 1000))"
    using assms(2,3,4) by (simp add: entry_def ms_register_def expiry_delay_def timer_delay_def)
  from entry_run [OF store_ok_register [OF assms(1)] assms(5) this]
  show ?thesis by (simp add: entry_def ms_get_def)
qed

definition sample_reg :: "int option \<Rightarrow> sip_registration" where
  "sample_reg s = \<lparr>rg_contact = ''<sip:1001@10.0.0.5>'', rg_expires = s, rg_ua = None, rg_source = None\<rparr>"

theorem registration_lifetime_witness:
  "ms_get (reg_run [RegisterAt 5 ''1002'' (sample_reg (Some 9)), TimersUntil 59999]
     (ms_register 0 ''1001'' (sample_reg (Some 60)) empty_store)) ''1001'' = Some (sample_reg (Some 60)) \<and>
   ms_get (reg_run [TimersUntil 60000] (ms_register 0 ''1001'' (sample_reg (Some 60)) empty_store)) ''1001'' = None"
  using registration_lifetime [OF store_ok_empty, of "sample_reg (Some 60)" 60
      "[RegisterAt 5 ''1002'' (sample_reg (Some 9)), TimersUntil 59999]" "''1001''" 0]
    registration_lifetime [OF store_ok_empty, of "sample_reg (Some 60)" 60 "[TimersUntil 60000]" "''1001''" 0]
  by (simp add: sample_reg_def)

text \<open>A long registration is lost at once: an announced expiry of more than 2147483 seconds
  overflows the timer, which then fires after a millisecond and drops the registration.\<close>

theorem long_registration_lost:
  assumes "store_ok st" "rg_expires d = Some s" "2147483 < s"
  shows "ms_get (ms_advance (t0 + 1) (ms_register t0 e d st)) e = None"
proof -
  have "entry (ms_register t0 e d st) e = (Some d, Some (t0 + 1))"
    using assms(2,3) by (simp add: entry_def ms_register_def expiry_delay_def timer_delay_def)
  from entry_step [OF store_ok_register [OF assms(1)], of e "TimersUntil (t0 + 1)" t0 e d] this
  show ?thesis by (simp add: entry_def ms_get_def)
qed

theorem long_registration_lost_witness:
  "ms_get (ms_advance 1 (ms_register 0 ''1001'' (sample_reg (Some 4294967295)) empty_store)) ''1001'' = None"
  using long_registration_lost [OF store_ok_empty, of "sample_reg (Some 4294967295)" 4294967295 0 "''1001''"]
  by (simp add: sample_reg_def)

lemma rs_get_all_fold:
  "\<forall>k\<in>set ks. prefix reg_prefix k \<Longrightarrow>
   map_of (foldl (\<lambda>m key. case rc_get c r key of
         None \<Rightarrow> m
       | Some raw \<Rightarrow> if raw = [] then m else m_set (drop (length reg_prefix) key) (jc_parse j raw) m) m ks) e =
   (if reg_prefix @ e \<in> set ks \<and> rs_get c j r e \<noteq> None then rs_get c j r e else map_of m e)"
proof (induction ks arbitrary: m)
  case (Cons k ks)
  then obtain e' where k: "k = reg_prefix @ e'" by (auto simp: prefix_def)
  with Cons show ?case
    by (auto simp: rs_get_def js.get_put split: option.splits)
qed simp

text \<open>The Redis store keeps the contract of the in-memory store: with a server whose writes with
  a positive expiry succeed and are read back, whose deletions remove and whose key listing
  is exact, and a codec that reads back the registration, a registered extension is found
  and listed with its data, the others are untouched, and unregistering removes it.\<close>

theorem redis_store_contract:
  assumes set_ok: "\<And>k v n r. 0 < n \<Longrightarrow> \<exists>r'. rc_set_ex c k v (Some n) r = Some r' \<and>
      (\<forall>k'. rc_get c r' k' = (if k' = k then Some v else rc_get c r k'))"
    and del_ok: "\<And>k r k'. rc_get c (rc_del c k r) k' = (if k' = k then None else rc_get c r k')"
    and keys_ok: "\<And>r. set (rc_keys c (reg_prefix @ ''*'') r) = {k. prefix reg_prefix k \<and> rc_get c r k \<noteq> None}"
    and codec: "jc_parse j (jc_stringify j d) = d" "jc_stringify j d \<noteq> []"
    and n: "rg_expires d = Some n" "0 < n"
  shows "\<exists>r'. rs_register c j e d r = Some r' \<and> rs_get c j r' e = Some d \<and> rs_has c r' e \<and>
    m_get (rs_get_all c j r') e = Some d \<and>
    (\<forall>e'. e' \<noteq> e \<longrightarrow> rs_get c j r' e' = rs_get c j r e') \<and>
    rs_get c j (rs_unregister c e r') e = None \<and> \<not> rs_has c (rs_unregister c e r') e"
proof -
  obtain r' where r': "rc_set_ex c (reg_prefix @ e) (jc_stringify j d) (Some n) r = Some r'"
    and g: "\<And>k'. rc_get c r' k' = (if k' = reg_prefix @ e then Some (jc_stringify j d) else rc_get c r k')"
    using set_ok [OF n(2)] by blast
  have get: "rs_get c j r' e = Some d" using codec by (simp add: rs_get_def g)
  have k: "reg_prefix @ e \<in> set (rc_keys c (reg_prefix @ ''*'') r')" by (simp add: keys_ok g)
  have p: "\<forall>k\<in>set (rc_keys c (reg_prefix @ ''*'') r'). prefix reg_prefix k" by (simp add: keys_ok)
  have "m_get (rs_get_all c j r') e = Some d"
    unfolding rs_get_all_def rs_get_all_fold [OF p] using k get by simp
  then show ?thesis
    using r' get n by (auto simp: rs_register_def rs_has_def rs_unregister_def rs_get_def g del_ok)
qed

definition list_redis :: "(string \<times> string) list redis_client" where
  "list_redis = \<lparr>rc_get = map_of,
     rc_set_ex = (\<lambda>k v n r. case n of Some s \<Rightarrow> if 0 < s then Some (AList.update k v r) else None | None \<Rightarrow> None),
     rc_del = AList.delete, rc_keys = (\<lambda>p r. filter (prefix (butlast p)) (map fst r))\<rparr>"

definition one_codec :: json_codec where
  "one_codec = \<lparr>jc_stringify = (\<lambda>_. ''{}''), jc_parse = (\<lambda>_. sample_reg (Some 60))\<rparr>"

theorem redis_store_contract_witness:
  "\<exists>r'. rs_register list_redis one_codec ''1001'' (sample_reg (Some 60)) [] = Some r' \<and>
     rs_get list_redis one_codec r' ''1001'' = Some (sample_reg (Some 60))"
proof -
  have keys: "(\<exists>y. map_of r k = Some y) \<longleftrightarrow> k \<in> fst ` set r" for r :: "(string \<times> string) list" and k
    by (metis map_of_eq_None_iff not_None_eq)
  have "\<exists>r'. rs_register list_redis one_codec ''1001'' (sample_reg (Some 60)) [] = Some r' \<and>
      rs_get list_redis one_codec r' ''1001'' = Some (sample_reg (Some 60)) \<and> rs_has list_redis r' ''1001'' \<and>
      m_get (rs_get_all list_redis one_codec r') ''1001'' = Some (sample_reg (Some 60)) \<and>
      (\<forall>e'. e' \<noteq> ''1001'' \<longrightarrow> rs_get list_redis one_codec r' e' = rs_get list_redis one_codec [] e') \<and>
      rs_get list_redis one_codec (rs_unregister list_redis ''1001'' r') ''1001'' = None \<and>
      \<not> rs_has list_redis (rs_unregister list_redis ''1001'' r') ''1001''"
    by (rule redis_store_contract [where n = 60])
      (simp_all add: list_redis_def one_codec_def sample_reg_def js.get_put js.get_del keys butlast_append conj_commute Collect_conj_eq)
  then show ?thesis by blast
qed

end
