(* ===== verification/Engine.thy ===== *)
theory Engine
  imports Dialplan Trunk Rate_Limit Abuse_Guard Acd_Queue Conference Database Flow_Runner
    Schedule Registration "HOL-Library.State_Monad"
begin

text \<open>
  The state of the running engine and the steps the SIP layer is made of. The state is
  threaded by the state monad; every operation appends what it does to the outside (a SIP
  response, an INVITE it sends, a notification, a prompt, an audit entry) to the trace of the
  request in hand. What the outside answers (drachtio, FreeSWITCH, Postgres, the clock) is read
  from \<open>env\<close> at the count of answers so far, so every theorem holds for every
  behaviour of those services. A request runs from its first to its last step; what happens
  while it waits is in the answers, not in the engine's state.
\<close>

section \<open>What the engine does to the outside\<close>

datatype audit_event =
    AuRegister | AuUnregister | AuCallStart | AuCallAnswered | AuCallDeclined | AuCallEnded
  | AuCallFailed | AuCallForwarded | AuCallRouted | AuCallBlocked

datatype effect =
    Reply int
  | Accept
  | Relay int
  | Trunk_Invite string string
  | Peer_Invite string string "string option" "(string \<times> string) option"
  | Device_Invite string
  | Agent_Invite string
  | Bridge string
  | Notify string notify_event "notify_reason option" "string option"
  | New_Voicemail string string
  | Audit audit_event string "string option"
  | Play string
| Mail int string
  | Teardown
  | Push string string
  | Firewall "string list"

text \<open>
  A response is final from 200 on; \<open>Accept\<close> is the 200 the media server or the B2BUA
  sends for us, \<open>Relay\<close> a failure it passes on.
\<close>

fun is_final :: "effect \<Rightarrow> bool" where
  "is_final (Reply n) \<longleftrightarrow> 200 \<le> n"
| "is_final Accept \<longleftrightarrow> True"
| "is_final (Relay n) \<longleftrightarrow> True"
| "is_final _ \<longleftrightarrow> False"

section \<open>Configuration and answers\<close>

record widget_claims =
  wc_key_id :: int
  wc_owner :: string
  wc_destination :: string
  wc_caller_id :: "string option"
  wc_route_type :: "string option"

record department =
  dp_id :: string
  dp_queue :: string

record connector =
  cn_type :: string
  cn_enabled :: bool

datatype uac_outcome = Uac_Up | Uac_Failed int
datatype uas_outcome = Uas_Up | Uas_Refused | Uas_Lost
datatype b2b_outcome = B2b_Up | B2b_Failed int bool
datatype media_outcome = Media_Up | Media_Failed
datatype dtmf_outcome = Key char | No_Key | Hung_Up | Play_Failed

record env =
  cf_emergency :: "string list"
  cf_peers :: "sip_peer list"
  cf_trunk :: trunk_config
  cf_domain :: string
  cf_trusted :: "string list"
  cf_rate_limit :: int
  cf_rate_window :: int
  cf_ivr :: bool
  cf_voicemail :: bool
  cf_voicemail_max :: int
  cf_block_unrated :: bool
  cf_prepaid :: bool
  cf_conf_max :: int
  cf_moh :: string
  cf_ring_ms :: int
  cf_wait_ms :: int
  cf_poll :: nat
  cf_hold_music :: string
  cf_sounds :: string
  cf_teams_dialin :: string
  cf_teams_fail_ms :: int
  cf_push :: bool
  cf_push_always :: bool
  cf_notifier :: bool
  cf_routing :: bool
  cf_departments :: "department list"
  wd_now :: "nat \<Rightarrow> int"
  wd_uuid :: "nat \<Rightarrow> string"
  wd_local :: "nat \<Rightarrow> local_time"
  wd_tables :: "nat \<Rightarrow> routing_tables"
  wd_rule :: "nat \<Rightarrow> string \<Rightarrow> routing_rule option option"
  wd_flow :: "nat \<Rightarrow> string \<Rightarrow> flow_graph option"
  wd_connector :: "nat \<Rightarrow> int \<Rightarrow> connector option option"
  wd_detail :: "nat \<Rightarrow> string \<Rightarrow> (blocked_row list \<times> forwarding_row list \<times> pstn_row option \<times> balance_row option) option"
  wd_parse_uri :: "string \<Rightarrow> (string option \<times> string option) option"
  wd_token :: "string \<Rightarrow> widget_claims option"
  wd_proto :: "string \<Rightarrow> string option"
  wd_regex :: "string \<Rightarrow> bool \<Rightarrow> string \<Rightarrow> bool option"
  wd_store :: "nat \<Rightarrow> bool"
  wd_uac :: "nat \<Rightarrow> string \<Rightarrow> uac_outcome"
  wd_uas :: "nat \<Rightarrow> uas_outcome"
  wd_b2b :: "nat \<Rightarrow> string \<Rightarrow> b2b_outcome"
  wd_media :: "nat \<Rightarrow> bool"
  wd_connect :: "nat \<Rightarrow> media_outcome"
  wd_op :: "nat \<Rightarrow> bool"
  wd_record :: "nat \<Rightarrow> rat option option"
  wd_save :: "nat \<Rightarrow> bool"
  wd_dtmf :: "nat \<Rightarrow> string \<Rightarrow> dtmf_outcome"
  wd_gone :: "nat \<Rightarrow> bool"
  wd_fetch :: "nat \<Rightarrow> string \<Rightarrow> string \<Rightarrow> string option"

text \<open>A parsed request of the SIP library; \<open>header\<close> is its \<^verbatim>\<open>get\<close>.\<close>

record sip_request =
  rq_uri :: "string option"
  rq_called :: string
  rq_calling :: "string option"
  rq_calling_name :: "string option"
  rq_source :: string
  rq_port :: int
  rq_protocol :: string
  rq_headers :: "(string \<times> string) list"

definition header :: "sip_request \<Rightarrow> string \<Rightarrow> string option" where
  "header req name = map_of (rq_headers req) name"

section \<open>The state\<close>

datatype ivr_status = IvMenu | IvQueued | IvConnected

record ivr_call =
  iv_caller :: string
  iv_called :: string
  iv_hindi :: bool
  iv_department :: "string option"
  iv_status :: ivr_status
  iv_start :: int

record voicemail =
  vm_mailbox :: string
  vm_from :: string
  vm_from_name :: string
  vm_duration :: rat

record engine =
  en_db :: database
  en_store :: memory_store
  en_conf :: conferences
  en_queue :: queue_service
  en_guard :: guard
  en_rates :: limit_map
  en_teams :: limit_map
  en_connectors :: "(int, connector option) js_map"
  en_ivr :: bool
  en_ms :: bool
  en_calls :: "(string, ivr_call) js_map"
  en_voicemails :: "voicemail list"
  en_tick :: nat
  en_trace :: "effect list"

type_synonym 'a sip = "(engine, 'a) state"

section \<open>Steps\<close>

definition gets :: "(engine \<Rightarrow> 'a) \<Rightarrow> 'a sip" where
  "gets f = State (\<lambda>e. (f e, e))"

definition changes :: "(engine \<Rightarrow> engine) \<Rightarrow> unit sip" where
  "changes f = State (\<lambda>e. ((), f e))"

definition skip :: "unit sip" where
  "skip = State_Monad.return ()"

text \<open>An answer of the outside: the one at the current count, which moves on.\<close>

definition external :: "(nat \<Rightarrow> 'a) \<Rightarrow> 'a sip" where
  "external f = State (\<lambda>e. (f (en_tick e), e\<lparr>en_tick := Suc (en_tick e)\<rparr>))"

definition act :: "effect \<Rightarrow> unit sip" where
  "act eff = changes (\<lambda>e. e\<lparr>en_trace := en_trace e @ [eff]\<rparr>)"

definition db_read :: "(database \<Rightarrow> 'a) \<Rightarrow> 'a sip" where
  "db_read f = gets (\<lambda>e. f (en_db e))"

definition db_do :: "(database \<Rightarrow> database) \<Rightarrow> unit sip" where
  "db_do f = changes (\<lambda>e. e\<lparr>en_db := f (en_db e)\<rparr>)"

definition update :: "string \<Rightarrow> call_update \<Rightarrow> unit sip" where
  "update cid u = db_do (update_call cid u)"

definition update_status :: "string \<Rightarrow> call_status \<Rightarrow> unit sip" where
  "update_status cid st = update cid (set_status st)"

definition queue_do :: "(queue_service \<Rightarrow> queue_service) \<Rightarrow> unit sip" where
  "queue_do f = changes (\<lambda>e. e\<lparr>en_queue := f (en_queue e)\<rparr>)"

definition conf_do :: "(conferences \<Rightarrow> conferences) \<Rightarrow> unit sip" where
  "conf_do f = changes (\<lambda>e. e\<lparr>en_conf := f (en_conf e)\<rparr>)"

definition guard_do :: "(guard \<Rightarrow> guard) \<Rightarrow> unit sip" where
  "guard_do f = changes (\<lambda>e. e\<lparr>en_guard := f (en_guard e)\<rparr>)"

definition clock :: "env \<Rightarrow> int sip" where
  "clock v = gets (\<lambda>e. wd_now v (en_tick e))"

text \<open>An offence counts towards a ban; the ban may run the firewall command.\<close>

definition offend :: "env \<Rightarrow> string \<Rightarrow> unit sip" where
  "offend v ip = do {
     now \<leftarrow> clock v;
     argv \<leftarrow> State (\<lambda>e. case record_offense now ip (en_guard e) of (g, a) \<Rightarrow> (a, e\<lparr>en_guard := g\<rparr>));
     case argv of None \<Rightarrow> skip | Some a \<Rightarrow> act (Firewall a)
   }"

definition final_sent :: "engine \<Rightarrow> bool" where
  "final_sent e = list_ex is_final (en_trace e)"

definition send :: "int \<Rightarrow> unit sip" where
  "send n = act (Reply n)"

definition send_unless_final :: "int \<Rightarrow> unit sip" where
  "send_unless_final n = do { f \<leftarrow> gets final_sent; if f then skip else send n }"

definition notify ::
  "env \<Rightarrow> string \<Rightarrow> notify_event \<Rightarrow> notify_reason option \<Rightarrow> string option \<Rightarrow> unit sip" where
  "notify v who ev reason target = (if cf_notifier v then act (Notify who ev reason target) else skip)"

definition audit :: "audit_event \<Rightarrow> string \<Rightarrow> string option \<Rightarrow> unit sip" where
  "audit ev who what = act (Audit ev who what)"

definition play :: "string \<Rightarrow> unit sip" where
  "play file = do { _ \<leftarrow> external (\<lambda>_. ()); act (Play file) }"

section \<open>The trunk\<close>

text \<open>
  \<^verbatim>\<open>createOutboundLeg\<close>: no leg where the trunk is disabled, else an INVITE to the number
  on the trunk with the caller's number where it is a valid one.
\<close>

definition create_outbound_leg :: "env \<Rightarrow> string \<Rightarrow> string option \<Rightarrow> uac_outcome option sip" where
  "create_outbound_leg v number caller_id =
     (let t = cf_trunk v in
      if \<not> tk_enabled t then State_Monad.return None
      else do {
        act (Trunk_Invite number (outbound_from_user t caller_id));
        r \<leftarrow> external (\<lambda>n. wd_uac v n (format_outbound_uri t number));
        State_Monad.return (Some r)
      })"

definition route_call :: "env \<Rightarrow> string \<Rightarrow> string option \<Rightarrow> bool sip" where
  "route_call v number caller_id =
     (if \<not> tk_enabled (cf_trunk v) then do { send 503; State_Monad.return False }
      else do {
        uac \<leftarrow> create_outbound_leg v number caller_id;
        case uac of
          None \<Rightarrow> do { send 503; State_Monad.return False }
        | Some (Uac_Failed _) \<Rightarrow> do { send 503; State_Monad.return False }
        | Some Uac_Up \<Rightarrow> do {
            uas \<leftarrow> external (wd_uas v);
            case uas of
              Uas_Up \<Rightarrow> do { act Accept; State_Monad.return True }
            | Uas_Refused \<Rightarrow> do { send 503; State_Monad.return False }
            | Uas_Lost \<Rightarrow> do { act Accept; send 503; State_Monad.return False }
          }
      })"

section \<open>Running steps\<close>

lemma run_steps [simp]:
  "run_state (gets f) e = (f e, e)"
  "run_state (changes g) e = ((), g e)"
  "run_state skip e = ((), e)"
  "run_state (external h) e = (h (en_tick e), e\<lparr>en_tick := Suc (en_tick e)\<rparr>)"
  "run_state (act eff) e = ((), e\<lparr>en_trace := en_trace e @ [eff]\<rparr>)"
  "run_state (db_read k) e = (k (en_db e), e)"
  "run_state (db_do j) e = ((), e\<lparr>en_db := j (en_db e)\<rparr>)"
  "run_state (queue_do q) e = ((), e\<lparr>en_queue := q (en_queue e)\<rparr>)"
  "run_state (conf_do c) e = ((), e\<lparr>en_conf := c (en_conf e)\<rparr>)"
  "run_state (guard_do gd) e = ((), e\<lparr>en_guard := gd (en_guard e)\<rparr>)"
  "run_state (clock v) e = (wd_now v (en_tick e), e)"
  by (simp_all add: gets_def changes_def skip_def external_def act_def db_read_def db_do_def
      queue_do_def conf_do_def guard_do_def clock_def)

section \<open>The directory\<close>

text \<open>
  What the engine knows of users and registrations. No step of an INVITE changes it: calls,
  events and the routing-rule cache are all that moves.
\<close>

definition directory :: "database \<Rightarrow> database" where
  "directory d = d\<lparr>db_calls := [], db_events := [], db_rules := []\<rparr>"

lemma directory_get_user: "directory d = directory d' \<Longrightarrow> get_user d x = get_user d' x"
  by (cases d; cases d') (simp add: directory_def get_user_def)

lemma directory_registered: "directory d = directory d' \<Longrightarrow> is_registered d x = is_registered d' x"
  by (cases d; cases d') (simp add: directory_def is_registered_def)

lemma directory_idem [simp]: "directory (directory d) = directory d"
  by (simp add: directory_def)

lemma directory_log [simp]: "directory (log_call c d) = directory d"
  by (simp add: directory_def log_call_def emit_def Let_def)

lemma directory_update [simp]: "directory (update_call cid u d) = directory d"
  by (simp add: directory_def update_call_def Let_def split: option.split prod.split)

lemma directory_rule [simp]: "directory (snd (get_routing_rule l n d)) = directory d"
  by (simp add: directory_def get_routing_rule_def split: prod.split)

text \<open>The INVITEs that leave the system.\<close>

definition outgoing :: "effect \<Rightarrow> bool" where
  "outgoing eff \<longleftrightarrow> (case eff of Trunk_Invite _ _ \<Rightarrow> True | Peer_Invite _ _ _ _ \<Rightarrow> True | _ \<Rightarrow> False)"

end
