(* ===== verification/Ivr_System.thy ===== *)
theory Ivr_System
  imports Engine
begin

text \<open>
  The media side, \<^verbatim>\<open>src/src/sip/ivr.system.ts\<close>: voicemail, announcements, the Teams
  dial-in, the PSTN callback bridge, conference and queue legs, prompts with DTMF, the flow
  interpreter's handlers and the built-in menu. A media operation that throws is an answer
  \<open>False\<close>; a step of ours that throws to its caller is \<open>None\<close>. Legs are released
  by \<open>Teardown\<close>. The listeners the code leaves behind on a bridged call are steps of
  their own (\<open>teams_trunk_end\<close>, \<open>conference_left\<close>, \<open>queue_leg_gone\<close>).
\<close>

section \<open>Connection\<close>

text \<open>\<^verbatim>\<open>initialize\<close>: three attempts to reach the media server.\<close>

fun init_attempts :: "env \<Rightarrow> nat \<Rightarrow> bool sip" where
  "init_attempts v 0 = State_Monad.return False"
| "init_attempts v (Suc n) = do {
     ok \<leftarrow> external (wd_media v);
     if ok then do { changes (\<lambda>e. e\<lparr>en_ms := True\<rparr>); State_Monad.return True }
     else init_attempts v n
   }"

definition initialize :: "env \<Rightarrow> bool sip" where
  "initialize v = init_attempts v 3"

definition ensure_connected :: "env \<Rightarrow> bool sip" where
  "ensure_connected v = do {
     up \<leftarrow> gets en_ms;
     if up then State_Monad.return True else initialize v
   }"

text \<open>\<^verbatim>\<open>attachConnectionListeners\<close>: the end of the connection drops the reference.\<close>

definition connection_lost :: "unit sip" where
  "connection_lost = changes (\<lambda>e. e\<lparr>en_ms := False\<rparr>)"

definition is_connected :: "bool sip" where
  "is_connected = gets (\<lambda>e. en_ivr e \<and> en_ms e)"

text \<open>\<^verbatim>\<open>connectCaller\<close> answers the caller's INVITE where it succeeds.\<close>

definition connect_caller :: "env \<Rightarrow> bool sip" where
  "connect_caller v = do {
     r \<leftarrow> external (wd_connect v);
     case r of
       Media_Up \<Rightarrow> do { act Accept; State_Monad.return True }
     | Media_Failed \<Rightarrow> State_Monad.return False
   }"

definition op :: "env \<Rightarrow> bool sip" where
  "op v = external (wd_op v)"

definition set_voice :: "env \<Rightarrow> bool sip" where
  "set_voice v = do {
     engine_set \<leftarrow> op v;
     if engine_set then op v else State_Monad.return False
   }"

definition prepare_voice :: "env \<Rightarrow> unit sip" where
  "prepare_voice v = do {
     ok \<leftarrow> set_voice v;
     if ok then play ''silence_stream://500'' else skip
   }"

section \<open>Voicemail and announcements\<close>

definition default_greeting :: string where
  "default_greeting = ''say:The person you are trying to reach is unavailable. '' @
     ''Please leave a message after the tone. Press zero when you are finished.''"

definition capture_voicemail ::
  "env \<Rightarrow> string \<Rightarrow> string \<Rightarrow> string \<Rightarrow> string option \<Rightarrow> int option \<Rightarrow> bool option sip" where
  "capture_voicemail v mailbox caller from_name greeting max_seconds =
     (if \<not> cf_voicemail v then State_Monad.return (Some False)
      else do {
        started \<leftarrow> clock v;
        _ \<leftarrow> set_voice v;
        play (str_or greeting default_greeting);
        play ''tone_stream://%(500,0,800)'';
        ok \<leftarrow> op v;
        if \<not> ok then State_Monad.return None
        else do {
          rec \<leftarrow> external (wd_record v);
          case rec of
            None \<Rightarrow> State_Monad.return None
          | Some seconds \<Rightarrow> do {
              now \<leftarrow> clock v;
              saved \<leftarrow> external (wd_save v);
              if \<not> saved then State_Monad.return None
              else do {
                changes (\<lambda>e. e\<lparr>en_voicemails := en_voicemails e @
                  [\<lparr>vm_mailbox = mailbox, vm_from = caller,
                    vm_from_name = (if from_name \<noteq> [] then from_name else caller),
                    vm_duration = of_int (case seconds of
                        Some s \<Rightarrow> js_round s
                      | None \<Rightarrow> js_round (of_int (now - started) / 1000))\<rparr>]\<rparr>);
                (if cf_notifier v then act (New_Voicemail mailbox caller) else skip);
                State_Monad.return (Some True)
              }
            }
        }
      })"

definition record_voicemail :: "env \<Rightarrow> string \<Rightarrow> string \<Rightarrow> string \<Rightarrow> bool sip" where
  "record_voicemail v mailbox caller from_name =
     (if \<not> cf_voicemail v then State_Monad.return False
      else do {
        up \<leftarrow> ensure_connected v;
        if \<not> up then do { send_unless_final 480; State_Monad.return False }
        else do {
          connected \<leftarrow> connect_caller v;
          if \<not> connected then do { send_unless_final 480; State_Monad.return False }
          else do {
            r \<leftarrow> capture_voicemail v mailbox caller from_name None None;
            case r of
              None \<Rightarrow> do { send_unless_final 480; act Teardown; State_Monad.return False }
            | Some saved \<Rightarrow> do { act Teardown; State_Monad.return saved }
          }
        }
      })"

definition default_unavailable :: string where
  "default_unavailable = ''The person you are trying to reach is not available right now. '' @
     ''Please try again later.''"

definition play_unavailable :: "env \<Rightarrow> string option \<Rightarrow> unit sip" where
  "play_unavailable v message = do {
     up \<leftarrow> ensure_connected v;
     if \<not> up then send_unless_final 480
     else do {
       connected \<leftarrow> connect_caller v;
       if \<not> connected then send_unless_final 480
       else do {
         prepare_voice v;
         play (''say:'' @ str_or message default_unavailable);
         act Teardown
       }
     }
   }"

section \<open>Teams dial-in and PSTN callback\<close>

definition join_teams_meeting :: "env \<Rightarrow> string \<Rightarrow> string \<Rightarrow> bool sip" where
  "join_teams_meeting v dial_in conf_id = do {
     up \<leftarrow> ensure_connected v;
     if \<not> up then do { send_unless_final 480; State_Monad.return False }
     else do {
       connected \<leftarrow> connect_caller v;
       if \<not> connected then do { act Teardown; send_unless_final 480; State_Monad.return True }
       else do {
         prepare_voice v;
         play ''say:Connecting you to the meeting. Please hold.'';
         let give_up = do {
           play ''say:Sorry, we could not join the meeting. Goodbye.'';
           act Teardown; send_unless_final 480; State_Monad.return True };
         endpoint \<leftarrow> op v;
         if \<not> endpoint then give_up
         else do {
           uac \<leftarrow> create_outbound_leg v dial_in None;
           case uac of
             None \<Rightarrow> do {
               play ''say:The meeting service is unavailable. Goodbye.'';
               act Teardown; State_Monad.return True }
           | Some (Uac_Failed _) \<Rightarrow> give_up
           | Some Uac_Up \<Rightarrow> do {
               modified \<leftarrow> op v;
               if \<not> modified then give_up
               else do {
                 _ \<leftarrow> op v;
                 bridged \<leftarrow> op v;
                 if bridged then do { act (Bridge dial_in); State_Monad.return True } else give_up
               }
             }
         }
       }
     }
   }"

text \<open>The trunk leg of a bridged meeting ends: an early end is told to the caller.\<close>

definition teams_trunk_end :: "env \<Rightarrow> int \<Rightarrow> unit sip" where
  "teams_trunk_end v bridged_at = do {
     now \<leftarrow> clock v;
     (if 0 < bridged_at \<and> now - bridged_at < cf_teams_fail_ms v
      then play (''say:Sorry, we could not join the meeting. Please check the conference ID '' @
        ''and try again. Goodbye.'')
      else skip);
     act Teardown
   }"

datatype bridge_result = Bridged | Trunk_Disabled | Media_Unavailable | Destination_Unreachable
  | Customer_Unreachable | Bridge_Error

definition bridge_pstn_to_pstn :: "env \<Rightarrow> string \<Rightarrow> string \<Rightarrow> string option \<Rightarrow> bridge_result sip" where
  "bridge_pstn_to_pstn v destination customer caller_id =
     (if \<not> tk_enabled (cf_trunk v) then State_Monad.return Trunk_Disabled
      else do {
        up \<leftarrow> ensure_connected v;
        if \<not> up then State_Monad.return Media_Unavailable
        else do {
          let fail = do { act Teardown; State_Monad.return Bridge_Error };
          a_leg \<leftarrow> op v;
          if \<not> a_leg then fail
          else do {
            uac_a \<leftarrow> create_outbound_leg v destination caller_id;
            case uac_a of
              None \<Rightarrow> do { act Teardown; State_Monad.return Destination_Unreachable }
            | Some (Uac_Failed _) \<Rightarrow> fail
            | Some Uac_Up \<Rightarrow> do {
                modified \<leftarrow> op v;
                if \<not> modified then fail
                else do {
                  prepare_voice v;
                  play ''say:Please hold while we connect your call.'';
                  b_leg \<leftarrow> op v;
                  if \<not> b_leg then fail
                  else do {
                    uac_b \<leftarrow> create_outbound_leg v customer caller_id;
                    case uac_b of
                      None \<Rightarrow> do {
                        play ''say:The other party could not be reached. Goodbye.'';
                        act Teardown; State_Monad.return Customer_Unreachable }
                    | Some (Uac_Failed _) \<Rightarrow> fail
                    | Some Uac_Up \<Rightarrow> do {
                        modified_b \<leftarrow> op v;
                        if \<not> modified_b then fail
                        else do {
                          bridged \<leftarrow> op v;
                          if bridged then do { act (Bridge customer); State_Monad.return Bridged } else fail
                        }
                      }
                  }
                }
              }
          }
        }
      })"

section \<open>Conference legs\<close>

definition join_conference :: "env \<Rightarrow> string \<Rightarrow> unit sip \<Rightarrow> unit sip \<Rightarrow> bool sip" where
  "join_conference v room_name on_joined on_left = do {
     up \<leftarrow> ensure_connected v;
     if \<not> up then do { send_unless_final 480; State_Monad.return False }
     else do {
       let fail = do { on_left; act Teardown; send_unless_final 480; State_Monad.return False };
       connected \<leftarrow> connect_caller v;
       if \<not> connected then fail
       else do {
         prepare_voice v;
         play ''say:You are joining the conference.'';
         joined \<leftarrow> op v;
         if joined then do { act (Bridge room_name); on_joined; State_Monad.return True } else fail
       }
     }
   }"

section \<open>Queue legs\<close>

text \<open>
  \<^verbatim>\<open>opts\<close> of \<^verbatim>\<open>enqueueCaller\<close>: the policy and the hooks of the queue handler.
\<close>

record queue_opts =
  qo_ring_ms :: int
  qo_wait_ms :: int
  qo_moh :: string
  qo_next :: "(string \<times> string) option sip"
  qo_ring_agent :: "string \<Rightarrow> unit sip"
  qo_no_answer :: "string \<Rightarrow> unit sip"
  qo_connected :: "string \<Rightarrow> unit sip"
  qo_abandoned :: "unit sip"
  qo_timeout :: "unit sip"
  qo_ended :: "unit sip"

datatype queue_outcome = Connected string | Abandoned | Timed_Out | Queue_Failed

text \<open>
  \<^verbatim>\<open>ringAgent\<close>: the INVITE to the agent's contact; answered or not (declined, rung out,
  cancelled).
\<close>

definition ring_agent :: "env \<Rightarrow> string \<Rightarrow> bool sip" where
  "ring_agent v contact = do {
     act (Agent_Invite contact);
     r \<leftarrow> external (\<lambda>n. wd_uac v n contact);
     State_Monad.return (case r of Uac_Up \<Rightarrow> True | Uac_Failed _ \<Rightarrow> False)
   }"

text \<open>
  The caller's leg: \<open>cl_gone\<close> is the flag the hang-up listener sets, \<open>cl_listening\<close>
  whether that listener is still attached, \<open>cl_ended\<close> whether the ended hook has run.
  The listener is replaced before the bridge is tried and not put back when it fails.
\<close>

record caller_leg =
  cl_gone :: bool
  cl_listening :: bool
  cl_ended :: bool

definition run_ended :: "queue_opts \<Rightarrow> caller_leg \<Rightarrow> caller_leg sip" where
  "run_ended q c = (if cl_ended c then State_Monad.return c
     else do { qo_ended q; State_Monad.return (c\<lparr>cl_ended := True\<rparr>) })"

text \<open>
  A hang-up while the caller waits: the first listener sets the flag; the one that replaced it
  runs the ended hook and releases the legs, and leaves the flag alone.
\<close>

definition hear :: "env \<Rightarrow> queue_opts \<Rightarrow> caller_leg \<Rightarrow> caller_leg sip" where
  "hear v q c = do {
     g \<leftarrow> external (wd_gone v);
     if \<not> g then State_Monad.return c
     else if cl_listening c then State_Monad.return (c\<lparr>cl_gone := True\<rparr>)
     else do { c' \<leftarrow> run_ended q c; act Teardown; State_Monad.return c' }
   }"

text \<open>Releasing the legs of a failed bridge may report their end to the new listener.\<close>

definition release_failed :: "env \<Rightarrow> queue_opts \<Rightarrow> caller_leg \<Rightarrow> caller_leg sip" where
  "release_failed v q c = do {
     reported \<leftarrow> external (wd_gone v);
     if reported then do { c' \<leftarrow> run_ended q c; act Teardown; State_Monad.return c' }
     else State_Monad.return c
   }"

definition queue_failed :: "queue_opts \<Rightarrow> caller_leg \<Rightarrow> queue_outcome sip" where
  "queue_failed q c = do {
     _ \<leftarrow> run_ended q c; act Teardown; send_unless_final 480; State_Monad.return Queue_Failed }"

text \<open>
  The loop \<^verbatim>\<open>while (!abandoned && Date.now() < deadline)\<close>, with fuel for the number of
  rounds; \<open>None\<close> where the fuel ran out.
\<close>

fun queue_loop :: "env \<Rightarrow> nat \<Rightarrow> queue_opts \<Rightarrow> int \<Rightarrow> caller_leg \<Rightarrow> queue_outcome option sip" where
  "queue_loop v 0 q deadline c = State_Monad.return None"
| "queue_loop v (Suc fuel) q deadline c = do {
     now \<leftarrow> clock v;
     if cl_gone c then do {
       qo_abandoned q; _ \<leftarrow> run_ended q c; act Teardown; State_Monad.return (Some Abandoned) }
     else if deadline \<le> now then do {
       play ''say:All of our agents are busy. Please try again later. Goodbye.'';
       qo_timeout q; _ \<leftarrow> run_ended q c; act Teardown; State_Monad.return (Some Timed_Out) }
     else do {
       agent \<leftarrow> qo_next q;
       case agent of
         None \<Rightarrow> do { c' \<leftarrow> hear v q c; queue_loop v fuel q deadline c' }
       | Some (ext, contact) \<Rightarrow> do {
           qo_ring_agent q ext;
           endpoint \<leftarrow> op v;
           if \<not> endpoint then do { r \<leftarrow> queue_failed q c; State_Monad.return (Some r) }
           else do {
             answered \<leftarrow> ring_agent v contact;
             c' \<leftarrow> hear v q c;
             if \<not> answered \<or> cl_gone c' then do {
               (if \<not> answered \<and> \<not> cl_gone c' then qo_no_answer q ext else skip);
               queue_loop v fuel q deadline c'
             }
             else do {
               modified \<leftarrow> op v;
               c1 \<leftarrow> hear v q c';
               if \<not> modified then do {
                 qo_no_answer q ext; queue_loop v fuel q deadline c1 }
               else do {
                 _ \<leftarrow> op v;
                 c2 \<leftarrow> hear v q c1;
                 bridged \<leftarrow> op v;
                 if bridged then do {
                   act (Bridge contact); qo_connected q ext; State_Monad.return (Some (Connected ext)) }
                 else do {
                   c3 \<leftarrow> release_failed v q (c2\<lparr>cl_listening := False\<rparr>);
                   qo_no_answer q ext;
                   queue_loop v fuel q deadline c3
                 }
               }
             }
           }
         }
     }
   }"

definition enqueue_caller :: "env \<Rightarrow> nat \<Rightarrow> queue_opts \<Rightarrow> queue_outcome option sip" where
  "enqueue_caller v fuel q = do {
     up \<leftarrow> ensure_connected v;
     if \<not> up then do { send_unless_final 480; State_Monad.return (Some Queue_Failed) }
     else do {
       let c = \<lparr>cl_gone = False, cl_listening = True, cl_ended = False\<rparr>;
       connected \<leftarrow> connect_caller v;
       if \<not> connected then do { r \<leftarrow> queue_failed q c; State_Monad.return (Some r) }
       else do {
         prepare_voice v;
         play ''say:Please hold while we connect you to an agent.'';
         play (qo_moh q);
         now \<leftarrow> clock v;
         queue_loop v fuel q (now + qo_wait_ms q) c
       }
     }
   }"

text \<open>A leg of a connected call ends.\<close>

definition queue_leg_gone :: "queue_opts \<Rightarrow> unit sip" where
  "queue_leg_gone q = do { qo_ended q; act Teardown }"

section \<open>Prompts\<close>

text \<open>
  \<^verbatim>\<open>promptAndCollect\<close>: at most \<open>tries\<close> rounds of the prompt; a hang-up ends
  them. The result has the digit (empty where none was accepted) and whether the caller hung
  up; \<open>None\<close> where setting the terminators threw.
\<close>

fun collect_rounds :: "env \<Rightarrow> string \<Rightarrow> string option \<Rightarrow> nat \<Rightarrow> (string \<times> bool) sip" where
  "collect_rounds v prompt valid 0 = State_Monad.return ([], False)"
| "collect_rounds v prompt valid (Suc n) = do {
     act (Play prompt);
     r \<leftarrow> external (\<lambda>t. wd_dtmf v t prompt);
     case r of
       Hung_Up \<Rightarrow> State_Monad.return ([], True)
     | Key c \<Rightarrow> (if \<not> truthy valid \<or> c \<in> set (the valid) then State_Monad.return ([c], False)
                else collect_rounds v prompt valid n)
     | No_Key \<Rightarrow> collect_rounds v prompt valid n
     | Play_Failed \<Rightarrow> collect_rounds v prompt valid n
   }"

definition prompt_and_collect :: "env \<Rightarrow> string \<Rightarrow> string option \<Rightarrow> int \<Rightarrow> (string \<times> bool) option sip" where
  "prompt_and_collect v prompt valid tries = do {
     ok \<leftarrow> op v;
     if \<not> ok then State_Monad.return None
     else do {
       r \<leftarrow> collect_rounds v prompt valid (nat (max 1 tries));
       State_Monad.return (Some r)
     }
   }"

section \<open>The flow handlers\<close>

definition get_connector :: "env \<Rightarrow> int \<Rightarrow> connector option sip" where
  "get_connector v cid = do {
     cache \<leftarrow> gets en_connectors;
     if m_has cache cid then State_Monad.return (fst (read_through None cid cache))
     else do {
       loaded \<leftarrow> external (\<lambda>n. wd_connector v n cid);
       let r = read_through loaded cid cache;
       changes (\<lambda>e. e\<lparr>en_connectors := snd r\<rparr>);
       State_Monad.return (fst r)
     }
   }"

definition invalidate_connector :: "int \<Rightarrow> unit sip" where
  "invalidate_connector cid = changes (\<lambda>e. e\<lparr>en_connectors := m_del cid (en_connectors e)\<rparr>)"

definition clear_connector_cache :: "unit sip" where
  "clear_connector_cache = changes (\<lambda>e. e\<lparr>en_connectors := []\<rparr>)"

text \<open>An email is sent best-effort: whatever the connector service answers, the flow goes on.\<close>

definition flow_send_email :: "env \<Rightarrow> email_opts \<Rightarrow> unit sip" where
  "flow_send_email v m =
     (case num_int (js_number (eo_connector m)) of
        None \<Rightarrow> skip
      | Some cid \<Rightarrow>
          if cid \<le> 0 then skip
          else do {
            c \<leftarrow> get_connector v cid;
            case c of
              None \<Rightarrow> skip
            | Some r \<Rightarrow>
                if cn_type r \<noteq> ''email'' \<or> \<not> cn_enabled r then skip
                else do { act (Mail cid (eo_to m)); _ \<leftarrow> op v; skip }
          })"

definition announce :: "env \<Rightarrow> string option \<Rightarrow> string option sip" where
  "announce v key = external (\<lambda>n. announcement (Some (wd_tables v n)) key)"

definition routing_decision :: "env \<Rightarrow> routing_context \<Rightarrow> routing_decision option sip" where
  "routing_decision v ctx = do {
     registered \<leftarrow> db_read is_registered;
     external (\<lambda>n. evaluate (wd_tables v n) registered (wd_local v n) ctx)
   }"

definition modify_call :: "string \<Rightarrow> (ivr_call \<Rightarrow> ivr_call) \<Rightarrow> unit sip" where
  "modify_call cid f = changes (\<lambda>e. e\<lparr>en_calls :=
     (case m_get (en_calls e) cid of None \<Rightarrow> en_calls e | Some c \<Rightarrow> m_set cid (f c) (en_calls e))\<rparr>)"

definition flow_transfer :: "env \<Rightarrow> string \<Rightarrow> string \<Rightarrow> string \<Rightarrow> transfer_opts \<Rightarrow> bool sip" where
  "flow_transfer v cid caller called t =
     (if to_external t \<and> truthy (to_extension t)
      then do {
        let target = the (to_extension t);
        act (Bridge (''sofia/external/'' @ (if sublist_of ''sip:'' target then target else ''sip:'' @ target)));
        op v }
      else do {
        let dept = (if truthy (to_department t)
          then List.find (\<lambda>d. Some (dp_id d) = to_department t) (cf_departments v) else None);
        (if truthy (to_department t)
         then modify_call cid (\<lambda>c. c\<lparr>iv_department :=
           (case dept of Some d \<Rightarrow> if dp_id d \<noteq> [] then Some (dp_id d) else to_department t
            | None \<Rightarrow> to_department t)\<rparr>)
         else skip);
        d \<leftarrow> (if cf_routing v then routing_decision v
            \<lparr>rc_call_id = cid, rc_caller = caller, rc_called = called, rc_extension = None,
             rc_queue = (case dept of Some d \<Rightarrow> if dp_queue d \<noteq> [] then Some (dp_queue d) else to_department t
                         | None \<Rightarrow> to_department t),
             rc_prefer_queue = True\<rparr>
          else State_Monad.return None);
        if (case d of Some r \<Rightarrow> rd_type r = DtAnnouncement \<and> rd_reason r = Some OutsideCompanyHours | None \<Rightarrow> False)
        then do {
          text \<leftarrow> announce v (opt_over (rd_announcement (the d)) (Some ''company_closed''));
          play (''say:'' @ or_else text ''Our company is currently closed.'');
          update_status cid Missed;
          State_Monad.return False
        }
        else do {
          modify_call cid (\<lambda>c. c\<lparr>iv_status := IvQueued\<rparr>);
          update_status cid Answered;
          act (Play (cf_hold_music v));
          State_Monad.return True
        }
      })"

section \<open>Running a flow\<close>

text \<open>
  The interpreter runs over the engine with two flags: a handler that threw (the rest of the
  flow is then not run) and the hang-up that the listener recorded.
\<close>

record flow_state =
  fs_engine :: engine
  fs_thrown :: bool
  fs_hung :: bool

definition fs_step :: "'a \<Rightarrow> ('a \<times> bool) option sip \<Rightarrow> flow_state \<Rightarrow> 'a \<times> flow_state" where
  "fs_step d m s =
     (if fs_thrown s then (d, s)
      else case run_state m (fs_engine s) of
        (None, e) \<Rightarrow> (d, s\<lparr>fs_engine := e, fs_thrown := True\<rparr>)
      | (Some (a, hung), e) \<Rightarrow> (a, s\<lparr>fs_engine := e, fs_hung := fs_hung s \<or> hung\<rparr>))"

definition heard :: "env \<Rightarrow> 'a sip \<Rightarrow> ('a \<times> bool) option sip" where
  "heard v m = do { a \<leftarrow> m; g \<leftarrow> external (wd_gone v); State_Monad.return (Some (a, g)) }"

definition flow_voicemail :: "env \<Rightarrow> string \<Rightarrow> string \<Rightarrow> string \<Rightarrow> string option \<Rightarrow> int option \<Rightarrow> (unit \<times> bool) option sip" where
  "flow_voicemail v caller from_name mailbox greeting max_seconds = do {
     r \<leftarrow> capture_voicemail v mailbox caller from_name greeting max_seconds;
     g \<leftarrow> external (wd_gone v);
     State_Monad.return (case r of None \<Rightarrow> None | Some _ \<Rightarrow> Some ((), g))
   }"

definition flow_handlers ::
  "env \<Rightarrow> string \<Rightarrow> string \<Rightarrow> string \<Rightarrow> string \<Rightarrow> flow_state handlers" where
  "flow_handlers v cid caller called from_name = \<lparr>
     h_play = (\<lambda>file s. snd (fs_step () (heard v (play file)) s)),
     h_collect = (\<lambda>prompt o' s. fs_step [] (prompt_and_collect v prompt (co_valid o') (co_tries o')) s),
     h_voicemail = (\<lambda>mailbox greeting mx s. snd (fs_step () (flow_voicemail v caller from_name mailbox greeting mx) s)),
     h_transfer = (\<lambda>t s. fs_step False (heard v (flow_transfer v cid caller called t)) s),
     h_email = (\<lambda>m s. snd (fs_step () (heard v (flow_send_email v m)) s)),
     h_hung_up = fs_hung,
     h_fetch = (\<lambda>a b s. fs_step None (heard v (external (\<lambda>n. wd_fetch v n a b))) s),
     h_hours = (\<lambda>s. nat (lt_hours (wd_local v (en_tick (fs_engine s))))),
     h_day = (\<lambda>s. nat (lt_day (wd_local v (en_tick (fs_engine s))))),
     h_regex = wd_regex v,
     h_proto = wd_proto v,
     h_sounds = cf_sounds v\<rparr>"

definition run_flow_for_call ::
  "env \<Rightarrow> flow_graph \<Rightarrow> string \<Rightarrow> string \<Rightarrow> string \<Rightarrow> string \<Rightarrow> flow_result option sip" where
  "run_flow_for_call v flow cid caller called from_name = State (\<lambda>e.
     case run_flow flow \<lparr>fx_call_id = cid, fx_caller = caller, fx_dialed = called\<rparr>
            (flow_handlers v cid caller called from_name)
            \<lparr>fs_engine = e, fs_thrown = False, fs_hung = False\<rparr> of
       (r, s) \<Rightarrow> (if fs_thrown s then None else Some r, fs_engine s))"

section \<open>Incoming IVR calls\<close>

definition name_of :: "string \<Rightarrow> string sip" where
  "name_of number = db_read (\<lambda>d. case get_user d number of
     Some u \<Rightarrow> if su_name u \<noteq> [] then su_name u else number | None \<Rightarrow> number)"

text \<open>The Hindi department prompt, in UTF-8.\<close>

definition hindi_menu :: string where
  "hindi_menu = map char_of [
     115, 97, 121, 58, 104, 105, 58, 49, 32, 224, 164, 172, 224, 164, 191, 224, 164, 149,
     224, 165, 141, 224, 164, 176, 224, 165, 128, 46, 32, 50, 32, 224, 164, 164, 224, 164,
     149, 224, 164, 168, 224, 165, 128, 224, 164, 149, 224, 165, 128, 32, 224, 164, 184, 224,
     164, 185, 224, 164, 190, 224, 164, 175, 224, 164, 164, 224, 164, 190, 46, 32, 51, 32,
     224, 164, 172, 224, 164, 191, 224, 164, 178, 224, 164, 191, 224, 164, 130, 224, 164,
     151, 46, 32, 57, 32, 224, 164, 151, 224, 165, 141, 224, 164, 176, 224, 164, 190, 224,
     164, 185, 224, 164, 149, 32, 224, 164, 184, 224, 165, 135, 224, 164, 181, 224, 164, 190,
     46 :: nat]"

definition english_menu :: string where
  "english_menu = ''say:Press 1 for Sales. Press 2 for Support. Press 3 for Billing. Press 9 for Customer Care.''"

definition department_of :: "string \<Rightarrow> string" where
  "department_of digit = or_else (map_of
     [(''1'', ''sales''), (''2'', ''support''), (''3'', ''billing''), (''9'', ''care'')] digit) ''care''"

definition ivr_failed :: "string \<Rightarrow> bool \<Rightarrow> unit sip" where
  "ivr_failed cid answered = do {
     changes (\<lambda>e. e\<lparr>en_calls := m_del cid (en_calls e)\<rparr>);
     update_status cid Failed;
     send_unless_final 503;
     (if answered then act Teardown else skip)
   }"

definition ivr_menu :: "env \<Rightarrow> string \<Rightarrow> unit sip" where
  "ivr_menu v cid = do {
     play ''say:Welcome to Enjoys Voice.'';
     lang \<leftarrow> prompt_and_collect v ''say:Press 1 for English. Press 2 for Hindi.'' (Some ''12'') 2;
     case lang of
       None \<Rightarrow> ivr_failed cid True
     | Some (l, _) \<Rightarrow> do {
         let hindi = (l = ''2'');
         modify_call cid (\<lambda>c. c\<lparr>iv_hindi := hindi\<rparr>);
         dept \<leftarrow> prompt_and_collect v (if hindi then hindi_menu else english_menu) (Some ''1239'') 2;
         case dept of
           None \<Rightarrow> ivr_failed cid True
         | Some (d, _) \<Rightarrow> do {
             modify_call cid (\<lambda>c. c\<lparr>iv_department := Some (department_of d), iv_status := IvQueued\<rparr>);
             update_status cid Answered;
             act (Play (cf_hold_music v))
           }
       }
   }"

definition flow_status :: "flow_result \<Rightarrow> call_status" where
  "flow_status r = (case r of FlowVoicemail \<Rightarrow> Voicemail | Announced \<Rightarrow> Missed | _ \<Rightarrow> Answered)"

definition ivr_flow :: "env \<Rightarrow> string \<Rightarrow> string \<Rightarrow> string \<Rightarrow> flow_graph \<Rightarrow> unit sip" where
  "ivr_flow v cid caller called flow = do {
     update_status cid Answered;
     from_name \<leftarrow> name_of caller;
     result \<leftarrow> run_flow_for_call v flow cid caller called from_name;
     case result of
       None \<Rightarrow> ivr_failed cid True
     | Some r \<Rightarrow>
         if r = Transferred then skip
         else do {
           changes (\<lambda>e. e\<lparr>en_calls := m_del cid (en_calls e)\<rparr>);
           update_status cid (flow_status r);
           act Teardown
         }
   }"

definition handle_incoming_call :: "env \<Rightarrow> sip_request \<Rightarrow> string option \<Rightarrow> string option \<Rightarrow> unit sip" where
  "handle_incoming_call v req existing dialed = do {
     fresh \<leftarrow> (if truthy existing then State_Monad.return [] else external (wd_uuid v));
     let cid = str_or existing fresh;
     let caller = str_or (rq_calling req) ''unknown'';
     let called = str_or dialed (if rq_called req \<noteq> [] then rq_called req else ''unknown'');
     now \<leftarrow> clock v;
     changes (\<lambda>e. e\<lparr>en_calls := m_set cid \<lparr>iv_caller = caller, iv_called = called, iv_hindi = False,
       iv_department = None, iv_status = IvMenu, iv_start = now\<rparr> (en_calls e)\<rparr>);
     (if truthy existing then skip
      else do {
        name \<leftarrow> name_of caller;
        db_do (log_call \<lparr>cl_id = cid, cl_from = caller, cl_to = called, cl_from_name = name,
          cl_status = Ringing, cl_direction = Inbound, cl_start = now, cl_end = None, cl_duration = None,
          cl_from_ext = None, cl_to_ext = None, cl_cost = None, cl_currency = None,
          cl_rate_prefix = None, cl_billed_secs = None\<rparr>)
      });
     up \<leftarrow> ensure_connected v;
     if \<not> up then do { send 503; update_status cid Failed }
     else do {
       connected \<leftarrow> connect_caller v;
       if \<not> connected then ivr_failed cid False
       else do {
         prepare_voice v;
         flow \<leftarrow> external (\<lambda>n. wd_flow v n called);
         case flow of
           Some f \<Rightarrow> if fl_enabled f \<and> fl_nodes f \<noteq> [] then ivr_flow v cid caller called f else ivr_menu v cid
         | None \<Rightarrow> ivr_menu v cid
       }
     }
   }"

definition transfer_call :: "string \<Rightarrow> bool sip" where
  "transfer_call cid = do {
     calls \<leftarrow> gets en_calls;
     if m_has calls cid
     then do { modify_call cid (\<lambda>c. c\<lparr>iv_status := IvConnected\<rparr>); State_Monad.return True }
     else State_Monad.return False
   }"

end
