(* ===== verification/Call_Routing.thy ===== *)
theory Call_Routing
  imports Ivr_System
begin

text \<open>
  Ringing an extension and the chains behind it, the helpers of
  \<^verbatim>\<open>src/src/sip/sip.server.ts\<close>: the B2BUA to a registered device, forwarding, the
  chain for a callee who cannot be reached, Do Not Disturb.
\<close>

section \<open>Patterns\<close>

text \<open>\<^verbatim>\<open>/<([^>]+)>/\<close>: the first bracketed part that is not empty.\<close>

fun bracketed :: "string \<Rightarrow> string option" where
  "bracketed [] = None"
| "bracketed (c # cs) =
     (let inner = takeWhile (\<lambda>x. x \<noteq> CHR ''>'') cs
      in if c = CHR ''<'' \<and> inner \<noteq> [] \<and> length inner < length cs then Some inner else bracketed cs)"

definition contact_uri :: "string \<Rightarrow> string" where
  "contact_uri contact = or_else (bracketed contact) contact"

text \<open>\<^verbatim>\<open>/sip:([^@]+)/\<close>.\<close>

fun sip_user_part :: "string \<Rightarrow> string option" where
  "sip_user_part [] = None"
| "sip_user_part (c # cs) =
     (let user = takeWhile (\<lambda>x. x \<noteq> CHR ''@'') (drop 3 cs)
      in if prefix ''sip:'' (c # cs) \<and> user \<noteq> [] then Some user else sip_user_part cs)"

definition uri_user :: "sip_request \<Rightarrow> string option" where
  "uri_user req = (case rq_uri req of None \<Rightarrow> None | Some u \<Rightarrow> sip_user_part u)"

definition caller_name :: "sip_request \<Rightarrow> string \<Rightarrow> string sip" where
  "caller_name req calling =
     (if truthy (rq_calling_name req) then State_Monad.return (the (rq_calling_name req)) else name_of calling)"

section \<open>Chains\<close>

definition user_mobile :: "database \<Rightarrow> string \<Rightarrow> string option" where
  "user_mobile d ext = (case get_user d ext of None \<Rightarrow> None | Some u \<Rightarrow> non_empty (su_mobile u))"

definition forward_call :: "env \<Rightarrow> string \<Rightarrow> string \<Rightarrow> string \<Rightarrow> unit sip" where
  "forward_call v target cid calling = do {
     reg \<leftarrow> db_read (\<lambda>d. get_registration d target);
     case reg of
       None \<Rightarrow> do {
         mobile \<leftarrow> db_read (\<lambda>d. user_mobile d target);
         if truthy mobile \<and> tk_enabled (cf_trunk v) then do {
           ok \<leftarrow> route_call v (the mobile) None;
           update_status cid (if ok then Answered else Failed)
         }
         else do {
           notify v calling NeUnavailable None None;
           update_status cid Missed;
           send_unless_final 480
         }
       }
     | Some r \<Rightarrow> do {
         let uri = contact_uri (rg_contact r);
         notify v calling NeForwarding None (Some target);
         act (Device_Invite uri);
         b2b \<leftarrow> external (\<lambda>n. wd_b2b v n uri);
         case b2b of
           B2b_Up \<Rightarrow> do {
             act Accept;
             notify v calling NeAnswered None (Some target);
             audit AuCallForwarded calling (Some target);
             update_status cid Answered
           }
         | B2b_Failed status _ \<Rightarrow> do {
             (if status \<noteq> 0 then act (Relay status) else skip);
             notify v calling NeFailed (Some NrForwardFailed) None;
             update_status cid Failed;
             send_unless_final 503
           }
       }
   }"

definition tone_of :: "unreachable_reason \<Rightarrow> string option" where
  "tone_of reason = (case reason of
     Busy \<Rightarrow> Some ''The person you are trying to reach is currently busy. Please try again later.''
   | NoAnswer \<Rightarrow> Some ''The person you are trying to reach is not answering. Please try again later.''
   | Offline \<Rightarrow> None)"

definition unreachable_status :: "unreachable_reason \<Rightarrow> call_status" where
  "unreachable_status reason = (if reason = Offline then Unreachable else Missed)"

definition route_unreachable ::
  "env \<Rightarrow> sip_request \<Rightarrow> string \<Rightarrow> string \<Rightarrow> string \<Rightarrow> unreachable_reason \<Rightarrow> unit sip" where
  "route_unreachable v req called cid calling reason = do {
     mobile \<leftarrow> db_read (\<lambda>d. user_mobile d called);
     if truthy mobile \<and> tk_enabled (cf_trunk v) then do {
       ok \<leftarrow> route_call v (the mobile) None;
       update_status cid (if ok then Answered else Unreachable);
       (if ok then skip else notify v calling NeUnavailable (Some NrPstnFailed) (Some called))
     }
     else do {
       fwd \<leftarrow> db_read (\<lambda>d. get_forwarding d called);
       if truthy (fo_unavailable fwd) then forward_call v (the (fo_unavailable fwd)) cid calling
       else do {
         ivr \<leftarrow> gets en_ivr;
         if reason = Offline \<and> cf_voicemail v \<and> ivr then do {
           from_name \<leftarrow> caller_name req calling;
           saved \<leftarrow> record_voicemail v called calling from_name;
           update_status cid (if saved then Voicemail else Unreachable);
           notify v calling NeUnavailable (Some NrVoicemail) (Some called)
         }
         else if ivr then do {
           play_unavailable v (tone_of reason);
           update_status cid (unreachable_status reason);
           notify v calling NeUnavailable (Some (NrUnreachable reason)) (Some called)
         }
         else do {
           notify v calling NeUnavailable (Some (NrUnreachable reason)) (Some called);
           update_status cid (unreachable_status reason);
           send_unless_final 480
         }
       }
     }
   }"

definition route_do_not_disturb :: "env \<Rightarrow> sip_request \<Rightarrow> string \<Rightarrow> string \<Rightarrow> string \<Rightarrow> unit sip" where
  "route_do_not_disturb v req called cid calling = do {
     ivr \<leftarrow> gets en_ivr;
     if cf_voicemail v \<and> ivr then do {
       from_name \<leftarrow> caller_name req calling;
       saved \<leftarrow> record_voicemail v called calling from_name;
       update_status cid (if saved then Voicemail else Missed);
       notify v calling NeUnavailable (Some NrDnd) (Some called)
     }
     else do {
       notify v calling NeUnavailable (Some NrDnd) (Some called);
       update_status cid Missed;
       send_unless_final 480
     }
   }"

section \<open>Ringing a registered device\<close>

text \<open>
  The B2BUA that keeps the caller's INVITE open on failure (\<^verbatim>\<open>passFailure: false\<close>); only
  a cancelled INVITE is ended by the stack, with 487.
\<close>

definition ring_device :: "env \<Rightarrow> string \<Rightarrow> b2b_outcome sip" where
  "ring_device v uri = do {
     act (Device_Invite uri);
     r \<leftarrow> external (\<lambda>n. wd_b2b v n uri);
     (case r of
        B2b_Up \<Rightarrow> act Accept
      | B2b_Failed status _ \<Rightarrow> if status = 487 then act (Relay 487) else skip);
     State_Monad.return r
   }"

definition unreachable_codes :: "int list" where
  "unreachable_codes = map sip_code [TemporarilyUnavailable, Gone, NotFound, ServiceUnavailable, ServerError] @ [0]"

definition ring_failed :: "env \<Rightarrow> sip_request \<Rightarrow> string \<Rightarrow> string \<Rightarrow> string \<Rightarrow> int \<Rightarrow> bool \<Rightarrow> unit sip" where
  "ring_failed v req called cid calling status timed_out = do {
     fwd \<leftarrow> db_read (\<lambda>d. get_forwarding d called);
     if status = sip_code BusyHere \<or> status = sip_code Decline then do {
       audit AuCallDeclined calling (Some called);
       if truthy (fo_busy fwd) then forward_call v (the (fo_busy fwd)) cid calling
       else do {
         notify v calling NeDeclined (Some NrBusy) None;
         route_unreachable v req called cid calling Busy
       }
     }
     else if status = sip_code RequestTimeout \<or> timed_out then
       (if truthy (fo_no_answer fwd) then forward_call v (the (fo_no_answer fwd)) cid calling
        else do {
          notify v calling NeNoAnswer None None;
          route_unreachable v req called cid calling NoAnswer
        })
     else if status = sip_code RequestTerminated then update_status cid Missed
     else if status \<in> set unreachable_codes then route_unreachable v req called cid calling Offline
     else do {
       audit AuCallFailed calling (Some called);
       notify v calling NeFailed (Some NrError) None;
       update_status cid Missed;
       send_unless_final 503
     }
   }"

definition route_to_extension :: "env \<Rightarrow> sip_request \<Rightarrow> string \<Rightarrow> string \<Rightarrow> unit sip" where
  "route_to_extension v req contact cid = do {
     let called = or_else (uri_user req) [];
     let calling = str_or (rq_calling req) ''unknown'';
     blocked \<leftarrow> db_read (\<lambda>d. is_blocked d called calling);
     if blocked then do {
       notify v calling NeDeclined (Some NrBlocked) None;
       update_status cid Missed;
       send (sip_code Decline)
     }
     else do {
       notify v calling NeRinging None (Some called);
       r \<leftarrow> ring_device v (contact_uri contact);
       case r of
         B2b_Up \<Rightarrow> do {
           notify v calling NeAnswered None (Some called);
           audit AuCallAnswered calling (Some called);
           update_status cid Answered
         }
       | B2b_Failed status timed_out \<Rightarrow> ring_failed v req called cid calling status timed_out
     }
   }"

text \<open>A leg of a connected call ends: the listener of \<^verbatim>\<open>routeToExtension\<close> (audited) and
  of \<^verbatim>\<open>forwardCall\<close>.\<close>

definition call_ended :: "env \<Rightarrow> bool \<Rightarrow> string \<Rightarrow> string \<Rightarrow> string \<Rightarrow> unit sip" where
  "call_ended v audited cid calling called = do {
     now \<leftarrow> clock v;
     update cid (no_update\<lparr>up_status := Some Ended, up_end := Some now\<rparr>);
     (if audited then audit AuCallEnded calling (Some called) else skip)
   }"

end
