(* ===== verification/Route_Handlers.thy ===== *)
theory Route_Handlers
  imports Call_Routing
begin

text \<open>
  The route handlers, \<^verbatim>\<open>src/src/sip/routes\<close>, in the order of the chain. A handler
  answers whether it took the call; one that declines leaves the engine as it was.
\<close>

record call_ctx =
  cx_req :: sip_request
  cx_called :: string
  cx_calling :: string
  cx_id :: string
  cx_widget :: "widget_claims option"

section \<open>Inbound trunk calls\<close>

definition trunk_inbound :: "env \<Rightarrow> call_ctx \<Rightarrow> bool sip" where
  "trunk_inbound v cx =
     (if \<not> is_from_trunk (cf_trunk v) (rq_source (cx_req cx)) then State_Monad.return False
      else do {
        found \<leftarrow> db_read (\<lambda>d. find_pstn_forward_target d (cx_called cx));
        case found of
          None \<Rightarrow> do {
            send (sip_code TemporarilyUnavailable);
            update_status (cx_id cx) Missed;
            State_Monad.return True
          }
        | Some (_, target) \<Rightarrow> do {
            audit AuCallStart (cx_calling cx) (Some target);
            reg \<leftarrow> db_read (\<lambda>d. get_registration d target);
            case reg of
              Some r \<Rightarrow> do {
                route_to_extension v (cx_req cx) (rg_contact r) (cx_id cx);
                State_Monad.return True
              }
            | None \<Rightarrow> do {
                up \<leftarrow> is_connected;
                if up \<and> dr_type (resolve (cf_emergency v) target) = RIvr then do {
                  handle_incoming_call v (cx_req cx) None None;
                  State_Monad.return True
                }
                else do {
                  send (sip_code TemporarilyUnavailable);
                  update_status (cx_id cx) Missed;
                  State_Monad.return True
                }
              }
          }
      })"

section \<open>Widget calls\<close>

text \<open>
  Equal digits, or one a suffix of the other of at least seven digits.
\<close>

definition digits_equal :: "string \<Rightarrow> string \<Rightarrow> bool" where
  "digits_equal a b =
     (if a = [] \<or> b = [] then False
      else if a = b then True
      else (let shorter = (if length a \<le> length b then a else b);
                longer = (if length a \<le> length b then b else a)
            in 7 \<le> length shorter \<and> suffix shorter longer))"

definition refuse :: "string \<Rightarrow> call_direction \<Rightarrow> int \<Rightarrow> bool sip" where
  "refuse cid dir code = do { update cid (set_status_dir Failed dir); send code; State_Monad.return True }"

definition widget_actor :: "widget_claims \<Rightarrow> string" where
  "widget_actor w = ''widget:'' @ show_int (wc_key_id w)"

definition widget_handler :: "env \<Rightarrow> call_ctx \<Rightarrow> dial_result \<Rightarrow> bool sip" where
  "widget_handler v cx route =
     (case cx_widget cx of
        None \<Rightarrow> State_Monad.return False
      | Some w \<Rightarrow>
          (let want = only_digits (wc_destination w);
               dialed = only_digits (cx_called cx);
               normalized = only_digits (dr_normalized route)
           in if \<not> (want \<noteq> [] \<and> (digits_equal want dialed \<or> digits_equal want normalized))
              then do {
                audit AuCallBlocked (widget_actor w) (Some (cx_called cx));
                refuse (cx_id cx) Outbound 403
              }
              else if str_or (wc_route_type w) ''trunk'' \<noteq> ''trunk'' then
                (if dr_type route = RExternal then do {
                   audit AuCallBlocked (widget_actor w) (Some (cx_called cx));
                   refuse (cx_id cx) Inbound 403
                 }
                 else State_Monad.return False)
              else if \<not> tk_enabled (cf_trunk v) then do {
                send 503;
                update (cx_id cx) (set_status_dir Failed Outbound);
                State_Monad.return True
              }
              else do {
                let destination = (if normalized \<noteq> [] \<and> digits_equal want normalized
                  then dr_normalized route else wc_destination w);
                audit AuCallStart (widget_actor w) (Some destination);
                ok \<leftarrow> route_call v destination (non_empty (wc_caller_id w));
                update (cx_id cx) (set_status_dir (if ok then Answered else Failed) Outbound);
                State_Monad.return True
              }))"

section \<open>Teams meetings\<close>

definition registered :: "string \<Rightarrow> bool sip" where
  "registered caller = db_read (\<lambda>d. caller \<noteq> [] \<and> is_registered d caller)"

definition or_unknown :: "string \<Rightarrow> string" where
  "or_unknown s = (if s \<noteq> [] then s else ''unknown'')"

definition teams_handler :: "env \<Rightarrow> call_ctx \<Rightarrow> bool sip" where
  "teams_handler v cx = do {
     let conf_id = only_digits (or_else (header (cx_req cx) ''X-Teams-Conf-Id'') []);
     let dial_in = trim (str_or (header (cx_req cx) ''X-Teams-Number'') (cf_teams_dialin v));
     let caller = cx_calling cx;
     ivr \<leftarrow> gets en_ivr;
     if conf_id = [] then State_Monad.return False
     else if \<not> tk_enabled (cf_trunk v) \<or> \<not> ivr then do { send 503; State_Monad.return True }
     else if dial_in = [] then do { send 400; State_Monad.return True }
     else do {
       reg \<leftarrow> registered caller;
       if \<not> reg then do {
         audit AuCallBlocked (or_unknown caller) None;
         refuse (cx_id cx) Outbound 403
       }
       else do {
         now \<leftarrow> clock v;
         allowed_now \<leftarrow> State (\<lambda>e. case teams_allow now caller (en_teams e) of
           (ok, m) \<Rightarrow> (ok, e\<lparr>en_teams := m\<rparr>));
         if \<not> allowed_now then do { send 429; State_Monad.return True }
         else do {
           update (cx_id cx) (no_update\<lparr>up_to := Some (''teams:'' @ conf_id), up_direction := Some Outbound\<rparr>);
           ok \<leftarrow> join_teams_meeting v dial_in conf_id;
           update_status (cx_id cx) (if ok then Answered else Failed);
           State_Monad.return True
         }
       }
     }
   }"

section \<open>Conferences\<close>

definition joined_count :: "room \<Rightarrow> nat" where
  "joined_count r = length (filter (\<lambda>p. cp_state p = PJoined) (m_vals (ro_participants r)))"

definition conference_hooks :: "env \<Rightarrow> string \<Rightarrow> string \<Rightarrow> string \<Rightarrow> unit sip \<times> unit sip" where
  "conference_hooks v room_id caller name =
     (do { now \<leftarrow> clock v; conf_do (mark_joined now room_id caller name) },
      conf_do (mark_left room_id caller))"

definition conference_handler :: "env \<Rightarrow> call_ctx \<Rightarrow> dial_result \<Rightarrow> bool sip" where
  "conference_handler v cx route =
     (if dr_type route \<noteq> RConference then State_Monad.return False
      else do {
        ivr \<leftarrow> gets en_ivr;
        if \<not> ivr then do { send (sip_code ServiceUnavailable); State_Monad.return True }
        else do {
          let caller = cx_calling cx;
          reg \<leftarrow> registered caller;
          if \<not> reg then do {
            audit AuCallBlocked (or_unknown caller) (Some (dr_target route));
            refuse (cx_id cx) Outbound (sip_code Forbidden)
          }
          else do {
            let room_id = dr_target route;
            let name = str_or (header (cx_req cx) ''X-Display-Name'') caller;
            now \<leftarrow> clock v;
            room \<leftarrow> State (\<lambda>e. case get_room (en_conf e) room_id of
                Some r \<Rightarrow> (r, e)
              | None \<Rightarrow> (case ensure_room now room_id caller None (en_conf e) of
                  (r, c) \<Rightarrow> (r, e\<lparr>en_conf := c\<rparr>)));
            if 0 \<le> cf_conf_max v \<and> cf_conf_max v \<le> int (joined_count room) \<and>
               m_get (ro_participants room) caller = None
            then do { send (sip_code BusyHere); State_Monad.return True }
            else do {
              conf_do (mark_ringing room_id caller);
              update (cx_id cx) (no_update\<lparr>up_to := Some (''conf:'' @ room_id), up_direction := Some Outbound\<rparr>);
              let hooks = conference_hooks v room_id caller name;
              ok \<leftarrow> join_conference v (''conf-'' @ room_id) (fst hooks) (snd hooks);
              update_status (cx_id cx) (if ok then Answered else Failed);
              State_Monad.return True
            }
          }
        }
      })"

section \<open>Queues\<close>

text \<open>The next agent of the strategy with a live contact.\<close>

definition agent_contact :: "database \<Rightarrow> string \<Rightarrow> string option" where
  "agent_contact d ext = (case get_registration d ext of
     None \<Rightarrow> None | Some r \<Rightarrow> non_empty (Some (contact_uri (rg_contact r))))"

fun next_with_contact :: "string \<Rightarrow> nat \<Rightarrow> string list \<Rightarrow> (string \<times> string) option sip" where
  "next_with_contact qid 0 exclude = State_Monad.return None"
| "next_with_contact qid (Suc n) exclude = do {
     agent \<leftarrow> State (\<lambda>e. case next_available_agent qid exclude (en_queue e) of
       (a, q) \<Rightarrow> (a, e\<lparr>en_queue := q\<rparr>));
     case agent of
       None \<Rightarrow> State_Monad.return None
     | Some a \<Rightarrow> do {
         contact \<leftarrow> db_read (\<lambda>d. agent_contact d (ag_extension a));
         case contact of
           Some uri \<Rightarrow> State_Monad.return (Some (ag_extension a, uri))
         | None \<Rightarrow> next_with_contact qid n (exclude @ [ag_extension a])
       }
   }"

definition leave_queue :: "env \<Rightarrow> string \<Rightarrow> string \<Rightarrow> unit sip" where
  "leave_queue v qid cid = do { now \<leftarrow> clock v; queue_do (dequeue now qid cid) }"

definition queue_options :: "env \<Rightarrow> string \<Rightarrow> string \<Rightarrow> nat \<Rightarrow> queue_opts" where
  "queue_options v qid cid roster = \<lparr>
     qo_ring_ms = cf_ring_ms v, qo_wait_ms = cf_wait_ms v, qo_moh = cf_moh v,
     qo_next = next_with_contact qid roster [],
     qo_ring_agent = (\<lambda>ext. queue_do (mark_caller_ringing qid cid ext)),
     qo_no_answer = (\<lambda>ext. do { now \<leftarrow> clock v; queue_do (release_ring now qid cid ext) }),
     qo_connected = (\<lambda>ext. queue_do (mark_caller_connected qid cid ext)),
     qo_abandoned = leave_queue v qid cid,
     qo_timeout = leave_queue v qid cid,
     qo_ended = leave_queue v qid cid\<rparr>"

definition queue_gate :: "env \<Rightarrow> call_ctx \<Rightarrow> string \<Rightarrow> string \<Rightarrow> routing_decision option sip" where
  "queue_gate v cx qid caller =
     (if \<not> cf_routing v then State_Monad.return None
      else routing_decision v \<lparr>rc_call_id = cx_id cx, rc_caller = caller, rc_called = cx_called cx,
        rc_extension = None, rc_queue = Some qid, rc_prefer_queue = True\<rparr>)"

definition closed_company :: "routing_decision option \<Rightarrow> bool" where
  "closed_company d = (case d of
     Some r \<Rightarrow> rd_type r = DtAnnouncement \<and> rd_reason r = Some OutsideCompanyHours | None \<Rightarrow> False)"

definition queue_serve :: "env \<Rightarrow> nat \<Rightarrow> call_ctx \<Rightarrow> string \<Rightarrow> nat \<Rightarrow> bool sip" where
  "queue_serve v fuel cx qid roster = do {
     result \<leftarrow> enqueue_caller v fuel (queue_options v qid (cx_id cx) roster);
     (case result of
        Some (Connected ext) \<Rightarrow> update (cx_id cx) (no_update\<lparr>up_status := Some Answered, up_to := Some (''agent:'' @ ext)\<rparr>)
      | Some Abandoned \<Rightarrow> update_status (cx_id cx) Missed
      | Some Timed_Out \<Rightarrow> update_status (cx_id cx) Missed
      | Some Queue_Failed \<Rightarrow> do { leave_queue v qid (cx_id cx); update_status (cx_id cx) Failed }
      | None \<Rightarrow> skip);
     State_Monad.return True
   }"

definition queue_handler :: "env \<Rightarrow> nat \<Rightarrow> call_ctx \<Rightarrow> dial_result \<Rightarrow> bool sip" where
  "queue_handler v fuel cx route =
     (if dr_type route \<noteq> RQueue then State_Monad.return False
      else do {
        ivr \<leftarrow> gets en_ivr;
        if \<not> ivr then do { send (sip_code ServiceUnavailable); State_Monad.return True }
        else do {
          let qid = dr_target route;
          queue \<leftarrow> gets (\<lambda>e. get_queue (en_queue e) qid);
          case queue of
            None \<Rightarrow> do { send (sip_code NotFound); State_Monad.return True }
          | Some q \<Rightarrow> do {
              let caller = or_unknown (cx_calling cx);
              reg \<leftarrow> db_read (\<lambda>d. is_registered d caller);
              if \<not> is_from_trunk (cf_trunk v) (rq_source (cx_req cx)) \<and> \<not> reg then do {
                audit AuCallBlocked caller (Some qid);
                update_status (cx_id cx) Failed;
                send (sip_code Forbidden);
                State_Monad.return True
              }
              else do {
                gate \<leftarrow> queue_gate v cx qid caller;
                if closed_company gate then do {
                  update (cx_id cx) (no_update\<lparr>up_to := Some (''queue:'' @ qid), up_status := Some Missed\<rparr>);
                  text \<leftarrow> announce v (rd_announcement (the gate));
                  play_unavailable v text;
                  State_Monad.return True
                }
                else do {
                  online \<leftarrow> gets (\<lambda>e. fst (agent_availability (en_queue e) qid));
                  if online = 0 then do {
                    update (cx_id cx) (no_update\<lparr>up_to := Some (''queue:'' @ qid), up_status := Some Missed\<rparr>);
                    text \<leftarrow> (if cf_routing v then announce v (Some ''no_agents_online'')
                      else State_Monad.return (announcement_text (Some ''no_agents_online'')));
                    play_unavailable v text;
                    State_Monad.return True
                  }
                  else do {
                    let name = str_or (header (cx_req cx) ''X-Display-Name'') (str_or (rq_calling_name (cx_req cx)) caller);
                    now \<leftarrow> clock v;
                    queue_do (enqueue now qid (cx_id cx) caller name);
                    update (cx_id cx) (no_update\<lparr>up_to := Some (''queue:'' @ qid), up_status := Some Answered\<rparr>);
                    queue_serve v fuel cx qid (length (qu_agents q))
                  }
                }
              }
            }
        }
      })"

section \<open>Emergency and IVR\<close>

definition emergency_handler :: "env \<Rightarrow> call_ctx \<Rightarrow> dial_result \<Rightarrow> bool sip" where
  "emergency_handler v cx route =
     (if dr_type route \<noteq> REmergency then State_Monad.return False
      else do {
        audit AuCallStart (cx_calling cx) (Some (dr_target route));
        if tk_enabled (cf_trunk v) then do {
          ok \<leftarrow> route_call v (dr_target route) None;
          update_status (cx_id cx) (if ok then Answered else Failed);
          State_Monad.return True
        }
        else do {
          send (sip_code ServiceUnavailable);
          update_status (cx_id cx) Failed;
          State_Monad.return True
        }
      })"

definition ivr_handler :: "env \<Rightarrow> call_ctx \<Rightarrow> dial_result \<Rightarrow> bool sip" where
  "ivr_handler v cx route =
     (if dr_type route \<noteq> RIvr then State_Monad.return False
      else do {
        up \<leftarrow> is_connected;
        if \<not> up \<or> \<not> cf_ivr v then State_Monad.return False
        else do {
          audit AuCallStart (cx_calling cx) (Some (dr_target route));
          handle_incoming_call v (cx_req cx) (Some (cx_id cx)) (Some (dr_target route));
          State_Monad.return True
        }
      })"

section \<open>Internal extensions\<close>

definition internal_gate :: "env \<Rightarrow> call_ctx \<Rightarrow> dial_result \<Rightarrow> routing_decision option sip" where
  "internal_gate v cx route = do {
     ivr \<leftarrow> gets en_ivr;
     if cf_routing v \<and> ivr then routing_decision v
       \<lparr>rc_call_id = cx_id cx, rc_caller = cx_calling cx, rc_called = cx_called cx,
        rc_extension = Some (dr_target route), rc_queue = None, rc_prefer_queue = False\<rparr>
     else State_Monad.return None
   }"

definition announced_away :: "routing_decision option \<Rightarrow> bool" where
  "announced_away d = (case d of Some r \<Rightarrow> rd_type r = DtAnnouncement | None \<Rightarrow> False)"

definition internal_handler :: "env \<Rightarrow> call_ctx \<Rightarrow> dial_result \<Rightarrow> bool sip" where
  "internal_handler v cx route =
     (if dr_type route \<noteq> RInternal then State_Monad.return False
      else do {
        let target = dr_target route;
        gate \<leftarrow> internal_gate v cx route;
        if announced_away gate then do {
          text \<leftarrow> announce v (rd_announcement (the gate));
          play_unavailable v text;
          update_status (cx_id cx) Missed;
          State_Monad.return True
        }
        else do {
          reg \<leftarrow> db_read (\<lambda>d. get_registration d target);
          user \<leftarrow> db_read (\<lambda>d. get_user d target);
          case reg of
            Some r \<Rightarrow> do {
              (if (case user of Some u \<Rightarrow> su_dnd u | None \<Rightarrow> False)
               then route_do_not_disturb v (cx_req cx) target (cx_id cx) (cx_calling cx)
               else route_to_extension v (cx_req cx) (rg_contact r) (cx_id cx));
              State_Monad.return True
            }
          | None \<Rightarrow>
              if user = None \<and> (case cx_widget cx of Some w \<Rightarrow> wc_route_type w | None \<Rightarrow> None) \<noteq> Some ''extension''
              then State_Monad.return False
              else do {
                route_unreachable v (cx_req cx) target (cx_id cx) (cx_calling cx) Offline;
                State_Monad.return True
              }
        }
      })"

section \<open>External SIP peers\<close>

definition sanitize_user :: "string \<Rightarrow> string" where
  "sanitize_user s = filter (\<lambda>c. is_letter c \<or> is_digit c \<or> c \<in> {CHR ''+'', CHR ''.'', CHR ''_'', CHR ''-''}) s"

definition peer_uri :: "sip_peer \<Rightarrow> string \<Rightarrow> string" where
  "peer_uri p user =
     ''sip:'' @ (if user \<noteq> [] then sanitize_user user @ ''@'' else []) @ pr_host p @
       (case pr_port p of Some n \<Rightarrow> if n \<noteq> 0 then '':'' @ show_nat n else [] | None \<Rightarrow> []) @
       (if truthy (pr_transport p) then '';transport='' @ the (pr_transport p) else [])"

definition peer_from :: "env \<Rightarrow> sip_peer \<Rightarrow> string \<Rightarrow> database \<Rightarrow> string" where
  "peer_from v p caller d =
     (let caller_id = (case get_user d caller of Some u \<Rightarrow> su_outbound_caller_id u | None \<Rightarrow> None);
          user = sanitize_user (str_or (pr_from_user p) (str_or caller_id caller))
      in ''<sip:'' @ (if user \<noteq> [] then user else ''anonymous'') @ ''@'' @
           str_or (pr_from_host p) (cf_domain v) @ ''>'')"

definition peer_proxy :: "sip_peer \<Rightarrow> string option" where
  "peer_proxy p = (if truthy (pr_proxy p)
     then Some (if prefix ''sip:'' (the (pr_proxy p)) then the (pr_proxy p) else ''sip:'' @ the (pr_proxy p))
     else None)"

definition peer_auth :: "sip_peer \<Rightarrow> (string \<times> string) option" where
  "peer_auth p = (if truthy (pr_username p) then Some (the (pr_username p), str_or (pr_password p) []) else None)"

text \<open>The part before and after the last at-sign.\<close>

definition split_last_at :: "string \<Rightarrow> string \<times> string" where
  "split_last_at s =
     (let host = rev (takeWhile (\<lambda>c. c \<noteq> CHR ''@'') (rev s))
      in if length host = length s then ([], s) else (take (length s - length host - 1) s, host))"

definition sip_uri_handler :: "env \<Rightarrow> call_ctx \<Rightarrow> dial_result \<Rightarrow> bool sip" where
  "sip_uri_handler v cx route =
     (if dr_type route \<noteq> RSipUri then State_Monad.return False
      else do {
        let caller = cx_calling cx;
        reg \<leftarrow> registered caller;
        if \<not> reg then do {
          audit AuCallBlocked (or_unknown caller) (Some (dr_normalized route));
          refuse (cx_id cx) Outbound 403
        }
        else do {
          let parts = split_last_at (dr_target route);
          case find_sip_peer (cf_peers v) (to_lower (snd parts)) of
            None \<Rightarrow> refuse (cx_id cx) Outbound 403
          | Some p \<Rightarrow> do {
              from_header \<leftarrow> db_read (peer_from v p caller);
              update (cx_id cx) (no_update\<lparr>up_to := Some (dr_target route), up_direction := Some Outbound\<rparr>);
              act (Peer_Invite (peer_uri p (fst parts)) from_header (peer_proxy p) (peer_auth p));
              uac \<leftarrow> external (\<lambda>n. wd_uac v n (peer_uri p (fst parts)));
              uas \<leftarrow> (case uac of
                  Uac_Failed status \<Rightarrow> State_Monad.return (Some status)
                | Uac_Up \<Rightarrow> do {
                    r \<leftarrow> external (wd_uas v);
                    case r of
                      Uas_Up \<Rightarrow> do { act Accept; State_Monad.return None }
                    | Uas_Refused \<Rightarrow> State_Monad.return (Some 0)
                    | Uas_Lost \<Rightarrow> do { act Accept; State_Monad.return (Some 0) }
                  });
              case uas of
                None \<Rightarrow> do { update_status (cx_id cx) Answered; State_Monad.return True }
              | Some status \<Rightarrow> do {
                  update (cx_id cx) (set_status_dir Failed Outbound);
                  send_unless_final (if 400 \<le> status \<and> status \<le> 699 then status else 503);
                  State_Monad.return True
                }
            }
        }
      })"

section \<open>The trunk\<close>

definition wallet_short :: "env \<Rightarrow> string \<Rightarrow> string \<Rightarrow> database \<Rightarrow> bool" where
  "wallet_short v number caller d =
     (cf_prepaid v \<and>
      (case estimate_for d number (Some caller) of
         None \<Rightarrow> False
       | Some (cost, _) \<Rightarrow>
           0 < cost \<and> (case get_user d caller of Some u \<Rightarrow> or_else (su_balance u) 0 | None \<Rightarrow> 0) < cost))"

definition external_handler :: "env \<Rightarrow> call_ctx \<Rightarrow> dial_result \<Rightarrow> bool sip" where
  "external_handler v cx route =
     (if dr_type route \<noteq> RExternal \<or> \<not> tk_enabled (cf_trunk v) then State_Monad.return False
      else do {
        let caller = cx_calling cx;
        let number = dr_normalized route;
        reg \<leftarrow> registered caller;
        if \<not> reg then do {
          audit AuCallBlocked (or_unknown caller) (Some number);
          refuse (cx_id cx) Outbound 403
        }
        else do {
          unrated \<leftarrow> db_read (\<lambda>d. is_unrated_destination d number (Some caller));
          if cf_block_unrated v \<and> unrated then do {
            audit AuCallBlocked caller (Some number);
            refuse (cx_id cx) Outbound 403
          }
          else do {
            short \<leftarrow> db_read (wallet_short v number caller);
            if short then do {
              audit AuCallBlocked caller (Some number);
              refuse (cx_id cx) Outbound 402
            }
            else do {
              caller_id \<leftarrow> db_read (\<lambda>d. case get_user d caller of
                Some u \<Rightarrow> su_outbound_caller_id u | None \<Rightarrow> None);
              ok \<leftarrow> route_call v number caller_id;
              update_status (cx_id cx) (if ok then Answered else Failed);
              State_Monad.return True
            }
          }
        }
      })"

end
