(* ===== verification/Sip_Server.thy ===== *)
theory Sip_Server
  imports Route_Handlers
begin

text \<open>
  \<^verbatim>\<open>src/src/sip/sip.server.ts\<close>: the REGISTER and INVITE pipelines. An INVITE passes the
  ban and the rate limit, is classified by the dial plan, screened (only trunk sources and
  widget tokens are exempt), logged, tried against the owner's routing rule, pushed to a
  sleeping device, and then offered to the handlers in order.
\<close>

section \<open>Admission\<close>

definition is_trusted :: "env \<Rightarrow> string \<Rightarrow> bool" where
  "is_trusted v ip \<longleftrightarrow> is_from_trunk (cf_trunk v) ip \<or> ip \<in> set (cf_trusted v)"

datatype admission = Admitted | Banned | Flooding

definition admit :: "env \<Rightarrow> string \<Rightarrow> admission sip" where
  "admit v ip = do {
     now \<leftarrow> clock v;
     banned \<leftarrow> gets (\<lambda>e. is_banned now (en_guard e) ip);
     if banned then State_Monad.return Banned
     else do {
       ok \<leftarrow> State (\<lambda>e. case check_sip_rate (cf_rate_limit v) (cf_rate_window v) now ip (en_rates e) of
         (b, m) \<Rightarrow> (b, e\<lparr>en_rates := m\<rparr>));
       if ok then State_Monad.return Admitted
       else do { offend v ip; State_Monad.return Flooding }
     }
   }"

section \<open>REGISTER\<close>

text \<open>\<^verbatim>\<open>/sip:([^@>]+)@/\<close>.\<close>

fun header_user :: "string \<Rightarrow> string option" where
  "header_user [] = None"
| "header_user (c # cs) =
     (let user = takeWhile (\<lambda>x. x \<noteq> CHR ''@'' \<and> x \<noteq> CHR ''>'') (drop 3 cs);
          rest = dropWhile (\<lambda>x. x \<noteq> CHR ''@'' \<and> x \<noteq> CHR ''>'') (drop 3 cs)
      in if prefix ''sip:'' (c # cs) \<and> user \<noteq> [] \<and> rest \<noteq> [] \<and> hd rest = CHR ''@'' then Some user
         else header_user cs)"

definition either_header :: "sip_request \<Rightarrow> string \<Rightarrow> string \<Rightarrow> string" where
  "either_header req a b = str_or (header req a) (str_or (header req b) [])"

definition register_username :: "sip_request \<Rightarrow> string" where
  "register_username req =
     str_or (header_user (either_header req ''From'' ''from''))
       (str_or (header_user (either_header req ''To'' ''to''))
         (str_or (rq_calling req) ''unknown''))"

definition register_expires :: "sip_request \<Rightarrow> int option" where
  "register_expires req = parse_int (str_or (header req ''Expires'') ''3600'')"

definition registration_of :: "sip_request \<Rightarrow> sip_registration" where
  "registration_of req = \<lparr>rg_contact = str_or (header req ''Contact'') [], rg_expires = register_expires req,
     rg_ua = None, rg_source = Some \<lparr>src_address = rq_source req, src_port = rq_port req,
       src_protocol = rq_protocol req\<rparr>\<rparr>"

text \<open>The queue service reads presence from the registrations.\<close>

definition sync_queues :: "env \<Rightarrow> unit sip" where
  "sync_queues v = do {
     now \<leftarrow> clock v;
     changes (\<lambda>e. e\<lparr>en_queue := sync_presence now (en_queue e\<lparr>qs_online := is_registered (en_db e)\<rparr>)\<rparr>)
   }"

definition register_device :: "env \<Rightarrow> sip_request \<Rightarrow> string \<Rightarrow> string \<Rightarrow> unit sip" where
  "register_device v req ip ext = do {
     stored \<leftarrow> external (wd_store v);
     if \<not> stored then send (sip_code ServerError)
     else do {
       now \<leftarrow> clock v;
       let reg = registration_of req;
       changes (\<lambda>e. e\<lparr>en_store := ms_register now ext reg (en_store e)\<rparr>);
       db_do (register_user ext reg);
       audit AuRegister ext None;
       send (sip_code OK);
       now' \<leftarrow> clock v;
       guard_do (record_success now' ip);
       sync_queues v;
       detail \<leftarrow> external (\<lambda>n. wd_detail v n ext);
       (case detail of
          None \<Rightarrow> skip
        | Some (blocked, forwarding, pstn, balance) \<Rightarrow>
            db_do (hydrate_user_detail blocked forwarding pstn balance ext))
     }
   }"

definition unregister_device :: "env \<Rightarrow> string \<Rightarrow> unit sip" where
  "unregister_device v ext = do {
     stored \<leftarrow> external (wd_store v);
     if \<not> stored then send (sip_code ServerError)
     else do {
       changes (\<lambda>e. e\<lparr>en_store := ms_unregister ext (en_store e)\<rparr>);
       db_do (unregister_user ext);
       audit AuUnregister ext None;
       send (sip_code OK);
       sync_queues v
     }
   }"

definition handle_register :: "env \<Rightarrow> sip_request \<Rightarrow> unit sip" where
  "handle_register v req = do {
     changes (\<lambda>e. e\<lparr>en_trace := []\<rparr>);
     let ip = rq_source req;
     a \<leftarrow> admit v ip;
     case a of
       Banned \<Rightarrow> send (sip_code Forbidden)
     | Flooding \<Rightarrow> send (sip_code RateLimited)
     | Admitted \<Rightarrow> do {
         user \<leftarrow> db_read (\<lambda>d. get_user d (register_username req));
         case user of
           None \<Rightarrow> do {
             offend v ip;
             send (sip_code Forbidden)
           }
         | Some u \<Rightarrow>
             if register_expires req = Some 0 then unregister_device v (su_extension u)
             else register_device v req ip (su_extension u)
       }
   }"

section \<open>INVITE\<close>

text \<open>\<^verbatim>\<open>parseWidgetToken\<close>: the header by either spelling, trimmed, then verified.\<close>

definition parse_widget_token :: "env \<Rightarrow> sip_request \<Rightarrow> widget_claims option" where
  "parse_widget_token v req =
     (let token = trim (either_header req ''X-Widget-Token'' ''x-widget-token'')
      in if token = [] then None else wd_token v token)"

definition is_invite_legitimate :: "database \<Rightarrow> dial_result \<Rightarrow> string \<Rightarrow> bool" where
  "is_invite_legitimate d route caller =
     (case dr_type route of
        RInternal \<Rightarrow> get_user d (dr_target route) \<noteq> None
      | RExternal \<Rightarrow> is_registered d caller
      | RSipUri \<Rightarrow> is_registered d caller
      | RConference \<Rightarrow> is_registered d caller
      | RQueue \<Rightarrow> is_registered d caller
      | RIvr \<Rightarrow> True
      | REmergency \<Rightarrow> True
      | _ \<Rightarrow> False)"

definition classify :: "env \<Rightarrow> database \<Rightarrow> sip_request \<Rightarrow> string \<Rightarrow> dial_result" where
  "classify v d req called =
     (let route = (case resolve_external_sip (cf_peers v) (wd_parse_uri v) (rq_uri req) of
            Some r \<Rightarrow> r | None \<Rightarrow> resolve (cf_emergency v) called)
      in if dr_type route = RInternal \<and> get_user d (dr_target route) = None \<and>
            is_ivr_flow_extension d (dr_target route)
         then route\<lparr>dr_type := RIvr\<rparr> else route)"

definition dispatch_routing_rule :: "env \<Rightarrow> call_ctx \<Rightarrow> routing_rule \<Rightarrow> bool sip" where
  "dispatch_routing_rule v cx rule =
     (let value = ru_dest_value rule;
          route = (\<lambda>t. dial_to t value (cx_called cx) value)
      in if ru_dest_type rule = ''ivr'' then ivr_handler v cx (route RIvr)
         else if ru_dest_type rule = ''extension'' then internal_handler v cx (route RInternal)
         else if ru_dest_type rule = ''pstn'' then
           (if \<not> tk_enabled (cf_trunk v) then do {
              send_unless_final (sip_code TemporarilyUnavailable);
              update_status (cx_id cx) Missed;
              State_Monad.return True
            }
            else do {
              ok \<leftarrow> route_call v (dr_normalized (resolve (cf_emergency v) value)) None;
              update_status (cx_id cx) (if ok then Answered else Failed);
              State_Monad.return True
            })
         else if ru_dest_type rule = ''voicemail'' then do {
           ivr \<leftarrow> gets en_ivr;
           (if cf_voicemail v \<and> ivr then do {
              from_name \<leftarrow> caller_name (cx_req cx) (cx_calling cx);
              saved \<leftarrow> record_voicemail v (ru_owner rule) (cx_calling cx) from_name;
              update_status (cx_id cx) (if saved then Voicemail else Missed)
            }
            else do {
              send_unless_final (sip_code TemporarilyUnavailable);
              update_status (cx_id cx) Missed
            });
           State_Monad.return True
         }
         else State_Monad.return False)"

definition lookup_rule :: "env \<Rightarrow> string \<Rightarrow> routing_rule option sip" where
  "lookup_rule v number = do {
     loaded \<leftarrow> external (\<lambda>n. wd_rule v n number);
     State (\<lambda>e. case get_routing_rule loaded number (en_db e) of (r, d) \<Rightarrow> (r, e\<lparr>en_db := d\<rparr>))
   }"

definition apply_rule :: "env \<Rightarrow> call_ctx \<Rightarrow> bool sip" where
  "apply_rule v cx =
     (if cx_widget cx \<noteq> None then State_Monad.return False
      else do {
        rule \<leftarrow> lookup_rule v (cx_called cx);
        case rule of
          None \<Rightarrow> State_Monad.return False
        | Some r \<Rightarrow> do {
            audit AuCallRouted (cx_calling cx) (Some (cx_called cx));
            dispatch_routing_rule v cx r
          }
      })"

definition push_wakeup :: "env \<Rightarrow> call_ctx \<Rightarrow> unit sip" where
  "push_wakeup v cx = do {
     asleep \<leftarrow> db_read (\<lambda>d. get_user d (cx_called cx) \<noteq> None \<and>
       (cf_push_always v \<or> \<not> is_registered d (cx_called cx)));
     if cf_push v \<and> cx_widget cx = None \<and> asleep then act (Push (cx_called cx) (cx_id cx)) else skip
   }"

text \<open>The handlers in priority order, the trunk's first; the first that takes the call ends the chain.\<close>

definition route_handlers :: "env \<Rightarrow> nat \<Rightarrow> call_ctx \<Rightarrow> dial_result \<Rightarrow> bool sip list" where
  "route_handlers v fuel cx route =
     [trunk_inbound v cx, widget_handler v cx route, teams_handler v cx, conference_handler v cx route,
      queue_handler v fuel cx route, emergency_handler v cx route, ivr_handler v cx route,
      internal_handler v cx route, sip_uri_handler v cx route, external_handler v cx route]"

fun first_taken :: "bool sip list \<Rightarrow> bool sip" where
  "first_taken [] = State_Monad.return False"
| "first_taken (h # hs) = do { taken \<leftarrow> h; if taken then State_Monad.return True else first_taken hs }"

definition route_invite :: "env \<Rightarrow> nat \<Rightarrow> call_ctx \<Rightarrow> dial_result \<Rightarrow> unit sip" where
  "route_invite v fuel cx route = do {
     ruled \<leftarrow> apply_rule v cx;
     if ruled then skip
     else do {
       push_wakeup v cx;
       taken \<leftarrow> first_taken (route_handlers v fuel cx route);
       if taken then skip
       else do {
         send (sip_code TemporarilyUnavailable);
         update_status (cx_id cx) Missed
       }
     }
   }"

definition log_invite :: "env \<Rightarrow> call_ctx \<Rightarrow> unit sip" where
  "log_invite v cx = do {
     now \<leftarrow> clock v;
     name \<leftarrow> name_of (cx_calling cx);
     db_do (log_call \<lparr>cl_id = cx_id cx, cl_from = cx_calling cx, cl_to = cx_called cx, cl_from_name = name,
       cl_status = Ringing, cl_direction = Inbound, cl_start = now, cl_end = None, cl_duration = None,
       cl_from_ext = None, cl_to_ext = None, cl_cost = None, cl_currency = None, cl_rate_prefix = None,
       cl_billed_secs = None\<rparr>);
     audit AuCallStart (cx_calling cx) (Some (cx_called cx))
   }"

definition accept_invite :: "env \<Rightarrow> nat \<Rightarrow> sip_request \<Rightarrow> unit sip" where
  "accept_invite v fuel req = do {
     let ip = rq_source req;
     let called = or_else (uri_user req) (rq_called req);
     let claims = parse_widget_token v req;
     let calling = str_or (Option.bind claims wc_caller_id) (str_or (rq_calling req) ''unknown'');
     route \<leftarrow> db_read (\<lambda>d. classify v d req called);
     legitimate \<leftarrow> db_read (\<lambda>d. is_invite_legitimate d route calling);
     if \<not> is_from_trunk (cf_trunk v) ip \<and> claims = None \<and> \<not> legitimate then do {
       offend v ip;
       audit AuCallBlocked calling (Some called);
       send (sip_code Forbidden)
     }
     else do {
       cid \<leftarrow> external (wd_uuid v);
       let cx = \<lparr>cx_req = req, cx_called = called, cx_calling = calling, cx_id = cid, cx_widget = claims\<rparr>;
       log_invite v cx;
       route_invite v fuel cx route
     }
   }"

definition handle_invite :: "env \<Rightarrow> nat \<Rightarrow> sip_request \<Rightarrow> unit sip" where
  "handle_invite v fuel req = do {
     changes (\<lambda>e. e\<lparr>en_trace := []\<rparr>);
     a \<leftarrow> admit v (rq_source req);
     case a of
       Banned \<Rightarrow> send (sip_code Forbidden)
     | Flooding \<Rightarrow> send (sip_code RateLimited)
     | Admitted \<Rightarrow> accept_invite v fuel req
   }"

end
