(* ===== verification/Step_Invariants.thy ===== *)
theory Step_Invariants
  imports Sip_Server
begin

text \<open>
  What a whole request keeps. An invariant of the engine together with a set of allowed
  effects is proved once over every step of the SIP layer: \<open>step_invariant\<close> for the
  steps that answer nobody, \<open>answering\<close> for those that send a final response,
  \<open>call_policy\<close> for those that ring devices and mobiles, \<open>invite_policy\<close> for the INVITE pipeline with what each route has checked before it
  dials. The toll rule, the count of final responses and the soundness of the store are
  instances.
\<close>

section \<open>Steps that answer nobody\<close>

definition rings :: "effect \<Rightarrow> bool" where
  "rings eff \<longleftrightarrow> (case eff of Device_Invite _ \<Rightarrow> True | _ \<Rightarrow> False)"

lemma statuses_of_requests [simp]:
  "(if b then x else y) = Ended \<longleftrightarrow> b \<and> x = Ended \<or> \<not> b \<and> y = Ended"
  "flow_status r \<noteq> Ended" "unreachable_status reason \<noteq> Ended"
  by (auto simp: flow_status_def unreachable_status_def split: flow_result.split)

locale step_invariant =
  fixes inv :: "engine \<Rightarrow> bool" and ok :: "effect \<Rightarrow> bool"
  assumes same: "en_db e' = en_db e \<Longrightarrow> en_trace e' = en_trace e \<Longrightarrow> inv e \<Longrightarrow> inv e'"
    and acted: "inv e \<Longrightarrow> ok eff \<Longrightarrow> inv (e\<lparr>en_trace := en_trace e @ [eff]\<rparr>)"
    and logged: "inv e \<Longrightarrow> inv (e\<lparr>en_db := log_call c (en_db e)\<rparr>)"
    and updated: "inv e \<Longrightarrow> up_status u \<noteq> Some Ended \<Longrightarrow> inv (e\<lparr>en_db := update_call cid u (en_db e)\<rparr>)"
    and inner: "\<not> outgoing eff \<Longrightarrow> \<not> is_final eff \<Longrightarrow> \<not> rings eff \<Longrightarrow> ok eff"
begin

definition keeps :: "'a sip \<Rightarrow> bool" where
  "keeps m \<longleftrightarrow> (\<forall>e. inv e \<longrightarrow> inv (snd (run_state m e)))"

lemma keepsI: "(\<And>e. inv e \<Longrightarrow> inv (snd (run_state m e))) \<Longrightarrow> keeps m"
  by (simp add: keeps_def)

lemma keepsD: "keeps m \<Longrightarrow> inv e \<Longrightarrow> inv (snd (run_state m e))"
  by (simp add: keeps_def)

lemma keeps_return [intro!, simp]: "keeps (State_Monad.return a)"
  by (simp add: keeps_def)

lemma keeps_bind_result:
  "keeps m \<Longrightarrow> (\<And>e. inv e \<Longrightarrow> keeps (f (fst (run_state m e)))) \<Longrightarrow> keeps (State_Monad.bind m f)"
  by (simp add: keeps_def split_beta)

lemma keeps_bind: "keeps m \<Longrightarrow> (\<And>a. keeps (f a)) \<Longrightarrow> keeps (State_Monad.bind m f)"
  by (rule keeps_bind_result)

lemma keeps_read: "(\<And>e. inv e \<Longrightarrow> keeps (g (f (en_db e)))) \<Longrightarrow> keeps (State_Monad.bind (db_read f) g)"
  by (simp add: keeps_def)

lemma keeps_act: "ok eff \<Longrightarrow> keeps (act eff)"
  by (simp add: keeps_def acted)

lemma keeps_inner: "\<not> outgoing eff \<Longrightarrow> \<not> is_final eff \<Longrightarrow> \<not> rings eff \<Longrightarrow> keeps (act eff)"
  by (intro keeps_act inner)

lemma keeps_same: "(\<And>e :: engine. en_db (snd (run_state m e)) = en_db e \<and>
    en_trace (snd (run_state m e)) = en_trace e) \<Longrightarrow> keeps m"
  by (rule keepsI) (blast intro: same)

lemma keeps_quiet [intro!, simp]:
  "keeps skip" "keeps (gets f)" "keeps (external h)" "keeps (clock v)" "keeps (queue_do q)"
  "keeps (conf_do c)" "keeps (guard_do gd)" "keeps (db_read k)"
  by (rule keeps_same; simp)+

text \<open>Records of calls change, but no step of a request ends a call.\<close>

lemma keeps_record_call [intro!, simp]:
  "up_status u \<noteq> Some Ended \<Longrightarrow> keeps (update cid u)"
  "st \<noteq> Ended \<Longrightarrow> keeps (update_status cid st)"
  "keeps (db_do (log_call c))"
  by (simp_all add: keeps_def update_def update_status_def updated logged)

lemma keeps_changes: "(\<And>e. en_db (f e) = en_db e \<and> en_trace (f e) = en_trace e) \<Longrightarrow> keeps (changes f)"
  by (rule keeps_same) simp

lemma keeps_state: "(\<And>e. en_db (snd (f e)) = en_db e \<and> en_trace (snd (f e)) = en_trace e) \<Longrightarrow> keeps (State f)"
  by (rule keeps_same) simp

lemma keeps_speak [intro!, simp]:
  "keeps (notify v who ev r tg)" "keeps (audit au who what)" "keeps (play f)"
  "keeps (act Teardown)" "keeps (act (Bridge b))" "keeps (act (Agent_Invite a))"
  "keeps (act (Play f))" "keeps (act (Mail c t))" "keeps (act (New_Voicemail m w))" "keeps (act (Push who i))"
  "keeps (act (Firewall argv))"
  by (auto simp: notify_def audit_def play_def outgoing_def rings_def intro!: keeps_bind keeps_inner)

lemma keeps_offend [intro!, simp]: "keeps (offend v ip)"
  by (auto simp: offend_def split: option.split prod.split intro!: keeps_bind keeps_state)

lemma keeps_leg: "(\<And>u. ok (Trunk_Invite number u)) \<Longrightarrow> keeps (create_outbound_leg v number cid)"
  by (auto simp: create_outbound_leg_def Let_def intro!: keeps_bind keeps_act)

subsection \<open>Media\<close>

lemma keeps_connection [intro!, simp]:
  "keeps (init_attempts v n)" "keeps (ensure_connected v)" "keeps is_connected"
  "keeps (op v)" "keeps (set_voice v)" "keeps (prepare_voice v)"
proof -
  show init: "keeps (init_attempts v n)" for n
    by (induction n) (auto intro!: keeps_bind keeps_changes)
  show "keeps (ensure_connected v)" "keeps is_connected"
    by (auto simp: ensure_connected_def initialize_def is_connected_def init intro!: keeps_bind)
  show op: "keeps (op v)" by (simp add: op_def)
  show voice: "keeps (set_voice v)" by (auto simp: set_voice_def op intro!: keeps_bind)
  show "keeps (prepare_voice v)" by (auto simp: prepare_voice_def voice intro!: keeps_bind)
qed

lemma keeps_capture [intro!, simp]: "keeps (capture_voicemail v mb from nm g mx)"
  by (auto simp: capture_voicemail_def intro!: keeps_bind keeps_changes split: option.split)

lemma keeps_callback:
  "(\<And>u. ok (Trunk_Invite destination u)) \<Longrightarrow> (\<And>u. ok (Trunk_Invite customer u)) \<Longrightarrow>
     keeps (bridge_pstn_to_pstn v destination customer cid)"
  by (auto simp: bridge_pstn_to_pstn_def Let_def intro!: keeps_bind keeps_leg
      split: option.split uac_outcome.split)

definition keeps_opts :: "queue_opts \<Rightarrow> bool" where
  "keeps_opts q \<longleftrightarrow> keeps (qo_next q) \<and> (\<forall>x. keeps (qo_ring_agent q x) \<and> keeps (qo_no_answer q x) \<and>
     keeps (qo_connected q x)) \<and> keeps (qo_abandoned q) \<and> keeps (qo_timeout q) \<and> keeps (qo_ended q)"

lemma keeps_optsD:
  assumes "keeps_opts q"
  shows "keeps (qo_next q)" "\<And>x. keeps (qo_ring_agent q x)" "\<And>x. keeps (qo_no_answer q x)"
    "\<And>x. keeps (qo_connected q x)" "keeps (qo_abandoned q)" "keeps (qo_timeout q)" "keeps (qo_ended q)"
  using assms by (simp_all add: keeps_opts_def)

lemma keeps_ring_agent [intro!, simp]: "keeps (ring_agent v contact)"
  by (auto simp: ring_agent_def intro!: keeps_bind)

lemma keeps_queue_parts:
  assumes "keeps_opts q"
  shows "keeps (run_ended q c)" "keeps (release_failed v q c)" "keeps (hear v q c)"
proof -
  show r: "keeps (run_ended q c)" for c
    using keeps_optsD [OF assms] by (auto simp: run_ended_def intro!: keeps_bind)
  show "keeps (release_failed v q c)" "keeps (hear v q c)"
    by (auto simp: release_failed_def hear_def intro!: keeps_bind r)
qed

lemma keeps_collect [intro!, simp]: "keeps (prompt_and_collect v prompt valid tries)"
proof -
  have "keeps (collect_rounds v prompt valid n)" for n
    by (induction n) (auto intro!: keeps_bind split: dtmf_outcome.split)
  then show ?thesis by (auto simp: prompt_and_collect_def intro!: keeps_bind)
qed

subsection \<open>Flows\<close>

lemma keeps_flow_steps [intro!, simp]:
  "keeps (flow_send_email v m)" "keeps (announce v key)" "keeps (routing_decision v ctx)"
  "keeps (modify_call cid g)" "keeps (flow_transfer v cid caller called t)"
  "keeps (flow_voicemail v caller nm mb gr mx)" "keeps (name_of n)" "keeps (caller_name req c)"
proof -
  show a: "keeps (announce v key)" for key by (simp add: announce_def)
  show rd: "keeps (routing_decision v ctx)" for ctx
    by (auto simp: routing_decision_def intro!: keeps_bind)
  show mc: "keeps (modify_call cid g)" for g
    by (auto simp: modify_call_def intro!: keeps_changes)
  have "keeps (get_connector v c)" for c
    by (auto simp: get_connector_def Let_def intro!: keeps_bind keeps_changes)
  then show "keeps (flow_send_email v m)"
    by (auto simp: flow_send_email_def intro!: keeps_bind split: option.split)
  show "keeps (flow_transfer v cid caller called t)"
    by (auto simp: flow_transfer_def Let_def a rd mc intro!: keeps_bind split: option.split)
  show "keeps (flow_voicemail v caller nm mb gr mx)"
    by (auto simp: flow_voicemail_def intro!: keeps_bind)
  show n: "keeps (name_of n)" for n by (simp add: name_of_def)
  show "keeps (caller_name req c)" by (simp add: caller_name_def n)
qed

text \<open>The interpreter's handlers run over the engine; a flow keeps what they keep.\<close>

definition kept :: "flow_state \<Rightarrow> bool" where
  "kept s \<longleftrightarrow> inv (fs_engine s)"

lemma fs_step_kept: "keeps m \<Longrightarrow> kept s \<Longrightarrow> kept (snd (fs_step a m s))"
  by (auto simp: fs_step_def kept_def keeps_def split: option.split prod.split dest: spec [of _ "fs_engine s"])

lemma keeps_heard: "keeps m \<Longrightarrow> keeps (heard v m)"
  by (auto simp: heard_def intro!: keeps_bind)

interpretation flow: flow_host "flow_handlers v cid caller called nm" kept
  for v cid caller called nm
  by unfold_locales (auto simp: flow_handlers_def intro!: fs_step_kept keeps_heard)

lemma keeps_run_flow [intro!, simp]: "keeps (run_flow_for_call v flow cid caller called nm)"
proof (rule keepsI)
  fix e
  assume "inv e"
  then have "kept \<lparr>fs_engine = e, fs_thrown = False, fs_hung = False\<rparr>"
    by (simp add: kept_def)
  from flow.run_flow_inv [OF this, of flow "\<lparr>fx_call_id = cid, fx_caller = caller, fx_dialed = called\<rparr>"
      v cid caller called nm]
  show "inv (snd (run_state (run_flow_for_call v flow cid caller called nm) e))"
    by (simp add: run_flow_for_call_def kept_def split_beta)
qed

subsection \<open>The edges of the pipeline\<close>

lemma keeps_queue_hooks [intro!, simp]:
  "keeps (next_with_contact qid n ex)" "keeps (leave_queue v qid cid)"
  "keeps_opts (queue_options v qid cid roster)"
proof -
  show nc: "keeps (next_with_contact qid n ex)" for n ex
    by (induction n arbitrary: ex) (auto intro!: keeps_bind keeps_state split: option.split prod.split)
  show l: "keeps (leave_queue v qid cid)"
    by (auto simp: leave_queue_def intro!: keeps_bind)
  show "keeps_opts (queue_options v qid cid roster)"
    by (auto simp: keeps_opts_def queue_options_def nc l intro!: keeps_bind)
qed

lemma keeps_hooks [intro!, simp]:
  "keeps (fst (conference_hooks v rid c nm))" "keeps (snd (conference_hooks v rid c nm))"
  "keeps (registered c)" "keeps (queue_gate v cx qid c)" "keeps (internal_gate v cx route)"
  "keeps (push_wakeup v cx)" "keeps (admit v ip)" "keeps (log_invite v cx)"
  by (auto simp: conference_hooks_def registered_def queue_gate_def internal_gate_def push_wakeup_def
      admit_def log_invite_def intro!: keeps_bind keeps_state split: prod.split)

end

section \<open>Steps that answer\<close>

locale answering = step_invariant +
  assumes answers_ok: "is_final eff \<Longrightarrow> ok eff"
begin

lemma keeps_answers [intro!, simp]:
  "keeps (send n)" "keeps (send_unless_final n)" "keeps (act Accept)" "keeps (act (Relay n))"
proof -
  have reply: "ok (Reply n)" for n
    using inner [of "Reply n"] answers_ok [of "Reply n"] by (auto simp: outgoing_def rings_def)
  then show "keeps (send n)" "keeps (send_unless_final n)"
    by (auto simp: send_def send_unless_final_def intro!: keeps_bind keeps_act)
  show "keeps (act Accept)" "keeps (act (Relay n))"
    by (rule keeps_act, rule answers_ok, simp)+
qed

lemma keeps_connect [intro!, simp]: "keeps (connect_caller v)"
  by (auto simp: connect_caller_def intro!: keeps_bind split: media_outcome.split)

lemma keeps_voice_calls [intro!, simp]:
  "keeps (record_voicemail v mb from nm)" "keeps (play_unavailable v msg)"
  by (auto simp: record_voicemail_def play_unavailable_def intro!: keeps_bind split: option.split)

lemma keeps_teams:
  "(\<And>u. ok (Trunk_Invite dial_in u)) \<Longrightarrow> keeps (join_teams_meeting v dial_in conf)"
  by (auto simp: join_teams_meeting_def Let_def intro!: keeps_bind keeps_leg
      split: option.split uac_outcome.split)

lemma keeps_conference:
  "keeps joined \<Longrightarrow> keeps left \<Longrightarrow> keeps (join_conference v room joined left)"
  by (auto simp: join_conference_def Let_def intro!: keeps_bind)

lemma keeps_queue_failed: "keeps_opts q \<Longrightarrow> keeps (queue_failed q c)"
  by (auto simp: queue_failed_def intro!: keeps_bind keeps_queue_parts)

lemma keeps_queue_loop: "keeps_opts q \<Longrightarrow> keeps (queue_loop v fuel q deadline c)"
proof (induction fuel arbitrary: c)
  case (Suc fuel)
  note k = keeps_queue_parts [OF Suc.prems] keeps_queue_failed [OF Suc.prems] keeps_optsD [OF Suc.prems]
  with Suc.IH [OF Suc.prems] show ?case
    by (auto intro!: keeps_bind split: option.split prod.split)
qed simp

lemma keeps_enqueue_caller: "keeps_opts q \<Longrightarrow> keeps (enqueue_caller v fuel q)"
  by (auto simp: enqueue_caller_def Let_def intro!: keeps_bind keeps_queue_loop keeps_queue_failed)

lemma keeps_ivr [intro!, simp]:
  "keeps (ivr_failed cid a)" "keeps (ivr_menu v cid)" "keeps (ivr_flow v cid caller called flow)"
proof -
  show f: "keeps (ivr_failed cid a)" for a
    by (auto simp: ivr_failed_def intro!: keeps_bind keeps_changes)
  show "keeps (ivr_menu v cid)"
    by (auto simp: ivr_menu_def Let_def f intro!: keeps_bind split: option.split)
  show "keeps (ivr_flow v cid caller called flow)"
    by (auto simp: ivr_flow_def f intro!: keeps_bind keeps_changes split: option.split)
qed

lemma keeps_incoming [intro!, simp]: "keeps (handle_incoming_call v req existing dialed)"
  by (auto simp: handle_incoming_call_def Let_def intro!: keeps_bind keeps_changes split: option.split)

lemma keeps_route_call:
  "(\<And>u. ok (Trunk_Invite number u)) \<Longrightarrow> keeps (route_call v number cid)"
  by (auto simp: route_call_def intro!: keeps_bind keeps_leg
      split: option.split uac_outcome.split uas_outcome.split)

lemma keeps_refuse [intro!, simp]: "keeps (refuse cid dir code)"
  by (auto simp: refuse_def intro!: keeps_bind)

lemma keeps_dnd [intro!, simp]: "keeps (route_do_not_disturb v req called cid calling)"
  by (auto simp: route_do_not_disturb_def intro!: keeps_bind)

lemma keeps_media_handlers [intro!, simp]:
  "keeps (conference_handler v cx route)" "keeps (queue_serve v fuel cx qid roster)"
  "keeps (queue_handler v fuel cx route)" "keeps (ivr_handler v cx route)"
proof -
  show "keeps (conference_handler v cx route)"
    by (auto simp: conference_handler_def Let_def intro!: keeps_bind keeps_conference keeps_state
        split: option.split prod.split)
  show s: "keeps (queue_serve v fuel cx qid roster)" for qid roster
    by (auto simp: queue_serve_def intro!: keeps_bind keeps_enqueue_caller split: option.split queue_outcome.split)
  show "keeps (queue_handler v fuel cx route)"
    by (auto simp: queue_handler_def Let_def s intro!: keeps_bind split: option.split)
  show "keeps (ivr_handler v cx route)"
    by (auto simp: ivr_handler_def intro!: keeps_bind)
qed

end

section \<open>The chains behind an extension\<close>

text \<open>They ring devices and dial the mobiles of users.\<close>

locale call_policy = answering +
  fixes v :: env
  assumes rings_ok: "ok (Device_Invite uri)"
    and mobiles: "inv e \<Longrightarrow> user_mobile (en_db e) ext = Some m \<Longrightarrow> ok (Trunk_Invite m u)"
begin

lemma keeps_device [intro!, simp]: "keeps (act (Device_Invite uri))"
  by (rule keeps_act) (rule rings_ok)

lemma keeps_ring_device [intro!, simp]: "keeps (ring_device v uri)"
  by (auto simp: ring_device_def intro!: keeps_bind split: b2b_outcome.split)

lemma keeps_mobile:
  "inv e \<Longrightarrow> truthy (user_mobile (en_db e) ext) \<Longrightarrow> keeps (route_call v (the (user_mobile (en_db e) ext)) cid)"
  by (cases "user_mobile (en_db e) ext") (auto intro!: keeps_route_call mobiles)

lemma keeps_forward_call [intro!, simp]: "keeps (forward_call v target cid calling)"
  unfolding forward_call_def
  by (rule keeps_read)
    (auto simp: Let_def keeps_mobile intro!: keeps_bind keeps_read split: option.split b2b_outcome.split)

lemma keeps_unreachable [intro!, simp]: "keeps (route_unreachable v rq called cid calling reason)"
  unfolding route_unreachable_def
  by (rule keeps_read) (auto simp: keeps_mobile intro!: keeps_bind)

lemma keeps_ring_failed [intro!, simp]: "keeps (ring_failed v rq called cid calling status timed_out)"
  by (auto simp: ring_failed_def intro!: keeps_bind)

lemma keeps_route_to_extension [intro!, simp]: "keeps (route_to_extension v rq contact cid)"
  by (auto simp: route_to_extension_def Let_def intro!: keeps_bind split: b2b_outcome.split)

end

section \<open>The INVITE pipeline\<close>

definition called_of :: "sip_request \<Rightarrow> string" where
  "called_of req = or_else (uri_user req) (rq_called req)"

definition caller_of :: "env \<Rightarrow> sip_request \<Rightarrow> string" where
  "caller_of v req = str_or (Option.bind (parse_widget_token v req) wc_caller_id) (str_or (rq_calling req) ''unknown'')"

text \<open>
  What each route has checked when it dials: a caller's own numbers need his registration; a widget dials its pinned destination; a
  rule dials its PSTN destination.
\<close>

locale invite_policy = call_policy +
  fixes req :: sip_request
  assumes dials: "inv e \<Longrightarrow> is_registered (en_db e) (caller_of v req) \<Longrightarrow> ok (Trunk_Invite n u)"
    and peers: "inv e \<Longrightarrow> is_registered (en_db e) (caller_of v req) \<Longrightarrow> ok (Peer_Invite t f p a)"
    and emergency: "n \<in> set (cf_emergency v) \<Longrightarrow> ok (Trunk_Invite n u)"
    and pinned: "parse_widget_token v req = Some w \<Longrightarrow>
      digits_equal (only_digits (wc_destination w)) (only_digits n) \<Longrightarrow> ok (Trunk_Invite n u)"
    and cached: "inv e \<Longrightarrow> inv (snd (run_state (lookup_rule v (called_of req)) e))"
    and rules: "parse_widget_token v req = None \<Longrightarrow> inv e \<Longrightarrow> fst (run_state (lookup_rule v (called_of req)) e) = Some r \<Longrightarrow>
      ru_dest_type r = ''pstn'' \<Longrightarrow> ok (Trunk_Invite (dr_normalized (resolve (cf_emergency v) (ru_dest_value r))) u)"
    and reset: "inv e \<Longrightarrow> inv (e\<lparr>en_trace := []\<rparr>)"
begin

subsection \<open>The handlers of the INVITE\<close>

definition context_of :: "call_ctx \<Rightarrow> bool" where
  "context_of cx \<longleftrightarrow> cx_called cx = called_of req \<and> cx_calling cx = caller_of v req \<and>
     cx_widget cx = parse_widget_token v req"

lemma keeps_plain_handlers [intro!, simp]: "keeps (trunk_inbound v cx)" "keeps (internal_handler v cx route)"
  by (auto simp: trunk_inbound_def internal_handler_def Let_def intro!: keeps_bind split: option.split)

lemma keeps_emergency_handler:
  "(dr_type route = REmergency \<Longrightarrow> dr_target route \<in> set (cf_emergency v)) \<Longrightarrow> keeps (emergency_handler v cx route)"
  by (auto simp: emergency_handler_def intro!: keeps_bind keeps_route_call emergency)

lemma keeps_widget_handler:
  assumes "context_of cx"
  shows "keeps (widget_handler v cx route)"
proof (cases "cx_widget cx")
  case (Some w)
  then have w: "parse_widget_token v req = Some w" using assms by (simp add: context_of_def)
  have "keeps (route_call v (wc_destination w) cid)" if "only_digits (wc_destination w) \<noteq> []" for cid
    by (rule keeps_route_call, rule pinned [OF w]) (use that in \<open>simp add: digits_equal_def\<close>)
  moreover have "keeps (route_call v (dr_normalized route) cid)"
    if "digits_equal (only_digits (wc_destination w)) (only_digits (dr_normalized route))" for cid
    by (rule keeps_route_call, rule pinned [OF w]) (use that in simp)
  ultimately show ?thesis
    by (auto simp: widget_handler_def Some Let_def intro!: keeps_bind)
qed (simp add: widget_handler_def)

lemma keeps_teams_handler: "context_of cx \<Longrightarrow> keeps (teams_handler v cx)"
  unfolding teams_handler_def Let_def registered_def
  by (rule keeps_bind [OF keeps_quiet(2)])
    (auto simp: context_of_def intro!: keeps_bind keeps_read keeps_state keeps_teams dials split: prod.split)

lemma keeps_sip_uri_handler: "context_of cx \<Longrightarrow> keeps (sip_uri_handler v cx route)"
  unfolding sip_uri_handler_def Let_def registered_def
  by (auto simp: context_of_def intro!: keeps_bind keeps_read keeps_act peers
      split: option.split uac_outcome.split uas_outcome.split)

lemma keeps_external_handler: "context_of cx \<Longrightarrow> keeps (external_handler v cx route)"
  unfolding external_handler_def Let_def registered_def
  by (auto simp: context_of_def intro!: keeps_bind keeps_read keeps_route_call dials)

lemma keeps_first_taken: "(\<And>h. h \<in> set hs \<Longrightarrow> keeps h) \<Longrightarrow> keeps (first_taken hs)"
  by (induction hs) (auto intro!: keeps_bind)

lemma keeps_route_handlers:
  assumes "context_of cx" "dr_type route = REmergency \<Longrightarrow> dr_target route \<in> set (cf_emergency v)"
  shows "keeps (first_taken (route_handlers v fuel cx route))"
  using assms keeps_emergency_handler keeps_widget_handler keeps_teams_handler keeps_sip_uri_handler
    keeps_external_handler
  by (intro keeps_first_taken) (auto simp: route_handlers_def)

subsection \<open>Rules and the pipeline\<close>

lemma keeps_dispatch:
  "(\<And>u. ru_dest_type rule = ''pstn'' \<Longrightarrow>
      ok (Trunk_Invite (dr_normalized (resolve (cf_emergency v) (ru_dest_value rule))) u)) \<Longrightarrow>
    keeps (dispatch_routing_rule v cx rule)"
  by (auto simp: dispatch_routing_rule_def Let_def intro!: keeps_bind keeps_route_call)

lemma keeps_apply_rule:
  assumes "context_of cx"
  shows "keeps (apply_rule v cx)"
proof (cases "parse_widget_token v req")
  case None
  have lookup: "keeps (lookup_rule v (called_of req))" by (simp add: keeps_def cached)
  have "keeps (case fst (run_state (lookup_rule v (called_of req)) e) of
      None \<Rightarrow> State_Monad.return False
    | Some r \<Rightarrow> do { audit AuCallRouted x y; dispatch_routing_rule v cx r })" if "inv e" for e x y
    using rules [OF None that] by (auto intro!: keeps_bind keeps_dispatch split: option.split)
  with lookup show ?thesis
    using assms by (auto simp: apply_rule_def context_of_def intro!: keeps_bind_result [OF lookup])
next
  case (Some w)
  with assms show ?thesis by (simp add: apply_rule_def context_of_def)
qed

lemma keeps_route_invite:
  assumes "context_of cx" "dr_type route = REmergency \<Longrightarrow> dr_target route \<in> set (cf_emergency v)"
  shows "keeps (route_invite v fuel cx route)"
  using keeps_apply_rule [OF assms(1)] keeps_route_handlers [OF assms]
  by (auto simp: route_invite_def intro!: keeps_bind)

end

lemma resolve_emergency: "dr_type (resolve em n) = REmergency \<Longrightarrow> dr_target (resolve em n) \<in> set em"
  by (simp add: resolve_def dial_to_def Let_def split: if_splits option.splits)

lemma external_sip_type: "resolve_external_sip peers p uri = Some r \<Longrightarrow> dr_type r = RSipUri"
  by (auto simp: resolve_external_sip_def dial_to_def Let_def split: option.splits if_splits prod.splits)

lemma classify_emergency:
  assumes "dr_type (classify v d req called) = REmergency"
  shows "dr_target (classify v d req called) \<in> set (cf_emergency v)"
proof (cases "resolve_external_sip (cf_peers v) (wd_parse_uri v) (rq_uri req)")
  case None
  with assms show ?thesis
    using resolve_emergency [of "cf_emergency v" called]
    by (simp add: classify_def Let_def split: if_splits)
next
  case (Some r)
  with assms external_sip_type [OF Some] show ?thesis
    by (simp add: classify_def Let_def split: if_splits)
qed

context invite_policy
begin

lemma keeps_accept_invite: "keeps (accept_invite v fuel req)"
proof -
  have "keeps (route_invite v fuel \<lparr>cx_req = req, cx_called = called_of req, cx_calling = caller_of v req,
      cx_id = cid, cx_widget = parse_widget_token v req\<rparr> (classify v d req (called_of req)))" for cid d
    by (rule keeps_route_invite) (simp_all add: context_of_def classify_emergency)
  then show ?thesis
    unfolding accept_invite_def Let_def called_of_def [symmetric] caller_of_def [symmetric]
    by (auto intro!: keeps_bind keeps_read)
qed

lemma keeps_invite: "keeps (handle_invite v fuel req)"
proof -
  have "keeps (changes (\<lambda>e. e\<lparr>en_trace := []\<rparr>))"
    by (simp add: keeps_def reset)
  then show ?thesis
    by (auto simp: handle_invite_def keeps_accept_invite intro!: keeps_bind split: admission.split)
qed

end

end
