(* ===== verification/Laboratory.thy ===== *)
theory Laboratory
  imports Sip_Server
begin

text \<open>
  A small installation for the concrete instances of the properties: two extensions
  (\<open>1001\<close> registered, \<open>1002\<close> with a mobile), a trunk, a media server that does what
  it is asked, and a stack on which every outbound call is answered.
\<close>

definition lab_user :: "string \<Rightarrow> string option \<Rightarrow> sip_user" where
  "lab_user ext mobile = \<lparr>su_extension = ext, su_username = ext, su_name = [], su_mobile = mobile,
     su_registered = False, su_contact = None, su_user_agent = None, su_blocked = None, su_fwd_busy = None,
     su_fwd_no_answer = None, su_fwd_unavailable = None, su_pstn_forward = False, su_pstn_target = None,
     su_dnd = False, su_rate_plan = None, su_outbound_caller_id = None, su_balance = None,
     su_balance_currency = None\<rparr>"

definition lab_contact :: sip_registration where
  "lab_contact = \<lparr>rg_contact = ''<sip:1001@10.0.0.5>'', rg_expires = Some 3600, rg_ua = None, rg_source = None\<rparr>"

definition lab_db :: database where
  "lab_db = (empty_db False ''USD'')\<lparr>
     db_heap := [lab_user ''1001'' None, lab_user ''1002'' (Some ''+15550002'')],
     db_users := [(''1001'', 0), (''1002'', 1)],
     db_registrations := [(''1001'', lab_contact)]\<rparr>"

definition lab_trunk :: trunk_config where
  "lab_trunk = \<lparr>tk_name = ''lab'', tk_host = ''trunk.example'', tk_port = 5060, tk_transport = ''udp'',
     tk_username = ''u'', tk_password = ''p'', tk_caller_number = ''+15550000'', tk_enabled = True,
     tk_prefix = [], tk_inbound_ips = [''203.0.113.7'']\<rparr>"

definition lab_tables :: routing_tables where
  "lab_tables = \<lparr>tb_availability = Rows [], tb_policies = Rows [], tb_windows = Rows [],
     tb_exceptions = Rows [], tb_profiles = Rows [], tb_prompts = Rows [], tb_today = (2025, 1, 1)\<rparr>"

definition lab :: env where
  "lab = \<lparr>
     cf_emergency = [''112''], cf_peers = [], cf_trunk = lab_trunk, cf_domain = ''lab'',
     cf_trusted = [], cf_rate_limit = 10, cf_rate_window = 1000, cf_ivr = True, cf_voicemail = True,
     cf_voicemail_max = 60, cf_block_unrated = False, cf_prepaid = True, cf_conf_max = 3, cf_moh = ''moh'',
     cf_ring_ms = 20, cf_wait_ms = 5, cf_poll = 1, cf_hold_music = ''hold'', cf_sounds = ''/snd'',
     cf_teams_dialin = ''+15559999'', cf_teams_fail_ms = 5, cf_push = False, cf_push_always = False,
     cf_notifier = False, cf_routing = False, cf_departments = [],
     wd_now = int, wd_uuid = (\<lambda>_. ''c1''),
     wd_local = (\<lambda>_. \<lparr>lt_year = 2025, lt_month = 0, lt_date = 1, lt_day = 3, lt_hours = 12, lt_minutes = 0\<rparr>),
     wd_tables = (\<lambda>_. lab_tables), wd_rule = (\<lambda>_ _. Some None), wd_flow = (\<lambda>_ _. None),
     wd_connector = (\<lambda>_ _. Some None), wd_detail = (\<lambda>_ _. None), wd_parse_uri = (\<lambda>_. None),
     wd_token = (\<lambda>_. None), wd_proto = (\<lambda>_. None), wd_regex = (\<lambda>_ _ _. None), wd_store = (\<lambda>_. True),
     wd_uac = (\<lambda>_ _. Uac_Up), wd_uas = (\<lambda>_. Uas_Up), wd_b2b = (\<lambda>_ _. B2b_Up), wd_media = (\<lambda>_. True),
     wd_connect = (\<lambda>_. Media_Up), wd_op = (\<lambda>_. True), wd_record = (\<lambda>_. Some (Some 3)), wd_save = (\<lambda>_. True),
     wd_dtmf = (\<lambda>_ _. No_Key), wd_gone = (\<lambda>_. False), wd_fetch = (\<lambda>_ _ _. None)\<rparr>"

definition lab_engine :: engine where
  "lab_engine = \<lparr>en_db = lab_db, en_store = empty_store, en_conf = no_rooms,
     en_queue = new_service 0 [], en_guard = new_guard 5 60000 60000 None None, en_rates = [], en_teams = [],
     en_connectors = [], en_ivr = True, en_ms = True, en_calls = [], en_voicemails = [], en_tick = 0,
     en_trace = []\<rparr>"

text \<open>An INVITE from an address of the Internet that is not the trunk's.\<close>

definition invite :: "string \<Rightarrow> string \<Rightarrow> sip_request" where
  "invite caller called = \<lparr>rq_uri = Some (''sip:'' @ called @ ''@lab''), rq_called = called,
     rq_calling = Some caller, rq_calling_name = None, rq_source = ''198.51.100.9'', rq_port = 5060,
     rq_protocol = ''udp'', rq_headers = []\<rparr>"

text \<open>The fields, so that the instances are evaluated on what they need only.\<close>

lemma lab_fields [simp]:
  "wd_now lab n = int n" "cf_trunk lab = lab_trunk" "cf_emergency lab = [''112'']" "cf_peers lab = []"
  "cf_rate_limit lab = 10" "cf_rate_window lab = 1000" "wd_store lab n = True" "wd_detail lab n x = None"
  "wd_op lab n = True" "wd_connect lab n = Media_Up" "wd_uas lab n = Uas_Up" "wd_b2b lab n u = B2b_Up"
  "wd_uac lab n u = Uac_Up" "wd_gone lab n = False" "cf_wait_ms lab = 5" "cf_prepaid lab = True"
  "cf_teams_dialin lab = ''+15559999''" "wd_token lab w = None" "cf_voicemail lab = True" "cf_notifier lab = False"
  "cf_block_unrated lab = False"
  by (simp_all add: lab_def)

lemma lab_engine_fields [simp]:
  "en_db lab_engine = lab_db" "en_tick lab_engine = 0" "en_guard lab_engine = new_guard 5 60000 60000 None None"
  "en_rates lab_engine = []" "en_teams lab_engine = []" "en_ivr lab_engine = True" "en_ms lab_engine = True"
  "en_trace lab_engine = []" "en_store lab_engine = empty_store"
  by (simp_all add: lab_engine_def)

lemma invite_fields [simp]:
  "rq_source (invite a b) = ''198.51.100.9''" "rq_calling (invite a b) = Some a" "rq_headers (invite a b) = []"
  "rq_called (invite a b) = b" "rq_uri (invite a b) = Some (''sip:'' @ b @ ''@lab'')"
  by (simp_all add: invite_def)

end
