(* ===== verification/Outgoing_Calls.thy ===== *)
theory Outgoing_Calls
  imports Step_Invariants Laboratory
begin

text \<open>
  Who the engine dials: the toll rule of an INVITE, the store's soundness across a request, and
  the ways around the caller's wallet that the rule leaves open.
\<close>

section \<open>The toll rule\<close>

text \<open>A rule the engine can know of at a number: cached, or loaded during the request.\<close>

definition known_rule :: "env \<Rightarrow> database \<Rightarrow> string \<Rightarrow> routing_rule \<Rightarrow> bool" where
  "known_rule v d n r \<longleftrightarrow> m_get (db_rules d) n = Some (Some r) \<or> (\<exists>k. wd_rule v k n = Some (Some r))"

text \<open>The numbers an INVITE may make the trunk dial.\<close>

definition may_dial :: "env \<Rightarrow> sip_request \<Rightarrow> database \<Rightarrow> string \<Rightarrow> bool" where
  "may_dial v req d n \<longleftrightarrow>
     is_registered d (caller_of v req) \<or>
     n \<in> set (cf_emergency v) \<or>
     (\<exists>ext. user_mobile d ext = Some n) \<or>
     (\<exists>w. parse_widget_token v req = Some w \<and> digits_equal (only_digits (wc_destination w)) (only_digits n)) \<or>
     (\<exists>r. parse_widget_token v req = None \<and> known_rule v d (called_of req) r \<and> ru_dest_type r = ''pstn'' \<and>
        n = dr_normalized (resolve (cf_emergency v) (ru_dest_value r)))"

definition toll_rule :: "env \<Rightarrow> sip_request \<Rightarrow> database \<Rightarrow> effect \<Rightarrow> bool" where
  "toll_rule v req d eff = (case eff of
     Trunk_Invite n _ \<Rightarrow> may_dial v req d n
   | Peer_Invite _ _ _ _ \<Rightarrow> is_registered d (caller_of v req)
   | _ \<Rightarrow> True)"

lemma toll_rule_free: "\<not> outgoing eff \<Longrightarrow> toll_rule v req d eff"
  by (auto simp: toll_rule_def outgoing_def split: effect.splits)

text \<open>
  The state during an INVITE begun on the store \<open>d\<close>: the directory is \<open>d\<close>'s, the rule cache
  holds only known rules, and all effects so far obey the rule.
\<close>

definition toll_inv :: "env \<Rightarrow> sip_request \<Rightarrow> database \<Rightarrow> engine \<Rightarrow> bool" where
  "toll_inv v req d e \<longleftrightarrow> directory (en_db e) = directory d \<and>
     (\<forall>n r. m_get (db_rules (en_db e)) n = Some (Some r) \<longrightarrow> known_rule v d n r) \<and>
     list_all (toll_rule v req d) (en_trace e)"

lemma directory_mobile: "directory d = directory d' \<Longrightarrow> user_mobile d x = user_mobile d' x"
  by (simp add: user_mobile_def directory_get_user [of d d'])

lemma db_rules_calls [simp]:
  "db_rules (log_call c d) = db_rules d" "db_rules (update_call cid u d) = db_rules d"
  by (simp_all add: log_call_def update_call_def emit_def Let_def split: option.split prod.split)

lemma lookup_known:
  assumes "toll_inv v req d e"
  shows "toll_inv v req d (snd (run_state (lookup_rule v n) e))"
    and "fst (run_state (lookup_rule v n) e) = Some r \<Longrightarrow> known_rule v d n r"
  using assms
  by (auto simp: toll_inv_def lookup_rule_def get_routing_rule_def read_through_def known_rule_def directory_def
      js.get_put split: option.splits prod.splits if_splits)

interpretation toll: invite_policy "toll_inv v req d" "toll_rule v req d" v req
  for v req d
proof
  show "toll_inv v req d e'" if "en_db e' = en_db e" "en_trace e' = en_trace e" "toll_inv v req d e" for e e'
    using that by (simp add: toll_inv_def)
  show "toll_inv v req d (e\<lparr>en_trace := en_trace e @ [eff]\<rparr>)" if "toll_inv v req d e" "toll_rule v req d eff" for e eff
    using that by (simp add: toll_inv_def)
  show "toll_inv v req d (e\<lparr>en_db := log_call c (en_db e)\<rparr>)" "toll_inv v req d (e\<lparr>en_db := update_call cid u (en_db e)\<rparr>)"
    "toll_inv v req d (e\<lparr>en_trace := []\<rparr>)" if "toll_inv v req d e" for e c cid u
    using that by (simp_all add: toll_inv_def)
  show "toll_rule v req d eff" if "\<not> outgoing eff" for eff
    using that by (rule toll_rule_free)
  show "toll_rule v req d eff" if "is_final eff" for eff
    using that by (cases eff) (simp_all add: toll_rule_def)
  show "toll_rule v req d (Trunk_Invite m u)" if "toll_inv v req d e" "user_mobile (en_db e) ext = Some m" for e ext m u
    using that directory_mobile [of "en_db e" d ext] by (auto simp: toll_rule_def may_dial_def toll_inv_def)
  have reg: "is_registered d x = is_registered (en_db e) x" if "toll_inv v req d e" for e x
    using that directory_registered [of "en_db e" d x] by (simp add: toll_inv_def)
  then show "toll_rule v req d (Trunk_Invite n u)" "toll_rule v req d (Peer_Invite t f p a)"
    if "toll_inv v req d e" "is_registered (en_db e) (caller_of v req)" for e n u t f p a
    using that by (simp_all add: toll_rule_def may_dial_def)
  show "toll_rule v req d (Trunk_Invite (dr_normalized (resolve (cf_emergency v) (ru_dest_value r))) u)"
    if "parse_widget_token v req = None" "toll_inv v req d e"
      "fst (run_state (lookup_rule v (called_of req)) e) = Some r" "ru_dest_type r = ''pstn''"
    for e r u
    using lookup_known(2) [OF that(2,3)] that(1,4) by (auto simp: toll_rule_def may_dial_def)
qed (auto simp: toll_rule_def may_dial_def lookup_known)

lemma toll_trace:
  "list_all (toll_rule v req (en_db e)) (en_trace (snd (run_state (handle_invite v fuel req) e)))"
proof -
  let ?e = "e\<lparr>en_trace := []\<rparr>"
  have "run_state (handle_invite v fuel req) e = run_state (handle_invite v fuel req) ?e"
    by (simp add: handle_invite_def)
  moreover have "toll_inv v req (en_db e) ?e"
    by (simp add: toll_inv_def known_rule_def)
  ultimately have "toll_inv v req (en_db e) (snd (run_state (handle_invite v fuel req) e))"
    using toll.keepsD [OF toll.keeps_invite] by simp
  then show ?thesis by (simp add: toll_inv_def)
qed

section \<open>Properties\<close>

text \<open>C1: Toll rule of an INVITE: whatever the outside answers, the trunk is only ever asked to dial
  (a) a number of the caller's choice where the caller's name is a registered extension, (b) a
  configured emergency number, (c) the mobile of a user, (d) the destination pinned by the
  widget token the INVITE carries, or (e) the PSTN destination of a routing rule at the called
  number, for an INVITE without such a token; a SIP peer is only called for a registered extension.\<close>

theorem toll_rule_holds:
  "list_all (toll_rule v req (en_db e)) (en_trace (snd (run_state (handle_invite v fuel req) e)))"
  by (rule toll_trace)

section \<open>Around the wallet\<close>

definition dialled :: "engine \<Rightarrow> string list" where
  "dialled e = List.map_filter (\<lambda>eff. case eff of Trunk_Invite n _ \<Rightarrow> Some n | _ \<Rightarrow> None) (en_trace e)"

lemma dialled_db [simp]: "dialled (e\<lparr>en_db := d\<rparr>) = dialled e"
  by (simp add: dialled_def)

lemma map_filter_simps [simp]:
  "List.map_filter f [] = []"
  "List.map_filter f (x # xs) = (case f x of None \<Rightarrow> [] | Some y \<Rightarrow> [y]) @ List.map_filter f xs"
  "List.map_filter f (xs @ ys) = List.map_filter f xs @ List.map_filter f ys"
  by (simp_all add: map_filter_def split: option.split)

text \<open>A media server that does what it is asked.\<close>

definition media_works :: "env \<Rightarrow> bool" where
  "media_works v \<longleftrightarrow> (\<forall>k. wd_connect v k = Media_Up \<and> wd_op v k)"

lemma teams_dials:
  assumes "media_works v" "tk_enabled (cf_trunk v)" "en_ms e"
  shows "n \<in> set (dialled (snd (run_state (join_teams_meeting v n conf) e)))"
  using assms
  by (auto simp: join_teams_meeting_def ensure_connected_def connect_caller_def op_def prepare_voice_def
      set_voice_def play_def create_outbound_leg_def send_unless_final_def send_def media_works_def
      dialled_def Let_def split_beta split: uac_outcome.split)

text \<open>The Teams route goes around the prepaid wallet: a registered caller whose balance does not cover
  a number is refused it with 402 by the external route, which dials nothing, but an INVITE of
  his that names the same number in the X-Teams-Number header makes the trunk dial it; neither
  the wallet nor the list of meeting numbers is looked at.\<close>

theorem teams_bypasses_wallet:
  assumes "media_works v" "tk_enabled (cf_trunk v)" "en_ivr e" "en_ms e"
    and "cx_calling cx \<noteq> []" "is_registered (en_db e) (cx_calling cx)"
    and "only_digits (or_else (header (cx_req cx) ''X-Teams-Conf-Id'') []) \<noteq> []"
    and "header (cx_req cx) ''X-Teams-Number'' = Some n" "n \<noteq> []" "trim n = n"
    and "fst (teams_allow (wd_now v (en_tick e)) (cx_calling cx) (en_teams e))"
    and "wallet_short v n (cx_calling cx) (en_db e)"
    and "dr_type route = RExternal" "dr_normalized route = n"
  shows "n \<in> set (dialled (snd (run_state (teams_handler v cx) e))) \<and>
    dialled (snd (run_state (external_handler v cx route) e)) = dialled e"
proof
  have name: "str_or (Some n) d = n" for d using assms(9) by (simp add: str_or_def)
  show "n \<in> set (dialled (snd (run_state (teams_handler v cx) e)))"
    using assms(2-11) teams_dials [OF assms(1,2)]
    by (simp add: teams_handler_def registered_def update_def update_status_def Let_def split_beta name)
  show "dialled (snd (run_state (external_handler v cx route) e)) = dialled e"
    using assms(5,6,12-14)
    by (simp add: external_handler_def registered_def refuse_def update_def audit_def send_def dialled_def Let_def split_beta)
qed

text \<open>A caller without balance, Jamaican numbers at a price, and a meeting INVITE for one.\<close>

definition poor_engine :: engine where
  "poor_engine = lab_engine\<lparr>en_db := lab_db\<lparr>db_rater := Some (rating_rater sample_book)\<rparr>\<rparr>"

definition meeting_call :: call_ctx where
  "meeting_call = \<lparr>cx_req = (invite ''1001'' ''+18765550100'')\<lparr>rq_headers :=
       [(''X-Teams-Conf-Id'', ''123''), (''X-Teams-Number'', ''+18765550100'')]\<rparr>,
     cx_called = ''+18765550100'', cx_calling = ''1001'', cx_id = ''c1'', cx_widget = None\<rparr>"

lemma poor_wallet: "wallet_short lab ''+18765550100'' ''1001'' (en_db poor_engine)"
proof -
  have "estimate_min_charge sample_book ''+18765550100'' None = Some (1 / 4, ''USD'')" by code_simp
  then show ?thesis
    by (simp add: wallet_short_def estimate_for_def poor_engine_def lab_db_def get_user_def lab_user_def
        rating_rater_def)
qed

theorem teams_bypasses_wallet_witness:
  "''+18765550100'' \<in> set (dialled (snd (run_state (teams_handler lab meeting_call) poor_engine))) \<and>
    dialled (snd (run_state (external_handler lab meeting_call
      (dial_to RExternal ''+18765550100'' ''+18765550100'' ''+18765550100'')) poor_engine)) = dialled poor_engine"
proof (rule teams_bypasses_wallet)
  show "media_works lab" "tk_enabled (cf_trunk lab)" by (simp_all add: media_works_def lab_trunk_def)
  show "en_ivr poor_engine" "en_ms poor_engine" by (simp_all add: poor_engine_def)
  show "fst (teams_allow (wd_now lab (en_tick poor_engine)) (cx_calling meeting_call) (en_teams poor_engine))"
    by (simp add: poor_engine_def teams_allow_def)
  show "is_registered (en_db poor_engine) (cx_calling meeting_call)"
    by (simp add: poor_engine_def meeting_call_def lab_db_def is_registered_def m_has_def)
  show "only_digits (or_else (header (cx_req meeting_call) ''X-Teams-Conf-Id'') []) \<noteq> []"
    "trim ''+18765550100'' = ''+18765550100''" by code_simp+
  show "wallet_short lab ''+18765550100'' (cx_calling meeting_call) (en_db poor_engine)"
    using poor_wallet by (simp add: meeting_call_def)
qed (simp_all add: meeting_call_def header_def dial_to_def)

end
