(* ===== verification/Callee_Rights.thy ===== *)
theory Callee_Rights
  imports Step_Invariants Laboratory
begin

text \<open>
  What a callee can count on: Do Not Disturb silences the devices of an internal call, and the
  two settings a call from the trunk goes past.
\<close>

section \<open>Rung devices\<close>

definition rung :: "engine \<Rightarrow> effect list" where
  "rung e = filter rings (en_trace e)"

lemma rung_append [simp]:
  "rung (e\<lparr>en_trace := en_trace e @ [eff]\<rparr>) = rung e @ (if rings eff then [eff] else [])"
  by (simp add: rung_def)

text \<open>The steps that ring nobody and leave the directory alone.\<close>

interpretation quiet: answering "\<lambda>e. rung e = r \<and> directory (en_db e) = d" "\<lambda>eff. \<not> rings eff"
  for r d
  by unfold_locales (auto simp: rung_def rings_def split: effect.splits)

text \<open>The steps that ring whom they like, after \<open>eff\<close> was done.\<close>

interpretation done_before: call_policy "\<lambda>e. eff \<in> set (en_trace e)" "\<lambda>_. True" v
  for eff v
  by unfold_locales simp_all

definition does :: "effect \<Rightarrow> 'a sip \<Rightarrow> bool" where
  "does eff m \<longleftrightarrow> (\<forall>e. eff \<in> set (en_trace (snd (run_state m e))))"

lemma does_act: "does eff (act eff)"
  by (simp add: does_def)

lemma does_first: "does eff m \<Longrightarrow> (\<And>a. done_before.keeps eff (f a)) \<Longrightarrow> does eff (State_Monad.bind m f)"
  using done_before.keepsD [of eff "f a" for a] by (simp add: does_def split_beta)

lemma does_later: "(\<And>a. does eff (f a)) \<Longrightarrow> does eff (State_Monad.bind m f)"
  by (simp add: does_def split_beta)

lemma ring_device_rings: "does (Device_Invite uri) (ring_device v uri)"
  unfolding ring_device_def by (rule does_first [OF does_act]) (auto intro!: done_before.keeps_bind split: b2b_outcome.split)

section \<open>Properties\<close>



text \<open>A call from the trunk goes past the callee's settings: where the called number is the mobile of
  a registered user, his device is rung although he has set Do Not Disturb and has blocked the
  caller; the block list consulted is that of the called number, not that of the user.\<close>

theorem trunk_call_bypasses_callee:
  assumes "is_from_trunk (cf_trunk v) (rq_source (cx_req cx))"
    and "find_pstn_forward_target (en_db e) (cx_called cx) = Some (x, target)"
    and "get_registration (en_db e) target = Some r"
    and "get_user (en_db e) target = Some u" "su_dnd u" "is_blocked (en_db e) target caller"
    and "caller = str_or (rq_calling (cx_req cx)) ''unknown''"
    and "get_user (en_db e) (or_else (uri_user (cx_req cx)) []) = None"
  shows "Device_Invite (contact_uri (rg_contact r)) \<in> set (en_trace (snd (run_state (trunk_inbound v cx) e)))"
proof -
  let ?ring = "Device_Invite (contact_uri (rg_contact r))"
  have free: "\<not> is_blocked (en_db e) (or_else (uri_user (cx_req cx)) []) y" for y
    using assms(8) by (simp add: is_blocked_def)
  have "?ring \<in> set (en_trace (snd (run_state (route_to_extension v (cx_req cx) (rg_contact r) cid) e')))"
    if "en_db e' = en_db e" for e' cid
  proof -
    have "does ?ring (do {
        notify v caller NeRinging None (Some (or_else (uri_user (cx_req cx)) []));
        out \<leftarrow> ring_device v (contact_uri (rg_contact r));
        (case out of
           B2b_Up \<Rightarrow> do {
             notify v caller NeAnswered None (Some (or_else (uri_user (cx_req cx)) []));
             audit AuCallAnswered caller (Some (or_else (uri_user (cx_req cx)) []));
             update_status cid Answered
           }
         | B2b_Failed status timed_out \<Rightarrow>
             ring_failed v (cx_req cx) (or_else (uri_user (cx_req cx)) []) cid caller status timed_out)
      })"
      by (rule does_later, rule does_first [OF ring_device_rings])
        (auto intro!: done_before.keeps_bind done_before.keeps_ring_failed split: b2b_outcome.split)
    with free that show ?thesis by (simp add: route_to_extension_def Let_def does_def assms(7))
  qed
  with assms(1,2,3) show ?thesis
    by (simp add: trunk_inbound_def audit_def split_beta)
qed

text \<open>The extension \<open>1001\<close> of a user on Do Not Disturb who has blocked a caller from the trunk.\<close>

definition away_user :: sip_user where
  "away_user = (lab_user ''1001'' (Some ''+15550001''))\<lparr>su_dnd := True, su_pstn_forward := True,
     su_blocked := Some [''+15559999'']\<rparr>"

definition away_engine :: engine where
  "away_engine = lab_engine\<lparr>en_db := lab_db\<lparr>db_heap := [away_user], db_users := [(''1001'', 0)]\<rparr>\<rparr>"

definition trunk_call :: call_ctx where
  "trunk_call = \<lparr>cx_req = (invite ''+15559999'' ''+15550001'')\<lparr>rq_source := ''203.0.113.7''\<rparr>,
     cx_called = ''+15550001'', cx_calling = ''+15559999'', cx_id = ''c1'', cx_widget = None\<rparr>"

lemma trunk_call_facts:
  "is_from_trunk lab_trunk ''203.0.113.7''"
  "uri_user (cx_req trunk_call) = Some ''+15550001''"
  "contact_uri (rg_contact lab_contact) = ''sip:1001@10.0.0.5''"
  by (code_simp)+

lemma away_facts:
  "find_pstn_forward_target (en_db away_engine) ''+15550001'' = Some (away_user, ''1001'')"
  "get_registration (en_db away_engine) ''1001'' = Some lab_contact"
  "get_user (en_db away_engine) ''1001'' = Some away_user"
  "get_user (en_db away_engine) ''+15550001'' = None"
  "is_blocked (en_db away_engine) ''1001'' ''+15559999''"
proof -
  show u: "get_user (en_db away_engine) ''1001'' = Some away_user" "get_user (en_db away_engine) ''+15550001'' = None"
    "get_registration (en_db away_engine) ''1001'' = Some lab_contact"
    by (simp_all add: away_engine_def lab_db_def get_user_def get_registration_def empty_db_def)
  then show "is_blocked (en_db away_engine) ''1001'' ''+15559999''"
    by (simp add: is_blocked_def away_user_def)
  have "last_chars 10 (only_digits ''+15550001'') = ''15550001''" by code_simp
  then show "find_pstn_forward_target (en_db away_engine) ''+15550001'' = Some (away_user, ''1001'')"
    by (simp add: find_pstn_forward_target_def Let_def away_engine_def lab_db_def empty_db_def away_user_def lab_user_def)
qed

theorem trunk_call_bypasses_callee_witness:
  "Device_Invite ''sip:1001@10.0.0.5'' \<in> set (en_trace (snd (run_state (trunk_inbound lab trunk_call) away_engine)))"
proof -
  have "Device_Invite (contact_uri (rg_contact lab_contact)) \<in> set (en_trace (snd (run_state (trunk_inbound lab trunk_call) away_engine)))"
    by (rule trunk_call_bypasses_callee [where x = away_user and target = "''1001''" and u = away_user and caller = "''+15559999''"])
      (use away_facts trunk_call_facts(1,2) in \<open>simp_all add: trunk_call_def away_user_def\<close>)
  then show ?thesis by (simp add: trunk_call_facts)
qed

end
