(* ===== verification/Responses.thy ===== *)
theory Responses
  imports Step_Invariants Laboratory
begin

text \<open>
  SIP answers an INVITE with exactly one final response. The steps are given specifications
  over the number of final responses sent so far: \<open>resp p m q\<close> says that \<open>m\<close>, begun
  with \<open>p\<close> of them, ends with \<open>q a\<close> of them where its result is \<open>a\<close>.
\<close>

section \<open>Specifications over the final responses\<close>

definition finals :: "engine \<Rightarrow> nat" where
  "finals e = length (filter is_final (en_trace e))"

definition resp :: "nat \<Rightarrow> 'a sip \<Rightarrow> ('a \<Rightarrow> nat) \<Rightarrow> bool" where
  "resp p m q \<longleftrightarrow> (\<forall>e. finals e = p \<longrightarrow> finals (snd (run_state m e)) = q (fst (run_state m e)))"

lemma respI: "(\<And>e :: engine. finals e = p \<Longrightarrow> finals (snd (run_state m e)) = q (fst (run_state m e))) \<Longrightarrow> resp p m q"
  by (simp add: resp_def)

lemma resp_bind: "resp p m q \<Longrightarrow> (\<And>a. resp (q a) (f a) r) \<Longrightarrow> resp p (State_Monad.bind m f) r"
  by (auto simp: resp_def split_beta)

lemma final_sent_iff: "final_sent e \<longleftrightarrow> 0 < finals e"
  by (induction "en_trace e" arbitrary: e) (auto simp: final_sent_def finals_def list_ex_iff filter_empty_conv)

text \<open>Steps that send nothing final.\<close>

definition mute :: "'a sip \<Rightarrow> bool" where
  "mute m \<longleftrightarrow> (\<forall>e. finals (snd (run_state m e)) = finals e)"

lemma mute_resp: "mute m \<Longrightarrow> resp p m (\<lambda>_. p)"
  by (simp add: mute_def resp_def)

text \<open>They are the steps that keep every count, with the effects that are no final response.\<close>

interpretation count: step_invariant "\<lambda>e. finals e = n" "\<lambda>eff. \<not> is_final eff"
  for n
  by unfold_locales (auto simp: finals_def)

lemma mute_iff: "mute m \<longleftrightarrow> (\<forall>n. count.keeps n m)"
  by (simp add: mute_def count.keeps_def)

lemma mute_bind: "mute m \<Longrightarrow> (\<And>a. mute (f a)) \<Longrightarrow> mute (State_Monad.bind m f)"
  by (simp add: mute_iff count.keeps_bind)

lemma mute_act: "\<not> is_final eff \<Longrightarrow> mute (act eff)"
  by (simp add: mute_iff count.keeps_act)

lemma mute_changes: "(\<And>e. en_db (f e) = en_db e \<and> en_trace (f e) = en_trace e) \<Longrightarrow> mute (changes f)"
  by (simp add: mute_iff count.keeps_changes)

lemma mute_state: "(\<And>e. en_db (snd (f e)) = en_db e \<and> en_trace (snd (f e)) = en_trace e) \<Longrightarrow> mute (State f)"
  by (simp add: mute_iff count.keeps_state)

lemma mute_update [intro!, simp]: "mute (update cid u)" "mute (update_status cid st)"
  by (simp_all add: mute_def update_def update_status_def finals_def)

lemma mute_steps [intro!, simp]:
  "mute (State_Monad.return a)" "mute skip" "mute (gets f)" "mute (external h)" "mute (clock v)"
  "mute (queue_do q)" "mute (conf_do c)" "mute (guard_do gd)" "mute (db_read k)" "mute (db_do (log_call cl))"
  "mute (notify v who ev r tg)" "mute (audit au who what)"
  "mute (play fl)" "mute (offend v ip)" "mute (create_outbound_leg v number caller_id)"
  by (simp_all add: mute_iff count.keeps_leg)

lemma mute_effects [intro!, simp]:
  "mute (act Teardown)" "mute (act (Bridge b))" "mute (act (Play f))" "mute (act (Device_Invite u))"
  "mute (act (Peer_Invite w x y z))"
  by (simp_all add: mute_act)

lemma mute_media [intro!, simp]:
  "mute (ensure_connected v)" "mute is_connected" "mute (op v)" "mute (set_voice v)" "mute (prepare_voice v)"
  "mute (capture_voicemail v mb from nm g mx)" "mute (ring_agent v contact)"
  "mute (prompt_and_collect v prompt valid tries)" "mute (announce v key)" "mute (routing_decision v ctx)"
  "mute (modify_call cid mf)" "mute (name_of n)" "mute (caller_name req c)"
  "mute (run_flow_for_call v flow cid caller called nm)"
  "mute (fst (conference_hooks v rid c nm))" "mute (snd (conference_hooks v rid c nm))"
  "mute (registered c)" "mute (queue_gate v cx qid c)" "mute (internal_gate v cx route)"
  "mute (push_wakeup v cx)" "mute (admit v ip)" "mute (log_invite v cx)" "mute (leave_queue v qid cid)"
  by (simp_all add: mute_iff)

section \<open>Answers\<close>

lemma resp_accept: "resp 0 (act Accept) (\<lambda>_. Suc 0)"
  by (rule respI) (simp add: finals_def)

lemma resp_relay: "resp 0 (act (Relay n)) (\<lambda>_. Suc 0)"
  by (rule respI) (simp add: finals_def)

lemma final_codes:
  "200 \<le> (200 :: int)" "200 \<le> (400 :: int)" "200 \<le> (402 :: int)" "200 \<le> (403 :: int)" "200 \<le> (404 :: int)"
  "200 \<le> (429 :: int)" "200 \<le> (480 :: int)" "200 \<le> (486 :: int)" "200 \<le> (503 :: int)" "200 \<le> (603 :: int)"
  by simp_all

lemma resp_send: "200 \<le> n \<Longrightarrow> resp 0 (send n) (\<lambda>_. Suc 0)"
  by (rule respI) (simp add: finals_def send_def)

lemma resp_unless0: "200 \<le> n \<Longrightarrow> resp 0 (send_unless_final n) (\<lambda>_. Suc 0)"
  by (rule respI) (auto simp: send_unless_final_def final_sent_iff send_def finals_def)

lemma resp_unless1: "200 \<le> n \<Longrightarrow> resp (Suc 0) (send_unless_final n) (\<lambda>_. Suc 0)"
  by (rule respI) (auto simp: send_unless_final_def final_sent_iff send_def finals_def)

lemma resp_connect: "resp 0 (connect_caller v) (\<lambda>up. if up then Suc 0 else 0)"
  unfolding resp_def connect_caller_def by (auto simp: finals_def split: media_outcome.split)

text \<open>
  The rules in the form the steps below are proved with: sequencing after a mute step, after
  each kind of answer, and the ends.
\<close>

lemma resp_mute: "mute m \<Longrightarrow> (\<And>a. resp p (f a) r) \<Longrightarrow> resp p (State_Monad.bind m f) r"
  by (rule resp_bind [OF mute_resp])

lemma resp_return: "q a = p \<Longrightarrow> resp p (State_Monad.return a) q"
  by (rule respI) simp

lemma resp_ends: "mute m \<Longrightarrow> (\<And>a. q a = p) \<Longrightarrow> resp p m q"
  by (simp add: mute_def resp_def)

lemmas resp_ends_with = resp_accept resp_relay final_codes [THEN resp_send] final_codes [THEN resp_unless0]
  final_codes [THEN resp_unless1]

lemmas resp_then = resp_ends_with [THEN resp_bind] resp_connect [THEN resp_bind]

lemmas resp_intros = resp_then resp_ends_with resp_mute resp_return

section \<open>The media side\<close>

lemma resp_record:
  "cf_voicemail v \<Longrightarrow> resp 0 (record_voicemail v mb from nm) (\<lambda>_. Suc 0)"
  unfolding record_voicemail_def
  by (auto simp: resp_ends intro!: resp_intros split: option.split)

lemma resp_play_unavailable: "resp 0 (play_unavailable v msg) (\<lambda>_. Suc 0)"
  unfolding play_unavailable_def
  by (auto simp: resp_ends intro!: resp_intros)

lemma resp_teams: "resp 0 (join_teams_meeting v dial_in conf) (\<lambda>_. Suc 0)"
  unfolding join_teams_meeting_def Let_def
  by (auto simp: resp_ends intro!: resp_intros split: option.split uac_outcome.split)

lemma resp_conference:
  "mute joined \<Longrightarrow> mute left \<Longrightarrow> resp 0 (join_conference v room joined left) (\<lambda>_. Suc 0)"
  unfolding join_conference_def Let_def
  by (auto simp: resp_ends intro!: resp_intros split: option.split uac_outcome.split)

text \<open>The hooks of a queue send nothing; the loop starts when the caller is answered.\<close>

definition mute_opts :: "queue_opts \<Rightarrow> bool" where
  "mute_opts q \<longleftrightarrow> (\<forall>n. count.keeps_opts n q)"

lemma mute_opts_parts:
  assumes "mute_opts q"
  shows "mute (run_ended q c)" "mute (hear v q c)" "mute (release_failed v q c)" "mute (qo_next q)"
    "mute (qo_ring_agent q x)" "mute (qo_no_answer q x)" "mute (qo_connected q x)" "mute (qo_abandoned q)"
    "mute (qo_timeout q)"
  using assms count.keeps_optsD count.keeps_queue_parts by (simp_all add: mute_opts_def mute_iff)

lemma mute_queue_options: "mute_opts (queue_options v qid cid roster)"
  by (simp add: mute_opts_def)

lemma resp_queue_failed:
  assumes "mute_opts q"
  shows "resp 0 (queue_failed q c) (\<lambda>_. Suc 0)" "resp (Suc 0) (queue_failed q c) (\<lambda>_. Suc 0)"
  using mute_opts_parts(1) [OF assms] unfolding queue_failed_def by (auto intro!: resp_intros)

lemma resp_queue_loop: "mute_opts q \<Longrightarrow> resp (Suc 0) (queue_loop v fuel q deadline c) (\<lambda>_. Suc 0)"
proof (induction fuel arbitrary: c)
  case (Suc fuel)
  note steps = mute_opts_parts [OF Suc.prems] Suc.IH [OF Suc.prems]
  note failed = resp_queue_failed(2) [OF Suc.prems, THEN resp_bind]
  from steps show ?case
    by (auto simp: resp_ends intro!: failed resp_intros split: option.split prod.split)
qed (simp add: resp_return)

lemma resp_enqueue_caller: "mute_opts q \<Longrightarrow> resp 0 (enqueue_caller v fuel q) (\<lambda>_. Suc 0)"
  unfolding enqueue_caller_def Let_def
  by (auto intro!: resp_intros resp_queue_loop resp_queue_failed [THEN resp_bind])

section \<open>Incoming calls\<close>

lemma resp_ivr_failed:
  "resp 0 (ivr_failed cid a) (\<lambda>_. Suc 0)" "resp (Suc 0) (ivr_failed cid a) (\<lambda>_. Suc 0)"
  unfolding ivr_failed_def by (auto simp: resp_ends mute_changes intro!: resp_intros)

lemma resp_ivr_menu: "resp (Suc 0) (ivr_menu v cid) (\<lambda>_. Suc 0)"
  unfolding ivr_menu_def Let_def
  by (auto simp: resp_ends resp_ivr_failed intro!: resp_intros split: option.split)

lemma resp_ivr_flow: "resp (Suc 0) (ivr_flow v cid caller called flow) (\<lambda>_. Suc 0)"
  unfolding ivr_flow_def
  by (auto simp: resp_ends resp_ivr_failed mute_changes intro!: resp_intros split: option.split)

lemma resp_incoming: "resp 0 (handle_incoming_call v req existing dialed) (\<lambda>_. Suc 0)"
  unfolding handle_incoming_call_def Let_def
  by (auto simp: resp_ends resp_ivr_failed mute_changes resp_ivr_menu resp_ivr_flow intro!: resp_intros mute_bind
      split: option.split)

section \<open>Calls and chains\<close>

text \<open>
  What the stack promises: it does not lose the caller's INVITE between answering the trunk
  and reporting it, and an INVITE that ends with 487 is not reported as timed out.
\<close>

definition orderly :: "env \<Rightarrow> bool" where
  "orderly v \<longleftrightarrow> (\<forall>k. wd_uas v k \<noteq> Uas_Lost) \<and> (\<forall>k u. wd_b2b v k u \<noteq> B2b_Failed 487 True)"

lemma resp_route_call: "orderly v \<Longrightarrow> resp 0 (route_call v number cid) (\<lambda>_. Suc 0)"
proof -
  assume v: "orderly v"
  have "resp 0 (do {
      uas \<leftarrow> external (wd_uas v);
      case uas of
        Uas_Up \<Rightarrow> do { act Accept; State_Monad.return True }
      | Uas_Refused \<Rightarrow> do { send 503; State_Monad.return False }
      | Uas_Lost \<Rightarrow> do { act Accept; send 503; State_Monad.return False } }) (\<lambda>_. Suc 0)"
    using v by (auto simp: resp_def orderly_def finals_def send_def split: uas_outcome.split)
  then show ?thesis
    unfolding route_call_def by (auto intro!: resp_intros split: option.split uac_outcome.split)
qed

lemma resp_forward_call: "orderly v \<Longrightarrow> resp 0 (forward_call v target cid calling) (\<lambda>_. Suc 0)"
  unfolding forward_call_def Let_def
  by (auto simp: resp_ends intro!: resp_intros resp_route_call [THEN resp_bind]
      split: option.split b2b_outcome.split)

lemma resp_unreachable: "orderly v \<Longrightarrow> resp 0 (route_unreachable v req called cid calling reason) (\<lambda>_. Suc 0)"
  unfolding route_unreachable_def
  by (auto simp: resp_ends resp_forward_call intro!: resp_intros resp_route_call [THEN resp_bind]
      resp_record [THEN resp_bind] resp_play_unavailable [THEN resp_bind])

lemma resp_dnd: "resp 0 (route_do_not_disturb v req called cid calling) (\<lambda>_. Suc 0)"
  unfolding route_do_not_disturb_def
  by (auto simp: resp_ends intro!: resp_intros resp_record [THEN resp_bind])

lemma resp_bind_result:
  "resp p m q \<Longrightarrow> (\<And>e :: engine. R (fst (run_state m e))) \<Longrightarrow> (\<And>a. R a \<Longrightarrow> resp (q a) (f a) r) \<Longrightarrow>
     resp p (State_Monad.bind m f) r"
  by (auto simp: resp_def split_beta)

lemma resp_ring_device:
  "resp 0 (ring_device v uri) (\<lambda>r. case r of B2b_Up \<Rightarrow> Suc 0 | B2b_Failed s _ \<Rightarrow> if s = 487 then Suc 0 else 0)"
  by (auto simp: resp_def ring_device_def finals_def split: b2b_outcome.split)

lemma ring_device_result: "orderly v \<Longrightarrow> fst (run_state (ring_device v uri) e) \<noteq> B2b_Failed 487 True"
  by (auto simp: ring_device_def orderly_def split: b2b_outcome.split)

lemma resp_ring_failed:
  "orderly v \<Longrightarrow> status \<noteq> 487 \<Longrightarrow> resp 0 (ring_failed v req called cid calling status timed_out) (\<lambda>_. Suc 0)"
  "resp (Suc 0) (ring_failed v req called cid calling 487 False) (\<lambda>_. Suc 0)"
  unfolding ring_failed_def
  by (auto simp: resp_ends resp_unreachable resp_forward_call intro!: resp_intros)

lemma resp_route_to_extension:
  assumes "orderly v"
  shows "resp 0 (route_to_extension v req contact cid) (\<lambda>_. Suc 0)"
proof -
  have "resp (case r of B2b_Up \<Rightarrow> Suc 0 | B2b_Failed s _ \<Rightarrow> if s = 487 then Suc 0 else 0)
      (case r of
         B2b_Up \<Rightarrow> do {
           notify v calling NeAnswered None (Some called);
           audit AuCallAnswered calling (Some called);
           update_status cid Answered }
       | B2b_Failed status timed_out \<Rightarrow> ring_failed v req called cid calling status timed_out) (\<lambda>_. Suc 0)"
    if "r \<noteq> B2b_Failed 487 True" for r called calling
  proof (cases r)
    case (B2b_Failed s timed_out)
    with that show ?thesis
      by (cases "s = 487") (auto simp: resp_ring_failed(1) [OF assms] resp_ring_failed(2))
  qed (auto simp: resp_ends intro!: resp_intros)
  note ring = resp_bind_result [where R = "\<lambda>r. r \<noteq> B2b_Failed 487 True",
      OF resp_ring_device ring_device_result [OF assms] this]
  show ?thesis
    unfolding route_to_extension_def Let_def
    by (auto simp: resp_ends intro!: resp_intros ring)
qed

section \<open>Handlers\<close>

text \<open>A handler answers exactly when it takes the call.\<close>

definition answers :: "bool sip \<Rightarrow> bool" where
  "answers h \<longleftrightarrow> resp 0 h (\<lambda>taken. if taken then Suc 0 else 0)"

lemma resp_refuse:
  "200 \<le> code \<Longrightarrow> resp 0 (refuse cid dir code) (\<lambda>taken. if taken then Suc 0 else 0)"
  unfolding refuse_def by (auto intro!: resp_mute resp_bind [OF resp_send] resp_return)

lemmas resp_refused = final_codes [THEN resp_refuse]

lemma answers_trunk_inbound: "orderly v \<Longrightarrow> answers (trunk_inbound v cx)"
  unfolding answers_def trunk_inbound_def
  by (auto intro!: resp_intros resp_route_to_extension [THEN resp_bind] resp_incoming [THEN resp_bind]
      split: option.split)

lemma answers_widget: "orderly v \<Longrightarrow> answers (widget_handler v cx route)"
  unfolding answers_def widget_handler_def Let_def
  by (auto intro!: resp_intros resp_refused resp_route_call [THEN resp_bind] split: option.split)

lemma answers_teams: "answers (teams_handler v cx)"
  unfolding answers_def teams_handler_def Let_def
  by (auto intro!: resp_intros resp_refused mute_state resp_teams [THEN resp_bind] split: prod.split)

lemma answers_emergency: "orderly v \<Longrightarrow> answers (emergency_handler v cx route)"
  unfolding answers_def emergency_handler_def
  by (auto intro!: resp_intros resp_route_call [THEN resp_bind])

lemma answers_ivr: "answers (ivr_handler v cx route)"
  unfolding answers_def ivr_handler_def
  by (auto intro!: resp_intros resp_incoming [THEN resp_bind])

lemma answers_external: "orderly v \<Longrightarrow> answers (external_handler v cx route)"
  unfolding answers_def external_handler_def Let_def
  by (auto intro!: resp_intros resp_refused resp_route_call [THEN resp_bind])

lemma resp_join_room:
  "resp 0 (join_conference v room (fst (conference_hooks v rid c nm)) (snd (conference_hooks v rid c nm))) (\<lambda>_. Suc 0)"
  by (rule resp_conference) simp_all

lemma answers_conference: "answers (conference_handler v cx route)"
  unfolding answers_def conference_handler_def Let_def
  by (auto intro!: resp_intros resp_refused mute_state resp_join_room [THEN resp_bind] split: option.split prod.split)

lemma resp_queue_serve: "resp 0 (queue_serve v fuel cx qid roster) (\<lambda>taken. if taken then Suc 0 else 0)"
  unfolding queue_serve_def
  by (auto intro!: resp_intros resp_enqueue_caller [OF mute_queue_options, THEN resp_bind] mute_bind
      split: option.split queue_outcome.split)

lemma answers_queue: "answers (queue_handler v fuel cx route)"
  unfolding answers_def queue_handler_def Let_def
  by (auto intro!: resp_intros resp_queue_serve resp_play_unavailable [THEN resp_bind] split: option.split)

lemma answers_internal: "orderly v \<Longrightarrow> answers (internal_handler v cx route)"
  unfolding answers_def internal_handler_def Let_def
  by (auto intro!: resp_intros resp_play_unavailable [THEN resp_bind] resp_dnd [THEN resp_bind]
      resp_route_to_extension [THEN resp_bind] resp_unreachable [THEN resp_bind] split: option.split)

text \<open>Calling a peer may lose the caller's INVITE after answering it; the last reply then is not sent.\<close>

lemma resp_peer_call:
  "resp 0 (do {
     act (Peer_Invite a b c f);
     uac \<leftarrow> external g;
     uas \<leftarrow> (case uac of
         Uac_Failed status \<Rightarrow> State_Monad.return (Some status)
       | Uac_Up \<Rightarrow> do {
           r \<leftarrow> external (wd_uas v);
           case r of
             Uas_Up \<Rightarrow> do { act Accept; State_Monad.return None }
           | Uas_Refused \<Rightarrow> State_Monad.return (Some 0)
           | Uas_Lost \<Rightarrow> do { act Accept; State_Monad.return (Some 0) }
         });
     case uas of
       None \<Rightarrow> do { update_status cid Answered; State_Monad.return True }
     | Some status \<Rightarrow> do {
         update cid u;
         send_unless_final (if 400 \<le> status \<and> status \<le> 699 then status else 503);
         State_Monad.return True
       }
   }) (\<lambda>taken. if taken then Suc 0 else 0)"
  by (auto simp: resp_def finals_def send_unless_final_def final_sent_iff send_def update_def update_status_def
      split: uac_outcome.split uas_outcome.split)

lemma answers_sip_uri: "answers (sip_uri_handler v cx route)"
  unfolding answers_def sip_uri_handler_def Let_def
  by (auto intro!: resp_peer_call resp_intros resp_refused split: option.split)

lemma answers_declines: "answers (State_Monad.return False)"
  by (simp add: answers_def resp_return)

lemma resp_first_taken: "(\<And>h. h \<in> set hs \<Longrightarrow> answers h) \<Longrightarrow> answers (first_taken hs)"
proof (induction hs)
  case (Cons h hs)
  then have h: "resp 0 h (\<lambda>taken. if taken then Suc 0 else 0)"
    and hs: "resp 0 (first_taken hs) (\<lambda>taken. if taken then Suc 0 else 0)"
    by (simp_all add: answers_def)
  show ?case
    unfolding answers_def first_taken.simps
    by (rule resp_bind [OF h]) (auto simp: hs intro!: resp_return)
qed (simp add: answers_declines)

lemma resp_to_voicemail:
  "resp 0 (if cf_voicemail v \<and> ivr then do {
       from_name \<leftarrow> caller_name req calling;
       saved \<leftarrow> record_voicemail v mb calling from_name;
       update_status cid (if saved then Voicemail else Missed)
     }
     else do { send_unless_final (sip_code TemporarilyUnavailable); update_status cid Missed }) (\<lambda>_. Suc 0)"
  by (auto simp: resp_ends intro!: resp_intros resp_record [THEN resp_bind])

lemma answers_dispatch: "orderly v \<Longrightarrow> answers (dispatch_routing_rule v cx rule)"
proof (cases "ru_dest_type rule = ''voicemail''")
  case True
  then show ?thesis
    by (simp add: dispatch_routing_rule_def Let_def answers_def del: if_split)
      (rule resp_mute, simp, rule resp_to_voicemail [THEN resp_bind], rule resp_return, simp)
next
  case False
  assume "orderly v"
  with False show ?thesis
    unfolding dispatch_routing_rule_def Let_def
    by (auto simp: answers_ivr answers_internal answers_declines)
      (auto simp: answers_def intro!: resp_intros resp_route_call [THEN resp_bind])
qed

lemma mute_lookup [intro!, simp]: "mute (lookup_rule v n)"
  by (auto simp: mute_def lookup_rule_def finals_def split: prod.split)

lemma answers_rule: "orderly v \<Longrightarrow> answers (apply_rule v cx)"
proof -
  assume "orderly v"
  then have "resp 0 (dispatch_routing_rule v cx r) (\<lambda>taken. if taken then Suc 0 else 0)" for r
    using answers_dispatch by (simp add: answers_def)
  then show ?thesis
    unfolding answers_def apply_rule_def
    by (auto intro!: resp_intros mute_bind mute_state split: option.split prod.split)
qed

lemma answers_handlers: "orderly v \<Longrightarrow> answers (first_taken (route_handlers v fuel cx route))"
  by (rule resp_first_taken)
    (auto simp: route_handlers_def answers_trunk_inbound answers_widget answers_teams answers_conference
      answers_queue answers_emergency answers_ivr answers_internal answers_sip_uri answers_external)

lemma resp_route_invite: "orderly v \<Longrightarrow> resp 0 (route_invite v fuel cx route) (\<lambda>_. Suc 0)"
proof -
  assume v: "orderly v"
  show ?thesis
    unfolding route_invite_def
    by (auto simp: resp_ends intro!: answers_rule [OF v, unfolded answers_def, THEN resp_bind]
        answers_handlers [OF v, unfolded answers_def, THEN resp_bind] resp_intros)
qed

section \<open>Properties\<close>



text \<open>Where the stack loses the caller's leg after the trunk call was answered, the trunk service
  reports 503 for an INVITE that already has its 200: for every number and every state, a routed
  call then has two final responses.\<close>

theorem lost_leg_answered_twice:
  assumes "tk_enabled (cf_trunk v)" "\<And>k u. wd_uac v k u = Uac_Up" "\<And>k. wd_uas v k = Uas_Lost"
  shows "finals (snd (run_state (route_call v number cid) e)) = finals e + 2"
  using assms by (simp add: route_call_def create_outbound_leg_def finals_def send_def Let_def)

theorem lost_leg_answered_twice_witness:
  "finals (snd (run_state (route_call (lab\<lparr>wd_uas := \<lambda>_. Uas_Lost\<rparr>) ''112'' None) lab_engine)) = 2"
  using lost_leg_answered_twice [of "lab\<lparr>wd_uas := \<lambda>_. Uas_Lost\<rparr>" "''112''" None lab_engine]
  by (simp add: lab_def lab_trunk_def lab_engine_def finals_def)

end
