(* ===== verification/Requests.thy ===== *)
theory Requests
  imports Step_Invariants Laboratory
begin

text \<open>
  The server as a machine over its inputs: INVITEs and REGISTERs, the timers of the
  registration store, the ends of connected legs and time passing between them, in any order.
\<close>

section \<open>Inputs\<close>

datatype input =
    In_Invite nat sip_request
  | In_Register sip_request
  | In_Timers int
  | In_Call_End bool string string string
  | In_Media_Lost
  | In_Teams_End int
  | In_Wait

inductive serves :: "env \<Rightarrow> input list \<Rightarrow> engine \<Rightarrow> engine \<Rightarrow> bool" for v where
  idle: "serves v [] e e"
| invite: "serves v ins e e1 \<Longrightarrow> e2 = snd (run_state (handle_invite v fuel req) e1) \<Longrightarrow>
    serves v (ins @ [In_Invite fuel req]) e e2"
| register: "serves v ins e e1 \<Longrightarrow> e2 = snd (run_state (handle_register v req) e1) \<Longrightarrow>
    serves v (ins @ [In_Register req]) e e2"
| timers: "serves v ins e e1 \<Longrightarrow> e2 = e1\<lparr>en_store := ms_advance now (en_store e1)\<rparr> \<Longrightarrow>
    serves v (ins @ [In_Timers now]) e e2"
| call_end: "serves v ins e e1 \<Longrightarrow> e2 = snd (run_state (call_ended v audited cid calling called) e1) \<Longrightarrow>
    serves v (ins @ [In_Call_End audited cid calling called]) e e2"
| media_lost: "serves v ins e e1 \<Longrightarrow> e2 = snd (run_state connection_lost e1) \<Longrightarrow>
    serves v (ins @ [In_Media_Lost]) e e2"
| teams_end: "serves v ins e e1 \<Longrightarrow> e2 = snd (run_state (teams_trunk_end v since) e1) \<Longrightarrow>
    serves v (ins @ [In_Teams_End since]) e e2"
| wait: "serves v ins e e1 \<Longrightarrow> e2 = e1\<lparr>en_tick := Suc (en_tick e1)\<rparr> \<Longrightarrow> serves v (ins @ [In_Wait]) e e2"

inductive_cases served_nothing: "serves v [] e e'"

text \<open>The store through an INVITE: its soundness, and the directory of users and registrations.\<close>

interpretation sound: invite_policy "\<lambda>e. db_ok (en_db e)" "\<lambda>_. True" v req
  for v req
proof
  have calls: "db_ok (log_call c d) = db_ok d" "db_ok (update_call cid u d) = db_ok d" for c cid u d
    by (simp_all add: db_ok_def)
  show "db_ok (en_db (e\<lparr>en_db := log_call c (en_db e)\<rparr>))" "db_ok (en_db (e\<lparr>en_db := update_call cid u (en_db e)\<rparr>))"
    if "db_ok (en_db e)" for e :: engine and c cid u
    using that by (simp_all add: calls)
  show "db_ok (en_db (snd (run_state (lookup_rule v (called_of req)) e)))" if "db_ok (en_db e)" for e
    using that by (auto simp: lookup_rule_def get_routing_rule_def db_ok_def split: prod.split)
qed simp_all

interpretation same_directory: invite_policy "\<lambda>e. directory (en_db e) = d" "\<lambda>_. True" v req
  for d v req
  by unfold_locales (auto simp: lookup_rule_def split_beta)

text \<open>The end of a leg, the one step that ends a call in the store.\<close>

lemma sound_end: "sound.keeps (call_ended v audited cid calling called)"
  by (rule sound.keepsI) (simp add: call_ended_def update_def audit_def db_ok_def)

lemma same_directory_end: "same_directory.keeps d (call_ended v audited cid calling called)"
  by (rule same_directory.keepsI) (simp add: call_ended_def update_def audit_def)

section \<open>REGISTER\<close>

lemma db_ok_register: "db_ok d \<Longrightarrow> db_ok (register_user ext r d)"
  by (simp add: register_user_def db_ok_modify)

lemma db_ok_unregister: "db_ok d \<Longrightarrow> db_ok (unregister_user ext d)"
  by (simp add: unregister_user_def db_ok_modify)

lemma db_ok_hydrate: "db_ok d \<Longrightarrow> db_ok (hydrate_user_detail b f p w ext d)"
  by (simp add: hydrate_user_detail_def db_ok_modify)

lemma sound_db_do: "(\<And>d. db_ok d \<Longrightarrow> db_ok (f d)) \<Longrightarrow> sound.keeps (db_do f)"
  by (simp add: sound.keeps_def)

lemma sound_register: "sound.keeps (handle_register v req)"
proof -
  have "sound.keeps (sync_queues v)"
    by (auto simp: sync_queues_def intro!: sound.keeps_bind sound.keeps_changes)
  then have "sound.keeps (register_device v req ip ext)" "sound.keeps (unregister_device v ext)" for ip ext
    by (auto simp: register_device_def unregister_device_def Let_def db_ok_register db_ok_unregister db_ok_hydrate
        intro!: sound.keeps_bind sound.keeps_changes sound_db_do split: option.split prod.split)
  then show ?thesis
    by (auto simp: handle_register_def Let_def intro!: sound.keeps_bind split: admission.split option.split)
      (simp add: sound.keeps_def)
qed

text \<open>What an admitted REGISTER of a known user does to the two places that hold registrations.\<close>

definition admitted :: "env \<Rightarrow> engine \<Rightarrow> string \<Rightarrow> bool" where
  "admitted v e ip \<longleftrightarrow> \<not> is_banned (wd_now v (en_tick e)) (en_guard e) ip \<and>
     fst (check_sip_rate (cf_rate_limit v) (cf_rate_window v) (wd_now v (en_tick e)) ip (en_rates e))"

lemma registrations_frame [simp]:
  "db_registrations (hydrate_user_detail b f p w ext d) = db_registrations d"
  "db_registrations (register_user ext r d) = m_set ext r (db_registrations d)"
  "db_registrations (unregister_user ext d) = m_del ext (db_registrations d)"
  by (simp_all add: hydrate_user_detail_def register_user_def unregister_user_def)

lemma register_view:
  assumes "admitted v e (rq_source req)" "get_user (en_db e) (register_username req) = Some u"
    and "wd_store v (en_tick e)" "register_expires req \<noteq> Some 0"
  shows "db_registrations (en_db (snd (run_state (handle_register v req) e))) =
      m_set (su_extension u) (registration_of req) (db_registrations (en_db e))"
    and "ms_get (en_store (snd (run_state (handle_register v req) e))) j =
      (if j = su_extension u then Some (registration_of req) else ms_get (en_store e) j)"
  using assms
  by (simp_all add: handle_register_def admitted_def admit_def register_device_def sync_queues_def send_def audit_def
      split_beta Let_def memory.get_put split: option.split)

lemma register_rest:
  assumes "admitted v e (rq_source req)" "get_user (en_db e) (register_username req) = Some u"
    and "wd_store v (en_tick e)" "register_expires req \<noteq> Some 0"
    and "wd_detail v (Suc (en_tick e)) (su_extension u) = None"
    and "e1 = snd (run_state (handle_register v req) e)"
  shows "en_db e1 = register_user (su_extension u) (registration_of req) (en_db e)"
    and "en_guard e1 = record_success (wd_now v (Suc (en_tick e))) (rq_source req) (en_guard e)"
    and "en_rates e1 = snd (check_sip_rate (cf_rate_limit v) (cf_rate_window v) (wd_now v (en_tick e)) (rq_source req) (en_rates e))"
    and "en_tick e1 = Suc (Suc (en_tick e))"
  using assms
  by (simp_all add: handle_register_def admitted_def admit_def register_device_def sync_queues_def send_def audit_def
      split_beta Let_def)

lemma unregistered_view:
  assumes "admitted v e (rq_source req)" "get_user (en_db e) (register_username req) = Some u"
    and "wd_store v (en_tick e)" "register_expires req = Some 0"
  shows "db_registrations (en_db (snd (run_state (handle_register v req) e))) =
      m_del (su_extension u) (db_registrations (en_db e))"
    and "ms_get (en_store (snd (run_state (handle_register v req) e))) j =
      (if j = su_extension u then None else ms_get (en_store e) j)"
  using assms
  by (simp_all add: handle_register_def admitted_def admit_def unregister_device_def sync_queues_def send_def audit_def
      split_beta Let_def memory.get_del split: option.split)

section \<open>Properties\<close>

text \<open>C24: Registering and unregistering an extension is a round trip: after the REGISTER both the routing
  directory and the registration store hold the device's contact for it, and after the
  unregistering REGISTER both are as before for every extension, if it was not registered.\<close>

theorem registration_roundtrip:
  assumes "admitted v e (rq_source r1)" "get_user (en_db e) (register_username r1) = Some u"
    and "wd_store v (en_tick e)" "register_expires r1 \<noteq> Some 0"
    and "e1 = snd (run_state (handle_register v r1) e)"
    and "admitted v e1 (rq_source r2)" "get_user (en_db e1) (register_username r2) = Some u2"
    and "su_extension u2 = su_extension u" "wd_store v (en_tick e1)" "register_expires r2 = Some 0"
    and "\<not> is_registered (en_db e) (su_extension u)" "ms_get (en_store e) (su_extension u) = None"
    and "e2 = snd (run_state (handle_register v r2) e1)"
  shows "get_registration (en_db e1) (su_extension u) = Some (registration_of r1) \<and>
    ms_get (en_store e1) (su_extension u) = Some (registration_of r1) \<and>
    (\<forall>j. get_registration (en_db e2) j = get_registration (en_db e) j \<and>
         ms_get (en_store e2) j = ms_get (en_store e) j)"
proof -
  have 1: "db_registrations (en_db e1) = m_set (su_extension u) (registration_of r1) (db_registrations (en_db e))"
    "ms_get (en_store e1) j = (if j = su_extension u then Some (registration_of r1) else ms_get (en_store e) j)" for j
    using register_view [OF assms(1-4)] assms(5) by simp_all
  have "db_registrations (en_db e2) = m_del (su_extension u) (db_registrations (en_db e1))"
    "ms_get (en_store e2) j = (if j = su_extension u then None else ms_get (en_store e1) j)" for j
    using unregistered_view [OF assms(6,7,9,10)] assms(8,13) by simp_all
  with 1 show ?thesis
    using assms(11,12) by (auto simp: get_registration_def is_registered_get js.get_put js.get_del)
qed

definition lab_headers :: "string \<Rightarrow> string \<Rightarrow> (string \<times> string) list" where
  "lab_headers ext expires = [(''From'', concat [''<sip:'', ext, ''@lab>'']),
     (''Contact'', concat [''<sip:'', ext, ''@10.0.0.6>'']), (''Expires'', expires)]"

definition lab_register :: "string \<Rightarrow> string \<Rightarrow> sip_request" where
  "lab_register ext expires = rq_headers_update (\<lambda>_. lab_headers ext expires) (invite ext ext)"

theorem registration_roundtrip_witness:
  "let e1 = snd (run_state (handle_register lab (lab_register ''1002'' ''60'')) lab_engine);
       e2 = snd (run_state (handle_register lab (lab_register ''1002'' ''0'')) e1)
   in is_registered (en_db e1) ''1002'' \<and> get_registration (en_db e2) ''1002'' = None"
proof -
  let ?e1 = "snd (run_state (handle_register lab (lab_register ''1002'' ''60'')) lab_engine)"
  let ?u = "lab_user ''1002'' (Some ''+15550002'')"
  have 1: "admitted lab lab_engine (rq_source (lab_register ''1002'' ''60''))"
    "get_user (en_db lab_engine) (register_username (lab_register ''1002'' ''60'')) = Some ?u"
    "wd_store lab (en_tick lab_engine)" "register_expires (lab_register ''1002'' ''60'') \<noteq> Some 0"
    by code_simp+
  have "wd_detail lab (Suc (en_tick lab_engine)) (su_extension ?u) = None" by (simp add: lab_def)
  note e1 = register_rest [OF 1 this refl]
  have 2: "admitted lab ?e1 (rq_source (lab_register ''1002'' ''0''))"
    unfolding admitted_def e1 by code_simp
  have 3: "wd_store lab (en_tick ?e1)" by (simp add: lab_def)
  have 5: "register_expires (lab_register ''1002'' ''0'') = Some 0" by code_simp
  have "map_option su_extension (get_user (en_db ?e1) (register_username (lab_register ''1002'' ''0''))) = Some ''1002''"
    unfolding e1 by code_simp
  then obtain u2 where u2: "get_user (en_db ?e1) (register_username (lab_register ''1002'' ''0'')) = Some u2"
    "su_extension u2 = ''1002''" by blast
  have 4: "su_extension ?u = ''1002''" "\<not> is_registered (en_db lab_engine) ''1002''"
    "ms_get (en_store lab_engine) ''1002'' = None" by code_simp+
  from registration_roundtrip [OF 1 refl 2 u2(1) _ 3 5 _ _ refl] u2(2) 4
  show ?thesis by (simp add: Let_def registrations.get_put is_registered_get)
qed



text \<open>The directory the routes decide on has no expiry: whatever INVITEs, timer callbacks of the
  registration store and leg ends follow, as long as there is no REGISTER every extension that
  was registered still is, also after the store has dropped its entry.\<close>

theorem registration_outlives_store:
  assumes "serves v ins e e'" "\<forall>req. In_Register req \<notin> set ins"
  shows "is_registered (en_db e') ext = is_registered (en_db e) ext"
proof -
  have "directory (en_db e') = directory (en_db e)"
    using assms
  proof (induction rule: serves.induct)
    case (invite ins e e1 e2 req fuel)
    then show ?case
      using same_directory.keepsD [OF same_directory.keeps_invite [of "directory (en_db e)" v req fuel], of e1] by simp
  qed (auto simp: connection_lost_def call_ended_def audit_def update_def teams_trunk_end_def play_def)
  then show ?thesis by (rule directory_registered)
qed

theorem registration_outlives_store_witness:
  "let e = lab_engine\<lparr>en_store := ms_register 0 ''1001'' lab_contact empty_store\<rparr>;
       e' = e\<lparr>en_store := ms_advance 3600000 (en_store e)\<rparr>
   in is_registered (en_db e') ''1001'' \<and> \<not> ms_has (en_store e') ''1001''"
proof -
  let ?e = "lab_engine\<lparr>en_store := ms_register 0 ''1001'' lab_contact empty_store\<rparr>"
  let ?e' = "?e\<lparr>en_store := ms_advance 3600000 (en_store ?e)\<rparr>"
  have "serves lab ([] @ [In_Timers 3600000]) ?e ?e'"
    by (rule serves.timers [OF serves.idle]) simp
  from registration_outlives_store [OF this, of "''1001''"]
  have "is_registered (en_db ?e') ''1001'' = is_registered (en_db ?e) ''1001''" by simp
  moreover have "is_registered (en_db ?e) ''1001''"
    by (simp add: lab_engine_def lab_db_def is_registered_def m_has_def)
  moreover have "\<not> ms_has (en_store ?e') ''1001''"
    by code_simp
  ultimately show ?thesis by (simp add: Let_def)
qed

text \<open>A banned source is answered 403 and nothing else happens: no rate accounting, no lookup, no
  call record, no offence; REGISTER and INVITE alike.\<close>

theorem banned_source_inert:
  assumes "is_banned (wd_now v (en_tick e)) (en_guard e) (rq_source req)"
  shows "snd (run_state (handle_invite v fuel req) e) = e\<lparr>en_trace := [Reply 403]\<rparr> \<and>
    snd (run_state (handle_register v req) e) = e\<lparr>en_trace := [Reply 403]\<rparr>"
  using assms by (simp add: handle_invite_def handle_register_def admit_def send_def Let_def)

theorem banned_source_inert_witness:
  "let e = lab_engine\<lparr>en_guard := fst (record_offense 0 ''198.51.100.9'' (new_guard 1 60000 60000 None None))\<rparr>
   in snd (run_state (handle_invite lab 3 (invite ''666'' ''112'')) e) = e\<lparr>en_trace := [Reply 403]\<rparr>"
proof -
  let ?e = "lab_engine\<lparr>en_guard := fst (record_offense 0 ''198.51.100.9'' (new_guard 1 60000 60000 None None))\<rparr>"
  have "is_banned 0 (fst (record_offense 0 ''198.51.100.9'' (new_guard 1 60000 60000 None None))) ''198.51.100.9''"
    by code_simp
  then have "is_banned (wd_now lab (en_tick ?e)) (en_guard ?e) (rq_source (invite ''666'' ''112''))" by simp
  from banned_source_inert [OF this] show ?thesis by (simp add: Let_def)
qed

text \<open>C12: The anti-scan screen: an INVITE that is neither from the trunk nor carries a widget token,
  to an unknown extension or from an unregistered caller to the outside, is refused with 403.
  It leaves no call record; all it changes is the source's rate entry and offence tally, and it
  dials nothing.\<close>

theorem screened_invite_inert:
  assumes "\<not> is_banned (wd_now v (en_tick e)) (en_guard e) (rq_source req)"
    and "fst (check_sip_rate (cf_rate_limit v) (cf_rate_window v) (wd_now v (en_tick e)) (rq_source req) (en_rates e))"
    and "\<not> is_from_trunk (cf_trunk v) (rq_source req)" "parse_widget_token v req = None"
    and "\<not> is_invite_legitimate (en_db e) (classify v (en_db e) req (called_of req)) (caller_of v req)"
  shows "snd (run_state (handle_invite v fuel req) e) = e\<lparr>
      en_rates := snd (check_sip_rate (cf_rate_limit v) (cf_rate_window v) (wd_now v (en_tick e)) (rq_source req) (en_rates e)),
      en_guard := fst (record_offense (wd_now v (en_tick e)) (rq_source req) (en_guard e)),
      en_trace := (case snd (record_offense (wd_now v (en_tick e)) (rq_source req) (en_guard e)) of
          None \<Rightarrow> [] | Some argv \<Rightarrow> [Firewall argv]) @
        [Audit AuCallBlocked (caller_of v req) (Some (called_of req)), Reply 403]\<rparr>"
  using assms unfolding caller_of_def called_of_def
  by (simp add: handle_invite_def admit_def accept_invite_def offend_def audit_def send_def split_beta Let_def
      split: option.split)

theorem screened_invite_inert_witness:
  "let e' = snd (run_state (handle_invite lab 3 (invite ''666'' ''+14155552671'')) lab_engine)
   in en_trace e' = [Audit AuCallBlocked ''666'' (Some ''+14155552671''), Reply 403] \<and>
      db_calls (en_db e') = []"
proof -
  let ?r = "invite ''666'' ''+14155552671''"
  have "check_sip_rate 10 1000 0 ''198.51.100.9'' [] = (True, [(''198.51.100.9'', \<lparr>le_count = 1, le_reset = 1000\<rparr>)])"
    by code_simp
  then have rate: "fst (check_sip_rate (cf_rate_limit lab) (cf_rate_window lab) (wd_now lab (en_tick lab_engine)) (rq_source ?r) (en_rates lab_engine))"
    by simp
  have guard: "\<not> is_banned (wd_now lab (en_tick lab_engine)) (en_guard lab_engine) (rq_source ?r)"
    by (simp add: is_banned_def new_guard_def)
  have "\<not> is_from_trunk lab_trunk ''198.51.100.9''" by code_simp
  then have trunk: "\<not> is_from_trunk (cf_trunk lab) (rq_source ?r)" by simp
  have called: "called_of ?r = ''+14155552671''" by code_simp
  have token: "parse_widget_token lab ?r = None" by (simp add: parse_widget_token_def Let_def)
  then have caller: "caller_of lab ?r = ''666''" by (simp add: caller_of_def)
  have "classify lab lab_db ?r ''+14155552671'' = dial_to RExternal ''+14155552671'' ''+14155552671'' ''+14155552671''"
    by code_simp
  then have strange: "\<not> is_invite_legitimate (en_db lab_engine) (classify lab (en_db lab_engine) ?r (called_of ?r)) (caller_of lab ?r)"
    by (simp add: called caller is_invite_legitimate_def lab_db_def is_registered_def m_has_def)
  have 2: "snd (record_offense 0 ''198.51.100.9'' (new_guard 5 60000 60000 None None)) = None" by code_simp
  show ?thesis
    unfolding screened_invite_inert [OF guard rate trunk token strange]
    by (simp add: Let_def 2 called caller lab_db_def empty_db_def)
qed

end
