(* ===== verification/Queue_Waiting.thy ===== *)
theory Queue_Waiting
  imports Step_Invariants Laboratory
begin

text \<open>
  A caller waiting in an ACD queue: the wait ends, and when it ends without an agent the caller
  has left the queue. The legs' listeners of \<^verbatim>\<open>enqueueCaller\<close> are part of it.
\<close>

section \<open>Triples\<close>

definition triple :: "(engine \<Rightarrow> bool) \<Rightarrow> 'a sip \<Rightarrow> ('a \<Rightarrow> engine \<Rightarrow> bool) \<Rightarrow> bool" where
  "triple P m Q \<longleftrightarrow> (\<forall>e. P e \<longrightarrow> Q (fst (run_state m e)) (snd (run_state m e)))"

lemma triple_bind: "triple P m Q \<Longrightarrow> (\<And>a. triple (Q a) (f a) R) \<Longrightarrow> triple P (State_Monad.bind m f) R"
  by (simp add: triple_def split_beta)

lemma triple_return: "(\<And>e. P e \<Longrightarrow> Q a e) \<Longrightarrow> triple P (State_Monad.return a) Q"
  by (simp add: triple_def)

lemma triple_weaken: "triple P m Q \<Longrightarrow> (\<And>e. P' e \<Longrightarrow> P e) \<Longrightarrow> (\<And>a e. Q a e \<Longrightarrow> Q' a e) \<Longrightarrow> triple P' m Q'"
  by (simp add: triple_def)

section \<open>The wait ends\<close>

text \<open>The clock of the answers: it never goes back, and \<open>k\<close> answers take a millisecond.\<close>

definition clock_runs :: "env \<Rightarrow> nat \<Rightarrow> bool" where
  "clock_runs v k \<longleftrightarrow> (\<forall>n. wd_now v n \<le> wd_now v (Suc n)) \<and> (\<forall>n. wd_now v n < wd_now v (n + k))"

lemma clock_mono: "clock_runs v k \<Longrightarrow> n \<le> m \<Longrightarrow> wd_now v n \<le> wd_now v m"
  by (rule lift_Suc_mono_le [of "wd_now v"]) (simp_all add: clock_runs_def)

lemma clock_advances: "clock_runs v k \<Longrightarrow> wd_now v n + int w \<le> wd_now v (n + k * w)"
proof (induction w)
  case (Suc w)
  have "wd_now v (n + k * w) < wd_now v (n + k * w + k)" using Suc.prems by (simp add: clock_runs_def)
  with Suc show ?case by (simp add: algebra_simps)
qed simp

definition ticking :: "'a sip \<Rightarrow> bool" where
  "ticking m \<longleftrightarrow> (\<forall>t. triple (\<lambda>e. t \<le> en_tick e) m (\<lambda>_ e. t \<le> en_tick e))"

lemma ticking_def': "ticking m \<longleftrightarrow> (\<forall>e. en_tick e \<le> en_tick (snd (run_state m e)))"
  by (auto simp: ticking_def triple_def intro: order_trans)

lemma ticking_return [intro!, simp]: "ticking (State_Monad.return a)"
  by (simp add: ticking_def')

lemma ticking_bind: "ticking m \<Longrightarrow> (\<And>a. ticking (f a)) \<Longrightarrow> ticking (State_Monad.bind m f)"
  unfolding ticking_def by (blast intro: triple_bind)

lemma ticking_steps [intro!, simp]:
  "ticking skip" "ticking (gets f)" "ticking (external h)" "ticking (clock v)" "ticking (queue_do q)"
  "ticking (act eff)" "ticking (db_read k)" "ticking (op v)" "ticking (play fl)"
  by (simp_all add: ticking_def' op_def play_def)

lemma ticking_state: "(\<And>e. en_tick (snd (f e)) = en_tick e) \<Longrightarrow> ticking (State f)"
  by (simp add: ticking_def')

lemma ticking_hooks [intro!, simp]:
  "ticking (next_with_contact qid n ex)" "ticking (leave_queue v qid cid)" "ticking (ring_agent v c)"
proof -
  show "ticking (next_with_contact qid n ex)" for n ex
    by (induction n arbitrary: ex) (auto intro!: ticking_bind ticking_state split: option.split prod.split)
  show "ticking (leave_queue v qid cid)" "ticking (ring_agent v c)"
    by (auto simp: leave_queue_def ring_agent_def intro!: ticking_bind)
qed

definition ticking_opts :: "queue_opts \<Rightarrow> bool" where
  "ticking_opts q \<longleftrightarrow> ticking (qo_next q) \<and> (\<forall>x. ticking (qo_ring_agent q x) \<and> ticking (qo_no_answer q x) \<and>
     ticking (qo_connected q x)) \<and> ticking (qo_abandoned q) \<and> ticking (qo_timeout q) \<and> ticking (qo_ended q)"

lemma ticking_queue_options: "ticking_opts (queue_options v qid cid roster)"
  by (auto simp: ticking_opts_def queue_options_def intro!: ticking_bind)

text \<open>A wait that returns a result, from every state in which at least \<open>t\<close> answers were given.\<close>

definition returns_from :: "nat \<Rightarrow> 'a option sip \<Rightarrow> bool" where
  "returns_from t m \<longleftrightarrow> triple (\<lambda>e. t \<le> en_tick e) m (\<lambda>r _. r \<noteq> None)"

lemma returns_return [intro!]: "returns_from t (State_Monad.return (Some r))"
  by (simp add: returns_from_def triple_return)

lemma returns_bind: "ticking m \<Longrightarrow> (\<And>a. returns_from t (f a)) \<Longrightarrow> returns_from t (State_Monad.bind m f)"
  unfolding ticking_def returns_from_def by (blast intro: triple_bind)

lemma returns_clock:
  "clock_runs v k \<Longrightarrow> (\<And>now. wd_now v t \<le> now \<Longrightarrow> returns_from t (f now)) \<Longrightarrow>
     returns_from t (State_Monad.bind (clock v) f)"
  using clock_mono [of v k] by (auto simp: returns_from_def triple_def)

lemma ticking_run_ended: "ticking_opts q \<Longrightarrow> ticking (run_ended q c)"
  by (auto simp: run_ended_def ticking_opts_def intro!: ticking_bind)

lemma hear_ticks: "ticking_opts q \<Longrightarrow> triple (\<lambda>e. t \<le> en_tick e) (hear v q c) (\<lambda>_ e. Suc t \<le> en_tick e)"
proof -
  assume q: "ticking_opts q"
  have "ticking (do { c' \<leftarrow> run_ended q c; act Teardown; State_Monad.return c' })"
    using ticking_run_ended [OF q] by (auto intro!: ticking_bind)
  then have "triple (\<lambda>e. Suc t \<le> en_tick e) (if \<not> g then State_Monad.return c
     else if cl_listening c then State_Monad.return (c\<lparr>cl_gone := True\<rparr>)
     else do { c' \<leftarrow> run_ended q c; act Teardown; State_Monad.return c' }) (\<lambda>_ e. Suc t \<le> en_tick e)" for g
    by (auto simp: ticking_def intro!: triple_return)
  moreover have "triple (\<lambda>e. t \<le> en_tick e) (external (wd_gone v)) (\<lambda>_ e. Suc t \<le> en_tick e)"
    by (simp add: triple_def)
  ultimately show ?thesis
    unfolding hear_def by (rule triple_bind [rotated])
qed

lemma ticking_hear: "ticking_opts q \<Longrightarrow> ticking (hear v q c)"
  unfolding ticking_def using hear_ticks by (fastforce intro: triple_weaken)

lemma returns_hear:
  "ticking_opts q \<Longrightarrow> (\<And>c'. returns_from (Suc t) (f c')) \<Longrightarrow> returns_from t (State_Monad.bind (hear v q c) f)"
  unfolding returns_from_def by (rule triple_bind [OF hear_ticks])

lemma returns_later: "returns_from t m \<Longrightarrow> t \<le> t' \<Longrightarrow> returns_from t' m"
  unfolding returns_from_def by (erule triple_weaken) auto

lemma returns_queue_loop:
  assumes "clock_runs v k" "ticking_opts q"
  shows "deadline \<le> wd_now v (t + fuel) \<Longrightarrow> returns_from t (queue_loop v (Suc fuel) q deadline c)"
proof (induction fuel arbitrary: t c)
  case 0
  have q: "ticking (qo_abandoned q)" "ticking (qo_timeout q)" "ticking (run_ended q c)"
    using assms(2) ticking_run_ended by (simp_all add: ticking_opts_def)
  show ?case
    unfolding queue_loop.simps
    by (rule returns_clock [OF assms(1)]) (use 0 q in \<open>auto intro!: returns_bind\<close>)
next
  case (Suc fuel)
  have q: "ticking (qo_next q)" "\<And>x. ticking (qo_ring_agent q x)" "\<And>x. ticking (qo_no_answer q x)"
    "\<And>x. ticking (qo_connected q x)" "ticking (qo_abandoned q)" "ticking (qo_timeout q)" "\<And>c. ticking (run_ended q c)"
    "\<And>c. ticking (hear v q c)"
    using assms(2) ticking_run_ended ticking_hear by (simp_all add: ticking_opts_def)
  have failed: "ticking (queue_failed q c)" "ticking (release_failed v q c)" for c
    using q by (auto simp: queue_failed_def release_failed_def send_unless_final_def send_def intro!: ticking_bind)
  have IH: "Suc t \<le> t' \<Longrightarrow> returns_from t' (queue_loop v (Suc fuel) q deadline c)" for t' c
    using Suc by (intro returns_later [OF Suc.IH [of "Suc t"]]) simp_all
  show ?case
    unfolding queue_loop.simps(2) [of v "Suc fuel"]
    by (rule returns_clock [OF assms(1)])
      (use q failed in \<open>auto simp: IH simp del: queue_loop.simps
        intro!: returns_hear [OF assms(2)] returns_bind split: option.split prod.split\<close>)
qed

section \<open>Leaving the queue\<close>

definition in_queue :: "queue_service \<Rightarrow> string \<Rightarrow> string \<Rightarrow> bool" where
  "in_queue s qid cid \<longleftrightarrow> (case get_queue s qid of None \<Rightarrow> False | Some q \<Rightarrow> m_has (qu_callers q) cid)"

lemma dequeue_leaves [simp]: "\<not> in_queue (dequeue now qid cid s) qid cid"
  by (auto simp: dequeue_def in_queue_def Let_def m_has_def put_agent_def js.get_del split: option.split)

lemma absent_stays [simp]:
  assumes "\<not> in_queue s qid cid"
  shows "\<not> in_queue (mark_caller_ringing qid cid ext s) qid cid"
    "\<not> in_queue (release_ring now qid cid ext s) qid cid"
    "\<not> in_queue (mark_caller_connected qid cid ext s) qid cid"
    "\<not> in_queue (snd (next_available_agent qid ex s)) qid cid"
proof -
  show "\<not> in_queue (mark_caller_ringing qid cid ext s) qid cid" "\<not> in_queue (release_ring now qid cid ext s) qid cid"
    "\<not> in_queue (mark_caller_connected qid cid ext s) qid cid"
    using assms
    by (auto simp: in_queue_def mark_caller_ringing_def release_ring_def mark_caller_connected_def m_has_def Let_def
        put_agent_def split: option.split)
  show "\<not> in_queue (snd (next_available_agent qid ex s)) qid cid"
    using assms
    by (auto simp: in_queue_def next_available_agent_def m_has_def Let_def get_queue_def js.get_put
        split: option.split list.split strategy.split prod.split)
qed

text \<open>Steps that do not bring the caller back.\<close>

definition absent :: "string \<Rightarrow> string \<Rightarrow> engine \<Rightarrow> bool" where
  "absent qid cid e \<longleftrightarrow> \<not> in_queue (en_queue e) qid cid"

definition leaves_absent :: "string \<Rightarrow> string \<Rightarrow> 'a sip \<Rightarrow> bool" where
  "leaves_absent qid cid m \<longleftrightarrow> triple (absent qid cid) m (\<lambda>_. absent qid cid)"

lemma leaves_bind:
  "leaves_absent qid cid m \<Longrightarrow> (\<And>a. leaves_absent qid cid (f a)) \<Longrightarrow> leaves_absent qid cid (State_Monad.bind m f)"
  unfolding leaves_absent_def by (rule triple_bind)

lemma leaves_steps [intro!, simp]:
  "leaves_absent qid cid (State_Monad.return a)" "leaves_absent qid cid skip" "leaves_absent qid cid (gets f)"
  "leaves_absent qid cid (external h)" "leaves_absent qid cid (clock v)" "leaves_absent qid cid (act eff)"
  "leaves_absent qid cid (db_read k)" "leaves_absent qid cid (op v)" "leaves_absent qid cid (play fl)"
  by (simp_all add: leaves_absent_def triple_def absent_def op_def play_def)

lemma leaves_more [intro!, simp]:
  "leaves_absent qid cid (ring_agent v c)" "leaves_absent qid cid (send_unless_final code)"
  "leaves_absent qid cid (next_with_contact qid n ex)"
proof -
  show "leaves_absent qid cid (ring_agent v c)" "leaves_absent qid cid (send_unless_final code)"
    by (auto simp: ring_agent_def send_unless_final_def send_def intro!: leaves_bind)
  have step: "leaves_absent qid cid (State (\<lambda>e. case next_available_agent qid ex (en_queue e) of
      (a, q) \<Rightarrow> (a, e\<lparr>en_queue := q\<rparr>)))" for ex
    by (auto simp: leaves_absent_def triple_def absent_def split_beta)
  show "leaves_absent qid cid (next_with_contact qid n ex)" for n ex
    by (induction n arbitrary: ex) (auto intro!: leaves_bind step split: option.split)
qed

text \<open>Leaving the queue is final, and the leg's flag \<open>cl_ended\<close> records it.\<close>

definition leg_fits :: "string \<Rightarrow> string \<Rightarrow> caller_leg \<Rightarrow> engine \<Rightarrow> bool" where
  "leg_fits qid cid c e \<longleftrightarrow> (cl_ended c \<longrightarrow> absent qid cid e)"

lemma leaves_leg: "leaves_absent qid cid m \<Longrightarrow> triple (leg_fits qid cid c) m (\<lambda>_. leg_fits qid cid c)"
  by (auto simp: leaves_absent_def triple_def leg_fits_def)

lemma leave_queue_leaves: "triple P (leave_queue v qid cid) (\<lambda>_. absent qid cid)"
  by (simp add: triple_def leave_queue_def absent_def)

lemma leg_bind:
  "leaves_absent qid cid m \<Longrightarrow> (\<And>a. triple (leg_fits qid cid c) (f a) R) \<Longrightarrow>
     triple (leg_fits qid cid c) (State_Monad.bind m f) R"
  by (rule triple_bind [OF leaves_leg])

lemma absent_bind:
  "leaves_absent qid cid m \<Longrightarrow> (\<And>a. triple (absent qid cid) (f a) R) \<Longrightarrow> triple (absent qid cid) (State_Monad.bind m f) R"
  unfolding leaves_absent_def by (rule triple_bind)

text \<open>The legs of the loop with the hooks of the queue handler.\<close>

lemma leaves_hooks [intro!, simp]:
  "leaves_absent qid cid (qo_next (queue_options v qid cid roster))"
  "leaves_absent qid cid (qo_ring_agent (queue_options v qid cid roster) ext)"
  "leaves_absent qid cid (qo_no_answer (queue_options v qid cid roster) ext)"
  "leaves_absent qid cid (qo_connected (queue_options v qid cid roster) ext)"
  "leaves_absent qid cid (qo_abandoned (queue_options v qid cid roster))"
  "leaves_absent qid cid (qo_timeout (queue_options v qid cid roster))"
  "leaves_absent qid cid (queue_do (release_ring now qid cid ext))"
  "leaves_absent qid cid (leave_queue v qid cid)"
proof -
  have q: "leaves_absent qid cid (queue_do f)" if "\<And>s. \<not> in_queue s qid cid \<Longrightarrow> \<not> in_queue (f s) qid cid" for f
    using that by (simp add: leaves_absent_def triple_def absent_def)
  show "leaves_absent qid cid (queue_do (release_ring now qid cid ext))" by (rule q) simp
  show leave: "leaves_absent qid cid (leave_queue v qid cid)"
    unfolding leaves_absent_def by (rule leave_queue_leaves)
  show "leaves_absent qid cid (qo_next (queue_options v qid cid roster))"
    "leaves_absent qid cid (qo_ring_agent (queue_options v qid cid roster) ext)"
    "leaves_absent qid cid (qo_no_answer (queue_options v qid cid roster) ext)"
    "leaves_absent qid cid (qo_connected (queue_options v qid cid roster) ext)"
    "leaves_absent qid cid (qo_abandoned (queue_options v qid cid roster))"
    "leaves_absent qid cid (qo_timeout (queue_options v qid cid roster))"
    by (auto simp: queue_options_def leave intro!: leaves_bind q)
qed

lemma ended_leaves:
  "triple (leg_fits qid cid c) (run_ended (queue_options v qid cid roster) c) (\<lambda>c' e. absent qid cid e)"
  by (auto simp: run_ended_def queue_options_def leg_fits_def triple_def leave_queue_def absent_def)

lemma absent_ended:
  "leaves_absent qid cid (run_ended (queue_options v qid cid roster) c)"
  by (auto simp: run_ended_def queue_options_def intro!: leaves_bind)

lemma ended_bind:
  "(\<And>a. triple (absent qid cid) (f a) R) \<Longrightarrow>
     triple (leg_fits qid cid c) (State_Monad.bind (run_ended (queue_options v qid cid roster) c) f) R"
  by (rule triple_bind [OF ended_leaves])

lemma hear_leg:
  "triple (leg_fits qid cid c) (hear v (queue_options v qid cid roster) c) (leg_fits qid cid)"
  unfolding hear_def
  by (auto intro!: leg_bind ended_bind absent_bind triple_return simp: leg_fits_def)

lemma release_leg:
  "triple (leg_fits qid cid c) (release_failed v (queue_options v qid cid roster) c) (leg_fits qid cid)"
  unfolding release_failed_def
  by (auto intro!: leg_bind ended_bind absent_bind triple_return simp: leg_fits_def)

lemma failed_leaves:
  "triple (leg_fits qid cid c) (queue_failed (queue_options v qid cid roster) c) (\<lambda>_. absent qid cid)"
  unfolding queue_failed_def
  by (auto intro!: ended_bind absent_bind triple_return)

text \<open>The outcome of a wait without an agent.\<close>

definition no_agent :: "queue_outcome option \<Rightarrow> bool" where
  "no_agent r \<longleftrightarrow> r \<noteq> None \<and> (\<forall>ext. r \<noteq> Some (Connected ext))"

lemma no_agent_simps [simp]: "\<not> no_agent None" "\<not> no_agent (Some (Connected ext))"
  by (simp_all add: no_agent_def)

lemma leg_unheard [simp]: "leg_fits qid cid (c\<lparr>cl_listening := b\<rparr>) = leg_fits qid cid c"
  by (simp add: leg_fits_def fun_eq_iff)

lemma loop_leaves:
  "triple (leg_fits qid cid c) (queue_loop v fuel (queue_options v qid cid roster) deadline c)
     (\<lambda>r e. no_agent r \<longrightarrow> absent qid cid e)"
proof (induction fuel arbitrary: c)
  case (Suc fuel)
  let ?q = "queue_options v qid cid roster"
  note legs = hear_leg [THEN triple_bind] release_leg [where c = "c\<lparr>cl_listening := b\<rparr>" for c b, simplified, THEN triple_bind]
    failed_leaves [THEN triple_bind]
  have IH: "triple (leg_fits qid cid c) (queue_loop v fuel ?q deadline c) (\<lambda>r e. no_agent r \<longrightarrow> absent qid cid e)" for c
    by (rule Suc.IH)
  show ?case
    unfolding queue_loop.simps
    by (auto simp: IH simp del: queue_loop.simps intro!: legs leg_bind ended_bind absent_bind triple_return
        split: option.split prod.split)
qed (simp add: triple_return)

section \<open>Entering and serving\<close>

lemma ticking_enter [intro!, simp]:
  "ticking (ensure_connected v)" "ticking (connect_caller v)" "ticking (prepare_voice v)"
  "ticking (send_unless_final code)" "ticking (update cid u)" "ticking (update_status cid st)"
proof -
  have changes: "ticking (changes f)" if "\<And>e. en_tick (f e) = en_tick e" for f
    using that by (simp add: ticking_def')
  have "ticking (init_attempts v n)" for n
    by (induction n) (auto intro!: ticking_bind changes)
  then show "ticking (ensure_connected v)"
    by (auto simp: ensure_connected_def initialize_def intro!: ticking_bind)
  show "ticking (connect_caller v)" "ticking (prepare_voice v)" "ticking (send_unless_final code)"
    by (auto simp: connect_caller_def prepare_voice_def set_voice_def send_unless_final_def send_def
        intro!: ticking_bind split: media_outcome.split)
  show "ticking (update cid u)" "ticking (update_status cid st)"
    by (simp_all add: ticking_def' update_def update_status_def)
qed

lemma ticking_failed: "ticking_opts q \<Longrightarrow> ticking (queue_failed q c)"
  using ticking_run_ended by (auto simp: queue_failed_def intro!: ticking_bind)

lemma returns_wait:
  assumes "clock_runs v k" "ticking_opts q" "k * nat wait < fuel"
  shows "returns_from 0 (do { now \<leftarrow> clock v; queue_loop v fuel q (now + wait) c })"
  unfolding returns_from_def triple_def
proof (intro allI impI)
  fix e :: engine
  obtain f where f: "fuel = Suc f" using assms(3) by (cases fuel) simp_all
  have "wd_now v (en_tick e) + wait \<le> wd_now v (en_tick e) + int (nat wait)" by simp
  also have "\<dots> \<le> wd_now v (en_tick e + k * nat wait)" by (rule clock_advances [OF assms(1)])
  also have "\<dots> \<le> wd_now v (en_tick e + f)" using assms(3) f by (intro clock_mono [OF assms(1)]) simp
  finally have "returns_from (en_tick e) (queue_loop v (Suc f) q (wd_now v (en_tick e) + wait) c)"
    by (rule returns_queue_loop [OF assms(1,2)])
  then show "fst (run_state (do { now \<leftarrow> clock v; queue_loop v fuel q (now + wait) c }) e) \<noteq> None"
    by (simp add: returns_from_def triple_def f del: queue_loop.simps)
qed

lemma enqueue_returns:
  assumes "clock_runs v k" "k * nat (cf_wait_ms v) < fuel"
  shows "returns_from 0 (enqueue_caller v fuel (queue_options v qid cid roster))"
proof -
  have "qo_wait_ms (queue_options v qid cid roster) = cf_wait_ms v" by (simp add: queue_options_def)
  then show ?thesis
    using ticking_failed [OF ticking_queue_options]
    unfolding enqueue_caller_def Let_def
    by (auto intro!: returns_wait [OF assms(1) ticking_queue_options assms(2)] returns_bind)
qed

lemma leaves_enter [intro!, simp]:
  "leaves_absent qid cid (ensure_connected v)" "leaves_absent qid cid (connect_caller v)"
  "leaves_absent qid cid (prepare_voice v)" "leaves_absent qid cid (update c u)" "leaves_absent qid cid (update_status c st)"
proof -
  have "leaves_absent qid cid (init_attempts v n)" for n
    by (induction n) (auto intro!: leaves_bind simp: leaves_absent_def triple_def absent_def)
  then show "leaves_absent qid cid (ensure_connected v)"
    by (auto simp: ensure_connected_def initialize_def intro!: leaves_bind)
  show "leaves_absent qid cid (connect_caller v)" "leaves_absent qid cid (prepare_voice v)"
    by (auto simp: connect_caller_def prepare_voice_def set_voice_def intro!: leaves_bind split: media_outcome.split)
  show "leaves_absent qid cid (update c u)" "leaves_absent qid cid (update_status c st)"
    by (simp_all add: leaves_absent_def triple_def absent_def update_def update_status_def)
qed

text \<open>An outcome without an agent, apart from a failure, has the caller out of the queue.\<close>

lemma enqueue_leaves:
  "triple (\<lambda>_. True) (enqueue_caller v fuel (queue_options v qid cid roster))
     (\<lambda>r e. no_agent r \<and> r \<noteq> Some Queue_Failed \<longrightarrow> absent qid cid e)"
proof -
  have loop: "triple (\<lambda>_. True) (queue_loop v fuel (queue_options v qid cid roster) dl
      \<lparr>cl_gone = False, cl_listening = True, cl_ended = False\<rparr>)
      (\<lambda>r e. no_agent r \<and> r \<noteq> Some Queue_Failed \<longrightarrow> absent qid cid e)" for dl
    by (rule triple_weaken [OF loop_leaves]) (auto simp: leg_fits_def)
  have "triple (\<lambda>_. True) (ensure_connected v) (\<lambda>_ _. True)" "triple (\<lambda>_. True) (connect_caller v) (\<lambda>_ _. True)"
    "triple (\<lambda>_. True) (prepare_voice v) (\<lambda>_ _. True)" "triple (\<lambda>_. True) (play fl) (\<lambda>_ _. True)"
    "triple (\<lambda>_. True) (clock v) (\<lambda>_ _. True)" "triple (\<lambda>_. True) (send_unless_final code) (\<lambda>_ _. True)" for fl code
    by (simp_all add: triple_def)
  note steps = this [THEN triple_bind]
  have "triple (\<lambda>_. True) (queue_failed (queue_options v qid cid roster) c) (\<lambda>r _. r = Queue_Failed)" for c
    by (simp add: queue_failed_def triple_def split_beta)
  note failed = this [THEN triple_bind]
  show ?thesis
    unfolding enqueue_caller_def Let_def
    by (auto intro!: failed steps triple_return loop)
qed

section \<open>Properties\<close>

text \<open>C8: The wait in a queue ends: with any agents, legs and media, if the clock does not stand still
  (\<open>k\<close> answers of the outside take a millisecond), the loop gives an outcome within
  \<open>k\<close> rounds per millisecond of the maximal wait.\<close>

theorem queue_wait_ends:
  assumes "clock_runs v k" "k * nat (cf_wait_ms v) < fuel"
  shows "fst (run_state (enqueue_caller v fuel (queue_options v qid cid roster)) e) \<noteq> None"
  using enqueue_returns [OF assms] by (simp add: returns_from_def triple_def)

theorem queue_wait_ends_witness:
  "fst (run_state (enqueue_caller lab 6 (queue_options lab ''sales'' ''c1'' 2)) lab_engine) \<noteq> None"
proof -
  have "clock_runs lab 1" by (simp add: clock_runs_def)
  from queue_wait_ends [OF this, of 6] show ?thesis by simp
qed

text \<open>C7: No ghost callers: when the queue handler is done with a caller, either an agent has him or he
  has left the queue, whatever the agents, the media server and the caller's leg did.\<close>

theorem no_ghost_callers:
  assumes "clock_runs v k" "k * nat (cf_wait_ms v) < fuel"
  shows "(\<exists>ext. fst (run_state (enqueue_caller v fuel (queue_options v qid (cx_id cx) roster)) e) = Some (Connected ext)) \<or>
    \<not> in_queue (en_queue (snd (run_state (queue_serve v fuel cx qid roster) e))) qid (cx_id cx)"
proof -
  obtain r e1 where r: "run_state (enqueue_caller v fuel (queue_options v qid (cx_id cx) roster)) e = (Some r, e1)"
  proof (cases "run_state (enqueue_caller v fuel (queue_options v qid (cx_id cx) roster)) e")
    case (Pair r e1)
    have "fst (run_state (enqueue_caller v fuel (queue_options v qid (cx_id cx) roster)) e) \<noteq> None"
      using enqueue_returns [OF assms, of qid "cx_id cx" roster] by (simp add: returns_from_def triple_def)
    with Pair that show thesis by auto
  qed
  have left: "\<not> in_queue (en_queue e1) qid (cx_id cx)" if "\<forall>ext. r \<noteq> Connected ext" "r \<noteq> Queue_Failed"
    using enqueue_leaves [of v fuel qid "cx_id cx" roster, unfolded triple_def, THEN spec, of e] r that
    by (simp add: absent_def no_agent_def)
  show ?thesis
    using left
    by (cases r) (simp_all add: queue_serve_def r update_def update_status_def leave_queue_def)
qed

theorem no_ghost_callers_witness:
  "let cx = \<lparr>cx_req = invite ''1001'' ''queue-sales'', cx_called = ''queue-sales'', cx_calling = ''1001'', cx_id = ''c1'',
         cx_widget = None\<rparr>
   in (\<exists>ext. fst (run_state (enqueue_caller lab 6 (queue_options lab ''sales'' ''c1'' 2)) lab_engine) = Some (Connected ext)) \<or>
      \<not> in_queue (en_queue (snd (run_state (queue_serve lab 6 cx ''sales'' 2) lab_engine))) ''sales'' ''c1''"
proof -
  let ?cx = "\<lparr>cx_req = invite ''1001'' ''queue-sales'', cx_called = ''queue-sales'', cx_calling = ''1001'', cx_id = ''c1'',
         cx_widget = None\<rparr>"
  have "clock_runs lab 1" by (simp add: clock_runs_def)
  from no_ghost_callers [OF this, of 6 "''sales''" ?cx 2 lab_engine] show ?thesis by (simp add: Let_def)
qed

text \<open>Once the listener has been replaced, a leg never counts as gone.\<close>

definition deaf :: "caller_leg \<Rightarrow> bool" where
  "deaf c \<longleftrightarrow> \<not> cl_listening c \<and> \<not> cl_gone c"

lemma any_bind: "(\<And>a. triple (\<lambda>_. True) (f a) R) \<Longrightarrow> triple (\<lambda>_. True) (State_Monad.bind m f) R"
  by (rule triple_bind [where Q = "\<lambda>_ _. True"]) (simp add: triple_def)

lemma deaf_bind:
  "triple (\<lambda>_. True) m (\<lambda>c _. deaf c) \<Longrightarrow> (\<And>c. deaf c \<Longrightarrow> triple (\<lambda>_. True) (f c) R) \<Longrightarrow>
     triple (\<lambda>_. True) (State_Monad.bind m f) R"
  by (auto simp: triple_def split_beta)

lemma deaf_ended: "deaf c \<Longrightarrow> triple (\<lambda>_. True) (run_ended q c) (\<lambda>c _. deaf c)"
  by (auto simp: run_ended_def deaf_def intro!: any_bind triple_return)

lemma deaf_fields: "deaf c \<Longrightarrow> \<not> cl_listening c" "deaf c \<Longrightarrow> \<not> cl_gone c"
  by (simp_all add: deaf_def)

lemma deaf_hear: "deaf c \<Longrightarrow> triple (\<lambda>_. True) (hear v q c) (\<lambda>c _. deaf c)"
  unfolding hear_def
  by (rule any_bind) (auto simp: deaf_fields intro!: deaf_bind [OF deaf_ended]
      any_bind [where m = "act Teardown"] triple_return)

lemma deaf_release: "deaf c \<Longrightarrow> triple (\<lambda>_. True) (release_failed v q c) (\<lambda>c _. deaf c)"
  unfolding release_failed_def
  by (rule any_bind) (auto intro!: deaf_bind [OF deaf_ended] any_bind [where m = "act Teardown"] triple_return)

lemma deaf_unheard: "deaf c \<Longrightarrow> deaf (c\<lparr>cl_listening := False\<rparr>)"
  by (simp add: deaf_def)

lemma deaf_loop: "deaf c \<Longrightarrow> triple (\<lambda>_. True) (queue_loop v fuel q deadline c) (\<lambda>r _. r \<noteq> Some Abandoned)"
proof (induction fuel arbitrary: c)
  case (Suc fuel)
  note heard = deaf_bind [OF deaf_hear] deaf_bind [OF deaf_release [OF deaf_unheard]]
  note others = any_bind [where m = "clock v"] any_bind [where m = "qo_abandoned q"] any_bind [where m = "qo_timeout q"]
    any_bind [where m = "run_ended q c"] any_bind [where m = "act eff" for eff] any_bind [where m = "play fl" for fl]
    any_bind [where m = "qo_next q"] any_bind [where m = "op v"] any_bind [where m = "ring_agent v x" for x]
    any_bind [where m = "qo_ring_agent q x" for x] any_bind [where m = "qo_no_answer q x" for x]
    any_bind [where m = "qo_connected q x" for x] any_bind [where m = skip]
  have failed: "triple (\<lambda>_. True) (queue_failed q c) (\<lambda>r _. r \<noteq> Abandoned)"
    by (simp add: queue_failed_def triple_def split_beta)
  have fail: "triple (\<lambda>_. True) (do { r \<leftarrow> queue_failed q c; State_Monad.return (Some r) }) (\<lambda>r _. r \<noteq> Some Abandoned)"
    using failed by (auto simp: triple_def split_beta)
  show ?case
    unfolding queue_loop.simps
    using Suc.prems
    by (auto simp: deaf_fields Suc.IH simp del: queue_loop.simps intro!: fail heard triple_return others
        split: option.split prod.split)
qed (simp add: triple_return)

text \<open>After a bridge to an agent has failed, the queue no longer hears the caller hang up: from a leg
  whose listener was replaced no further wait is ever reported abandoned, however often the
  caller's end is announced; the engine goes on ringing agents until the deadline.\<close>

theorem hang_up_unheard:
  assumes "\<not> cl_listening c" "\<not> cl_gone c"
  shows "fst (run_state (queue_loop v fuel q deadline c) e) \<noteq> Some Abandoned"
  using deaf_loop [of c v fuel q deadline] assms by (simp add: triple_def deaf_def)

theorem hang_up_unheard_witness:
  "fst (run_state (queue_loop (lab\<lparr>wd_gone := \<lambda>_. True\<rparr>) 9 (queue_options lab ''sales'' ''c1'' 2) 5
     \<lparr>cl_gone = False, cl_listening = False, cl_ended = False\<rparr>) lab_engine) \<noteq> Some Abandoned"
  by (rule hang_up_unheard) simp_all

end
