(* ===== verification/Charging.thy ===== *)
theory Charging
  imports Requests
begin

text \<open>
  Who is charged for a call: the wallet debits the store emits over the requests, timers and
  leg ends of the server.
\<close>

section \<open>Debits\<close>

fun is_debit :: "db_event \<Rightarrow> bool" where
  "is_debit (BalanceDebit _) \<longleftrightarrow> True"
| "is_debit (CallUpserted _) \<longleftrightarrow> False"

definition debits :: "database \<Rightarrow> db_event list" where
  "debits d = filter is_debit (db_events d)"

lemma debits_log [simp]: "debits (log_call c d) = debits d"
  by (simp add: debits_def log_call_def emit_def Let_def)

text \<open>Only an update that ends a call emits a debit.\<close>

lemma debits_update: "up_status u \<noteq> Some Ended \<Longrightarrow> debits (update_call cid u d) = debits d"
  by (simp add: debits_def update_call_def Let_def split: option.split)

lemma debits_frame [simp]:
  "debits (snd (get_routing_rule l n d)) = debits d"
  "debits (register_user ext r d) = debits d" "debits (unregister_user ext d) = debits d"
  "debits (hydrate_user_detail b f p w ext d) = debits d"
  by (simp_all add: debits_def get_routing_rule_def register_user_def unregister_user_def hydrate_user_detail_def
      modify_user_def split: prod.split option.split)

interpretation uncharged: invite_policy "\<lambda>e. debits (en_db e) = ds" "\<lambda>_. True" v req
  for ds v req
  by unfold_locales (auto simp: debits_update lookup_rule_def split_beta)

lemma uncharged_do: "(\<And>d. debits (f d) = debits d) \<Longrightarrow> uncharged.keeps ds (db_do f)"
  by (simp add: uncharged.keeps_def)

lemma uncharged_changes: "(\<And>e. en_db (f e) = en_db e) \<Longrightarrow> uncharged.keeps ds (changes f)"
  by (simp add: uncharged.keeps_def)

lemma uncharged_register: "uncharged.keeps ds (handle_register v req)"
proof -
  have "uncharged.keeps ds (sync_queues v)"
    by (auto simp: sync_queues_def intro!: uncharged.keeps_bind uncharged_changes)
  then have "uncharged.keeps ds (register_device v req ip ext)" "uncharged.keeps ds (unregister_device v ext)" for ip ext
    by (auto simp: register_device_def unregister_device_def Let_def
        intro!: uncharged.keeps_bind uncharged_changes uncharged_do split: option.split prod.split)
  then show ?thesis
    by (auto simp: handle_register_def Let_def intro!: uncharged.keeps_bind uncharged_changes
        split: admission.split option.split)
qed

lemma uncharged_teams_end: "uncharged.keeps ds (teams_trunk_end v since)"
  by (auto simp: teams_trunk_end_def intro!: uncharged.keeps_bind)

section \<open>Properties\<close>

text \<open>C4: Trunk calls are never charged: whatever calls are placed and connected (to the trunk, to peers, to
  flows, queues and conferences), whoever registers and whatever timers run, no wallet is
  debited as long as no device-to-device leg ends; the legs of a trunk call report their end
  to nobody, although the rating service and the prepaid wallet are there for these calls.\<close>

theorem trunk_calls_never_charged:
  assumes "serves v ins e e'" "\<forall>a cid calling called. In_Call_End a cid calling called \<notin> set ins"
  shows "debits (en_db e') = debits (en_db e)"
  using assms
proof (induction rule: serves.induct)
  case (invite ins e e1 e2 fuel req)
  then show ?case using uncharged.keepsD [OF uncharged.keeps_invite, of e1 "debits (en_db e)"] by simp
next
  case (register ins e e1 e2 req)
  then show ?case using uncharged.keepsD [OF uncharged_register, of e1 "debits (en_db e)"] by simp
next
  case (teams_end ins e e1 e2 since)
  then show ?case using uncharged.keepsD [OF uncharged_teams_end, of e1 "debits (en_db e)"] by simp
qed (auto simp: connection_lost_def)

theorem trunk_calls_never_charged_witness:
  "debits (en_db (snd (run_state (handle_invite lab 3 (invite ''1001'' ''+15551234567'')) lab_engine))) = []"
proof -
  have "serves lab [In_Invite 3 (invite ''1001'' ''+15551234567'')] lab_engine
      (snd (run_state (handle_invite lab 3 (invite ''1001'' ''+15551234567'')) lab_engine))"
    using serves.invite [OF serves.idle, where v = lab and e = lab_engine] by simp
  from trunk_calls_never_charged [OF this] show ?thesis
    by (simp add: debits_def lab_db_def empty_db_def)
qed

end
