(* ===== verification/Metrics.thy ===== *)
theory Metrics
  imports Database
begin

text \<open>
  Live call metrics, \<^verbatim>\<open>src/src/services/metrics.service.ts\<close>: the tracker hears every
  upserted call of the store, keeps the active ones with the first instant it saw them, and
  keeps high-water marks and the outbound starts of the last second. Each event is
  handled at one instant of the clock.
\<close>

section \<open>The tracker\<close>

record leg =
  lg_direction :: call_direction
  lg_started :: int

record metrics =
  mt_active :: "(string, leg) js_map"
  mt_max :: nat
  mt_peak_inbound :: nat
  mt_starts :: "int list"
  mt_peak_cps :: nat

record metrics_snapshot =
  mx_active :: nat
  mx_inbound :: nat
  mx_outbound :: nat
  mx_max :: nat
  mx_peak_inbound :: nat
  mx_cps :: nat
  mx_peak_cps :: nat

definition no_metrics :: metrics where
  "no_metrics = \<lparr>mt_active = [], mt_max = 0, mt_peak_inbound = 0, mt_starts = [], mt_peak_cps = 0\<rparr>"

definition active_status :: "call_status \<Rightarrow> bool" where
  "active_status st \<longleftrightarrow> st = Ringing \<or> st = Answered"

definition stale_ms :: int where
  "stale_ms = 14400000"

definition cps_window :: int where
  "cps_window = 1000"

definition inbound_legs :: "(string, leg) js_map \<Rightarrow> nat" where
  "inbound_legs m = length (filter (\<lambda>l. lg_direction l = Inbound) (m_vals m))"

definition trim_cps :: "int \<Rightarrow> metrics \<Rightarrow> metrics" where
  "trim_cps now m = m\<lparr>mt_starts := dropWhile (\<lambda>t. t < now - cps_window) (mt_starts m)\<rparr>"

definition record_outbound_start :: "int \<Rightarrow> metrics \<Rightarrow> metrics" where
  "record_outbound_start now m =
     (let m1 = trim_cps now (m\<lparr>mt_starts := mt_starts m @ [now]\<rparr>);
          cps = length (mt_starts m1)
      in if mt_peak_cps m1 < cps then m1\<lparr>mt_peak_cps := cps\<rparr> else m1)"

definition recompute_peaks :: "metrics \<Rightarrow> metrics" where
  "recompute_peaks m =
     (let total = length (mt_active m);
          m1 = (if mt_max m < total then m\<lparr>mt_max := total\<rparr> else m);
          inbound = inbound_legs (mt_active m1)
      in if mt_peak_inbound m1 < inbound then m1\<lparr>mt_peak_inbound := inbound\<rparr> else m1)"

definition get_snapshot :: "int \<Rightarrow> metrics \<Rightarrow> metrics_snapshot \<times> metrics" where
  "get_snapshot now m =
     (let m1 = trim_cps now m;
          inbound = inbound_legs (mt_active m1)
      in (\<lparr>mx_active = length (mt_active m1), mx_inbound = inbound,
           mx_outbound = length (mt_active m1) - inbound, mx_max = mt_max m1,
           mx_peak_inbound = mt_peak_inbound m1, mx_cps = length (mt_starts m1),
           mx_peak_cps = mt_peak_cps m1\<rparr>, m1))"

definition on_call :: "int \<Rightarrow> call_log \<Rightarrow> metrics \<Rightarrow> metrics_snapshot option \<times> metrics" where
  "on_call now call m =
     (if cl_id call = [] then (None, m)
      else (let prev = m_get (mt_active m) (cl_id call);
                became_outbound = (cl_direction call = Outbound \<and> map_option lg_direction prev \<noteq> Some Outbound);
                m1 = (if active_status (cl_status call)
                  then (let m2 = m\<lparr>mt_active := m_set (cl_id call)
                                \<lparr>lg_direction = cl_direction call,
                                 lg_started = (case prev of Some l \<Rightarrow> lg_started l | None \<Rightarrow> now)\<rparr> (mt_active m)\<rparr>
                        in if became_outbound then record_outbound_start now m2 else m2)
                  else m\<lparr>mt_active := m_del (cl_id call) (mt_active m)\<rparr>)
            in case get_snapshot now (recompute_peaks m1) of (x, m3) \<Rightarrow> (Some x, m3)))"

definition sweep_stale :: "int \<Rightarrow> metrics \<Rightarrow> metrics" where
  "sweep_stale now m =
     (let kept = filter (\<lambda>(_, l). \<not> lg_started l < now - stale_ms) (mt_active m)
      in if length kept = length (mt_active m) then m else recompute_peaks (m\<lparr>mt_active := kept\<rparr>))"

text \<open>The heartbeat of three seconds.\<close>

definition heartbeat :: "int \<Rightarrow> metrics \<Rightarrow> metrics_snapshot option \<times> metrics" where
  "heartbeat now m = (case get_snapshot now (sweep_stale now m) of (x, m1) \<Rightarrow> (Some x, m1))"

datatype metric_event = Upserted int call_log | Heartbeat int | Asked int

fun metric_step :: "metric_event \<Rightarrow> metrics \<Rightarrow> metrics_snapshot option \<times> metrics" where
  "metric_step (Upserted now c) m = on_call now c m"
| "metric_step (Heartbeat now) m = heartbeat now m"
| "metric_step (Asked now) m = (case get_snapshot now m of (x, m1) \<Rightarrow> (Some x, m1))"

definition metrics_run :: "metric_event list \<Rightarrow> metrics \<Rightarrow> metrics" where
  "metrics_run evs m = fold (\<lambda>ev m. snd (metric_step ev m)) evs m"

section \<open>Lemmas\<close>

lemma metrics_run_simps [simp]:
  "metrics_run [] m = m"
  "metrics_run (ev # evs) m = metrics_run evs (snd (metric_step ev m))"
  "metrics_run (evs @ [ev]) m = snd (metric_step ev (metrics_run evs m))"
  by (simp_all add: metrics_run_def)

lemma trim_frame [simp]:
  "mt_active (trim_cps now m) = mt_active m" "mt_max (trim_cps now m) = mt_max m"
  "mt_peak_inbound (trim_cps now m) = mt_peak_inbound m" "mt_peak_cps (trim_cps now m) = mt_peak_cps m"
  by (simp_all add: trim_cps_def)

lemma start_frame [simp]:
  "mt_active (record_outbound_start now m) = mt_active m" "mt_max (record_outbound_start now m) = mt_max m"
  "mt_peak_inbound (record_outbound_start now m) = mt_peak_inbound m"
  by (simp_all add: record_outbound_start_def Let_def)

lemma peaks_frame [simp]:
  "mt_active (recompute_peaks m) = mt_active m" "mt_starts (recompute_peaks m) = mt_starts m"
  "mt_peak_cps (recompute_peaks m) = mt_peak_cps m"
  "mt_max (recompute_peaks m) = max (mt_max m) (length (mt_active m))"
  "mt_peak_inbound (recompute_peaks m) = max (mt_peak_inbound m) (inbound_legs (mt_active m))"
  by (simp_all add: recompute_peaks_def Let_def)

lemma snapshot_frame [simp]: "snd (get_snapshot now m) = trim_cps now m"
  by (simp add: get_snapshot_def Let_def)

text \<open>What each event does to the active legs.\<close>

definition started_at :: "int \<Rightarrow> leg option \<Rightarrow> int" where
  "started_at now prev = (case prev of Some l \<Rightarrow> lg_started l | None \<Rightarrow> now)"

fun legs_after :: "metric_event \<Rightarrow> (string, leg) js_map \<Rightarrow> (string, leg) js_map" where
  "legs_after (Upserted now c) a =
     (if cl_id c = [] then a
      else if active_status (cl_status c)
      then m_set (cl_id c) \<lparr>lg_direction = cl_direction c, lg_started = started_at now (m_get a (cl_id c))\<rparr> a
      else m_del (cl_id c) a)"
| "legs_after (Heartbeat now) a = filter (\<lambda>(_, l). \<not> lg_started l < now - stale_ms) a"
| "legs_after (Asked now) a = a"

lemma kept_all: "length (filter P xs) = length xs \<Longrightarrow> filter P xs = xs"
  by (metis filter_True length_filter_less linorder_neq_iff)

lemma step_legs: "mt_active (snd (metric_step ev m)) = legs_after ev (mt_active m)"
  by (cases ev)
    (auto simp: on_call_def heartbeat_def sweep_stale_def started_at_def Let_def split_beta kept_all)

lemma legs_ok: "m_ok a \<Longrightarrow> m_ok (legs_after ev a)"
  by (cases ev) (auto intro: distinct_map_filter)

lemma run_ok: "m_ok (mt_active m) \<Longrightarrow> m_ok (mt_active (metrics_run evs m))"
  by (induction evs rule: rev_induct) (simp_all add: step_legs legs_ok)

text \<open>The marks move up with the legs, and the sweep only takes legs away.\<close>

lemma length_m_del_le: "length (m_del k a) \<le> length a"
  by (induction a) auto

lemma inbound_filter_le: "inbound_legs (filter P a) \<le> inbound_legs a"
  by (induction a) (auto simp: inbound_legs_def)

lemma step_peaks:
  assumes "length (mt_active m) \<le> mt_max m" "inbound_legs (mt_active m) \<le> mt_peak_inbound m"
  shows "mt_max (snd (metric_step ev m)) = max (mt_max m) (length (legs_after ev (mt_active m)))"
    and "mt_peak_inbound (snd (metric_step ev m)) = max (mt_peak_inbound m) (inbound_legs (legs_after ev (mt_active m)))"
proof -
  have "length (filter P (mt_active m)) \<le> mt_max m" "inbound_legs (filter P (mt_active m)) \<le> mt_peak_inbound m" for P
    using assms inbound_filter_le [of P "mt_active m"] length_filter_le [of P "mt_active m"] by linarith+
  then show "mt_max (snd (metric_step ev m)) = max (mt_max m) (length (legs_after ev (mt_active m)))"
    "mt_peak_inbound (snd (metric_step ev m)) = max (mt_peak_inbound m) (inbound_legs (legs_after ev (mt_active m)))"
    using assms
    by (cases ev; simp add: on_call_def heartbeat_def sweep_stale_def started_at_def Let_def split_beta kept_all max_absorb1)+
qed

lemma run_peaks:
  "length (mt_active (metrics_run evs no_metrics)) \<le> mt_max (metrics_run evs no_metrics) \<and>
   inbound_legs (mt_active (metrics_run evs no_metrics)) \<le> mt_peak_inbound (metrics_run evs no_metrics)"
  by (induction evs rule: rev_induct) (simp_all add: no_metrics_def inbound_legs_def step_peaks step_legs)

section \<open>What the numbers mean\<close>

text \<open>The last record of a call among the events, and the calls it leaves active.\<close>

fun upserted_call :: "metric_event \<Rightarrow> call_log option" where
  "upserted_call (Upserted _ c) = Some c"
| "upserted_call _ = None"

definition last_record :: "string \<Rightarrow> metric_event list \<Rightarrow> call_log option" where
  "last_record cid evs = List.find (\<lambda>c. cl_id c = cid) (rev (List.map_filter upserted_call evs))"

definition in_progress :: "metric_event list \<Rightarrow> call_direction option \<Rightarrow> string set" where
  "in_progress evs dir = {cid. cid \<noteq> [] \<and> (\<exists>c. last_record cid evs = Some c \<and> active_status (cl_status c) \<and>
     (dir = None \<or> dir = Some (cl_direction c)))}"

fun instant :: "metric_event \<Rightarrow> int" where
  "instant (Upserted now _) = now"
| "instant (Heartbeat now) = now"
| "instant (Asked now) = now"

definition in_span :: "int \<Rightarrow> metric_event list \<Rightarrow> bool" where
  "in_span t0 evs \<longleftrightarrow> (\<forall>ev\<in>set evs. t0 \<le> instant ev \<and> instant ev \<le> t0 + stale_ms)"

lemma last_record_simps [simp]:
  "last_record cid [] = None"
  "last_record cid (evs @ [ev]) = (case upserted_call ev of
     Some c \<Rightarrow> if cl_id c = cid then Some c else last_record cid evs | None \<Rightarrow> last_record cid evs)"
  by (simp_all add: last_record_def List.map_filter_def split: option.split)

text \<open>Within the stale window the active legs are the calls in progress.\<close>

definition legs_of :: "metric_event list \<Rightarrow> string \<Rightarrow> call_direction option" where
  "legs_of evs cid = (if cid = [] then None else
     (case last_record cid evs of
        Some c \<Rightarrow> if active_status (cl_status c) then Some (cl_direction c) else None | None \<Rightarrow> None))"

lemma m_set_pairs: "p \<in> set (m_set k w a) \<Longrightarrow> p = (k, w) \<or> p \<in> set a"
  by (induction a) (auto split: if_splits)

lemma m_del_pairs: "p \<in> set (m_del k a) \<Longrightarrow> p \<in> set a"
  by (induction a) (auto split: if_splits)

lemma legs_started:
  assumes "\<forall>l\<in>set (m_vals a). t0 \<le> lg_started l" "t0 \<le> instant ev"
  shows "\<forall>l\<in>set (m_vals (legs_after ev a)). t0 \<le> lg_started l"
  using assms
  by (cases ev) (auto simp: started_at_def dest!: m_set_pairs m_del_pairs map_of_SomeD split: option.splits)

lemma active_legs:
  assumes "in_span t0 evs"
  defines "a \<equiv> mt_active (metrics_run evs no_metrics)"
  shows "(\<forall>cid. map_option lg_direction (m_get a cid) = legs_of evs cid) \<and> (\<forall>l\<in>set (m_vals a). t0 \<le> lg_started l)"
  using assms(1) unfolding a_def
proof (induction evs rule: rev_induct)
  case Nil
  show ?case by (simp add: no_metrics_def legs_of_def)
next
  case (snoc ev evs)
  let ?a = "mt_active (metrics_run evs no_metrics)"
  have w: "in_span t0 evs" "t0 \<le> instant ev" "instant ev \<le> t0 + stale_ms"
    using snoc.prems by (auto simp: in_span_def)
  have same: "legs_after (Heartbeat now) ?a = ?a" if "now \<le> t0 + stale_ms" for now
    using snoc.IH [OF w(1)] that by (auto intro!: filter_True)
  have "m_get ?a [] = None"
    using snoc.IH [OF w(1)] by (metis legs_of_def option.map_disc_iff)
  then have "map_option lg_direction (m_get (legs_after ev ?a) cid) = legs_of (evs @ [ev]) cid" for cid
    using snoc.IH [OF w(1)] w(3) same
    by (cases ev) (auto simp: legs_of_def js.get_put js.get_del)
  with legs_started [of ?a t0 ev] snoc.IH [OF w(1)] w(2) show ?case
    by (simp add: step_legs)
qed

lemma card_legs:
  assumes "m_ok a"
  shows "length (filter P (m_vals a)) = card {k. \<exists>l. m_get a k = Some l \<and> P l}"
proof -
  have "{k. \<exists>l. m_get a k = Some l \<and> P l} = fst ` set (filter (\<lambda>(k, l). P l) a)"
    using assms by (force simp: m_get_iff)
  moreover have "distinct (map fst (filter (\<lambda>(k, l). P l) a))"
    using assms by (rule distinct_map_filter)
  then have "card (fst ` set (filter (\<lambda>(k, l). P l) a)) = length (filter (\<lambda>(k, l). P l) a)"
    by (metis distinct_card list.set_map length_map)
  moreover have "length (filter P (m_vals a)) = length (filter (\<lambda>(k, l). P l) a)"
    by (induction a) auto
  ultimately show ?thesis by simp
qed

lemma progress_legs:
  "in_progress evs None = {cid. legs_of evs cid \<noteq> None}"
  "in_progress evs (Some dir) = {cid. legs_of evs cid = Some dir}"
  by (auto simp: in_progress_def legs_of_def split: option.splits if_splits)

section \<open>Properties\<close>

text \<open>C32: The dashboard's numbers are the calls: after any events of at most four hours the active total
  is the number of calls whose last record is ringing or answered, the inbound and outbound
  counts those of them whose last record has that direction.\<close>

theorem metrics_exact:
  assumes "in_span t0 evs"
  shows "mx_active (fst (get_snapshot now (metrics_run evs no_metrics))) = card (in_progress evs None) \<and>
    mx_inbound (fst (get_snapshot now (metrics_run evs no_metrics))) = card (in_progress evs (Some Inbound)) \<and>
    mx_outbound (fst (get_snapshot now (metrics_run evs no_metrics))) = card (in_progress evs (Some Outbound))"
proof -
  let ?a = "mt_active (metrics_run evs no_metrics)"
  have ok: "m_ok ?a" using run_ok [of no_metrics evs] by (simp add: no_metrics_def)
  have legs: "legs_of evs cid = map_option lg_direction (m_get ?a cid)" for cid
    using active_legs [OF assms] by simp
  have n: "length (filter (\<lambda>_. True) (m_vals ?a)) = card (in_progress evs None)"
    "length (filter (\<lambda>l. lg_direction l = d) (m_vals ?a)) = card (in_progress evs (Some d))" for d
    unfolding card_legs [OF ok] progress_legs legs by (auto intro!: arg_cong [where f = card])
  have other: "(\<lambda>l. lg_direction l \<noteq> Inbound) = (\<lambda>l. lg_direction l = Outbound)"
    by (metis call_direction.distinct(1) call_direction.exhaust)
  from sum_length_filter_compl [of "\<lambda>l. lg_direction l = Inbound" "m_vals ?a", unfolded other] n(1) n(2) [of Inbound] n(2) [of Outbound]
  show ?thesis
    by (simp add: get_snapshot_def Let_def inbound_legs_def)
qed

text \<open>The peaks are high-water marks: over any events they are the largest number of legs, and of
  inbound legs, active after any prefix of them, sweeps included.\<close>

theorem peak_is_high_water:
  "mt_max (metrics_run evs no_metrics) =
     Max ((\<lambda>k. length (mt_active (metrics_run (take k evs) no_metrics))) ` {0..length evs}) \<and>
   mt_peak_inbound (metrics_run evs no_metrics) =
     Max ((\<lambda>k. inbound_legs (mt_active (metrics_run (take k evs) no_metrics))) ` {0..length evs})"
proof (induction evs rule: rev_induct)
  case Nil
  show ?case by (simp add: no_metrics_def inbound_legs_def)
next
  case (snoc ev evs)
  have split: "f ` {0..length (evs @ [ev])} = insert (f (Suc (length evs))) (f ` {0..length evs})" for f :: "nat \<Rightarrow> nat"
    by (auto simp: atLeast0_atMost_Suc)
  have "f (take k (evs @ [ev])) = f (take k evs)" if "k \<in> {0..length evs}" for k and f :: "metric_event list \<Rightarrow> nat"
    using that by simp
  then have same: "(\<lambda>k. f (take k (evs @ [ev]))) ` {0..length evs} = (\<lambda>k. f (take k evs)) ` {0..length evs}"
    for f :: "metric_event list \<Rightarrow> nat"
    by (auto simp: image_iff)
  show ?case
    using run_peaks [of evs] snoc.IH
    unfolding split same [of "\<lambda>es. length (mt_active (metrics_run es no_metrics))"]
      same [of "\<lambda>es. inbound_legs (mt_active (metrics_run es no_metrics))"]
    by (simp add: step_peaks step_legs max.commute)
qed

theorem metrics_exact_witness:
  "let call = (\<lambda>cid st. \<lparr>cl_id = cid, cl_from = ''1001'', cl_to = ''1002'', cl_from_name = [], cl_status = st,
        cl_direction = Inbound, cl_start = 0, cl_end = None, cl_duration = None, cl_from_ext = None, cl_to_ext = None,
        cl_cost = None, cl_currency = None, cl_rate_prefix = None, cl_billed_secs = None\<rparr>);
      evs = [Upserted 1 (call ''a'' Ringing), Upserted 2 (call ''b'' Ringing), Upserted 3 (call ''a'' Ended), Heartbeat 4]
   in mx_active (fst (get_snapshot 5 (metrics_run evs no_metrics))) = card (in_progress evs None)"
  by (simp only: Let_def, rule conjunct1 [OF metrics_exact [of 0]])
    (simp add: in_span_def stale_ms_def)

end
