(* ===== verification/Api_Keys.thy ===== *)
theory Api_Keys
  imports Trunk
begin

text \<open>
  Developer API keys, \<^verbatim>\<open>src/src/services/apikey.service.ts\<close> with the rows of
  \<^verbatim>\<open>src/src/services/postgres/apikey.repo.ts\<close>: a key is resolved through a cache of
  thirty seconds, checked against its origin and address lists, its loopback bypass and its
  daily cap. The URL parser and the SHA-256 digest of the platform are parameters; a UTC
  day is the number of whole days since the epoch.
\<close>

section \<open>Keys\<close>

record api_row =
  ar_id :: int
  ar_owner :: string
  ar_label :: string
  ar_public :: string
  ar_secret_hash :: string
  ar_origins :: string
  ar_ips :: string
  ar_destination :: string
  ar_caller_id :: "string option"
  ar_route :: string
  ar_cap :: "int option"
  ar_dev :: bool
  ar_active :: bool

record api_key =
  ak_id :: int
  ak_owner :: string
  ak_label :: string
  ak_public :: string
  ak_origins :: "string list"
  ak_ips :: "string list"
  ak_destination :: string
  ak_caller_id :: string
  ak_route :: string
  ak_cap :: int
  ak_dev :: bool
  ak_active :: bool

datatype deny_reason = Not_Found | Inactive | Origin_Denied | Ip_Denied | Cap_Reached | Bad_Secret

record cache_entry =
  ce_key :: api_key
  ce_hash :: string
  ce_at :: int

record day_count =
  dc_day :: int
  dc_count :: int

record api_service =
  as_cache :: "(string, cache_entry) js_map"
  as_days :: "(int, day_count) js_map"

definition no_keys :: api_service where
  "no_keys = \<lparr>as_cache = [], as_days = []\<rparr>"

definition split_csv :: "string \<Rightarrow> string list" where
  "split_csv raw = filter (\<lambda>s. s \<noteq> []) (map trim (split_on CHR '','' raw))"

definition parse_row :: "api_row \<Rightarrow> api_key" where
  "parse_row r = \<lparr>ak_id = ar_id r, ak_owner = ar_owner r, ak_label = ar_label r, ak_public = ar_public r,
     ak_origins = split_csv (ar_origins r), ak_ips = split_csv (ar_ips r),
     ak_destination = ar_destination r, ak_caller_id = or_else (ar_caller_id r) [],
     ak_route = (if ar_route r = ''ivr'' \<or> ar_route r = ''extension'' then ar_route r else ''trunk''),
     ak_cap = or_else (ar_cap r) 0, ak_dev = ar_dev r, ak_active = ar_active r\<rparr>"

section \<open>Addresses\<close>

definition dotted_digits :: "string \<Rightarrow> bool" where
  "dotted_digits s = (let parts = split_on CHR ''.'' s
     in length parts = 4 \<and> list_all (\<lambda>p. p \<noteq> [] \<and> list_all is_digit p) parts)"

text \<open>\<^verbatim>\<open>/^::ffff:(\d+\.\d+\.\d+\.\d+)$/i\<close>.\<close>

definition strip_v4_mapped :: "string \<Rightarrow> string" where
  "strip_v4_mapped ip = (if to_lower (take 7 ip) = ''::ffff:'' \<and> dotted_digits (drop 7 ip) then drop 7 ip else ip)"

text \<open>The mask of 1 to 32 bits, as the bit operators compute it.\<close>

definition key_mask :: "int \<Rightarrow> 32 word" where
  "key_mask bits = (if bits = 32 then 0xffffffff else NOT (push_bit (nat (32 - bits)) 1 - 1))"

definition key_ip_matches :: "string \<Rightarrow> string \<Rightarrow> bool" where
  "key_ip_matches entry ip =
     (let target = strip_v4_mapped ip
      in if entry = ip \<or> entry = target then True
         else if CHR ''/'' \<notin> set entry then False
         else (let range = takeWhile (\<lambda>c. c \<noteq> CHR ''/'') entry
               in case parse_int (tl (dropWhile (\<lambda>c. c \<noteq> CHR ''/'') entry)) of
                    None \<Rightarrow> False
                  | Some bits \<Rightarrow>
                      (case (ipv4_to_int range, ipv4_to_int target) of
                         (Some a, Some b) \<Rightarrow>
                           if bits \<le> 0 then True
                           else if 32 < bits then False
                           else a AND key_mask bits = b AND key_mask bits
                       | _ \<Rightarrow> False)))"

definition ip_allowed :: "string list \<Rightarrow> string \<Rightarrow> bool" where
  "ip_allowed allowed ip = (allowed = [] \<or> (ip \<noteq> [] \<and> list_ex (\<lambda>entry. key_ip_matches entry ip) allowed))"

section \<open>Origins\<close>

record url_parts =
  up_protocol :: string
  up_host :: string
  up_hostname :: string

type_synonym url_parser = "string \<Rightarrow> url_parts option"

definition normalize_origin :: "url_parser \<Rightarrow> string \<Rightarrow> string" where
  "normalize_origin url origin =
     (let trimmed = rev (dropWhile (\<lambda>c. c = CHR ''/'') (rev (trim origin)))
      in case url trimmed of
           Some u \<Rightarrow> to_lower (up_protocol u @ ''//'' @ up_host u)
         | None \<Rightarrow> to_lower trimmed)"

definition origin_allowed :: "url_parser \<Rightarrow> string list \<Rightarrow> string \<Rightarrow> bool" where
  "origin_allowed url allowed origin =
     (if allowed = [] \<or> origin = [] then False
      else (let norm = normalize_origin url origin
            in list_ex (\<lambda>a. normalize_origin url a = norm) allowed))"

text \<open>\<^verbatim>\<open>replace(/^\[|\]$/g, '')\<close>.\<close>

definition strip_brackets :: "string \<Rightarrow> string" where
  "strip_brackets s =
     (let t = (if s \<noteq> [] \<and> hd s = CHR ''['' then tl s else s)
      in if t \<noteq> [] \<and> last t = CHR '']'' then butlast t else t)"

definition is_local_request :: "url_parser \<Rightarrow> string \<Rightarrow> string \<Rightarrow> bool" where
  "is_local_request url origin ip =
     (let clean = strip_v4_mapped (trim ip)
      in if clean = ''127.0.0.1'' \<or> clean = ''::1'' \<or> prefix ''127.'' clean then True
         else if origin = [] then False
         else (case url origin of
                 None \<Rightarrow> False
               | Some u \<Rightarrow> strip_brackets (to_lower (up_hostname u)) \<in> {''localhost'', ''127.0.0.1'', ''::1''}))"

section \<open>The service\<close>

text \<open>
  What one request reads of the outside: the clock at the cache test, the row of the
  database (no row, or the query failing), the clock when the row has arrived, the clock
  of the cap test and of the count.
\<close>

record key_answers =
  an_now :: int
  an_row :: "api_row option option"
  an_loaded :: int
  an_checked :: int
  an_noted :: int

definition cache_ttl :: int where
  "cache_ttl = 30000"

text \<open>
  \<^verbatim>\<open>resolve\<close>: a fresh cache entry, else the row of the database, which is cached or, where
  there is none, drops the entry. The outer \<open>None\<close> is the failing query.
\<close>

definition load_key :: "key_answers \<Rightarrow> string \<Rightarrow> api_service \<Rightarrow> cache_entry option option \<times> api_service" where
  "load_key an pk s =
     (case an_row an of
        None \<Rightarrow> (None, s)
      | Some None \<Rightarrow> (Some None, s\<lparr>as_cache := m_del pk (as_cache s)\<rparr>)
      | Some (Some r) \<Rightarrow>
          (let c = \<lparr>ce_key = parse_row r, ce_hash = ar_secret_hash r, ce_at = an_loaded an\<rparr>
           in (Some (Some c), s\<lparr>as_cache := m_set pk c (as_cache s)\<rparr>)))"

definition resolve_key :: "key_answers \<Rightarrow> string \<Rightarrow> api_service \<Rightarrow> cache_entry option option \<times> api_service" where
  "resolve_key an pk s =
     (case m_get (as_cache s) pk of
        Some c \<Rightarrow> if an_now an - ce_at c < cache_ttl then (Some (Some c), s) else load_key an pk s
      | None \<Rightarrow> load_key an pk s)"

definition utc_day :: "int \<Rightarrow> int" where
  "utc_day now = now div 86400000"

definition cap_reached :: "int \<Rightarrow> api_key \<Rightarrow> api_service \<Rightarrow> bool" where
  "cap_reached now key s =
     (if ak_cap key \<le> 0 then False
      else (case m_get (as_days s) (ak_id key) of
              None \<Rightarrow> False
            | Some d \<Rightarrow> if dc_day d \<noteq> utc_day now then False else ak_cap key \<le> dc_count d))"

definition note_call :: "int \<Rightarrow> int \<Rightarrow> int \<Rightarrow> api_service \<Rightarrow> api_service" where
  "note_call now key_id cap s =
     (if cap \<le> 0 then s
      else (case m_get (as_days s) key_id of
              None \<Rightarrow> s\<lparr>as_days := m_set key_id \<lparr>dc_day = utc_day now, dc_count = 1\<rparr> (as_days s)\<rparr>
            | Some d \<Rightarrow>
                if dc_day d \<noteq> utc_day now
                then s\<lparr>as_days := m_set key_id \<lparr>dc_day = utc_day now, dc_count = 1\<rparr> (as_days s)\<rparr>
                else s\<lparr>as_days := m_set key_id (d\<lparr>dc_count := dc_count d + 1\<rparr>) (as_days s)\<rparr>))"

definition invalidate_key :: "string \<Rightarrow> api_service \<Rightarrow> api_service" where
  "invalidate_key pk s = s\<lparr>as_cache := m_del pk (as_cache s)\<rparr>"

datatype validation = Valid api_key | Denied deny_reason | Raised

definition check_key :: "url_parser \<Rightarrow> int \<Rightarrow> api_key \<Rightarrow> string \<Rightarrow> string \<Rightarrow> api_service \<Rightarrow> validation" where
  "check_key url now key origin ip s =
     (if \<not> ak_active key then Denied Inactive
      else (let bypass = (ak_dev key \<and> is_local_request url origin ip)
            in if \<not> bypass \<and> \<not> origin_allowed url (ak_origins key) origin then Denied Origin_Denied
               else if \<not> bypass \<and> \<not> ip_allowed (ak_ips key) ip then Denied Ip_Denied
               else if cap_reached now key s then Denied Cap_Reached
               else Valid key))"

definition validate_key ::
  "url_parser \<Rightarrow> key_answers \<Rightarrow> string \<Rightarrow> string \<Rightarrow> string \<Rightarrow> api_service \<Rightarrow> validation \<times> api_service" where
  "validate_key url an pk origin ip s =
     (case resolve_key an pk s of
        (None, s') \<Rightarrow> (Raised, s')
      | (Some None, s') \<Rightarrow> (Denied Not_Found, s')
      | (Some (Some c), s') \<Rightarrow> (check_key url (an_checked an) (ce_key c) origin ip s', s'))"

text \<open>\<^verbatim>\<open>Buffer.from(s, 'hex')\<close>: pairs of hexadecimal digits up to the first other.\<close>

definition hex_value :: "char \<Rightarrow> nat option" where
  "hex_value c = (let d = lower_char c
     in if is_digit d then Some (of_char d - 48)
        else if 97 \<le> (of_char d :: nat) \<and> (of_char d :: nat) \<le> 102 then Some (of_char d - 87) else None)"

fun from_hex :: "string \<Rightarrow> nat list" where
  "from_hex (a # b # s) =
     (case (hex_value a, hex_value b) of (Some x, Some y) \<Rightarrow> (16 * x + y) # from_hex s | _ \<Rightarrow> [])"
| "from_hex _ = []"

definition verify_secret ::
  "(string \<Rightarrow> nat list) \<Rightarrow> key_answers \<Rightarrow> string \<Rightarrow> string \<Rightarrow> api_service \<Rightarrow> validation \<times> api_service" where
  "verify_secret sha an pk secret s =
     (case resolve_key an pk s of
        (None, s') \<Rightarrow> (Raised, s')
      | (Some None, s') \<Rightarrow> (Denied Not_Found, s')
      | (Some (Some c), s') \<Rightarrow>
          (if \<not> ak_active (ce_key c) then Denied Inactive
           else if from_hex (ce_hash c) \<noteq> sha secret then Denied Bad_Secret
           else Valid (ce_key c), s'))"

section \<open>The address test is a prefix test\<close>

lemma key_mask_cidr:
  assumes "0 < n" "n \<le> 32"
  shows "key_mask n = cidr_mask n"
proof (cases "n = 32")
  case False
  let ?k = "nat (32 - n)"
  have "push_bit ?k 1 - 1 = (mask ?k :: 32 word)"
    by (simp add: mask_eq_decr_exp push_bit_eq_mult)
  moreover have "NOT (mask ?k) = (push_bit ?k (NOT 0) :: 32 word)"
    by (rule bit_word_eqI) (auto simp: bit_simps)
  ultimately show ?thesis using assms False by (simp add: key_mask_def cidr_mask_def)
qed (simp add: key_mask_def cidr_mask_def)

lemma strip_dotted: "strip_v4_mapped (dotted a b c d) = dotted a b c d"
proof -
  have "take 7 (dotted a b c d) \<noteq> [] \<and> is_digit (hd (dotted a b c d))"
    using show_nat_chars [of _ a] by (cases "show_nat a") (auto simp: dotted_def)
  then have "to_lower (take 7 (dotted a b c d)) \<noteq> ''::ffff:''"
    by (cases "dotted a b c d") (auto simp: to_lower_def lower_char_def is_digit_def is_upper_def)
  then show ?thesis by (simp add: strip_v4_mapped_def)
qed

lemma take_until_slash:
  "CHR ''/'' \<notin> set r \<Longrightarrow> takeWhile (\<lambda>c. c \<noteq> CHR ''/'') (r @ CHR ''/'' # t) = r"
  "CHR ''/'' \<notin> set r \<Longrightarrow> dropWhile (\<lambda>c. c \<noteq> CHR ''/'') (r @ CHR ''/'' # t) = CHR ''/'' # t"
  by (induction r) auto

lemma key_ip_matches_range:
  assumes "a < 256" "b < 256" "c < 256" "d < 256" "a' < 256" "b' < 256" "c' < 256" "d' < 256" "n \<le> 32"
  shows "key_ip_matches (dotted a' b' c' d' @ CHR ''/'' # show_nat n) (dotted a b c d) \<longleftrightarrow>
    octets_value a' b' c' d' div 2 ^ (32 - n) = octets_value a b c d div 2 ^ (32 - n)"
proof -
  have ne: "dotted a' b' c' d' @ CHR ''/'' # t \<noteq> dotted a b c d" for t
    using dotted_no_slash [of a b c d] by (metis in_set_conv_decomp)
  show ?thesis
  proof (cases "n = 0")
    case True
    then show ?thesis
      using assms octets_value_bound [OF assms(1-4)] octets_value_bound [OF assms(5-8)] ne
      by (simp add: key_ip_matches_def strip_dotted take_until_slash dotted_no_slash parse_int_show ipv4_dotted)
  next
    case False
    with assms show ?thesis
      using mask_agree [of "int n" "of_nat (octets_value a' b' c' d')" "of_nat (octets_value a b c d)"] ne
      by (simp add: key_ip_matches_def strip_dotted take_until_slash dotted_no_slash parse_int_show ipv4_dotted
          key_mask_cidr dotted_value nat_diff_distrib)
  qed
qed

section \<open>The counters\<close>

definition day_calls :: "int \<Rightarrow> int \<Rightarrow> api_service \<Rightarrow> int" where
  "day_calls day k s = (case m_get (as_days s) k of
     None \<Rightarrow> 0 | Some d \<Rightarrow> if dc_day d = day then dc_count d else 0)"

lemma day_calls_note:
  "utc_day now = day \<Longrightarrow> day_calls day k (note_call now i cap s) =
     day_calls day k s + (if i = k \<and> 0 < cap then 1 else 0)"
  by (auto simp: day_calls_def note_call_def js.get_put split: option.splits)

lemma cap_reached_calls:
  "cap_reached now key s \<longleftrightarrow> 0 < ak_cap key \<and> ak_cap key \<le> day_calls (utc_day now) (ak_id key) s"
  if "0 < ak_cap key"
  using that by (auto simp: cap_reached_def day_calls_def split: option.split)

text \<open>Resolving leaves the counters alone, and the keys it gives are cached or fresh.\<close>

lemma resolve_days: "as_days (snd (resolve_key an pk s)) = as_days s"
  by (auto simp: resolve_key_def load_key_def Let_def split: option.split)

text \<open>The key behind one publishable key, in the cache and in the rows.\<close>

definition key_ok :: "(api_key \<Rightarrow> bool) \<Rightarrow> string \<Rightarrow> api_service \<Rightarrow> bool" where
  "key_ok P pk s \<longleftrightarrow> (\<forall>c. m_get (as_cache s) pk = Some c \<longrightarrow> P (ce_key c))"

definition row_ok :: "(api_key \<Rightarrow> bool) \<Rightarrow> key_answers \<Rightarrow> bool" where
  "row_ok P an \<longleftrightarrow> (case an_row an of Some (Some r) \<Rightarrow> P (parse_row r) | _ \<Rightarrow> True)"

lemma resolve_ok:
  assumes "key_ok P pk s" "pk' = pk \<longrightarrow> row_ok P an"
  shows "key_ok P pk (snd (resolve_key an pk' s))"
    and "pk' = pk \<Longrightarrow> fst (resolve_key an pk' s) = Some (Some c) \<Longrightarrow> P (ce_key c)"
  using assms
  by (auto simp: resolve_key_def load_key_def key_ok_def row_ok_def js.get_put js.get_del Let_def
      split: option.splits if_splits)

lemma day_calls_resolve [simp]: "day_calls day k (snd (resolve_key an pk s)) = day_calls day k s"
  by (simp add: day_calls_def resolve_days)

lemma key_ok_note [simp]: "key_ok P pk (note_call now i cap s) = key_ok P pk s"
  by (simp add: key_ok_def note_call_def split: option.split)

lemma validate_resolve:
  "snd (validate_key url an pk origin ip s) = snd (resolve_key an pk s)"
  "snd (verify_secret sha an pk secret s) = snd (resolve_key an pk s)"
  by (auto simp: validate_key_def verify_secret_def split: prod.splits option.splits)

lemma validate_valid:
  "fst (validate_key url an pk origin ip s) = Valid k \<longleftrightarrow>
    (\<exists>c. fst (resolve_key an pk s) = Some (Some c) \<and> k = ce_key c \<and>
       check_key url (an_checked an) k origin ip (snd (resolve_key an pk s)) = Valid k)"
  "fst (verify_secret sha an pk secret s) = Valid k \<longleftrightarrow>
    (\<exists>c. fst (resolve_key an pk s) = Some (Some c) \<and> k = ce_key c \<and>
       ak_active k \<and> from_hex (ce_hash c) = sha secret)"
  by (auto simp: validate_key_def verify_secret_def check_key_def Let_def split: prod.splits option.splits if_splits)

end
