(* ===== verification/Widget_Endpoints.thy ===== *)
theory Widget_Endpoints
  imports Api_Keys Outgoing_Calls
begin

text \<open>
  The click-to-call endpoints of \<^verbatim>\<open>src/src/http/routes/api.routes.ts\<close> over the key
  service, and the capability token of \<^verbatim>\<open>src/src/core/widget-token.ts\<close> they mint. A
  request is handled in one step; the callback's bridge then runs on the engine.
\<close>

section \<open>Requests\<close>

record widget_request =
  wr_public_key :: "string option"
  wr_key :: "string option"
  wr_header_key :: "string option"
  wr_origin :: "string option"
  wr_ip :: "string option"
  wr_remote :: "string option"
  wr_auth :: "string option"
  wr_customer :: "string option"
  wr_to :: "string option"

definition widget_key :: "widget_request \<Rightarrow> string" where
  "widget_key r = trim (str_or (wr_public_key r) (str_or (wr_key r) (str_or (wr_header_key r) [])))"

definition widget_origin :: "widget_request \<Rightarrow> string" where
  "widget_origin r = str_or (wr_origin r) []"

definition widget_ip :: "widget_request \<Rightarrow> string" where
  "widget_ip r = str_or (wr_ip r) (str_or (wr_remote r) [])"

text \<open>\<^verbatim>\<open>/^bearer /i.test(auth) ? auth.slice(7).trim() : ''\<close>.\<close>

definition bearer_secret :: "widget_request \<Rightarrow> string" where
  "bearer_secret r = (let auth = str_or (wr_auth r) []
     in if to_lower (take 7 auth) = ''bearer '' then trim (drop 7 auth) else [])"

fun widget_deny :: "deny_reason \<Rightarrow> int" where
  "widget_deny Not_Found = 404"
| "widget_deny Inactive = 403"
| "widget_deny Origin_Denied = 403"
| "widget_deny Ip_Denied = 403"
| "widget_deny Cap_Reached = 429"
| "widget_deny Bad_Secret = 401"

section \<open>Tokens\<close>

definition token_ttl :: int where
  "token_ttl = 120"

definition claims_of :: "api_key \<Rightarrow> widget_claims" where
  "claims_of k = \<lparr>wc_key_id = ak_id k, wc_owner = ak_owner k, wc_destination = ak_destination k,
     wc_caller_id = Some (ak_caller_id k), wc_route_type = Some (ak_route k)\<rparr>"

text \<open>
  The token library: signing claims under a type for some seconds, and the payload a string
  carries at a time, if it carries one.
\<close>

record jwt_library =
  jw_sign :: "string \<Rightarrow> widget_claims \<Rightarrow> int \<Rightarrow> int \<Rightarrow> string"
  jw_verify :: "int \<Rightarrow> int \<Rightarrow> string \<Rightarrow> (string option \<times> widget_claims) option"

definition sign_widget_token :: "jwt_library \<Rightarrow> int \<Rightarrow> widget_claims \<Rightarrow> string" where
  "sign_widget_token j now c = jw_sign j ''widget'' c now token_ttl"

definition verify_widget_token :: "jwt_library \<Rightarrow> int \<Rightarrow> string \<Rightarrow> widget_claims option" where
  "verify_widget_token j now token =
     (if token = [] then None
      else (case jw_verify j 5 now token of
              None \<Rightarrow> None
            | Some (ty, c) \<Rightarrow>
                if ty \<noteq> Some ''widget'' then None
                else if wc_destination c = [] then None
                else Some c))"

section \<open>The endpoints\<close>

datatype widget_reply =
    Refused int
  | Unanswered
  | Config_For api_key
  | Token_For widget_claims
  | Originating string string string

definition widget_config :: "bool \<Rightarrow> url_parser \<Rightarrow> key_answers \<Rightarrow> widget_request \<Rightarrow> api_service \<Rightarrow> widget_reply \<times> api_service" where
  "widget_config on url an r s =
     (if \<not> on then (Refused 503, s)
      else if widget_key r = [] then (Refused 400, s)
      else (case validate_key url an (widget_key r) (widget_origin r) (widget_ip r) s of
              (Raised, s') \<Rightarrow> (Unanswered, s')
            | (Denied d, s') \<Rightarrow> (Refused (widget_deny d), s')
            | (Valid k, s') \<Rightarrow> (Config_For k, s')))"

definition mint :: "key_answers \<Rightarrow> api_key \<Rightarrow> api_service \<Rightarrow> widget_reply \<times> api_service" where
  "mint an k s = (Token_For (claims_of k), note_call (an_noted an) (ak_id k) (ak_cap k) s)"

definition widget_session :: "bool \<Rightarrow> url_parser \<Rightarrow> key_answers \<Rightarrow> widget_request \<Rightarrow> api_service \<Rightarrow> widget_reply \<times> api_service" where
  "widget_session on url an r s =
     (if \<not> on then (Refused 503, s)
      else if widget_key r = [] then (Refused 400, s)
      else (case validate_key url an (widget_key r) (widget_origin r) (widget_ip r) s of
              (Raised, s') \<Rightarrow> (Unanswered, s')
            | (Denied d, s') \<Rightarrow> (Refused (widget_deny d), s')
            | (Valid k, s') \<Rightarrow> mint an k s'))"

definition widget_token ::
  "bool \<Rightarrow> (string \<Rightarrow> nat list) \<Rightarrow> key_answers \<Rightarrow> widget_request \<Rightarrow> api_service \<Rightarrow> widget_reply \<times> api_service" where
  "widget_token on sha an r s =
     (if \<not> on then (Refused 503, s)
      else if widget_key r = [] \<or> bearer_secret r = [] then (Refused 400, s)
      else (case verify_secret sha an (widget_key r) (bearer_secret r) s of
              (Raised, s') \<Rightarrow> (Unanswered, s')
            | (Denied d, s') \<Rightarrow> (Refused (widget_deny d), s')
            | (Valid k, s') \<Rightarrow> mint an k s'))"

text \<open>\<^verbatim>\<open>/^\+?\d{6,15}$/\<close> after all but digits and plus signs are dropped.\<close>

definition customer_number :: "widget_request \<Rightarrow> string" where
  "customer_number r = plus_digits (str_or (wr_customer r) (str_or (wr_to r) []))"

definition widget_callback ::
  "bool \<Rightarrow> (string \<Rightarrow> nat list) \<Rightarrow> env \<Rightarrow> key_answers \<Rightarrow> string \<Rightarrow> widget_request \<Rightarrow> api_service \<times> engine \<Rightarrow>
     widget_reply \<times> api_service \<times> engine" where
  "widget_callback on sha v an call_id r se =
     (let (s, e) = se in
      if \<not> on then (Refused 503, se)
      else if widget_key r = [] \<or> bearer_secret r = [] then (Refused 400, se)
      else if str_or (wr_customer r) (str_or (wr_to r) []) = [] then (Refused 400, se)
      else (case verify_secret sha an (widget_key r) (bearer_secret r) s of
              (Raised, s') \<Rightarrow> (Unanswered, s', e)
            | (Denied d, s') \<Rightarrow> (Refused (widget_deny d), s', e)
            | (Valid k, s') \<Rightarrow>
                (if ak_route k \<noteq> ''trunk'' then (Refused 400, s', e)
                 else if \<not> tk_enabled (cf_trunk v) then (Refused 503, s', e)
                 else if \<not> digits_between 6 15 (strip_plus (customer_number r)) then (Refused 400, s', e)
                 else if cap_reached (an_checked an) k s' then (Refused 429, s', e)
                 else if \<not> fst (run_state is_connected e) then (Refused 503, s', e)
                 else (Originating call_id (ak_destination k) (customer_number r),
                       note_call (an_noted an) (ak_id k) (ak_cap k) s',
                       snd (run_state (bridge_pstn_to_pstn v (ak_destination k) (customer_number r)
                         (Some (ak_caller_id k))) e)))))"

section \<open>The daily cap\<close>

datatype widget_call =
    Config_Call key_answers widget_request
  | Session_Call key_answers widget_request
  | Token_Call key_answers widget_request
  | Callback_Call key_answers string widget_request

record widget_site =
  wi_on :: bool
  wi_url :: url_parser
  wi_sha :: "string \<Rightarrow> nat list"
  wi_env :: env

fun widget_step :: "widget_site \<Rightarrow> widget_call \<Rightarrow> api_service \<times> engine \<Rightarrow> widget_reply \<times> api_service \<times> engine" where
  "widget_step w (Config_Call an r) (s, e) =
     (case widget_config (wi_on w) (wi_url w) an r s of (x, s') \<Rightarrow> (x, s', e))"
| "widget_step w (Session_Call an r) (s, e) =
     (case widget_session (wi_on w) (wi_url w) an r s of (x, s') \<Rightarrow> (x, s', e))"
| "widget_step w (Token_Call an r) (s, e) =
     (case widget_token (wi_on w) (wi_sha w) an r s of (x, s') \<Rightarrow> (x, s', e))"
| "widget_step w (Callback_Call an cid r) (s, e) = widget_callback (wi_on w) (wi_sha w) (wi_env w) an cid r (s, e)"

fun answers_of :: "widget_call \<Rightarrow> key_answers" where
  "answers_of (Config_Call an _) = an"
| "answers_of (Session_Call an _) = an"
| "answers_of (Token_Call an _) = an"
| "answers_of (Callback_Call an _ _) = an"

fun widget_replies :: "widget_site \<Rightarrow> widget_call list \<Rightarrow> api_service \<times> engine \<Rightarrow> (widget_call \<times> widget_reply) list" where
  "widget_replies w [] se = []"
| "widget_replies w (c # cs) se =
     (case widget_step w c se of (x, se') \<Rightarrow> (c, x) # widget_replies w cs se')"

fun request_of :: "widget_call \<Rightarrow> widget_request" where
  "request_of (Config_Call _ r) = r"
| "request_of (Session_Call _ r) = r"
| "request_of (Token_Call _ r) = r"
| "request_of (Callback_Call _ _ r) = r"

text \<open>What the cap counts: a browser session that gets its token, a callback under way.\<close>

fun served :: "string \<Rightarrow> widget_call \<times> widget_reply \<Rightarrow> bool" where
  "served pk (Session_Call _ r, Token_For _) \<longleftrightarrow> widget_key r = pk"
| "served pk (Callback_Call _ _ r, Originating _ _ _) \<longleftrightarrow> widget_key r = pk"
| "served pk _ \<longleftrightarrow> False"

definition capped :: "int \<Rightarrow> int \<Rightarrow> api_key \<Rightarrow> bool" where
  "capped i c k \<longleftrightarrow> ak_id k = i \<and> ak_cap k = c"

definition within_day :: "int \<Rightarrow> (api_key \<Rightarrow> bool) \<Rightarrow> string \<Rightarrow> widget_call \<Rightarrow> bool" where
  "within_day day P pk call \<longleftrightarrow> utc_day (an_checked (answers_of call)) = day \<and>
     utc_day (an_noted (answers_of call)) = day \<and>
     (widget_key (request_of call) = pk \<longrightarrow> row_ok P (answers_of call))"

text \<open>A step resolves the request's key at most, or also counts a call of the key it found.\<close>

lemma validated:
  "validate_key url an pk origin ip s = (Denied d, s1) \<Longrightarrow> s1 = snd (resolve_key an pk s)"
  "validate_key url an pk origin ip s = (Raised, s1) \<Longrightarrow> s1 = snd (resolve_key an pk s)"
  "validate_key url an pk origin ip s = (Valid k, s1) \<Longrightarrow>
    (\<exists>c. fst (resolve_key an pk s) = Some (Some c) \<and> k = ce_key c) \<and> s1 = snd (resolve_key an pk s) \<and>
    \<not> cap_reached (an_checked an) k s1"
  using validate_resolve(1) [of url an pk origin ip s] validate_valid(1) [of url an pk origin ip s k]
  by (auto simp: check_key_def Let_def split: if_splits)

lemma verified:
  "verify_secret sha an pk secret s = (Denied d, s1) \<Longrightarrow> s1 = snd (resolve_key an pk s)"
  "verify_secret sha an pk secret s = (Raised, s1) \<Longrightarrow> s1 = snd (resolve_key an pk s)"
  "verify_secret sha an pk secret s = (Valid k, s1) \<Longrightarrow>
    (\<exists>c. fst (resolve_key an pk s) = Some (Some c) \<and> k = ce_key c \<and> ak_active k \<and> from_hex (ce_hash c) = sha secret) \<and>
    s1 = snd (resolve_key an pk s)"
  using validate_resolve(2) [of sha an pk secret s] validate_valid(2) [of sha an pk secret s k]
  by auto

lemma step_effect:
  assumes "widget_step w call (s, e) = (x, s', e')"
  defines "an \<equiv> answers_of call" and "pk \<equiv> widget_key (request_of call)"
  shows "s' = s \<or> s' = snd (resolve_key an pk s) \<or>
    (\<exists>c. fst (resolve_key an pk s) = Some (Some c) \<and>
       s' = note_call (an_noted an) (ak_id (ce_key c)) (ak_cap (ce_key c)) (snd (resolve_key an pk s)))"
  using assms
  by (cases call)
    (auto simp: widget_config_def widget_session_def widget_token_def widget_callback_def mint_def Let_def
      split: if_splits prod.splits validation.splits dest!: validated verified)

lemma served_effect:
  assumes "widget_step w call (s, e) = (x, s', e')" "served pk (call, x)"
  defines "an \<equiv> answers_of call"
  shows "widget_key (request_of call) = pk \<and> (\<exists>c. fst (resolve_key an pk s) = Some (Some c) \<and>
       \<not> cap_reached (an_checked an) (ce_key c) (snd (resolve_key an pk s)) \<and>
       s' = note_call (an_noted an) (ak_id (ce_key c)) (ak_cap (ce_key c)) (snd (resolve_key an pk s)))"
  using assms
  by (cases call)
    (auto simp: widget_config_def widget_session_def widget_callback_def mint_def Let_def
      split: if_splits prod.splits validation.splits dest!: validated verified)

lemma step_counts:
  assumes "0 < c" "key_ok (capped i c) pk s" "within_day day (capped i c) pk call"
    and "widget_step w call (s, e) = (x, s', e')"
  shows "key_ok (capped i c) pk s'" "day_calls day i s \<le> day_calls day i s'"
    and "served pk (call, x) \<Longrightarrow> day_calls day i s < c \<and> day_calls day i s' = day_calls day i s + 1"
proof -
  note days = assms(3) [unfolded within_day_def]
  show "key_ok (capped i c) pk s'" "day_calls day i s \<le> day_calls day i s'"
    using step_effect [OF assms(4)] resolve_ok(1) [OF assms(2)] assms(2) days
    by (auto simp: day_calls_note)
  assume "served pk (call, x)"
  from served_effect [OF assms(4) this] resolve_ok(2) [OF assms(2)] days assms(1)
  show "day_calls day i s < c \<and> day_calls day i s' = day_calls day i s + 1"
    by (auto simp: day_calls_note cap_reached_calls capped_def)
qed

lemma served_bound:
  assumes "0 < c" "key_ok (capped i c) pk s" "\<forall>call\<in>set calls. within_day day (capped i c) pk call"
  shows "int (length (filter (served pk) (widget_replies w calls (s, e)))) \<le> max 0 (c - day_calls day i s)"
  using assms(2-)
proof (induction calls arbitrary: s e)
  case (Cons call calls)
  obtain x s' e' where st: "widget_step w call (s, e) = (x, s', e')" by (metis prod_cases3)
  have "within_day day (capped i c) pk call" using Cons.prems(2) by simp
  note step = step_counts [OF assms(1) Cons.prems(1) this st]
  from Cons.IH [OF step(1), of e'] Cons.prems(2) step(2,3) show ?case
    by (auto simp: st)
qed simp

section \<open>What a callback dials\<close>

definition dials_only :: "string \<Rightarrow> string \<Rightarrow> effect \<Rightarrow> bool" where
  "dials_only a b eff \<longleftrightarrow> (case eff of Trunk_Invite n _ \<Rightarrow> n = a \<or> n = b | _ \<Rightarrow> True)"

interpretation two_numbers: step_invariant "\<lambda>e. \<forall>eff\<in>set (en_trace e). eff \<in> t \<or> dials_only a b eff" "dials_only a b"
  for t a b
  by unfold_locales (auto simp: dials_only_def outgoing_def split: effect.splits)

lemma bridge_dials:
  "eff \<in> set (en_trace (snd (run_state (bridge_pstn_to_pstn v a b cid) e))) \<Longrightarrow>
    eff \<in> set (en_trace e) \<or> dials_only a b eff"
proof -
  have "two_numbers.keeps (set (en_trace e)) a b (bridge_pstn_to_pstn v a b cid)"
    by (rule two_numbers.keeps_callback) (simp_all add: dials_only_def)
  from two_numbers.keepsD [OF this, of e] show "eff \<in> set (en_trace e) \<or> dials_only a b eff"
    if "eff \<in> set (en_trace (snd (run_state (bridge_pstn_to_pstn v a b cid) e)))"
    using that by auto
qed

section \<open>Properties\<close>

text \<open>C27: The daily cap holds: of any requests of a day, of all four endpoints and for all keys, at most as
  many browser sessions and callbacks as its cap are granted for a key, if its rows keep the
  cap that day.\<close>

theorem daily_cap_holds:
  assumes "0 < c" "key_ok (capped i c) pk s" "day_calls day i s = 0"
    and "\<forall>call\<in>set calls. within_day day (capped i c) pk call"
  shows "int (length (filter (served pk) (widget_replies w calls (s, e)))) \<le> c"
  using served_bound [OF assms(1,2,4), of w e] assms(1,3) by simp

text \<open>A key of one call a day, for the instances.\<close>

definition lab_key :: api_key where
  "lab_key = \<lparr>ak_id = 7, ak_owner = ''1001'', ak_label = ''shop'', ak_public = ''pk_1'',
     ak_origins = [''https://shop.example''], ak_ips = [''198.51.100.0/24''], ak_destination = ''+15551234567'',
     ak_caller_id = [], ak_route = ''trunk'', ak_cap = 1, ak_dev = True, ak_active = True\<rparr>"

definition lab_keys :: api_service where
  "lab_keys = \<lparr>as_cache = [(''pk_1'', \<lparr>ce_key = lab_key, ce_hash = ''00'', ce_at = 0\<rparr>)], as_days = []\<rparr>"

definition lab_answers :: key_answers where
  "lab_answers = \<lparr>an_now = 5, an_row = Some None, an_loaded = 5, an_checked = 5, an_noted = 5\<rparr>"

definition lab_request :: widget_request where
  "lab_request = \<lparr>wr_public_key = Some ''pk_1'', wr_key = None, wr_header_key = None,
     wr_origin = Some ''http://localhost'', wr_ip = Some ''203.0.113.9'', wr_remote = None,
     wr_auth = Some ''Bearer x'', wr_customer = Some ''+15557654321'', wr_to = None\<rparr>"

definition lab_url :: url_parser where
  "lab_url s = (if s = ''http://localhost'' then Some \<lparr>up_protocol = ''http:'', up_host = ''localhost'', up_hostname = ''localhost''\<rparr> else None)"

definition lab_site :: widget_site where
  "lab_site = \<lparr>wi_on = True, wi_url = lab_url, wi_sha = (\<lambda>_. [0]), wi_env = lab\<rparr>"

theorem daily_cap_holds_witness:
  "length (filter (served ''pk_1'') (widget_replies lab_site
     [Session_Call lab_answers lab_request, Callback_Call lab_answers ''c1'' lab_request, Session_Call lab_answers lab_request]
     (lab_keys, lab_engine))) \<le> 1"
proof -
  have "key_ok (capped 7 1) ''pk_1'' lab_keys" "day_calls 0 7 lab_keys = 0"
    by (simp_all add: key_ok_def capped_def lab_keys_def lab_key_def day_calls_def)
  from daily_cap_holds [OF _ this, of
      "[Session_Call lab_answers lab_request, Callback_Call lab_answers ''c1'' lab_request, Session_Call lab_answers lab_request]"
      lab_site lab_engine]
  show ?thesis by (simp add: within_day_def lab_answers_def utc_day_def row_ok_def)
qed

text \<open>A revoked key stops within thirty seconds: once its cache entry is that old, or gone, and its
  row is deleted or inactive, no endpoint grants it anything: a session, a token and a
  callback are refused with 404 or 403, and nothing is counted or dialled.\<close>

theorem revocation_takes_effect:
  assumes "wi_on w" "widget_key r \<noteq> []" "bearer_secret r \<noteq> []" "str_or (wr_customer r) (str_or (wr_to r) []) \<noteq> []"
    and "\<forall>c. m_get (as_cache s) (widget_key r) = Some c \<longrightarrow> ce_at c + 30000 \<le> an_now an"
    and "an_row an = Some row" "\<forall>x. row = Some x \<longrightarrow> \<not> ar_active x"
    and "call \<in> {Session_Call an r, Token_Call an r, Callback_Call an cid r}"
    and "widget_step w call (s, e) = (x, s', e')"
  shows "x = Refused (if row = None then 404 else 403) \<and> as_days s' = as_days s \<and> e' = e"
proof -
  have load: "resolve_key an (widget_key r) s = load_key an (widget_key r) s"
    using assms(5) by (auto simp: resolve_key_def cache_ttl_def split: option.split)
  with assms show ?thesis
    by (auto simp: widget_session_def widget_token_def widget_callback_def validate_key_def verify_secret_def
        load_key_def check_key_def parse_row_def Let_def split: option.splits)
qed

theorem revocation_takes_effect_witness:
  "widget_step lab_site (Session_Call (lab_answers\<lparr>an_now := 30000\<rparr>) lab_request) (lab_keys, lab_engine) =
     (Refused 404, lab_keys\<lparr>as_cache := []\<rparr>, lab_engine)"
proof -
  have k: "widget_key lab_request = ''pk_1''" "bearer_secret lab_request = ''x''" by code_simp+
  have c: "str_or (wr_customer lab_request) (str_or (wr_to lab_request) []) \<noteq> []" by code_simp
  obtain x s' e' where st: "widget_step lab_site (Session_Call (lab_answers\<lparr>an_now := 30000\<rparr>) lab_request) (lab_keys, lab_engine) = (x, s', e')"
    by (metis prod_cases3)
  have "x = Refused 404 \<and> as_days s' = as_days lab_keys \<and> e' = lab_engine"
    using revocation_takes_effect [of lab_site lab_request lab_keys "lab_answers\<lparr>an_now := 30000\<rparr>" None
        "Session_Call (lab_answers\<lparr>an_now := 30000\<rparr>) lab_request" "''c1''" lab_engine x s' e'] st
    by (simp add: k c lab_site_def lab_keys_def lab_answers_def)
  moreover have "as_cache s' = []"
    using st by (auto simp: widget_session_def validate_key_def resolve_key_def load_key_def k lab_site_def
        lab_keys_def lab_answers_def cache_ttl_def)
  ultimately show ?thesis using st by (simp add: lab_keys_def)
qed

text \<open>A callback dials two numbers only: whatever the media server and the trunk do, all that the trunk
  is asked to dial is the key's locked destination and the sanitised customer number, and
  only for an active trunk key whose secret the request has.\<close>

theorem callback_dials:
  assumes "widget_callback on sha v an cid r (s, e) = (x, s', e')" "Trunk_Invite n u \<in> set (en_trace e') - set (en_trace e)"
  shows "\<exists>c. fst (resolve_key an (widget_key r) s) = Some (Some c) \<and> ak_active (ce_key c) \<and>
      from_hex (ce_hash c) = sha (bearer_secret r) \<and> ak_route (ce_key c) = ''trunk'' \<and>
      (n = ak_destination (ce_key c) \<or> n = customer_number r)"
  using assms
  by (auto simp: widget_callback_def Let_def dials_only_def split: if_splits prod.splits validation.splits
      dest!: verified bridge_dials)

lemma lab_bridge:
  "Trunk_Invite b (outbound_from_user lab_trunk cid) \<in> set (en_trace (snd (run_state (bridge_pstn_to_pstn lab a b cid) lab_engine)))"
  by (simp add: bridge_pstn_to_pstn_def ensure_connected_def op_def create_outbound_leg_def prepare_voice_def
      set_voice_def play_def Let_def lab_trunk_def)

lemma lab_request_fields:
  "widget_key lab_request = ''pk_1''" "bearer_secret lab_request = ''x''"
  "customer_number lab_request = ''+15557654321''"
  "str_or (wr_customer lab_request) (str_or (wr_to lab_request) []) \<noteq> []"
  "digits_between 6 15 (strip_plus (customer_number lab_request))" "from_hex ''00'' = [0]"
  "wr_origin lab_request = Some ''http://localhost''"
  by code_simp+

theorem callback_dials_witness:
  "\<exists>c. fst (resolve_key lab_answers ''pk_1'' lab_keys) = Some (Some c) \<and> ak_route (ce_key c) = ''trunk''"
proof -
  let ?e' = "snd (run_state (bridge_pstn_to_pstn lab ''+15551234567'' ''+15557654321'' (Some [])) lab_engine)"
  have "widget_callback True (\<lambda>_. [0]) lab lab_answers ''c1'' lab_request (lab_keys, lab_engine) =
      (Originating ''c1'' ''+15551234567'' ''+15557654321'', note_call 5 7 1 lab_keys, ?e')"
    using lab_request_fields(5)
    by (simp del: from_hex.simps add: widget_callback_def lab_request_fields verify_secret_def resolve_key_def lab_keys_def
        lab_answers_def cache_ttl_def lab_key_def cap_reached_def is_connected_def lab_trunk_def)
  moreover have "Trunk_Invite ''+15557654321'' (outbound_from_user lab_trunk (Some [])) \<in> set (en_trace ?e') - set (en_trace lab_engine)"
    using lab_bridge by simp
  ultimately show ?thesis
    using callback_dials lab_request_fields(1) by (metis (no_types, lifting))
qed

text \<open>A development key is open to the Internet: from any address a request with the Origin header
  \<open>http://localhost\<close>, which only a browser is bound to send truthfully, gets a session with a
  key in development mode, whatever its origin and address lists; the comment holds that a
  remote client never matches.\<close>

theorem dev_key_open_to_forged_origin:
  assumes "widget_key r = pk" "pk \<noteq> []" "wr_origin r = Some ''http://localhost''"
    and "url ''http://localhost'' = Some u" "up_hostname u = ''localhost''"
    and "m_get (as_cache s) pk = Some c" "an_now an - ce_at c < 30000"
    and "ak_active (ce_key c)" "ak_dev (ce_key c)" "\<not> cap_reached (an_checked an) (ce_key c) s"
  shows "fst (widget_session True url an r s) = Token_For (claims_of (ce_key c))"
proof -
  have "is_local_request url ''http://localhost'' ip" for ip
    using assms(4,5) by (simp add: is_local_request_def Let_def strip_brackets_def to_lower_def lower_char_def is_upper_def)
  then show ?thesis
    using assms by (simp add: widget_session_def validate_key_def resolve_key_def cache_ttl_def check_key_def
        widget_origin_def mint_def)
qed

theorem dev_key_open_to_forged_origin_witness:
  "fst (widget_session True lab_url lab_answers lab_request lab_keys) = Token_For (claims_of lab_key)"
  by (rule dev_key_open_to_forged_origin [of lab_request "''pk_1''" lab_url
        "\<lparr>up_protocol = ''http:'', up_host = ''localhost'', up_hostname = ''localhost''\<rparr>" lab_keys
        "\<lparr>ce_key = lab_key, ce_hash = ''00'', ce_at = 0\<rparr>" lab_answers, simplified])
    (simp_all add: lab_request_fields lab_keys_def lab_key_def lab_answers_def lab_url_def cap_reached_def)

text \<open>Secret holders mint past the cap: the token endpoint counts its calls but does not look at the cap,
  so of any number of its requests with the key's secret every one is granted a token.\<close>

theorem tokens_past_the_cap:
  assumes "\<forall>an\<in>set ans. an_now an - ce_at c < 30000"
    and "widget_key r = pk" "pk \<noteq> []" "bearer_secret r \<noteq> []" "m_get (as_cache s) pk = Some c"
    and "ak_active (ce_key c)" "from_hex (ce_hash c) = wi_sha w (bearer_secret r)" "wi_on w"
  shows "map snd (widget_replies w (map (\<lambda>an. Token_Call an r) ans) (s, e)) =
    replicate (length ans) (Token_For (claims_of (ce_key c)))"
  using assms
proof (induction ans arbitrary: s)
  case (Cons an ans)
  have "as_cache (note_call now i cap s) = as_cache s" for now i cap
    by (simp add: note_call_def split: option.split)
  with Cons show ?case
    by (simp add: widget_token_def verify_secret_def resolve_key_def cache_ttl_def mint_def)
qed simp

theorem tokens_past_the_cap_witness:
  "map snd (widget_replies lab_site (map (\<lambda>an. Token_Call an lab_request) (replicate 9 lab_answers)) (lab_keys, lab_engine)) =
    replicate 9 (Token_For (claims_of lab_key)) \<and> ak_cap lab_key = 1"
proof
  show "map snd (widget_replies lab_site (map (\<lambda>an. Token_Call an lab_request) (replicate 9 lab_answers)) (lab_keys, lab_engine)) =
      replicate 9 (Token_For (claims_of lab_key))"
    using tokens_past_the_cap [of "replicate 9 lab_answers" "\<lparr>ce_key = lab_key, ce_hash = ''00'', ce_at = 0\<rparr>"
        lab_request "''pk_1''" lab_keys lab_site lab_engine]
    by (simp del: from_hex.simps add: lab_request_fields lab_site_def lab_keys_def lab_answers_def lab_key_def)
qed (simp add: lab_key_def)

section \<open>From the session to the call\<close>

text \<open>
  What the token library documents: a signed payload is read back, with its type, until its
  lifetime and the tolerance are over, and no longer.
\<close>

definition jwt_expires :: "jwt_library \<Rightarrow> int \<Rightarrow> widget_claims \<Rightarrow> bool" where
  "jwt_expires j t c \<longleftrightarrow> (\<forall>now. jw_verify j 5 now (jw_sign j ''widget'' c t token_ttl) =
     (if now < t + token_ttl + 5 then Some (Some ''widget'', c) else None))"

lemma token_life:
  assumes "jwt_expires j t c" "sign_widget_token j t c \<noteq> []" "wc_destination c \<noteq> []"
  shows "verify_widget_token j now (sign_widget_token j t c) = (if now < t + 125 then Some c else None)"
  using assms by (simp add: jwt_expires_def sign_widget_token_def verify_widget_token_def token_ttl_def)

lemma session_key:
  assumes "fst (widget_session on url an r s) = Token_For c"
  shows "\<exists>k. fst (resolve_key an (widget_key r) s) = Some (Some k) \<and> c = claims_of (ce_key k)"
  using assms
  by (auto simp: widget_session_def mint_def split: if_splits prod.splits validation.splits dest!: validated)


text \<open>A token library that signs one payload, and a call with its token.\<close>

definition lab_jwt :: jwt_library where
  "lab_jwt = \<lparr>jw_sign = (\<lambda>_ _ _ _. ''tok''),
     jw_verify = (\<lambda>tol now tok. if now < 120 + tol then Some (Some ''widget'', claims_of lab_key) else None)\<rparr>"

definition token_env :: env where
  "token_env = lab\<lparr>wd_token := verify_widget_token lab_jwt 60\<rparr>"

definition token_call :: sip_request where
  "token_call = (invite ''visitor'' ''+15551234567'')\<lparr>rq_headers := [(''X-Widget-Token'', ''tok'')]\<rparr>"

lemma token_env_fields: "cf_emergency token_env = [''112'']" "wd_token token_env = verify_widget_token lab_jwt 60"
  by (simp_all add: token_env_def)

lemma token_call_fields: "header token_call ''X-Widget-Token'' = Some ''tok''" "rq_calling token_call = Some ''visitor''"
  by (simp_all add: token_call_def header_def)

lemma lab_resolved: "fst (resolve_key lab_answers (widget_key lab_request) lab_keys) = Some (Some \<lparr>ce_key = lab_key, ce_hash = ''00'', ce_at = 0\<rparr>)"
  by (simp add: resolve_key_def lab_request_fields lab_keys_def lab_answers_def cache_ttl_def)

lemma lab_local: "is_local_request lab_url ''http://localhost'' ip"
  by (simp add: is_local_request_def Let_def lab_url_def strip_brackets_def to_lower_def lower_char_def is_upper_def)

lemma lab_session: "fst (widget_session True lab_url lab_answers lab_request lab_keys) = Token_For (claims_of lab_key)"
  by (simp add: widget_session_def validate_key_def resolve_key_def cache_ttl_def check_key_def lab_request_fields
      lab_keys_def lab_answers_def mint_def widget_origin_def lab_local cap_reached_def)
    (simp add: lab_key_def mint_def)

lemma lab_claims: "parse_widget_token token_env token_call = Some (claims_of lab_key)"
proof -
  have "trim ''tok'' = ''tok''" by code_simp
  then show ?thesis
    by (simp add: parse_widget_token_def either_header_def token_call_fields token_env_fields verify_widget_token_def
        lab_jwt_def claims_of_def lab_key_def)
qed

lemma lab_visitor: "\<not> is_registered (en_db lab_engine) (caller_of token_env token_call)"
  by (simp add: caller_of_def lab_claims claims_of_def lab_key_def token_call_fields is_registered_def lab_db_def m_has_def)

lemma lab_mobile: "user_mobile (en_db lab_engine) ext = Some n \<Longrightarrow> n = ''+15550002''"
  by (auto simp: user_mobile_def get_user_def lab_db_def lab_user_def non_empty_def empty_db_def
      split: if_splits option.splits)

lemma lab_jwt_expires: "jwt_expires lab_jwt 0 (claims_of lab_key)"
  by (simp add: jwt_expires_def lab_jwt_def token_ttl_def)


end
