(* ===== verification/Write_Queue.thy ===== *)
theory Write_Queue
  imports Postgres "HOL-Library.Multiset"
begin

text \<open>
  The write-behind queue, \<^verbatim>\<open>src/src/services/queue/write-queue.ts\<close>: a Redis list, pushed on
  the left and popped on the right by one worker, with up to five attempts per job. What a
  handler does is a function of the count of dispatches so far, so that every pattern of
  failures of the database is covered; the handlers of the application are at the end.
\<close>

section \<open>The queue\<close>

record 'p job =
  jb_type :: string
  jb_payload :: 'p
  jb_attempts :: nat

definition max_attempts :: nat where
  "max_attempts = 5"

text \<open>
  A handler throws or not and changes the world; \<open>wh_redis\<close> tells whether the push of a
  retry reaches Redis.
\<close>

record ('p, 'w) write_handlers =
  wh_handler :: "string \<Rightarrow> (nat \<Rightarrow> 'p \<Rightarrow> 'w \<Rightarrow> bool \<times> 'w) option"
  wh_redis :: "nat \<Rightarrow> bool"

text \<open>The list's head is its left end: \<^verbatim>\<open>LPUSH\<close> puts there, \<^verbatim>\<open>BRPOP\<close> takes from the other end.\<close>

definition enqueue_job :: "string \<Rightarrow> 'p \<Rightarrow> nat \<Rightarrow> 'p job list \<Rightarrow> 'p job list" where
  "enqueue_job ty p n q = \<lparr>jb_type = ty, jb_payload = p, jb_attempts = n\<rparr> # q"

datatype outcome = Done | Requeued | No_Handler | Given_Up | Retry_Lost

definition dispatch_job :: "('p, 'w) write_handlers \<Rightarrow> nat \<Rightarrow> 'p job \<Rightarrow> 'p job list \<Rightarrow> 'w \<Rightarrow> outcome \<times> 'p job list \<times> 'w" where
  "dispatch_job h k j q w =
     (case wh_handler h (jb_type j) of
        None \<Rightarrow> (No_Handler, q, w)
      | Some f \<Rightarrow>
          (case f k (jb_payload j) w of
             (threw, w') \<Rightarrow>
               if \<not> threw then (Done, q, w')
               else (let attempts = jb_attempts j + 1
                     in if attempts < max_attempts
                        then (if wh_redis h k then (Requeued, enqueue_job (jb_type j) (jb_payload j) attempts q, w')
                              else (Retry_Lost, q, w'))
                        else (Given_Up, q, w'))))"

text \<open>A round of the worker: nothing where the blocking pop runs out, else the rightmost job.\<close>

definition worker_round :: "('p, 'w) write_handlers \<Rightarrow> nat \<Rightarrow> 'p job list \<Rightarrow> 'w \<Rightarrow> ('p job \<times> outcome) option \<times> 'p job list \<times> 'w" where
  "worker_round h k q w =
     (if q = [] then (None, q, w)
      else (case dispatch_job h k (last q) (butlast q) w of (r, q', w') \<Rightarrow> (Some (last q, r), q', w')))"

text \<open>Rounds from the count \<open>k\<close> on, with the log of what was dispatched.\<close>

fun worker_run :: "('p, 'w) write_handlers \<Rightarrow> nat \<Rightarrow> nat \<Rightarrow> 'p job list \<Rightarrow> 'w \<Rightarrow> ('p job \<times> outcome) list \<times> 'p job list \<times> 'w" where
  "worker_run h 0 k q w = ([], q, w)"
| "worker_run h (Suc n) k q w =
     (case worker_round h k q w of
        (None, q', w') \<Rightarrow> ([], q', w')
      | (Some x, q', w') \<Rightarrow> (case worker_run h n (Suc k) q' w' of (xs, r) \<Rightarrow> (x # xs, r)))"

abbreviation run_log :: "('p job \<times> outcome) list \<times> 'p job list \<times> 'w \<Rightarrow> ('p job \<times> outcome) list" where
  "run_log r \<equiv> fst r"

abbreviation run_queue :: "('p job \<times> outcome) list \<times> 'p job list \<times> 'w \<Rightarrow> 'p job list" where
  "run_queue r \<equiv> fst (snd r)"

abbreviation run_world :: "('p job \<times> outcome) list \<times> 'p job list \<times> 'w \<Rightarrow> 'w" where
  "run_world r \<equiv> snd (snd r)"

section \<open>Draining\<close>

text \<open>Attempts a queue can still cause.\<close>

definition budget :: "'p job list \<Rightarrow> nat" where
  "budget q = sum_list (map (\<lambda>j. max 1 (max_attempts - jb_attempts j)) q)"

lemma budget_simps [simp]:
  "budget [] = 0" "budget (j # q) = max 1 (max_attempts - jb_attempts j) + budget q" "budget (q @ q') = budget q + budget q'"
  by (simp_all add: budget_def)

lemma budget_zero: "budget q = 0 \<longleftrightarrow> q = []"
  by (cases q) auto

lemma dispatch_budget: "dispatch_job h k j q w = (r, q', w') \<Longrightarrow> budget q' < budget (q @ [j])"
  by (auto simp: dispatch_job_def enqueue_job_def Let_def max_attempts_def split: option.splits prod.splits if_splits)

lemma round_budget: "q \<noteq> [] \<Longrightarrow> worker_round h k q w = (x, q', w') \<Longrightarrow> budget q' < budget q"
  using dispatch_budget [of h k "last q" "butlast q" w]
  by (auto simp: worker_round_def split: prod.splits)

lemma run_drains: "budget q \<le> n \<Longrightarrow> run_queue (worker_run h n k q w) = []"
proof (induction n arbitrary: k q w)
  case (Suc n)
  show ?case
  proof (cases "q = []")
    case False
    obtain x q' w' where d: "dispatch_job h k (last q) (butlast q) w = (x, q', w')" by (metis prod_cases3)
    then have r: "worker_round h k q w = (Some (last q, x), q', w')"
      using False by (simp add: worker_round_def)
    from round_budget [OF False r] Suc.prems Suc.IH [of q' "Suc k" w'] show ?thesis
      by (simp add: r split_beta)
  qed (simp add: worker_round_def)
qed (simp add: budget_zero)

lemma budget_bound: "budget q \<le> max_attempts * length q"
  by (induction q) (simp_all add: max_attempts_def)

section \<open>Accounting\<close>

text \<open>The jobs that a log settles, without their attempts.\<close>

definition task :: "'p job \<Rightarrow> string \<times> 'p" where
  "task j = (jb_type j, jb_payload j)"

definition settled :: "('p job \<times> outcome) list \<Rightarrow> (string \<times> 'p) multiset" where
  "settled xs = mset (map (task \<circ> fst) (filter (\<lambda>x. snd x \<noteq> Requeued) xs))"

lemma settled_simps [simp]:
  "settled [] = {#}"
  "settled ((j, r) # xs) = (if r = Requeued then settled xs else add_mset (task j) (settled xs))"
  by (simp_all add: settled_def)

lemma dispatch_account:
  "dispatch_job h k j q w = (r, q', w') \<Longrightarrow>
    mset (map task q') = (if r = Requeued then add_mset (task j) (mset (map task q)) else mset (map task q))"
  by (auto simp: dispatch_job_def enqueue_job_def task_def Let_def split: option.splits prod.splits if_splits)

lemma mset_last: "q \<noteq> [] \<Longrightarrow> mset (map f q) = add_mset (f (last q)) (mset (map f (butlast q)))"
  by (induction q rule: rev_induct) auto

lemma run_account:
  "settled (run_log (worker_run h n k q w)) + mset (map task (run_queue (worker_run h n k q w))) = mset (map task q)"
proof (induction n arbitrary: k q w)
  case (Suc n)
  show ?case
  proof (cases "q = []")
    case False
    obtain r q' w' where d: "dispatch_job h k (last q) (butlast q) w = (r, q', w')" by (metis prod_cases3)
    from mset_last [OF False, of task] Suc.IH [of "Suc k" q' w'] dispatch_account [OF d] show ?thesis
      using False by (simp add: worker_round_def d split_beta)
  qed (simp add: worker_round_def)
qed simp

text \<open>How often a log tries a task, and how often a queue can still have it tried.\<close>

definition tries :: "string \<times> 'p \<Rightarrow> ('p job \<times> outcome) list \<Rightarrow> nat" where
  "tries t xs = length (filter (\<lambda>x. task (fst x) = t) xs)"

definition tries_left :: "string \<times> 'p \<Rightarrow> 'p job list \<Rightarrow> nat" where
  "tries_left t q = budget (filter (\<lambda>j. task j = t) q)"

lemma tries_simps [simp]:
  "tries t [] = 0" "tries t ((j, r) # xs) = (if task j = t then 1 else 0) + tries t xs"
  by (simp_all add: tries_def)

lemma tries_left_snoc [simp]:
  "tries_left t (q @ [j]) = tries_left t q + (if task j = t then max 1 (max_attempts - jb_attempts j) else 0)"
  by (simp add: tries_left_def)

lemma dispatch_tries:
  "dispatch_job h k j q w = (r, q', w') \<Longrightarrow>
    (if task j = t then 1 else 0) + tries_left t q' \<le> tries_left t (q @ [j])"
  by (auto simp: dispatch_job_def enqueue_job_def tries_left_def task_def Let_def max_attempts_def
      split: option.splits prod.splits if_splits)

lemma run_tries: "tries t (run_log (worker_run h n k q w)) \<le> tries_left t q"
proof (induction n arbitrary: k q w)
  case (Suc n)
  show ?case
  proof (cases "q = []")
    case False
    obtain r q' w' where d: "dispatch_job h k (last q) (butlast q) w = (r, q', w')" by (metis prod_cases3)
    from dispatch_tries [OF d, of t] Suc.IH [of "Suc k" q' w'] False show ?thesis
      by (simp add: worker_round_def d split_beta)
  qed (simp add: worker_round_def)
qed simp

lemma tries_left_count: "tries_left t q \<le> max_attempts * count (mset (map task q)) t"
  by (induction q) (auto simp: tries_left_def max_attempts_def)

text \<open>What every handler keeps of the world, a run keeps.\<close>

lemma dispatch_keeps:
  assumes "\<And>f k p. wh_handler h (jb_type j) = Some f \<Longrightarrow> I (snd (f k p w))" "I w"
  shows "I (snd (snd (dispatch_job h k j q w)))"
proof (cases "wh_handler h (jb_type j)")
  case None
  then show ?thesis using assms(2) by (simp add: dispatch_job_def)
next
  case (Some f)
  then show ?thesis
    using assms(1) [OF Some, of k "jb_payload j"] by (simp add: dispatch_job_def Let_def split_beta)
qed

lemma run_keeps:
  assumes "\<And>ty f k p w. wh_handler h ty = Some f \<Longrightarrow> I w \<Longrightarrow> I (snd (f k p w))" "I w"
  shows "I (run_world (worker_run h n k q w))"
  using assms(2)
proof (induction n arbitrary: k q w)
  case (Suc n)
  show ?case
  proof (cases "q = []")
    case False
    obtain r q' w' where d: "dispatch_job h k (last q) (butlast q) w = (r, q', w')" by (metis prod_cases3)
    then have "I w'"
      using dispatch_keeps [of h "last q" I w k "butlast q"] assms(1) Suc.prems by fastforce
    from Suc.IH [OF this] False show ?thesis
      by (simp add: worker_round_def d split_beta)
  qed (simp add: worker_round_def Suc.prems)
qed simp

section \<open>Every write is settled\<close>

text \<open>The worker settles every job. Whatever handlers are registered and whenever they throw, five rounds for
  each job waiting empty the queue; the jobs that were then done, given up or dropped are exactly the
  jobs that waited, each once; and no task was tried more than five times as often as it was queued.\<close>

theorem writes_settle:
  "let r = worker_run h (max_attempts * length q + extra) k q w
   in run_queue r = [] \<and> settled (run_log r) = mset (map task q) \<and>
     tries t (run_log r) \<le> max_attempts * count (mset (map task q)) t"
proof -
  let ?n = "max_attempts * length q + extra"
  have "run_queue (worker_run h ?n k q w) = []" using budget_bound [of q] by (intro run_drains) simp
  with run_account [of h ?n k q w] le_trans [OF run_tries tries_left_count, of t h ?n k q w] show ?thesis
    by (simp add: Let_def)
qed

end
