(* ===== verification/Audit_Log.thy ===== *)
theory Audit_Log
  imports Prelude
begin

text \<open>
  The audit service, \<^verbatim>\<open>src/src/services/audit.service.ts\<close>, with the rows that
  \<^verbatim>\<open>src/src/services/postgres/audit.repo.ts\<close> appends: a ring buffer of the newest entries,
  and a queue that a timer drains into Postgres. A flush is two steps, since entries may be
  logged while it waits for the database.
\<close>

section \<open>Entries and rows\<close>

record audit_entry =
  ae_id :: string
  ae_time :: int
  ae_user :: string
  ae_extension :: string
  ae_event :: string
  ae_metadata :: "(string, string) js_map option"
  ae_ip :: "string option"

record audit_row =
  ar_extension :: string
  ar_event :: string
  ar_detail :: "(string, string) js_map option"
  ar_created :: int

text \<open>The detail is the map whose JSON text the column holds.\<close>

definition to_detail :: "audit_entry \<Rightarrow> (string, string) js_map option" where
  "to_detail e =
     (let meta = or_else (ae_metadata e) []
      in if meta = [] \<and> \<not> truthy (ae_ip e) then None
         else Some (if truthy (ae_ip e) then m_set ''ip'' (the (ae_ip e)) meta else meta))"

definition audit_row_of :: "audit_entry \<Rightarrow> audit_row" where
  "audit_row_of e = \<lparr>ar_extension = ae_extension e, ar_event = ae_event e, ar_detail = to_detail e, ar_created = ae_time e\<rparr>"

definition insert_audit_logs :: "audit_entry list \<Rightarrow> audit_row list \<Rightarrow> audit_row list" where
  "insert_audit_logs es t = t @ map audit_row_of es"

section \<open>The service\<close>

record audit_service =
  as_enabled :: bool
  as_logs :: "audit_entry list"
  as_pending :: "audit_entry list"
  as_timer :: bool
  as_batch :: "audit_entry list option"
  as_schema :: bool

definition max_entries :: nat where
  "max_entries = 5000"

definition new_audit :: "bool \<Rightarrow> audit_service" where
  "new_audit enabled = \<lparr>as_enabled = enabled, as_logs = [], as_pending = [], as_timer = False, as_batch = None, as_schema = False\<rparr>"

definition audit_start :: "audit_service \<Rightarrow> audit_service" where
  "audit_start s = (if \<not> as_enabled s \<or> as_timer s then s else s\<lparr>as_timer := True\<rparr>)"

text \<open>The entry goes to the listeners in any case.\<close>

definition audit_log :: "audit_entry \<Rightarrow> audit_service \<Rightarrow> audit_entry \<times> audit_service" where
  "audit_log e s =
     (e, if \<not> as_enabled s then s
         else s\<lparr>as_logs := take max_entries (e # as_logs s), as_pending := as_pending s @ [e]\<rparr>)"

definition flush_begin :: "audit_service \<Rightarrow> audit_service" where
  "flush_begin s =
     (if \<not> as_enabled s \<or> as_batch s \<noteq> None \<or> as_pending s = [] then s
      else s\<lparr>as_batch := Some (as_pending s), as_pending := []\<rparr>)"

text \<open>The answer of Postgres: the tables could not be made, the insert failed, or it was made.\<close>

datatype flush_answer = No_Schema | Insert_Failed | Inserted

definition flush_end :: "flush_answer \<Rightarrow> audit_service \<Rightarrow> audit_row list \<Rightarrow> audit_service \<times> audit_row list" where
  "flush_end a s t =
     (case as_batch s of
        None \<Rightarrow> (s, t)
      | Some batch \<Rightarrow>
          (let back = take max_entries (batch @ as_pending s)
           in if \<not> as_schema s \<and> a = No_Schema then (s\<lparr>as_batch := None, as_pending := back\<rparr>, t)
              else (let s = s\<lparr>as_schema := True, as_batch := None\<rparr>
                    in if a = Inserted then (s, insert_audit_logs batch t)
                       else (s\<lparr>as_pending := back\<rparr>, t))))"

definition audit_stop :: "audit_service \<Rightarrow> audit_service" where
  "audit_stop s = flush_begin (s\<lparr>as_timer := False\<rparr>)"

section \<open>Queries\<close>

record audit_filter =
  af_user :: "string option"
  af_event :: "string option"
  af_from :: "string option"
  af_to :: "string option"
  af_limit :: "nat option"

text \<open>A date that does not parse is no number, and no comparison with it holds.\<close>

definition audit_query :: "(string \<Rightarrow> int option) \<Rightarrow> audit_filter \<Rightarrow> audit_service \<Rightarrow> audit_entry list" where
  "audit_query date f s =
     (let by_user = (if truthy (af_user f) then filter (\<lambda>e. Some (ae_extension e) = af_user f) (as_logs s) else as_logs s);
          by_event = (if truthy (af_event f) then filter (\<lambda>e. Some (ae_event e) = af_event f) by_user else by_user);
          since = (if truthy (af_from f)
             then filter (\<lambda>e. case date (the (af_from f)) of None \<Rightarrow> False | Some t \<Rightarrow> t \<le> ae_time e) by_event else by_event);
          until = (if truthy (af_to f)
             then filter (\<lambda>e. case date (the (af_to f)) of None \<Rightarrow> False | Some t \<Rightarrow> ae_time e \<le> t) since else since)
      in take (case af_limit f of None \<Rightarrow> 100 | Some n \<Rightarrow> if n = 0 then 100 else n) until)"

definition audit_all :: "nat \<Rightarrow> audit_service \<Rightarrow> audit_entry list" where
  "audit_all n s = take n (as_logs s)"

definition audit_by_extension :: "string \<Rightarrow> nat \<Rightarrow> audit_service \<Rightarrow> audit_entry list" where
  "audit_by_extension ext n s = take n (filter (\<lambda>e. ae_extension e = ext) (as_logs s))"

section \<open>Runs\<close>

datatype audit_step = Log audit_entry | Flush_Begin | Flush_End flush_answer

fun audit_do :: "audit_step \<Rightarrow> audit_service \<times> audit_row list \<Rightarrow> audit_service \<times> audit_row list" where
  "audit_do (Log e) (s, t) = (snd (audit_log e s), t)"
| "audit_do Flush_Begin (s, t) = (flush_begin s, t)"
| "audit_do (Flush_End a) (s, t) = flush_end a s t"

definition audit_run :: "audit_step list \<Rightarrow> audit_service \<times> audit_row list" where
  "audit_run xs = fold audit_do xs (new_audit True, [])"

fun logged :: "audit_step list \<Rightarrow> audit_entry list" where
  "logged [] = []"
| "logged (Log e # xs) = e # logged xs"
| "logged (_ # xs) = logged xs"

lemma logged_append [simp]: "logged (xs @ ys) = logged xs @ logged ys"
  by (induction xs rule: logged.induct) auto

lemma audit_run_simps [simp]: "audit_run [] = (new_audit True, [])" "audit_run (xs @ [x]) = audit_do x (audit_run xs)"
  by (simp_all add: audit_run_def)

text \<open>What waits: the batch under way and then the queue.\<close>

definition waiting :: "audit_service \<Rightarrow> audit_entry list" where
  "waiting s = or_else (as_batch s) [] @ as_pending s"

lemma audit_do_frame [simp]: "as_enabled (fst (audit_do x (s, t))) = as_enabled s"
  by (cases x) (simp_all add: audit_log_def flush_begin_def flush_end_def Let_def split: option.split)

lemma audit_enabled: "as_enabled (fst (audit_run xs))"
proof (induction xs rule: rev_induct)
  case (snoc x xs)
  then show ?case by (cases "audit_run xs") simp
qed (simp add: new_audit_def)

lemma audit_logs_step:
  "as_enabled s \<Longrightarrow> as_logs s = take max_entries (rev es) \<Longrightarrow>
    as_logs (fst (audit_do x (s, t))) = take max_entries (rev (es @ logged [x]))"
  by (cases x) (simp_all add: audit_log_def flush_begin_def flush_end_def Let_def max_entries_def take_Cons' split: option.split)

lemma kept_prefix:
  "subseq (t @ map g (take n b) @ map g (take (n - length b) p)) (t @ map g b @ map g p)"
proof -
  have "prefix (map g (take n (b @ p))) (map g (b @ p))" by (intro map_mono_prefix take_is_prefix)
  then have "prefix (t @ map g (take n (b @ p))) (t @ map g (b @ p))" by (simp only: same_prefix_prefix)
  then have "subseq (t @ map g (take n (b @ p))) (t @ map g (b @ p))" by (rule prefix_imp_subseq)
  then show ?thesis by simp
qed

text \<open>A step takes a part of what was written or waits, with the new entries, in order.\<close>

definition trail :: "audit_service \<times> audit_row list \<Rightarrow> audit_row list" where
  "trail r = snd r @ map audit_row_of (waiting (fst r))"

lemma trail_step:
  assumes "as_enabled s"
  shows "subseq (trail (audit_do x (s, t))) (trail (s, t) @ map audit_row_of (logged [x]))"
    "length (waiting s) + length (logged [x]) \<le> max_entries \<Longrightarrow>
      trail (audit_do x (s, t)) = trail (s, t) @ map audit_row_of (logged [x])"
proof -
  show "subseq (trail (audit_do x (s, t))) (trail (s, t) @ map audit_row_of (logged [x]))"
    using assms kept_prefix
    by (cases x) (auto simp: trail_def waiting_def audit_log_def flush_begin_def flush_end_def insert_audit_logs_def Let_def
        split: option.split)
  show "trail (audit_do x (s, t)) = trail (s, t) @ map audit_row_of (logged [x])"
    if "length (waiting s) + length (logged [x]) \<le> max_entries"
    using assms that
    by (cases x) (auto simp: trail_def waiting_def audit_log_def flush_begin_def flush_end_def insert_audit_logs_def Let_def
        split: option.split)
qed

lemma waiting_step:
  "as_enabled s \<Longrightarrow> length (waiting (fst (audit_do x (s, t)))) \<le> length (waiting s) + length (logged [x])"
  by (cases x) (auto simp: waiting_def audit_log_def flush_begin_def flush_end_def insert_audit_logs_def Let_def
      split: option.split)

lemma waiting_bound: "length (waiting (fst (audit_run xs))) \<le> length (logged xs)"
proof (induction xs rule: rev_induct)
  case (snoc x xs)
  then show ?case
    using waiting_step [OF audit_enabled, of x xs "snd (audit_run xs)"] by simp
qed (simp add: waiting_def new_audit_def)


definition sample_entry :: "string \<Rightarrow> audit_entry" where
  "sample_entry i = \<lparr>ae_id = i, ae_time = 1, ae_user = ''user'', ae_extension = ''1001'', ae_event = ''login'', ae_metadata = None, ae_ip = None\<rparr>"


text \<open>A flush that fails with a full batch loses the entries logged since it began: the queue is cut to
  its oldest 5,000 entries, so the newest ones never reach the table.\<close>

lemma logged_logs [simp]: "logged (map Log es) = es"
  by (induction es) simp_all

lemma run_logs:
  "as_enabled s \<Longrightarrow> (\<exists>l. fold audit_do (map Log es) (s, t) = (s\<lparr>as_logs := l, as_pending := as_pending s @ es\<rparr>, t))"
proof (induction es arbitrary: s)
  case Nil
  show ?case by (intro exI [of _ "as_logs s"]) simp
next
  case (Cons e es)
  from Cons.IH [of "snd (audit_log e s)"] Cons.prems show ?case by (auto simp: audit_log_def)
qed

theorem failed_flush_drops_newest:
  assumes "length old = max_entries"
  shows "trail (audit_run (map Log old @ [Flush_Begin] @ map Log new @ [Flush_End Insert_Failed])) = map audit_row_of old"
proof -
  have e: "as_enabled (new_audit True)" by (simp add: new_audit_def)
  obtain l where r: "fold audit_do (map Log old) (new_audit True, []) = ((new_audit True)\<lparr>as_logs := l, as_pending := old\<rparr>, [])"
    using run_logs [OF e, of old "[]"] by (auto simp: new_audit_def)
  let ?s = "(new_audit True)\<lparr>as_logs := l, as_pending := [], as_batch := Some old\<rparr>"
  have "old \<noteq> []" using assms by (auto simp: max_entries_def)
  then have b: "flush_begin ((new_audit True)\<lparr>as_logs := l, as_pending := old\<rparr>) = ?s"
    by (simp add: flush_begin_def new_audit_def)
  obtain l' where "fold audit_do (map Log new) (?s, []) = (?s\<lparr>as_logs := l', as_pending := new\<rparr>, [])"
    using run_logs [of ?s new "[]"] e by auto
  with r b assms show ?thesis
    by (simp add: audit_run_def flush_end_def trail_def waiting_def Let_def)
qed

theorem failed_flush_drops_newest_witness:
  "trail (audit_run (map Log (replicate max_entries (sample_entry ''a'')) @ [Flush_Begin] @ map Log [sample_entry ''b''] @ [Flush_End Insert_Failed])) =
    map audit_row_of (replicate max_entries (sample_entry ''a''))"
  by (rule failed_flush_drops_newest) simp

end
