(* ===== verification/Webhooks.thy ===== *)
theory Webhooks
  imports Database Audit_Log
begin

text \<open>
  Outgoing webhooks: the dispatcher of \<^verbatim>\<open>src/src/services/webhook/dispatcher.ts\<close>, which
  turns call records and audit entries into delivery jobs for the parties' webhooks, at most
  one dispatch per call and event; and the delivery of
  \<^verbatim>\<open>src/src/services/webhook/sender.ts\<close>. The JSON text of a payload and the HMAC are
  parameters.
\<close>

section \<open>Jobs\<close>

record webhook_payload =
  wp_event :: string
  wp_key :: string
  wp_time :: int
  wp_webhook :: int
  wp_owner :: string
  wp_call :: call_log

record webhook_job =
  wj_webhook :: int
  wj_url :: string
  wj_secret :: string
  wj_event :: string
  wj_key :: string
  wj_body :: webhook_payload

section \<open>Events\<close>

fun status_event :: "call_status \<Rightarrow> string" where
  "status_event Ringing = ''call.ringing''"
| "status_event Answered = ''call.answered''"
| "status_event Ended = ''call.completed''"
| "status_event Missed = ''call.missed''"
| "status_event Failed = ''call.failed''"
| "status_event Unreachable = ''call.unreachable''"
| "status_event Voicemail = ''call.voicemail''"

definition audit_webhook :: "string \<Rightarrow> string option" where
  "audit_webhook ev = map_of
     [(''call_routed'', ''call.routed''), (''call_forwarded'', ''call.transferred''),
      (''trunk_call_forwarded'', ''call.transferred'')] ev"

text \<open>\<^verbatim>\<open>toSnapshot\<close> projects the call onto all but the rate prefix and the billed seconds.\<close>

definition to_snapshot :: "call_log \<Rightarrow> call_log" where
  "to_snapshot c = c\<lparr>cl_rate_prefix := None, cl_billed_secs := None\<rparr>"

section \<open>The dispatcher\<close>

definition max_seen :: nat where
  "max_seen = 10000"

text \<open>The set of seen keys, oldest first; the oldest tenth goes where it grows too long.\<close>

definition mark_seen :: "string \<Rightarrow> string list \<Rightarrow> string list" where
  "mark_seen key seen =
     (let s = (if key \<in> set seen then seen else seen @ [key])
      in if max_seen < length s then drop (max_seen div 10) s else s)"

definition dedupe_key :: "string \<Rightarrow> string \<Rightarrow> string" where
  "dedupe_key cid event = cid @ '':'' @ event"

definition webhook_owners :: "database \<Rightarrow> call_log \<Rightarrow> string list" where
  "webhook_owners d c =
     (let from_ext = (case cl_from_ext c of Some x \<Rightarrow> Some x | None \<Rightarrow> resolve_extension d (cl_from c));
          to_ext = (case cl_to_ext c of Some x \<Rightarrow> Some x | None \<Rightarrow> resolve_extension d (cl_to c))
      in remdups (filter (\<lambda>x. x \<noteq> []) (List.map_filter id [from_ext, to_ext])))"

definition webhook_job_of :: "int \<Rightarrow> string \<Rightarrow> call_log \<Rightarrow> string \<Rightarrow> webhook_record \<Rightarrow> webhook_job" where
  "webhook_job_of now event c owner h =
     (let key = show_int (wh_id h) @ '':'' @ cl_id c @ '':'' @ event
      in \<lparr>wj_webhook = wh_id h, wj_url = wh_url h, wj_secret = wh_secret h, wj_event = event, wj_key = key,
          wj_body = \<lparr>wp_event = event, wp_key = key, wp_time = now, wp_webhook = wh_id h, wp_owner = owner,
            wp_call = to_snapshot c\<rparr>\<rparr>)"

definition subscribed :: "string \<Rightarrow> webhook_record \<Rightarrow> bool" where
  "subscribed event h \<longleftrightarrow> wh_events h = [] \<or> event \<in> set (wh_events h)"

text \<open>The owners one after the other, each with the answer of the database where the cache is empty.\<close>

fun owner_jobs ::
  "(string \<Rightarrow> webhook_record list option) \<Rightarrow> int \<Rightarrow> string \<Rightarrow> call_log \<Rightarrow> string list \<Rightarrow> database \<Rightarrow>
     webhook_job list \<times> database" where
  "owner_jobs load now event c [] d = ([], d)"
| "owner_jobs load now event c (x # xs) d =
     (case get_webhooks_for_owner (load x) x d of
        (hooks, d1) \<Rightarrow>
          (case owner_jobs load now event c xs d1 of
             (jobs, d2) \<Rightarrow> (map (webhook_job_of now event c x) (filter (subscribed event) hooks) @ jobs, d2)))"

definition dispatch_webhook ::
  "(string \<Rightarrow> webhook_record list option) \<Rightarrow> int \<Rightarrow> string \<Rightarrow> call_log \<Rightarrow> string list \<times> database \<Rightarrow>
     webhook_job list \<times> string list \<times> database" where
  "dispatch_webhook load now event c sd =
     (let (seen, d) = sd in
      if cl_id c = [] then ([], seen, d)
      else if dedupe_key (cl_id c) event \<in> set seen then ([], seen, d)
      else (case owner_jobs load now event c (webhook_owners d c) d of
              (jobs, d') \<Rightarrow> (jobs, mark_seen (dedupe_key (cl_id c) event) seen, d')))"

text \<open>The call that an entry speaks of: the logged one, or one made up from the entry's metadata.\<close>

definition noted_call :: "database \<Rightarrow> audit_entry \<Rightarrow> string \<Rightarrow> call_log" where
  "noted_call d e cid = (case get_call d cid of
     Some c \<Rightarrow> c
   | None \<Rightarrow>
       (let md = or_else (ae_metadata e) []
        in \<lparr>cl_id = cid, cl_from = (if ae_extension e \<noteq> [] then ae_extension e else str_or (m_get md ''from'') []),
            cl_to = str_or (m_get md ''to'') [], cl_from_name = str_or (m_get md ''fromName'') [], cl_status = Ringing,
            cl_direction = Inbound, cl_start = ae_time e, cl_end = None, cl_duration = None, cl_from_ext = None,
            cl_to_ext = None, cl_cost = None, cl_currency = None, cl_rate_prefix = None, cl_billed_secs = None\<rparr>))"

definition on_audit_entry ::
  "(string \<Rightarrow> webhook_record list option) \<Rightarrow> int \<Rightarrow> audit_entry \<Rightarrow> string list \<times> database \<Rightarrow>
     webhook_job list \<times> string list \<times> database" where
  "on_audit_entry load now e sd =
     (let cid = m_get (or_else (ae_metadata e) []) ''callId''
      in case audit_webhook (ae_event e) of
           None \<Rightarrow> ([], sd)
         | Some event \<Rightarrow>
             if \<not> truthy cid then ([], sd)
             else dispatch_webhook load now event (noted_call (snd sd) e (the cid)) sd)"

text \<open>What the dispatcher listens to.\<close>

datatype webhook_input = Call_Changed call_log | Audited audit_entry

fun hear_webhook ::
  "(string \<Rightarrow> webhook_record list option) \<Rightarrow> int \<Rightarrow> webhook_input \<Rightarrow> string list \<times> database \<Rightarrow>
     webhook_job list \<times> string list \<times> database" where
  "hear_webhook load now (Call_Changed c) sd = dispatch_webhook load now (status_event (cl_status c)) c sd"
| "hear_webhook load now (Audited e) sd = on_audit_entry load now e sd"

section \<open>Delivery\<close>

record http_post =
  hp_url :: string
  hp_headers :: "(string \<times> string) list"
  hp_body :: string

datatype http_answer = Http_Status int | Network_Error

definition delivery_post :: "(webhook_payload \<Rightarrow> string) \<Rightarrow> (string \<Rightarrow> string \<Rightarrow> string) \<Rightarrow> (int \<Rightarrow> string) \<Rightarrow> webhook_job \<Rightarrow> http_post" where
  "delivery_post json hmac stamp j =
     (let raw = json (wj_body j)
      in \<lparr>hp_url = wj_url j, hp_headers =
           [(''Content-Type'', ''application/json''), (''User-Agent'', ''CallnetWebhook/1''),
            (''X-Webhook-Id'', show_int (wj_webhook j)), (''X-Webhook-Event'', wj_event j),
            (''X-Idempotency-Key'', wj_key j), (''X-Webhook-Timestamp'', stamp (wp_time (wj_body j)))] @
           (if wj_secret j \<noteq> [] then [(''X-Webhook-Signature'', ''sha256='' @ hmac (wj_secret j) raw)] else []),
         hp_body = raw\<rparr>)"

text \<open>\<^verbatim>\<open>fetch\<close>: an answer out of 200 to 299 is fine, all else throws.\<close>

definition deliver_webhook ::
  "(webhook_payload \<Rightarrow> string) \<Rightarrow> (string \<Rightarrow> string \<Rightarrow> string) \<Rightarrow> (int \<Rightarrow> string) \<Rightarrow> http_answer \<Rightarrow> webhook_job \<Rightarrow>
     http_post list \<Rightarrow> bool \<times> http_post list" where
  "deliver_webhook json hmac stamp answer j posts =
     ((case answer of Http_Status n \<Rightarrow> \<not> (200 \<le> n \<and> n \<le> 299) | Network_Error \<Rightarrow> True),
      posts @ [delivery_post json hmac stamp j])"

section \<open>Which webhooks fire\<close>

lemma group_get: "or_else (m_get (group_by_owner f rows) x) [] = filter (\<lambda>r. f r = x) rows"
  by (induction rows rule: rev_induct) (simp_all add: group_by_owner_def js.get_put)

text \<open>The cache holds the enabled rows, or is empty and the database answers with them or fails.\<close>

definition hooks_of :: "webhook_record list \<Rightarrow> (string \<Rightarrow> webhook_record list option) \<Rightarrow> database \<Rightarrow> bool" where
  "hooks_of rows load d \<longleftrightarrow> db_webhooks d = Some (group_by_owner wh_owner rows) \<or>
     db_webhooks d = None \<and> (\<forall>x. load x = None \<or> load x = Some rows)"

definition hooks_answer :: "webhook_record list \<Rightarrow> (string \<Rightarrow> webhook_record list option) \<Rightarrow> database \<Rightarrow> bool" where
  "hooks_answer rows load d \<longleftrightarrow> db_webhooks d = Some (group_by_owner wh_owner rows) \<or>
     db_webhooks d = None \<and> (\<forall>x. load x = Some rows)"

lemma hooks_of_answer: "hooks_answer rows load d \<Longrightarrow> hooks_of rows load d"
  by (auto simp: hooks_answer_def hooks_of_def)

lemma owner_hooks:
  assumes "get_webhooks_for_owner (load x) x d = (hooks, d')"
  shows "hooks_of rows load d \<Longrightarrow> (hooks = [] \<or> hooks = filter (\<lambda>h. wh_owner h = x) rows) \<and> hooks_of rows load d'"
    "hooks_answer rows load d \<Longrightarrow> x \<noteq> [] \<Longrightarrow> hooks = filter (\<lambda>h. wh_owner h = x) rows \<and> hooks_answer rows load d'"
proof -
  show "(hooks = [] \<or> hooks = filter (\<lambda>h. wh_owner h = x) rows) \<and> hooks_of rows load d'" if "hooks_of rows load d"
  proof (cases "load x")
    case (Some r)
    with that have "db_webhooks d = None \<Longrightarrow> r = rows" by (auto simp: hooks_of_def dest: spec [of _ x])
    then show ?thesis using assms that Some
      by (auto simp: get_webhooks_for_owner_def hooks_of_def group_get Let_def split: if_splits option.splits)
  qed (use assms that in \<open>auto simp: get_webhooks_for_owner_def hooks_of_def group_get split: if_splits option.splits\<close>)
  show "hooks = filter (\<lambda>h. wh_owner h = x) rows \<and> hooks_answer rows load d'" if "hooks_answer rows load d" "x \<noteq> []"
    using assms that
    by (auto simp: get_webhooks_for_owner_def hooks_answer_def group_get Let_def split: if_splits option.splits)
qed

text \<open>The jobs of the owners, one after the other.\<close>

definition jobs_for :: "int \<Rightarrow> string \<Rightarrow> call_log \<Rightarrow> webhook_record list \<Rightarrow> string list \<Rightarrow> webhook_job list" where
  "jobs_for now event c rows xs =
     concat (map (\<lambda>x. map (webhook_job_of now event c x) (filter (subscribed event) (filter (\<lambda>h. wh_owner h = x) rows))) xs)"

lemma owner_jobs_sub: "hooks_of rows load d \<Longrightarrow> subseq (fst (owner_jobs load now event c xs d)) (jobs_for now event c rows xs)"
proof (induction xs arbitrary: d)
  case (Cons x xs)
  obtain hooks d1 where g: "get_webhooks_for_owner (load x) x d = (hooks, d1)" by fastforce
  from owner_hooks(1) [OF g Cons.prems]
  have "subseq (map (webhook_job_of now event c x) (filter (subscribed event) hooks))
      (map (webhook_job_of now event c x) (filter (subscribed event) (filter (\<lambda>h. wh_owner h = x) rows)))"
    and d1: "hooks_of rows load d1" by auto
  from list_emb_append_mono [OF this(1) Cons.IH [OF d1]] show ?case
    by (simp add: g split_beta jobs_for_def)
qed (simp add: jobs_for_def)

lemma owner_jobs_eq: "hooks_answer rows load d \<Longrightarrow> [] \<notin> set xs \<Longrightarrow> fst (owner_jobs load now event c xs d) = jobs_for now event c rows xs"
proof (induction xs arbitrary: d)
  case (Cons x xs)
  obtain hooks d1 where g: "get_webhooks_for_owner (load x) x d = (hooks, d1)" by fastforce
  with owner_hooks(2) [OF g Cons.prems(1)] Cons.prems have
    "hooks = filter (\<lambda>h. wh_owner h = x) rows" "hooks_answer rows load d1" by auto
  with Cons.IH [of d1] Cons.prems show ?case by (simp add: g split_beta jobs_for_def)
qed (simp add: jobs_for_def)

lemma job_fields [simp]:
  "wj_webhook (webhook_job_of now event c x h) = wh_id h" "wj_event (webhook_job_of now event c x h) = event"
  "cl_id (wp_call (wj_body (webhook_job_of now event c x h))) = cl_id c"
  by (simp_all add: webhook_job_of_def Let_def to_snapshot_def)

lemma jobs_for_none [simp]: "jobs_for now event c [] xs = []"
  by (simp add: jobs_for_def)

lemma jobs_for_set: "set (jobs_for now event c rows xs) =
    {webhook_job_of now event c (wh_owner h) h |h. h \<in> set rows \<and> wh_owner h \<in> set xs \<and> subscribed event h}"
  by (auto simp: jobs_for_def)

lemma distinct_jobs:
  assumes "distinct (map wh_id rows)" "distinct xs"
  shows "distinct (map wj_webhook (jobs_for now event c rows xs))"
  using assms(2)
proof (induction xs)
  case (Cons x xs)
  have ids: "distinct (map wh_id (filter P rows))" for P using assms(1) by (rule distinct_map_filter)
  have "wh_id h \<notin> wh_id ` {h \<in> set rows. wh_owner h \<in> set xs}" if "h \<in> set rows" "wh_owner h = x" for h
    using that Cons.prems assms(1) by (auto simp: distinct_map dest: inj_onD)
  with Cons ids [of "\<lambda>h. wh_owner h = x \<and> subscribed event h"] show ?case
    by (auto simp: jobs_for_def comp_def conj_commute) blast
qed (simp add: jobs_for_def)

lemma owners_ok [simp]: "distinct (webhook_owners d c)" "[] \<notin> set (webhook_owners d c)"
  by (simp_all add: webhook_owners_def Let_def)

section \<open>Runs of the dispatcher\<close>

text \<open>
  Inputs in order, each with what the database answers and the store as it is then: between
  two inputs calls, users and the webhook cache may change in any way.
\<close>

type_synonym webhook_step = "(string \<Rightarrow> webhook_record list option) \<times> int \<times> database \<times> webhook_input"

fun webhook_run :: "webhook_step list \<Rightarrow> string list \<Rightarrow> webhook_job list \<times> string list" where
  "webhook_run [] seen = ([], seen)"
| "webhook_run ((load, now, d, i) # xs) seen =
     (case hear_webhook load now i (seen, d) of
        (jobs, seen', _) \<Rightarrow> (case webhook_run xs seen' of (js, s) \<Rightarrow> (jobs @ js, s)))"

definition webhook_step_ok :: "webhook_step \<Rightarrow> bool" where
  "webhook_step_ok x = (case x of (load, now, d, i) \<Rightarrow> \<exists>rows. distinct (map wh_id rows) \<and> hooks_of rows load d)"

definition job_key :: "webhook_job \<Rightarrow> string" where
  "job_key j = dedupe_key (cl_id (wp_call (wj_body j))) (wj_event j)"

definition fresh_jobs :: "string list \<Rightarrow> webhook_job list \<Rightarrow> string list \<Rightarrow> bool" where
  "fresh_jobs seen jobs seen' \<longleftrightarrow> distinct (map wj_webhook jobs) \<and> set seen \<subseteq> set seen' \<and> length seen' \<le> length seen + 1 \<and>
     (\<forall>j\<in>set jobs. job_key j \<notin> set seen \<and> job_key j \<in> set seen')"

lemma subseq_distinct: "subseq xs ys \<Longrightarrow> distinct ys \<Longrightarrow> distinct xs"
  by (metis subseq_conv_nths distinct_nthsI)

lemma dispatch_fresh:
  assumes "distinct (map wh_id rows)" "hooks_of rows load d" "length seen < max_seen"
    and "dispatch_webhook load now event c (seen, d) = (jobs, seen', d')"
  shows "fresh_jobs seen jobs seen'"
proof -
  let ?j = "jobs_for now event c rows (webhook_owners d c)"
  obtain js d1 where o: "owner_jobs load now event c (webhook_owners d c) d = (js, d1)" by fastforce
  then have sub: "subseq js ?j" using owner_jobs_sub [OF assms(2), of now event c "webhook_owners d c"] by simp
  have dist: "distinct (map wj_webhook js)"
    using subseq_distinct [OF subseq_map [OF sub, of wj_webhook]] distinct_jobs [OF assms(1)] by simp
  have "set js \<subseteq> set ?j" using sub by (auto elim: list_emb_set)
  then have keys: "job_key j = dedupe_key (cl_id c) event" if "j \<in> set js" for j
    using that unfolding jobs_for_set by (fastforce simp: job_key_def)
  have new: "fresh_jobs seen js (mark_seen (dedupe_key (cl_id c) event) seen)"
    if "dedupe_key (cl_id c) event \<notin> set seen"
    using that assms(3) dist keys by (simp add: fresh_jobs_def mark_seen_def subset_insertI)
  have none: "fresh_jobs seen [] seen" by (simp add: fresh_jobs_def)
  show ?thesis
  proof (cases "cl_id c = [] \<or> dedupe_key (cl_id c) event \<in> set seen")
    case True
    with assms(4) have "jobs = [] \<and> seen' = seen" by (auto simp: dispatch_webhook_def split: if_splits)
    with none show ?thesis by simp
  next
    case False
    with assms(4) o have "jobs = js \<and> seen' = mark_seen (dedupe_key (cl_id c) event) seen"
      by (simp add: dispatch_webhook_def)
    with new False show ?thesis by simp
  qed
qed

lemma hear_fresh:
  assumes "distinct (map wh_id rows)" "hooks_of rows load d" "length seen < max_seen"
    and "hear_webhook load now i (seen, d) = (jobs, seen', d')"
  shows "fresh_jobs seen jobs seen'"
  using assms(4) dispatch_fresh [OF assms(1-3)]
  by (cases i) (auto simp: on_audit_entry_def Let_def fresh_jobs_def split: option.splits if_splits)

lemma run_fresh:
  assumes "list_all webhook_step_ok xs" "length seen + length xs \<le> max_seen"
  shows "distinct (map (\<lambda>j. (wj_webhook j, job_key j)) (fst (webhook_run xs seen))) \<and>
    (\<forall>j\<in>set (fst (webhook_run xs seen)). job_key j \<notin> set seen)"
  using assms
proof (induction xs arbitrary: seen)
  case (Cons x xs)
  obtain load now d i where x: "x = (load, now, d, i)" by (cases x)
  obtain jobs seen' d' where h: "hear_webhook load now i (seen, d) = (jobs, seen', d')" by (metis prod_cases3)
  obtain rows where "distinct (map wh_id rows)" "hooks_of rows load d"
    using Cons.prems(1) by (auto simp: x webhook_step_ok_def)
  then have f: "fresh_jobs seen jobs seen'" by (rule hear_fresh [OF _ _ _ h]) (use Cons.prems(2) in simp)
  from Cons.IH [of seen'] f Cons.prems
  have "distinct (map (\<lambda>j. (wj_webhook j, job_key j)) (fst (webhook_run xs seen'))) \<and>
    (\<forall>j\<in>set (fst (webhook_run xs seen')). job_key j \<notin> set seen')" by (auto simp: fresh_jobs_def)
  moreover have "distinct (map (\<lambda>j. (wj_webhook j, job_key j)) jobs)"
    using f by (auto simp: fresh_jobs_def distinct_map inj_on_def)
  ultimately show ?case
    using f by (auto simp: x h split_beta fresh_jobs_def)
qed simp

text \<open>C10: a webhook hears of a call's event at most once. As long as the process has handled no more than 10,000
  call changes and audit entries, no two delivery jobs are for the same webhook, call and event, however often
  the call is updated with the same status, whichever of the two feeds reports it, and whatever happens to the
  webhook cache in between.\<close>

theorem webhooks_fire_once:
  assumes "list_all webhook_step_ok xs" "length xs \<le> max_seen"
  shows "distinct (map (\<lambda>j. (wj_webhook j, cl_id (wp_call (wj_body j)), wj_event j)) (fst (webhook_run xs [])))"
proof -
  let ?js = "fst (webhook_run xs [])"
  have "distinct (map (\<lambda>j. (wj_webhook j, job_key j)) ?js)" using run_fresh [OF assms(1), of "[]"] assms(2) by simp
  then show ?thesis by (auto simp: distinct_map inj_on_def job_key_def)
qed

text \<open>a call event reaches exactly the webhooks concerned: those of the local extensions on its two legs that
  are enabled and subscribed to the event, or to all events, each with one job that carries the call.\<close>

theorem webhook_jobs_exact:
  assumes "distinct (map wh_id rows)" "hooks_answer rows load d"
    and "cl_id c \<noteq> []" "dedupe_key (cl_id c) event \<notin> set seen"
  shows "let jobs = fst (dispatch_webhook load now event c (seen, d))
    in distinct (map wj_webhook jobs) \<and>
       set jobs = {webhook_job_of now event c (wh_owner h) h |h. h \<in> set rows \<and>
         wh_owner h \<in> set (webhook_owners d c) \<and> (wh_events h = [] \<or> event \<in> set (wh_events h))}"
  using assms(3,4) owner_jobs_eq [OF assms(2), of "webhook_owners d c" now event c]
    distinct_jobs [OF assms(1), of "webhook_owners d c" now event c]
  by (simp add: dispatch_webhook_def split_beta Let_def jobs_for_set subscribed_def)

text \<open>an event is lost where the webhooks cannot be loaded. The pair of call and event is marked as seen
  before the database is asked, so the failed dispatch sends nothing, and neither does any later one for this pair.\<close>

theorem webhook_lost_on_failed_load:
  assumes "db_webhooks d = None" "\<And>x. load x = None" "cl_id c \<noteq> []" "length seen < max_seen"
    and "dedupe_key (cl_id c) event \<notin> set seen" "cl_id c' = cl_id c"
  shows "case dispatch_webhook load now event c (seen, d) of
    (jobs, seen', _) \<Rightarrow> jobs = [] \<and> fst (dispatch_webhook load' now' event c' (seen', d')) = []"
proof -
  have "hooks_of [] load d" using assms(1,2) by (simp add: hooks_of_def)
  from owner_jobs_sub [OF this, of now event c "webhook_owners d c"] have "fst (owner_jobs load now event c (webhook_owners d c) d) = []" by simp
  with assms(3-6) show ?thesis
    by (simp add: dispatch_webhook_def split_beta mark_seen_def Let_def)
qed

section \<open>Witnesses\<close>

definition sample_hook :: webhook_record where
  "sample_hook = \<lparr>wh_id = 7, wh_owner = ''1001'', wh_name = ''crm'', wh_url = ''https://crm.example/h'', wh_secret = [],
     wh_events = [''call.completed''], wh_enabled = True\<rparr>"

definition hook_db :: database where
  "hook_db = (empty_db False ''USD'')\<lparr>db_webhooks := Some (group_by_owner wh_owner [sample_hook])\<rparr>"

definition sample_call :: "call_status \<Rightarrow> call_log" where
  "sample_call st = \<lparr>cl_id = ''c1'', cl_from = ''1001'', cl_to = ''+15551234567'', cl_from_name = ''Ann'', cl_status = st,
     cl_direction = Outbound, cl_start = 0, cl_end = None, cl_duration = None, cl_from_ext = Some ''1001'',
     cl_to_ext = None, cl_cost = None, cl_currency = None, cl_rate_prefix = None, cl_billed_secs = None\<rparr>"

definition sample_steps :: "webhook_step list" where
  "sample_steps = [(\<lambda>_. None, 1, hook_db, Call_Changed (sample_call Ringing)),
     (\<lambda>_. None, 2, hook_db, Call_Changed (sample_call Ended)), (\<lambda>_. None, 3, hook_db, Call_Changed (sample_call Ended))]"

lemma hook_db_ok: "hooks_of [sample_hook] load hook_db" "hooks_answer [sample_hook] load hook_db"
  by (simp_all add: hooks_of_def hooks_answer_def hook_db_def)

lemma sample_steps_ok: "list_all webhook_step_ok sample_steps"
  using hook_db_ok(1) by (auto simp: sample_steps_def webhook_step_ok_def intro!: exI [of _ "[sample_hook]"])

lemma sample_owners: "webhook_owners hook_db (sample_call st) = [''1001'']"
  by (simp add: webhook_owners_def sample_call_def resolve_extension_def get_user_def get_user_by_phone_def
      get_extension_by_phone_def hook_db_def empty_db_def Let_def List.map_filter_def)

lemma sample_run: "length (fst (webhook_run sample_steps [])) = 1"
  by code_simp

theorem webhooks_fire_once_witness:
  "distinct (map (\<lambda>j. (wj_webhook j, cl_id (wp_call (wj_body j)), wj_event j)) (fst (webhook_run sample_steps [])))
   \<and> length (fst (webhook_run sample_steps [])) = 1"
  using webhooks_fire_once [OF sample_steps_ok] sample_run by (simp add: sample_steps_def max_seen_def)

theorem webhook_jobs_exact_witness:
  "set (fst (dispatch_webhook (\<lambda>_. None) 5 ''call.completed'' (sample_call Ended) ([], hook_db))) =
    {webhook_job_of 5 ''call.completed'' (sample_call Ended) ''1001'' sample_hook}"
  using webhook_jobs_exact [of "[sample_hook]" "\<lambda>_. None" hook_db "sample_call Ended" "''call.completed''" "[]" 5]
  by (auto simp: hook_db_ok(2) sample_owners Let_def) (simp_all add: sample_hook_def sample_call_def)

theorem webhook_lost_on_failed_load_witness:
  "case dispatch_webhook (\<lambda>_. None) 1 ''call.completed'' (sample_call Ended) ([], empty_db False ''USD'') of
    (jobs, seen', _) \<Rightarrow> jobs = [] \<and>
      fst (dispatch_webhook (\<lambda>_. None) 2 ''call.completed'' (sample_call Ended) (seen', hook_db)) = []"
  by (rule webhook_lost_on_failed_load) (simp_all add: empty_db_def sample_call_def max_seen_def)

end
