(* ===== verification/Write_Behind.thy ===== *)
theory Write_Behind
  imports Write_Queue Webhooks
begin

text \<open>
  What the process writes behind the calls (the wiring in \<^verbatim>\<open>src/src/index.ts\<close>): the events of the store
  become jobs of the write queue, and the worker's handlers write call records, debit
  wallets and deliver webhooks. What the database, Redis and the receivers answer is a
  function of the count of dispatches.
\<close>

section \<open>Jobs and handlers\<close>

datatype write_payload = Call_Payload call_log | Debit_Payload balance_debit_job | Webhook_Payload webhook_job

fun write_type :: "write_payload \<Rightarrow> string" where
  "write_type (Call_Payload c) = ''call.upsert''"
| "write_type (Debit_Payload j) = ''balance.debit''"
| "write_type (Webhook_Payload j) = ''webhook.deliver''"

fun event_payload :: "db_event \<Rightarrow> write_payload" where
  "event_payload (CallUpserted c) = Call_Payload c"
| "event_payload (BalanceDebit j) = Debit_Payload j"

record write_world =
  ww_calls :: call_table
  ww_wallets :: wallets
  ww_posts :: "http_post list"

record write_env =
  we_now :: "nat \<Rightarrow> int"
  we_broken :: "nat \<Rightarrow> bool"
  we_redis :: "nat \<Rightarrow> bool"
  we_answer :: "nat \<Rightarrow> http_answer"
  we_json :: "webhook_payload \<Rightarrow> string"
  we_hmac :: "string \<Rightarrow> string \<Rightarrow> string"
  we_stamp :: "int \<Rightarrow> string"

text \<open>A handler throws on a payload that is not its own: the queue has no such job.\<close>

definition call_handler :: "write_env \<Rightarrow> nat \<Rightarrow> write_payload \<Rightarrow> write_world \<Rightarrow> bool \<times> write_world" where
  "call_handler e k p w =
     (case p of Call_Payload c \<Rightarrow>
        if we_broken e k then (True, w) else (False, w\<lparr>ww_calls := upsert_call (we_now e k) c (ww_calls w)\<rparr>)
      | _ \<Rightarrow> (True, w))"

definition debit_handler :: "write_env \<Rightarrow> nat \<Rightarrow> write_payload \<Rightarrow> write_world \<Rightarrow> bool \<times> write_world" where
  "debit_handler e k p w =
     (case p of Debit_Payload j \<Rightarrow>
        (case debit_for_call (we_broken e k) j (ww_wallets w) of (threw, ws) \<Rightarrow> (threw, w\<lparr>ww_wallets := ws\<rparr>))
      | _ \<Rightarrow> (True, w))"

definition webhook_handler :: "write_env \<Rightarrow> nat \<Rightarrow> write_payload \<Rightarrow> write_world \<Rightarrow> bool \<times> write_world" where
  "webhook_handler e k p w =
     (case p of Webhook_Payload j \<Rightarrow>
        (case deliver_webhook (we_json e) (we_hmac e) (we_stamp e) (we_answer e k) j (ww_posts w) of
           (threw, ps) \<Rightarrow> (threw, w\<lparr>ww_posts := ps\<rparr>))
      | _ \<Rightarrow> (True, w))"

definition app_handlers :: "write_env \<Rightarrow> (write_payload, write_world) write_handlers" where
  "app_handlers e = \<lparr>wh_handler = map_of [(''call.upsert'', call_handler e), (''balance.debit'', debit_handler e),
       (''webhook.deliver'', webhook_handler e)], wh_redis = we_redis e\<rparr>"

definition queue_payload :: "write_payload \<Rightarrow> write_payload job list \<Rightarrow> write_payload job list" where
  "queue_payload p q = enqueue_job (write_type p) p 0 q"

definition write_run :: "write_env \<Rightarrow> nat \<Rightarrow> nat \<Rightarrow> write_payload job list \<Rightarrow> write_world \<Rightarrow>
    (write_payload job \<times> outcome) list \<times> write_payload job list \<times> write_world" where
  "write_run e = worker_run (app_handlers e)"

section \<open>The wallet behind the queue\<close>

lemma handlers_wallet:
  assumes "wh_handler (app_handlers e) ty = Some f"
  shows "ww_wallets (snd (f k p w)) = ww_wallets w \<or>
    (\<exists>b j. ww_wallets (snd (f k p w)) = snd (debit_for_call b j (ww_wallets w)))"
  using assms
  by (auto simp: app_handlers_def call_handler_def debit_handler_def webhook_handler_def split_beta
      split: write_payload.splits if_splits) blast


section \<open>The records behind the queue\<close>

text \<open>An environment where nothing fails.\<close>

definition all_well :: "write_env \<Rightarrow> bool" where
  "all_well e \<longleftrightarrow> (\<forall>k. \<not> we_broken e k \<and> we_answer e k = Http_Status 200)"

lemma round_well:
  assumes "all_well e"
  shows "\<exists>w'. worker_round (app_handlers e) k (q @ [\<lparr>jb_type = write_type p, jb_payload = p, jb_attempts = n\<rparr>]) w =
      (Some (\<lparr>jb_type = write_type p, jb_payload = p, jb_attempts = n\<rparr>, Done), q, w') \<and>
    ww_calls w' = (case p of Call_Payload c \<Rightarrow> upsert_call (we_now e k) c (ww_calls w) | _ \<Rightarrow> ww_calls w)"
  using assms
  by (cases p) (auto simp: worker_round_def dispatch_job_def app_handlers_def call_handler_def debit_handler_def
      webhook_handler_def deliver_webhook_def debit_for_call_def all_well_def Let_def)

fun call_writes :: "write_env \<Rightarrow> nat \<Rightarrow> write_payload list \<Rightarrow> (int \<times> call_log) list" where
  "call_writes e k [] = []"
| "call_writes e k (Call_Payload c # ps) = (we_now e k, c) # call_writes e (Suc k) ps"
| "call_writes e k (_ # ps) = call_writes e (Suc k) ps"

lemma write_calls_Cons: "write_calls ((now, c) # vs) t = write_calls vs (upsert_call now c t)"
  by (simp add: write_calls_def)

definition queue_all :: "write_payload list \<Rightarrow> write_payload job list" where
  "queue_all ps = fold queue_payload ps []"

lemma queue_all_eq: "queue_all ps = rev (map (\<lambda>p. \<lparr>jb_type = write_type p, jb_payload = p, jb_attempts = 0\<rparr>) ps)"
  by (induction ps rule: rev_induct) (simp_all add: queue_all_def queue_payload_def enqueue_job_def)

lemma run_well:
  assumes "all_well e" "length ps \<le> n"
  shows "run_queue (write_run e n k (queue_all ps) w) = [] \<and>
    ww_calls (run_world (write_run e n k (queue_all ps) w)) = write_calls (call_writes e k ps) (ww_calls w)"
  using assms(2)
proof (induction ps arbitrary: n k w)
  case Nil
  show ?case by (cases n) (simp_all add: queue_all_eq write_run_def worker_round_def write_calls_def)
next
  case (Cons p ps)
  then obtain m where n: "n = Suc m" "length ps \<le> m" by (cases n) auto
  obtain w' where r: "worker_round (app_handlers e) k (queue_all (p # ps)) w =
      (Some (\<lparr>jb_type = write_type p, jb_payload = p, jb_attempts = 0\<rparr>, Done), queue_all ps, w')"
    "ww_calls w' = (case p of Call_Payload c \<Rightarrow> upsert_call (we_now e k) c (ww_calls w) | _ \<Rightarrow> ww_calls w)"
    using round_well [OF assms(1), of k "queue_all ps" p 0 w] by (auto simp: queue_all_eq)
  have "snd (write_run e n k (queue_all (p # ps)) w) = snd (write_run e m (Suc k) (queue_all ps) w')"
    by (simp add: n(1) write_run_def r(1) split_beta)
  moreover have "write_calls (call_writes e k (p # ps)) (ww_calls w) = write_calls (call_writes e (Suc k) ps) (ww_calls w')"
    by (cases p) (simp_all add: r(2) write_calls_Cons)
  ultimately show ?case using Cons.IH [OF n(2), of "Suc k" w'] by simp
qed

lemma call_writes_versions:
  "map snd (versions cid (call_writes e k (map event_payload evs))) = filter (\<lambda>c. cl_id c = cid) (List.map_filter (\<lambda>x. case x of CallUpserted c \<Rightarrow> Some c | _ \<Rightarrow> None) evs)"
proof (induction evs arbitrary: k)
  case (Cons x evs)
  from Cons [of "Suc k"] show ?case by (cases x) (simp_all add: versions_def List.map_filter_def)
qed (simp add: versions_def List.map_filter_def)

text \<open>The versions of a call among the events of the store.\<close>

definition emitted :: "string \<Rightarrow> db_event list \<Rightarrow> call_log list" where
  "emitted cid evs = filter (\<lambda>c. cl_id c = cid) (List.map_filter (\<lambda>x. case x of CallUpserted c \<Rightarrow> Some c | _ \<Rightarrow> None) evs)"

text \<open>C25: the call records end as the store left them. Where nothing fails, the worker empties the queue of a
  store's events in as many rounds as there are events; a call then has a record exactly where the store emitted
  it, with the parties and the start of its first version and the status, end, duration and cost of its last.\<close>

theorem records_follow_store:
  assumes "all_well e" "length evs \<le> n" "ww_calls w = no_calls"
  shows "let r = write_run e n 0 (queue_all (map event_payload evs)) w
    in run_queue r = [] \<and>
      (case row_of (ww_calls (run_world r)) cid of
         None \<Rightarrow> emitted cid evs = []
       | Some row \<Rightarrow> emitted cid evs \<noteq> [] \<and> describes (hd (emitted cid evs)) (last (emitted cid evs)) row)"
proof -
  let ?vs = "call_writes e 0 (map event_payload evs)"
  have em: "emitted cid evs = map snd (versions cid ?vs)" by (simp add: emitted_def call_writes_versions)
  have "run_queue (write_run e n 0 (queue_all (map event_payload evs)) w) = [] \<and>
    ww_calls (run_world (write_run e n 0 (queue_all (map event_payload evs)) w)) = write_calls ?vs no_calls"
    using run_well [OF assms(1), of "map event_payload evs" n 0 w] assms(2,3) by simp
  with row_of_write [where vs = ?vs and i = cid] show ?thesis
    by (auto simp: Let_def em hd_map last_map split: option.splits)
qed

text \<open>A retried write overtakes. Where the first write of a call's first version fails and the rest succeed, the
  retry goes behind the newer version and is applied last: the queue is empty, every job was done, and the record
  shows the status, the end and the cost of the older version.\<close>

theorem stale_retry_wins:
  assumes "cl_id old = cid" "cl_id new = cid" "we_broken e 0" "\<not> we_broken e 1" "\<not> we_broken e 2" "we_redis e 0"
    and "ww_calls w = no_calls"
  shows "case write_run e 3 0 (queue_all [Call_Payload old, Call_Payload new]) w of
    (xs, q, w') \<Rightarrow> map snd xs = [Requeued, Done, Done] \<and> q = [] \<and>
      (\<exists>row. row_of (ww_calls w') cid = Some row \<and> describes new old row)"
proof -
  let ?vs = "[(we_now e 1, new), (we_now e 2, old)]"
  have run: "\<exists>w'. write_run e 3 0 (queue_all [Call_Payload old, Call_Payload new]) w =
      ([(\<lparr>jb_type = ''call.upsert'', jb_payload = Call_Payload old, jb_attempts = 0\<rparr>, Requeued),
        (\<lparr>jb_type = ''call.upsert'', jb_payload = Call_Payload new, jb_attempts = 0\<rparr>, Done),
        (\<lparr>jb_type = ''call.upsert'', jb_payload = Call_Payload old, jb_attempts = 1\<rparr>, Done)], [], w') \<and>
      ww_calls w' = write_calls ?vs no_calls"
    using assms(3-7)
    by (simp add: write_run_def queue_all_eq numeral_3_eq_3 worker_round_def dispatch_job_def app_handlers_def
        call_handler_def enqueue_job_def max_attempts_def write_calls_def Let_def numeral_2_eq_2)
  have v: "versions cid ?vs = ?vs" using assms(1,2) by (simp add: versions_def)
  have "\<exists>row. row_of (write_calls ?vs no_calls) cid = Some row \<and> describes new old row"
    using row_of_write [where vs = ?vs and i = cid] unfolding v by (simp split: option.splits)
  with run show ?thesis by auto
qed

section \<open>Witnesses\<close>

definition flaky :: "bool \<Rightarrow> write_env" where
  "flaky first = \<lparr>we_now = int, we_broken = (\<lambda>k. first \<and> k = 0), we_redis = (\<lambda>_. True), we_answer = (\<lambda>_. Http_Status 200),
     we_json = (\<lambda>_. ''{}''), we_hmac = (\<lambda>_ _. []), we_stamp = show_int\<rparr>"

definition new_world :: write_world where
  "new_world = \<lparr>ww_calls = no_calls, ww_wallets = \<lparr>wl_txns = [], wl_balances = []\<rparr>, ww_posts = []\<rparr>"

definition sample_debit :: write_payload where
  "sample_debit = Debit_Payload \<lparr>bj_extension = ''1001'', bj_call_id = ''c1'', bj_amount = 1 / 2, bj_currency = ''USD''\<rparr>"


theorem records_follow_store_witness:
  "case row_of (ww_calls (run_world (write_run (flaky False) 2 0
       (queue_all [Call_Payload (sample_call Ringing), Call_Payload (sample_call Ended)]) new_world))) ''c1'' of
     None \<Rightarrow> False | Some row \<Rightarrow> describes (sample_call Ringing) (sample_call Ended) row"
proof -
  have "all_well (flaky False)" by (simp add: all_well_def flaky_def)
  moreover have "emitted ''c1'' [CallUpserted (sample_call Ringing), CallUpserted (sample_call Ended)] =
      [sample_call Ringing, sample_call Ended]"
    by (simp add: emitted_def List.map_filter_def sample_call_def)
  ultimately show ?thesis
    using records_follow_store [of "flaky False" "[CallUpserted (sample_call Ringing), CallUpserted (sample_call Ended)]"
        2 new_world "''c1''"]
    by (simp add: new_world_def Let_def split: option.splits)
qed

theorem stale_retry_wins_witness:
  "\<exists>row. row_of (ww_calls (run_world (write_run (flaky True) 3 0
      (queue_all [Call_Payload (sample_call Ringing), Call_Payload (sample_call Ended)]) new_world))) ''c1'' = Some row \<and>
    cr_status row = Some Ringing"
  using stale_retry_wins [of "sample_call Ringing" "''c1''" "sample_call Ended" "flaky True" new_world]
  by (auto simp: split_beta flaky_def new_world_def sample_call_def describes_def)

end
