(* ===== verification/Access_Token.thy ===== *)
theory Access_Token
  imports Prelude
begin

text \<open>
  Who a request comes from: the access token of \<^verbatim>\<open>src/src/core/jwt.ts\<close> and the two gates of
  \<^verbatim>\<open>src/src/http/middleware/auth.ts\<close>. The token library (signature, expiry and issuer) and
  the URI decoder are parameters.
\<close>

section \<open>Tokens and cookies\<close>

record jwt_claims =
  jc_extension :: string
  jc_user_id :: int
  jc_type :: string

definition verify_access_token :: "(string \<Rightarrow> jwt_claims option) \<Rightarrow> string \<Rightarrow> jwt_claims option" where
  "verify_access_token verify token =
     (if token = [] then None
      else case verify token of None \<Rightarrow> None
        | Some c \<Rightarrow> if jc_type c \<noteq> ''access'' then None else if jc_extension c = [] then None else Some c)"

text \<open>A part without an equals sign is skipped; a value that does not decode stands as it is.\<close>

definition parse_cookie :: "(string \<Rightarrow> string option) \<Rightarrow> string \<Rightarrow> (string, string) js_map \<Rightarrow> (string, string) js_map" where
  "parse_cookie decode part out =
     (if CHR ''='' \<notin> set part then out
      else (let key = trim (takeWhile (\<lambda>c. c \<noteq> CHR ''='') part);
                val = trim (tl (dropWhile (\<lambda>c. c \<noteq> CHR ''='') part))
            in if key = [] then out else m_set key (or_else (decode val) val) out))"

definition parse_cookies :: "(string \<Rightarrow> string option) \<Rightarrow> string option \<Rightarrow> (string, string) js_map" where
  "parse_cookies decode header =
     (if \<not> truthy header then [] else fold (parse_cookie decode) (split_on CHR '';'' (the header)) [])"

section \<open>The gates\<close>

record http_head =
  hh_authorization :: "string option"
  hh_cookie :: "string option"

definition extract_token :: "(string \<Rightarrow> string option) \<Rightarrow> http_head \<Rightarrow> string" where
  "extract_token decode h =
     (let cookie = str_or (m_get (parse_cookies decode (hh_cookie h)) ''token'') []
      in if truthy (hh_authorization h)
         then (case split_on CHR '' '' (the (hh_authorization h)) of
                 scheme # val # _ \<Rightarrow> if val \<noteq> [] \<and> to_lower scheme = ''bearer'' then trim val else cookie
               | _ \<Rightarrow> cookie)
         else cookie)"

datatype gate = Pass jwt_claims | Reject int string

definition require_auth :: "(string \<Rightarrow> jwt_claims option) \<Rightarrow> (string \<Rightarrow> string option) \<Rightarrow> http_head \<Rightarrow> gate" where
  "require_auth verify decode h =
     (let token = extract_token decode h
      in if token = [] then Reject 401 ''Missing authorization token''
         else case verify_access_token verify token of
                None \<Rightarrow> Reject 401 ''Invalid or expired token''
              | Some c \<Rightarrow> Pass c)"

definition require_self_extension :: "string \<Rightarrow> gate \<Rightarrow> gate" where
  "require_self_extension ext g =
     (case g of Pass c \<Rightarrow> if jc_extension c \<noteq> ext then Reject 403 ''Forbidden'' else Pass c | Reject n m \<Rightarrow> Reject n m)"

section \<open>Lemmas\<close>

lemma verified_access:
  "verify_access_token verify token = Some c \<longleftrightarrow> token \<noteq> [] \<and> verify token = Some c \<and> jc_type c = ''access'' \<and> jc_extension c \<noteq> []"
  by (auto simp: verify_access_token_def split: option.splits if_splits)

lemma gate_passes:
  "require_self_extension ext (require_auth verify decode h) = Pass c \<longleftrightarrow>
    extract_token decode h \<noteq> [] \<and> verify (extract_token decode h) = Some c \<and> jc_type c = ''access'' \<and>
    jc_extension c \<noteq> [] \<and> jc_extension c = ext"
  using verified_access [of verify "extract_token decode h" c]
  by (cases "verify_access_token verify (extract_token decode h)")
    (auto simp: require_auth_def require_self_extension_def Let_def)

text \<open>A cookie pair that needs no trimming or decoding, at the end of a header, is read back.\<close>

definition plain_pair :: "(string \<Rightarrow> string option) \<Rightarrow> string \<Rightarrow> string \<Rightarrow> bool" where
  "plain_pair decode k v \<longleftrightarrow> k \<noteq> [] \<and> trim k = k \<and> CHR ''='' \<notin> set k \<and> trim v = v \<and> decode v = Some v"

lemma parse_plain: "plain_pair decode k v \<Longrightarrow> parse_cookie decode (k @ ''='' @ v) out = m_set k v out"
proof -
  assume p: "plain_pair decode k v"
  then have "\<forall>c\<in>set k. c \<noteq> CHR ''=''" by (auto simp: plain_pair_def)
  then have "takeWhile (\<lambda>c. c \<noteq> CHR ''='') (k @ ''='' @ v) = k" "dropWhile (\<lambda>c. c \<noteq> CHR ''='') (k @ ''='' @ v) = ''='' @ v"
    by simp_all
  with p show ?thesis unfolding parse_cookie_def plain_pair_def by simp
qed

definition cookie_header :: "(string \<times> string) list \<Rightarrow> string" where
  "cookie_header ps = concat (map (\<lambda>(k, v). k @ ''='' @ v @ '';'') ps)"

definition cookie_ok :: "(string \<Rightarrow> string option) \<Rightarrow> string \<times> string \<Rightarrow> bool" where
  "cookie_ok decode p \<longleftrightarrow> plain_pair decode (fst p) (snd p) \<and> CHR '';'' \<notin> set (fst p @ snd p)"

lemma fold_cookies:
  "list_all (cookie_ok decode) ps \<Longrightarrow>
    fold (parse_cookie decode) (split_on CHR '';'' (cookie_header ps)) out = fold (\<lambda>(k, v). m_set k v) ps out"
proof (induction ps arbitrary: out)
  case Nil
  show ?case by (simp add: cookie_header_def parse_cookie_def)
next
  case (Cons p ps)
  obtain k v where p: "p = (k, v)" by force
  have "split_on CHR '';'' (cookie_header (p # ps)) = (k @ ''='' @ v) # split_on CHR '';'' (cookie_header ps)"
    using Cons.prems split_on_append [of "CHR '';''" "k @ ''='' @ v" "cookie_header ps"]
    by (simp add: cookie_header_def p cookie_ok_def)
  with Cons parse_plain [of decode k v] show ?case by (simp add: p cookie_ok_def)
qed

lemma fold_set_last: "m_get (fold (\<lambda>(k, v). m_set k v) ps m) key = (case map_of (rev ps) key of Some v \<Rightarrow> Some v | None \<Rightarrow> m_get m key)"
  by (induction ps arbitrary: m) (auto simp: map_add_def js.get_put split: option.split)

text \<open>Cookies read back. Of a cookie header that is printed from name and value pairs the parser returns
  for every name the value of its last pair, and nothing for a name that is not there.\<close>

theorem cookies_roundtrip:
  assumes "list_all (cookie_ok decode) ps"
  shows "m_get (parse_cookies decode (Some (cookie_header ps))) key = map_of (rev ps) key"
proof (cases "cookie_header ps = []")
  case True
  then have "ps = []" by (cases ps) (auto simp: cookie_header_def)
  then show ?thesis by (simp add: parse_cookies_def cookie_header_def)
next
  case False
  then show ?thesis
    using fold_cookies [OF assms, of "[]"] fold_set_last [of ps "[]" key]
    by (simp add: parse_cookies_def split: option.splits)
qed

theorem cookies_roundtrip_witness:
  "m_get (parse_cookies Some (Some ''a=1;token=x;a=2;'')) ''a'' = Some ''2''"
proof -
  have "list_all (cookie_ok Some) [(''a'', ''1''), (''token'', ''x''), (''a'', ''2'')]" by code_simp
  from cookies_roundtrip [OF this, of "''a''"] show ?thesis by (simp add: cookie_header_def)
qed

end
