(* ===== verification/Signaling.thy ===== *)
theory Signaling
  imports Access_Token Api_Keys Conference Acd_Queue Metrics Audit_Log
begin

text \<open>
  The signalling server, \<^verbatim>\<open>src/src/websocket/signaling.server.ts\<close>: browsers connect a
  WebSocket with their access-token cookie and exchange call events, presence, recordings,
  conference and queue control. Sockets are numbers, messages are values, and what was
  sent is the list \<open>sg_sent\<close>. The listeners that the process puts on the registries
  (\<^verbatim>\<open>src/src/index.ts\<close>) are part of the steps.
\<close>

section \<open>State\<close>

record ws_client =
  wc_extension :: string
  wc_username :: string
  wc_authenticated :: bool
  wc_user :: "int option"

record online_user =
  ou_extension :: string
  ou_name :: string
  ou_username :: string
  ou_online :: bool
  ou_registered :: bool

datatype ws_message =
    Ws_Error string
  | Ws_Registered string string string string
  | Ws_Online "online_user list"
  | Ws_Call_Event string "(string \<times> string) list"
  | Ws_Lookup string "(string \<times> string \<times> string option) option"
  | Ws_Recording string "(string \<times> string) list"
  | Ws_Metrics metrics_snapshot
  | Ws_Audit_History "audit_entry list"
  | Ws_Audit_Entry audit_entry
  | Ws_Conf_Error string
  | Ws_Conf_Created string "conference_snapshot option"
  | Ws_Conf_Invited string string string string
  | Ws_Conf_Roster string conference_snapshot
  | Ws_Conf_Closed string
  | Ws_Queue_Error string
  | Ws_Queue_All "queue_snapshot list"
  | Ws_Queue string queue_snapshot
  | Ws_Agent_State string bool "string list"

text \<open>Deployment: the origin allow-list, the libraries, and the addresses told to clients.\<close>

record ws_config =
  wf_origins :: "string list"
  wf_url :: url_parser
  wf_verify :: "string \<Rightarrow> jwt_claims option"
  wf_decode :: "string \<Rightarrow> string option"
  wf_base64 :: "string \<Rightarrow> string"
  wf_sip_ws_url :: string
  wf_public_ip :: string
  wf_sip_ws_port :: nat

text \<open>What a step asks of its surroundings: the clock, the date, random room ids, the disk, the two providers.\<close>

record ws_tick =
  tk_now :: int
  tk_date :: string
  tk_draws :: "string list"
  tk_disk :: bool
  tk_metrics :: "metrics_snapshot option"
  tk_audit :: "audit_entry list option"

record signaling =
  sg_db :: database
  sg_sock :: "nat \<Rightarrow> ws_client"
  sg_open :: "nat list"
  sg_clients :: "(string, nat) js_map"
  sg_metrics_subs :: "nat list"
  sg_audit_subs :: "nat list"
  sg_queue_subs :: "nat list"
  sg_conf :: "conferences option"
  sg_queue :: "queue_service option"
  sg_files :: "(string, string) js_map"
  sg_sent :: "(nat \<times> ws_message) list"

definition no_client :: ws_client where
  "no_client = \<lparr>wc_extension = [], wc_username = [], wc_authenticated = False, wc_user = None\<rparr>"

definition new_signaling :: "database \<Rightarrow> conferences option \<Rightarrow> queue_service option \<Rightarrow> signaling" where
  "new_signaling d c q = \<lparr>sg_db = d, sg_sock = (\<lambda>_. no_client), sg_open = [], sg_clients = [], sg_metrics_subs = [],
     sg_audit_subs = [], sg_queue_subs = [], sg_conf = c, sg_queue = q, sg_files = [], sg_sent = []\<rparr>"

definition set_conference_service :: "conferences \<Rightarrow> signaling \<Rightarrow> signaling" where
  "set_conference_service c s = s\<lparr>sg_conf := Some c\<rparr>"

definition set_queue_service :: "queue_service \<Rightarrow> signaling \<Rightarrow> signaling" where
  "set_queue_service q s = s\<lparr>sg_queue := Some q\<rparr>"

abbreviation ext_of :: "signaling \<Rightarrow> nat \<Rightarrow> string" where
  "ext_of s k \<equiv> wc_extension (sg_sock s k)"

definition ws_send :: "nat \<Rightarrow> ws_message \<Rightarrow> signaling \<Rightarrow> signaling" where
  "ws_send k m s = (if k \<in> set (sg_open s) then s\<lparr>sg_sent := sg_sent s @ [(k, m)]\<rparr> else s)"

text \<open>To a client that is connected under an extension.\<close>

definition reachable :: "signaling \<Rightarrow> nat \<Rightarrow> bool" where
  "reachable s k \<longleftrightarrow> wc_authenticated (sg_sock s k) \<and> k \<in> set (sg_open s)"

definition send_to_ext :: "string \<Rightarrow> ws_message \<Rightarrow> signaling \<Rightarrow> signaling" where
  "send_to_ext ext m s = (case m_get (sg_clients s) ext of None \<Rightarrow> s | Some k \<Rightarrow> if reachable s k then ws_send k m s else s)"

text \<open>Sets keep the order of insertion.\<close>

definition sub_add :: "nat \<Rightarrow> nat list \<Rightarrow> nat list" where
  "sub_add k ks = (if k \<in> set ks then ks else ks @ [k])"

definition sub_del :: "nat \<Rightarrow> nat list \<Rightarrow> nat list" where
  "sub_del k ks = filter (\<lambda>j. j \<noteq> k) ks"

section \<open>Presence\<close>

definition presence_of :: "signaling \<Rightarrow> string \<Rightarrow> online_user list" where
  "presence_of s ext = map (\<lambda>u. \<lparr>ou_extension = su_extension u, ou_name = su_name u, ou_username = su_username u,
       ou_online = m_has (sg_clients s) (su_extension u), ou_registered = su_registered u\<rparr>)
     (filter (\<lambda>u. su_extension u \<noteq> ext) (get_users (sg_db s)))"

definition handle_presence :: "nat \<Rightarrow> signaling \<Rightarrow> signaling" where
  "handle_presence k s = ws_send k (Ws_Online (presence_of s (ext_of s k))) s"

definition broadcast_presence :: "signaling \<Rightarrow> signaling" where
  "broadcast_presence s =
     fold (\<lambda>k t. if reachable t k then ws_send k (Ws_Online (presence_of t (ext_of t k))) t else t) (m_vals (sg_clients s)) s"

definition notify_call_event :: "string \<Rightarrow> string \<Rightarrow> (string \<times> string) list \<Rightarrow> signaling \<Rightarrow> signaling" where
  "notify_call_event ext event data s = send_to_ext ext (Ws_Call_Event event data) s"

section \<open>Connections\<close>

definition is_allowed_origin :: "ws_config \<Rightarrow> string option \<Rightarrow> bool" where
  "is_allowed_origin v origin =
     (if \<not> truthy origin then True
      else if wf_origins v \<noteq> [] then the origin \<in> set (wf_origins v)
      else case wf_url v (the origin) of
             Some p \<Rightarrow> up_hostname p = ''localhost'' \<or> up_hostname p = ''127.0.0.1''
           | None \<Rightarrow> False)"

definition send_registered :: "ws_config \<Rightarrow> nat \<Rightarrow> signaling \<Rightarrow> signaling" where
  "send_registered v k s =
     (let ext = ext_of s k
      in ws_send k (Ws_Registered ext (str_or (map_option su_name (get_user (sg_db s) ext)) ext) (wc_username (sg_sock s k))
           (if wf_sip_ws_url v \<noteq> [] then wf_sip_ws_url v else ''ws://'' @ wf_public_ip v @ '':'' @ show_nat (wf_sip_ws_port v))) s)"

definition authenticate_client :: "ws_config \<Rightarrow> nat \<Rightarrow> jwt_claims \<Rightarrow> signaling \<Rightarrow> signaling" where
  "authenticate_client v k c s =
     (let ext = jc_extension c;
          cl = \<lparr>wc_extension = ext, wc_username = str_or (map_option su_username (get_user (sg_db s) ext)) ext,
                wc_authenticated = True, wc_user = Some (jc_user_id c)\<rparr>
      in broadcast_presence (send_registered v k
           (s\<lparr>sg_sock := (sg_sock s)(k := cl), sg_clients := m_set ext k (sg_clients s)\<rparr>)))"

text \<open>A fresh socket: the origin is checked before the handshake, then the cookie; without it the socket is closed.\<close>

definition on_connection :: "ws_config \<Rightarrow> nat \<Rightarrow> string option \<Rightarrow> string option \<Rightarrow> signaling \<Rightarrow> signaling" where
  "on_connection v k origin cookie s =
     (if \<not> is_allowed_origin v origin then s
      else (let s1 = s\<lparr>sg_open := sub_add k (sg_open s), sg_sock := (sg_sock s)(k := no_client)\<rparr>
            in case verify_access_token (wf_verify v) (str_or (m_get (parse_cookies (wf_decode v) cookie) ''token'') []) of
                 None \<Rightarrow> (let s2 = ws_send k (Ws_Error ''Unauthorized'') s1 in s2\<lparr>sg_open := sub_del k (sg_open s2)\<rparr>)
               | Some c \<Rightarrow> authenticate_client v k c s1))"

definition forget_client :: "nat \<Rightarrow> signaling \<Rightarrow> signaling" where
  "forget_client k s =
     s\<lparr>sg_clients := (if ext_of s k \<noteq> [] then m_del (ext_of s k) (sg_clients s) else sg_clients s),
       sg_metrics_subs := sub_del k (sg_metrics_subs s), sg_audit_subs := sub_del k (sg_audit_subs s),
       sg_queue_subs := sub_del k (sg_queue_subs s)\<rparr>"

definition on_error :: "nat \<Rightarrow> signaling \<Rightarrow> signaling" where
  "on_error k s = forget_client k s"

text \<open>The socket is no longer open when its close event runs.\<close>

definition on_close :: "nat \<Rightarrow> signaling \<Rightarrow> signaling" where
  "on_close k s = broadcast_presence (forget_client k (s\<lparr>sg_open := sub_del k (sg_open s)\<rparr>))"

section \<open>Calls, lookups, recordings\<close>

definition handle_auth :: "ws_config \<Rightarrow> nat \<Rightarrow> signaling \<Rightarrow> signaling" where
  "handle_auth v k s =
     (if \<not> wc_authenticated (sg_sock s k)
      then (let s1 = ws_send k (Ws_Error ''Unauthorized'') s in s1\<lparr>sg_open := sub_del k (sg_open s1)\<rparr>)
      else send_registered v k s)"

text \<open>A handler behind the check that every other message starts with.\<close>

definition authenticated :: "nat \<Rightarrow> (signaling \<Rightarrow> signaling) \<Rightarrow> signaling \<Rightarrow> signaling" where
  "authenticated k f s = (if \<not> wc_authenticated (sg_sock s k) then ws_send k (Ws_Error ''Not authenticated'') s else f s)"

definition handle_call_signal :: "nat \<Rightarrow> string \<Rightarrow> string \<Rightarrow> string \<Rightarrow> signaling \<Rightarrow> signaling" where
  "handle_call_signal k target action data = authenticated k (\<lambda>s.
     case m_get (sg_clients s) target of
       None \<Rightarrow> ws_send k (Ws_Call_Event ''user_offline'' [(''target'', target)]) s
     | Some t \<Rightarrow> ws_send t (Ws_Call_Event action ([(''from'', ext_of s k)] @
         (case get_user (sg_db s) (ext_of s k) of None \<Rightarrow> [] | Some u \<Rightarrow> [(''fromName'', su_name u)]) @ [(''data'', data)])) s)"

definition handle_lookup :: "nat \<Rightarrow> string \<Rightarrow> signaling \<Rightarrow> signaling" where
  "handle_lookup k target = authenticated k (\<lambda>s.
     (let t = trim target
      in if t = [] then ws_send k (Ws_Lookup [] None) s
         else ws_send k (Ws_Lookup t (map_option (\<lambda>u. (su_extension u, su_name u, su_mobile u))
                (case get_user (sg_db s) t of Some u \<Rightarrow> Some u | None \<Rightarrow> get_user_by_phone (sg_db s) t))) s))"

datatype recording_action = Rec_Start | Rec_Stop | Rec_Save "string option" "string option" | Rec_Unknown string

definition is_alnum :: "char \<Rightarrow> bool" where
  "is_alnum c \<longleftrightarrow> is_letter c \<or> is_digit c"

definition recording_path :: "ws_tick \<Rightarrow> string \<Rightarrow> string option \<Rightarrow> string" where
  "recording_path tk owner ext =
     (let e = take 5 (filter is_alnum (str_or ext ''webm''))
      in owner @ ''/'' @ tk_date tk @ ''/call_'' @ show_int (tk_now tk) @ ''.'' @ (if e = [] then ''webm'' else e))"

definition save_recording :: "ws_config \<Rightarrow> ws_tick \<Rightarrow> nat \<Rightarrow> string option \<Rightarrow> string option \<Rightarrow> string option \<Rightarrow> signaling \<Rightarrow> signaling" where
  "save_recording v tk k call data ext s =
     (if \<not> truthy data then ws_send k (Ws_Recording ''error'' [(''message'', ''No audio data'')]) s
      else if \<not> tk_disk tk then ws_send k (Ws_Recording ''error'' [(''message'', ''Failed to save recording'')]) s
      else (let path = recording_path tk (ext_of s k) ext; buf = wf_base64 v (the data)
            in ws_send k (Ws_Recording ''saved'' ([(''file'', path)] @
                   (case call of None \<Rightarrow> [] | Some c \<Rightarrow> [(''callId'', c)]) @ [(''size'', show_nat (length buf))]))
                 (s\<lparr>sg_files := m_set path buf (sg_files s)\<rparr>)))"

text \<open>To the peer, where the message names one that is connected.\<close>

definition tell_peer :: "nat \<Rightarrow> string option \<Rightarrow> string \<Rightarrow> string \<Rightarrow> signaling \<Rightarrow> signaling" where
  "tell_peer k peer event call s =
     (if \<not> truthy peer then s
      else case m_get (sg_clients s) (the peer) of None \<Rightarrow> s
        | Some p \<Rightarrow> ws_send p (Ws_Call_Event event [(''from'', ext_of s k), (''callId'', call)]) s)"

definition handle_recording :: "ws_config \<Rightarrow> ws_tick \<Rightarrow> nat \<Rightarrow> recording_action \<Rightarrow> string option \<Rightarrow> string option \<Rightarrow> signaling \<Rightarrow> signaling" where
  "handle_recording v tk k action call peer = authenticated k (\<lambda>s.
     (let cid = str_or call ''unknown''
      in case action of
           Rec_Start \<Rightarrow> ws_send k (Ws_Recording ''started'' [(''callId'', cid)]) (tell_peer k peer ''recording_started'' cid s)
         | Rec_Stop \<Rightarrow> ws_send k (Ws_Recording ''stopped'' [(''callId'', cid)]) (tell_peer k peer ''recording_stopped'' cid s)
         | Rec_Save data ext \<Rightarrow> save_recording v tk k call data ext s
         | Rec_Unknown a \<Rightarrow> ws_send k (Ws_Error (''Unknown recording action: '' @ a)) s))"

section \<open>Feeds\<close>

definition handle_subscribe_metrics :: "ws_tick \<Rightarrow> nat \<Rightarrow> signaling \<Rightarrow> signaling" where
  "handle_subscribe_metrics tk k = authenticated k (\<lambda>s.
     (let s1 = s\<lparr>sg_metrics_subs := sub_add k (sg_metrics_subs s)\<rparr>
      in case tk_metrics tk of None \<Rightarrow> s1 | Some m \<Rightarrow> ws_send k (Ws_Metrics m) s1))"

definition handle_subscribe_audit :: "ws_tick \<Rightarrow> nat \<Rightarrow> signaling \<Rightarrow> signaling" where
  "handle_subscribe_audit tk k = authenticated k (\<lambda>s.
     (let s1 = s\<lparr>sg_audit_subs := sub_add k (sg_audit_subs s)\<rparr>
      in case tk_audit tk of None \<Rightarrow> s1 | Some es \<Rightarrow> ws_send k (Ws_Audit_History es) s1))"

text \<open>A push goes to the open subscribers; the others are dropped from the set.\<close>

definition broadcast_metrics :: "metrics_snapshot \<Rightarrow> signaling \<Rightarrow> signaling" where
  "broadcast_metrics m s =
     fold (\<lambda>k t. if k \<in> set (sg_open t) then ws_send k (Ws_Metrics m) t
        else t\<lparr>sg_metrics_subs := sub_del k (sg_metrics_subs t)\<rparr>) (sg_metrics_subs s) s"

definition broadcast_audit_entry :: "audit_entry \<Rightarrow> signaling \<Rightarrow> signaling" where
  "broadcast_audit_entry e s =
     fold (\<lambda>k t. if k \<in> set (sg_open t) then ws_send k (Ws_Audit_Entry e) t
        else t\<lparr>sg_audit_subs := sub_del k (sg_audit_subs t)\<rparr>) (sg_audit_subs s) s"

definition broadcast_queue_snapshot :: "ws_tick \<Rightarrow> string \<Rightarrow> signaling \<Rightarrow> signaling" where
  "broadcast_queue_snapshot tk qid s =
     (case sg_queue s of None \<Rightarrow> s
      | Some q \<Rightarrow>
          if sg_queue_subs s = [] then s
          else (case snapshot (tk_now tk) q qid of None \<Rightarrow> s
            | Some snap \<Rightarrow> fold (\<lambda>k t. if reachable t k then ws_send k (Ws_Queue qid snap) t else t) (sg_queue_subs s) s))"

section \<open>Conferences\<close>

definition broadcast_conference_roster :: "string \<Rightarrow> signaling \<Rightarrow> signaling" where
  "broadcast_conference_roster rid s =
     (case sg_conf s of None \<Rightarrow> s
      | Some c \<Rightarrow>
          (case (get_room c rid, conference_snapshot c rid) of
             (Some r, Some snap) \<Rightarrow> fold (\<lambda>ext t. send_to_ext ext (Ws_Conf_Roster rid snap) t) (m_keys (ro_participants r)) s
           | _ \<Rightarrow> s))"

text \<open>The registry's event has no list of participants: every connected extension is told.\<close>

definition broadcast_conference_closed :: "string \<Rightarrow> string list option \<Rightarrow> signaling \<Rightarrow> signaling" where
  "broadcast_conference_closed rid ps s =
     fold (\<lambda>ext t. send_to_ext ext (Ws_Conf_Closed rid) t) (or_else ps (m_keys (sg_clients s))) s"

fun conference_event :: "room_event \<Rightarrow> signaling \<Rightarrow> signaling" where
  "conference_event (Updated rid) s = broadcast_conference_roster rid s"
| "conference_event (Closed rid) s = broadcast_conference_closed rid None s"

text \<open>An operation of the registry, with the listeners of its events.\<close>

definition with_conference :: "(conferences \<Rightarrow> conferences) \<Rightarrow> signaling \<Rightarrow> signaling" where
  "with_conference f s =
     (case sg_conf s of None \<Rightarrow> s
      | Some c \<Rightarrow> fold conference_event (drop (length (cs_emitted c)) (cs_emitted (f c))) (s\<lparr>sg_conf := Some (f c)\<rparr>))"

definition send_conference_invite :: "string \<Rightarrow> string \<Rightarrow> string \<Rightarrow> string \<Rightarrow> string \<Rightarrow> signaling \<Rightarrow> signaling" where
  "send_conference_invite rid name from_ext from_name target s =
     send_to_ext target (Ws_Conf_Invited rid name from_ext from_name) s"

definition display_name :: "signaling \<Rightarrow> string \<Rightarrow> string" where
  "display_name s ext = str_or (map_option su_name (get_user (sg_db s) ext)) ext"

definition invite_one :: "string \<Rightarrow> string \<Rightarrow> string \<Rightarrow> string \<Rightarrow> string \<Rightarrow> signaling \<Rightarrow> signaling" where
  "invite_one rid room host host_name ext s =
     (if ext = host then s
      else if get_user (sg_db s) ext = None then s
      else send_conference_invite rid room host host_name ext
             (with_conference (add_invite rid ext (display_name s ext)) s))"

definition conference_start :: "ws_tick \<Rightarrow> nat \<Rightarrow> string list \<Rightarrow> string option \<Rightarrow> signaling \<Rightarrow> signaling" where
  "conference_start tk k invite name s =
     (let invitees = filter (\<lambda>x. x \<noteq> []) (map trim invite); host = ext_of s k; host_name = display_name s host
      in case sg_conf s of None \<Rightarrow> s
         | Some c \<Rightarrow>
             (case create_room (tk_now tk) (tk_draws tk) host host_name name c of None \<Rightarrow> s
              | Some (r, c') \<Rightarrow>
                  (let s1 = with_conference (\<lambda>_. c') s;
                       s2 = ws_send k (Ws_Conf_Created (ro_id r) (conference_snapshot c' (ro_id r))) s1
                   in fold (invite_one (ro_id r) (ro_name r) host host_name) invitees s2)))"

definition conference_invite :: "nat \<Rightarrow> string \<Rightarrow> string \<Rightarrow> signaling \<Rightarrow> signaling" where
  "conference_invite k room_id target_ext s =
     (let rid = trim room_id; target = trim target_ext; me = ext_of s k
      in case sg_conf s of None \<Rightarrow> s
         | Some c \<Rightarrow>
             (case (if rid = [] then None else get_room c rid) of
                None \<Rightarrow> ws_send k (Ws_Conf_Error ''Unknown room or target'') s
              | Some r \<Rightarrow>
                  if target = [] then ws_send k (Ws_Conf_Error ''Unknown room or target'') s
                  else if \<not> m_has (ro_participants r) me then ws_send k (Ws_Conf_Error ''Not a member'') s
                  else if target = me \<or> get_user (sg_db s) target = None then s
                  else send_conference_invite rid (ro_name r) me (display_name s me) target
                         (with_conference (add_invite rid target (display_name s target)) s)))"

definition conference_leave :: "nat \<Rightarrow> string \<Rightarrow> signaling \<Rightarrow> signaling" where
  "conference_leave k room_id s =
     (let rid = trim room_id in if rid = [] then s else with_conference (mark_left rid (ext_of s k)) s)"

definition conference_roster :: "nat \<Rightarrow> string \<Rightarrow> signaling \<Rightarrow> signaling" where
  "conference_roster k room_id s =
     (let rid = trim room_id
      in case sg_conf s of None \<Rightarrow> s
         | Some c \<Rightarrow>
             (case (if rid = [] then None else conference_snapshot c rid) of
                Some snap \<Rightarrow> ws_send k (Ws_Conf_Roster rid snap) s
              | None \<Rightarrow> ws_send k (Ws_Conf_Closed rid) s))"

datatype conference_action =
    Conf_Start "string list" "string option"
  | Conf_Invite string string
  | Conf_Decline string
  | Conf_Leave string
  | Conf_Roster string
  | Conf_Unknown string

definition handle_conference :: "ws_tick \<Rightarrow> nat \<Rightarrow> conference_action \<Rightarrow> signaling \<Rightarrow> signaling" where
  "handle_conference tk k action = authenticated k (\<lambda>s.
     if sg_conf s = None then ws_send k (Ws_Conf_Error ''Conferencing unavailable'') s
     else (case action of
             Conf_Start invite name \<Rightarrow> conference_start tk k invite name s
           | Conf_Invite rid target \<Rightarrow> conference_invite k rid target s
           | Conf_Decline rid \<Rightarrow> conference_leave k rid s
           | Conf_Leave rid \<Rightarrow> conference_leave k rid s
           | Conf_Roster rid \<Rightarrow> conference_roster k rid s
           | Conf_Unknown a \<Rightarrow> ws_send k (Ws_Conf_Error (''Unknown action: '' @ a)) s))"

section \<open>Queues\<close>

text \<open>An operation of the queue registry, with the listener of its event.\<close>

definition with_queue :: "ws_tick \<Rightarrow> (queue_service \<Rightarrow> 'a \<times> queue_service) \<Rightarrow> queue_service \<Rightarrow> signaling \<Rightarrow> 'a \<times> signaling" where
  "with_queue tk f q s =
     (case f q of (r, q') \<Rightarrow>
        (r, fold (broadcast_queue_snapshot tk) (drop (length (qs_emitted q)) (qs_emitted q')) (s\<lparr>sg_queue := Some q'\<rparr>)))"

definition handle_subscribe_queues :: "ws_tick \<Rightarrow> nat \<Rightarrow> signaling \<Rightarrow> signaling" where
  "handle_subscribe_queues tk k = authenticated k (\<lambda>s.
     case sg_queue s of
       None \<Rightarrow> ws_send k (Ws_Queue_Error ''Queues unavailable'') s
     | Some q \<Rightarrow> ws_send k (Ws_Queue_All (snapshot_all (tk_now tk) q)) (s\<lparr>sg_queue_subs := sub_add k (sg_queue_subs s)\<rparr>))"

datatype queue_action = Q_Pause bool "string option" | Q_Snapshot "string option" | Q_Unknown string

definition queue_pause :: "ws_tick \<Rightarrow> nat \<Rightarrow> bool \<Rightarrow> string \<Rightarrow> queue_service \<Rightarrow> signaling \<Rightarrow> signaling" where
  "queue_pause tk k paused qid q s =
     (let ext = ext_of s k
      in case with_queue tk
                (if qid \<noteq> [] then (\<lambda>q. case set_agent_paused (tk_now tk) qid ext paused q of (b, q') \<Rightarrow> (if b then [qid] else [], q'))
                 else set_agent_paused_all (tk_now tk) ext paused) q s of
           (changed, s') \<Rightarrow> ws_send k (Ws_Agent_State ext paused changed) s')"

definition handle_queue :: "ws_tick \<Rightarrow> nat \<Rightarrow> queue_action \<Rightarrow> signaling \<Rightarrow> signaling" where
  "handle_queue tk k action = authenticated k (\<lambda>s.
     case sg_queue s of
       None \<Rightarrow> ws_send k (Ws_Queue_Error ''Queues unavailable'') s
     | Some q \<Rightarrow>
         (case action of
            Q_Pause paused qid \<Rightarrow> queue_pause tk k paused (trim (or_else qid [])) q s
          | Q_Snapshot qid \<Rightarrow>
              (let i = trim (or_else qid [])
               in if i = [] then ws_send k (Ws_Queue_All (snapshot_all (tk_now tk) q)) s
                  else (case snapshot (tk_now tk) q i of
                          Some snap \<Rightarrow> ws_send k (Ws_Queue i snap) s
                        | None \<Rightarrow> ws_send k (Ws_Queue_Error ''Unknown queue'') s))
          | Q_Unknown a \<Rightarrow> ws_send k (Ws_Queue_Error (''Unknown action: '' @ a)) s))"

section \<open>Messages and steps\<close>

datatype ws_input =
    In_Auth
  | In_Call string string string
  | In_Presence
  | In_Lookup string
  | In_Recording recording_action "string option" "string option"
  | In_Subscribe_Metrics
  | In_Unsubscribe_Metrics
  | In_Subscribe_Audit
  | In_Unsubscribe_Audit
  | In_Conference conference_action
  | In_Subscribe_Queues
  | In_Unsubscribe_Queues
  | In_Queue queue_action
  | In_Unknown string
  | In_Bad_Json

fun handle_message :: "ws_config \<Rightarrow> ws_tick \<Rightarrow> nat \<Rightarrow> ws_input \<Rightarrow> signaling \<Rightarrow> signaling" where
  "handle_message v tk k In_Auth s = handle_auth v k s"
| "handle_message v tk k (In_Call target action data) s = handle_call_signal k target action data s"
| "handle_message v tk k In_Presence s = handle_presence k s"
| "handle_message v tk k (In_Lookup target) s = handle_lookup k target s"
| "handle_message v tk k (In_Recording action call peer) s = handle_recording v tk k action call peer s"
| "handle_message v tk k In_Subscribe_Metrics s = handle_subscribe_metrics tk k s"
| "handle_message v tk k In_Unsubscribe_Metrics s = s\<lparr>sg_metrics_subs := sub_del k (sg_metrics_subs s)\<rparr>"
| "handle_message v tk k In_Subscribe_Audit s = handle_subscribe_audit tk k s"
| "handle_message v tk k In_Unsubscribe_Audit s = s\<lparr>sg_audit_subs := sub_del k (sg_audit_subs s)\<rparr>"
| "handle_message v tk k (In_Conference action) s = handle_conference tk k action s"
| "handle_message v tk k In_Subscribe_Queues s = handle_subscribe_queues tk k s"
| "handle_message v tk k In_Unsubscribe_Queues s = s\<lparr>sg_queue_subs := sub_del k (sg_queue_subs s)\<rparr>"
| "handle_message v tk k (In_Queue action) s = handle_queue tk k action s"
| "handle_message v tk k (In_Unknown t) s = ws_send k (Ws_Error (''Unknown type: '' @ t)) s"
| "handle_message v tk k In_Bad_Json s = ws_send k (Ws_Error ''Invalid JSON'') s"

end
