(* ===== verification/Signaling_Safety.thy ===== *)
theory Signaling_Safety
  imports Signaling
begin

text \<open>
  What the signalling server guarantees: who it talks to, that a message acts for its sender
  only, and that rosters follow the registry; and where presence goes wrong.
\<close>

section \<open>What a handler may change\<close>

definition audience :: "signaling \<Rightarrow> nat set" where
  "audience s = set (m_vals (sg_clients s)) \<union> set (sg_metrics_subs s) \<union> set (sg_audit_subs s) \<union> set (sg_queue_subs s)"

text \<open>
  A frame keeps clients, sockets and store, subscribes only sockets of \<open>A\<close>, and sends only to
  \<open>A\<close> and the audience, and only messages that \<open>Q\<close> admits.
\<close>

definition frame :: "nat set \<Rightarrow> (nat \<Rightarrow> ws_message \<Rightarrow> bool) \<Rightarrow> signaling \<Rightarrow> signaling \<Rightarrow> bool" where
  "frame A Q s s' \<longleftrightarrow> sg_sock s' = sg_sock s \<and> sg_clients s' = sg_clients s \<and> sg_db s' = sg_db s \<and>
     set (sg_metrics_subs s') \<subseteq> A \<union> set (sg_metrics_subs s) \<and> set (sg_audit_subs s') \<subseteq> A \<union> set (sg_audit_subs s) \<and>
     set (sg_queue_subs s') \<subseteq> A \<union> set (sg_queue_subs s) \<and>
     (\<exists>ms. sg_sent s' = sg_sent s @ ms \<and> (\<forall>(j, m)\<in>set ms. j \<in> A \<union> audience s \<and> Q j m))"

lemma frame_refl [simp]: "frame A Q s s"
  by (simp add: frame_def)

lemma frame_audience: "frame A Q s s' \<Longrightarrow> audience s' \<subseteq> A \<union> audience s"
  by (auto simp: frame_def audience_def)

lemma frame_clients: "frame A Q s s' \<Longrightarrow> sg_clients s' = sg_clients s"
  by (simp add: frame_def)

lemma frame_trans:
  assumes "frame A Q s t" "frame A Q t u"
  shows "frame A Q s u"
proof -
  from assms obtain ms ns where "sg_sent t = sg_sent s @ ms" "sg_sent u = sg_sent t @ ns"
    "\<forall>(j, m)\<in>set ms. j \<in> A \<union> audience s \<and> Q j m" "\<forall>(j, m)\<in>set ns. j \<in> A \<union> audience t \<and> Q j m"
    by (auto simp: frame_def)
  then have "sg_sent u = sg_sent s @ (ms @ ns) \<and> (\<forall>(j, m)\<in>set (ms @ ns). j \<in> A \<union> audience s \<and> Q j m)"
    using frame_audience [OF assms(1)] by auto
  moreover have "sg_sock u = sg_sock s \<and> sg_clients u = sg_clients s \<and> sg_db u = sg_db s"
    "set (sg_metrics_subs u) \<subseteq> A \<union> set (sg_metrics_subs s)" "set (sg_audit_subs u) \<subseteq> A \<union> set (sg_audit_subs s)"
    "set (sg_queue_subs u) \<subseteq> A \<union> set (sg_queue_subs s)"
    using assms by (auto simp: frame_def)
  ultimately show ?thesis unfolding frame_def by blast
qed

lemma frame_send: "frame A Q s t \<Longrightarrow> j \<in> A \<union> audience s \<Longrightarrow> Q j m \<Longrightarrow> frame A Q s (ws_send j m t)"
  by (auto simp: frame_def ws_send_def)

lemma frame_fold:
  assumes "\<And>x t. x \<in> set xs \<Longrightarrow> frame A Q s t \<Longrightarrow> frame A Q s (f x t)"
  shows "frame A Q s t \<Longrightarrow> frame A Q s (fold f xs t)"
  using assms by (induction xs arbitrary: t) simp_all

text \<open>Changes of the fields that a frame leaves free.\<close>

lemma frame_fields [simp]:
  "frame A Q s (s\<lparr>sg_conf := c\<rparr>)" "frame A Q s (s\<lparr>sg_queue := q\<rparr>)" "frame A Q s (s\<lparr>sg_files := f\<rparr>)"
  "frame A Q s (s\<lparr>sg_open := os\<rparr>)"
  "frame A Q s (s\<lparr>sg_metrics_subs := sub_del k (sg_metrics_subs s)\<rparr>)"
  "frame A Q s (s\<lparr>sg_audit_subs := sub_del k (sg_audit_subs s)\<rparr>)"
  "frame A Q s (s\<lparr>sg_queue_subs := sub_del k (sg_queue_subs s)\<rparr>)"
  "k \<in> A \<Longrightarrow> frame A Q s (s\<lparr>sg_metrics_subs := sub_add k (sg_metrics_subs s)\<rparr>)"
  "k \<in> A \<Longrightarrow> frame A Q s (s\<lparr>sg_audit_subs := sub_add k (sg_audit_subs s)\<rparr>)"
  "k \<in> A \<Longrightarrow> frame A Q s (s\<lparr>sg_queue_subs := sub_add k (sg_queue_subs s)\<rparr>)"
  by (auto simp: frame_def sub_del_def sub_add_def)

lemma client_audience: "m_get (sg_clients s) ext = Some k \<Longrightarrow> k \<in> audience s"
  by (auto simp: audience_def dest: m_get_mem)

text \<open>Every handler, for any admission that lets all but call events pass.\<close>

locale speech =
  fixes A :: "nat set" and Q :: "nat \<Rightarrow> ws_message \<Rightarrow> bool"
  assumes other: "(\<And>ev fs. m \<noteq> Ws_Call_Event ev fs) \<Longrightarrow> Q j m"
begin

lemma to_ext: "frame A Q s t \<Longrightarrow> (\<And>ev fs. m \<noteq> Ws_Call_Event ev fs) \<Longrightarrow> frame A Q s (send_to_ext ext m t)"
  using frame_clients [of A Q s t] by (auto simp: send_to_ext_def split: option.split intro!: frame_send other dest: client_audience)

lemma presence: "frame A Q s (broadcast_presence s)"
  unfolding broadcast_presence_def
  by (rule frame_fold) (force simp: audience_def intro!: frame_send other, simp)

lemma roster: "frame A Q s t \<Longrightarrow> frame A Q s (broadcast_conference_roster rid t)"
  unfolding broadcast_conference_roster_def
  by (auto split: option.split intro!: frame_fold to_ext)

lemma closed: "frame A Q s t \<Longrightarrow> frame A Q s (broadcast_conference_closed rid ps t)"
  unfolding broadcast_conference_closed_def by (auto intro!: frame_fold to_ext)

lemma conference_event: "frame A Q s t \<Longrightarrow> frame A Q s (conference_event e t)"
  by (cases e) (simp_all add: roster closed)

lemma conference: "frame A Q s t \<Longrightarrow> frame A Q s (with_conference f t)"
  unfolding with_conference_def
  by (auto split: option.split intro!: frame_fold conference_event intro: frame_trans)

lemma queue_snapshot: "frame A Q s t \<Longrightarrow> frame A Q s (broadcast_queue_snapshot tk qid t)"
  unfolding broadcast_queue_snapshot_def
  by (rule frame_trans) (auto split: option.split intro!: frame_fold frame_send other simp: audience_def)

lemma queue: "frame A Q s t \<Longrightarrow> frame A Q s (snd (with_queue tk f q t))"
  unfolding with_queue_def
  by (auto simp: split_beta intro!: frame_fold queue_snapshot intro: frame_trans)

end

text \<open>Call events of one sender carry its extension, or are answers to itself.\<close>

definition says :: "nat \<Rightarrow> string \<Rightarrow> nat \<Rightarrow> ws_message \<Rightarrow> bool" where
  "says k e j m \<longleftrightarrow> (case m of Ws_Call_Event ev fs \<Rightarrow> j = k \<or> (''from'', e) \<in> set fs | _ \<Rightarrow> True)"

interpretation own: speech "{k}" "says k e" for k e
  by unfold_locales (auto simp: says_def split: ws_message.split)

interpretation free: speech "{}" "\<lambda>_ _. True"
  by unfold_locales simp

abbreviation own_frame :: "nat \<Rightarrow> string \<Rightarrow> signaling \<Rightarrow> signaling \<Rightarrow> bool" where
  "own_frame k e \<equiv> frame {k} (says k e)"

lemma says_simps [simp]: "says k e k m" "says k e j (Ws_Call_Event ev fs) \<longleftrightarrow> j = k \<or> (''from'', e) \<in> set fs"
  by (simp_all add: says_def split: ws_message.split)

lemma own_send [intro]: "own_frame k e s t \<Longrightarrow> own_frame k e s (ws_send k m t)"
  by (rule frame_send) simp_all

lemma own_sets [intro]:
  "own_frame k e s t \<Longrightarrow> own_frame k e s (t\<lparr>sg_metrics_subs := sub_add k (sg_metrics_subs t)\<rparr>)"
  "own_frame k e s t \<Longrightarrow> own_frame k e s (t\<lparr>sg_audit_subs := sub_add k (sg_audit_subs t)\<rparr>)"
  "own_frame k e s t \<Longrightarrow> own_frame k e s (t\<lparr>sg_queue_subs := sub_add k (sg_queue_subs t)\<rparr>)"
  "own_frame k e s t \<Longrightarrow> own_frame k e s (t\<lparr>sg_files := f\<rparr>)"
  by (erule frame_trans, simp)+

lemma own_call_signal: "own_frame k (ext_of s k) s (handle_call_signal k target action data s)"
  by (auto simp: handle_call_signal_def authenticated_def split: option.split intro!: frame_send dest: client_audience)

lemma own_tell_peer: "own_frame k (ext_of s k) s (tell_peer k peer event call s)"
  by (auto simp: tell_peer_def split: option.split intro!: frame_send dest: client_audience)

lemma own_recording: "own_frame k (ext_of s k) s (handle_recording v tk k action call peer s)"
  by (auto simp: handle_recording_def authenticated_def save_recording_def Let_def own_tell_peer
      split: recording_action.split option.split)

lemma own_conference_start: "own_frame k e s (conference_start tk k invite name s)"
  by (auto simp: conference_start_def invite_one_def send_conference_invite_def Let_def split: option.split
      intro!: frame_fold own.to_ext own.conference)

lemma own_conference_invite: "own_frame k e s (conference_invite k rid target s)"
  by (auto simp: conference_invite_def send_conference_invite_def Let_def split: option.split
      intro!: own.to_ext own.conference)

lemma own_conference: "own_frame k e s (handle_conference tk k action s)"
  by (auto simp: handle_conference_def authenticated_def own_conference_start own_conference_invite conference_leave_def
      conference_roster_def Let_def split: conference_action.split option.split intro!: own.conference)

lemma own_queue: "own_frame k e s (handle_queue tk k action s)"
  by (auto simp: handle_queue_def authenticated_def queue_pause_def Let_def split_beta
      split: queue_action.split option.split intro!: own.queue)

lemma message_frame:
  assumes "wc_authenticated (sg_sock s k)"
  shows "own_frame k (ext_of s k) s (handle_message v tk k i s)"
  using assms
  by (cases i) (auto simp: handle_auth_def send_registered_def Let_def own_call_signal handle_presence_def handle_lookup_def
      authenticated_def own_recording handle_subscribe_metrics_def handle_subscribe_audit_def own_conference
      handle_subscribe_queues_def own_queue split: option.split)

section \<open>Steps\<close>

text \<open>
  Sockets connect, send, begin to close, fail and close; the process pushes metrics, audit
  entries and call events; the SIP side works on the registries; the store changes.
\<close>

inductive signal_step :: "ws_config \<Rightarrow> signaling \<Rightarrow> signaling \<Rightarrow> bool" for v where
  connect: "sg_sock s k = no_client \<Longrightarrow> k \<notin> set (sg_open s) \<Longrightarrow> signal_step v s (on_connection v k origin cookie s)"
| receive: "wc_authenticated (sg_sock s k) \<Longrightarrow> signal_step v s (handle_message v tk k i s)"
| closing: "signal_step v s (s\<lparr>sg_open := sub_del k (sg_open s)\<rparr>)"
| error: "wc_authenticated (sg_sock s k) \<Longrightarrow> signal_step v s (on_error k s)"
| close: "wc_authenticated (sg_sock s k) \<Longrightarrow> signal_step v s (on_close k s)"
| metrics: "signal_step v s (broadcast_metrics m s)"
| audit: "signal_step v s (broadcast_audit_entry e s)"
| notify: "signal_step v s (notify_call_event ext event data s)"
| conference: "signal_step v s (with_conference f s)"
| queue: "sg_queue s = Some q \<Longrightarrow> signal_step v s (snd (with_queue tk (\<lambda>q. ((), g q)) q s))"
| store: "signal_step v s (s\<lparr>sg_db := d\<rparr>)"

inductive signal_reach :: "ws_config \<Rightarrow> signaling \<Rightarrow> bool" for v where
  start: "signal_reach v (new_signaling d c q)"
| step: "signal_reach v s \<Longrightarrow> signal_step v s s' \<Longrightarrow> signal_reach v s'"

definition token_of :: "ws_config \<Rightarrow> string \<Rightarrow> bool" where
  "token_of v ext \<longleftrightarrow> (\<exists>token c. verify_access_token (wf_verify v) token = Some c \<and> jc_extension c = ext)"

definition signal_ok :: "ws_config \<Rightarrow> signaling \<Rightarrow> bool" where
  "signal_ok v s \<longleftrightarrow> m_ok (sg_clients s) \<and>
     (\<forall>ext k. m_get (sg_clients s) ext = Some k \<longrightarrow> ext_of s k = ext) \<and>
     (\<forall>k. wc_authenticated (sg_sock s k) \<longrightarrow> token_of v (ext_of s k)) \<and>
     (\<forall>k\<in>audience s. wc_authenticated (sg_sock s k)) \<and>
     (\<forall>(k, m)\<in>set (sg_sent s). m = Ws_Error ''Unauthorized'' \<or> wc_authenticated (sg_sock s k))"

lemma ok_frame:
  assumes "frame A Q s s'" "signal_ok v s" "\<forall>k\<in>A. wc_authenticated (sg_sock s k)"
  shows "signal_ok v s'"
proof -
  from assms(1) obtain ms where "sg_sent s' = sg_sent s @ ms" "\<forall>(j, m)\<in>set ms. j \<in> A \<union> audience s \<and> Q j m"
    "sg_sock s' = sg_sock s" "sg_clients s' = sg_clients s" by (auto simp: frame_def)
  with assms(2,3) frame_audience [OF assms(1)] show ?thesis
    unfolding signal_ok_def by (fastforce split: prod.splits)
qed

lemma ok_free: "frame {} Q s s' \<Longrightarrow> signal_ok v s \<Longrightarrow> signal_ok v s'"
  by (erule ok_frame) simp_all

lemma ok_open: "signal_ok v s \<Longrightarrow> signal_ok v (s\<lparr>sg_open := os\<rparr>)"
  by (simp add: signal_ok_def audience_def)

lemma vals_del: "set (m_vals (m_del k m)) \<subseteq> set (m_vals m)"
  by (auto simp: AList.delete_eq)

lemma vals_set: "m_ok m \<Longrightarrow> set (m_vals (m_set k v m)) \<subseteq> insert v (set (m_vals m))"
proof
  fix x assume m: "m_ok m" and x: "x \<in> set (m_vals (m_set k v m))"
  then obtain j where "m_get (m_set k v m) j = Some x" by (metis m_vals_get m_ok_set)
  then show "x \<in> insert v (set (m_vals m))" by (auto simp: js.get_put dest: m_get_mem split: if_splits)
qed

lemma ok_shrink:
  assumes "signal_ok v s" "m_ok (sg_clients t)" "audience t \<subseteq> audience s" "sg_sock t = sg_sock s" "sg_sent t = sg_sent s"
    and "\<And>ext k. m_get (sg_clients t) ext = Some k \<Longrightarrow> m_get (sg_clients s) ext = Some k"
  shows "signal_ok v t"
  unfolding signal_ok_def using assms(1)[unfolded signal_ok_def] assms(2-6) by (auto simp del: map_of_eq_Some_iff)

lemma forget_fields [simp]:
  "sg_sock (forget_client k s) = sg_sock s" "sg_sent (forget_client k s) = sg_sent s" "sg_open (forget_client k s) = sg_open s"
  "sg_clients (forget_client k s) = (if ext_of s k \<noteq> [] then m_del (ext_of s k) (sg_clients s) else sg_clients s)"
  by (simp_all add: forget_client_def)

lemma ok_forget:
  assumes "signal_ok v s"
  shows "signal_ok v (forget_client k s)"
proof (rule ok_shrink [OF assms])
  show "audience (forget_client k s) \<subseteq> audience s"
    using vals_del [of "ext_of s k" "sg_clients s"] by (auto simp: audience_def forget_client_def sub_del_def)
  show "m_get (sg_clients s) ext = Some j" if "m_get (sg_clients (forget_client k s)) ext = Some j" for ext j
    using that by (simp add: js.get_del split: if_splits)
qed (use assms in \<open>simp_all add: signal_ok_def\<close>)

text \<open>A socket that authenticates.\<close>

lemma ok_login:
  assumes "signal_ok v s" "verify_access_token (wf_verify v) token = Some c" "\<not> wc_authenticated (sg_sock s k)"
  shows "signal_ok v (s\<lparr>sg_sock := (sg_sock s)(k := \<lparr>wc_extension = jc_extension c, wc_username = u, wc_authenticated = True,
      wc_user = i\<rparr>), sg_clients := m_set (jc_extension c) k (sg_clients s)\<rparr>)"
proof -
  let ?s = "s\<lparr>sg_sock := (sg_sock s)(k := \<lparr>wc_extension = jc_extension c, wc_username = u, wc_authenticated = True,
      wc_user = i\<rparr>), sg_clients := m_set (jc_extension c) k (sg_clients s)\<rparr>"
  have old: "j \<noteq> k" if "j \<in> audience s" for j using assms(1,3) that by (auto simp: signal_ok_def)
  have "audience ?s \<subseteq> insert k (audience s)"
    using vals_set [of "sg_clients s" "jc_extension c" k] assms(1) by (auto simp: audience_def signal_ok_def)
  moreover have "ext_of ?s j = ext" if "m_get (sg_clients ?s) ext = Some j" for ext j
  proof (cases "ext = jc_extension c")
    case False
    with that have "m_get (sg_clients s) ext = Some j" by (simp add: js.get_put)
    with old [OF client_audience] assms(1) show ?thesis by (auto simp: signal_ok_def simp del: map_of_eq_Some_iff)
  qed (use that in simp)
  moreover have "token_of v (jc_extension c)" using assms(2) by (auto simp: token_of_def)
  moreover from calculation(1) have "wc_authenticated (sg_sock ?s j)" if "j \<in> audience ?s" for j
    using subsetD [OF _ that, of "insert k (audience s)"] assms(1) by (auto simp: signal_ok_def)
  moreover have "m_ok (sg_clients ?s)" using assms(1) by (simp add: signal_ok_def)
  moreover have "m = Ws_Error ''Unauthorized'' \<or> wc_authenticated (sg_sock ?s j)" if "(j, m) \<in> set (sg_sent ?s)" for j m
    using that assms(1) by (auto simp: signal_ok_def)
  moreover have "token_of v (ext_of ?s j)" if "wc_authenticated (sg_sock ?s j)" for j
    using that calculation(3) assms(1) by (auto simp: signal_ok_def)
  ultimately show ?thesis unfolding signal_ok_def by blast
qed

lemma ok_authenticate:
  assumes "signal_ok v s" "verify_access_token (wf_verify v) token = Some c" "\<not> wc_authenticated (sg_sock s k)"
  shows "signal_ok v (authenticate_client v k c s)"
proof -
  let ?s = "s\<lparr>sg_sock := (sg_sock s)(k := \<lparr>wc_extension = jc_extension c,
      wc_username = str_or (map_option su_username (get_user (sg_db s) (jc_extension c))) (jc_extension c),
      wc_authenticated = True, wc_user = Some (jc_user_id c)\<rparr>), sg_clients := m_set (jc_extension c) k (sg_clients s)\<rparr>"
  have ok: "signal_ok v ?s" using ok_login [OF assms] .
  have "k \<in> audience ?s" by (rule client_audience [where ext = "jc_extension c"]) simp
  then have "frame {} (\<lambda>_ _. True) ?s (send_registered v k ?s)"
    by (auto simp: send_registered_def Let_def intro!: frame_send)
  from ok_free [OF free.presence ok_free [OF this ok]] show ?thesis
    by (simp add: authenticate_client_def Let_def)
qed

lemma ok_connection:
  assumes "signal_ok v s" "sg_sock s k = no_client"
  shows "signal_ok v (on_connection v k origin cookie s)"
proof -
  let ?s = "s\<lparr>sg_open := sub_add k (sg_open s), sg_sock := (sg_sock s)(k := no_client)\<rparr>"
  have eq: "?s = s\<lparr>sg_open := sub_add k (sg_open s)\<rparr>" using assms(2) by (simp add: fun_upd_idem)
  have ok: "signal_ok v ?s" unfolding eq using assms(1) by (rule ok_open)
  have un: "signal_ok v (ws_send k (Ws_Error ''Unauthorized'') ?s)"
    using ok by (auto simp: ws_send_def signal_ok_def audience_def)
  show ?thesis
    using assms(1) ok_authenticate [OF ok] ok_open [OF un]
    by (auto simp: on_connection_def no_client_def Let_def split: option.split)
qed

lemma ok_message: "signal_ok v s \<Longrightarrow> wc_authenticated (sg_sock s k) \<Longrightarrow> signal_ok v (handle_message v tk k i s)"
  by (rule ok_frame [OF message_frame]) simp_all

lemma ok_pushes:
  "signal_ok v s \<Longrightarrow> signal_ok v (broadcast_metrics m s)" "signal_ok v s \<Longrightarrow> signal_ok v (broadcast_audit_entry e s)"
  "signal_ok v s \<Longrightarrow> signal_ok v (notify_call_event ext event data s)"
proof -
  have "frame {} (\<lambda>_ _. True) s (broadcast_metrics m s)" unfolding broadcast_metrics_def
    by (rule frame_fold) (auto simp: audience_def intro!: frame_send intro: frame_trans)
  then show "signal_ok v s \<Longrightarrow> signal_ok v (broadcast_metrics m s)" by (rule ok_free)
  have "frame {} (\<lambda>_ _. True) s (broadcast_audit_entry e s)" unfolding broadcast_audit_entry_def
    by (rule frame_fold) (auto simp: audience_def intro!: frame_send intro: frame_trans)
  then show "signal_ok v s \<Longrightarrow> signal_ok v (broadcast_audit_entry e s)" by (rule ok_free)
  have "frame {} (\<lambda>_ _. True) s (notify_call_event ext event data s)"
    by (auto simp: notify_call_event_def send_to_ext_def split: option.split intro!: frame_send dest: client_audience)
  then show "signal_ok v s \<Longrightarrow> signal_ok v (notify_call_event ext event data s)" by (rule ok_free)
qed

lemma ok_step: "signal_step v s s' \<Longrightarrow> signal_ok v s \<Longrightarrow> signal_ok v s'"
proof (induction rule: signal_step.induct)
  case (close s k)
  show ?case unfolding on_close_def
    by (rule ok_free [OF free.presence ok_forget [OF ok_open [OF close.prems]]])
next
  case (store s d)
  then show ?case by (simp add: signal_ok_def audience_def)
qed (simp_all add: ok_connection ok_message ok_open ok_pushes on_error_def ok_forget
      ok_free [OF free.conference [OF frame_refl]] ok_free [OF free.queue [OF frame_refl]])

lemma reach_ok: "signal_reach v s \<Longrightarrow> signal_ok v s"
proof (induction rule: signal_reach.induct)
  case (start d c q)
  show ?case by (simp add: signal_ok_def new_signaling_def audience_def no_client_def)
qed (rule ok_step)


section \<open>A message acts for its sender\<close>

lemma fold_keeps: "(\<And>x t. g (f x t) = g t) \<Longrightarrow> g (fold f xs s) = g s"
  by (induction xs arbitrary: s) simp_all

lemma send_fields [simp]:
  "sg_conf (ws_send k m s) = sg_conf s" "sg_queue (ws_send k m s) = sg_queue s" "sg_files (ws_send k m s) = sg_files s"
  "sg_db (ws_send k m s) = sg_db s" "sg_open (ws_send k m s) = sg_open s" "sg_clients (ws_send k m s) = sg_clients s"
  "sg_sock (ws_send k m s) = sg_sock s"
  by (simp_all add: ws_send_def)

definition registries :: "signaling \<Rightarrow> conferences option \<times> queue_service option \<times> (string, string) js_map" where
  "registries s = (sg_conf s, sg_queue s, sg_files s)"

lemma registries_send [simp]:
  "registries (ws_send k m s) = registries s" "registries (send_to_ext ext m s) = registries s"
  by (simp_all add: registries_def send_to_ext_def split: option.split)

lemma registries_casts [simp]:
  "registries (broadcast_conference_roster rid s) = registries s"
  "registries (broadcast_conference_closed rid ps s) = registries s"
  "registries (broadcast_queue_snapshot tk qid s) = registries s"
  by (auto simp: broadcast_conference_roster_def broadcast_conference_closed_def broadcast_queue_snapshot_def
      split: option.split intro!: fold_keeps)

lemma registries_event [simp]: "registries (conference_event e s) = registries s"
  by (cases e) simp_all

lemma registries_conference:
  "registries (with_conference f s) = (map_option f (sg_conf s), sg_queue s, sg_files s)"
proof -
  have "registries (fold conference_event es t) = registries t" for es t by (rule fold_keeps) simp
  then show ?thesis by (simp add: with_conference_def registries_def split: option.split)
qed

lemma registries_queue:
  "registries (snd (with_queue tk f q s)) = (sg_conf s, Some (snd (f q)), sg_files s)"
proof -
  have "registries (fold (broadcast_queue_snapshot tk) es t) = registries t" for es t by (rule fold_keeps) simp
  then show ?thesis by (simp add: with_queue_def registries_def split_beta)
qed

text \<open>Who has joined a room, and an agent of a queue.\<close>

definition has_joined :: "conferences option \<Rightarrow> string \<Rightarrow> string \<Rightarrow> bool" where
  "has_joined c rid e \<longleftrightarrow> (\<exists>x r p. c = Some x \<and> get_room x rid = Some r \<and> m_get (ro_participants r) e = Some p \<and> cp_state p = PJoined)"

definition agent_in :: "queue_service option \<Rightarrow> string \<Rightarrow> string \<Rightarrow> agent option" where
  "agent_in q qid e = (case q of None \<Rightarrow> None
     | Some x \<Rightarrow> (case get_queue x qid of None \<Rightarrow> None | Some u \<Rightarrow> m_get (qu_agents u) e))"

definition callers_in :: "queue_service option \<Rightarrow> string \<Rightarrow> (string, caller) js_map option" where
  "callers_in q qid = (case q of None \<Rightarrow> None | Some x \<Rightarrow> map_option qu_callers (get_queue x qid))"

text \<open>What a message of the extension \<open>e\<close> leaves alone.\<close>

definition spares :: "string \<Rightarrow> signaling \<Rightarrow> signaling \<Rightarrow> bool" where
  "spares e s s' \<longleftrightarrow>
     (\<forall>rid x. x \<noteq> e \<and> has_joined (sg_conf s) rid x \<longrightarrow> has_joined (sg_conf s') rid x) \<and>
     (\<forall>qid x. x \<noteq> e \<longrightarrow> agent_in (sg_queue s') qid x = agent_in (sg_queue s) qid x) \<and>
     (\<forall>qid. callers_in (sg_queue s') qid = callers_in (sg_queue s) qid) \<and>
     (\<forall>path. m_get (sg_files s') path \<noteq> m_get (sg_files s) path \<longrightarrow> prefix (e @ ''/'') path)"

lemma spares_trans: "spares e s t \<Longrightarrow> spares e t u \<Longrightarrow> spares e s u"
  unfolding spares_def by metis

lemma spares_same: "registries s = registries s' \<Longrightarrow> spares e s s'"
  by (simp add: spares_def registries_def)

lemma spares_send [simp]: "spares e s (ws_send k m t) \<longleftrightarrow> spares e s t"
  by (simp add: spares_def)

lemma spares_to_ext [simp]: "spares e s (send_to_ext ext m t) \<longleftrightarrow> spares e s t"
  using registries_send(2) [of ext m t] by (simp add: spares_def registries_def)

definition keeps_joined :: "string \<Rightarrow> conferences \<Rightarrow> conferences \<Rightarrow> bool" where
  "keeps_joined e c c' \<longleftrightarrow> (\<forall>rid x. x \<noteq> e \<and> has_joined (Some c) rid x \<longrightarrow> has_joined (Some c') rid x)"

lemma spares_conference:
  assumes "spares e s t" "\<And>c. sg_conf t = Some c \<Longrightarrow> keeps_joined e c (f c)"
  shows "spares e s (with_conference f t)"
proof (rule spares_trans [OF assms(1)])
  show "spares e t (with_conference f t)"
    using registries_conference [of f t] assms(2)
    by (cases "sg_conf t") (auto simp: spares_def registries_def keeps_joined_def)
qed

lemma joined_invite: "keeps_joined e c (add_invite rid ext name c)"
  by (auto simp: keeps_joined_def has_joined_def add_invite_def put_room_def put_participant_def get_room_def Let_def js.get_put
      split: option.splits)

lemma joined_left: "keeps_joined e c (mark_left rid e c)"
proof -
  have act: "still_active (r\<lparr>ro_participants := m_del e (ro_participants r)\<rparr>)"
    if "m_get (ro_participants r) x = Some p" "cp_state p = PJoined" "x \<noteq> e" for r x p
  proof -
    have "m_get (m_del e (ro_participants r)) x = Some p" using that by (simp add: js.get_del)
    from m_get_mem [OF this] that(2) show ?thesis by (auto simp: still_active_def list_ex_iff)
  qed
  show ?thesis
    by (auto simp: keeps_joined_def has_joined_def mark_left_def put_room_def drop_room_def get_room_def Let_def js.get_put js.get_del
        dest: act split: option.splits)
qed

lemma joined_create: "create_room now draws h hn name c = Some (r, c') \<Longrightarrow> keeps_joined e c c'"
  by (auto simp: keeps_joined_def has_joined_def create_room_def generate_id_def put_room_def get_room_def Let_def js.get_put m_has_def
      split: option.splits dest!: find_SomeD)

lemma pause_spares:
  "x \<noteq> e \<Longrightarrow> agent_in (Some (snd (set_agent_paused now qid e b q))) i x = agent_in (Some q) i x"
  "callers_in (Some (snd (set_agent_paused now qid e b q))) i = callers_in (Some q) i"
  by (auto simp: agent_in_def callers_in_def set_agent_paused_def put_queue_def put_agent_def get_queue_def Let_def js.get_put
      split: option.splits)

lemma pause_each_spares:
  "x \<noteq> e \<Longrightarrow> agent_in (Some (snd (pause_each now e b qids q))) i x = agent_in (Some q) i x"
  "callers_in (Some (snd (pause_each now e b qids q))) i = callers_in (Some q) i"
  by (induction qids arbitrary: q) (simp_all add: split_beta pause_spares)

lemma spares_queue:
  assumes "sg_queue s = Some q"
    "\<And>i x. x \<noteq> e \<Longrightarrow> agent_in (Some (snd (f q))) i x = agent_in (Some q) i x"
    "\<And>i. callers_in (Some (snd (f q))) i = callers_in (Some q) i"
  shows "spares e s (snd (with_queue tk f q s))"
  using registries_queue [of tk f q s] assms by (simp add: spares_def registries_def)

lemma spares_fold:
  assumes "\<And>x t. spares e s t \<Longrightarrow> spares e s (f x t)"
  shows "spares e s t \<Longrightarrow> spares e s (fold f xs t)"
  using assms by (induction xs arbitrary: t) simp_all

lemma spares_refl [simp]: "spares e s s"
  by (simp add: spares_same)

lemma spares_invite: "spares e s t \<Longrightarrow> spares e s (with_conference (add_invite rid x n) t)"
  by (rule spares_conference) (simp_all add: joined_invite)

lemma spares_conference_start: "spares e s (conference_start tk k invite name s)"
proof -
  have one: "spares e s t \<Longrightarrow> spares e s (invite_one rid r h hn x t)" for rid r h hn x t
    by (simp add: invite_one_def send_conference_invite_def spares_invite)
  have "spares e s (with_conference (\<lambda>_. c') s)" if "create_room now draws h hn name c = Some (r, c')" "sg_conf s = Some c" for now draws h hn c r c'
    using that by (intro spares_conference) (auto simp: joined_create)
  with one show ?thesis
    by (auto simp: conference_start_def Let_def split: option.split intro!: spares_fold)
qed

lemma spares_conference_invite: "spares e s (conference_invite k rid target s)"
  by (auto simp: conference_invite_def send_conference_invite_def Let_def split: option.split intro!: spares_invite)

lemma spares_leave: "spares (ext_of s k) s (conference_leave k rid s)"
  by (auto simp: conference_leave_def Let_def intro!: spares_conference joined_left)

lemma spares_handle_conference: "spares (ext_of s k) s (handle_conference tk k action s)"
  by (auto simp: handle_conference_def authenticated_def conference_roster_def Let_def spares_conference_start
      spares_conference_invite spares_leave split: conference_action.split option.split)

lemma spares_handle_queue: "spares (ext_of s k) s (handle_queue tk k action s)"
  by (auto simp: handle_queue_def authenticated_def queue_pause_def Let_def split_beta set_agent_paused_all_def pause_spares
      pause_each_spares split: queue_action.split option.split intro!: spares_queue)

lemma prefix_path: "prefix (e @ ''/'') (recording_path tk e x)"
  by (simp add: recording_path_def Let_def)

lemma spares_recording: "spares (ext_of s k) s (handle_recording v tk k action call peer s)"
  using prefix_path [of "ext_of s k" tk]
  by (auto simp: handle_recording_def authenticated_def save_recording_def tell_peer_def Let_def spares_def js.get_put
      split: recording_action.split option.split)

lemma spares_subs [simp]:
  "spares e s (s\<lparr>sg_metrics_subs := ks\<rparr>)" "spares e s (s\<lparr>sg_audit_subs := ks\<rparr>)" "spares e s (s\<lparr>sg_queue_subs := ks\<rparr>)"
  "spares e s (s\<lparr>sg_open := ks\<rparr>)"
  by (simp_all add: spares_same registries_def)

lemma message_spares:
  assumes "wc_authenticated (sg_sock s k)"
  shows "spares (ext_of s k) s (handle_message v tk k i s)"
  using assms
  by (cases i) (auto simp: handle_auth_def send_registered_def handle_call_signal_def handle_presence_def handle_lookup_def
      authenticated_def handle_subscribe_metrics_def handle_subscribe_audit_def handle_subscribe_queues_def Let_def
      spares_recording spares_handle_conference spares_handle_queue split: option.split)

text \<open>C26: a message acts for its sender. Whatever a client sends, the call events that go out to others name the
  extension of its token as their origin; no other participant who joined a conference is put out of it, no
  other agent of a queue and no waiting caller changes, and a recording is stored under the client's own
  extension.\<close>

theorem messages_speak_for_sender:
  assumes "signal_reach v s" "wc_authenticated (sg_sock s k)"
  shows "case (ext_of s k, handle_message v tk k i s) of (me, s') \<Rightarrow>
    token_of v me \<and>
    (\<exists>ms. sg_sent s' = sg_sent s @ ms \<and> (\<forall>(j, m)\<in>set ms. \<forall>ev fs. m = Ws_Call_Event ev fs \<and> j \<noteq> k \<longrightarrow> (''from'', me) \<in> set fs)) \<and>
    (\<forall>rid x. x \<noteq> me \<and> has_joined (sg_conf s) rid x \<longrightarrow> has_joined (sg_conf s') rid x) \<and>
    (\<forall>qid x. x \<noteq> me \<longrightarrow> agent_in (sg_queue s') qid x = agent_in (sg_queue s) qid x) \<and>
    (\<forall>qid. callers_in (sg_queue s') qid = callers_in (sg_queue s) qid) \<and>
    (\<forall>path. m_get (sg_files s') path \<noteq> m_get (sg_files s) path \<longrightarrow> prefix (me @ ''/'') path)"
proof -
  from message_frame [OF assms(2), of v tk i] obtain ms where
    "sg_sent (handle_message v tk k i s) = sg_sent s @ ms"
    "\<forall>(j, m)\<in>set ms. j \<in> {k} \<union> audience s \<and> says k (ext_of s k) j m"
    unfolding frame_def by blast
  then have "\<exists>ms. sg_sent (handle_message v tk k i s) = sg_sent s @ ms \<and>
      (\<forall>(j, m)\<in>set ms. \<forall>ev fs. m = Ws_Call_Event ev fs \<and> j \<noteq> k \<longrightarrow> (''from'', ext_of s k) \<in> set fs)"
    by (intro exI [of _ ms]) auto
  with message_spares [OF assms(2), of v tk i] reach_ok [OF assms(1)] assms(2) show ?thesis
    by (simp add: spares_def signal_ok_def)
qed

section \<open>Rosters\<close>

lemma roster_reaches:
  assumes "sg_conf s = Some c" "get_room c rid = Some r" "conference_snapshot c rid = Some snap"
    and "m_has (ro_participants r) ext" "m_get (sg_clients s) ext = Some k" "reachable s k"
  shows "(k, Ws_Conf_Roster rid snap) \<in> set (sg_sent (broadcast_conference_roster rid s))"
proof -
  let ?f = "\<lambda>ext t. send_to_ext ext (Ws_Conf_Roster rid snap) t"
  have keep: "sg_clients (?f x t) = sg_clients t" "sg_sock (?f x t) = sg_sock t" "sg_open (?f x t) = sg_open t"
    "(j, m) \<in> set (sg_sent t) \<Longrightarrow> (j, m) \<in> set (sg_sent (?f x t))" for x t j m
    by (auto simp: send_to_ext_def ws_send_def split: option.split)
  have "(k, Ws_Conf_Roster rid snap) \<in> set (sg_sent (fold ?f xs t))"
    if "ext \<in> set xs \<or> (k, Ws_Conf_Roster rid snap) \<in> set (sg_sent t)" "m_get (sg_clients t) ext = Some k" "reachable t k" for xs t
    using that
  proof (induction xs arbitrary: t)
    case (Cons x xs)
    have "(k, Ws_Conf_Roster rid snap) \<in> set (sg_sent (?f ext t))"
      using Cons.prems(2,3) by (simp add: send_to_ext_def ws_send_def reachable_def)
    with Cons.prems keep(4) have "ext \<in> set xs \<or> (k, Ws_Conf_Roster rid snap) \<in> set (sg_sent (?f x t))" by auto
    from Cons.IH [OF this] Cons.prems(2,3) show ?case by (simp add: keep reachable_def)
  qed simp
  from this [of "m_keys (ro_participants r)" s] assms show ?thesis
    by (simp add: broadcast_conference_roster_def m_has_keys)
qed

text \<open>Everyone in a conference sees the same roster. After any operation of the registry that reports a room as
  updated, on whichever side it was made, every participant of the room who is connected has been
  sent the roster as it now is.\<close>

theorem rosters_follow_registry:
  assumes "sg_conf s = Some c" "cs_emitted (f c) = cs_emitted c @ [Updated rid]"
    and "get_room (f c) rid = Some r" "m_has (ro_participants r) ext" "m_get (sg_clients s) ext = Some k" "reachable s k"
  shows "\<exists>snap. conference_snapshot (f c) rid = Some snap \<and>
    (k, Ws_Conf_Roster rid snap) \<in> set (sg_sent (with_conference f s))"
proof -
  obtain snap where snap: "conference_snapshot (f c) rid = Some snap"
    using assms(3) by (simp add: conference_snapshot_def)
  have "reachable (s\<lparr>sg_conf := Some (f c)\<rparr>) k" using assms(6) by (simp add: reachable_def)
  from roster_reaches [OF _ assms(3) snap assms(4) _ this] assms(1,2,5) snap show ?thesis
    by (simp add: with_conference_def)
qed

section \<open>Presence and membership\<close>

text \<open>Closing an old connection takes a newer one offline. Where an extension has connected a second time, the
  close of the first socket removes the extension from the map although the second socket is open: calls
  to it are then answered \<^verbatim>\<open>user_offline\<close>, events for it are dropped, and presence shows it offline.\<close>

theorem stale_close_takes_offline:
  assumes "ext_of s old = ext" "ext \<noteq> []" "m_get (sg_clients s) ext = Some new" "new \<noteq> old" "new \<in> set (sg_open s)"
    and "wc_authenticated (sg_sock s k)" "k \<in> set (sg_open s)" "k \<noteq> old"
  shows "case on_close old s of s' \<Rightarrow>
    new \<in> set (sg_open s') \<and> m_get (sg_clients s') ext = None \<and>
    (k, Ws_Call_Event ''user_offline'' [(''target'', ext)]) \<in> set (sg_sent (handle_call_signal k ext action data s')) \<and>
    sg_sent (notify_call_event ext event fs s') = sg_sent s' \<and>
    list_all (\<lambda>u. ou_extension u = ext \<longrightarrow> \<not> ou_online u) (presence_of s' viewer)"
proof -
  let ?t = "forget_client old (s\<lparr>sg_open := sub_del old (sg_open s)\<rparr>)"
  have "sg_open (broadcast_presence t) = sg_open t" for t
    unfolding broadcast_presence_def by (rule fold_keeps) simp
  then have op: "sg_open (on_close old s) = sub_del old (sg_open s)" by (simp add: on_close_def)
  have cl: "sg_clients (on_close old s) = m_del ext (sg_clients s)" "sg_sock (on_close old s) = sg_sock s"
    using free.presence [of ?t] assms(1,2) by (simp_all add: frame_def on_close_def)
  have "k \<in> set (sg_open (on_close old s))" "new \<in> set (sg_open (on_close old s))"
    using assms(4,5,7,8) by (auto simp: op sub_del_def)
  with assms(6) show ?thesis
    by (auto simp: cl handle_call_signal_def authenticated_def ws_send_def notify_call_event_def send_to_ext_def presence_of_def
        list_all_iff)
qed

text \<open>the feeds and the rosters need no role. Any client with an access token receives, for the asking, the recent
  audit entries and the ones that follow, the live metrics, and the roster of a room it is no member of.\<close>

theorem feeds_need_no_role:
  assumes "wc_authenticated (sg_sock s k)" "k \<in> set (sg_open s)"
    and "sg_conf s = Some c" "trim rid \<noteq> []" "conference_snapshot c (trim rid) = Some snap" "tk_audit tk = Some es"
  shows "(k, Ws_Conf_Roster (trim rid) snap) \<in> set (sg_sent (handle_message v tk k (In_Conference (Conf_Roster rid)) s))
    \<and> (k, Ws_Audit_History es) \<in> set (sg_sent (handle_message v tk k In_Subscribe_Audit s))
    \<and> k \<in> set (sg_audit_subs (handle_message v tk k In_Subscribe_Audit s))
    \<and> k \<in> set (sg_metrics_subs (handle_message v tk k In_Subscribe_Metrics s))"
  using assms
  by (auto simp: handle_conference_def authenticated_def conference_roster_def handle_subscribe_audit_def
      handle_subscribe_metrics_def ws_send_def sub_add_def split: option.split)

section \<open>Witnesses\<close>

text \<open>Extension 1001 in two tabs, sockets 1 and 2, and 1002 on socket 3; 1001 has opened a room.\<close>

definition desk_config :: ws_config where
  "desk_config = \<lparr>wf_origins = [], wf_url = (\<lambda>_. None),
     wf_verify = (\<lambda>t. map_of [(''a'', \<lparr>jc_extension = ''1001'', jc_user_id = 1, jc_type = ''access''\<rparr>),
        (''b'', \<lparr>jc_extension = ''1002'', jc_user_id = 2, jc_type = ''access''\<rparr>)] t),
     wf_decode = Some, wf_base64 = id, wf_sip_ws_url = [], wf_public_ip = ''10.0.0.1'', wf_sip_ws_port = 5066\<rparr>"

definition desk_rooms :: conferences where
  "desk_rooms = (case create_room 0 [''r1''] ''1001'' ''Ann'' None no_rooms of None \<Rightarrow> no_rooms | Some (r, c) \<Rightarrow> c)"

definition desk :: signaling where
  "desk = on_connection desk_config 3 None (Some ''token=b'') (on_connection desk_config 2 None (Some ''token=a'')
     (on_connection desk_config 1 None (Some ''token=a'') (new_signaling (empty_db False ''USD'') (Some desk_rooms) None)))"

lemma presence_fields [simp]: "registries (broadcast_presence s) = registries s" "sg_open (broadcast_presence s) = sg_open s"
  by (auto simp: broadcast_presence_def intro!: fold_keeps)

lemma connected:
  assumes "is_allowed_origin v origin"
    and "verify_access_token (wf_verify v) (str_or (m_get (parse_cookies (wf_decode v) cookie) ''token'') []) = Some c"
  shows "\<exists>u. sg_sock (on_connection v k origin cookie s) = (sg_sock s)(k := \<lparr>wc_extension = jc_extension c, wc_username = u,
      wc_authenticated = True, wc_user = Some (jc_user_id c)\<rparr>)"
    "sg_clients (on_connection v k origin cookie s) = m_set (jc_extension c) k (sg_clients s)"
    "sg_open (on_connection v k origin cookie s) = sub_add k (sg_open s)"
    "registries (on_connection v k origin cookie s) = registries s"
proof -
  let ?u = "str_or (map_option su_username (get_user (sg_db s) (jc_extension c))) (jc_extension c)"
  let ?s = "s\<lparr>sg_open := sub_add k (sg_open s), sg_sock := (sg_sock s)(k := \<lparr>wc_extension = jc_extension c, wc_username = ?u,
      wc_authenticated = True, wc_user = Some (jc_user_id c)\<rparr>), sg_clients := m_set (jc_extension c) k (sg_clients s)\<rparr>"
  have "\<exists>m. on_connection v k origin cookie s = broadcast_presence (ws_send k m ?s)"
    using assms by (simp add: on_connection_def authenticate_client_def send_registered_def Let_def) blast
  then obtain m where eq: "on_connection v k origin cookie s = broadcast_presence (ws_send k m ?s)" by blast
  have f: "sg_sock (broadcast_presence t) = sg_sock t" "sg_clients (broadcast_presence t) = sg_clients t" for t
    using free.presence [of t] by (simp_all add: frame_def)
  show "\<exists>u. sg_sock (on_connection v k origin cookie s) = (sg_sock s)(k := \<lparr>wc_extension = jc_extension c, wc_username = u,
      wc_authenticated = True, wc_user = Some (jc_user_id c)\<rparr>)"
    unfolding eq f send_fields by (rule exI [of _ ?u]) simp
  show "sg_clients (on_connection v k origin cookie s) = m_set (jc_extension c) k (sg_clients s)"
    unfolding eq f send_fields by simp
  show "sg_open (on_connection v k origin cookie s) = sub_add k (sg_open s)"
    unfolding eq presence_fields send_fields by simp
  show "registries (on_connection v k origin cookie s) = registries s"
    unfolding eq presence_fields registries_send by (simp add: registries_def)
qed

lemma desk_tokens:
  "verify_access_token (wf_verify desk_config) (str_or (m_get (parse_cookies (wf_decode desk_config) (Some ''token=a'')) ''token'') []) =
    Some \<lparr>jc_extension = ''1001'', jc_user_id = 1, jc_type = ''access''\<rparr>"
  "verify_access_token (wf_verify desk_config) (str_or (m_get (parse_cookies (wf_decode desk_config) (Some ''token=b'')) ''token'') []) =
    Some \<lparr>jc_extension = ''1002'', jc_user_id = 2, jc_type = ''access''\<rparr>"
  "is_allowed_origin desk_config None"
  by code_simp+

lemmas desk_connects = connected [OF desk_tokens(3) desk_tokens(1)] connected [OF desk_tokens(3) desk_tokens(2)]

lemma desk_facts:
  "ext_of desk 1 = ''1001''" "ext_of desk 2 = ''1001''" "m_get (sg_clients desk) ''1001'' = Some 2"
  "sg_open desk = [1, 2, 3]" "wc_authenticated (sg_sock desk 1)" "wc_authenticated (sg_sock desk 2)" "wc_authenticated (sg_sock desk 3)"
  "sg_conf desk = Some desk_rooms"
proof -
  let ?t1 = "on_connection desk_config 1 None (Some ''token=a'') (new_signaling (empty_db False ''USD'') (Some desk_rooms) None)"
  let ?t2 = "on_connection desk_config 2 None (Some ''token=a'') ?t1"
  obtain u1 u2 u3 where s: "sg_sock desk = (\<lambda>_. no_client)(1 := \<lparr>wc_extension = ''1001'', wc_username = u1,
      wc_authenticated = True, wc_user = Some 1\<rparr>, 2 := \<lparr>wc_extension = ''1001'', wc_username = u2, wc_authenticated = True,
      wc_user = Some 1\<rparr>, 3 := \<lparr>wc_extension = ''1002'', wc_username = u3, wc_authenticated = True, wc_user = Some 2\<rparr>)"
    using desk_connects(1) [of 1 "new_signaling (empty_db False ''USD'') (Some desk_rooms) None"]
      desk_connects(1) [of 2 ?t1] desk_connects(5) [of 3 ?t2]
    by (auto simp: desk_def new_signaling_def)
  then show "ext_of desk 1 = ''1001''" "ext_of desk 2 = ''1001''" "wc_authenticated (sg_sock desk 1)"
    "wc_authenticated (sg_sock desk 2)" "wc_authenticated (sg_sock desk 3)" by simp_all
  show "m_get (sg_clients desk) ''1001'' = Some 2"
    by (simp add: desk_def desk_connects(2,6) new_signaling_def)
  show "sg_open desk = [1, 2, 3]"
    by (simp add: desk_def desk_connects(3,7) new_signaling_def sub_add_def)
  have "registries desk = (Some desk_rooms, None, [])"
    by (simp add: desk_def desk_connects(4,8) new_signaling_def) (simp add: registries_def)
  then show "sg_conf desk = Some desk_rooms" by (simp add: registries_def)
qed

lemma desk_reach: "signal_reach desk_config desk"
proof -
  let ?s = "new_signaling (empty_db False ''USD'') (Some desk_rooms) None"
  have f: "j \<noteq> k \<Longrightarrow> sg_sock (on_connection desk_config k None (Some ''token=a'') t) j = sg_sock t j"
    "set (sg_open (on_connection desk_config k None (Some ''token=a'') t)) = insert k (set (sg_open t))" for j k t
    using desk_connects(1,3) [of k t] by (auto simp: sub_add_def)
  have "signal_reach desk_config ?s" by (rule signal_reach.start)
  then have "signal_reach desk_config (on_connection desk_config 1 None (Some ''token=a'') ?s)"
    by (rule signal_reach.step) (rule signal_step.connect, simp_all add: new_signaling_def)
  then have "signal_reach desk_config (on_connection desk_config 2 None (Some ''token=a'')
      (on_connection desk_config 1 None (Some ''token=a'') ?s))"
    by (rule signal_reach.step) (rule signal_step.connect, simp_all add: f, simp_all add: new_signaling_def)
  then show ?thesis unfolding desk_def
    by (rule signal_reach.step) (rule signal_step.connect, simp_all add: f, simp_all add: new_signaling_def)
qed

lemma desk_room:
  "get_room desk_rooms ''r1'' = Some \<lparr>ro_id = ''r1'', ro_name = ''Conference'', ro_host = ''1001'', ro_created_at = 0,
     ro_participants = [(''1001'', \<lparr>cp_extension = ''1001'', cp_name = ''Ann'', cp_state = PInvited, cp_joined_at = None,
       cp_muted = False, cp_is_host = True\<rparr>)]\<rparr>"
  by code_simp


definition desk_tick :: ws_tick where
  "desk_tick = \<lparr>tk_now = 9, tk_date = ''2025-01-01'', tk_draws = [], tk_disk = True, tk_metrics = None, tk_audit = Some []\<rparr>"

theorem messages_speak_for_sender_witness:
  "spares ''1001'' desk (handle_message desk_config desk_tick 2 (In_Call ''1002'' ''ring'' ''{}'') desk) \<and> token_of desk_config ''1001''"
  using messages_speak_for_sender [OF desk_reach desk_facts(6), of desk_tick "In_Call ''1002'' ''ring'' ''{}''"]
  by (simp add: spares_def desk_facts(2))

lemma put_emitted: "cs_emitted (put_room rid r c) = cs_emitted c @ [Updated rid]"
  by (simp add: put_room_def)

theorem rosters_follow_registry_witness:
  "\<exists>snap. conference_snapshot (add_invite ''r1'' ''1002'' ''Bob'' desk_rooms) ''r1'' = Some snap \<and>
    (2, Ws_Conf_Roster ''r1'' snap) \<in> set (sg_sent (with_conference (add_invite ''r1'' ''1002'' ''Bob'') desk))"
  by (rule rosters_follow_registry [OF desk_facts(8) _ _ _ desk_facts(3)])
    (simp_all add: add_invite_def desk_room put_participant_def Let_def m_has_def reachable_def desk_facts put_emitted, simp)

theorem stale_close_takes_offline_witness:
  "2 \<in> set (sg_open (on_close 1 desk)) \<and> m_get (sg_clients (on_close 1 desk)) ''1001'' = None \<and>
    (3, Ws_Call_Event ''user_offline'' [(''target'', ''1001'')]) \<in> set (sg_sent (handle_call_signal 3 ''1001'' ''ring'' [] (on_close 1 desk)))"
  using stale_close_takes_offline [OF desk_facts(1) _ desk_facts(3) _ _ desk_facts(7), of "''ring''" "[]"]
  by (simp add: desk_facts(4))

theorem feeds_need_no_role_witness:
  "\<exists>snap. (3, Ws_Conf_Roster ''r1'' snap) \<in>
     set (sg_sent (handle_message desk_config desk_tick 3 (In_Conference (Conf_Roster ''r1'')) desk))"
proof -
  obtain snap where snap: "conference_snapshot desk_rooms ''r1'' = Some snap" by (simp add: conference_snapshot_def desk_room)
  have t: "trim ''r1'' = ''r1''" by code_simp
  show ?thesis
    using feeds_need_no_role [OF desk_facts(7) _ desk_facts(8), of "''r1''" snap desk_tick "[]" desk_config]
    by (auto simp: desk_facts(4) snap t desk_tick_def)
qed

end
