(* ===== verification/Voicemails.thy ===== *)
theory Voicemails
  imports Js_Number "HOL-Library.Product_Lexorder" "HOL-Library.Multiset"
begin

text \<open>
  The voicemail table, \<^verbatim>\<open>src/src/services/postgres/voicemail.repo.ts\<close>, and the device tokens of
  \<^verbatim>\<open>src/src/services/push.service.ts\<close> that wake a phone for a call.
\<close>

section \<open>Voicemails\<close>

record voicemail_row =
  vr_id :: nat
  vr_extension :: string
  vr_from :: string
  vr_filename :: string
  vr_duration :: "rat option"
  vr_path :: string
  vr_read :: bool
  vr_created :: "int option"

record voicemail_table =
  vt_rows :: "voicemail_row list"
  vt_next :: nat

record voicemail_message =
  vg_id :: string
  vg_mailbox :: string
  vg_from :: string
  vg_from_name :: string
  vg_file :: string
  vg_duration :: "rat option"
  vg_created :: "int option"
  vg_read :: bool

definition row_to_voicemail :: "voicemail_row \<Rightarrow> voicemail_message" where
  "row_to_voicemail r = \<lparr>vg_id = show_nat (vr_id r), vg_mailbox = vr_extension r, vg_from = vr_from r, vg_from_name = [],
     vg_file = vr_filename r, vg_duration = vr_duration r, vg_created = vr_created r, vg_read = vr_read r\<rparr>"

definition absolute_path :: "string \<Rightarrow> string \<Rightarrow> string" where
  "absolute_path dir file = (if dir \<noteq> [] \<and> last dir = CHR ''/'' then butlast dir else dir) @ ''/'' @ file"

text \<open>A route's id: any text that \<^verbatim>\<open>Number\<close> reads as a positive integer.\<close>

definition parse_id :: "string \<Rightarrow> nat option" where
  "parse_id s = (case num_int (js_number s) of None \<Rightarrow> None | Some i \<Rightarrow> if 0 < i then Some (nat i) else None)"

definition insert_voicemail :: "string \<Rightarrow> voicemail_message \<Rightarrow> voicemail_table \<Rightarrow> voicemail_table" where
  "insert_voicemail dir m t = t\<lparr>vt_rows := vt_rows t @ [\<lparr>vr_id = vt_next t, vr_extension = vg_mailbox m, vr_from = vg_from m,
     vr_filename = vg_file m, vr_duration = Some (or_else (vg_duration m) 0), vr_path = absolute_path dir (vg_file m),
     vr_read = vg_read m, vr_created = vg_created m\<rparr>], vt_next := vt_next t + 1\<rparr>"

definition newest_first :: "voicemail_row \<Rightarrow> (nat \<times> int) \<times> int" where
  "newest_first r = ((case vr_created r of None \<Rightarrow> (1, 0) | Some t \<Rightarrow> (0, - t)), - int (vr_id r))"

definition mailbox :: "string \<Rightarrow> voicemail_table \<Rightarrow> voicemail_row list" where
  "mailbox ext t = filter (\<lambda>r. vr_extension r = ext) (vt_rows t)"

definition unread_in :: "voicemail_row list \<Rightarrow> nat" where
  "unread_in rs = length (filter (\<lambda>r. \<not> vr_read r) rs)"

definition select_voicemails_with_unread :: "string \<Rightarrow> voicemail_table \<Rightarrow> voicemail_message list \<times> nat" where
  "select_voicemails_with_unread ext t =
     (let rows = sort_key newest_first (mailbox ext t)
      in (map row_to_voicemail rows, if rows = [] then 0 else unread_in rows))"

definition owned :: "string \<Rightarrow> nat \<Rightarrow> voicemail_row \<Rightarrow> bool" where
  "owned ext i r \<longleftrightarrow> vr_extension r = ext \<and> vr_id r = i"

definition select_voicemail :: "string \<Rightarrow> string \<Rightarrow> voicemail_table \<Rightarrow> voicemail_message option" where
  "select_voicemail ext ident t =
     (case parse_id ident of None \<Rightarrow> None | Some i \<Rightarrow> map_option row_to_voicemail (List.find (owned ext i) (vt_rows t)))"

definition update_voicemail_read :: "string \<Rightarrow> string \<Rightarrow> voicemail_table \<Rightarrow> bool \<times> voicemail_table" where
  "update_voicemail_read ext ident t =
     (case parse_id ident of None \<Rightarrow> (False, t)
      | Some i \<Rightarrow> (list_ex (owned ext i) (vt_rows t),
          t\<lparr>vt_rows := map (\<lambda>r. if owned ext i r then r\<lparr>vr_read := True\<rparr> else r) (vt_rows t)\<rparr>))"

definition remove_voicemail :: "string \<Rightarrow> string \<Rightarrow> voicemail_table \<Rightarrow> string option \<times> voicemail_table" where
  "remove_voicemail ext ident t =
     (case parse_id ident of None \<Rightarrow> (None, t)
      | Some i \<Rightarrow> (map_option vr_filename (List.find (owned ext i) (vt_rows t)),
          t\<lparr>vt_rows := filter (\<lambda>r. \<not> owned ext i r) (vt_rows t)\<rparr>))"

definition count_unread_voicemails :: "string \<Rightarrow> voicemail_table \<Rightarrow> nat" where
  "count_unread_voicemails ext t = unread_in (mailbox ext t)"

section \<open>Push tokens\<close>

record device_token =
  dt_token :: string
  dt_platform :: string
  dt_registered :: int

type_synonym push_tokens = "(string, (string, device_token) js_map) js_map"

record incoming_call_push =
  ip_call :: string
  ip_from :: string
  ip_from_name :: string
  ip_to :: string

definition push_register :: "int \<Rightarrow> string \<Rightarrow> string \<Rightarrow> string \<Rightarrow> push_tokens \<Rightarrow> push_tokens" where
  "push_register now ext token platform p =
     (if ext = [] \<or> token = [] then p
      else m_set ext (m_set token \<lparr>dt_token = token, dt_platform = platform, dt_registered = now\<rparr> (or_else (m_get p ext) [])) p)"

text \<open>From every extension that has it; an extension without tokens goes.\<close>

definition push_unregister :: "string \<Rightarrow> push_tokens \<Rightarrow> push_tokens" where
  "push_unregister token p =
     (if token = [] then p
      else fold (\<lambda>ext q.
        (case m_get q ext of None \<Rightarrow> q
         | Some ts \<Rightarrow>
             if \<not> m_has ts token then q
             else if length (m_del token ts) = 0 then m_del ext q
             else m_set ext (m_del token ts) q)) (m_keys p) p)"

definition has_tokens :: "string \<Rightarrow> push_tokens \<Rightarrow> bool" where
  "has_tokens ext p = (case m_get p ext of None \<Rightarrow> False | Some ts \<Rightarrow> 0 < length ts)"

record push_config =
  pc_enabled :: bool
  pc_server_key :: string

record fcm_request =
  fr_ids :: "string list"
  fr_call :: incoming_call_push
  fr_authorization :: string

definition send_fcm :: "push_config \<Rightarrow> string list \<Rightarrow> incoming_call_push \<Rightarrow> fcm_request option" where
  "send_fcm c ids call =
     (if pc_server_key c = [] then None
      else Some \<lparr>fr_ids = ids, fr_call = call, fr_authorization = ''key='' @ pc_server_key c\<rparr>)"

text \<open>The request that goes to the push service, if any; its failure is logged only.\<close>

definition send_incoming_call :: "push_config \<Rightarrow> string \<Rightarrow> incoming_call_push \<Rightarrow> push_tokens \<Rightarrow> fcm_request option" where
  "send_incoming_call c ext call p =
     (if \<not> pc_enabled c then None
      else (case m_get p ext of None \<Rightarrow> None
        | Some ts \<Rightarrow>
            if length ts = 0 then None
            else (let ids = map dt_token (filter (\<lambda>d. dt_platform d \<noteq> ''ios_voip'') (m_vals ts))
                  in if ids = [] then None else send_fcm c ids call)))"

section \<open>Lemmas\<close>

lemma mailbox_update: "ext' \<noteq> ext \<Longrightarrow> mailbox ext' (snd (update_voicemail_read ext i t)) = mailbox ext' t"
proof -
  assume ne: "ext' \<noteq> ext"
  have "filter (\<lambda>r. vr_extension r = ext') (map (\<lambda>r. if owned ext n r then r\<lparr>vr_read := True\<rparr> else r) rs) =
      filter (\<lambda>r. vr_extension r = ext') rs" for n rs
    using ne by (induction rs) (auto simp: owned_def)
  then show ?thesis by (simp add: mailbox_def update_voicemail_read_def split: option.split)
qed

lemma mailbox_remove: "ext' \<noteq> ext \<Longrightarrow> mailbox ext' (snd (remove_voicemail ext i t)) = mailbox ext' t"
proof -
  assume ne: "ext' \<noteq> ext"
  then have "(vr_extension r = ext' \<and> \<not> owned ext n r) = (vr_extension r = ext')" for r n by (auto simp: owned_def)
  then show ?thesis by (simp add: mailbox_def remove_voicemail_def conj_commute split: option.split)
qed

lemma selected_owner: "select_voicemail ext i t = Some m \<Longrightarrow> vg_mailbox m = ext"
  by (auto simp: select_voicemail_def row_to_voicemail_def owned_def dest!: find_SomeD split: option.splits)

lemma listed_owner: "m \<in> set (fst (select_voicemails_with_unread ext t)) \<Longrightarrow> vg_mailbox m = ext"
  by (auto simp: select_voicemails_with_unread_def Let_def row_to_voicemail_def mailbox_def)

lemma unread_listed: "snd (select_voicemails_with_unread ext t) = count_unread_voicemails ext t"
proof -
  have "mset (sort_key newest_first (mailbox ext t)) = mset (mailbox ext t)" by simp
  then have "length (filter (\<lambda>r. \<not> vr_read r) (sort_key newest_first (mailbox ext t))) = length (filter (\<lambda>r. \<not> vr_read r) (mailbox ext t))"
    by (metis mset_filter size_mset)
  moreover have "sort_key newest_first (mailbox ext t) = [] \<longleftrightarrow> mailbox ext t = []"
    by (metis length_0_conv length_sort)
  ultimately show ?thesis
    by (auto simp: select_voicemails_with_unread_def count_unread_voicemails_def unread_in_def Let_def)
qed

section \<open>The table over time\<close>

text \<open>Serial ids: positive, below the next one, each once.\<close>

definition table_ok :: "voicemail_table \<Rightarrow> bool" where
  "table_ok t \<longleftrightarrow> 0 < vt_next t \<and> distinct (map vr_id (vt_rows t)) \<and> list_all (\<lambda>r. 0 < vr_id r \<and> vr_id r < vt_next t) (vt_rows t)"

lemma parse_shown: "0 < n \<Longrightarrow> parse_id (show_nat n) = Some n"
  by (simp add: parse_id_def num_int_show)

lemma table_ok_steps:
  "table_ok t \<Longrightarrow> table_ok (insert_voicemail dir m t)"
  "table_ok t \<Longrightarrow> table_ok (snd (update_voicemail_read ext i t))"
  "table_ok t \<Longrightarrow> table_ok (snd (remove_voicemail ext i t))"
proof -
  show "table_ok (insert_voicemail dir m t)" if "table_ok t"
    using that by (fastforce simp: table_ok_def insert_voicemail_def list_all_iff)
  have ids: "vr_id \<circ> (\<lambda>r. if owned ext n r then r\<lparr>vr_read := True\<rparr> else r) = vr_id" for n
    by (simp add: fun_eq_iff)
  show "table_ok (snd (update_voicemail_read ext i t))" if "table_ok t"
    using that ids by (auto simp: table_ok_def update_voicemail_read_def list_all_iff split: option.split)
  show "table_ok (snd (remove_voicemail ext i t))" if "table_ok t"
    using that by (auto simp: table_ok_def remove_voicemail_def list_all_iff intro: distinct_map_filter split: option.split)
qed

lemma inserted_found:
  assumes "table_ok t"
  shows "List.find (owned (vg_mailbox m) (vt_next t)) (vt_rows (insert_voicemail dir m t)) = Some (last (vt_rows (insert_voicemail dir m t)))"
    "filter (\<lambda>r. \<not> owned (vg_mailbox m) (vt_next t) r) (vt_rows (insert_voicemail dir m t)) = vt_rows t"
    "last (vt_rows (insert_voicemail dir m t)) = \<lparr>vr_id = vt_next t, vr_extension = vg_mailbox m, vr_from = vg_from m,
     vr_filename = vg_file m, vr_duration = Some (or_else (vg_duration m) 0), vr_path = absolute_path dir (vg_file m),
     vr_read = vg_read m, vr_created = vg_created m\<rparr>"
proof -
  have "\<not> owned (vg_mailbox m) (vt_next t) r" if "r \<in> set (vt_rows t)" for r
    using assms that by (auto simp: table_ok_def owned_def list_all_iff)
  then have none: "List.find (owned (vg_mailbox m) (vt_next t)) (vt_rows t) = None"
    and keep: "filter (\<lambda>r. \<not> owned (vg_mailbox m) (vt_next t) r) (vt_rows t) = vt_rows t"
    by (auto simp: find_None_iff intro: filter_True)
  show "List.find (owned (vg_mailbox m) (vt_next t)) (vt_rows (insert_voicemail dir m t)) = Some (last (vt_rows (insert_voicemail dir m t)))"
    "filter (\<lambda>r. \<not> owned (vg_mailbox m) (vt_next t) r) (vt_rows (insert_voicemail dir m t)) = vt_rows t"
    "last (vt_rows (insert_voicemail dir m t)) = \<lparr>vr_id = vt_next t, vr_extension = vg_mailbox m, vr_from = vg_from m,
     vr_filename = vg_file m, vr_duration = Some (or_else (vg_duration m) 0), vr_path = absolute_path dir (vg_file m),
     vr_read = vg_read m, vr_created = vg_created m\<rparr>"
    using none keep by (simp_all add: insert_voicemail_def find_append owned_def)
qed

text \<open>A stored voicemail comes back. A message inserted into the table is found in its mailbox, under the id that
  the list shows, with its file, sender, duration and time; marking it read under that id succeeds and takes it
  off the unread count; deleting it hands back its file and leaves the table as it was before the insert.\<close>

theorem voicemail_roundtrip:
  assumes "table_ok t" "\<not> vg_read m"
  shows "let t1 = insert_voicemail dir m t; i = show_nat (vt_next t); box = vg_mailbox m
    in select_voicemail box i t1 = Some (m\<lparr>vg_id := i, vg_from_name := [], vg_duration := Some (or_else (vg_duration m) 0)\<rparr>) \<and>
       count_unread_voicemails box t1 = count_unread_voicemails box t + 1 \<and>
       fst (update_voicemail_read box i t1) \<and>
       count_unread_voicemails box (snd (update_voicemail_read box i t1)) = count_unread_voicemails box t \<and>
       fst (remove_voicemail box i t1) = Some (vg_file m) \<and>
       vt_rows (snd (remove_voicemail box i t1)) = vt_rows t"
proof -
  let ?t1 = "insert_voicemail dir m t" and ?i = "show_nat (vt_next t)" and ?box = "vg_mailbox m"
  have p: "parse_id ?i = Some (vt_next t)" using assms(1) by (simp add: table_ok_def parse_shown)
  note f = inserted_found [OF assms(1), where m = m and dir = dir]
  have old: "map (\<lambda>r. if owned ?box (vt_next t) r then r\<lparr>vr_read := True\<rparr> else r) (vt_rows t) = vt_rows t"
    using assms(1) by (intro map_idI) (auto simp: table_ok_def owned_def list_all_iff)
  have "select_voicemail ?box ?i ?t1 = Some (m\<lparr>vg_id := ?i, vg_from_name := [], vg_duration := Some (or_else (vg_duration m) 0)\<rparr>)"
    by (simp add: select_voicemail_def p f(1) f(3) row_to_voicemail_def)
  moreover have "count_unread_voicemails ?box ?t1 = count_unread_voicemails ?box t + 1"
    using assms(2) by (simp add: count_unread_voicemails_def unread_in_def mailbox_def insert_voicemail_def)
  moreover have "fst (update_voicemail_read ?box ?i ?t1)"
    by (simp add: update_voicemail_read_def p insert_voicemail_def owned_def)
  moreover have "count_unread_voicemails ?box (snd (update_voicemail_read ?box ?i ?t1)) = count_unread_voicemails ?box t"
    by (simp add: update_voicemail_read_def p insert_voicemail_def old count_unread_voicemails_def unread_in_def mailbox_def)
      (simp add: owned_def)
  moreover have "fst (remove_voicemail ?box ?i ?t1) = Some (vg_file m)" "vt_rows (snd (remove_voicemail ?box ?i ?t1)) = vt_rows t"
    by (simp_all add: remove_voicemail_def p f)
  ultimately show ?thesis by (simp add: Let_def)
qed

definition sample_voicemail :: voicemail_message where
  "sample_voicemail = \<lparr>vg_id = [], vg_mailbox = ''1001'', vg_from = ''1002'', vg_from_name = ''Bob'', vg_file = ''1001/vm_1.wav'',
     vg_duration = Some 7, vg_created = Some 5, vg_read = False\<rparr>"

theorem voicemail_roundtrip_witness:
  "fst (remove_voicemail ''1001'' (show_nat 4) (insert_voicemail ''/rec/'' sample_voicemail \<lparr>vt_rows = [], vt_next = 4\<rparr>)) =
    Some ''1001/vm_1.wav''"
  using voicemail_roundtrip [of "\<lparr>vt_rows = [], vt_next = 4\<rparr>" sample_voicemail "''/rec/''"]
  by (simp add: table_ok_def sample_voicemail_def Let_def)

end
