(* ===== verification/Http_Api.thy ===== *)
theory Http_Api
  imports Access_Token Voicemails Metrics Engine Ivr_System
begin

text \<open>
  The routes of \<^verbatim>\<open>src/src/http/routes/api.routes.ts\<close> other than the widget's: health and
  metrics, users, push tokens, the IVR, the trunk provider, the configuration and the
  voicemails, each behind the gates that the router puts before it. A request is one step.
\<close>

section \<open>Requests and replies\<close>

datatype api_request =
    Get_Health
  | Get_Metrics
  | Get_Users
  | Get_User string
  | Push_Register "string option" "string option"
  | Push_Unregister "string option"
  | Ivr_Status
  | Ivr_Recordings
  | Ivr_Transfer string
  | Get_Trunk
  | Provider_Status
  | Provider_Originate "string option" "string option" "string option" "string option"
  | Provider_Stream "string option" "string option" "string option" "string option"
  | Get_Config
  | Vm_List string
  | Vm_Audio string string
  | Vm_Read string string
  | Vm_Delete string string

datatype api_data =
    Api_Failure string
  | Api_Health bool bool bool
  | Api_Metrics metrics_snapshot
  | Api_Users "(string \<times> string \<times> string \<times> bool) list"
  | Api_User string string bool
  | Api_Flag string bool
  | Api_Ivr bool bool "ivr_call list" "department list"
  | Api_Recordings "string list"
  | Api_Trunk "(string \<times> string \<times> string) option"
  | Api_Call string string
  | Api_Config string nat nat bool string
  | Api_Mail "voicemail_message list" nat
  | Api_Audio string
  | Api_Marked bool nat

text \<open>The envelope is a success exactly where the data is no failure.\<close>

type_synonym api_reply = "nat \<times> api_data"

definition reply_ok :: "api_data \<Rightarrow> api_reply" where
  "reply_ok d = (200, d)"

definition reply_created :: "api_data \<Rightarrow> api_reply" where
  "reply_created d = (201, d)"

definition reply_fail :: "nat \<Rightarrow> string \<Rightarrow> api_reply" where
  "reply_fail n m = (n, Api_Failure m)"

section \<open>The state and its surroundings\<close>

datatype provider_request =
    Originate string "string option" "string option" "string option"
  | Start_Stream string string "string option" "string option"

datatype provider_answer = Provider_Ok string string | Provider_Failed "string option"

text \<open>The IVR system, where there is one: its calls, recordings, departments and whether media is connected.\<close>

record ivr_state =
  is_calls :: "(string, ivr_call) js_map"
  is_recordings :: "string list"
  is_departments :: "department list"
  is_connected :: bool

record api_state =
  ap_db :: database
  ap_push :: push_tokens
  ap_mail :: voicemail_table
  ap_files :: "string list"
  ap_ivr :: "ivr_state option"
  ap_metrics :: "metrics option"
  ap_requests :: "provider_request list"

text \<open>Configuration, libraries, and what the database, the disk and the provider answer.\<close>

record api_env =
  ax_verify :: "string \<Rightarrow> jwt_claims option"
  ax_decode :: "string \<Rightarrow> string option"
  ax_now :: int
  ax_sip_up :: bool
  ax_trunk :: "(string \<times> string \<times> string) option"
  ax_provider :: bool
  ax_answer :: provider_answer
  ax_query :: bool
  ax_second_query :: bool
  ax_ivr_enabled :: bool
  ax_domain :: string
  ax_sip_ws_port :: nat
  ax_ws_port :: nat
  ax_ivr_entry :: string
  ax_vm_dir :: string

section \<open>Routes\<close>

definition guarded :: "gate \<Rightarrow> (jwt_claims \<Rightarrow> api_state \<Rightarrow> api_reply \<times> api_state) \<Rightarrow> api_state \<Rightarrow> api_reply \<times> api_state" where
  "guarded g f s = (case g of Reject n m \<Rightarrow> (reply_fail (nat n) m, s) | Pass c \<Rightarrow> f c s)"

definition get_health :: "api_env \<Rightarrow> api_state \<Rightarrow> api_reply" where
  "get_health v s = reply_ok (Api_Health (ax_sip_up v) (case ap_ivr s of None \<Rightarrow> False | Some i \<Rightarrow> is_connected i) (ax_trunk v \<noteq> None))"

definition get_metrics :: "api_env \<Rightarrow> api_state \<Rightarrow> api_reply \<times> api_state" where
  "get_metrics v s =
     (case ap_metrics s of None \<Rightarrow> (reply_fail 503 ''Metrics not available'', s)
      | Some m \<Rightarrow> (case get_snapshot (ax_now v) m of (snap, m') \<Rightarrow> (reply_ok (Api_Metrics snap), s\<lparr>ap_metrics := Some m'\<rparr>)))"

definition list_users :: "api_state \<Rightarrow> api_reply" where
  "list_users s = reply_ok (Api_Users (map (\<lambda>u. (su_extension u, su_name u, su_username u, su_registered u)) (get_users (ap_db s))))"

definition one_user :: "string \<Rightarrow> api_state \<Rightarrow> api_reply" where
  "one_user ext s =
     (case get_user (ap_db s) ext of None \<Rightarrow> reply_fail 404 ''Not found''
      | Some u \<Rightarrow> reply_ok (Api_User (su_extension u) (su_name u) (su_registered u)))"

definition register_push :: "api_env \<Rightarrow> string option \<Rightarrow> string option \<Rightarrow> jwt_claims \<Rightarrow> api_state \<Rightarrow> api_reply \<times> api_state" where
  "register_push v token platform c s =
     (if jc_extension c = [] then (reply_fail 401 ''Unauthorized'', s)
      else if \<not> truthy token then (reply_fail 400 ''token is required'', s)
      else (reply_created (Api_Flag ''registered'' True),
            s\<lparr>ap_push := push_register (ax_now v) (jc_extension c) (the token) (or_else platform ''unknown'') (ap_push s)\<rparr>))"

definition unregister_push :: "string option \<Rightarrow> api_state \<Rightarrow> api_reply \<times> api_state" where
  "unregister_push token s =
     (if \<not> truthy token then (reply_fail 400 ''token is required'', s)
      else (reply_ok (Api_Flag ''unregistered'' True), s\<lparr>ap_push := push_unregister (the token) (ap_push s)\<rparr>))"

definition ivr_status_of :: "api_env \<Rightarrow> api_state \<Rightarrow> api_reply" where
  "ivr_status_of v s = reply_ok
     (case ap_ivr s of None \<Rightarrow> Api_Ivr (ax_ivr_enabled v) False [] []
      | Some i \<Rightarrow> Api_Ivr (ax_ivr_enabled v) (is_connected i) (m_vals (is_calls i)) (is_departments i))"

definition ivr_recordings_of :: "api_state \<Rightarrow> api_reply" where
  "ivr_recordings_of s = reply_ok (Api_Recordings (case ap_ivr s of None \<Rightarrow> [] | Some i \<Rightarrow> is_recordings i))"

text \<open>\<^verbatim>\<open>IVRSystem.transferCall\<close> marks the call as connected and says so.\<close>

definition ivr_transfer :: "string \<Rightarrow> api_state \<Rightarrow> api_reply \<times> api_state" where
  "ivr_transfer cid s =
     (case ap_ivr s of None \<Rightarrow> (reply_fail 503 ''IVR not available'', s)
      | Some i \<Rightarrow>
          (case m_get (is_calls i) cid of None \<Rightarrow> (reply_ok (Api_Flag ''success'' False), s)
           | Some c \<Rightarrow> (reply_ok (Api_Flag ''success'' True),
               s\<lparr>ap_ivr := Some (i\<lparr>is_calls := m_set cid (c\<lparr>iv_status := IvConnected\<rparr>) (is_calls i)\<rparr>)\<rparr>)))"

definition provider_reply :: "provider_answer \<Rightarrow> string \<Rightarrow> api_reply" where
  "provider_reply a otherwise =
     (case a of Provider_Ok i st \<Rightarrow> reply_created (Api_Call i st) | Provider_Failed m \<Rightarrow> reply_fail 502 (or_else m otherwise))"

definition originate_route ::
  "api_env \<Rightarrow> string option \<Rightarrow> string option \<Rightarrow> string option \<Rightarrow> string option \<Rightarrow> api_state \<Rightarrow> api_reply \<times> api_state" where
  "originate_route v to_num from_num answer_url twiml s =
     (if \<not> ax_provider v then (reply_fail 503 ''Twilio trunk not enabled'', s)
      else if \<not> truthy to_num then (reply_fail 400 ''Missing or invalid `to`'', s)
      else if \<not> truthy answer_url \<and> \<not> truthy twiml then (reply_fail 400 ''Provide `answerUrl` or `twiml`'', s)
      else (provider_reply (ax_answer v) ''Originate failed'',
            s\<lparr>ap_requests := ap_requests s @ [Originate (the to_num) from_num answer_url twiml]\<rparr>))"

definition stream_route ::
  "api_env \<Rightarrow> string option \<Rightarrow> string option \<Rightarrow> string option \<Rightarrow> string option \<Rightarrow> api_state \<Rightarrow> api_reply \<times> api_state" where
  "stream_route v cid url track name s =
     (if \<not> ax_provider v then (reply_fail 503 ''Twilio trunk not enabled'', s)
      else if \<not> truthy cid then (reply_fail 400 ''Missing or invalid `callId`'', s)
      else if \<not> truthy url \<or> \<not> prefix ''wss://'' (the url) then (reply_fail 400 ''`wsUrl` must be a secure wss:// URL'', s)
      else (provider_reply (ax_answer v) ''Stream start failed'',
            s\<lparr>ap_requests := ap_requests s @ [Start_Stream (the cid) (the url) track name]\<rparr>))"

text \<open>\<^verbatim>\<open>path.resolve(dir, file)\<close> for an absolute directory: an absolute file name replaces the directory,
  and \<^verbatim>\<open>..\<close> goes up.\<close>

definition path_step :: "string \<Rightarrow> string list \<Rightarrow> string list" where
  "path_step x acc = (if x = [] \<or> x = ''.'' then acc else if x = ''..'' then butlast acc else acc @ [x])"

definition path_resolve :: "string \<Rightarrow> string \<Rightarrow> string" where
  "path_resolve dir file =
     (let p = (if prefix ''/'' file then file else dir @ ''/'' @ file)
      in case fold path_step (split_on (CHR ''/'') p) [] of [] \<Rightarrow> ''/'' | xs \<Rightarrow> concat (map (\<lambda>x. CHR ''/'' # x) xs))"

definition vm_list :: "api_env \<Rightarrow> string \<Rightarrow> api_state \<Rightarrow> api_reply" where
  "vm_list v ext s =
     (if \<not> ax_query v then reply_fail 500 ''Failed to load voicemails''
      else (case select_voicemails_with_unread ext (ap_mail s) of (ms, n) \<Rightarrow> reply_ok (Api_Mail ms n)))"

definition vm_audio :: "api_env \<Rightarrow> string \<Rightarrow> string \<Rightarrow> api_state \<Rightarrow> api_reply" where
  "vm_audio v ext i s =
     (if \<not> ax_query v then reply_fail 500 ''Failed to stream voicemail''
      else (case select_voicemail ext i (ap_mail s) of
              None \<Rightarrow> reply_fail 404 ''Voicemail not found''
            | Some m \<Rightarrow> if path_resolve (ax_vm_dir v) (vg_file m) \<notin> set (ap_files s) then reply_fail 404 ''Recording file missing''
                else reply_ok (Api_Audio (path_resolve (ax_vm_dir v) (vg_file m)))))"

definition vm_read :: "api_env \<Rightarrow> string \<Rightarrow> string \<Rightarrow> api_state \<Rightarrow> api_reply \<times> api_state" where
  "vm_read v ext i s =
     (if \<not> ax_query v then (reply_fail 500 ''Failed to update voicemail'', s)
      else (case update_voicemail_read ext i (ap_mail s) of
              (marked, t) \<Rightarrow>
                (if \<not> ax_second_query v then reply_fail 500 ''Failed to update voicemail''
                 else reply_ok (Api_Marked marked (count_unread_voicemails ext t)), s\<lparr>ap_mail := t\<rparr>)))"

text \<open>The file goes with the row; a file that cannot be removed is ignored.\<close>

definition vm_delete :: "api_env \<Rightarrow> string \<Rightarrow> string \<Rightarrow> api_state \<Rightarrow> api_reply \<times> api_state" where
  "vm_delete v ext i s =
     (if \<not> ax_query v then (reply_fail 500 ''Failed to delete voicemail'', s)
      else (case remove_voicemail ext i (ap_mail s) of
              (file, t) \<Rightarrow> (reply_ok (Api_Flag ''success'' (truthy file)),
                s\<lparr>ap_mail := t, 
                  ap_files := (if truthy file then filter (\<lambda>f. f \<noteq> path_resolve (ax_vm_dir v) (the file)) (ap_files s) else ap_files s)\<rparr>)))"

definition auth_gate :: "api_env \<Rightarrow> http_head \<Rightarrow> gate" where
  "auth_gate v h = require_auth (ax_verify v) (ax_decode v) h"

fun serve :: "api_env \<Rightarrow> http_head \<Rightarrow> api_request \<Rightarrow> api_state \<Rightarrow> api_reply \<times> api_state" where
  "serve v h Get_Health s = (get_health v s, s)"
| "serve v h Get_Metrics s = guarded (auth_gate v h) (\<lambda>c. get_metrics v) s"
| "serve v h Get_Users s = guarded (auth_gate v h) (\<lambda>c s. (list_users s, s)) s"
| "serve v h (Get_User ext) s = guarded (auth_gate v h) (\<lambda>c s. (one_user ext s, s)) s"
| "serve v h (Push_Register token platform) s = guarded (auth_gate v h) (register_push v token platform) s"
| "serve v h (Push_Unregister token) s = guarded (auth_gate v h) (\<lambda>c. unregister_push token) s"
| "serve v h Ivr_Status s = (ivr_status_of v s, s)"
| "serve v h Ivr_Recordings s = (ivr_recordings_of s, s)"
| "serve v h (Ivr_Transfer cid) s = ivr_transfer cid s"
| "serve v h Get_Trunk s = (reply_ok (Api_Trunk (ax_trunk v)), s)"
| "serve v h Provider_Status s = (reply_ok (Api_Flag ''enabled'' (ax_provider v)), s)"
| "serve v h (Provider_Originate to_num from_num url twiml) s =
     guarded (auth_gate v h) (\<lambda>c. originate_route v to_num from_num url twiml) s"
| "serve v h (Provider_Stream cid url track name) s = guarded (auth_gate v h) (\<lambda>c. stream_route v cid url track name) s"
| "serve v h Get_Config s =
     (reply_ok (Api_Config (ax_domain v) (ax_sip_ws_port v) (ax_ws_port v) (ax_ivr_enabled v) (ax_ivr_entry v)), s)"
| "serve v h (Vm_List ext) s = guarded (require_self_extension ext (auth_gate v h)) (\<lambda>c s. (vm_list v ext s, s)) s"
| "serve v h (Vm_Audio ext i) s = guarded (require_self_extension ext (auth_gate v h)) (\<lambda>c s. (vm_audio v ext i s, s)) s"
| "serve v h (Vm_Read ext i) s = guarded (require_self_extension ext (auth_gate v h)) (\<lambda>c. vm_read v ext i) s"
| "serve v h (Vm_Delete ext i) s = guarded (require_self_extension ext (auth_gate v h)) (\<lambda>c. vm_delete v ext i) s"

section \<open>Gates\<close>

definition public_route :: "api_request \<Rightarrow> bool" where
  "public_route r \<longleftrightarrow> (case r of Get_Health \<Rightarrow> True | Ivr_Status \<Rightarrow> True | Ivr_Recordings \<Rightarrow> True | Ivr_Transfer _ \<Rightarrow> True
     | Get_Trunk \<Rightarrow> True | Provider_Status \<Rightarrow> True | Get_Config \<Rightarrow> True | _ \<Rightarrow> False)"

text \<open>What an anonymous request may change: the status of one IVR call.\<close>

definition anonymous_change :: "api_state \<Rightarrow> api_state \<Rightarrow> bool" where
  "anonymous_change s s' \<longleftrightarrow> ap_db s' = ap_db s \<and> ap_push s' = ap_push s \<and> ap_mail s' = ap_mail s \<and> ap_files s' = ap_files s \<and>
     ap_requests s' = ap_requests s \<and> ap_metrics s' = ap_metrics s"

lemma anonymous_transfer: "anonymous_change s (snd (ivr_transfer cid s))"
  by (simp add: anonymous_change_def ivr_transfer_def split: option.split)

lemma anonymous_refl [simp]: "anonymous_change s s"
  by (simp add: anonymous_change_def)

lemma require_auth_cases:
  "(\<exists>c. require_auth verify decode h = Pass c \<and> verify_access_token verify (extract_token decode h) = Some c) \<or>
   (\<exists>m. require_auth verify decode h = Reject 401 m)"
  by (cases "verify_access_token verify (extract_token decode h)") (simp_all add: require_auth_def Let_def)

lemma anonymous_request:
  assumes "\<And>c. auth_gate v h \<noteq> Pass c"
  shows "(public_route r \<or> (\<exists>m. fst (serve v h r s) = (401, Api_Failure m))) \<and> anonymous_change s (snd (serve v h r s))"
proof -
  obtain m where "auth_gate v h = Reject 401 m"
    using require_auth_cases [of "ax_verify v" "ax_decode v" h] assms by (auto simp: auth_gate_def)
  then show ?thesis
    by (cases r) (simp_all add: public_route_def guarded_def reply_fail_def require_self_extension_def anonymous_transfer)
qed

text \<open>Whose mail a reply shows.\<close>

fun mail_shown :: "api_data \<Rightarrow> voicemail_message list" where
  "mail_shown (Api_Mail ms n) = ms"
| "mail_shown _ = []"

lemma push_register_other: "x \<noteq> ext \<Longrightarrow> m_get (push_register now ext token pf p) x = m_get p x"
  by (simp add: push_register_def js.get_put)

lemma own_mailbox:
  assumes "auth_gate v h = Pass c" "x \<noteq> jc_extension c"
  shows "mailbox x (ap_mail (snd (serve v h r s))) = mailbox x (ap_mail s)"
  using assms
  by (cases r) (auto simp: guarded_def require_self_extension_def get_metrics_def register_push_def unregister_push_def ivr_transfer_def
      originate_route_def stream_route_def vm_read_def vm_delete_def split_beta mailbox_update mailbox_remove split: option.split)

lemma own_mail:
  assumes "auth_gate v h = Pass c" "m \<in> set (mail_shown (snd (fst (serve v h r s))))"
  shows "vg_mailbox m = jc_extension c"
  using assms
  by (cases r) (auto simp: guarded_def require_self_extension_def get_metrics_def register_push_def unregister_push_def ivr_transfer_def
      originate_route_def stream_route_def vm_read_def vm_delete_def vm_list_def vm_audio_def split_beta listed_owner reply_ok_def
      reply_created_def reply_fail_def provider_reply_def get_health_def list_users_def one_user_def ivr_status_of_def ivr_recordings_of_def
      split: option.splits if_splits provider_answer.splits)

lemma own_push:
  assumes "auth_gate v h = Pass c" "x \<noteq> jc_extension c" "\<And>t. r \<noteq> Push_Unregister t"
  shows "m_get (ap_push (snd (serve v h r s))) x = m_get (ap_push s) x"
  using assms
  by (cases r) (auto simp: guarded_def require_self_extension_def get_metrics_def register_push_def ivr_transfer_def
      originate_route_def stream_route_def vm_read_def vm_delete_def split_beta push_register_other split: option.split)


text \<open>A transfer needs no token, and transfers nothing: whoever names a call that is in the IVR is told that it was
  transferred, and only its status changes.\<close>

theorem transfer_moves_nothing:
  assumes "ap_ivr s = Some i" "m_get (is_calls i) cid = Some c"
  shows "serve v h (Ivr_Transfer cid) s =
    ((200, Api_Flag ''success'' True),
     s\<lparr>ap_ivr := Some (i\<lparr>is_calls := m_set cid (c\<lparr>iv_status := IvConnected\<rparr>) (is_calls i)\<rparr>)\<rparr>)"
  using assms by (simp add: ivr_transfer_def reply_ok_def)

section \<open>Witness\<close>

definition desk_api :: api_env where
  "desk_api = \<lparr>ax_verify = (\<lambda>t. map_of [(''a'', \<lparr>jc_extension = ''1001'', jc_user_id = 1, jc_type = ''access''\<rparr>)] t),
     ax_decode = Some, ax_now = 0, ax_sip_up = True, ax_trunk = None, ax_provider = True,
     ax_answer = Provider_Ok ''CA1'' ''queued'', ax_query = True, ax_second_query = True, ax_ivr_enabled = True,
     ax_domain = ''voice.example'', ax_sip_ws_port = 5066, ax_ws_port = 3002, ax_ivr_entry = ''5000'', ax_vm_dir = ''/vm''\<rparr>"

definition desk_state :: api_state where
  "desk_state = \<lparr>ap_db = empty_db False ''USD'', ap_push = [], ap_mail = insert_voicemail ''/vm''
       (sample_voicemail\<lparr>vg_mailbox := ''1002''\<rparr>) (insert_voicemail ''/vm'' sample_voicemail \<lparr>vt_rows = [], vt_next = 1\<rparr>),
     ap_files = [''/vm/1001/vm_1.wav''], ap_ivr = None, ap_metrics = None, ap_requests = []\<rparr>"

lemma desk_gates:
  "auth_gate desk_api \<lparr>hh_authorization = None, hh_cookie = None\<rparr> = Reject 401 ''Missing authorization token''"
  "auth_gate desk_api \<lparr>hh_authorization = Some ''Bearer a'', hh_cookie = None\<rparr> =
    Pass \<lparr>jc_extension = ''1001'', jc_user_id = 1, jc_type = ''access''\<rparr>"
  by code_simp+


theorem transfer_moves_nothing_witness:
  "\<exists>s'. serve desk_api \<lparr>hh_authorization = None, hh_cookie = None\<rparr> (Ivr_Transfer ''c1'') (desk_state\<lparr>ap_ivr := Some
      \<lparr>is_calls = [(''c1'', \<lparr>iv_caller = ''+1'', iv_called = ''5000'', iv_hindi = False, iv_department = None, iv_status = IvMenu,
        iv_start = 0\<rparr>)], is_recordings = [], is_departments = [], is_connected = True\<rparr>\<rparr>) = ((200, Api_Flag ''success'' True), s')"
  by (rule exI, rule transfer_moves_nothing) (simp, simp)

end
