(* ===== verification/Audio_Codec.thy ===== *)
theory Audio_Codec
  imports Js_Number "HOL-Library.Word"
begin

text \<open>
  The audio path of the AI voice agents: the G.711 mu-law codec of
  \<^verbatim>\<open>src/src/trunk/streaming/audio.codec.ts\<close>, and the WAV parser, the mixdown and the resampler of
  \<^verbatim>\<open>src/src/trunk/streaming/ai/providers/audio.util.ts\<close>. Buffers are lists of bytes, samples
  integers of 16 bits; the interpolation is over rationals where the code has doubles.
\<close>

unbundle bit_operations_syntax

type_synonym bytes = "8 word list"

section \<open>Mu-law\<close>

definition mu_bias :: int where
  "mu_bias = 0x84"

definition mu_clip :: int where
  "mu_clip = 32635"

text \<open>The table of exponents, indexed by a byte.\<close>

definition exp_lut :: "int \<Rightarrow> nat" where
  "exp_lut i = (if i < 2 then 0 else if i < 4 then 1 else if i < 8 then 2 else if i < 16 then 3
     else if i < 32 then 4 else if i < 64 then 5 else if i < 128 then 6 else 7)"

definition encode_sample :: "int \<Rightarrow> 8 word" where
  "encode_sample sample =
     (let sign = drop_bit 8 sample AND 0x80;
          s1 = (if sign \<noteq> 0 then - sample else sample);
          s2 = (if s1 > mu_clip then mu_clip else s1) + mu_bias;
          exponent = exp_lut (drop_bit 7 s2 AND 0xff);
          mantissa = drop_bit (exponent + 3) s2 AND 0x0f
      in word_of_int (NOT (sign OR push_bit 4 (int exponent) OR mantissa) AND 0xff))"

definition decode_sample :: "8 word \<Rightarrow> int" where
  "decode_sample b =
     (let u = NOT (uint b) AND 0xff;
          t = push_bit (nat (drop_bit 4 (u AND 0x70))) (push_bit 3 (u AND 0x0f) + mu_bias)
      in if u AND 0x80 \<noteq> 0 then mu_bias - t else t - mu_bias)"

section \<open>Samples in buffers\<close>

text \<open>Little-endian reads; \<open>None\<close> is the range error of a read beyond the end.\<close>

definition read_u16 :: "bytes \<Rightarrow> nat \<Rightarrow> nat option" where
  "read_u16 b k = (if k + 2 \<le> length b then Some (unat (b ! k) + 256 * unat (b ! (k + 1))) else None)"

definition read_u32 :: "bytes \<Rightarrow> nat \<Rightarrow> nat option" where
  "read_u32 b k =
     (if k + 4 \<le> length b
      then Some (unat (b ! k) + 256 * unat (b ! (k + 1)) + 65536 * unat (b ! (k + 2)) + 16777216 * unat (b ! (k + 3)))
      else None)"

definition signed16 :: "8 word \<Rightarrow> 8 word \<Rightarrow> int" where
  "signed16 lo hi = (let n = uint lo + 256 * uint hi in if n < 32768 then n else n - 65536)"

fun samples_of :: "bytes \<Rightarrow> int list" where
  "samples_of (lo # hi # b) = signed16 lo hi # samples_of b"
| "samples_of _ = []"

definition write_s16 :: "int \<Rightarrow> bytes" where
  "write_s16 v = [word_of_int v, word_of_int (v div 256)]"

definition buffer_of :: "int list \<Rightarrow> bytes" where
  "buffer_of xs = concat (map write_s16 xs)"

definition mulaw_to_pcm16 :: "bytes \<Rightarrow> bytes" where
  "mulaw_to_pcm16 b = buffer_of (map decode_sample b)"

definition pcm16_to_mulaw :: "bytes \<Rightarrow> bytes" where
  "pcm16_to_mulaw b = map encode_sample (samples_of b)"

section \<open>Mixdown and resampling\<close>

fun frames_of :: "nat \<Rightarrow> nat \<Rightarrow> int list \<Rightarrow> int list list" where
  "frames_of 0 c xs = []"
| "frames_of (Suc n) c xs = take c xs # frames_of n c (drop c xs)"

definition to_mono :: "bytes \<Rightarrow> nat \<Rightarrow> bytes" where
  "to_mono pcm channels =
     (if channels \<le> 1 then pcm
      else buffer_of (map (\<lambda>fr. js_round (of_int (sum_list fr) / of_nat channels))
             (frames_of (length pcm div (2 * channels)) channels (samples_of pcm))))"

definition out_count :: "nat \<Rightarrow> nat \<Rightarrow> nat \<Rightarrow> nat" where
  "out_count n in_rate out_rate = max 1 (nat (js_round (of_nat (n * out_rate) / of_nat in_rate)))"

definition sample_at :: "int list \<Rightarrow> nat \<Rightarrow> nat \<Rightarrow> int" where
  "sample_at xs outs i =
     (let ratio = of_nat (length xs - 1) / of_nat (max 1 (outs - 1)) :: rat;
          pos = of_nat i * ratio;
          idx = nat \<lfloor>pos\<rfloor>;
          frac = pos - of_nat idx;
          a = xs ! idx;
          b = (if idx + 1 < length xs then xs ! (idx + 1) else a)
      in js_round (of_int a + of_int (b - a) * frac))"

definition resample_pcm16 :: "bytes \<Rightarrow> nat \<Rightarrow> nat \<Rightarrow> bytes" where
  "resample_pcm16 pcm in_rate out_rate =
     (if in_rate = out_rate then pcm
      else (let xs = samples_of pcm; outs = out_count (length xs) in_rate out_rate
            in if xs = [] then [] else buffer_of (map (sample_at xs outs) [0..<outs])))"

section \<open>WAV\<close>

record pcm_audio =
  pa_pcm :: bytes
  pa_rate :: nat
  pa_channels :: nat

datatype wav_error = Not_Wav | No_Data | Bad_Depth nat | Out_Of_Range

record wav_scan =
  ws_channels :: nat
  ws_rate :: nat
  ws_bits :: nat
  ws_pcm :: "bytes option"

definition ascii :: "bytes \<Rightarrow> nat \<Rightarrow> nat \<Rightarrow> string" where
  "ascii b k n = map (\<lambda>w. char_of (unat (w AND 0x7f))) (take n (drop k b))"

definition or_num :: "nat \<Rightarrow> nat \<Rightarrow> nat" where
  "or_num n d = (if n = 0 then d else n)"

definition wav_format :: "bytes \<Rightarrow> nat \<Rightarrow> wav_scan \<Rightarrow> wav_scan option" where
  "wav_format b body s =
     (case (read_u16 b (body + 2), read_u32 b (body + 4), read_u16 b (body + 14)) of
        (Some c, Some r, Some d) \<Rightarrow> Some (s\<lparr>ws_channels := or_num c 1, ws_rate := or_num r 8000, ws_bits := or_num d 16\<rparr>)
      | _ \<Rightarrow> None)"

text \<open>The walk over the chunks: each step moves on by the eight bytes of a chunk's header at least.\<close>

function wav_chunks :: "bytes \<Rightarrow> nat \<Rightarrow> wav_scan \<Rightarrow> wav_scan option" where
  "wav_chunks b offset s =
     (if offset + 8 \<le> length b
      then (let size = the (read_u32 b (offset + 4)); body = offset + 8; tag = ascii b offset 4; next = body + size + size mod 2
            in if tag = ''fmt '' then (case wav_format b body s of None \<Rightarrow> None | Some s' \<Rightarrow> wav_chunks b next s')
               else if tag = ''data'' then wav_chunks b next (s\<lparr>ws_pcm := Some (take (min (body + size) (length b) - body) (drop body b))\<rparr>)
               else wav_chunks b next s)
      else Some s)"
  by pat_completeness auto

termination
  by (relation "measure (\<lambda>(b, offset, s). length b - offset)") auto

definition parse_wav :: "bytes \<Rightarrow> wav_error + pcm_audio" where
  "parse_wav b =
     (if length b < 12 \<or> ascii b 0 4 \<noteq> ''RIFF'' \<or> ascii b 8 4 \<noteq> ''WAVE'' then Inl Not_Wav
      else (case wav_chunks b 12 \<lparr>ws_channels = 1, ws_rate = 8000, ws_bits = 16, ws_pcm = None\<rparr> of
              None \<Rightarrow> Inl Out_Of_Range
            | Some s \<Rightarrow>
                (case ws_pcm s of None \<Rightarrow> Inl No_Data
                 | Some pcm \<Rightarrow> if ws_bits s \<noteq> 16 then Inl (Bad_Depth (ws_bits s))
                     else Inr \<lparr>pa_pcm = pcm, pa_rate = ws_rate s, pa_channels = ws_channels s\<rparr>)))"

definition pcm16_to_mulaw8k :: "pcm_audio \<Rightarrow> bytes" where
  "pcm16_to_mulaw8k a = pcm16_to_mulaw (resample_pcm16 (to_mono (pa_pcm a) (pa_channels a)) (pa_rate a) 8000)"

definition wav_to_mulaw8k :: "bytes \<Rightarrow> wav_error + bytes" where
  "wav_to_mulaw8k b = (case parse_wav b of Inl e \<Rightarrow> Inl e | Inr a \<Rightarrow> Inr (pcm16_to_mulaw8k a))"

section \<open>Lemmas: one sample\<close>

text \<open>Every byte, by evaluation.\<close>

lemma code_words:
  "list_all (\<lambda>n. (n = 0x7f \<or> encode_sample (decode_sample (word_of_nat n)) = word_of_nat n) \<and>
     \<bar>decode_sample (word_of_nat n)\<bar> \<le> 32124) [0..<256]"
  by code_simp

text \<open>A byte of its three fields decodes to the middle of its step.\<close>

definition field_byte :: "int \<Rightarrow> nat \<Rightarrow> int \<Rightarrow> 8 word" where
  "field_byte sign e m = word_of_int (NOT (sign OR push_bit 4 (int e) OR m) AND 0xff)"

lemma decode_fields:
  "list_all (\<lambda>e. list_all (\<lambda>m. decode_sample (field_byte 0 e (int m)) = (8 * int m + 132) * 2 ^ e - 132 \<and>
     decode_sample (field_byte 0x80 e (int m)) = 132 - (8 * int m + 132) * 2 ^ e) [0..<16]) [0..<8]"
  by code_simp

lemma decode_field:
  assumes "e < 8" "0 \<le> m" "m < 16"
  shows "decode_sample (field_byte 0 e m) = (8 * m + 132) * 2 ^ e - 132"
    "decode_sample (field_byte 0x80 e m) = 132 - (8 * m + 132) * 2 ^ e"
proof -
  have "nat m \<in> set [0..<16]" "e \<in> set [0..<8]" using assms by auto
  then show "decode_sample (field_byte 0 e m) = (8 * m + 132) * 2 ^ e - 132"
    "decode_sample (field_byte 0x80 e m) = 132 - (8 * m + 132) * 2 ^ e"
    using decode_fields assms(2) unfolding list_all_iff by fastforce+
qed

text \<open>The sign bit.\<close>

lemma and_exp: "x AND 2 ^ n = of_bool (bit x n) * (2 ^ n :: int)"
  by (rule bit_eqI) (auto simp: bit_and_iff bit_exp_iff)

lemma sign_bit: "-32768 \<le> s \<Longrightarrow> s < 32768 \<Longrightarrow> drop_bit 8 s AND 0x80 = (if s < 0 then 0x80 else (0 :: int))"
proof -
  assume s: "-32768 \<le> s" "s < 32768"
  have "drop_bit 8 s AND 2 ^ 7 = of_bool (bit s 15) * (2 ^ 7 :: int)"
    using and_exp [of "drop_bit 8 s" 7] by (simp add: bit_drop_bit_eq)
  moreover have "s div 32768 = (if s < 0 then -1 else 0)" using s by auto
  then have "bit s 15 \<longleftrightarrow> s < 0" by (simp add: bit_iff_odd)
  ultimately show ?thesis by simp
qed

text \<open>The magnitude with its bias lies in the segment of its exponent.\<close>

lemma segment:
  assumes "132 \<le> (x :: int)" "x \<le> 32767"
  shows "exp_lut (drop_bit 7 x AND 0xff) < 8" "2 ^ (exp_lut (drop_bit 7 x AND 0xff) + 7) \<le> x"
    "x < 2 ^ (exp_lut (drop_bit 7 x AND 0xff) + 8)"
proof -
  have "drop_bit 7 x AND 0xff = take_bit 8 (x div 128)" by (simp add: drop_bit_eq_div take_bit_eq_mask mask_eq_exp_minus_1)
  also have "\<dots> = x div 128" using assms by (simp add: take_bit_eq_mod)
  finally have i: "drop_bit 7 x AND 0xff = x div 128" .
  show "exp_lut (drop_bit 7 x AND 0xff) < 8" by (simp add: exp_lut_def)
  show "2 ^ (exp_lut (drop_bit 7 x AND 0xff) + 7) \<le> x" "x < 2 ^ (exp_lut (drop_bit 7 x AND 0xff) + 8)"
    using assms unfolding i exp_lut_def by auto
qed

lemma mantissa_at:
  assumes "2 ^ (e + 7) \<le> (x :: int)" "x < 2 ^ (e + 8)"
  shows "drop_bit (e + 3) x AND 0x0f = x div 2 ^ (e + 3) - 16"
proof -
  have "2 ^ (e + 7) = 16 * (2 :: int) ^ (e + 3)" "2 ^ (e + 8) = 32 * (2 :: int) ^ (e + 3)" by (simp_all add: power_add)
  with assms have b: "16 * 2 ^ (e + 3) \<le> x" "x < 32 * 2 ^ (e + 3)" by simp_all
  have "2 ^ (e + 3) * (x div 2 ^ (e + 3)) \<le> x" by (simp add: minus_mod_eq_mult_div [symmetric] del: power_add power_Suc)
  then have "2 ^ (e + 3) * (x div 2 ^ (e + 3)) < 2 ^ (e + 3) * 32" using b(2) by linarith
  then have d: "16 \<le> x div 2 ^ (e + 3)" "x div 2 ^ (e + 3) < 32"
    using zdiv_mono1 [OF b(1), of "2 ^ (e + 3)"] by simp_all
  have "drop_bit (e + 3) x AND 0x0f = take_bit 4 (x div 2 ^ (e + 3))"
    by (simp only: drop_bit_eq_div take_bit_eq_mask) (simp add: mask_eq_exp_minus_1)
  also have "\<dots> = x div 2 ^ (e + 3) - 16"
  proof -
    have "x div 2 ^ (e + 3) mod 16 = (x div 2 ^ (e + 3) - 16) mod 16" by simp
    also have "\<dots> = x div 2 ^ (e + 3) - 16" using d by (intro mod_pos_pos_trivial) auto
    finally show ?thesis by (simp add: take_bit_eq_mod)
  qed
  finally show ?thesis .
qed

lemma mantissa_bounds:
  assumes "2 ^ (e + 7) \<le> (x :: int)" "x < 2 ^ (e + 8)"
  shows "0 \<le> drop_bit (e + 3) x AND 0x0f" "drop_bit (e + 3) x AND 0x0f < 16"
    "(16 + (drop_bit (e + 3) x AND 0x0f)) * 2 ^ (e + 3) \<le> x" "x < (17 + (drop_bit (e + 3) x AND 0x0f)) * 2 ^ (e + 3)"
proof -
  let ?p = "2 ^ (e + 3) :: int"
  have "drop_bit (e + 3) x AND 0x0f = take_bit 4 (drop_bit (e + 3) x)" by (simp add: take_bit_eq_mask mask_eq_exp_minus_1)
  then show "0 \<le> drop_bit (e + 3) x AND 0x0f" "drop_bit (e + 3) x AND 0x0f < 16"
    using take_bit_int_less_exp [of 4 "drop_bit (e + 3) x"] by simp_all
  have "x div ?p * ?p + x mod ?p = x" by (rule div_mult_mod_eq)
  moreover have "0 \<le> x mod ?p" "x mod ?p < ?p" by (simp_all add: pos_mod_bound pos_mod_sign del: power_add power_Suc)
  ultimately have "x div ?p * ?p \<le> x" "x < (1 + x div ?p) * ?p" by (simp_all only: distrib_right)
  then show "(16 + (drop_bit (e + 3) x AND 0x0f)) * 2 ^ (e + 3) \<le> x" "x < (17 + (drop_bit (e + 3) x AND 0x0f)) * 2 ^ (e + 3)"
    unfolding mantissa_at [OF assms] by simp_all
qed

lemma encode_fields:
  assumes "-32768 \<le> s" "s < 32768"
  shows "\<exists>e m. encode_sample s = field_byte (if s < 0 then 0x80 else 0) e m \<and> e < 8 \<and> 0 \<le> m \<and> m < 16 \<and>
    (16 + m) * 2 ^ (e + 3) \<le> min \<bar>s\<bar> mu_clip + 132 \<and> min \<bar>s\<bar> mu_clip + 132 < (17 + m) * 2 ^ (e + 3)"
proof -
  let ?x = "min \<bar>s\<bar> mu_clip + 132"
  let ?e = "exp_lut (drop_bit 7 ?x AND 0xff)"
  have x: "132 \<le> ?x" "?x \<le> 32767" by (simp_all add: mu_clip_def)
  note seg = segment [OF x]
  have "encode_sample s = field_byte (if s < 0 then 0x80 else 0) ?e (drop_bit (?e + 3) ?x AND 0x0f)"
    using sign_bit [OF assms] by (auto simp: encode_sample_def field_byte_def mu_bias_def min_def Let_def)
  with seg(1) mantissa_bounds [OF seg(2,3)] show ?thesis by blast
qed

lemma middle_near: "(a :: int) \<le> x \<Longrightarrow> x < a + 8 * p \<Longrightarrow> 128 * p \<le> a \<Longrightarrow> 32 * \<bar>a + 4 * p - x\<bar> \<le> x"
  by (auto simp: abs_if)

lemma codes_kept:
  assumes "b \<noteq> 0x7f"
  shows "encode_sample (decode_sample b) = b"
proof -
  have n: "unat b \<in> set [0..<256]" using unsigned_less [of b, where ?'a = nat] by simp
  have w: "word_of_nat (unat b) = b" by simp
  have "unat b \<noteq> 0x7f" using assms w by (metis of_nat_numeral)
  with code_words n show ?thesis unfolding list_all_iff by (auto simp: w dest!: bspec [OF _ n])
qed

lemma sample_near:
  assumes "-32768 \<le> s" "s < 32768"
  shows "32 * \<bar>decode_sample (encode_sample s) - max (- mu_clip) (min s mu_clip)\<bar> \<le> min \<bar>s\<bar> mu_clip + 132"
proof -
  obtain e m where em: "encode_sample s = field_byte (if s < 0 then 0x80 else 0) e m" "e < 8" "0 \<le> m" "m < 16"
    "(16 + m) * 2 ^ (e + 3) \<le> min \<bar>s\<bar> mu_clip + 132" "min \<bar>s\<bar> mu_clip + 132 < (17 + m) * 2 ^ (e + 3)"
    using encode_fields [OF assms] by blast
  let ?a = "(8 * m + 128) * 2 ^ e" and ?p = "2 ^ e :: int"
  have b: "?a \<le> min \<bar>s\<bar> mu_clip + 132" "min \<bar>s\<bar> mu_clip + 132 < ?a + 8 * ?p"
    using em(5,6) by (simp_all add: power_add distrib_right)
  have "128 * ?p \<le> ?a" using em(3) by (intro mult_right_mono) simp_all
  with b have near: "32 * \<bar>?a + 4 * ?p - (min \<bar>s\<bar> mu_clip + 132)\<bar> \<le> min \<bar>s\<bar> mu_clip + 132"
    by (rule middle_near)
  have mid: "(8 * m + 132) * ?p = ?a + 4 * ?p" by (simp add: distrib_right)
  show ?thesis
  proof (cases "s < 0")
    case True
    then have "decode_sample (encode_sample s) = 132 - (?a + 4 * ?p)"
      using em(1) decode_field(2) [OF em(2-4)] mid by simp
    moreover have "max (- mu_clip) (min s mu_clip) = - min \<bar>s\<bar> mu_clip" using True by (simp add: mu_clip_def)
    ultimately have "decode_sample (encode_sample s) - max (- mu_clip) (min s mu_clip) =
        - (?a + 4 * ?p - (min \<bar>s\<bar> mu_clip + 132))" by simp
    with near show ?thesis by (simp only: abs_minus_cancel)
  next
    case False
    then have "decode_sample (encode_sample s) = ?a + 4 * ?p - 132"
      using em(1) decode_field(1) [OF em(2-4)] mid by simp
    moreover have "max (- mu_clip) (min s mu_clip) = min \<bar>s\<bar> mu_clip" using False by (simp add: mu_clip_def)
    ultimately have "decode_sample (encode_sample s) - max (- mu_clip) (min s mu_clip) =
        ?a + 4 * ?p - (min \<bar>s\<bar> mu_clip + 132)" by simp
    with near show ?thesis by (simp only:)
  qed
qed

text \<open>C39: the mu-law codec is accurate. Over the whole 16-bit range, decoding the code of a sample gives a value whose
  distance to the sample, clipped to 32,635, is at most one part in 32 of its magnitude plus the bias; and every code but that of
  the negative zero survives decoding and encoding.\<close>

theorem mulaw_accurate:
  assumes "-32768 \<le> s" "s < 32768" "b \<noteq> 0x7f"
  shows "32 * \<bar>decode_sample (encode_sample s) - max (- mu_clip) (min s mu_clip)\<bar> \<le> min \<bar>s\<bar> mu_clip + 132
    \<and> encode_sample (decode_sample b) = b"
  using sample_near [OF assms(1,2)] codes_kept [OF assms(3)] by blast

theorem mulaw_accurate_witness:
  "32 * \<bar>decode_sample (encode_sample (-20000)) - max (- mu_clip) (min (-20000) mu_clip)\<bar> \<le> min 20000 mu_clip + 132 \<and>
   encode_sample (decode_sample 0x12) = 0x12"
  using mulaw_accurate [of "-20000" "0x12"] by simp

section \<open>Lemmas: buffers\<close>

lemma length_samples [simp]: "length (samples_of b) = length b div 2"
  by (induction b rule: samples_of.induct) simp_all

lemma length_buffer [simp]: "length (buffer_of xs) = 2 * length xs"
  by (induction xs) (simp_all add: buffer_of_def write_s16_def)

definition is_s16 :: "int \<Rightarrow> bool" where
  "is_s16 v \<longleftrightarrow> -32768 \<le> v \<and> v < 32768"

lemma signed16_range: "is_s16 (signed16 lo hi)"
proof -
  have "0 \<le> uint lo" "uint lo < 256" "0 \<le> uint hi" "uint hi < 256"
    using unsigned_less [of lo, where ?'a = int] unsigned_less [of hi, where ?'a = int] by simp_all
  then show ?thesis unfolding is_s16_def signed16_def Let_def by (simp only: split: if_split) (intro conjI impI; linarith)
qed

lemma write_read: "is_s16 v \<Longrightarrow> signed16 (word_of_int v) (word_of_int (v div 256)) = v"
proof -
  assume v: "is_s16 v"
  have "v = v mod 256 + 256 * (v div 256)" by simp
  moreover have "v div 256 mod 256 = (if v < 0 then v div 256 + 256 else v div 256)"
  proof (cases "v < 0")
    case True
    have "v div 256 mod 256 = (v div 256 + 256) mod 256" by simp
    also have "\<dots> = v div 256 + 256" using v True by (intro mod_pos_pos_trivial) (auto simp: is_s16_def)
    finally show ?thesis using True by simp
  next
    case False
    then show ?thesis using v by (simp add: is_s16_def mod_pos_pos_trivial)
  qed
  ultimately show ?thesis
    using v by (auto simp: signed16_def Let_def unsigned_of_int take_bit_eq_mod is_s16_def)
qed

lemma samples_buffer: "list_all is_s16 xs \<Longrightarrow> samples_of (buffer_of xs) = xs"
  by (induction xs) (simp_all add: buffer_of_def write_s16_def write_read)

lemma samples_range: "list_all is_s16 (samples_of b)"
  by (induction b rule: samples_of.induct) (simp_all add: signed16_range)

section \<open>Lemmas: interpolation\<close>

lemma between:
  assumes "lo \<le> a" "lo \<le> b" "a \<le> hi" "b \<le> hi" "0 \<le> f" "f \<le> (1 :: rat)"
  shows "lo \<le> a + (b - a) * f \<and> a + (b - a) * f \<le> hi"
proof -
  have eq: "a + (b - a) * f = (1 - f) * a + f * b" by (simp add: algebra_simps)
  have "(1 - f) * lo + f * lo \<le> (1 - f) * a + f * b" using assms by (intro add_mono mult_left_mono) simp_all
  moreover have "(1 - f) * a + f * b \<le> (1 - f) * hi + f * hi" using assms by (intro add_mono mult_left_mono) simp_all
  ultimately show ?thesis unfolding eq by (simp add: algebra_simps)
qed

lemma sample_between:
  assumes "xs \<noteq> []" "i < outs" "\<forall>x\<in>set xs. lo \<le> x \<and> x \<le> hi"
  shows "lo \<le> sample_at xs outs i \<and> sample_at xs outs i \<le> hi"
proof -
  define ratio :: rat where "ratio = of_nat (length xs - 1) / of_nat (max 1 (outs - 1))"
  define pos where "pos = of_nat i * ratio"
  define idx where "idx = nat \<lfloor>pos\<rfloor>"
  define b where "b = (if idx + 1 < length xs then xs ! (idx + 1) else xs ! idx)"
  have "0 \<le> pos" by (simp add: pos_def ratio_def)
  have "pos \<le> of_nat (length xs - 1)"
  proof -
    have "i \<le> max 1 (outs - 1)" using assms(2) by (simp add: le_max_iff_disj, linarith)
    then have "of_nat i / of_nat (max 1 (outs - 1)) \<le> (1 :: rat)" by (simp add: divide_le_eq)
    then have "of_nat (length xs - 1) * (of_nat i / of_nat (max 1 (outs - 1))) \<le> of_nat (length xs - 1) * (1 :: rat)"
      by (intro mult_left_mono) simp_all
    then show ?thesis by (simp add: pos_def ratio_def mult.commute)
  qed
  then have idx: "idx < length xs"
    using assms(1) \<open>0 \<le> pos\<close> by (cases xs) (auto simp: idx_def nat_less_iff floor_less_iff)
  have "xs ! idx \<in> set xs" "b \<in> set xs" using idx by (auto simp: b_def)
  then have ab: "lo \<le> xs ! idx" "lo \<le> b" "xs ! idx \<le> hi" "b \<le> hi" using assms(3) by auto
  have f: "0 \<le> pos - of_nat idx" "pos - of_nat idx \<le> 1"
    using \<open>0 \<le> pos\<close> by (simp_all add: idx_def) linarith+
  have "of_int lo \<le> of_int (xs ! idx) + of_int (b - xs ! idx) * (pos - of_nat idx) \<and>
      of_int (xs ! idx) + of_int (b - xs ! idx) * (pos - of_nat idx) \<le> of_int hi"
    using between [of "of_int lo" "of_int (xs ! idx)" "of_int b" "of_int hi" "pos - of_nat idx"] ab f by simp
  then have "js_round (of_int lo) \<le> js_round (of_int (xs ! idx) + of_int (b - xs ! idx) * (pos - of_nat idx))"
    "js_round (of_int (xs ! idx) + of_int (b - xs ! idx) * (pos - of_nat idx)) \<le> js_round (of_int hi)"
    by (blast intro: js_round_mono)+
  moreover have "sample_at xs outs i = js_round (of_int (xs ! idx) + of_int (b - xs ! idx) * (pos - of_nat idx))"
    by (simp only: sample_at_def Let_def b_def idx_def pos_def ratio_def)
  ultimately show ?thesis by (simp only: js_round_int)
qed

lemma sample_first: "xs \<noteq> [] \<Longrightarrow> sample_at xs outs 0 = hd xs"
  by (simp add: sample_at_def Let_def hd_conv_nth)

lemma sample_last: "xs \<noteq> [] \<Longrightarrow> 2 \<le> outs \<Longrightarrow> sample_at xs outs (outs - 1) = last xs"
  by (simp add: sample_at_def Let_def last_conv_nth max_def)

text \<open>resampling stays in range and in time. The output has the length that the rates ask for; no sample of it lies outside
  of the loudest and the softest input sample, so that no write into the buffer is out of range; and
  the first and the last sample are the input's.\<close>

theorem resample_bounded:
  assumes "in_rate \<noteq> out_rate" "samples_of pcm \<noteq> []"
  shows "let xs = samples_of pcm; ys = samples_of (resample_pcm16 pcm in_rate out_rate)
    in length ys = out_count (length xs) in_rate out_rate \<and>
       list_all (\<lambda>y. Min (set xs) \<le> y \<and> y \<le> Max (set xs)) ys \<and> hd ys = hd xs \<and>
       (2 \<le> length ys \<longrightarrow> last ys = last xs)"
proof -
  let ?xs = "samples_of pcm" let ?n = "out_count (length ?xs) in_rate out_rate"
  let ?ys = "map (sample_at ?xs ?n) [0..<?n]"
  have n: "0 < ?n" by (simp add: out_count_def)
  have all: "list_all (\<lambda>y. Min (set ?xs) \<le> y \<and> y \<le> Max (set ?xs)) ?ys"
    using sample_between [OF assms(2), of _ ?n "Min (set ?xs)" "Max (set ?xs)"] by (auto simp: list_all_iff)
  have "is_s16 (Min (set ?xs))" "is_s16 (Max (set ?xs))"
    using samples_range [of pcm] Min_in [of "set ?xs"] Max_in [of "set ?xs"] assms(2) by (auto simp: list_all_iff)
  with all have "list_all is_s16 ?ys" by (force simp: list_all_iff is_s16_def)
  then have "samples_of (resample_pcm16 pcm in_rate out_rate) = ?ys"
    using assms by (simp add: resample_pcm16_def Let_def samples_buffer)
  moreover have "hd ?ys = hd ?xs" using n sample_first [OF assms(2)] by (simp add: hd_map)
  moreover have "last ?ys = last ?xs" if "2 \<le> length ?ys" using n that sample_last [OF assms(2)] by (simp add: last_map)
  ultimately show ?thesis using all by (simp add: Let_def)
qed

theorem resample_bounded_witness:
  "hd (samples_of (resample_pcm16 (buffer_of [100, -100, 300]) 24000 8000)) = 100"
proof -
  have s: "samples_of (buffer_of [100, -100, 300]) = [100, -100, 300]" by (rule samples_buffer) (simp add: is_s16_def)
  show ?thesis using resample_bounded [of 24000 8000 "buffer_of [100, -100, 300]"] by (simp add: s Let_def)
qed

end
