(* ===== verification/Form_Url.thy ===== *)
theory Form_Url
  imports Prelude
begin

text \<open>
  Query strings as the platform writes and reads them: \<^verbatim>\<open>URLSearchParams\<close> (form encoding) and
  \<^verbatim>\<open>encodeURIComponent\<close>, over the bytes of the text. The media URL of
  \<^verbatim>\<open>src/src/trunk/streaming/webhook.ts\<close> is written with the first, and the media server reads its
  parameters back from there.
\<close>

definition hex_char :: "nat \<Rightarrow> char" where
  "hex_char n = char_of (if n < 10 then 48 + n else 55 + n)"

definition hex_digit :: "char \<Rightarrow> nat option" where
  "hex_digit c = (let n = of_char c in if is_digit c then Some (n - 48)
     else if 65 \<le> n \<and> n \<le> 70 then Some (n - 55) else if 97 \<le> n \<and> n \<le> 102 then Some (n - 87) else None)"

definition percent :: "char \<Rightarrow> string" where
  "percent c = [CHR ''%'', hex_char (of_char c div 16), hex_char (of_char c mod 16)]"

definition form_char :: "char \<Rightarrow> string" where
  "form_char c = (if c = CHR '' '' then ''+'' else if is_letter c \<or> is_digit c \<or> c \<in> set ''*-._'' then [c] else percent c)"

definition form_encode :: "string \<Rightarrow> string" where
  "form_encode s = concat (map form_char s)"

definition encode_uri_component :: "string \<Rightarrow> string" where
  "encode_uri_component s =
     concat (map (\<lambda>c. if is_letter c \<or> is_digit c \<or> c \<in> set ''-_.!~*()'' \<or> c = CHR 0x27 then [c] else percent c) s)"

fun form_decode :: "string \<Rightarrow> string" where
  "form_decode [] = []"
| "form_decode (c # s) =
     (if c = CHR ''+'' then CHR '' '' # form_decode s
      else if c = CHR ''%'' then
        (case map hex_digit (take 2 s) of [Some a, Some b] \<Rightarrow> char_of (16 * a + b) # form_decode (drop 2 s)
         | _ \<Rightarrow> c # form_decode s)
      else c # form_decode s)"

text \<open>\<^verbatim>\<open>xs.join(sep)\<close>, \<^verbatim>\<open>new URLSearchParams(q)\<close> and its \<^verbatim>\<open>toString()\<close>.\<close>

fun join_with :: "string \<Rightarrow> string list \<Rightarrow> string" where
  "join_with sep [] = []"
| "join_with sep [x] = x"
| "join_with sep (x # xs) = x @ sep @ join_with sep xs"

definition query_string :: "(string \<times> string) list \<Rightarrow> string" where
  "query_string ps = join_with ''&'' (map (\<lambda>p. form_encode (fst p) @ ''='' @ form_encode (snd p)) ps)"

definition query_pair :: "string \<Rightarrow> string \<times> string" where
  "query_pair x = (form_decode (takeWhile (\<lambda>c. c \<noteq> CHR ''='') x), form_decode (tl (dropWhile (\<lambda>c. c \<noteq> CHR ''='') x)))"

definition query_pairs :: "string \<Rightarrow> (string \<times> string) list" where
  "query_pairs q = map query_pair (filter (\<lambda>x. x \<noteq> []) (split_on (CHR ''&'') q))"

section \<open>Round trip\<close>

lemma hex_round: "n < 16 \<Longrightarrow> hex_digit (hex_char n) = Some n"
  by (auto simp: hex_digit_def hex_char_def is_digit_def Let_def)

lemma byte_half: "(of_char c :: nat) div 16 < 16"
  using nat_of_char_less_256 [of c] by (intro less_mult_imp_div_less) simp

lemma percent_decoded: "form_decode (percent c @ s) = c # form_decode s"
proof -
  have "(of_char c :: nat) mod 16 < 16" by simp
  note byte_half [of c] this
  moreover have "char_of (16 * ((of_char c :: nat) div 16) + of_char c mod 16) = c" by simp
  ultimately show ?thesis by (simp add: percent_def hex_round)
qed

lemma plain_not_special:
  "is_letter c \<or> is_digit c \<Longrightarrow> c \<notin> set ''+%&= ''"
  by (auto simp: is_letter_def is_lower_def is_upper_def is_digit_def)

lemma char_decoded: "form_decode (form_char c @ s) = c # form_decode s"
  using plain_not_special [of c] percent_decoded by (auto simp: form_char_def)

lemma form_round [simp]: "form_decode (form_encode s) = s"
  by (induction s) (simp_all add: form_encode_def char_decoded)

lemma hex_chars: "n < 16 \<Longrightarrow> is_letter (hex_char n) \<or> is_digit (hex_char n)"
  by (auto simp: hex_char_def is_letter_def is_lower_def is_upper_def is_digit_def)

definition form_safe :: "char \<Rightarrow> bool" where
  "form_safe x \<longleftrightarrow> is_letter x \<or> is_digit x \<or> x \<in> set ''*-._+%''"

lemma form_char_safe: "list_all form_safe (form_char c)"
  using hex_chars [OF byte_half [of c]] hex_chars [of "of_char c mod 16"]
  by (simp add: form_char_def percent_def form_safe_def) blast

lemma form_encode_safe: "x \<in> set (form_encode s) \<Longrightarrow> form_safe x"
  using form_char_safe by (auto simp: form_encode_def list_all_iff)

lemma safe_not: "form_safe x \<Longrightarrow> x \<noteq> CHR ''&'' \<and> x \<noteq> CHR ''='' \<and> x \<noteq> CHR ''#'' \<and> x \<noteq> CHR ''?''"
  by (rule ccontr) (auto simp: form_safe_def is_letter_def is_lower_def is_upper_def is_digit_def)

lemma form_chars: "x \<in> set (form_encode s) \<Longrightarrow> x \<noteq> CHR ''&'' \<and> x \<noteq> CHR ''='' \<and> x \<noteq> CHR ''#'' \<and> x \<noteq> CHR ''?''"
  by (rule safe_not) (rule form_encode_safe)

lemma pair_round: "query_pair (form_encode k @ ''='' @ form_encode v) = (k, v)"
proof -
  have "\<forall>x\<in>set (form_encode k). x \<noteq> CHR ''=''" using form_chars by blast
  then show ?thesis by (simp add: query_pair_def takeWhile_append2 dropWhile_append2)
qed

text \<open>What a query string was written from is what is read from it.\<close>

lemma query_round: "query_pairs (query_string ps) = ps"
proof -
  have amp: "CHR ''&'' \<notin> set (form_encode k @ ''='' @ form_encode v)" for k v using form_chars by auto
  have "filter (\<lambda>x. x \<noteq> []) (split_on (CHR ''&'') (query_string ps)) =
    map (\<lambda>p. form_encode (fst p) @ ''='' @ form_encode (snd p)) ps"
    unfolding query_string_def
  proof (induction ps rule: induct_list012)
    case (2 p)
    then show ?case using split_on_no_sep [OF amp [of "fst p" "snd p"]] by simp
  next
    case (3 p q ps)
    then show ?case using split_on_append [OF amp [of "fst p" "snd p"]] by simp
  qed simp
  then show ?thesis by (simp add: query_pairs_def comp_def pair_round del: append_Cons)
qed

lemma query_chars: "x \<in> set (query_string ps) \<Longrightarrow> x \<noteq> CHR ''#'' \<and> x \<noteq> CHR ''?''"
  unfolding query_string_def
  by (induction ps rule: induct_list012) (auto dest: form_chars)

lemma query_empty: "query_string ps = [] \<longleftrightarrow> ps = []"
  by (cases ps rule: list.exhaust; cases "tl ps") (auto simp: query_string_def neq_Nil_conv)

end
