(* ===== verification/Json.thy ===== *)
theory Json
  imports Js_Number
begin

text \<open>Parsed JSON values and the accesses that the code makes to them.\<close>

datatype json = J_Null | J_Bool bool | J_Num rat | J_Str string | J_Arr "json list" | J_Obj "(string, json) js_map"

text \<open>\<^verbatim>\<open>v?.k\<close>, \<^verbatim>\<open>v ?? d\<close> and truth, with \<open>None\<close> for \<^verbatim>\<open>undefined\<close>.\<close>

definition j_prop :: "json option \<Rightarrow> string \<Rightarrow> json option" where
  "j_prop v k = (case v of Some (J_Obj m) \<Rightarrow> m_get m k | _ \<Rightarrow> None)"

definition j_or :: "json option \<Rightarrow> json option \<Rightarrow> json option" where
  "j_or v d = (case v of None \<Rightarrow> d | Some J_Null \<Rightarrow> d | Some x \<Rightarrow> Some x)"

definition j_true :: "json option \<Rightarrow> bool" where
  "j_true v = (case v of None \<Rightarrow> False | Some J_Null \<Rightarrow> False | Some (J_Bool b) \<Rightarrow> b | Some (J_Num q) \<Rightarrow> q \<noteq> 0
     | Some (J_Str s) \<Rightarrow> s \<noteq> [] | Some _ \<Rightarrow> True)"

end
