(* ===== verification/Media_Protocol.thy ===== *)
theory Media_Protocol
  imports Audio_Codec Form_Url Json
begin

text \<open>
  The wire protocols of the media streams: base64, the messages of Twilio, Plivo and FreeSWITCH
  (\<^verbatim>\<open>src/src/trunk/streaming/twilio.protocol.ts\<close>, \<^verbatim>\<open>plivo.protocol.ts\<close>, \<^verbatim>\<open>freeswitch.protocol.ts\<close>) and
  the choice between them (\<^verbatim>\<open>media-stream.server.ts\<close>). Messages are parsed JSON values, as the code has them.
\<close>

section \<open>Base64\<close>

definition b64_char :: "nat \<Rightarrow> char" where
  "b64_char n = char_of (if n < 26 then 65 + n else if n < 52 then 71 + n else if n < 62 then n - 4 else if n = 62 then 43 else 47)"

definition b64_val :: "char \<Rightarrow> nat option" where
  "b64_val c = (let n = of_char c in if is_upper c then Some (n - 65) else if is_lower c then Some (n - 71)
     else if is_digit c then Some (n + 4) else if n = 43 \<or> n = 45 then Some 62 else if n = 47 \<or> n = 95 then Some 63 else None)"

fun b64_encode :: "bytes \<Rightarrow> string" where
  "b64_encode [] = []"
| "b64_encode [a] = [b64_char (unat a div 4), b64_char (unat a mod 4 * 16), CHR ''='', CHR ''='']"
| "b64_encode [a, b] = [b64_char (unat a div 4), b64_char (unat a mod 4 * 16 + unat b div 16),
     b64_char (unat b mod 16 * 4), CHR ''='']"
| "b64_encode (a # b # c # r) = b64_char (unat a div 4) # b64_char (unat a mod 4 * 16 + unat b div 16)
     # b64_char (unat b mod 16 * 4 + unat c div 64) # b64_char (unat c mod 64) # b64_encode r"

definition byte_of :: "nat \<Rightarrow> 8 word" where
  "byte_of n = of_nat n"

fun b64_groups :: "nat list \<Rightarrow> bytes" where
  "b64_groups (w # x # y # z # r) =
     byte_of (w * 4 + x div 16) # byte_of (x mod 16 * 16 + y div 4) # byte_of (y mod 4 * 64 + z) # b64_groups r"
| "b64_groups [w, x, y] = [byte_of (w * 4 + x div 16), byte_of (x mod 16 * 16 + y div 4)]"
| "b64_groups [w, x] = [byte_of (w * 4 + x div 16)]"
| "b64_groups _ = []"

text \<open>\<^verbatim>\<open>Buffer.from(s, 'base64')\<close>: both alphabets, other characters skipped, up to the padding.\<close>

definition b64_decode :: "string \<Rightarrow> bytes" where
  "b64_decode s = b64_groups (List.map_filter b64_val (takeWhile (\<lambda>c. c \<noteq> CHR ''='') s))"

section \<open>The platform\<close>

text \<open>
  The platform's parser and printer of JSON, and its conversions of values that are not what a carrier
  sends: \<^verbatim>\<open>String(v)\<close>, \<^verbatim>\<open>Number(v)\<close> and \<^verbatim>\<open>Buffer.from(v, 'base64')\<close> of anything but a text; the last may throw.
\<close>

record platform =
  pf_parse :: "bytes \<Rightarrow> json option"
  pf_show :: "json \<Rightarrow> bytes"
  pf_string :: "json \<Rightarrow> string"
  pf_number :: "json \<Rightarrow> js_num"
  pf_buffer :: "json \<Rightarrow> bytes option"

definition j_string :: "platform \<Rightarrow> json \<Rightarrow> string" where
  "j_string p v = (case v of J_Str s \<Rightarrow> s | _ \<Rightarrow> pf_string p v)"

definition j_number :: "platform \<Rightarrow> json option \<Rightarrow> rat \<Rightarrow> rat" where
  "j_number p v d =
     (case (case v of None \<Rightarrow> NaN | Some (J_Num q) \<Rightarrow> Num q | Some (J_Str s) \<Rightarrow> js_number s | Some x \<Rightarrow> pf_number p x) of
        Num q \<Rightarrow> if q = 0 then d else q | _ \<Rightarrow> d)"

definition j_buffer :: "platform \<Rightarrow> json option \<Rightarrow> bytes option" where
  "j_buffer p v = (case v of None \<Rightarrow> Some [] | Some (J_Str s) \<Rightarrow> Some (b64_decode s) | Some x \<Rightarrow> pf_buffer p x)"

section \<open>Starts and frames\<close>

datatype stream_source = Src_Twilio | Src_Plivo | Src_Freeswitch

datatype media_encoding = Mulaw | L16

record media_format =
  mf_encoding :: media_encoding
  mf_rate :: rat
  mf_channels :: rat

record stream_start =
  ss_provider :: stream_source
  ss_stream :: json
  ss_call :: "json option"
  ss_tracks :: "json list"
  ss_format :: "media_format option"
  ss_params :: json

record media_frame =
  fr_track :: "json option"
  fr_audio :: bytes
  fr_timestamp :: "json option"
  fr_sequence :: "json option"

definition normalize_encoding :: "json option \<Rightarrow> media_encoding" where
  "normalize_encoding e = (if e = Some (J_Str ''audio/x-mulaw'') \<or> e = Some (J_Str ''mulaw'') then Mulaw else L16)"

definition j_object :: "json option \<Rightarrow> json option" where
  "j_object v = j_or v (Some (J_Obj []))"

definition decode_format :: "platform \<Rightarrow> json option \<Rightarrow> media_format option" where
  "decode_format p start =
     (let fmt = j_object (j_prop start ''mediaFormat'')
      in if j_true (j_prop fmt ''encoding'')
         then Some \<lparr>mf_encoding = normalize_encoding (j_prop fmt ''encoding''),
           mf_rate = j_number p (j_prop fmt ''sampleRate'') 8000, mf_channels = j_number p (j_prop fmt ''channels'') 1\<rparr>
         else None)"

definition decode_tracks :: "json option \<Rightarrow> json list" where
  "decode_tracks start = (case j_prop start ''tracks'' of Some (J_Arr ts) \<Rightarrow> ts | _ \<Rightarrow> [])"

definition decode_twilio_start :: "platform \<Rightarrow> json \<Rightarrow> stream_start" where
  "decode_twilio_start p msg =
     (let start = j_object (j_prop (Some msg) ''start'')
      in \<lparr>ss_provider = Src_Twilio,
          ss_stream = or_else (j_or (j_prop (Some msg) ''streamSid'') (j_or (j_prop start ''streamSid'') None)) (J_Str []),
          ss_call = j_prop start ''callSid'', ss_tracks = decode_tracks start, ss_format = decode_format p start,
          ss_params = the (j_object (j_prop start ''customParameters''))\<rparr>)"

definition params_object :: "(string, string) js_map \<Rightarrow> json" where
  "params_object ps = J_Obj (m_map J_Str ps)"

definition decode_plivo_start :: "platform \<Rightarrow> json \<Rightarrow> (string, string) js_map \<Rightarrow> stream_start" where
  "decode_plivo_start p msg params =
     (let start = j_object (j_prop (Some msg) ''start'')
      in \<lparr>ss_provider = Src_Plivo,
          ss_stream = or_else (j_or (j_prop (Some msg) ''streamId'') (j_or (j_prop start ''streamId'') None)) (J_Str []),
          ss_call = j_prop start ''callId'', ss_tracks = decode_tracks start, ss_format = decode_format p start,
          ss_params = params_object params\<rparr>)"

definition decode_fs_start :: "string \<Rightarrow> (string, string) js_map \<Rightarrow> stream_start" where
  "decode_fs_start url params =
     (let uuid = (let l = last (split_on (CHR ''/'') url) in if l = [] then ''unknown'' else l)
      in \<lparr>ss_provider = Src_Freeswitch, ss_stream = J_Str uuid, ss_call = Some (J_Str uuid), ss_tracks = [J_Str ''inbound''],
          ss_format = Some \<lparr>mf_encoding = L16, mf_rate = 16000, mf_channels = 1\<rparr>, ss_params = params_object params\<rparr>)"

text \<open>Twilio's and Plivo's frames are decoded alike; \<open>None\<close> is the exception of a payload that is no text.\<close>

definition decode_media :: "platform \<Rightarrow> json \<Rightarrow> media_frame option" where
  "decode_media p msg =
     (let m = j_object (j_prop (Some msg) ''media'')
      in map_option (\<lambda>b. \<lparr>fr_track = j_prop m ''track'', fr_audio = b, fr_timestamp = j_prop m ''timestamp'',
           fr_sequence = j_prop (Some msg) ''sequenceNumber''\<rparr>) (j_buffer p (j_or (j_prop m ''payload'') (Some (J_Str [])))))"

definition decode_fs_media :: "bytes \<Rightarrow> media_frame" where
  "decode_fs_media raw = \<lparr>fr_track = None, fr_audio = pcm16_to_mulaw raw, fr_timestamp = None, fr_sequence = None\<rparr>"

section \<open>What is sent back\<close>

definition encode_twilio_media :: "json \<Rightarrow> bytes \<Rightarrow> json" where
  "encode_twilio_media sid audio = J_Obj [(''event'', J_Str ''media''), (''streamSid'', sid),
     (''media'', J_Obj [(''payload'', J_Str (b64_encode audio))])]"

definition encode_twilio_clear :: "json \<Rightarrow> json" where
  "encode_twilio_clear sid = J_Obj [(''event'', J_Str ''clear''), (''streamSid'', sid)]"

definition encode_twilio_mark :: "json \<Rightarrow> string \<Rightarrow> json" where
  "encode_twilio_mark sid name = J_Obj [(''event'', J_Str ''mark''), (''streamSid'', sid), (''mark'', J_Obj [(''name'', J_Str name)])]"

definition encode_plivo_media :: "json \<Rightarrow> bytes \<Rightarrow> json" where
  "encode_plivo_media sid audio = J_Obj [(''event'', J_Str ''playAudio''),
     (''media'', J_Obj [(''contentType'', J_Str ''audio/x-mulaw''), (''sampleRate'', J_Num 8000), (''payload'', J_Str (b64_encode audio))])]"

definition encode_plivo_clear :: "json \<Rightarrow> json" where
  "encode_plivo_clear sid = J_Obj [(''event'', J_Str ''clearAudio''), (''streamId'', sid)]"

definition encode_plivo_mark :: "json \<Rightarrow> string \<Rightarrow> json" where
  "encode_plivo_mark sid name = J_Obj [(''event'', J_Str ''checkpoint''), (''streamId'', sid), (''name'', J_Str name)]"

datatype playback = Play bytes | Clear | Mark string

text \<open>FreeSWITCH gets an empty text for everything.\<close>

definition encode_playback :: "platform \<Rightarrow> stream_source \<Rightarrow> json \<Rightarrow> playback \<Rightarrow> bytes" where
  "encode_playback p src sid b =
     (case src of
        Src_Twilio \<Rightarrow> pf_show p (case b of Play a \<Rightarrow> encode_twilio_media sid a | Clear \<Rightarrow> encode_twilio_clear sid | Mark n \<Rightarrow> encode_twilio_mark sid n)
      | Src_Plivo \<Rightarrow> pf_show p (case b of Play a \<Rightarrow> encode_plivo_media sid a | Clear \<Rightarrow> encode_plivo_clear sid | Mark n \<Rightarrow> encode_plivo_mark sid n)
      | Src_Freeswitch \<Rightarrow> [])"

definition select_protocol :: "string \<Rightarrow> stream_source" where
  "select_protocol s = (if s = ''plivo'' then Src_Plivo else if s = ''freeswitch'' then Src_Freeswitch else Src_Twilio)"

section \<open>Round trip\<close>

lemma b64_val_char: "n < 64 \<Longrightarrow> b64_val (b64_char n) = Some n"
  by (auto simp: b64_val_def b64_char_def is_upper_def is_lower_def is_digit_def Let_def)

lemma b64_char_pad: "n < 64 \<Longrightarrow> b64_char n \<noteq> CHR ''=''"
  by (auto simp: b64_char_def dest!: arg_cong [where f = "of_char :: char \<Rightarrow> nat"])

lemma byte_unat [simp]: "byte_of (unat a) = a"
  by (simp add: byte_of_def)

lemma byte_less: "unat (a :: 8 word) < 256"
  by (rule order.strict_trans2 [OF unsigned_less]) simp

lemma pack: "(y :: nat) < k \<Longrightarrow> (x * k + y) div k = x" "y < k \<Longrightarrow> (x * k + y) mod k = y"
  by simp_all

lemma sextets:
  fixes a b c :: "8 word"
  shows "unat a div 4 < 64" "unat a mod 4 * 16 + unat b div 16 < 64" "unat b mod 16 * 4 + unat c div 64 < 64" "unat c mod 64 < 64"
    "unat a mod 4 * 16 < 64" "unat b mod 16 * 4 < 64"
proof -
  note less = byte_less [of a] byte_less [of b] byte_less [of c]
  show "unat a div 4 < 64" using less by (intro less_mult_imp_div_less) simp
  have "unat b div 16 < 16" "unat c div 64 < 4" using less by (auto intro: less_mult_imp_div_less)
  moreover have "unat a mod 4 < 4" "unat b mod 16 < 16" by simp_all
  ultimately show "unat a mod 4 * 16 + unat b div 16 < 64" "unat b mod 16 * 4 + unat c div 64 < 64"
    "unat a mod 4 * 16 < 64" "unat b mod 16 * 4 < 64" by linarith+
  show "unat c mod 64 < 64" by simp
qed

lemma regroup:
  fixes a b c :: "8 word"
  shows "byte_of (unat a div 4 * 4 + (unat a mod 4 * 16 + unat b div 16) div 16) = a"
    "byte_of ((unat a mod 4 * 16 + unat b div 16) mod 16 * 16 + (unat b mod 16 * 4 + unat c div 64) div 4) = b"
    "byte_of ((unat b mod 16 * 4 + unat c div 64) mod 4 * 64 + unat c mod 64) = c"
    "byte_of (unat a div 4 * 4 + unat a mod 4 * 16 div 16) = a"
    "byte_of ((unat a mod 4 * 16 + unat b div 16) mod 16 * 16 + unat b mod 16 * 4 div 4) = b"
proof -
  have b: "unat b div 16 < 16" using byte_less [of b] by (intro less_mult_imp_div_less) simp
  have c: "unat c div 64 < 4" using byte_less [of c] by (intro less_mult_imp_div_less) simp
  have half: "x * 16 div 16 = x" "x * 4 div 4 = x" for x :: nat by simp_all
  show "byte_of (unat a div 4 * 4 + (unat a mod 4 * 16 + unat b div 16) div 16) = a"
    "byte_of ((unat a mod 4 * 16 + unat b div 16) mod 16 * 16 + (unat b mod 16 * 4 + unat c div 64) div 4) = b"
    "byte_of ((unat b mod 16 * 4 + unat c div 64) mod 4 * 64 + unat c mod 64) = c"
    "byte_of (unat a div 4 * 4 + unat a mod 4 * 16 div 16) = a"
    "byte_of ((unat a mod 4 * 16 + unat b div 16) mod 16 * 16 + unat b mod 16 * 4 div 4) = b"
    by (simp_all only: pack [OF b] pack [OF c] half div_mult_mod_eq byte_unat)
qed

text \<open>Base64 is undone.\<close>

definition b64_values :: "string \<Rightarrow> nat list" where
  "b64_values s = List.map_filter b64_val (takeWhile (\<lambda>c. c \<noteq> CHR ''='') s)"

lemma b64_values_simps [simp]:
  "b64_values [] = []"
  "b64_values (CHR ''='' # s) = []"
  "n < 64 \<Longrightarrow> b64_values (b64_char n # s) = n # b64_values s"
  by (simp_all add: b64_values_def List.map_filter_simps b64_char_pad b64_val_char)

lemma b64_round [simp]: "b64_decode (b64_encode bs) = bs"
proof -
  have "b64_groups (b64_values (b64_encode bs)) = bs"
  proof (induction bs rule: b64_encode.induct)
    case (2 a)
    show ?case by (simp only: b64_encode.simps b64_values_simps sextets b64_groups.simps regroup)
  next
    case (3 a b)
    show ?case by (simp only: b64_encode.simps b64_values_simps sextets b64_groups.simps regroup)
  next
    case (4 a b c r)
    then show ?case by (simp only: b64_encode.simps b64_values_simps sextets b64_groups.simps regroup)
  qed simp
  then show ?thesis by (simp add: b64_decode_def b64_values_def)
qed

text \<open>Audio survives the wire. A frame that is sent to Twilio for playing has, read as a frame of Twilio's, exactly the
  bytes that were to be played, and so has the payload of a frame for Plivo; frames of the two carriers decode to
  the bytes they were encoded from.\<close>

theorem playback_roundtrip:
  assumes "\<forall>j\<in>{encode_twilio_media sid audio, encode_plivo_media sid audio}. pf_parse p (pf_show p j) = Some j"
  shows "(case pf_parse p (encode_playback p Src_Twilio sid (Play audio)) of
      Some msg \<Rightarrow> map_option fr_audio (decode_media p msg) = Some audio \<and> j_prop (Some msg) ''streamSid'' = Some sid
    | None \<Rightarrow> False) \<and>
    (case pf_parse p (encode_playback p Src_Plivo sid (Play audio)) of
      Some msg \<Rightarrow> map_option fr_audio (decode_media p msg) = Some audio | None \<Rightarrow> False)"
  using assms
  by (simp_all add: encode_playback_def encode_twilio_media_def encode_plivo_media_def decode_media_def j_object_def j_or_def
      j_prop_def j_buffer_def Let_def)


definition two_frames :: platform where
  "two_frames = \<lparr>pf_parse = (\<lambda>b. if b = [1] then Some (encode_twilio_media (J_Str ''s1'') [7, 255]) else Some (encode_plivo_media (J_Str ''s1'') [7, 255])),
     pf_show = (\<lambda>j. if j = encode_twilio_media (J_Str ''s1'') [7, 255] then [1] else [2]),
     pf_string = (\<lambda>j. []), pf_number = (\<lambda>j. NaN), pf_buffer = (\<lambda>j. None)\<rparr>"

theorem playback_roundtrip_witness:
  "case pf_parse two_frames (encode_playback two_frames Src_Twilio (J_Str ''s1'') (Play [7, 255])) of
     Some msg \<Rightarrow> map_option fr_audio (decode_media two_frames msg) = Some [7, 255] | None \<Rightarrow> False"
proof -
  have "encode_plivo_media (J_Str ''s1'') [7, 255] \<noteq> encode_twilio_media (J_Str ''s1'') [7, 255]"
    by (simp add: encode_plivo_media_def encode_twilio_media_def)
  then show ?thesis
    using playback_roundtrip [where p = two_frames and sid = "J_Str ''s1''" and audio = "[7, 255]"]
    by (auto simp: two_frames_def split: option.splits)
qed

end
