(* ===== verification/Answer_Xml.thy ===== *)
theory Answer_Xml
  imports Form_Url
begin

text \<open>
  The call-control documents that answer a carrier: the TwiML and Plivo builders of
  \<^verbatim>\<open>src/src/trunk/streaming/twiml.ts\<close> and \<^verbatim>\<open>plivo.twiml.ts\<close> and the stream instructions of the two
  REST clients, as the string concatenations they are; and a reader of such documents, against
  which they are checked.
\<close>

section \<open>Escaping\<close>

text \<open>\<^verbatim>\<open>s.replace(/c/g, r)\<close>.\<close>

definition replace_all :: "char \<Rightarrow> string \<Rightarrow> string \<Rightarrow> string" where
  "replace_all c r s = concat (map (\<lambda>x. if x = c then r else [x]) s)"

definition quote_char :: char where
  "quote_char = CHR 0x22"

definition esc :: "string \<Rightarrow> string" where
  "esc v = replace_all (CHR 0x27) ''&apos;'' (replace_all quote_char ''&quot;'' (replace_all (CHR ''>'') ''&gt;''
     (replace_all (CHR ''<'') ''&lt;'' (replace_all (CHR ''&'') ''&amp;'' v))))"

text \<open>The Twilio client has the same function under another name; the Plivo client leaves the apostrophe.\<close>

definition xml_attr :: "string \<Rightarrow> string" where
  "xml_attr v = replace_all (CHR 0x27) ''&apos;'' (replace_all quote_char ''&quot;'' (replace_all (CHR ''>'') ''&gt;''
     (replace_all (CHR ''<'') ''&lt;'' (replace_all (CHR ''&'') ''&amp;'' v))))"

definition xml_escape :: "string \<Rightarrow> string" where
  "xml_escape v = replace_all quote_char ''&quot;'' (replace_all (CHR ''>'') ''&gt;''
     (replace_all (CHR ''<'') ''&lt;'' (replace_all (CHR ''&'') ''&amp;'' v)))"

section \<open>Builders\<close>

definition xml_header :: string where
  "xml_header = ''<?xml version=\"1.0\" encoding=\"UTF-8\"?>''"

datatype reject_reason = Rejected | Busy_Signal

definition reason_text :: "reject_reason \<Rightarrow> string" where
  "reason_text r = (case r of Rejected \<Rightarrow> ''rejected'' | Busy_Signal \<Rightarrow> ''busy'')"

record voicemail_options =
  vo_greeting :: string
  vo_max_seconds :: nat
  vo_callback :: string

definition reject_twiml :: "reject_reason \<Rightarrow> string" where
  "reject_twiml r = xml_header @ ''<Response><Reject reason=\"'' @ reason_text r @ ''\"/></Response>''"

definition say_hangup_twiml :: "string \<Rightarrow> string" where
  "say_hangup_twiml t = xml_header @ ''<Response><Say>'' @ esc t @ ''</Say><Hangup/></Response>''"

definition forward_twiml :: "string \<Rightarrow> string option \<Rightarrow> string" where
  "forward_twiml target caller =
     (let cid = (if truthy caller then '' callerId=\"'' @ esc (the caller) @ ''\"'' else [])
      in xml_header @ ''<Response><Dial answerOnBridge=\"true\"'' @ cid @ ''>'' @ esc target @ ''</Dial></Response>'')"

definition voicemail_twiml :: "voicemail_options \<Rightarrow> string" where
  "voicemail_twiml v = xml_header @ ''<Response>'' @ ''<Say>'' @ esc (vo_greeting v) @ ''</Say>''
     @ ''<Record maxLength=\"'' @ show_nat (vo_max_seconds v) @ ''\" playBeep=\"true\" trim=\"trim-silence\"''
     @ '' recordingStatusCallback=\"'' @ esc (vo_callback v) @ ''\"''
     @ '' recordingStatusCallbackEvent=\"completed\"/>'' @ ''<Hangup/>'' @ ''</Response>''"

definition reject_plivo :: "reject_reason \<Rightarrow> string" where
  "reject_plivo r = xml_header @ ''<Response><Hangup reason=\"'' @ reason_text r @ ''\"/></Response>''"

definition say_hangup_plivo :: "string \<Rightarrow> string" where
  "say_hangup_plivo t = xml_header @ ''<Response><Speak>'' @ esc t @ ''</Speak><Hangup/></Response>''"

definition forward_plivo :: "string \<Rightarrow> string option \<Rightarrow> string" where
  "forward_plivo target caller =
     (let cid = (if truthy caller then '' callerId=\"'' @ esc (the caller) @ ''\"'' else [])
      in xml_header @ ''<Response><Dial'' @ cid @ ''><Number>'' @ esc target @ ''</Number></Dial></Response>'')"

definition voicemail_plivo :: "voicemail_options \<Rightarrow> string" where
  "voicemail_plivo v = xml_header @ ''<Response>'' @ ''<Speak>'' @ esc (vo_greeting v) @ ''</Speak>''
     @ ''<Record maxLength=\"'' @ show_nat (vo_max_seconds v) @ ''\" playBeep=\"true\"''
     @ '' action=\"'' @ esc (vo_callback v) @ ''\" method=\"POST\"''
     @ '' recordSession=\"false\" redirect=\"false\"/>'' @ ''<Hangup/>'' @ ''</Response>''"

section \<open>Stream instructions\<close>

datatype stream_track = Inbound_Track | Outbound_Track | Both_Tracks

record stream_options =
  so_url :: string
  so_track :: "stream_track option"
  so_bidirectional :: bool
  so_name :: "string option"
  so_content_type :: "string option"
  so_params :: "(string, string) js_map"

definition twilio_track :: "stream_track option \<Rightarrow> string" where
  "twilio_track t = (case t of Some Outbound_Track \<Rightarrow> ''outbound_track'' | Some Both_Tracks \<Rightarrow> ''both_tracks''
     | _ \<Rightarrow> ''inbound_track'')"

definition plivo_track :: "stream_options \<Rightarrow> string" where
  "plivo_track v = (if so_bidirectional v then ''inbound''
     else case so_track v of None \<Rightarrow> ''inbound'' | Some Inbound_Track \<Rightarrow> ''inbound''
        | Some Outbound_Track \<Rightarrow> ''outbound'' | Some Both_Tracks \<Rightarrow> ''both'')"

definition twilio_param :: "string \<times> string \<Rightarrow> string" where
  "twilio_param p = ''<Parameter name=\"'' @ xml_attr (fst p) @ ''\" value=\"'' @ xml_attr (snd p) @ ''\"/>''"

definition twilio_stream :: "stream_options \<Rightarrow> string" where
  "twilio_stream v =
     (let params = concat (map twilio_param (so_params v));
          name = (if truthy (so_name v) then '' name=\"'' @ xml_attr (the (so_name v)) @ ''\"'' else [])
      in if so_bidirectional v
         then xml_header @ ''<Response><Connect><Stream url=\"'' @ xml_attr (so_url v) @ ''\"'' @ name @ ''>'' @ params
           @ ''</Stream></Connect></Response>''
         else xml_header @ ''<Response><Start><Stream url=\"'' @ xml_attr (so_url v) @ ''\" track=\"''
           @ twilio_track (so_track v) @ ''\"'' @ name @ ''>'' @ params @ ''</Stream></Start></Response>'')"

definition plivo_stream :: "stream_options \<Rightarrow> string" where
  "plivo_stream v =
     (let extra = join_with '','' (map (\<lambda>p. fst p @ ''='' @ snd p) (so_params v));
          attrs = [''bidirectional=\"'' @ (if so_bidirectional v then ''true'' else ''false'') @ ''\"'',
                   ''audioTrack=\"'' @ plivo_track v @ ''\"'', ''keepCallAlive=\"true\"'']
            @ (if truthy (so_content_type v) then [''contentType=\"'' @ xml_escape (the (so_content_type v)) @ ''\"''] else [])
            @ (if extra \<noteq> [] then [''extraHeaders=\"'' @ xml_escape extra @ ''\"''] else [])
      in xml_header @ ''<Response><Stream '' @ join_with '' '' attrs @ ''>'' @ xml_escape (so_url v) @ ''</Stream></Response>'')"

section \<open>A reader\<close>

text \<open>
  What a carrier's parser makes of a document: a list of tags and character data. A tag is split at its quotation
  marks, so that the names stand in the first list and the values, with their entities resolved, in the second.
\<close>

definition entities :: "(string \<times> char) list" where
  "entities = [(''amp;'', CHR ''&''), (''lt;'', CHR ''<''), (''gt;'', CHR ''>''), (''quot;'', quote_char), (''apos;'', CHR 0x27)]"

fun unescape :: "string \<Rightarrow> string" where
  "unescape [] = []"
| "unescape (c # s) = (if c = CHR ''&'' then
     (case List.find (\<lambda>e. prefix (fst e) s) entities of
        Some e \<Rightarrow> snd e # unescape (drop (length (fst e)) s) | None \<Rightarrow> c # unescape s)
     else c # unescape s)"

datatype xml_token = Tag "string list" "string list" | Chars string

fun evens :: "'a list \<Rightarrow> 'a list" where
  "evens [] = []"
| "evens [x] = [x]"
| "evens (x # y # xs) = x # evens xs"

definition read_tag :: "string \<Rightarrow> xml_token" where
  "read_tag s = (let ps = split_on quote_char s in Tag (evens ps) (map unescape (evens (tl ps))))"

function scan_xml :: "string \<Rightarrow> xml_token list" where
  "scan_xml [] = []"
| "scan_xml (c # s) = (if c = CHR ''<''
     then read_tag (takeWhile (\<lambda>x. x \<noteq> CHR ''>'') s) # scan_xml (tl (dropWhile (\<lambda>x. x \<noteq> CHR ''>'') s))
     else Chars (unescape (c # takeWhile (\<lambda>x. x \<noteq> CHR ''<'') s)) # scan_xml (dropWhile (\<lambda>x. x \<noteq> CHR ''<'') s))"
  by pat_completeness auto
termination
  by (relation "measure length")
    (auto simp: le_imp_less_Suc length_dropWhile_le le_trans [OF diff_le_self length_dropWhile_le])

section \<open>Escapes are read back\<close>

text \<open>What the reader needs of an escape: it is undone, and leaves no markup.\<close>

definition bare :: "string \<Rightarrow> bool" where
  "bare s \<longleftrightarrow> CHR ''<'' \<notin> set s \<and> CHR ''>'' \<notin> set s \<and> quote_char \<notin> set s"

locale escaping =
  fixes e :: "string \<Rightarrow> string"
  assumes undone: "unescape (e s) = s"
    and bare: "bare (e s)"
begin

lemma empty_iff: "e s = [] \<longleftrightarrow> e [] = [] \<and> s = []"
  by (metis undone unescape.simps(1))

end

definition escape_char :: "char \<Rightarrow> string" where
  "escape_char c = (if c = CHR ''&'' then ''&amp;'' else if c = CHR ''<'' then ''&lt;'' else if c = CHR ''>'' then ''&gt;''
     else if c = quote_char then ''&quot;'' else [c])"

definition escape_char_all :: "char \<Rightarrow> string" where
  "escape_char_all c = (if c = CHR 0x27 then ''&apos;'' else escape_char c)"

lemma replace_all_simps [simp]:
  "replace_all c r [] = []"
  "replace_all c r (x # s) = (if x = c then r else [x]) @ replace_all c r s"
  "replace_all c r (s @ t) = replace_all c r s @ replace_all c r t"
  by (simp_all add: replace_all_def)

lemma xml_escape_chars: "xml_escape s = concat (map escape_char s)"
  by (induction s) (auto simp: xml_escape_def escape_char_def quote_char_def)

lemma esc_chars: "esc s = concat (map escape_char_all s)"
  by (induction s) (auto simp: esc_def escape_char_def escape_char_all_def quote_char_def)

lemma xml_attr_esc [simp]: "xml_attr = esc"
  by (simp add: xml_attr_def esc_def fun_eq_iff)

lemma unescape_chars:
  "unescape (escape_char c @ s) = c # unescape s"
  "unescape (escape_char_all c @ s) = c # unescape s"
  by (simp_all add: escape_char_def escape_char_all_def entities_def quote_char_def)

interpretation full: escaping esc
proof unfold_locales
  show "unescape (esc s) = s" for s by (induction s) (simp_all add: esc_chars unescape_chars)
  show "bare (esc s)" for s
    by (induction s) (auto simp: esc_chars bare_def escape_char_def escape_char_all_def quote_char_def)
qed

interpretation attribute: escaping xml_escape
proof unfold_locales
  show "unescape (xml_escape s) = s" for s by (induction s) (simp_all add: xml_escape_chars unescape_chars)
  show "bare (xml_escape s)" for s
    by (induction s) (auto simp: xml_escape_chars bare_def escape_char_def quote_char_def)
qed

section \<open>Documents are read back\<close>

text \<open>The text of a tag from its names and escaped values.\<close>

fun weave :: "string list \<Rightarrow> string list \<Rightarrow> string" where
  "weave (n # ns) (v # vs) = n @ [quote_char] @ v @ [quote_char] @ weave ns vs"
| "weave ns vs = concat ns"

definition print_token :: "(string \<Rightarrow> string) \<Rightarrow> xml_token \<Rightarrow> string" where
  "print_token e t = (case t of Tag ns vs \<Rightarrow> ''<'' @ weave ns (map e vs) @ ''>'' | Chars s \<Rightarrow> e s)"

definition print_xml :: "(string \<Rightarrow> string) \<Rightarrow> xml_token list \<Rightarrow> string" where
  "print_xml e ts = concat (map (print_token e) ts)"

text \<open>Tags whose fixed parts are free of markup, and character data that is not empty and stands between tags.\<close>

definition tag_ok :: "string list \<Rightarrow> string list \<Rightarrow> bool" where
  "tag_ok ns vs \<longleftrightarrow> length ns = Suc (length vs) \<and> list_all bare ns"

fun doc_ok :: "xml_token list \<Rightarrow> bool" where
  "doc_ok [] = True"
| "doc_ok (Tag ns vs # ts) = (tag_ok ns vs \<and> doc_ok ts)"
| "doc_ok (Chars s # ts) = (s \<noteq> [] \<and> (case ts of Chars _ # _ \<Rightarrow> False | _ \<Rightarrow> True) \<and> doc_ok ts)"

lemma print_xml_simps [simp]:
  "print_xml e [] = []"
  "print_xml e (t # ts) = print_token e t @ print_xml e ts"
  "print_xml e (ts @ us) = print_xml e ts @ print_xml e us"
  by (simp_all add: print_xml_def)

lemma scan_tag: "CHR ''>'' \<notin> set w \<Longrightarrow> scan_xml (CHR ''<'' # w @ CHR ''>'' # r) = read_tag w # scan_xml r"
proof -
  assume "CHR ''>'' \<notin> set w"
  then have "\<forall>x\<in>set w. x \<noteq> CHR ''>''" by auto
  then show ?thesis by (simp add: takeWhile_append2 dropWhile_append2)
qed

lemma scan_chars:
  assumes "w \<noteq> []" "CHR ''<'' \<notin> set w" "r = [] \<or> hd r = CHR ''<''"
  shows "scan_xml (w @ r) = Chars (unescape w) # scan_xml r"
proof -
  obtain c t where w: "w = c # t" using assms(1) by (cases w) auto
  have t: "\<forall>x\<in>set t. x \<noteq> CHR ''<''" using assms(2) w by auto
  have "takeWhile (\<lambda>x. x \<noteq> CHR ''<'') r = []" "dropWhile (\<lambda>x. x \<noteq> CHR ''<'') r = r"
    using assms(3) by (cases r; simp)+
  moreover have "c \<noteq> CHR ''<''" using assms(2) w by auto
  ultimately show ?thesis using t w by (simp add: takeWhile_append2 dropWhile_append2)
qed

context escaping
begin

lemma weave_parts:
  assumes "length ns = Suc (length vs)" "list_all bare ns"
  shows "split_on quote_char (weave ns (map e vs)) = hd ns # concat (map (\<lambda>p. [e (fst p), snd p]) (zip vs (tl ns)))"
  using assms
proof (induction ns "map e vs" arbitrary: vs rule: weave.induct)
  case (1 n ns v us)
  then obtain x xs where vs: "vs = x # xs" "v = e x" "us = map e xs" by (cases vs) auto
  have n: "quote_char \<notin> set n" and x: "quote_char \<notin> set (e x)"
    using "1.prems" bare [of x] by (simp_all add: bare_def)
  obtain m ms where ns: "ns = m # ms" using "1.prems"(1) vs by (cases ns) auto
  have "split_on quote_char (weave ns (map e xs)) = hd ns # concat (map (\<lambda>p. [e (fst p), snd p]) (zip xs (tl ns)))"
    using "1.hyps"(1) [OF vs(3)] "1.prems" vs by simp
  with vs n x ns show ?case by (simp add: split_on_append)
qed (auto simp: length_Suc_conv split_on_no_sep bare_def)

lemma evens_pairs: "evens (x # concat (map (\<lambda>p. [f (fst p), snd p]) ps)) = x # map snd ps"
  by (induction ps arbitrary: x) simp_all

lemma odds_pairs: "evens (concat (map (\<lambda>p. [f (fst p), snd p]) ps)) = map (f \<circ> fst) ps"
proof (induction ps)
  case (Cons p ps)
  then show ?case by (cases ps) simp_all
qed simp

lemma read_weave:
  assumes "tag_ok ns vs"
  shows "read_tag (weave ns (map e vs)) = Tag ns vs"
proof -
  obtain m ms where ns: "ns = m # ms" using assms by (cases ns) (auto simp: tag_ok_def)
  have "map unescape (map (e \<circ> fst) (zip vs ms)) = vs"
    using assms ns by (simp add: tag_ok_def undone comp_def)
  with assms ns show ?thesis
    by (simp add: read_tag_def tag_ok_def weave_parts evens_pairs odds_pairs Let_def)
qed

lemma weave_bare: "tag_ok ns vs \<Longrightarrow> CHR ''>'' \<notin> set (weave ns (map e vs))"
  using bare
  by (induction ns "map e vs" arbitrary: vs rule: weave.induct)
    (fastforce simp: tag_ok_def bare_def quote_char_def map_eq_Cons_conv list_all_iff Cons_eq_map_conv)+

lemma print_head: "doc_ok ts \<Longrightarrow> (case ts of Chars _ # _ \<Rightarrow> False | _ \<Rightarrow> True) \<Longrightarrow> print_xml e ts = [] \<or> hd (print_xml e ts) = CHR ''<''"
  by (auto simp: print_token_def split: list.splits xml_token.splits)

lemma reads_back: "e [] = [] \<Longrightarrow> doc_ok ts \<Longrightarrow> scan_xml (print_xml e ts) = ts"
proof (induction ts rule: doc_ok.induct)
  case (2 ns vs ts)
  then show ?case
    using scan_tag [OF weave_bare, of ns vs "print_xml e ts"] read_weave [of ns vs] by (simp add: print_token_def)
next
  case (3 s ts)
  have "e s \<noteq> []" using 3 undone [of s] by auto
  then show ?case
    using 3 scan_chars [of "e s" "print_xml e ts"] print_head [of ts] bare [of s] undone [of s]
    by (simp add: print_token_def bare_def)
qed simp

end


text \<open>What each document says, as its reader sees it.\<close>

definition optional_text :: "string \<Rightarrow> xml_token list" where
  "optional_text s = (if s = [] then [] else [Chars s])"

definition header_tag :: xml_token where
  "header_tag = Tag [''?xml version='', '' encoding='', ''?''] [''1.0'', ''UTF-8'']"

abbreviation plain_tag :: "string \<Rightarrow> xml_token" where
  "plain_tag n \<equiv> Tag [n] []"

definition response :: "xml_token list \<Rightarrow> xml_token list" where
  "response ts = [header_tag, plain_tag ''Response''] @ ts @ [plain_tag ''/Response'']"

definition forward_verbs :: "bool \<Rightarrow> string \<Rightarrow> string option \<Rightarrow> xml_token list" where
  "forward_verbs plivo target caller =
     (if plivo
      then [case caller of Some c \<Rightarrow> Tag [''Dial callerId='', []] [c] | None \<Rightarrow> plain_tag ''Dial'', plain_tag ''Number'']
        @ optional_text target @ [plain_tag ''/Number'', plain_tag ''/Dial'']
      else [case caller of Some c \<Rightarrow> Tag [''Dial answerOnBridge='', '' callerId='', []] [''true'', c]
              | None \<Rightarrow> Tag [''Dial answerOnBridge='', []] [''true'']]
        @ optional_text target @ [plain_tag ''/Dial''])"

definition voicemail_verbs :: "bool \<Rightarrow> voicemail_options \<Rightarrow> xml_token list" where
  "voicemail_verbs plivo v =
     (if plivo
      then [plain_tag ''Speak''] @ optional_text (vo_greeting v) @ [plain_tag ''/Speak'',
        Tag [''Record maxLength='', '' playBeep='', '' action='', '' method='', '' recordSession='', '' redirect='', ''/'']
          [show_nat (vo_max_seconds v), ''true'', vo_callback v, ''POST'', ''false'', ''false''], plain_tag ''Hangup/'']
      else [plain_tag ''Say''] @ optional_text (vo_greeting v) @ [plain_tag ''/Say'',
        Tag [''Record maxLength='', '' playBeep='', '' trim='', '' recordingStatusCallback='', '' recordingStatusCallbackEvent='', ''/'']
          [show_nat (vo_max_seconds v), ''true'', ''trim-silence'', vo_callback v, ''completed''], plain_tag ''Hangup/''])"

definition reject_verbs :: "bool \<Rightarrow> reject_reason \<Rightarrow> xml_token list" where
  "reject_verbs plivo r = [Tag [if plivo then ''Hangup reason='' else ''Reject reason='', ''/''] [reason_text r]]"

definition param_tag :: "string \<times> string \<Rightarrow> xml_token" where
  "param_tag p = Tag [''Parameter name='', '' value='', ''/''] [fst p, snd p]"

text \<open>The two-way streams that the voice webhook asks for.\<close>

definition twilio_stream_verbs :: "string \<Rightarrow> (string, string) js_map \<Rightarrow> xml_token list" where
  "twilio_stream_verbs url ps = [plain_tag ''Connect'', Tag [''Stream url='', []] [url]] @ map param_tag ps
     @ [plain_tag ''/Stream'', plain_tag ''/Connect'']"

definition plivo_stream_verbs :: "string \<Rightarrow> string \<Rightarrow> xml_token list" where
  "plivo_stream_verbs url content =
     [Tag [''Stream bidirectional='', '' audioTrack='', '' keepCallAlive='', '' contentType='', []]
        [''true'', ''inbound'', ''true'', content]] @ optional_text url @ [plain_tag ''/Stream'']"

lemmas verb_defs = response_def header_tag_def optional_text_def forward_verbs_def voicemail_verbs_def reject_verbs_def
  param_tag_def twilio_stream_verbs_def plivo_stream_verbs_def

lemma digit_plain: "is_digit c \<Longrightarrow> escape_char_all c = [c] \<and> escape_char c = [c]"
  by (auto simp: is_digit_def escape_char_all_def escape_char_def quote_char_def)

lemma esc_digits: "list_all is_digit s \<Longrightarrow> esc s = s"
  by (induction s) (simp_all add: esc_chars digit_plain)

lemma esc_fixed [simp]:
  "esc [] = []" "esc ''1.0'' = ''1.0''" "esc ''UTF-8'' = ''UTF-8''" "esc ''true'' = ''true''" "esc ''false'' = ''false''"
  "esc ''trim-silence'' = ''trim-silence''" "esc ''completed'' = ''completed''" "esc ''POST'' = ''POST''"
  "esc (reason_text r) = reason_text r"
  by (simp_all add: esc_def quote_char_def reason_text_def split: reject_reason.split)

lemma esc_number [simp]: "esc (show_nat n) = show_nat n"
  by (simp add: esc_digits show_nat_digits)

lemma escape_fixed [simp]:
  "xml_escape [] = []" "xml_escape ''1.0'' = ''1.0''" "xml_escape ''UTF-8'' = ''UTF-8''" "xml_escape ''true'' = ''true''"
  "xml_escape ''inbound'' = ''inbound''"
  by (simp_all add: xml_escape_def quote_char_def)

lemma builders_print:
  "reject_twiml r = print_xml esc (response (reject_verbs False r))"
  "reject_plivo r = print_xml esc (response (reject_verbs True r))"
  "forward_twiml target caller = print_xml esc (response (forward_verbs False target (non_empty caller)))"
  "forward_plivo target caller = print_xml esc (response (forward_verbs True target (non_empty caller)))"
  "voicemail_twiml v = print_xml esc (response (voicemail_verbs False v))"
  "voicemail_plivo v = print_xml esc (response (voicemail_verbs True v))"
  by (cases caller; simp add: reject_twiml_def reject_plivo_def forward_twiml_def forward_plivo_def voicemail_twiml_def voicemail_plivo_def
      verb_defs print_token_def xml_header_def quote_char_def Let_def non_empty_def)+


lemma param_prints: "concat (map twilio_param ps) = print_xml esc (map param_tag ps)"
  by (induction ps) (simp_all add: twilio_param_def param_tag_def print_token_def quote_char_def)

lemma streams_print:
  assumes "so_bidirectional v" "so_name v = None"
  shows "twilio_stream v = print_xml esc (response (twilio_stream_verbs (so_url v) (so_params v)))"
    and "so_params v = [] \<Longrightarrow> so_content_type v = Some c \<Longrightarrow> c \<noteq> [] \<Longrightarrow>
      plivo_stream v = print_xml xml_escape (response (plivo_stream_verbs (so_url v) c))"
  using assms
  by (simp_all add: twilio_stream_def plivo_stream_def plivo_track_def param_prints verb_defs print_token_def xml_header_def quote_char_def Let_def)

lemma params_ok: "doc_ok (map param_tag ps @ ts) \<longleftrightarrow> doc_ok ts"
  by (induction ps) (simp_all add: param_tag_def tag_ok_def bare_def quote_char_def)

lemma documents_ok:
  "doc_ok (response (reject_verbs plivo r))"
  "doc_ok (response (forward_verbs plivo target caller))"
  "doc_ok (response (voicemail_verbs plivo v))"
  "doc_ok (response (twilio_stream_verbs url ps))"
  "doc_ok (response (plivo_stream_verbs url content))"
  by (auto simp: verb_defs tag_ok_def bare_def quote_char_def params_ok split: option.splits)

text \<open>A document says what it was built to say. A reader of any answer finds the verbs of the chosen branch with
  the numbers, addresses and texts put into it, character by character, whatever markup the caller's
  number, a setting or a parameter holds: nothing breaks out of an attribute or a text.\<close>

lemma answers_read_back:
  "scan_xml (reject_twiml r) = response (reject_verbs False r)"
  "scan_xml (reject_plivo r) = response (reject_verbs True r)"
  "scan_xml (forward_twiml target caller) = response (forward_verbs False target (non_empty caller))"
  "scan_xml (forward_plivo target caller) = response (forward_verbs True target (non_empty caller))"
  "scan_xml (voicemail_twiml v) = response (voicemail_verbs False v)"
  "scan_xml (voicemail_plivo v) = response (voicemail_verbs True v)"
  by (simp_all only: builders_print full.reads_back [OF esc_fixed(1) documents_ok(1)] full.reads_back [OF esc_fixed(1) documents_ok(2)]
      full.reads_back [OF esc_fixed(1) documents_ok(3)])

lemma streams_read_back:
  assumes "so_bidirectional v" "so_name v = None"
  shows "scan_xml (twilio_stream v) = response (twilio_stream_verbs (so_url v) (so_params v))"
    and "so_params v = [] \<Longrightarrow> so_content_type v = Some c \<Longrightarrow> c \<noteq> [] \<Longrightarrow>
      scan_xml (plivo_stream v) = response (plivo_stream_verbs (so_url v) c)"
  using assms by (simp_all add: streams_print full.reads_back attribute.reads_back documents_ok)

end
