(* ===== verification/Pstn_Webhook.thy ===== *)
theory Pstn_Webhook
  imports Answer_Xml Http_Api
begin

text \<open>
  The voice webhook of the media-streaming module: its configuration
  (\<^verbatim>\<open>src/src/trunk/streaming/config.ts\<close>), the decision on an inbound call (\<^verbatim>\<open>call-router.ts\<close>), and the
  routes that answer the carrier and take its recordings (\<^verbatim>\<open>webhook.ts\<close>).
\<close>

section \<open>Configuration\<close>

datatype stream_provider = Twilio | Plivo

record streaming_config =
  sc_enabled :: bool
  sc_ws_port :: "int option"
  sc_public_ws :: string
  sc_public_http :: string
  sc_auth_token :: string
  sc_echo :: bool
  sc_bridge_port :: "int option"
  sc_ai_enabled :: bool
  sc_language :: string
  sc_provider :: stream_provider

type_synonym environment = "(string, string) js_map"

definition env_or :: "environment \<Rightarrow> string \<Rightarrow> string \<Rightarrow> string" where
  "env_or e k d = str_or (m_get e k) d"

definition resolve_provider :: "environment \<Rightarrow> stream_provider" where
  "resolve_provider e =
     (let raw = to_lower (env_or e ''MEDIA_STREAM_PROVIDER'' (env_or e ''SIP_TRUNK_PROVIDER'' ''twilio''))
      in if raw = ''plivo'' then Plivo else Twilio)"

definition streaming_config_of :: "environment \<Rightarrow> streaming_config" where
  "streaming_config_of e =
     \<lparr>sc_enabled = (m_get e ''MEDIA_STREAM_ENABLED'' = Some ''true''),
      sc_ws_port = parse_int (env_or e ''MEDIA_STREAM_WS_PORT'' ''3004''),
      sc_public_ws = env_or e ''MEDIA_STREAM_PUBLIC_URL'' [],
      sc_public_http = env_or e ''MEDIA_STREAM_PUBLIC_HTTP_URL'' [],
      sc_auth_token = env_or e ''MEDIA_STREAM_AUTH_TOKEN'' [],
      sc_echo = (m_get e ''MEDIA_STREAM_ECHO'' = Some ''true''),
      sc_bridge_port = parse_int (env_or e ''MEDIA_STREAM_BRIDGE_PORT'' ''3005''),
      sc_ai_enabled = (m_get e ''MEDIA_STREAM_AI_ENABLED'' = Some ''true''),
      sc_language = env_or e ''MEDIA_STREAM_AI_LANGUAGE'' ''en'',
      sc_provider = resolve_provider e\<rparr>"

section \<open>The decision\<close>

datatype decline_reason = No_Did | Caller_Blocked | Owner_Unavailable

datatype call_decision =
    Bridge_To string string
  | Ai_Answers string
  | Forward_To string string
  | Take_Message string
  | Decline decline_reason

definition decide_call :: "string \<Rightarrow> string \<Rightarrow> database \<Rightarrow> bool \<Rightarrow> bool \<Rightarrow> call_decision" where
  "decide_call called caller db ai vm =
     (case find_pstn_forward_target db called of
        None \<Rightarrow> Decline No_Did
      | Some (u, target) \<Rightarrow>
          (let ext = su_extension u
           in if caller \<noteq> [] \<and> is_blocked db ext caller then Decline Caller_Blocked
              else if get_registration db target \<noteq> None \<or> get_registration db ext \<noteq> None then Bridge_To ext target
              else (case fo_unavailable (get_forwarding db ext) of
                 Some t \<Rightarrow> if t \<noteq> [] then Forward_To ext t
                   else if ai then Ai_Answers ext else if vm then Take_Message ext else Decline Owner_Unavailable
               | None \<Rightarrow> if ai then Ai_Answers ext else if vm then Take_Message ext else Decline Owner_Unavailable)))"

section \<open>The stream\<close>

definition show_port :: "int option \<Rightarrow> string" where
  "show_port p = (case p of None \<Rightarrow> ''NaN'' | Some n \<Rightarrow> show_int n)"

definition media_base :: "streaming_config \<Rightarrow> string" where
  "media_base c = (if sc_public_ws c \<noteq> [] then sc_public_ws c else ''ws://localhost:'' @ show_port (sc_ws_port c))"

definition media_query :: "streaming_config \<Rightarrow> (string, string) js_map \<Rightarrow> (string, string) js_map" where
  "media_query c extra =
     fold (\<lambda>p. m_set (fst p) (snd p)) extra (if sc_auth_token c \<noteq> [] then [(''token'', sc_auth_token c)] else [])"

definition build_media_stream_url :: "streaming_config \<Rightarrow> (string, string) js_map \<Rightarrow> string" where
  "build_media_stream_url c extra =
     (let base = media_base c; qs = query_string (media_query c extra)
      in if qs = [] then base else base @ (if CHR ''?'' \<in> set base then ''&'' else ''?'') @ qs)"

definition stream_xml :: "streaming_config \<Rightarrow> string \<Rightarrow> (string, string) js_map \<Rightarrow> string" where
  "stream_xml c mode params =
     (let parameters = (''mode'', mode) # params
      in case sc_provider c of
           Plivo \<Rightarrow> plivo_stream \<lparr>so_url = build_media_stream_url c ((''provider'', ''plivo'') # parameters), so_track = None,
             so_bidirectional = True, so_name = None, so_content_type = Some ''audio/x-mulaw;rate=8000'', so_params = []\<rparr>
         | Twilio \<Rightarrow> twilio_stream \<lparr>so_url = build_media_stream_url c [], so_track = None, so_bidirectional = True,
             so_name = None, so_content_type = None, so_params = parameters\<rparr>)"

definition reject_xml :: "streaming_config \<Rightarrow> reject_reason \<Rightarrow> string" where
  "reject_xml c r = (case sc_provider c of Plivo \<Rightarrow> reject_plivo r | Twilio \<Rightarrow> reject_twiml r)"

definition forward_xml :: "streaming_config \<Rightarrow> string \<Rightarrow> string option \<Rightarrow> string" where
  "forward_xml c target caller =
     (case sc_provider c of Plivo \<Rightarrow> forward_plivo target caller | Twilio \<Rightarrow> forward_twiml target caller)"

definition voicemail_xml :: "streaming_config \<Rightarrow> voicemail_options \<Rightarrow> string" where
  "voicemail_xml c v = (case sc_provider c of Plivo \<Rightarrow> voicemail_plivo v | Twilio \<Rightarrow> voicemail_twiml v)"

section \<open>Answering a call\<close>

text \<open>What the two queries of an AI call are answered with; \<open>None\<close> is a failure.\<close>

record agent_answers =
  aa_rule :: "routing_rule option option"
  aa_agents :: "ai_agent_record list option"

definition resolve_agent_id :: "agent_answers \<Rightarrow> string \<Rightarrow> string \<Rightarrow> database \<Rightarrow> string option \<times> database" where
  "resolve_agent_id a owner called db =
     (case (if called \<noteq> [] then get_routing_rule (aa_rule a) called db else (None, db)) of
        (rule, db1) \<Rightarrow>
          (case rule of
             Some r \<Rightarrow> if ru_dest_type r = ''ai_agent'' \<and> ru_dest_value r \<noteq> [] then (Some (ru_dest_value r), db1)
               else (case get_default_ai_agent_for_owner (aa_agents a) owner db1 of (g, db2) \<Rightarrow> (map_option (\<lambda>x. show_int (ai_id x)) g, db2))
           | None \<Rightarrow> (case get_default_ai_agent_for_owner (aa_agents a) owner db1 of (g, db2) \<Rightarrow> (map_option (\<lambda>x. show_int (ai_id x)) g, db2))))"

record voice_request =
  vq_body :: "(string, string) js_map"
  vq_query :: "(string, string) js_map"
  vq_protocol :: string
  vq_host :: "string option"
  vq_base_url :: string

record voice_deps =
  vd_voicemail :: bool
  vd_max_seconds :: nat

definition field :: "voice_request \<Rightarrow> string \<Rightarrow> string" where
  "field q k = str_or (m_get (vq_body q) k) (or_else (m_get (vq_query q) k) [])"

definition recording_callback :: "streaming_config \<Rightarrow> voice_request \<Rightarrow> string \<Rightarrow> string \<Rightarrow> string" where
  "recording_callback c q ext caller =
     (let base = (if sc_public_http c \<noteq> [] then sc_public_http c else vq_protocol q @ ''://'' @ or_else (vq_host q) ''localhost'')
      in base @ vq_base_url q @ ''/voicemail-status?mailbox='' @ encode_uri_component ext @ ''&from='' @ encode_uri_component caller)"

definition greeting_text :: string where
  "greeting_text = ''The person you are calling is not available. Please leave a message after the beep.''"

definition answer_call ::
  "streaming_config \<Rightarrow> voice_deps \<Rightarrow> agent_answers \<Rightarrow> voice_request \<Rightarrow> call_decision \<Rightarrow> database \<Rightarrow> string \<times> database" where
  "answer_call c d a q dec db =
     (let called = field q ''To''; caller = field q ''From''
      in case dec of
           Bridge_To ext b \<Rightarrow> (stream_xml c ''bridge'' [(''bridgeId'', b), (''extension'', ext), (''from'', caller)], db)
         | Ai_Answers ext \<Rightarrow> (case resolve_agent_id a ext called db of
             (g, db1) \<Rightarrow> (stream_xml c ''ai'' ((''extension'', ext) # (if truthy g then [(''agentId'', the g)] else [])), db1))
         | Forward_To ext t \<Rightarrow> (forward_xml c t (non_empty (Some caller)), db)
         | Take_Message ext \<Rightarrow> (voicemail_xml c \<lparr>vo_greeting = greeting_text, vo_max_seconds = vd_max_seconds d,
             vo_callback = recording_callback c q ext caller\<rparr>, db)
         | Decline r \<Rightarrow> (reject_xml c Rejected, db))"

text \<open>Without a database the webhook only bridges.\<close>

definition respond ::
  "streaming_config \<Rightarrow> voice_deps \<Rightarrow> agent_answers \<Rightarrow> voice_request \<Rightarrow> database option \<Rightarrow> string \<times> database option" where
  "respond c d a q m =
     (case m of
        None \<Rightarrow> (stream_xml c ''bridge''
          [(''bridgeId'', str_or (m_get (vq_query q) ''bridgeId'') (str_or (Some (field q ''To'')) ''demo''))], None)
      | Some db \<Rightarrow> (case answer_call c d a q
            (decide_call (field q ''To'') (field q ''From'') db (sc_ai_enabled c) (vd_voicemail d)) db of
          (doc, db1) \<Rightarrow> (doc, Some db1)))"

section \<open>Recordings\<close>

text \<open>The callback stores a message; a failing insert is logged and answered like any other.\<close>

definition voicemail_status :: "string \<Rightarrow> int \<Rightarrow> string \<Rightarrow> bool \<Rightarrow> voice_request \<Rightarrow> voicemail_table \<Rightarrow> string \<times> voicemail_table" where
  "voicemail_status dir now uuid stored q t =
     (let mbox = or_else (m_get (vq_query q) ''mailbox'') [];
          caller = str_or (m_get (vq_query q) ''from'') (str_or (m_get (vq_body q) ''From'') ''unknown'');
          url = str_or (m_get (vq_body q) ''RecordingUrl'') (or_else (m_get (vq_body q) ''RecordUrl'') []);
          seconds = or_else (parse_int (str_or (m_get (vq_body q) ''RecordingDuration'') ''0'')) 0
      in (xml_header @ ''<Response/>'',
          if mbox \<noteq> [] \<and> url \<noteq> [] \<and> stored
          then insert_voicemail dir \<lparr>vg_id = str_or (m_get (vq_body q) ''RecordingSid'') (str_or (m_get (vq_body q) ''RecordingID'') uuid),
            vg_mailbox = mbox, vg_from = caller, vg_from_name = caller, vg_file = url, vg_duration = Some (of_int seconds),
            vg_created = Some now, vg_read = False\<rparr> t
          else t))"

section \<open>What the carrier is told\<close>

definition stream_verbs :: "streaming_config \<Rightarrow> string \<Rightarrow> (string, string) js_map \<Rightarrow> xml_token list" where
  "stream_verbs c mode ps = (case sc_provider c of
     Plivo \<Rightarrow> plivo_stream_verbs (build_media_stream_url c ([(''provider'', ''plivo''), (''mode'', mode)] @ ps)) ''audio/x-mulaw;rate=8000''
   | Twilio \<Rightarrow> twilio_stream_verbs (build_media_stream_url c []) ((''mode'', mode) # ps))"

text \<open>The verbs of a decision; the second argument is the agent that was resolved for an AI call.\<close>

definition decision_verbs :: "streaming_config \<Rightarrow> voice_deps \<Rightarrow> (string \<Rightarrow> string option) \<Rightarrow> voice_request \<Rightarrow> call_decision \<Rightarrow> xml_token list" where
  "decision_verbs c d agent q dec =
     (case dec of
        Bridge_To ext b \<Rightarrow> stream_verbs c ''bridge'' [(''bridgeId'', b), (''extension'', ext), (''from'', field q ''From'')]
      | Ai_Answers ext \<Rightarrow> stream_verbs c ''ai'' ((''extension'', ext) # (case non_empty (agent ext) of Some g \<Rightarrow> [(''agentId'', g)] | None \<Rightarrow> []))
      | Forward_To ext t \<Rightarrow> forward_verbs (sc_provider c = Plivo) t (non_empty (Some (field q ''From'')))
      | Take_Message ext \<Rightarrow> voicemail_verbs (sc_provider c = Plivo) \<lparr>vo_greeting = greeting_text,
          vo_max_seconds = vd_max_seconds d, vo_callback = recording_callback c q ext (field q ''From'')\<rparr>
      | Decline r \<Rightarrow> reject_verbs (sc_provider c = Plivo) Rejected)"

lemma stream_xml_read: "scan_xml (stream_xml c mode ps) = response (stream_verbs c mode ps)"
  by (simp add: stream_xml_def stream_verbs_def streams_read_back Let_def split: stream_provider.split)

lemma non_empty_again [simp]: "non_empty (non_empty x) = non_empty x"
  by (cases x) (simp_all add: non_empty_def)

lemma others_read:
  "scan_xml (reject_xml c r) = response (reject_verbs (sc_provider c = Plivo) r)"
  "scan_xml (forward_xml c t caller) = response (forward_verbs (sc_provider c = Plivo) t (non_empty caller))"
  "scan_xml (voicemail_xml c v) = response (voicemail_verbs (sc_provider c = Plivo) v)"
  by (simp_all add: reject_xml_def forward_xml_def voicemail_xml_def answers_read_back split: stream_provider.split)


section \<open>Recordings of strangers\<close>

definition posted_recording :: "string \<Rightarrow> string \<Rightarrow> voice_request" where
  "posted_recording mbox url = \<lparr>vq_body = [(''RecordingUrl'', url)], vq_query = [(''mailbox'', mbox)], vq_protocol = ''https'',
     vq_host = None, vq_base_url = ''/api/n/media''\<rparr>"

lemma absolute_resolved: "prefix ''/'' target \<Longrightarrow> path_resolve dir target = path_resolve ''/'' target"
  by (simp add: path_resolve_def)

text \<open>C20: The recording callback opens the server's files. It asks for no credentials and stores the posted address as
  a message's file; where that is an absolute path, the holder of the mailbox gets this file of the server when
  the message is played, and removes it when the message is deleted.\<close>

theorem posted_recording_reads_files:
  fixes s :: api_state
  assumes "table_ok (ap_mail s)" "ext \<noteq> []" "prefix ''/'' target" "path_resolve ''/'' target \<in> set (ap_files s)"
    and "auth_gate v h = Pass c" "jc_extension c = ext" "ax_query v"
  shows "let t = snd (voicemail_status dir now uuid True (posted_recording ext target) (ap_mail s));
      i = show_nat (vt_next (ap_mail s))
    in fst (serve v h (Vm_Audio ext i) (s\<lparr>ap_mail := t\<rparr>)) = (200, Api_Audio (path_resolve ''/'' target)) \<and>
       path_resolve ''/'' target \<notin> set (ap_files (snd (serve v h (Vm_Delete ext i) (s\<lparr>ap_mail := t\<rparr>))))"
proof -
  have target: "target \<noteq> []" using assms(3) by auto
  define m where "m = \<lparr>vg_id = uuid, vg_mailbox = ext, vg_from = ''unknown'', vg_from_name = ''unknown'', vg_file = target,
     vg_duration = Some (of_int (or_else (parse_int ''0'') 0)), vg_created = Some now, vg_read = False\<rparr>"
  have t: "snd (voicemail_status dir now uuid True (posted_recording ext target) (ap_mail s)) = insert_voicemail dir m (ap_mail s)"
    using assms(2) target by (simp add: voicemail_status_def posted_recording_def m_def Let_def str_or_def)
  have p: "parse_id (show_nat (vt_next (ap_mail s))) = Some (vt_next (ap_mail s))"
    using assms(1) by (simp add: table_ok_def parse_shown)
  note f = inserted_found [OF assms(1), where m = m and dir = dir]
  have box: "vg_mailbox m = ext" and fm: "vg_file m = target" by (simp_all add: m_def)
  obtain x where sel: "select_voicemail ext (show_nat (vt_next (ap_mail s))) (insert_voicemail dir m (ap_mail s)) = Some x"
    and x: "vg_file x = target"
    using f(1,3) box fm by (simp add: select_voicemail_def p row_to_voicemail_def)
  have del: "fst (remove_voicemail ext (show_nat (vt_next (ap_mail s))) (insert_voicemail dir m (ap_mail s))) = Some target"
    using f(1,3) box fm by (simp add: remove_voicemail_def p)
  have gate: "require_self_extension ext (auth_gate v h) = Pass c" using assms(5,6) by (simp add: require_self_extension_def)
  note r = absolute_resolved [OF assms(3), of "ax_vm_dir v"]
  show ?thesis
    using assms(4,7) target
    by (simp add: t Let_def guarded_def gate vm_audio_def vm_delete_def split_beta reply_ok_def sel del r x)
qed

text \<open>The desk of the API, with a password file next to the recordings.\<close>

theorem posted_recording_reads_files_witness:
  "let t = snd (voicemail_status ''/vm'' 5 ''u'' True (posted_recording ''1001'' ''/etc/passwd'') (ap_mail desk_state));
      i = show_nat (vt_next (ap_mail desk_state));
      s = desk_state\<lparr>ap_files := [''/etc/passwd'']\<rparr>;
      h = \<lparr>hh_authorization = Some ''Bearer a'', hh_cookie = None\<rparr>
    in fst (serve desk_api h (Vm_Audio ''1001'' i) (s\<lparr>ap_mail := t\<rparr>)) = (200, Api_Audio ''/etc/passwd'') \<and>
       ''/etc/passwd'' \<notin> set (ap_files (snd (serve desk_api h (Vm_Delete ''1001'' i) (s\<lparr>ap_mail := t\<rparr>))))"
proof -
  have r: "path_resolve ''/'' ''/etc/passwd'' = ''/etc/passwd''" by code_simp
  have ok: "table_ok (ap_mail desk_state)" by (simp add: desk_state_def table_ok_def insert_voicemail_def)
  have q: "ax_query desk_api" by (simp add: desk_api_def)
  show ?thesis
    using posted_recording_reads_files [where s = "desk_state\<lparr>ap_files := [''/etc/passwd'']\<rparr>" and ext = "''1001''" and
        target = "''/etc/passwd''" and v = desk_api, OF _ _ _ _ desk_gates(2) _ q, of "''/vm''" 5 "''u''"]
    by (simp add: r ok Let_def)
qed

end
