(* ===== verification/Media_Server.thy ===== *)
theory Media_Server
  imports Media_Protocol Pstn_Webhook
begin

text \<open>
  The media WebSocket server of \<^verbatim>\<open>src/src/trunk/streaming/media-stream.server.ts\<close>: the handshake, what a
  connection takes from its address, and the handler calls that each frame, the close and an
  error of a connection lead to.
\<close>

section \<open>Handshake\<close>

text \<open>The argument \<open>parse\<close> is the platform's URL parser: the query of an address, or \<open>None\<close> where it throws.\<close>

definition check_auth :: "streaming_config \<Rightarrow> (string \<Rightarrow> string option) \<Rightarrow> string \<Rightarrow> bool" where
  "check_auth c parse url \<longleftrightarrow> sc_auth_token c = [] \<or>
     (case parse url of None \<Rightarrow> False | Some q \<Rightarrow> map_of (query_pairs q) ''token'' = Some (sc_auth_token c))"

definition url_params :: "(string \<times> string) list \<Rightarrow> (string, string) js_map" where
  "url_params ps = fold (\<lambda>p m. if fst p = ''token'' \<or> fst p = ''provider'' then m else m_set (fst p) (snd p) m) ps []"

definition provider_name :: "stream_provider \<Rightarrow> string" where
  "provider_name v = (case v of Twilio \<Rightarrow> ''twilio'' | Plivo \<Rightarrow> ''plivo'')"

definition parse_connection_url :: "streaming_config \<Rightarrow> (string \<Rightarrow> string option) \<Rightarrow> string \<Rightarrow> string \<times> (string, string) js_map" where
  "parse_connection_url c parse url =
     (case parse url of None \<Rightarrow> (provider_name (sc_provider c), [])
      | Some q \<Rightarrow> (str_or (map_of (query_pairs q) ''provider'') (provider_name (sc_provider c)), url_params (query_pairs q)))"

section \<open>A connection\<close>

record media_session =
  me_id :: nat
  me_provider :: stream_source
  me_stream :: json
  me_call :: "json option"
  me_proto :: stream_source

record media_conn =
  mc_provider :: string
  mc_params :: "(string, string) js_map"
  mc_proto :: stream_source
  mc_url :: string
  mc_session :: "media_session option"
  mc_stopped :: bool

datatype handler_call =
    On_Start media_session stream_start
  | On_Audio media_session media_frame
  | On_Dtmf media_session string
  | On_Mark media_session string
  | On_Stop media_session
  | On_Error "media_session option"
  | Echo media_session bytes

definition on_media_connection :: "streaming_config \<Rightarrow> (string \<Rightarrow> string option) \<Rightarrow> string \<Rightarrow> media_conn option" where
  "on_media_connection c parse url =
     (if \<not> check_auth c parse url then None
      else (case parse_connection_url c parse url of (v, ps) \<Rightarrow>
        Some \<lparr>mc_provider = v, mc_params = ps, mc_proto = select_protocol v, mc_url = url, mc_session = None, mc_stopped = False\<rparr>))"

text \<open>The identifier is a fresh one.\<close>

definition create_session :: "nat \<Rightarrow> stream_start \<Rightarrow> stream_source \<Rightarrow> media_session" where
  "create_session k meta proto = \<lparr>me_id = k, me_provider = ss_provider meta, me_stream = ss_stream meta, me_call = ss_call meta,
     me_proto = proto\<rparr>"

definition decode_start :: "platform \<Rightarrow> media_conn \<Rightarrow> json \<Rightarrow> stream_start" where
  "decode_start p c msg = (case mc_proto c of Src_Twilio \<Rightarrow> decode_twilio_start p msg
     | Src_Plivo \<Rightarrow> decode_plivo_start p msg (mc_params c) | Src_Freeswitch \<Rightarrow> decode_fs_start [] (mc_params c))"

definition fire_stop :: "media_conn \<Rightarrow> media_conn \<times> handler_call list" where
  "fire_stop c = (case mc_session c of
     Some s \<Rightarrow> if mc_stopped c then (c, []) else (c\<lparr>mc_stopped := True\<rparr>, [On_Stop s])
   | None \<Rightarrow> (c, []))"

definition begin_session :: "nat \<Rightarrow> stream_start \<Rightarrow> media_conn \<Rightarrow> media_conn \<times> handler_call list" where
  "begin_session k meta c =
     (let s = create_session k meta (mc_proto c) in (c\<lparr>mc_session := Some s\<rparr>, [On_Start s meta]))"

text \<open>A raw frame of FreeSWITCH; the first one starts the session.\<close>

definition on_fs_frame :: "nat \<Rightarrow> bool \<Rightarrow> bytes \<Rightarrow> media_conn \<Rightarrow> media_conn \<times> handler_call list" where
  "on_fs_frame k binary raw c =
     (case (case mc_session c of Some s \<Rightarrow> (c, []) | None \<Rightarrow> begin_session k (decode_fs_start (mc_url c) (mc_params c)) c) of
        (d, hs) \<Rightarrow> (d, hs @ (if binary \<or> raw = [] \<or> hd raw \<noteq> 123 then [On_Audio (the (mc_session d)) (decode_fs_media raw)] else [])))"

text \<open>A message of a carrier; \<open>None\<close> where an exception leaves the listener.\<close>

definition on_message :: "platform \<Rightarrow> bool \<Rightarrow> nat \<Rightarrow> json \<Rightarrow> media_conn \<Rightarrow> (media_conn \<times> handler_call list) option" where
  "on_message p echo k msg c =
     (if msg = J_Null then None
      else let ev = j_prop (Some msg) ''event'' in
        if ev = Some (J_Str ''start'') then Some (begin_session k (decode_start p c msg) c)
        else if ev = Some (J_Str ''media'') then
          (case mc_session c of None \<Rightarrow> Some (c, [])
           | Some s \<Rightarrow> map_option (\<lambda>f. (c, (if echo then [Echo s (fr_audio f)] else []) @ [On_Audio s f]))
               (case mc_proto c of Src_Freeswitch \<Rightarrow> map_option decode_fs_media (pf_buffer p msg) | _ \<Rightarrow> decode_media p msg))
        else if ev = Some (J_Str ''dtmf'') then
          (case (mc_session c, j_prop (j_prop (Some msg) ''dtmf'') ''digit'') of
             (Some s, d) \<Rightarrow> Some (c, if j_true d then [On_Dtmf s (j_string p (the d))] else []) | _ \<Rightarrow> Some (c, []))
        else if ev = Some (J_Str ''mark'') then
          (case (mc_session c, j_prop (j_prop (Some msg) ''mark'') ''name'') of
             (Some s, n) \<Rightarrow> Some (c, if j_true n then [On_Mark s (j_string p (the n))] else []) | _ \<Rightarrow> Some (c, []))
        else if ev = Some (J_Str ''stop'') then Some (fire_stop c)
        else Some (c, []))"

datatype conn_event = Frame_In nat bool bytes | Conn_Closed | Conn_Error

definition conn_step :: "platform \<Rightarrow> bool \<Rightarrow> conn_event \<Rightarrow> media_conn \<Rightarrow> (media_conn \<times> handler_call list) option" where
  "conn_step p echo e c =
     (case e of
        Frame_In k binary raw \<Rightarrow>
          if mc_provider c = ''freeswitch'' then Some (on_fs_frame k binary raw c)
          else (case pf_parse p raw of None \<Rightarrow> Some (c, []) | Some msg \<Rightarrow> on_message p echo k msg c)
      | Conn_Closed \<Rightarrow> Some (fire_stop c)
      | Conn_Error \<Rightarrow> Some (c, [On_Error (mc_session c)]))"

text \<open>A connection's life: the handler calls in order, and whether no exception ended the process.\<close>

fun conn_run :: "platform \<Rightarrow> bool \<Rightarrow> conn_event list \<Rightarrow> media_conn \<Rightarrow> media_conn \<times> handler_call list \<times> bool" where
  "conn_run p echo [] c = (c, [], True)"
| "conn_run p echo (e # es) c = (case conn_step p echo e c of
     None \<Rightarrow> (c, [], False)
   | Some (d, hs) \<Rightarrow> (case conn_run p echo es d of (d', gs, ok) \<Rightarrow> (d', hs @ gs, ok)))"

section \<open>The life of a stream\<close>

text \<open>What the handlers may count on: calls name the session that was started last, and a stop comes once.\<close>

fun well_ordered :: "media_session option \<Rightarrow> bool \<Rightarrow> handler_call list \<Rightarrow> bool" where
  "well_ordered cur stopped [] = True"
| "well_ordered cur stopped (On_Start s meta # hs) = well_ordered (Some s) stopped hs"
| "well_ordered cur stopped (On_Stop s # hs) = (cur = Some s \<and> \<not> stopped \<and> well_ordered cur True hs)"
| "well_ordered cur stopped (On_Audio s f # hs) = (cur = Some s \<and> well_ordered cur stopped hs)"
| "well_ordered cur stopped (On_Dtmf s d # hs) = (cur = Some s \<and> well_ordered cur stopped hs)"
| "well_ordered cur stopped (On_Mark s n # hs) = (cur = Some s \<and> well_ordered cur stopped hs)"
| "well_ordered cur stopped (Echo s b # hs) = (cur = Some s \<and> well_ordered cur stopped hs)"
| "well_ordered cur stopped (On_Error s # hs) = (s = cur \<and> well_ordered cur stopped hs)"

definition starts :: "handler_call list \<Rightarrow> nat" where
  "starts hs = length (filter (\<lambda>h. case h of On_Start s m \<Rightarrow> True | _ \<Rightarrow> False) hs)"

definition stops :: "handler_call list \<Rightarrow> nat" where
  "stops hs = length (filter (\<lambda>h. case h of On_Stop s \<Rightarrow> True | _ \<Rightarrow> False) hs)"

lemma counts_simps [simp]:
  "starts [] = 0" "stops [] = 0" "starts (hs @ gs) = starts hs + starts gs" "stops (hs @ gs) = stops hs + stops gs"
  "starts (h # hs) = (case h of On_Start s m \<Rightarrow> 1 | _ \<Rightarrow> 0) + starts hs"
  "stops (h # hs) = (case h of On_Stop s \<Rightarrow> 1 | _ \<Rightarrow> 0) + stops hs"
  by (auto simp: starts_def stops_def split: handler_call.split)

text \<open>One event: its calls are in order and lead from the connection's session and flag to the next ones.\<close>

lemma step_ordered:
  assumes "conn_step p echo e c = Some (d, hs)"
  shows "(well_ordered (mc_session d) (mc_stopped d) gs \<longrightarrow> well_ordered (mc_session c) (mc_stopped c) (hs @ gs)) \<and>
    (mc_stopped d \<longleftrightarrow> mc_stopped c \<or> stops hs > 0) \<and> stops hs \<le> (if mc_stopped c then 0 else 1) \<and>
    (mc_session d \<noteq> None \<longleftrightarrow> mc_session c \<noteq> None \<or> starts hs > 0)"
  using assms
  by (auto simp: conn_step_def on_fs_frame_def begin_session_def on_message_def fire_stop_def Let_def
      split: conn_event.splits if_splits option.splits prod.splits)

lemma run_ordered:
  "case conn_run p echo es c of (d, hs, ok) \<Rightarrow>
    well_ordered (mc_session c) (mc_stopped c) hs \<and> (mc_stopped d \<longleftrightarrow> mc_stopped c \<or> stops hs > 0) \<and>
    stops hs \<le> (if mc_stopped c then 0 else 1) \<and> (mc_session d \<noteq> None \<longleftrightarrow> mc_session c \<noteq> None \<or> starts hs > 0)"
proof (induction es arbitrary: c)
  case (Cons e es)
  show ?case
  proof (cases "conn_step p echo e c")
    case (Some r)
    obtain d hs where r: "r = (d, hs)" by (cases r)
    obtain d' gs ok where run: "conn_run p echo es d = (d', gs, ok)" by (metis prod_cases3)
    show ?thesis
      using step_ordered [OF Some [unfolded r], of gs] Cons.IH [of d] by (auto simp: Some r run split: if_splits)
  qed simp
qed simp

lemma run_snoc:
  "conn_run p echo (es @ [e]) c = (case conn_run p echo es c of
     (d, hs, True) \<Rightarrow> (case conn_step p echo e d of None \<Rightarrow> (d, hs, False) | Some (d', gs) \<Rightarrow> (d', hs @ gs, True))
   | (d, hs, False) \<Rightarrow> (d, hs, False))"
  by (induction es arbitrary: c) (auto split: option.split prod.split bool.split)

lemma stop_needs_start: "well_ordered cur stopped hs \<Longrightarrow> cur = None \<Longrightarrow> stops hs > 0 \<Longrightarrow> starts hs > 0"
  by (induction cur stopped hs rule: well_ordered.induct) auto

text \<open>C19: The handlers see an orderly stream. Whatever a carrier or an intruder sends over an admitted connection, every
  audio, key and mark call names the session that was started last, none comes before a start, and there is
  at most one stop, for that session; when the connection is closed, a stop has been made exactly if a session was started.\<close>

theorem stream_lifecycle:
  assumes "on_media_connection c parse url = Some m"
  shows "(case conn_run p echo es m of (d, hs, ok) \<Rightarrow> well_ordered None False hs \<and> stops hs \<le> 1) \<and>
    (case conn_run p echo (es @ [Conn_Closed]) m of (d, hs, ok) \<Rightarrow> ok \<longrightarrow> stops hs = (if starts hs = 0 then 0 else 1))"
proof -
  have m: "mc_session m = None" "\<not> mc_stopped m"
    using assms by (auto simp: on_media_connection_def split: if_splits prod.splits)
  obtain d hs ok where run: "conn_run p echo es m = (d, hs, ok)" by (metis prod_cases3)
  have r: "well_ordered None False hs" "mc_stopped d \<longleftrightarrow> stops hs > 0" "stops hs \<le> 1" "mc_session d \<noteq> None \<longleftrightarrow> starts hs > 0"
    using run_ordered [where p = p and echo = echo and es = es and c = m] m by (simp_all add: run)
  show ?thesis
  proof (cases ok)
    case True
    then show ?thesis
      using r stop_needs_start [OF r(1)] by (auto simp: run run_snoc conn_step_def fire_stop_def split: option.split)
  qed (use r in \<open>simp add: run run_snoc\<close>)
qed

section \<open>One frame ends the process\<close>

text \<open>No handler of the process catches what leaves a socket's listener, and a parsed message is used outside the
  block that guards the parser: whatever came before on a connection that is not FreeSWITCH's, a frame that holds
  the JSON text \<^verbatim>\<open>null\<close>, or a media frame whose payload the platform refuses, ends the process, and nothing
  that follows is served.\<close>

theorem one_frame_ends_process:
  assumes "mc_provider m \<noteq> ''freeswitch''" "pf_parse p raw = Some J_Null"
  shows "case conn_run p echo (es @ Frame_In k b raw # rest) m of (d, hs, ok) \<Rightarrow>
    \<not> ok \<and> hs = fst (snd (conn_run p echo es m))"
  using assms(1)
proof (induction es arbitrary: m)
  case Nil
  then show ?case by (simp add: conn_step_def on_message_def assms(2))
next
  case (Cons e es)
  have keep: "mc_provider d = mc_provider m" if "conn_step p echo e m = Some (d, hs)" for d hs
    using that Cons.prems
    by (auto simp: conn_step_def begin_session_def on_message_def fire_stop_def Let_def
        split: conn_event.splits if_splits option.splits)
  show ?case
  proof (cases "conn_step p echo e m")
    case (Some r)
    obtain d hs where r: "r = (d, hs)" by (cases r)
    from Cons.IH [of d] keep [OF Some [unfolded r]] Cons.prems show ?thesis
      by (auto simp: Some r split: prod.splits)
  qed simp
qed

section \<open>The webhook's parameters arrive\<close>

definition query_of :: "string \<Rightarrow> string" where
  "query_of u = takeWhile (\<lambda>c. c \<noteq> CHR ''#'') (tl (dropWhile (\<lambda>c. c \<noteq> CHR ''?'') u))"

definition plain_keys :: "(string, string) js_map \<Rightarrow> bool" where
  "plain_keys ps \<longleftrightarrow> m_ok ps \<and> {''token'', ''provider''} \<inter> set (m_keys ps) = {}"

lemma fold_append:
  assumes "m_ok ps" "set (m_keys ps) \<inter> set (m_keys m) = {}"
  shows "fold (\<lambda>p. m_set (fst p) (snd p)) ps m = m @ ps"
  using assms
proof (induction ps arbitrary: m)
  case (Cons p ps)
  have "m_get m (fst p) = None" using Cons.prems by (auto simp: map_of_eq_None_iff)
  then have "m_set (fst p) (snd p) m = m @ [p]" using m_set_append [of m "fst p" "snd p"] by simp
  with Cons show ?case by auto
qed simp

lemma params_append:
  assumes "plain_keys ps" "set (m_keys ps) \<inter> set (m_keys m) = {}"
  shows "fold (\<lambda>p m. if fst p = ''token'' \<or> fst p = ''provider'' then m else m_set (fst p) (snd p) m) ps m = m @ ps"
proof -
  have "fold (\<lambda>p m. if fst p = ''token'' \<or> fst p = ''provider'' then m else m_set (fst p) (snd p) m) ps m =
    fold (\<lambda>p. m_set (fst p) (snd p)) ps m"
    using assms(1) by (intro fold_cong) (force simp: plain_keys_def)+
  with fold_append [OF _ assms(2)] assms(1) show ?thesis by (simp add: plain_keys_def)
qed

lemma media_query_eq:
  assumes "plain_keys ps"
  shows "media_query c ((''provider'', ''plivo'') # ps) =
    (if sc_auth_token c \<noteq> [] then [(''token'', sc_auth_token c)] else []) @ (''provider'', ''plivo'') # ps"
  unfolding media_query_def by (rule fold_append) (use assms in \<open>force simp: plain_keys_def\<close>)+

lemma media_url_query:
  assumes "CHR ''?'' \<notin> set (media_base c)" "media_query c extra \<noteq> []"
  shows "query_of (build_media_stream_url c extra) = query_string (media_query c extra)"
proof -
  have "\<forall>x\<in>set (media_base c). x \<noteq> CHR ''?''" using assms(1) by auto
  moreover have "\<forall>x\<in>set (query_string (media_query c extra)). x \<noteq> CHR ''#''" using query_chars by blast
  moreover have "query_string (media_query c extra) \<noteq> []" using assms(2) by (simp add: query_empty)
  ultimately show ?thesis
    using assms(1) by (simp add: query_of_def build_media_stream_url_def Let_def dropWhile_append2 takeWhile_eq_all_conv [THEN iffD2])
qed

text \<open>What the webhook puts into a stream's address reaches the media server. A connection that a carrier opens to the
  address of a Plivo answer passes the handshake, speaks Plivo's protocol, and has exactly the parameters of the
  call, whatever characters they are made of; the shared token is not among them.\<close>

theorem stream_params_arrive:
  assumes "CHR ''?'' \<notin> set (media_base c)" "plain_keys ps"
    and "parse target = Some (query_of (build_media_stream_url c ((''provider'', ''plivo'') # ps)))"
  shows "on_media_connection c parse target = Some \<lparr>mc_provider = ''plivo'', mc_params = ps, mc_proto = Src_Plivo,
      mc_url = target, mc_session = None, mc_stopped = False\<rparr>"
proof -
  let ?q = "media_query c ((''provider'', ''plivo'') # ps)"
  note eq = media_query_eq [OF assms(2), of c]
  have p: "parse target = Some (query_string ?q)" using assms(3) media_url_query [OF assms(1)] eq by simp
  have "check_auth c parse target" by (simp add: check_auth_def p query_round eq)
  moreover have "parse_connection_url c parse target = (''plivo'', ps)"
    using params_append [of ps "[]"] assms(2)
    by (simp add: parse_connection_url_def p query_round eq url_params_def)
  ultimately show ?thesis by (simp add: on_media_connection_def select_protocol_def)
qed

section \<open>Instances\<close>

definition plivo_config :: streaming_config where
  "plivo_config = \<lparr>sc_enabled = True, sc_ws_port = Some 3004, sc_public_ws = ''wss://v.example/media'', sc_public_http = [],
     sc_auth_token = ''s3cr&t'', sc_echo = False, sc_bridge_port = Some 3005, sc_ai_enabled = False, sc_language = ''en'', sc_provider = Plivo\<rparr>"

definition plivo_params :: "(string, string) js_map" where
  "plivo_params = [(''mode'', ''bridge''), (''bridgeId'', ''1001''), (''from'', ''+1 555&mode=ai'')]"

text \<open>A parser that knows three frames: a byte is a message.\<close>

definition toy_platform :: platform where
  "toy_platform = \<lparr>pf_parse = (\<lambda>b. if b = [0] then Some J_Null
       else if b = [1] then Some (J_Obj [(''event'', J_Str ''start''), (''streamId'', J_Str ''s1'')])
       else if b = [2] then Some (J_Obj [(''event'', J_Str ''stop'')]) else None),
     pf_show = (\<lambda>j. []), pf_string = (\<lambda>j. []), pf_number = (\<lambda>j. NaN), pf_buffer = (\<lambda>j. None)\<rparr>"

definition plivo_target :: string where
  "plivo_target = ''/media?'' @ query_string (media_query plivo_config ((''provider'', ''plivo'') # plivo_params))"

definition plivo_parse :: "string \<Rightarrow> string option" where
  "plivo_parse t = Some (query_of t)"

lemma plivo_same_query:
  "plivo_parse plivo_target = Some (query_of (build_media_stream_url plivo_config ((''provider'', ''plivo'') # plivo_params)))"
  by code_simp

theorem stream_params_arrive_witness:
  "map_option mc_params (on_media_connection plivo_config plivo_parse plivo_target) = Some plivo_params"
  using stream_params_arrive [where c = plivo_config and ps = plivo_params and parse = plivo_parse and target = plivo_target,
      OF _ _ plivo_same_query]
  by (simp add: media_base_def plivo_config_def plain_keys_def plivo_params_def)

definition plivo_conn :: media_conn where
  "plivo_conn = \<lparr>mc_provider = ''plivo'', mc_params = plivo_params, mc_proto = Src_Plivo, mc_url = plivo_target,
     mc_session = None, mc_stopped = False\<rparr>"

lemma plivo_connects: "on_media_connection plivo_config plivo_parse plivo_target = Some plivo_conn"
  by code_simp

theorem stream_lifecycle_witness:
  "stops (fst (snd (conn_run toy_platform False ([Frame_In 1 False [1], Frame_In 2 False [2]] @ [Conn_Closed]) plivo_conn))) = 1"
  using stream_lifecycle [OF plivo_connects, of toy_platform False "[Frame_In 1 False [1], Frame_In 2 False [2]]"]
  by (simp add: conn_step_def toy_platform_def plivo_conn_def on_message_def j_prop_def begin_session_def fire_stop_def Let_def)

theorem one_frame_ends_process_witness:
  "case conn_run toy_platform False ([Frame_In 1 False [1]] @ Frame_In 2 False [0] # [Frame_In 3 False [2]]) plivo_conn of
    (d, hs, ok) \<Rightarrow> \<not> ok \<and> length hs = 1"
  using one_frame_ends_process [where m = plivo_conn and p = toy_platform and raw = "[0]" and echo = False and
      es = "[Frame_In 1 False [1]]" and b = False and k = 2 and rest = "[Frame_In 3 False [2]]"]
  by (simp add: conn_step_def toy_platform_def plivo_conn_def on_message_def j_prop_def begin_session_def Let_def)

end
