(* ===== verification/Browser_Bridge.thy ===== *)
theory Browser_Bridge
  imports Media_Server
begin

text \<open>
  The bridge between a caller's media stream and a browser
  (\<^verbatim>\<open>src/src/trunk/streaming/browser-bridge.ts\<close>). The pairs are objects that the map and the listeners of
  the browsers share, so they live in a store and are named by their addresses.
\<close>

section \<open>State\<close>

record bridge_pair =
  bp_session :: "media_session option"
  bp_browser :: "nat option"
  bp_from :: "json option"
  bp_call :: "json option"

text \<open>
  The map of pairs, the store, the \<^verbatim>\<open>bridgeKey\<close> of each session, what the listeners of each browser
  closed over, and the browsers whose socket is open.
\<close>

record bridge =
  br_pairs :: "(json, nat) js_map"
  br_heap :: "bridge_pair list"
  br_keys :: "(nat, json) js_map"
  br_browsers :: "(nat, json \<times> nat) js_map"
  br_open :: "nat list"

definition new_bridge :: bridge where
  "new_bridge = \<lparr>br_pairs = [], br_heap = [], br_keys = [], br_browsers = [], br_open = []\<rparr>"

datatype browser_message = Linked "json option" "json option" | Caller_Stopped | Caller_Audio bytes

datatype bridge_output = To_Browser nat browser_message | To_Caller media_session bytes | Hang_Up media_session

definition key_of :: "stream_start \<Rightarrow> json" where
  "key_of meta =
     (let b = j_prop (Some (ss_params meta)) ''bridgeId''
      in if j_true b then the b else if j_true (ss_call meta) then the (ss_call meta) else ss_stream meta)"

definition no_pair :: bridge_pair where
  "no_pair = \<lparr>bp_session = None, bp_browser = None, bp_from = None, bp_call = None\<rparr>"

definition pair_for :: "json \<Rightarrow> bridge \<Rightarrow> nat \<times> bridge" where
  "pair_for k b = (case m_get (br_pairs b) k of Some a \<Rightarrow> (a, b)
     | None \<Rightarrow> (length (br_heap b), b\<lparr>br_pairs := m_set k (length (br_heap b)) (br_pairs b), br_heap := br_heap b @ [no_pair]\<rparr>))"

definition modify_pair :: "nat \<Rightarrow> (bridge_pair \<Rightarrow> bridge_pair) \<Rightarrow> bridge \<Rightarrow> bridge" where
  "modify_pair a f b = b\<lparr>br_heap := (br_heap b)[a := f (br_heap b ! a)]\<rparr>"

definition bridge_send :: "bridge \<Rightarrow> nat option \<Rightarrow> browser_message \<Rightarrow> bridge_output list" where
  "bridge_send b w m = (case w of Some x \<Rightarrow> if x \<in> set (br_open b) then [To_Browser x m] else [] | None \<Rightarrow> [])"

definition cleanup_pair :: "json \<Rightarrow> bridge \<Rightarrow> bridge" where
  "cleanup_pair k b = (case m_get (br_pairs b) k of
     Some a \<Rightarrow> if bp_session (br_heap b ! a) = None \<and> bp_browser (br_heap b ! a) = None then b\<lparr>br_pairs := m_del k (br_pairs b)\<rparr> else b
   | None \<Rightarrow> b)"

section \<open>The browser's side\<close>

text \<open>The handshake is the media server's; the key is the address's \<^verbatim>\<open>id\<close>, and a socket without one is closed.\<close>

definition browser_key_of :: "(string \<Rightarrow> string option) \<Rightarrow> string \<Rightarrow> string" where
  "browser_key_of parse url = (case parse url of None \<Rightarrow> [] | Some q \<Rightarrow> or_else (map_of (query_pairs q) ''id'') [])"

definition on_browser :: "nat \<Rightarrow> string \<Rightarrow> bridge \<Rightarrow> bridge \<times> bridge_output list" where
  "on_browser w key b =
     (if key = [] then (b, [])
      else (case pair_for (J_Str key) (b\<lparr>br_open := w # br_open b\<rparr>) of (a, b1) \<Rightarrow>
        (let b2 = modify_pair a (\<lambda>p. p\<lparr>bp_browser := Some w\<rparr>) (b1\<lparr>br_browsers := m_set w (J_Str key, a) (br_browsers b1)\<rparr>);
             p = br_heap b2 ! a
         in (b2, if bp_session p \<noteq> None then bridge_send b2 (Some w) (Linked (bp_from p) (bp_call p)) else []))))"

definition connect_browser ::
  "streaming_config \<Rightarrow> (string \<Rightarrow> string option) \<Rightarrow> nat \<Rightarrow> string \<Rightarrow> bridge \<Rightarrow> bridge \<times> bridge_output list" where
  "connect_browser c parse w url b = (if check_auth c parse url then on_browser w (browser_key_of parse url) b else (b, []))"

definition browser_frame :: "platform \<Rightarrow> nat \<Rightarrow> bool \<Rightarrow> bytes \<Rightarrow> bridge \<Rightarrow> bridge \<times> bridge_output list" where
  "browser_frame p w binary raw b =
     (b, case m_get (br_browsers b) w of None \<Rightarrow> []
       | Some (k, a) \<Rightarrow> (case bp_session (br_heap b ! a) of None \<Rightarrow> []
           | Some s \<Rightarrow> if binary then [To_Caller s (pcm16_to_mulaw raw)]
               else if j_prop (pf_parse p raw) ''type'' = Some (J_Str ''hangup'') then [Hang_Up s] else []))"

definition leave_pair :: "nat \<Rightarrow> bridge \<Rightarrow> bridge" where
  "leave_pair w b = (case m_get (br_browsers b) w of None \<Rightarrow> b
     | Some (k, a) \<Rightarrow> modify_pair a (\<lambda>p. if bp_browser p = Some w then p\<lparr>bp_browser := None\<rparr> else p) b)"

definition browser_closed :: "nat \<Rightarrow> bridge \<Rightarrow> bridge" where
  "browser_closed w b =
     (let b1 = leave_pair w (b\<lparr>br_open := filter (\<lambda>x. x \<noteq> w) (br_open b)\<rparr>)
      in case m_get (br_browsers b) w of None \<Rightarrow> b1 | Some (k, a) \<Rightarrow> cleanup_pair k b1)"

definition browser_error :: "nat \<Rightarrow> bridge \<Rightarrow> bridge" where
  "browser_error w b = leave_pair w b"

section \<open>The caller's side\<close>

definition bridge_start :: "media_session \<Rightarrow> stream_start \<Rightarrow> bridge \<Rightarrow> bridge \<times> bridge_output list" where
  "bridge_start s meta b =
     (case pair_for (key_of meta) b of (a, b1) \<Rightarrow>
        (let caller = j_prop (Some (ss_params meta)) ''from'';
             b2 = modify_pair a (\<lambda>p. p\<lparr>bp_session := Some s, bp_from := (if j_true caller then caller else None), bp_call := me_call s\<rparr>)
               (b1\<lparr>br_keys := m_set (me_id s) (key_of meta) (br_keys b1)\<rparr>);
             p = br_heap b2 ! a
         in (b2, bridge_send b2 (bp_browser p) (Linked (bp_from p) (bp_call p)))))"

definition live_key :: "bridge \<Rightarrow> media_session \<Rightarrow> json option" where
  "live_key b s = (if j_true (m_get (br_keys b) (me_id s)) then m_get (br_keys b) (me_id s) else None)"

definition bridge_audio :: "media_session \<Rightarrow> media_frame \<Rightarrow> bridge \<Rightarrow> bridge_output list" where
  "bridge_audio s f b =
     (case Option.bind (live_key b s) (m_get (br_pairs b)) of None \<Rightarrow> []
      | Some a \<Rightarrow> bridge_send b (bp_browser (br_heap b ! a)) (Caller_Audio (mulaw_to_pcm16 (fr_audio f))))"

definition bridge_stop :: "media_session \<Rightarrow> bridge \<Rightarrow> bridge \<times> bridge_output list" where
  "bridge_stop s b =
     (case live_key b s of None \<Rightarrow> (b, [])
      | Some k \<Rightarrow> (case m_get (br_pairs b) k of None \<Rightarrow> (cleanup_pair k b, [])
          | Some a \<Rightarrow> (cleanup_pair k (modify_pair a (\<lambda>p. p\<lparr>bp_session := None, bp_from := None, bp_call := None\<rparr>) b),
              bridge_send b (bp_browser (br_heap b ! a)) Caller_Stopped)))"

definition bridge_call :: "handler_call \<Rightarrow> bridge \<Rightarrow> bridge \<times> bridge_output list" where
  "bridge_call h b = (case h of On_Start s meta \<Rightarrow> bridge_start s meta b | On_Audio s f \<Rightarrow> (b, bridge_audio s f b)
     | On_Stop s \<Rightarrow> bridge_stop s b | _ \<Rightarrow> (b, []))"

section \<open>Steps\<close>

datatype bridge_event = Br_Connect nat string | Br_Frame nat bool bytes | Br_Closed nat | Br_Failed nat | Br_Call handler_call

definition bridge_step :: "platform \<Rightarrow> bridge_event \<Rightarrow> bridge \<Rightarrow> bridge \<times> bridge_output list" where
  "bridge_step p e b = (case e of Br_Connect w key \<Rightarrow> on_browser w key b | Br_Frame w bin raw \<Rightarrow> browser_frame p w bin raw b
     | Br_Closed w \<Rightarrow> (browser_closed w b, []) | Br_Failed w \<Rightarrow> (browser_error w b, []) | Br_Call h \<Rightarrow> bridge_call h b)"

text \<open>A session's identifier is fresh when it starts, and a socket is new when it connects.\<close>

definition event_fresh :: "bridge_event \<Rightarrow> bridge \<Rightarrow> bool" where
  "event_fresh e b = (case e of Br_Connect w key \<Rightarrow> m_get (br_browsers b) w = None
     | Br_Call (On_Start s meta) \<Rightarrow> m_get (br_keys b) (me_id s) = None | _ \<Rightarrow> True)"

inductive bridge_reach :: "platform \<Rightarrow> bridge \<Rightarrow> bool" for p where
  Bridge_New: "bridge_reach p new_bridge"
| Bridge_Step: "bridge_reach p b \<Longrightarrow> event_fresh e b \<Longrightarrow> bridge_reach p (fst (bridge_step p e b))"

section \<open>Calls are kept apart\<close>

text \<open>Each address serves one key: the map, the listeners, the session and the browser of a pair agree on it.\<close>

definition pair_ok :: "(nat \<Rightarrow> json) \<Rightarrow> bridge \<Rightarrow> nat \<Rightarrow> bridge_pair \<Rightarrow> bool" where
  "pair_ok f b a p \<longleftrightarrow> (\<forall>s. bp_session p = Some s \<longrightarrow> m_get (br_keys b) (me_id s) = Some (f a)) \<and>
     (\<forall>w. bp_browser p = Some w \<longrightarrow> m_get (br_browsers b) w = Some (f a, a))"

definition owned_by :: "(nat \<Rightarrow> json) \<Rightarrow> bridge \<Rightarrow> bool" where
  "owned_by f b \<longleftrightarrow>
     (\<forall>k a. m_get (br_pairs b) k = Some a \<longrightarrow> a < length (br_heap b) \<and> f a = k) \<and>
     (\<forall>w k a. m_get (br_browsers b) w = Some (k, a) \<longrightarrow> a < length (br_heap b) \<and> f a = k) \<and>
     (\<forall>a < length (br_heap b). pair_ok f b a (br_heap b ! a))"

lemma pair_ok_fields [simp]:
  "pair_ok f (b\<lparr>br_pairs := m\<rparr>) a p = pair_ok f b a p"
  "pair_ok f (b\<lparr>br_heap := h\<rparr>) a p = pair_ok f b a p"
  "pair_ok f (b\<lparr>br_open := ws\<rparr>) a p = pair_ok f b a p"
  by (simp_all add: pair_ok_def)

lemma owned_new: "owned_by f new_bridge"
  by (simp add: owned_by_def new_bridge_def)

lemma ownedD:
  assumes "owned_by f b"
  shows "m_get (br_pairs b) k = Some a \<Longrightarrow> a < length (br_heap b) \<and> f a = k"
    and "m_get (br_browsers b) w = Some (k, a) \<Longrightarrow> a < length (br_heap b) \<and> f a = k"
    and "a < length (br_heap b) \<Longrightarrow> pair_ok f b a (br_heap b ! a)"
  using assms by (simp_all add: owned_by_def)

lemma owned_modify:
  assumes "owned_by f b" "\<And>p. pair_ok f b a p \<Longrightarrow> pair_ok f b a (g p)"
  shows "owned_by f (modify_pair a g b)"
proof -
  have "pair_ok f b x ((br_heap b)[a := g (br_heap b ! a)] ! x)" if "x < length (br_heap b)" for x
  proof (cases "x = a")
    case True
    with that assms(2) [OF ownedD(3) [OF assms(1), of a]] show ?thesis by simp
  qed (use that ownedD(3) [OF assms(1), of x] in simp)
  with assms(1) show ?thesis by (simp add: owned_by_def modify_pair_def)
qed

lemma owned_pairs_del: "owned_by f b \<Longrightarrow> owned_by f (b\<lparr>br_pairs := m_del k (br_pairs b)\<rparr>)"
  by (simp add: owned_by_def js.get_del)

lemma owned_cleanup: "owned_by f b \<Longrightarrow> owned_by f (cleanup_pair k b)"
  by (simp add: cleanup_pair_def owned_pairs_del split: option.split)

lemma owned_open: "owned_by f (b\<lparr>br_open := ws\<rparr>) = owned_by f b"
  by (simp add: owned_by_def)

lemma owned_pair_for:
  assumes "owned_by f b" "pair_for k b = (a, b1)"
  shows "\<exists>g. owned_by g b1 \<and> a < length (br_heap b1) \<and> g a = k \<and> m_get (br_pairs b1) k = Some a"
    and "br_keys b1 = br_keys b" "br_browsers b1 = br_browsers b" "br_open b1 = br_open b"
proof -
  show "\<exists>g. owned_by g b1 \<and> a < length (br_heap b1) \<and> g a = k \<and> m_get (br_pairs b1) k = Some a"
  proof (cases "m_get (br_pairs b) k")
    case None
    let ?n = "length (br_heap b)"
    have b1: "a = ?n" "b1 = b\<lparr>br_pairs := m_set k ?n (br_pairs b), br_heap := br_heap b @ [no_pair]\<rparr>"
      using assms(2) None by (auto simp: pair_for_def)
    have "pair_ok (f(?n := k)) b1 x (br_heap b1 ! x)" if "x < length (br_heap b1)" for x
    proof (cases "x = ?n")
      case False
      with that assms(1) b1 show ?thesis by (simp add: owned_by_def pair_ok_def nth_append)
    qed (simp add: b1 pair_ok_def no_pair_def)
    moreover have "x < length (br_heap b1) \<and> (f(?n := k)) x = j" if "m_get (br_pairs b1) j = Some x" for j x
      using that assms(1) b1 by (fastforce simp: owned_by_def js.get_put split: if_splits)
    moreover have "x < length (br_heap b1) \<and> (f(?n := k)) x = j" if "m_get (br_browsers b1) w = Some (j, x)" for w j x
      using that assms(1) b1 by (fastforce simp: owned_by_def)
    ultimately have "owned_by (f(?n := k)) b1" unfolding owned_by_def by blast
    with b1 show ?thesis by (intro exI [of _ "f(?n := k)"]) (simp add: js.get_put)
  next
    case (Some x)
    with assms show ?thesis by (intro exI [of _ f]) (auto simp: pair_for_def owned_by_def)
  qed
  show "br_keys b1 = br_keys b" "br_browsers b1 = br_browsers b" "br_open b1 = br_open b"
    using assms(2) by (auto simp: pair_for_def split: option.splits)
qed

lemma owned_leave: "owned_by f b \<Longrightarrow> owned_by f (leave_pair w b)"
  by (auto simp: leave_pair_def pair_ok_def split: option.split intro!: owned_modify)

lemma owned_start:
  assumes "owned_by f b" "m_get (br_keys b) (me_id s) = None"
  shows "\<exists>g. owned_by g (fst (bridge_start s meta b))"
proof -
  obtain a b1 where p: "pair_for (key_of meta) b = (a, b1)" by fastforce
  note q = owned_pair_for [OF assms(1) p]
  obtain g where g: "owned_by g b1" "a < length (br_heap b1)" "g a = key_of meta" using q(1) by blast
  have "owned_by g (b1\<lparr>br_keys := m_set (me_id s) (key_of meta) (br_keys b1)\<rparr>)"
    using g(1) assms(2) q(2) by (force simp: owned_by_def pair_ok_def js.get_put)
  then have "owned_by g (fst (bridge_start s meta b))"
    using g(2,3) by (auto simp: bridge_start_def p Let_def pair_ok_def intro!: owned_modify)
  then show ?thesis by blast
qed

lemma owned_browser:
  assumes "owned_by f b" "m_get (br_browsers b) w = None"
  shows "\<exists>g. owned_by g (fst (on_browser w key b))"
proof (cases "key = []")
  case False
  obtain a b1 where p: "pair_for (J_Str key) (b\<lparr>br_open := w # br_open b\<rparr>) = (a, b1)" by fastforce
  have "owned_by f (b\<lparr>br_open := w # br_open b\<rparr>)" using assms(1) by (simp add: owned_open)
  note q = owned_pair_for [OF this p]
  obtain g where g: "owned_by g b1" "a < length (br_heap b1)" "g a = J_Str key" using q(1) by blast
  have "owned_by g (b1\<lparr>br_browsers := m_set w (J_Str key, a) (br_browsers b1)\<rparr>)"
    using g assms(2) q(3) by (force simp: owned_by_def pair_ok_def js.get_put)
  then have "owned_by g (fst (on_browser w key b))"
    using False g(3) by (auto simp: on_browser_def p Let_def pair_ok_def intro!: owned_modify)
  then show ?thesis by blast
qed (use assms in \<open>auto simp: on_browser_def\<close>)

lemma owned_step:
  assumes "owned_by f b" "event_fresh e b"
  shows "\<exists>g. owned_by g (fst (bridge_step p e b))"
proof (cases e)
  case (Br_Connect w key)
  with assms owned_browser show ?thesis by (simp add: bridge_step_def event_fresh_def)
next
  case (Br_Frame w bin raw)
  with assms show ?thesis by (auto simp: bridge_step_def browser_frame_def)
next
  case (Br_Closed w)
  with assms show ?thesis
    by (auto simp: bridge_step_def browser_closed_def Let_def owned_open intro!: exI [of _ f] owned_cleanup owned_leave split: option.split)
next
  case (Br_Failed w)
  with assms show ?thesis by (auto simp: bridge_step_def browser_error_def intro!: exI [of _ f] owned_leave)
next
  case (Br_Call h)
  show ?thesis
  proof (cases h)
    case (On_Start s meta)
    with Br_Call assms owned_start show ?thesis by (simp add: bridge_step_def event_fresh_def bridge_call_def)
  next
    case (On_Stop s)
    with Br_Call assms show ?thesis
      by (auto simp: bridge_step_def bridge_call_def bridge_stop_def pair_ok_def intro!: exI [of _ f] owned_cleanup owned_modify split: option.split)
  qed (use Br_Call assms in \<open>auto simp: bridge_step_def bridge_call_def\<close>)
qed

lemma reach_owned: "bridge_reach p b \<Longrightarrow> \<exists>f. owned_by f b"
  by (induction rule: bridge_reach.induct) (use owned_new owned_step in blast)+

definition session_key :: "bridge \<Rightarrow> media_session \<Rightarrow> json option" where
  "session_key b s = m_get (br_keys b) (me_id s)"

definition browser_key :: "bridge \<Rightarrow> nat \<Rightarrow> json option" where
  "browser_key b w = map_option fst (m_get (br_browsers b) w)"

text \<open>The key of the party that an event comes from, and of the party that an output goes to.\<close>

definition source_key :: "bridge \<Rightarrow> bridge_event \<Rightarrow> json option" where
  "source_key b e = (case e of Br_Connect w key \<Rightarrow> browser_key b w | Br_Frame w bin raw \<Rightarrow> browser_key b w
     | Br_Closed w \<Rightarrow> browser_key b w | Br_Failed w \<Rightarrow> browser_key b w
     | Br_Call (On_Start s meta) \<Rightarrow> session_key b s | Br_Call (On_Audio s f) \<Rightarrow> session_key b s
     | Br_Call (On_Stop s) \<Rightarrow> session_key b s | Br_Call h \<Rightarrow> None)"

definition target_key :: "bridge \<Rightarrow> bridge_output \<Rightarrow> json option" where
  "target_key b x = (case x of To_Browser w m \<Rightarrow> browser_key b w | To_Caller s a \<Rightarrow> session_key b s | Hang_Up s \<Rightarrow> session_key b s)"

lemma sent_iff: "x \<in> set (bridge_send b w m) \<longleftrightarrow> (\<exists>y. w = Some y \<and> y \<in> set (br_open b) \<and> x = To_Browser y m)"
  by (auto simp: bridge_send_def split: option.split)

lemma pair_browser:
  "owned_by f b \<Longrightarrow> m_get (br_pairs b) k = Some a \<Longrightarrow> bp_browser (br_heap b ! a) = Some w \<Longrightarrow> browser_key b w = Some k"
  using ownedD(1) [of f b k a] ownedD(3) [of f b a] by (auto simp: pair_ok_def browser_key_def)

lemma live_key_eq: "live_key b s = Some k \<Longrightarrow> session_key b s = Some k"
  by (simp add: live_key_def session_key_def split: if_splits)

lemma start_outputs:
  assumes "owned_by f b" "x \<in> set (snd (bridge_start s meta b))"
  shows "target_key (fst (bridge_start s meta b)) x = Some (key_of meta) \<and> session_key (fst (bridge_start s meta b)) s = Some (key_of meta)"
proof -
  obtain a b1 where p: "pair_for (key_of meta) b = (a, b1)" by fastforce
  note q = owned_pair_for [OF assms(1) p]
  obtain g where g: "owned_by g b1" "a < length (br_heap b1)" "m_get (br_pairs b1) (key_of meta) = Some a" using q(1) by blast
  from assms(2) g(2) obtain w where w: "x = To_Browser w (Linked (if j_true (j_prop (Some (ss_params meta)) ''from'') then j_prop (Some (ss_params meta)) ''from'' else None) (me_call s))"
      "bp_browser (br_heap b1 ! a) = Some w"
    by (auto simp: bridge_start_def p Let_def modify_pair_def sent_iff split: if_splits)
  with pair_browser [OF g(1,3) w(2)] show ?thesis
    by (simp add: bridge_start_def p Let_def modify_pair_def target_key_def browser_key_def session_key_def)
qed

text \<open>C14: The bridge keeps calls apart. In every reachable state, whatever a caller says, and its start and end, reaches only
  browsers that asked for the key of this caller's stream, and a browser's voice and its hang-up reach only a
  stream with the key that this browser asked for.\<close>

theorem bridge_keeps_calls_apart:
  assumes "bridge_reach p b" "event_fresh e b" "x \<in> set (snd (bridge_step p e b))"
  shows "\<exists>k. source_key (fst (bridge_step p e b)) e = Some k \<and> target_key (fst (bridge_step p e b)) x = Some k"
proof -
  obtain f where f: "owned_by f b" using reach_owned [OF assms(1)] by blast
  show ?thesis
  proof (cases e)
    case (Br_Connect w key)
    with assms(3) show ?thesis
      by (auto simp: bridge_step_def on_browser_def Let_def modify_pair_def sent_iff source_key_def target_key_def browser_key_def
          split: if_splits prod.splits)
  next
    case (Br_Frame w bin raw)
    have out: "x \<in> set (snd (browser_frame p w bin raw b))" using assms(3) Br_Frame by (simp add: bridge_step_def)
    obtain k a where ka: "m_get (br_browsers b) w = Some (k, a)"
      using out by (cases "m_get (br_browsers b) w") (auto simp: browser_frame_def)
    moreover obtain s where sess: "bp_session (br_heap b ! a) = Some s"
      using out ka by (cases "bp_session (br_heap b ! a)") (auto simp: browser_frame_def)
    ultimately have k: "m_get (br_browsers b) w = Some (k, a)" "bp_session (br_heap b ! a) = Some s"
        "x = To_Caller s (pcm16_to_mulaw raw) \<or> x = Hang_Up s"
      using out by (auto simp: browser_frame_def split: if_splits)
    then have "session_key b s = Some k"
      using ownedD(2) [OF f, of w k a] ownedD(3) [OF f, of a] by (simp add: pair_ok_def session_key_def)
    with k Br_Frame show ?thesis
      by (auto simp: bridge_step_def browser_frame_def source_key_def target_key_def browser_key_def)
  next
    case (Br_Call h)
    show ?thesis
    proof (cases h)
      case (On_Start s meta)
      with Br_Call assms(3) start_outputs [OF f] show ?thesis
        by (auto simp: bridge_step_def bridge_call_def source_key_def)
    next
      case (On_Audio s fr)
      have out: "x \<in> set (bridge_audio s fr b)" using assms(3) Br_Call On_Audio by (simp add: bridge_step_def bridge_call_def)
      then obtain k where k: "live_key b s = Some k" by (cases "live_key b s") (auto simp: bridge_audio_def)
      then obtain a where a: "m_get (br_pairs b) k = Some a"
        using out by (cases "m_get (br_pairs b) k") (auto simp: bridge_audio_def)
      then show ?thesis
        using out k live_key_eq [OF k] pair_browser [OF f a] Br_Call On_Audio
        by (auto simp: bridge_audio_def sent_iff bridge_step_def bridge_call_def source_key_def target_key_def)
    next
      case (On_Stop s)
      with Br_Call assms(3) obtain k a w where k: "live_key b s = Some k" "m_get (br_pairs b) k = Some a"
          "bp_browser (br_heap b ! a) = Some w" "x = To_Browser w Caller_Stopped"
        by (auto simp: bridge_step_def bridge_call_def bridge_stop_def sent_iff split: option.splits)
      have "br_keys (fst (bridge_stop s b)) = br_keys b" "br_browsers (fst (bridge_stop s b)) = br_browsers b"
        by (simp_all add: bridge_stop_def cleanup_pair_def modify_pair_def split: option.split)
      with k pair_browser [OF f k(2,3)] live_key_eq [OF k(1)] On_Stop Br_Call show ?thesis
        by (simp add: bridge_step_def bridge_call_def source_key_def target_key_def session_key_def browser_key_def)
    qed (use Br_Call assms(3) in \<open>auto simp: bridge_step_def bridge_call_def\<close>)
  qed (use assms(3) in \<open>auto simp: bridge_step_def\<close>)
qed

section \<open>A bridged call\<close>

lemma plivo_key: "m_get ps ''bridgeId'' = Some t \<Longrightarrow> t \<noteq> [] \<Longrightarrow> key_of (decode_plivo_start p msg ps) = J_Str t"
  by (simp add: key_of_def decode_plivo_start_def params_object_def j_prop_def j_true_def Let_def)

text \<open>A bridged call meets its browser. Where the webhook put a browser's name into the stream, and that browser asks
  for this name, the two are joined in either order of arrival: the browser's voice is sent to
  this caller, encoded, and the caller's voice to this browser, decoded.\<close>

theorem bridged_call_meets_browser:
  assumes "m_get ps ''bridgeId'' = Some t" "t \<noteq> []" "m_get (br_pairs b) (J_Str t) = None"
  shows "let meta = decode_plivo_start p msg ps;
      b1 = fst (on_browser w t (fst (bridge_start s meta b)));
      b2 = fst (bridge_start s meta (fst (on_browser w t b)))
    in (snd (browser_frame p w True raw b1) = [To_Caller s (pcm16_to_mulaw raw)] \<and>
        bridge_audio s f b1 = [To_Browser w (Caller_Audio (mulaw_to_pcm16 (fr_audio f)))]) \<and>
       (snd (browser_frame p w True raw b2) = [To_Caller s (pcm16_to_mulaw raw)] \<and>
        bridge_audio s f b2 = [To_Browser w (Caller_Audio (mulaw_to_pcm16 (fr_audio f)))])"
  using assms(2,3)
  by (simp add: Let_def bridge_start_def on_browser_def pair_for_def plivo_key [OF assms(1,2)] modify_pair_def browser_frame_def
      bridge_audio_def live_key_def j_true_def bridge_send_def no_pair_def)

section \<open>Two calls for one browser\<close>

text \<open>A second call is cut off by the end of the first. The key of a bridged call is the owner's extension, and a stop
  clears the pair whoever its session is: where two callers are bridged to one browser and the first hangs up,
  the browser is told that the call has ended and its voice goes nowhere, while the second caller,
  still connected, is heard by the browser.\<close>

theorem second_call_cut_off:
  assumes "m_get (br_pairs b) k = Some a" "a < length (br_heap b)" "bp_browser (br_heap b ! a) = Some w"
    and "w \<in> set (br_open b)" "m_get (br_browsers b) w = Some (k, a)"
    and "key_of m1 = k" "key_of m2 = k" "j_true (Some k)" "me_id s1 \<noteq> me_id s2"
  shows "let b1 = fst (bridge_start s2 m2 (fst (bridge_start s1 m1 b))); b2 = fst (bridge_stop s1 b1)
    in snd (browser_frame p w True raw b1) = [To_Caller s2 (pcm16_to_mulaw raw)] \<and>
       snd (bridge_stop s1 b1) = [To_Browser w Caller_Stopped] \<and>
       snd (browser_frame p w True raw b2) = [] \<and>
       bridge_audio s2 f b2 = [To_Browser w (Caller_Audio (mulaw_to_pcm16 (fr_audio f)))]"
  using assms
  by (simp add: Let_def bridge_start_def bridge_stop_def pair_for_def modify_pair_def browser_frame_def
      bridge_audio_def live_key_def bridge_send_def cleanup_pair_def js.get_put)

section \<open>Instances\<close>

definition sample_session :: "nat \<Rightarrow> media_session" where
  "sample_session i = \<lparr>me_id = i, me_provider = Src_Plivo, me_stream = J_Str ''s'', me_call = None, me_proto = Src_Plivo\<rparr>"

definition sample_meta :: stream_start where
  "sample_meta = decode_plivo_start toy_platform (J_Obj []) plivo_params"

definition one_browser :: bridge where
  "one_browser = fst (on_browser 5 ''1001'' new_bridge)"

lemma sample_key: "key_of sample_meta = J_Str ''1001''"
  unfolding sample_meta_def by (rule plivo_key) (simp_all add: plivo_params_def)

lemma sample_from: "j_prop (Some (ss_params sample_meta)) ''from'' = Some (J_Str ''+1 555&mode=ai'')"
  by (simp add: sample_meta_def decode_plivo_start_def params_object_def plivo_params_def j_prop_def Let_def)

lemma one_browser_eq: "one_browser = \<lparr>br_pairs = [(J_Str ''1001'', 0)], br_heap = [no_pair\<lparr>bp_browser := Some 5\<rparr>], br_keys = [],
    br_browsers = [(5, (J_Str ''1001'', 0))], br_open = [5]\<rparr>"
  by (simp add: one_browser_def on_browser_def new_bridge_def pair_for_def modify_pair_def Let_def no_pair_def)

lemma one_browser_reach: "bridge_reach p one_browser"
  using Bridge_Step [OF Bridge_New, of "Br_Connect 5 ''1001''"]
  by (simp add: one_browser_def bridge_step_def event_fresh_def new_bridge_def)

theorem bridge_keeps_calls_apart_witness:
  "\<exists>k. target_key (fst (bridge_step toy_platform (Br_Call (On_Start (sample_session 1) sample_meta)) one_browser))
    (To_Browser 5 (Linked (Some (J_Str ''+1 555&mode=ai'')) None)) = Some k"
proof -
  let ?e = "Br_Call (On_Start (sample_session 1) sample_meta)"
  have "To_Browser 5 (Linked (Some (J_Str ''+1 555&mode=ai'')) None) \<in> set (snd (bridge_step toy_platform ?e one_browser))"
    by (simp add: bridge_step_def bridge_call_def bridge_start_def pair_for_def sample_key one_browser_eq modify_pair_def bridge_send_def
        Let_def sample_session_def sample_from j_true_def)
  from bridge_keeps_calls_apart [OF one_browser_reach _ this] show ?thesis
    by (auto simp: event_fresh_def one_browser_eq)
qed

theorem bridged_call_meets_browser_witness:
  "bridge_audio (sample_session 1) \<lparr>fr_track = None, fr_audio = [255], fr_timestamp = None, fr_sequence = None\<rparr>
     (fst (on_browser 5 ''1001'' (fst (bridge_start (sample_session 1) sample_meta new_bridge)))) =
   [To_Browser 5 (Caller_Audio (mulaw_to_pcm16 [255]))]"
  using bridged_call_meets_browser [where ps = plivo_params and t = "''1001''" and b = new_bridge and p = toy_platform and
      msg = "J_Obj []" and s = "sample_session 1" and w = 5 and raw = "[]" and
      f = "\<lparr>fr_track = None, fr_audio = [255], fr_timestamp = None, fr_sequence = None\<rparr>"]
  by (simp add: plivo_params_def new_bridge_def sample_meta_def Let_def)

theorem second_call_cut_off_witness:
  "snd (browser_frame toy_platform 5 True [1, 2] (fst (bridge_stop (sample_session 1)
     (fst (bridge_start (sample_session 2) sample_meta (fst (bridge_start (sample_session 1) sample_meta one_browser))))))) = []"
  using second_call_cut_off [where b = one_browser and k = "J_Str ''1001''" and a = 0 and w = 5 and ?m1.0 = sample_meta and
      ?m2.0 = sample_meta and ?s1.0 = "sample_session 1" and ?s2.0 = "sample_session 2" and p = toy_platform and raw = "[1, 2]"]
  by (simp add: one_browser_eq sample_key no_pair_def j_true_def sample_session_def Let_def)

end
