(* ===== verification/Voice_Agent.thy ===== *)
theory Voice_Agent
  imports Browser_Bridge
begin

text \<open>
  The AI side of the media streams: the agent that answers a call
  (\<^verbatim>\<open>src/src/trunk/streaming/ai/ai.handlers.ts\<close>, \<^verbatim>\<open>agent.brain.ts\<close>, \<^verbatim>\<open>registry.ts\<close>), its transcribers and
  responders, and the choice of the handlers that serve a call (\<^verbatim>\<open>runtime.ts\<close>). Every \<^verbatim>\<open>await\<close> ends a step.
\<close>

section \<open>Brains\<close>

datatype stt_kind = Stt_Speechmatics "string option" | Stt_Deepgram string

datatype llm_kind = Llm_Openai | Llm_Gemini

datatype responder = Echo_Responder | Llm_Responder llm_kind string string js_num

datatype synthesizer = Silent_Synthesizer | Tts_Sarvam string string | Tts_Speechmatics string string | Tts_Deepgram string

record ai_brain =
  ab_stt :: stt_kind
  ab_responder :: responder
  ab_synthesizer :: synthesizer
  ab_greeting :: "string option"

definition create_transcriber :: "string \<Rightarrow> string \<Rightarrow> stt_kind" where
  "create_transcriber v language = (if v = ''deepgram'' then Stt_Deepgram language else Stt_Speechmatics (Some language))"

definition create_responder :: "string \<Rightarrow> string \<Rightarrow> string \<Rightarrow> js_num \<Rightarrow> responder" where
  "create_responder v model prompt temperature =
     Llm_Responder (if v = ''gemini'' then Llm_Gemini else Llm_Openai) model prompt temperature"

definition create_synthesizer :: "string \<Rightarrow> string \<Rightarrow> string \<Rightarrow> synthesizer" where
  "create_synthesizer v voice language = (if v = ''sarvam'' then Tts_Sarvam voice language
     else if v = ''speechmatics'' then Tts_Speechmatics voice language else Tts_Deepgram voice)"

definition build_brain_from_agent :: "ai_agent_record \<Rightarrow> ai_brain" where
  "build_brain_from_agent a =
     \<lparr>ab_stt = create_transcriber (ai_stt a) (ai_language a),
      ab_responder = create_responder (ai_llm a) (ai_llm_model a) (ai_prompt a) (ai_temperature a),
      ab_synthesizer = create_synthesizer (ai_tts a) (ai_voice a) (ai_language a),
      ab_greeting = non_empty (Some (ai_greeting a))\<rparr>"

definition default_brain :: ai_brain where
  "default_brain = \<lparr>ab_stt = Stt_Speechmatics None, ab_responder = Echo_Responder, ab_synthesizer = Silent_Synthesizer,
     ab_greeting = Some ''Hello, thanks for calling. How can I help you today?''\<rparr>"

text \<open>The agent of a stream's \<^verbatim>\<open>agentId\<close>, through the process's resolver and its cache.\<close>

definition resolve_agent_config :: "ai_agent_record option option \<Rightarrow> string \<Rightarrow> database \<Rightarrow> ai_agent_record option \<times> database" where
  "resolve_agent_config loaded agent db =
     (case js_number agent of
        Num q \<Rightarrow> if q \<le> 0 then (None, db)
          else (case num_int (Num q) of Some i \<Rightarrow> get_ai_agent loaded i db | None \<Rightarrow> (None, db))
      | _ \<Rightarrow> (None, db))"

definition brain_for :: "platform \<Rightarrow> ai_agent_record option option \<Rightarrow> stream_start \<Rightarrow> database \<Rightarrow> ai_brain \<times> database" where
  "brain_for p loaded meta db =
     (let agent = j_prop (Some (ss_params meta)) ''agentId''
      in if \<not> j_true agent then (default_brain, db)
         else (case resolve_agent_config loaded (j_string p (the agent)) db of
           (Some a, db1) \<Rightarrow> (build_brain_from_agent a, db1) | (None, db1) \<Rightarrow> (default_brain, db1)))"

section \<open>Transcribers\<close>

text \<open>A connection to a vendor: whether the start was called, whether it is open, what waits and what was sent.\<close>

record transcriber =
  tr_kind :: stt_kind
  tr_begun :: bool
  tr_live :: bool
  tr_stopped :: bool
  tr_pending :: "bytes list"
  tr_sent :: "bytes list"

definition new_transcriber :: "stt_kind \<Rightarrow> transcriber" where
  "new_transcriber k = \<lparr>tr_kind = k, tr_begun = False, tr_live = False, tr_stopped = False, tr_pending = [], tr_sent = []\<rparr>"

text \<open>The vendor has accepted: a Deepgram socket that was closed while it connected never opens.\<close>

definition transcriber_opened :: "transcriber \<Rightarrow> transcriber" where
  "transcriber_opened t = (case tr_kind t of
     Stt_Speechmatics l \<Rightarrow> t\<lparr>tr_live := True\<rparr>
   | Stt_Deepgram l \<Rightarrow> if tr_begun t then t\<lparr>tr_live := True, tr_sent := tr_sent t @ tr_pending t, tr_pending := []\<rparr> else t)"

definition push_audio :: "bytes \<Rightarrow> transcriber \<Rightarrow> transcriber" where
  "push_audio b t = (case tr_kind t of
     Stt_Speechmatics l \<Rightarrow> if tr_live t then t\<lparr>tr_sent := tr_sent t @ [b]\<rparr> else t
   | Stt_Deepgram l \<Rightarrow> if tr_live t \<and> tr_begun t then t\<lparr>tr_sent := tr_sent t @ [b]\<rparr> else t\<lparr>tr_pending := tr_pending t @ [b]\<rparr>)"

definition transcriber_stop :: "transcriber \<Rightarrow> transcriber" where
  "transcriber_stop t = (case tr_kind t of
     Stt_Speechmatics l \<Rightarrow> if tr_begun t \<and> tr_live t then t\<lparr>tr_live := False, tr_begun := False, tr_stopped := True\<rparr> else t
   | Stt_Deepgram l \<Rightarrow> if tr_begun t then t\<lparr>tr_live := False, tr_begun := False, tr_stopped := True\<rparr> else t)"

section \<open>Conversations\<close>

datatype turn = System_Turn string | User_Turn string | Agent_Turn string

record llm_request =
  lr_kind :: llm_kind
  lr_model :: string
  lr_temperature :: js_num
  lr_system :: "string option"
  lr_turns :: "turn list"

text \<open>OpenAI's history opens with the prompt; Gemini's prompt rides apart.\<close>

definition first_turns :: "responder \<Rightarrow> turn list" where
  "first_turns r = (case r of Llm_Responder Llm_Openai m p t \<Rightarrow> if p \<noteq> [] then [System_Turn p] else [] | _ \<Rightarrow> [])"

definition llm_ask :: "llm_kind \<Rightarrow> string \<Rightarrow> string \<Rightarrow> js_num \<Rightarrow> turn list \<Rightarrow> llm_request" where
  "llm_ask k model prompt t turns = \<lparr>lr_kind = k, lr_model = model, lr_temperature = t,
     lr_system = (case k of Llm_Openai \<Rightarrow> None | Llm_Gemini \<Rightarrow> non_empty (Some prompt)), lr_turns = turns\<rparr>"

section \<open>Calls\<close>

record agent_call =
  ag_session :: media_session
  ag_brain :: ai_brain
  ag_transcriber :: transcriber
  ag_closed :: bool
  ag_turns :: "turn list"

text \<open>The map of calls, the call objects that callbacks share, and the starts that wait for their brain.\<close>

record voice_agent =
  va_calls :: "(nat, nat) js_map"
  va_heap :: "agent_call list"
  va_waiting :: "media_session list"

definition new_voice_agent :: voice_agent where
  "new_voice_agent = \<lparr>va_calls = [], va_heap = [], va_waiting = []\<rparr>"

datatype agent_output = Ask_Llm nat llm_request | Say nat string | Agent_Audio media_session bytes

definition modify_call :: "nat \<Rightarrow> (agent_call \<Rightarrow> agent_call) \<Rightarrow> voice_agent \<Rightarrow> voice_agent" where
  "modify_call a f v = v\<lparr>va_heap := (va_heap v)[a := f (va_heap v ! a)]\<rparr>"

definition with_transcriber :: "(transcriber \<Rightarrow> transcriber) \<Rightarrow> agent_call \<Rightarrow> agent_call" where
  "with_transcriber f c = c\<lparr>ag_transcriber := f (ag_transcriber c)\<rparr>"

definition agent_handler :: "handler_call \<Rightarrow> voice_agent \<Rightarrow> voice_agent" where
  "agent_handler h v = (case h of
     On_Start s meta \<Rightarrow> v\<lparr>va_waiting := va_waiting v @ [s]\<rparr>
   | On_Audio s f \<Rightarrow> (case m_get (va_calls v) (me_id s) of None \<Rightarrow> v
       | Some a \<Rightarrow> modify_call a (with_transcriber (push_audio (fr_audio f))) v)
   | On_Stop s \<Rightarrow> (case m_get (va_calls v) (me_id s) of None \<Rightarrow> v
       | Some a \<Rightarrow> modify_call a (\<lambda>c. with_transcriber transcriber_stop (c\<lparr>ag_closed := True\<rparr>)) (v\<lparr>va_calls := m_del (me_id s) (va_calls v)\<rparr>))
   | _ \<Rightarrow> v)"

text \<open>The brain of a waiting start has been resolved, or has failed to be; the transcriber is created and its start called.\<close>

definition brain_resolved :: "bool \<Rightarrow> media_session \<Rightarrow> ai_brain option \<Rightarrow> voice_agent \<Rightarrow> voice_agent" where
  "brain_resolved key s ans v =
     (if s \<notin> set (va_waiting v) then v
      else let v1 = v\<lparr>va_waiting := remove1 s (va_waiting v)\<rparr> in
        case ans of None \<Rightarrow> v1
        | Some b \<Rightarrow> v1\<lparr>va_calls := m_set (me_id s) (length (va_heap v)) (va_calls v),
            va_heap := va_heap v @ [\<lparr>ag_session = s, ag_brain = b,
              ag_transcriber = (new_transcriber (ab_stt b))\<lparr>tr_begun := key\<rparr>, ag_closed = False, ag_turns = first_turns (ab_responder b)\<rparr>]\<rparr>)"

definition speak :: "nat \<Rightarrow> ai_brain \<Rightarrow> string \<Rightarrow> agent_output list" where
  "speak a b text = (if ab_synthesizer b = Silent_Synthesizer then [] else [Say a text])"

text \<open>The transcriber's start has succeeded: the greeting, if any, is spoken.\<close>

definition asr_opened :: "nat \<Rightarrow> voice_agent \<Rightarrow> voice_agent \<times> agent_output list" where
  "asr_opened a v =
     (modify_call a (with_transcriber transcriber_opened) v,
      case ab_greeting (ag_brain (va_heap v ! a)) of Some g \<Rightarrow> if g \<noteq> [] then speak a (ag_brain (va_heap v ! a)) g else [] | None \<Rightarrow> [])"

text \<open>A final utterance; \<open>key\<close> tells whether the vendor's key is configured.\<close>

definition heard :: "bool \<Rightarrow> nat \<Rightarrow> string \<Rightarrow> voice_agent \<Rightarrow> voice_agent \<times> agent_output list" where
  "heard key a text v =
     (let c = va_heap v ! a
      in if ag_closed c then (v, [])
         else (case ab_responder (ag_brain c) of
             Echo_Responder \<Rightarrow> (v, speak a (ag_brain c) (''You said: '' @ text))
           | Llm_Responder k model prompt t \<Rightarrow>
               if \<not> key then (v, [])
               else (modify_call a (\<lambda>c. c\<lparr>ag_turns := ag_turns c @ [User_Turn text]\<rparr>) v,
                 [Ask_Llm a (llm_ask k model prompt t (ag_turns c @ [User_Turn text]))])))"

text \<open>The model's answer, or its failure.\<close>

definition replied :: "nat \<Rightarrow> string option \<Rightarrow> voice_agent \<Rightarrow> voice_agent \<times> agent_output list" where
  "replied a ans v =
     (case ans of None \<Rightarrow> (v, [])
      | Some raw \<Rightarrow> (let r = trim raw in
          if r = [] then (v, [])
          else (modify_call a (\<lambda>c. c\<lparr>ag_turns := ag_turns c @ [Agent_Turn r]\<rparr>) v, speak a (ag_brain (va_heap v ! a)) r)))"

definition spoken :: "nat \<Rightarrow> bytes option \<Rightarrow> voice_agent \<Rightarrow> agent_output list" where
  "spoken a ans v = (case ans of None \<Rightarrow> [] | Some b \<Rightarrow> if b \<noteq> [] then [Agent_Audio (ag_session (va_heap v ! a)) b] else [])"

datatype agent_event =
    Va_Handler handler_call
  | Va_Brain bool media_session "ai_brain option"
  | Va_Opened nat
  | Va_Heard bool nat string
  | Va_Replied nat "string option"
  | Va_Spoken nat "bytes option"

definition agent_step :: "agent_event \<Rightarrow> voice_agent \<Rightarrow> voice_agent \<times> agent_output list" where
  "agent_step e v = (case e of Va_Handler h \<Rightarrow> (agent_handler h v, []) | Va_Brain key s b \<Rightarrow> (brain_resolved key s b v, [])
     | Va_Opened a \<Rightarrow> asr_opened a v | Va_Heard key a t \<Rightarrow> heard key a t v | Va_Replied a r \<Rightarrow> replied a r v
     | Va_Spoken a b \<Rightarrow> (v, spoken a b v))"

definition agent_run :: "agent_event list \<Rightarrow> voice_agent \<Rightarrow> voice_agent" where
  "agent_run es v = fold (\<lambda>e v. fst (agent_step e v)) es v"

section \<open>Choosing the handlers\<close>

datatype route = R_Bridge | R_Ai | R_Log | R_Nothing

text \<open>Names that every JavaScript object answers to: what they name is no set of handlers.\<close>

definition object_members :: "string list" where
  "object_members = [''constructor'', ''toString'', ''toLocaleString'', ''valueOf'', ''hasOwnProperty'', ''isPrototypeOf'',
     ''propertyIsEnumerable'', ''__proto__'', ''__defineGetter__'', ''__defineSetter__'', ''__lookupGetter__'', ''__lookupSetter__'']"

definition pick_route :: "platform \<Rightarrow> json option \<Rightarrow> route" where
  "pick_route p mode =
     (let m = (case j_or mode None of None \<Rightarrow> [] | Some v \<Rightarrow> j_string p v)
      in if m = ''bridge'' then R_Bridge else if m = ''ai'' then R_Ai else if m = ''log'' then R_Log
         else if m \<in> set object_members then R_Nothing else R_Bridge)"

definition routed :: "platform \<Rightarrow> handler_call \<Rightarrow> (nat, route) js_map \<Rightarrow> (route \<times> handler_call) list \<times> (nat, route) js_map" where
  "routed p h owner =
     (let same = (\<lambda>s. case m_get owner (me_id s) of Some r \<Rightarrow> [(r, h)] | None \<Rightarrow> [])
      in case h of
           On_Start s meta \<Rightarrow> (let r = pick_route p (j_prop (Some (ss_params meta)) ''mode'') in ([(r, h)], m_set (me_id s) r owner))
         | On_Audio s f \<Rightarrow> (same s, owner) | On_Dtmf s d \<Rightarrow> (same s, owner) | On_Mark s n \<Rightarrow> (same s, owner)
         | On_Stop s \<Rightarrow> (same s, m_del (me_id s) owner)
         | On_Error (Some s) \<Rightarrow> (if m_has owner (me_id s) then same s else [(R_Bridge, h), (R_Ai, h), (R_Log, h)], owner)
         | On_Error None \<Rightarrow> ([(R_Bridge, h), (R_Ai, h), (R_Log, h)], owner)
         | Echo s b \<Rightarrow> ([], owner))"

datatype stream_mode = Auto_Mode | Bridge_Mode | Ai_Mode | Log_Mode

definition stream_mode_of :: "environment \<Rightarrow> stream_mode" where
  "stream_mode_of e = (let m = to_lower (env_or e ''MEDIA_STREAM_MODE'' ''auto'')
     in if m = ''auto'' then Auto_Mode else if m = ''bridge'' then Bridge_Mode else if m = ''ai'' then Ai_Mode else Log_Mode)"

definition dispatch_stream :: "platform \<Rightarrow> stream_mode \<Rightarrow> handler_call \<Rightarrow> (nat, route) js_map \<Rightarrow>
    (route \<times> handler_call) list \<times> (nat, route) js_map" where
  "dispatch_stream p m h owner = (case m of Auto_Mode \<Rightarrow> routed p h owner | Bridge_Mode \<Rightarrow> ([(R_Bridge, h)], owner)
     | Ai_Mode \<Rightarrow> ([(R_Ai, h)], owner) | Log_Mode \<Rightarrow> ([(R_Log, h)], owner))"

text \<open>The log handlers count frames.\<close>

definition log_handler :: "handler_call \<Rightarrow> (nat, nat) js_map \<Rightarrow> (nat, nat) js_map" where
  "log_handler h frames = (case h of On_Start s meta \<Rightarrow> m_set (me_id s) 0 frames
     | On_Audio s f \<Rightarrow> m_set (me_id s) (or_else (m_get frames (me_id s)) 0 + 1) frames
     | On_Stop s \<Rightarrow> m_del (me_id s) frames | _ \<Rightarrow> frames)"

section \<open>An agent that outlives its call\<close>

text \<open>The events of other sessions, and everything but another start or stop of this one.\<close>

definition spares_session :: "nat \<Rightarrow> agent_event \<Rightarrow> bool" where
  "spares_session i e = (case e of Va_Handler (On_Stop s) \<Rightarrow> me_id s \<noteq> i | Va_Brain key s b \<Rightarrow> me_id s \<noteq> i | _ \<Rightarrow> True)"

definition never_stopped :: "nat \<Rightarrow> nat \<Rightarrow> voice_agent \<Rightarrow> bool" where
  "never_stopped i a v \<longleftrightarrow> a < length (va_heap v) \<and> (\<forall>j. m_get (va_calls v) j = Some a \<longleftrightarrow> j = i) \<and>
     \<not> ag_closed (va_heap v ! a) \<and> \<not> tr_stopped (ag_transcriber (va_heap v ! a))"

lemma never_stopped_modify:
  assumes "never_stopped i a v" "b = a \<Longrightarrow> \<not> ag_closed (f (va_heap v ! a)) \<and> \<not> tr_stopped (ag_transcriber (f (va_heap v ! a)))"
  shows "never_stopped i a (modify_call b f v)"
  using assms by (cases "b = a") (auto simp: never_stopped_def modify_call_def)

lemma not_stopped_by:
  "\<not> tr_stopped t \<Longrightarrow> \<not> tr_stopped (push_audio b t)"
  "\<not> tr_stopped t \<Longrightarrow> \<not> tr_stopped (transcriber_opened t)"
  by (simp_all add: push_audio_def transcriber_opened_def split: stt_kind.split)

lemma never_stopped_keep: "never_stopped i a v \<Longrightarrow> \<not> ag_closed (va_heap v ! a) \<and> \<not> tr_stopped (ag_transcriber (va_heap v ! a))"
  by (simp add: never_stopped_def)

lemma never_stopped_step:
  assumes "never_stopped i a v" "spares_session i e"
  shows "never_stopped i a (fst (agent_step e v))"
proof (cases e)
  case (Va_Handler h)
  show ?thesis
  proof (cases h)
    case (On_Start s meta)
    with Va_Handler assms(1) show ?thesis by (simp add: agent_step_def agent_handler_def never_stopped_def)
  next
    case (On_Audio s f)
    with Va_Handler assms(1) show ?thesis
      by (auto simp: agent_step_def agent_handler_def with_transcriber_def never_stopped_keep not_stopped_by
          intro!: never_stopped_modify split: option.split)
  next
    case (On_Stop s)
    have i: "me_id s \<noteq> i" using assms(2) Va_Handler On_Stop by (simp add: spares_session_def)
    show ?thesis
    proof (cases "m_get (va_calls v) (me_id s)")
      case (Some b)
      have "b \<noteq> a" using assms(1) i Some by (auto simp: never_stopped_def)
      moreover have "never_stopped i a (v\<lparr>va_calls := m_del (me_id s) (va_calls v)\<rparr>)"
        using assms(1) i by (auto simp: never_stopped_def js.get_del)
      ultimately show ?thesis
        using Va_Handler On_Stop Some by (auto simp: agent_step_def agent_handler_def intro!: never_stopped_modify)
    qed (use assms(1) Va_Handler On_Stop in \<open>simp add: agent_step_def agent_handler_def\<close>)
  qed (use Va_Handler assms(1) in \<open>simp_all add: agent_step_def agent_handler_def\<close>)
next
  case (Va_Brain key s b)
  with assms show ?thesis
    by (auto simp: agent_step_def brain_resolved_def Let_def spares_session_def never_stopped_def js.get_put nth_append split: option.split)
next
  case (Va_Opened x)
  with assms(1) show ?thesis
    by (auto simp: agent_step_def asr_opened_def with_transcriber_def never_stopped_keep not_stopped_by intro!: never_stopped_modify)
next
  case (Va_Heard key x t)
  with assms(1) show ?thesis
    by (auto simp: agent_step_def heard_def Let_def never_stopped_keep intro!: never_stopped_modify split: responder.split)
next
  case (Va_Replied x r)
  with assms(1) show ?thesis
    by (auto simp: agent_step_def replied_def Let_def never_stopped_keep intro!: never_stopped_modify split: option.split)
next
  case (Va_Spoken x b)
  with assms(1) show ?thesis by (simp add: agent_step_def)
qed

lemma never_stopped_run: "never_stopped i a v \<Longrightarrow> list_all (spares_session i) es \<Longrightarrow> never_stopped i a (agent_run es v)"
  by (induction es arbitrary: v) (simp_all add: agent_run_def never_stopped_step)

text \<open>An agent that is resolved too late never stops. Where a caller hangs up while the agent is being looked up, the
  stop finds no call; the agent is then started all the same, and since a stream is stopped only once, it stays:
  its transcriber is never told to stop, the call is never removed, and what it hears is still put to the model.\<close>

theorem late_brain_never_stopped:
  assumes "s \<in> set (va_waiting v)" "m_get (va_calls v) (me_id s) = None" "\<forall>j. m_get (va_calls v) j \<noteq> Some (length (va_heap v))"
    and "list_all (spares_session (me_id s)) es" "ab_responder b = Llm_Responder k model prompt t"
  shows "let a = length (va_heap v);
      w = agent_run es (brain_resolved True s (Some b) (agent_handler (On_Stop s) v))
    in m_get (va_calls w) (me_id s) = Some a \<and> \<not> tr_stopped (ag_transcriber (va_heap w ! a)) \<and> \<not> ag_closed (va_heap w ! a)"
proof -
  have "agent_handler (On_Stop s) v = v" using assms(2) by (simp add: agent_handler_def)
  moreover have "never_stopped (me_id s) (length (va_heap v)) (brain_resolved True s (Some b) v)"
    using assms(1,3) by (auto simp: brain_resolved_def Let_def never_stopped_def js.get_put nth_append new_transcriber_def)
  ultimately show ?thesis
    using never_stopped_run [OF _ assms(4)] by (auto simp: Let_def never_stopped_def)
qed

section \<open>Calls stay with their handlers\<close>

fun route_run :: "platform \<Rightarrow> handler_call list \<Rightarrow> (nat, route) js_map \<Rightarrow> (route \<times> handler_call) list" where
  "route_run p [] owner = []"
| "route_run p (h # hs) owner = (case routed p h owner of (ds, o') \<Rightarrow> ds @ route_run p hs o')"

text \<open>The session that a call is about, errors apart.\<close>

definition call_about :: "handler_call \<Rightarrow> media_session option" where
  "call_about h = (case h of On_Start s m \<Rightarrow> Some s | On_Audio s f \<Rightarrow> Some s | On_Dtmf s d \<Rightarrow> Some s | On_Mark s n \<Rightarrow> Some s
     | On_Stop s \<Rightarrow> Some s | _ \<Rightarrow> None)"

definition route_of_start :: "platform \<Rightarrow> stream_start \<Rightarrow> route" where
  "route_of_start p meta = pick_route p (j_prop (Some (ss_params meta)) ''mode'')"

definition started_as :: "platform \<Rightarrow> handler_call list \<Rightarrow> nat \<Rightarrow> route \<Rightarrow> bool" where
  "started_as p hs i r \<longleftrightarrow> (\<exists>s meta. On_Start s meta \<in> set hs \<and> me_id s = i \<and> r = route_of_start p meta)"

lemma routed_owner:
  assumes "\<forall>i r. m_get owner i = Some r \<longrightarrow> started_as p hs i r"
  shows "(\<forall>i r. m_get (snd (routed p h owner)) i = Some r \<longrightarrow> started_as p (hs @ [h]) i r) \<and>
    (\<forall>(r, g)\<in>set (fst (routed p h owner)). g = h \<and> (\<forall>s. call_about h = Some s \<longrightarrow> started_as p (hs @ [h]) (me_id s) r))"
  using assms
  by (cases h) (fastforce simp: routed_def Let_def started_as_def route_of_start_def call_about_def js.get_put js.get_del
      split: if_splits option.splits)+

lemma route_run_started:
  assumes "\<forall>i r. m_get owner i = Some r \<longrightarrow> started_as p seen i r" "(r, h) \<in> set (route_run p hs owner)" "call_about h = Some s"
  shows "started_as p (seen @ hs) (me_id s) r"
  using assms(1,2)
proof (induction hs arbitrary: owner seen)
  case (Cons x hs)
  obtain ds o' where d: "routed p x owner = (ds, o')" by fastforce
  note step = routed_owner [OF Cons.prems(1), of x, unfolded d fst_conv snd_conv]
  show ?case
  proof (cases "(r, h) \<in> set ds")
    case True
    with step assms(3) have "started_as p (seen @ [x]) (me_id s) r" by auto
    then show ?thesis by (auto simp: started_as_def)
  next
    case False
    with Cons.prems(2) d have "(r, h) \<in> set (route_run p hs o')" by simp
    with Cons.IH [of o' "seen @ [x]"] step show ?thesis by simp
  qed
qed simp

text \<open>A call stays with the handlers of its mode. Whatever calls of whatever sessions are mixed, a call about a session
  is handed only to the handlers that the mode in this session's start picked: a caller bridged to a browser is not
  heard by an agent, and an agent's caller not by a browser.\<close>

theorem calls_stay_with_handlers:
  assumes "(r, h) \<in> set (route_run p hs [])" "call_about h = Some s"
  shows "\<exists>s' meta. On_Start s' meta \<in> set hs \<and> me_id s' = me_id s \<and> r = route_of_start p meta"
  using route_run_started [of "[]" p "[]" r h hs s] assms by (simp add: started_as_def)

section \<open>Instances\<close>

definition sample_brain :: ai_brain where
  "sample_brain = \<lparr>ab_stt = Stt_Deepgram ''en'', ab_responder = Llm_Responder Llm_Openai ''gpt-4o-mini'' ''Be kind.'' (Num (7 / 10)),
     ab_synthesizer = Tts_Deepgram [], ab_greeting = None\<rparr>"

definition waiting_agent :: voice_agent where
  "waiting_agent = agent_handler (On_Start (sample_session 1) sample_meta) new_voice_agent"

theorem late_brain_never_stopped_witness:
  "snd (heard True 0 ''hello'' (agent_run [Va_Opened 0] (brain_resolved True (sample_session 1) (Some sample_brain)
     (agent_handler (On_Stop (sample_session 1)) waiting_agent)))) \<noteq> []"
proof -
  let ?w = "agent_run [Va_Opened 0] (brain_resolved True (sample_session 1) (Some sample_brain)
     (agent_handler (On_Stop (sample_session 1)) waiting_agent))"
  have "\<not> ag_closed (va_heap ?w ! 0)"
    using late_brain_never_stopped [where v = waiting_agent and s = "sample_session 1" and b = sample_brain and es = "[Va_Opened 0]" and
        k = Llm_Openai and model = "''gpt-4o-mini''" and prompt = "''Be kind.''" and t = "Num (7 / 10)"]
    by (simp add: waiting_agent_def agent_handler_def new_voice_agent_def spares_session_def sample_brain_def Let_def)
  then show ?thesis
    by (simp add: heard_def Let_def agent_run_def agent_step_def asr_opened_def brain_resolved_def waiting_agent_def agent_handler_def
        new_voice_agent_def modify_call_def with_transcriber_def sample_brain_def)
qed

theorem calls_stay_with_handlers_witness:
  "\<exists>s' meta. On_Start s' meta \<in> set [On_Start (sample_session 1) sample_meta, On_Stop (sample_session 1)] \<and>
     me_id s' = 1 \<and> R_Bridge = route_of_start toy_platform meta"
proof -
  have "j_prop (Some (ss_params sample_meta)) ''mode'' = Some (J_Str ''bridge'')"
    by (simp add: sample_meta_def decode_plivo_start_def params_object_def plivo_params_def j_prop_def Let_def)
  then have "(R_Bridge, On_Stop (sample_session 1)) \<in> set (route_run toy_platform [On_Start (sample_session 1) sample_meta, On_Stop (sample_session 1)] [])"
    by (simp add: routed_def Let_def pick_route_def j_or_def j_string_def)
  from calls_stay_with_handlers [OF this] show ?thesis
    by (auto simp: call_about_def sample_session_def)
qed

end
