(* ===== verification/Carriers.thy ===== *)
theory Carriers
  imports Trunk Answer_Xml Media_Protocol
begin

text \<open>
  The REST clients of the four carriers (\<^verbatim>\<open>src/src/trunk/twilio/twilio.client.ts\<close>, \<^verbatim>\<open>plivo/plivo.client.ts\<close>,
  \<^verbatim>\<open>telnyx/telnyx.client.ts\<close>, \<^verbatim>\<open>vonage/vonage.client.ts\<close>), their providers with the configuration
  (\<^verbatim>\<open>src/src/trunk/config.ts\<close>, the \<^verbatim>\<open>*.service.ts\<close>) and the base class. An operation is a function of the
  reply that its request would get; its result is the requests that went out and what it returned or raised. JSON bodies
  stay values; the signature of a token is a parameter.
\<close>

section \<open>Requests and replies\<close>

datatype rest_body = Form_Body string | Json_Body json

record rest_request =
  rq_method :: string
  rq_url :: string
  rq_auth :: "string option"
  rq_body :: rest_body

text \<open>\<open>rp_json\<close> is None where the reply's body is no JSON.\<close>

record rest_reply =
  rp_ok :: bool
  rp_status :: nat
  rp_text :: string
  rp_json :: "json option"

datatype carrier_error = Requires string | Api_Error string "nat option" json | Unreadable

record carrier_result =
  cr_id :: "json option"
  cr_status :: "json option"
  cr_raw :: json

type_synonym outcome = "rest_request list \<times> (carrier_error + carrier_result)"

record call_options =
  oc_to :: string
  oc_from :: "string option"
  oc_answer :: "string option"
  oc_instructions :: "json option"

record sms_options =
  sm_to :: string
  sm_from :: "string option"
  sm_text :: string

definition raised :: "carrier_error \<Rightarrow> outcome" where
  "raised e = ([], Inl e)"

text \<open>\<^verbatim>\<open>res.json().catch(() => ({}))\<close>, \<^verbatim>\<open>a?.[0]\<close> and a chain of \<^verbatim>\<open>??\<close>.\<close>

definition reply_json :: "rest_reply \<Rightarrow> json" where
  "reply_json r = (case rp_json r of None \<Rightarrow> J_Obj [] | Some j \<Rightarrow> j)"

definition j_first :: "json option \<Rightarrow> json option" where
  "j_first v = (case v of Some (J_Arr (x # xs)) \<Rightarrow> Some x | Some (J_Str (c # cs)) \<Rightarrow> Some (J_Str [c]) | _ \<Rightarrow> None)"

definition bytes_of :: "string \<Rightarrow> bytes" where
  "bytes_of s = map (\<lambda>c. of_nat (of_char c)) s"

definition basic_auth :: "string \<Rightarrow> string \<Rightarrow> string" where
  "basic_auth user pass = ''Basic '' @ b64_encode (bytes_of (user @ '':'' @ pass))"

text \<open>What a reply makes of an operation: the properties of \<^verbatim>\<open>null\<close> cannot be read.\<close>

definition with_data :: "json \<Rightarrow> (json \<Rightarrow> json option \<times> json option) \<Rightarrow> carrier_error + carrier_result" where
  "with_data data f = (if data = J_Null then Inl Unreadable else Inr \<lparr>cr_id = fst (f data), cr_status = snd (f data), cr_raw = data\<rparr>)"

section \<open>Twilio\<close>

record twilio_config =
  tw_sid :: string
  tw_token :: string

definition twilio_base :: string where
  "twilio_base = ''https://api.twilio.com/2010-04-01''"

definition twilio_auth :: "twilio_config \<Rightarrow> string" where
  "twilio_auth c = basic_auth (tw_sid c) (tw_token c)"

definition twilio_post :: "twilio_config \<Rightarrow> string \<Rightarrow> (string \<times> string) list \<Rightarrow> rest_reply \<Rightarrow> outcome" where
  "twilio_post c path form r =
     ([\<lparr>rq_method = ''POST'', rq_url = twilio_base @ path, rq_auth = Some (twilio_auth c), rq_body = Form_Body (query_string form)\<rparr>],
      if rp_ok r then with_data (reply_json r) (\<lambda>d. (j_prop (Some d) ''sid'', j_prop (Some d) ''status''))
      else Inl (Api_Error ''Twilio API'' (Some (rp_status r))
        (the (j_or (j_prop (Some (reply_json r)) ''message'') (Some (J_Str (rp_text r)))))))"

definition twilio_originate :: "twilio_config \<Rightarrow> call_options \<Rightarrow> rest_reply \<Rightarrow> outcome" where
  "twilio_originate c v r =
     (if \<not> truthy (oc_from v) then raised (Requires ''from'')
      else let path = ''/Accounts/'' @ tw_sid c @ ''/Calls.json''; form = [(''To'', oc_to v), (''From'', the (oc_from v))] in
        if truthy (oc_answer v) then twilio_post c path (form @ [(''Url'', the (oc_answer v))]) r
        else case oc_instructions v of Some (J_Str xml) \<Rightarrow> twilio_post c path (form @ [(''Twiml'', xml)]) r
          | _ \<Rightarrow> raised (Requires ''answerUrl or instructions''))"

definition twilio_sms :: "twilio_config \<Rightarrow> sms_options \<Rightarrow> rest_reply \<Rightarrow> outcome" where
  "twilio_sms c v r =
     (if \<not> truthy (sm_from v) then raised (Requires ''from'')
      else twilio_post c (''/Accounts/'' @ tw_sid c @ ''/Messages.json'')
        [(''To'', sm_to v), (''From'', the (sm_from v)), (''Body'', sm_text v)] r)"

fun numbered_params :: "nat \<Rightarrow> (string \<times> string) list \<Rightarrow> (string \<times> string) list" where
  "numbered_params i [] = []"
| "numbered_params i ((k, v) # ps) = (''Parameter'' @ show_nat i @ ''.name'', k) # (''Parameter'' @ show_nat i @ ''.value'', v)
     # numbered_params (i + 1) ps"

definition twilio_start_stream :: "twilio_config \<Rightarrow> string \<Rightarrow> stream_options \<Rightarrow> rest_reply \<Rightarrow> outcome" where
  "twilio_start_stream c call_id v r =
     (if so_bidirectional v then raised (Requires ''Connect Stream'')
      else twilio_post c (''/Accounts/'' @ tw_sid c @ ''/Calls/'' @ call_id @ ''/Streams.json'')
        ([(''Url'', so_url v), (''Track'', twilio_track (so_track v))]
          @ (if truthy (so_name v) then [(''Name'', the (so_name v))] else []) @ numbered_params 1 (so_params v)) r)"

section \<open>Plivo\<close>

record plivo_config =
  pl_id :: string
  pl_token :: string

definition plivo_base :: string where
  "plivo_base = ''https://api.plivo.com/v1/Account''"

definition plivo_auth :: "plivo_config \<Rightarrow> string" where
  "plivo_auth c = basic_auth (pl_id c) (pl_token c)"

definition plivo_post :: "plivo_config \<Rightarrow> string \<Rightarrow> json \<Rightarrow> (json \<Rightarrow> json option \<times> json option) \<Rightarrow> rest_reply \<Rightarrow> outcome" where
  "plivo_post c path body f r =
     ([\<lparr>rq_method = ''POST'', rq_url = plivo_base @ ''/'' @ pl_id c @ path, rq_auth = Some (plivo_auth c), rq_body = Json_Body body\<rparr>],
      if rp_ok r then with_data (reply_json r) f
      else Inl (Api_Error ''Plivo API'' (Some (rp_status r))
        (the (j_or (j_prop (Some (reply_json r)) ''error'') (Some (J_Str (rp_text r)))))))"

text \<open>\<^verbatim>\<open>data.a ?? data.b ?? d\<close>.\<close>

definition either_of :: "json \<Rightarrow> string list \<Rightarrow> string \<Rightarrow> json option" where
  "either_of d ks s = foldr (\<lambda>k. j_or (j_prop (Some d) k)) ks (Some (J_Str s))"

definition plivo_originate :: "plivo_config \<Rightarrow> call_options \<Rightarrow> rest_reply \<Rightarrow> outcome" where
  "plivo_originate c v r =
     (if \<not> truthy (oc_from v) then raised (Requires ''from'')
      else if \<not> truthy (oc_answer v) then raised (Requires ''answerUrl'')
      else plivo_post c ''/Call/'' (J_Obj [(''from'', J_Str (the (oc_from v))), (''to'', J_Str (oc_to v)),
          (''answer_url'', J_Str (the (oc_answer v))), (''answer_method'', J_Str ''POST'')])
        (\<lambda>d. (either_of d [''request_uuid'', ''api_id''] [], either_of d [''message''] ''queued'')) r)"

definition plivo_sms :: "plivo_config \<Rightarrow> sms_options \<Rightarrow> rest_reply \<Rightarrow> outcome" where
  "plivo_sms c v r =
     (if \<not> truthy (sm_from v) then raised (Requires ''from'')
      else plivo_post c ''/Message/'' (J_Obj [(''src'', J_Str (the (sm_from v))), (''dst'', J_Str (sm_to v)), (''text'', J_Str (sm_text v))])
        (\<lambda>d. (j_or (j_first (j_prop (Some d) ''message_uuid'')) (either_of d [''api_id''] []), either_of d [''message''] ''queued'')) r)"

definition plivo_extra :: "stream_options \<Rightarrow> string" where
  "plivo_extra v = join_with '','' (map (\<lambda>p. fst p @ ''='' @ snd p) (so_params v))"

definition plivo_start_stream :: "plivo_config \<Rightarrow> string \<Rightarrow> stream_options \<Rightarrow> rest_reply \<Rightarrow> outcome" where
  "plivo_start_stream c call_id v r =
     plivo_post c (''/Call/'' @ call_id @ ''/Stream/'')
       (J_Obj ([(''service_url'', J_Str (so_url v)), (''bidirectional'', J_Bool (so_bidirectional v)),
           (''audio_track'', J_Str (plivo_track v)), (''keep_call_alive'', J_Bool True)]
         @ (if truthy (so_content_type v) then [(''content_type'', J_Str (the (so_content_type v)))] else [])
         @ (if plivo_extra v \<noteq> [] then [(''extra_headers'', J_Str (plivo_extra v))] else [])))
       (\<lambda>d. (either_of d [''stream_id'', ''api_id''] [], either_of d [''message''] ''streaming'')) r"

section \<open>Telnyx\<close>

record telnyx_config =
  tx_key :: string
  tx_connection :: "string option"

definition telnyx_base :: string where
  "telnyx_base = ''https://api.telnyx.com/v2''"

definition telnyx_track :: "stream_track option \<Rightarrow> string" where
  "telnyx_track t = (case t of Some Outbound_Track \<Rightarrow> ''outbound_track'' | Some Both_Tracks \<Rightarrow> ''both_tracks'' | _ \<Rightarrow> ''inbound_track'')"

definition telnyx_stream_params :: "stream_options \<Rightarrow> json" where
  "telnyx_stream_params v = J_Obj ([(''stream_url'', J_Str (so_url v)), (''stream_track'', J_Str (telnyx_track (so_track v)))]
     @ (if so_bidirectional v then (''stream_bidirectional_mode'', J_Str ''rtp'')
          # (if truthy (so_content_type v) then [(''stream_bidirectional_codec'', J_Str (the (so_content_type v)))] else [])
        else []))"

definition telnyx_post :: "telnyx_config \<Rightarrow> string \<Rightarrow> json \<Rightarrow> (json \<Rightarrow> json option \<times> json option) \<Rightarrow> rest_reply \<Rightarrow> outcome" where
  "telnyx_post c path body f r =
     ([\<lparr>rq_method = ''POST'', rq_url = telnyx_base @ path, rq_auth = Some (''Bearer '' @ tx_key c), rq_body = Json_Body body\<rparr>],
      if rp_ok r then with_data (reply_json r) (\<lambda>d. f (the (j_or (j_prop (Some d) ''data'') (Some d))))
      else Inl (Api_Error ''Telnyx API'' (Some (rp_status r))
        (the (j_or (j_prop (j_first (j_prop (Some (reply_json r)) ''errors'')) ''detail'') (Some (J_Str (rp_text r)))))))"

definition telnyx_originate :: "telnyx_config \<Rightarrow> call_options \<Rightarrow> rest_reply \<Rightarrow> outcome" where
  "telnyx_originate c v r =
     (if \<not> truthy (oc_from v) then raised (Requires ''from'')
      else if \<not> truthy (tx_connection c) then raised (Requires ''connectionId'')
      else telnyx_post c ''/calls'' (J_Obj ([(''connection_id'', J_Str (the (tx_connection c))), (''to'', J_Str (oc_to v)),
            (''from'', J_Str (the (oc_from v)))]
          @ (if truthy (oc_answer v) then [(''webhook_url'', J_Str (the (oc_answer v)))] else [])))
        (\<lambda>d. (either_of d [''call_control_id'', ''call_session_id''] [], either_of d [''status''] ''initiated'')) r)"

definition telnyx_sms :: "telnyx_config \<Rightarrow> sms_options \<Rightarrow> rest_reply \<Rightarrow> outcome" where
  "telnyx_sms c v r =
     (if \<not> truthy (sm_from v) then raised (Requires ''from'')
      else telnyx_post c ''/messages'' (J_Obj [(''from'', J_Str (the (sm_from v))), (''to'', J_Str (sm_to v)), (''text'', J_Str (sm_text v))])
        (\<lambda>d. (either_of d [''id''] [], j_or (j_prop (j_first (j_prop (Some d) ''to'')) ''status'') (Some (J_Str ''queued'')))) r)"

definition telnyx_start_stream :: "telnyx_config \<Rightarrow> string \<Rightarrow> stream_options \<Rightarrow> rest_reply \<Rightarrow> outcome" where
  "telnyx_start_stream c call_id v r =
     telnyx_post c (''/calls/'' @ call_id @ ''/actions/streaming_start'') (telnyx_stream_params v)
       (\<lambda>d. (Some (J_Str call_id), either_of d [''result'', ''status''] ''streaming'')) r"

section \<open>Vonage\<close>

record vonage_config =
  vo_app :: "string option"
  vo_private :: "string option"
  vo_key :: "string option"
  vo_secret :: "string option"

text \<open>The token library's signature of claims with a key, the time in seconds and a fresh identifier.\<close>

record token_maker =
  tm_sign :: "json \<Rightarrow> string \<Rightarrow> string"
  tm_now :: int
  tm_id :: string

definition vonage_voice_base :: string where
  "vonage_voice_base = ''https://api.nexmo.com/v1/calls''"

definition vonage_sms_base :: string where
  "vonage_sms_base = ''https://rest.nexmo.com/sms/json''"

definition vonage_jwt :: "token_maker \<Rightarrow> vonage_config \<Rightarrow> carrier_error + string" where
  "vonage_jwt m c = (if \<not> truthy (vo_app c) \<or> \<not> truthy (vo_private c) then Inl (Requires ''applicationId and privateKey'')
     else Inr (tm_sign m (J_Obj [(''application_id'', J_Str (the (vo_app c))), (''iat'', J_Num (of_int (tm_now m))),
       (''exp'', J_Num (of_int (tm_now m + 60))), (''jti'', J_Str (tm_id m))]) (the (vo_private c))))"

definition vonage_fetch :: "token_maker \<Rightarrow> vonage_config \<Rightarrow> string \<Rightarrow> string \<Rightarrow> json \<Rightarrow> (carrier_error + carrier_result) \<Rightarrow> rest_reply \<Rightarrow> outcome" where
  "vonage_fetch m c verb path body result r =
     (case vonage_jwt m c of Inl e \<Rightarrow> raised e
      | Inr jwt \<Rightarrow> ([\<lparr>rq_method = verb, rq_url = vonage_voice_base @ path, rq_auth = Some (''Bearer '' @ jwt), rq_body = Json_Body body\<rparr>],
          if rp_ok r then result
          else Inl (Api_Error ''Vonage Voice API'' (Some (rp_status r))
            (the (j_or (j_prop (Some (reply_json r)) ''title'') (Some (J_Str (rp_text r))))))))"

definition vonage_originate :: "token_maker \<Rightarrow> vonage_config \<Rightarrow> call_options \<Rightarrow> rest_reply \<Rightarrow> outcome" where
  "vonage_originate m c v r =
     (if \<not> truthy (oc_from v) then raised (Requires ''from'')
      else let phone = (\<lambda>n. J_Obj [(''type'', J_Str ''phone''), (''number'', J_Str (strip_plus n))]);
               body = [(''to'', J_Arr [phone (oc_to v)]), (''from'', phone (the (oc_from v)))];
               result = with_data (reply_json r) (\<lambda>d. (either_of d [''uuid''] [], either_of d [''status''] ''started'')) in
        if truthy (oc_answer v)
        then vonage_fetch m c ''POST'' [] (J_Obj (body @ [(''answer_url'', J_Arr [J_Str (the (oc_answer v))])])) result r
        else case oc_instructions v of
            Some (J_Arr ncco) \<Rightarrow> vonage_fetch m c ''POST'' [] (J_Obj (body @ [(''ncco'', J_Arr ncco)])) result r
          | _ \<Rightarrow> raised (Requires ''answerUrl or instructions''))"

definition vonage_sms :: "vonage_config \<Rightarrow> sms_options \<Rightarrow> rest_reply \<Rightarrow> outcome" where
  "vonage_sms c v r =
     (if \<not> truthy (vo_key c) \<or> \<not> truthy (vo_secret c) then raised (Requires ''apiKey and apiSecret'')
      else if \<not> truthy (sm_from v) then raised (Requires ''from'')
      else ([\<lparr>rq_method = ''POST'', rq_url = vonage_sms_base, rq_auth = None, rq_body = Form_Body (query_string
              [(''api_key'', the (vo_key c)), (''api_secret'', the (vo_secret c)), (''from'', the (sm_from v)),
               (''to'', strip_plus (sm_to v)), (''text'', sm_text v)])\<rparr>],
        let msg = j_or (j_first (j_prop (Some (reply_json r)) ''messages'')) (Some (J_Obj [])) in
          if \<not> rp_ok r \<or> j_prop msg ''status'' \<noteq> Some (J_Str ''0'')
          then Inl (Api_Error ''Vonage SMS API'' None (the (j_or (j_prop msg ''error-text'') (Some (J_Str (rp_text r))))))
          else Inr \<lparr>cr_id = j_or (j_prop msg ''message-id'') (Some (J_Str [])), cr_status = Some (J_Str ''sent''),
            cr_raw = reply_json r\<rparr>))"

text \<open>Absent parameters are an empty map.\<close>

definition vonage_stream :: "stream_options \<Rightarrow> json" where
  "vonage_stream v = J_Arr [J_Obj [(''action'', J_Str ''connect''), (''endpoint'', J_Arr [J_Obj
     ([(''type'', J_Str ''websocket''), (''uri'', J_Str (so_url v)),
       (''content-type'', J_Str (or_else (so_content_type v) ''audio/l16;rate=16000''))]
      @ (if so_params v \<noteq> [] then [(''headers'', J_Obj (map (\<lambda>p. (fst p, J_Str (snd p))) (so_params v)))] else []))])]]"

definition vonage_start_stream :: "token_maker \<Rightarrow> vonage_config \<Rightarrow> string \<Rightarrow> stream_options \<Rightarrow> rest_reply \<Rightarrow> outcome" where
  "vonage_start_stream m c call_id v r =
     vonage_fetch m c ''PUT'' (''/'' @ call_id)
       (J_Obj [(''action'', J_Str ''transfer''), (''destination'', J_Obj [(''type'', J_Str ''ncco''), (''ncco'', vonage_stream v)])])
       (Inr \<lparr>cr_id = Some (J_Str call_id), cr_status = Some (J_Str ''transferred''), cr_raw = J_Obj [(''uuid'', J_Str call_id)]\<rparr>) r"

section \<open>Providers\<close>

datatype carrier = Twilio twilio_config | Telnyx telnyx_config | Plivo plivo_config | Vonage vonage_config

record provider =
  pv_client :: carrier
  pv_host :: string
  pv_port :: "int option"
  pv_transport :: string
  pv_user :: "string option"
  pv_password :: "string option"
  pv_caller :: "string option"
  pv_prefix :: "string option"
  pv_enabled :: bool

text \<open>Ports as \<^verbatim>\<open>parseInt\<close> reads decimal digits; the inner None is \<^verbatim>\<open>NaN\<close>, which \<^verbatim>\<open>??\<close> does not replace.\<close>

definition as_port :: "string option \<Rightarrow> int option option" where
  "as_port v = (if truthy v then Some (parse_int (the v)) else None)"

definition opted_in :: "string option \<Rightarrow> bool" where
  "opted_in v \<longleftrightarrow> v = Some ''true''"

definition twilio_from_env :: "(string \<Rightarrow> string option) \<Rightarrow> provider" where
  "twilio_from_env e = \<lparr>pv_client = Twilio \<lparr>tw_sid = or_else (e ''TWILIO_ACCOUNT_SID'') [], tw_token = or_else (e ''TWILIO_AUTH_TOKEN'') []\<rparr>,
     pv_host = or_else (e ''TWILIO_SIP_DOMAIN'') [], pv_port = or_else (as_port (e ''TWILIO_SIP_PORT'')) (Some 5060),
     pv_transport = or_else (e ''TWILIO_SIP_TRANSPORT'') ''udp'', pv_user = None, pv_password = None,
     pv_caller = e ''TWILIO_CALLER_ID'', pv_prefix = None, pv_enabled = opted_in (e ''TWILIO_ENABLED'')\<rparr>"

definition telnyx_from_env :: "(string \<Rightarrow> string option) \<Rightarrow> provider" where
  "telnyx_from_env e = \<lparr>pv_client = Telnyx \<lparr>tx_key = or_else (e ''TELNYX_API_KEY'') [], tx_connection = e ''TELNYX_CONNECTION_ID''\<rparr>,
     pv_host = or_else (e ''TELNYX_SIP_HOST'') ''sip.telnyx.com'', pv_port = or_else (as_port (e ''TELNYX_SIP_PORT'')) (Some 5060),
     pv_transport = or_else (e ''TELNYX_SIP_TRANSPORT'') ''udp'', pv_user = e ''TELNYX_SIP_USERNAME'',
     pv_password = e ''TELNYX_SIP_PASSWORD'', pv_caller = e ''TELNYX_CALLER_ID'', pv_prefix = None, pv_enabled = opted_in (e ''TELNYX_ENABLED'')\<rparr>"

definition plivo_from_env :: "(string \<Rightarrow> string option) \<Rightarrow> provider" where
  "plivo_from_env e = \<lparr>pv_client = Plivo \<lparr>pl_id = or_else (e ''PLIVO_AUTH_ID'') [], pl_token = or_else (e ''PLIVO_AUTH_TOKEN'') []\<rparr>,
     pv_host = or_else (e ''PLIVO_SIP_HOST'') ''sip.plivo.com'', pv_port = or_else (as_port (e ''PLIVO_SIP_PORT'')) (Some 5060),
     pv_transport = or_else (e ''PLIVO_SIP_TRANSPORT'') ''udp'', pv_user = e ''PLIVO_SIP_USERNAME'',
     pv_password = e ''PLIVO_SIP_PASSWORD'', pv_caller = e ''PLIVO_CALLER_ID'', pv_prefix = None, pv_enabled = opted_in (e ''PLIVO_ENABLED'')\<rparr>"

text \<open>A backslash and an \<open>n\<close> in the key stand for a line break.\<close>

fun unescape_newlines :: "string \<Rightarrow> string" where
  "unescape_newlines (a # b # s) = (if a = CHR 0x5C \<and> b = CHR ''n'' then CHR 0x0A # unescape_newlines s else a # unescape_newlines (b # s))"
| "unescape_newlines s = s"

definition vonage_from_env :: "(string \<Rightarrow> string option) \<Rightarrow> provider" where
  "vonage_from_env e = \<lparr>pv_client = Vonage \<lparr>vo_app = e ''VONAGE_APPLICATION_ID'',
       vo_private = map_option unescape_newlines (e ''VONAGE_PRIVATE_KEY''), vo_key = e ''VONAGE_API_KEY'', vo_secret = e ''VONAGE_API_SECRET''\<rparr>,
     pv_host = or_else (e ''VONAGE_SIP_HOST'') ''sip.nexmo.com'', pv_port = or_else (as_port (e ''VONAGE_SIP_PORT'')) (Some 5060),
     pv_transport = or_else (e ''VONAGE_SIP_TRANSPORT'') ''udp'', pv_user = None, pv_password = None,
     pv_caller = e ''VONAGE_CALLER_ID'', pv_prefix = None, pv_enabled = opted_in (e ''VONAGE_ENABLED'')\<rparr>"

definition create_trunk_provider :: "(string \<Rightarrow> string option) \<Rightarrow> string \<Rightarrow> provider option" where
  "create_trunk_provider e name = (if name = ''twilio'' then Some (twilio_from_env e) else if name = ''telnyx'' then Some (telnyx_from_env e)
     else if name = ''plivo'' then Some (plivo_from_env e) else if name = ''vonage'' then Some (vonage_from_env e) else None)"

definition provider_uri :: "provider \<Rightarrow> string \<Rightarrow> string" where
  "provider_uri p number = ''sip:'' @ or_else (pv_prefix p) [] @ normalize_e164 number @ ''@'' @ pv_host p @ '':'' @
     (case pv_port p of None \<Rightarrow> ''NaN'' | Some i \<Rightarrow> show_int i) @ '';transport='' @ pv_transport p"

datatype carrier_op = Originate call_options | Send_Sms sms_options | Start_Stream string stream_options

fun client_call :: "token_maker \<Rightarrow> carrier \<Rightarrow> carrier_op \<Rightarrow> rest_reply \<Rightarrow> outcome" where
  "client_call m (Twilio c) (Originate v) r = twilio_originate c v r"
| "client_call m (Twilio c) (Send_Sms v) r = twilio_sms c v r"
| "client_call m (Twilio c) (Start_Stream i v) r = twilio_start_stream c i v r"
| "client_call m (Plivo c) (Originate v) r = plivo_originate c v r"
| "client_call m (Plivo c) (Send_Sms v) r = plivo_sms c v r"
| "client_call m (Plivo c) (Start_Stream i v) r = plivo_start_stream c i v r"
| "client_call m (Telnyx c) (Originate v) r = telnyx_originate c v r"
| "client_call m (Telnyx c) (Send_Sms v) r = telnyx_sms c v r"
| "client_call m (Telnyx c) (Start_Stream i v) r = telnyx_start_stream c i v r"
| "client_call m (Vonage c) (Originate v) r = vonage_originate m c v r"
| "client_call m (Vonage c) (Send_Sms v) r = vonage_sms c v r"
| "client_call m (Vonage c) (Start_Stream i v) r = vonage_start_stream m c i v r"

text \<open>The base class fills in the provider's caller ID.\<close>

fun with_caller :: "string option \<Rightarrow> carrier_op \<Rightarrow> carrier_op" where
  "with_caller d (Originate v) = Originate (v\<lparr>oc_from := (case oc_from v of None \<Rightarrow> d | Some f \<Rightarrow> Some f)\<rparr>)"
| "with_caller d (Send_Sms v) = Send_Sms (v\<lparr>sm_from := (case sm_from v of None \<Rightarrow> d | Some f \<Rightarrow> Some f)\<rparr>)"
| "with_caller d (Start_Stream i v) = Start_Stream i v"

definition provider_call :: "token_maker \<Rightarrow> provider \<Rightarrow> carrier_op \<Rightarrow> rest_reply \<Rightarrow> outcome" where
  "provider_call m p oper r = client_call m (pv_client p) (with_caller (pv_caller p) oper) r"

section \<open>What the carriers are asked\<close>

fun homes :: "carrier \<Rightarrow> string list" where
  "homes (Twilio c) = [twilio_base]"
| "homes (Plivo c) = [plivo_base]"
| "homes (Telnyx c) = [telnyx_base]"
| "homes (Vonage c) = [vonage_voice_base, vonage_sms_base]"

definition at_home :: "carrier \<Rightarrow> rest_request \<Rightarrow> bool" where
  "at_home c q \<longleftrightarrow> list_ex (\<lambda>b. prefix b (rq_url q)) (homes c)"

text \<open>One request at most, to the carrier's own service, and a result only for a request that was accepted.\<close>

definition proper :: "carrier \<Rightarrow> rest_reply \<Rightarrow> outcome \<Rightarrow> bool" where
  "proper c r z \<longleftrightarrow> length (fst z) \<le> 1 \<and> list_all (at_home c) (fst z) \<and> (case snd z of Inl e \<Rightarrow> True | Inr x \<Rightarrow> fst z \<noteq> [] \<and> rp_ok r)"

lemma raised_proper [simp]: "proper c r (raised e)"
  by (simp add: proper_def raised_def)

lemma post_proper [simp]:
  "proper (Twilio tc) r (twilio_post tc path form r)" "proper (Plivo pc) r (plivo_post pc path body f r)"
  "proper (Telnyx xc) r (telnyx_post xc path body f r)" "proper (Vonage vc) r (vonage_fetch m vc verb path body result r)"
  by (auto simp: proper_def twilio_post_def plivo_post_def telnyx_post_def vonage_fetch_def at_home_def raised_def split: sum.split)

lemma client_proper: "proper c r (client_call m c oper r)"
proof (cases c)
  case (Twilio tc)
  then show ?thesis
    by (cases oper) (auto simp: twilio_originate_def twilio_sms_def twilio_start_stream_def Let_def split: option.split json.split)
next
  case (Telnyx xc)
  then show ?thesis by (cases oper) (auto simp: telnyx_originate_def telnyx_sms_def telnyx_start_stream_def)
next
  case (Plivo pc)
  then show ?thesis by (cases oper) (auto simp: plivo_originate_def plivo_sms_def plivo_start_stream_def)
next
  case (Vonage vc)
  have "proper (Vonage vc) r (vonage_sms vc v r)" for v
    by (auto simp: vonage_sms_def proper_def at_home_def raised_def Let_def split: sum.split if_splits)
  then show ?thesis using Vonage
    by (cases oper) (auto simp: vonage_originate_def vonage_start_stream_def Let_def split: option.split json.split)
qed

text \<open>A carrier is asked once and at home. Whatever is asked of a provider and whatever the reply, one request at most goes out, and
  to the REST service of that carrier and no other; and a call, a message or a stream is reported only if the request was made
  and the carrier accepted it.\<close>

theorem carrier_asked_at_home:
  "length (fst (provider_call m p oper r)) \<le> 1 \<and> list_all (at_home (pv_client p)) (fst (provider_call m p oper r)) \<and>
   (\<forall>x. snd (provider_call m p oper r) = Inr x \<longrightarrow> fst (provider_call m p oper r) \<noteq> [] \<and> rp_ok r)"
  using client_proper [of "pv_client p" r m "with_caller (pv_caller p) oper"]
  by (auto simp: proper_def provider_call_def split: sum.splits)

text \<open>The carrier reads what was asked. A message, whatever characters its text and numbers have, is read by the carriers that take
  forms as one with exactly these fields: nothing in the text can add a field or change the recipient.\<close>

theorem carrier_reads_message:
  assumes "truthy (sm_from v)" "truthy (vo_key c)" "truthy (vo_secret c)"
  shows "map (\<lambda>q. case rq_body q of Form_Body b \<Rightarrow> query_pairs b | Json_Body j \<Rightarrow> []) (fst (twilio_sms t v r)) =
      [[(''To'', sm_to v), (''From'', the (sm_from v)), (''Body'', sm_text v)]]"
    "map (\<lambda>q. case rq_body q of Form_Body b \<Rightarrow> query_pairs b | Json_Body j \<Rightarrow> []) (fst (vonage_sms c v r)) =
      [[(''api_key'', the (vo_key c)), (''api_secret'', the (vo_secret c)), (''from'', the (sm_from v)),
        (''to'', strip_plus (sm_to v)), (''text'', sm_text v)]]"
  using assms by (simp_all add: twilio_sms_def twilio_post_def vonage_sms_def query_round)

text \<open>A port that does not parse is dialled. The default port stands in only for a missing one: with any other text for the port
  every outbound address of the provider has \<open>NaN\<close> for its port.\<close>

theorem unparsable_port_dialled:
  assumes "e ''TWILIO_SIP_PORT'' = Some s" "s \<noteq> []" "parse_int s = None"
  shows "provider_uri (twilio_from_env e) n = ''sip:'' @ normalize_e164 n @ ''@'' @ or_else (e ''TWILIO_SIP_DOMAIN'') [] @
    '':NaN;transport='' @ or_else (e ''TWILIO_SIP_TRANSPORT'') ''udp''"
  using assms by (cases s) (simp_all add: provider_uri_def twilio_from_env_def as_port_def)

definition sample_sms :: sms_options where
  "sample_sms = \<lparr>sm_to = ''+15550001'', sm_from = Some ''+15550000'', sm_text = ''a&To=b''\<rparr>"

definition sample_twilio :: provider where
  "sample_twilio = twilio_from_env (\<lambda>k. if k = ''TWILIO_ACCOUNT_SID'' then Some ''AC1'' else None)"

definition accepted :: rest_reply where
  "accepted = \<lparr>rp_ok = True, rp_status = 201, rp_text = [], rp_json = Some (J_Obj [(''sid'', J_Str ''SM1'')])\<rparr>"

definition no_tokens :: token_maker where
  "no_tokens = \<lparr>tm_sign = (\<lambda>j k. []), tm_now = 0, tm_id = []\<rparr>"

theorem carrier_asked_at_home_witness:
  "length (fst (provider_call no_tokens sample_twilio (Send_Sms sample_sms) accepted)) = 1 \<and>
   list_all (at_home (Twilio \<lparr>tw_sid = ''AC1'', tw_token = []\<rparr>)) (fst (provider_call no_tokens sample_twilio (Send_Sms sample_sms) accepted))"
proof -
  have "pv_client sample_twilio = Twilio \<lparr>tw_sid = ''AC1'', tw_token = []\<rparr>" by code_simp
  moreover have "\<exists>x. snd (provider_call no_tokens sample_twilio (Send_Sms sample_sms) accepted) = Inr x"
    by (simp add: sample_twilio_def twilio_from_env_def provider_call_def sample_sms_def twilio_sms_def twilio_post_def
        accepted_def reply_json_def with_data_def)
  ultimately show ?thesis
    using carrier_asked_at_home [of no_tokens sample_twilio "Send_Sms sample_sms" accepted]
    by (cases "fst (provider_call no_tokens sample_twilio (Send_Sms sample_sms) accepted)") auto
qed

theorem carrier_reads_message_witness:
  "map (\<lambda>q. case rq_body q of Form_Body b \<Rightarrow> query_pairs b | Json_Body j \<Rightarrow> [])
     (fst (twilio_sms \<lparr>tw_sid = ''AC1'', tw_token = []\<rparr> sample_sms accepted)) =
   [[(''To'', ''+15550001''), (''From'', ''+15550000''), (''Body'', ''a&To=b'')]]"
  using carrier_reads_message(1) [of sample_sms "\<lparr>vo_app = None, vo_private = None, vo_key = Some ''k'', vo_secret = Some ''s''\<rparr>"
      "\<lparr>tw_sid = ''AC1'', tw_token = []\<rparr>" accepted]
  by (simp add: sample_sms_def)

end
