(* ===== verification/Flow_Builder.thy ===== *)
theory Flow_Builder
  imports Json "HOL-Library.Sublist"
begin

text \<open>
  The flow builder of the dashboard: the store of \<^verbatim>\<open>src/web/app/admin/ivr/store/builder.store.ts\<close>
  with the node defaults of \<^verbatim>\<open>ivr.constants.ts\<close>. A node's data is the JSON object that it is; the
  canvas library that applies its own changes to nodes and edges is a parameter.
\<close>

section \<open>Flows\<close>

record ivr_node =
  nd_id :: string
  nd_type :: string
  nd_position :: "json option"
  nd_data :: json
  nd_deletable :: "bool option"

record ivr_edge =
  ed_id :: "string option"
  ed_source :: string
  ed_handle :: "string option"
  ed_target :: string

record ivr_flow =
  fl_id :: string
  fl_name :: string
  fl_extension :: string
  fl_enabled :: bool
  fl_nodes :: "ivr_node list"
  fl_edges :: "ivr_edge list"

type_synonym flow_graph = "ivr_node list \<times> ivr_edge list"

text \<open>What the surroundings give to an operation: the time in base 36, random texts, and the library.\<close>

record builder_tick =
  bt_stamp :: string
  bt_random :: "nat \<Rightarrow> string"

datatype node_change =
    Nc_Position string "bool option" "json option"
  | Nc_Dimensions string
  | Nc_Select string bool
  | Nc_Remove string
  | Nc_Add ivr_node
  | Nc_Replace string ivr_node

datatype edge_change = Ec_Select string bool | Ec_Remove string | Ec_Add ivr_edge | Ec_Replace string ivr_edge

record connection =
  cn_source :: string
  cn_handle :: "string option"
  cn_target :: string

record canvas =
  cv_nodes :: "node_change list \<Rightarrow> ivr_node list \<Rightarrow> ivr_node list"
  cv_edges :: "edge_change list \<Rightarrow> ivr_edge list \<Rightarrow> ivr_edge list"
  cv_connect :: "connection \<Rightarrow> ivr_edge list \<Rightarrow> ivr_edge list"

section \<open>Defaults\<close>

definition empty_prompt :: "string \<Rightarrow> json" where
  "empty_prompt t = J_Obj [(''mode'', J_Str ''tts''), (''text'', J_Str t)]"

definition make_menu_option :: "builder_tick \<Rightarrow> nat \<Rightarrow> string \<Rightarrow> string \<Rightarrow> json" where
  "make_menu_option k n digit label =
     J_Obj [(''id'', J_Str (''opt_'' @ bt_stamp k @ ''_'' @ show_nat n)), (''digit'', J_Str digit), (''label'', J_Str label)]"

datatype ivr_kind = K_Start | K_Menu | K_Play | K_Condition | K_Transfer | K_Voicemail | K_Email | K_Ai_Agent | K_Meeting | K_Hangup

definition kind_name :: "ivr_kind \<Rightarrow> string" where
  "kind_name k = (case k of K_Start \<Rightarrow> ''start'' | K_Menu \<Rightarrow> ''menu'' | K_Play \<Rightarrow> ''play'' | K_Condition \<Rightarrow> ''condition''
     | K_Transfer \<Rightarrow> ''transfer'' | K_Voicemail \<Rightarrow> ''voicemail'' | K_Email \<Rightarrow> ''email'' | K_Ai_Agent \<Rightarrow> ''ai_agent''
     | K_Meeting \<Rightarrow> ''meeting_join'' | K_Hangup \<Rightarrow> ''hangup'')"

text \<open>The counter of options goes up by two for a menu.\<close>

definition default_node_data :: "builder_tick \<Rightarrow> nat \<Rightarrow> ivr_kind \<Rightarrow> string \<Rightarrow> json \<times> nat" where
  "default_node_data k n kind ext =
     (let fields = (\<lambda>label fs. J_Obj ([(''kind'', J_Str (kind_name kind)), (''label'', J_Str label)] @ fs))
      in case kind of
           K_Start \<Rightarrow> (fields ''Start'' [(''extension'', J_Str ext), (''greeting'', empty_prompt ''Welcome to Enjoys Voice.'')], n)
         | K_Menu \<Rightarrow> (fields ''Main menu'' [(''prompt'', empty_prompt ''Press 1 for Sales. Press 2 for Support.''),
             (''validDigits'', J_Str ''12''), (''tries'', J_Num 2), (''timeoutMs'', J_Num 7000),
             (''options'', J_Arr [make_menu_option k (n + 1) ''1'' ''Sales'', make_menu_option k (n + 2) ''2'' ''Support''])], n + 2)
         | K_Play \<Rightarrow> (fields ''Play message'' [(''prompt'', empty_prompt ''Thank you for calling.''), (''bargeIn'', J_Bool True)], n)
         | K_Condition \<Rightarrow> (fields ''Condition'' [(''variable'', J_Str ''caller_id''), (''operator'', J_Str ''contains''),
             (''value'', J_Str []), (''ignoreCase'', J_Bool True)], n)
         | K_Transfer \<Rightarrow> (fields ''Transfer'' [(''attended'', J_Bool False), (''ringSeconds'', J_Num 30)], n)
         | K_Voicemail \<Rightarrow> (fields ''Voicemail'' [(''maxSeconds'', J_Num 120),
             (''greeting'', empty_prompt ''Please leave a message after the tone.'')], n)
         | K_Email \<Rightarrow> (fields ''Send email'' [(''connectorId'', J_Str []), (''to'', J_Str []), (''subject'', J_Str ''New IVR call''),
             (''body'', J_Str ''A caller reached this step in the IVR flow.'')], n)
         | K_Ai_Agent \<Rightarrow> (fields ''AI agent'' [(''agentId'', J_Str [])], n)
         | K_Meeting \<Rightarrow> (fields ''Join meeting'' [(''joinType'', J_Str ''external''),
             (''providerPrompt'', empty_prompt ''Press 1 for Zoom, 2 for Google Meet.''),
             (''idPrompt'', empty_prompt ''Enter your meeting ID, followed by the pound key.''),
             (''providers'', J_Arr [J_Obj [(''digit'', J_Str ''1''), (''domain'', J_Str ''zoomcrc.com'')],
                J_Obj [(''digit'', J_Str ''2''), (''domain'', J_Str ''meet.google.com'')]])], n)
         | K_Hangup \<Rightarrow> (fields ''Hang up'' [], n))"

section \<open>State\<close>

text \<open>The store, with the module's two counters and its drag flag.\<close>

record builder =
  bd_flow :: "string option"
  bd_name :: string
  bd_extension :: string
  bd_enabled :: bool
  bd_nodes :: "ivr_node list"
  bd_edges :: "ivr_edge list"
  bd_selected :: "string option"
  bd_clipboard :: "json option"
  bd_past :: "flow_graph list"
  bd_future :: "flow_graph list"
  bd_dirty :: bool
  bd_saving :: bool
  bd_read_only :: bool
  bd_node_seq :: nat
  bd_option_seq :: nat
  bd_drag :: bool

definition new_builder :: builder where
  "new_builder = \<lparr>bd_flow = None, bd_name = [], bd_extension = [], bd_enabled = True, bd_nodes = [], bd_edges = [],
     bd_selected = None, bd_clipboard = None, bd_past = [], bd_future = [], bd_dirty = False, bd_saving = False,
     bd_read_only = False, bd_node_seq = 0, bd_option_seq = 0, bd_drag = False\<rparr>"

definition graph :: "builder \<Rightarrow> flow_graph" where
  "graph s = (bd_nodes s, bd_edges s)"

definition history_limit :: nat where
  "history_limit = 50"

text \<open>\<^verbatim>\<open>xs.slice(-n)\<close>.\<close>

definition last_n :: "nat \<Rightarrow> 'a list \<Rightarrow> 'a list" where
  "last_n n xs = drop (length xs - n) xs"

definition push_history :: "builder \<Rightarrow> builder" where
  "push_history s = s\<lparr>bd_past := last_n history_limit (bd_past s @ [graph s]), bd_future := []\<rparr>"

definition new_node_id :: "builder_tick \<Rightarrow> string \<Rightarrow> builder \<Rightarrow> string \<times> builder" where
  "new_node_id k kind s = (kind @ ''_'' @ bt_stamp k @ ''_'' @ show_nat (bd_node_seq s + 1), s\<lparr>bd_node_seq := bd_node_seq s + 1\<rparr>)"

definition xy :: "rat \<Rightarrow> rat \<Rightarrow> json" where
  "xy x y = J_Obj [(''x'', J_Num x), (''y'', J_Num y)]"

definition is_num :: "json option \<Rightarrow> bool" where
  "is_num v \<longleftrightarrow> (case v of Some (J_Num q) \<Rightarrow> True | _ \<Rightarrow> False)"

definition with_safe_position :: "nat \<Rightarrow> ivr_node \<Rightarrow> ivr_node" where
  "with_safe_position i n =
     (if is_num (j_prop (nd_position n) ''x'') \<and> is_num (j_prop (nd_position n) ''y'') then n
      else n\<lparr>nd_position := Some (xy (80 + of_nat i * 240) (80 + of_nat i * 140))\<rparr>)"

definition placed_node :: "nat \<Rightarrow> ivr_node \<Rightarrow> ivr_node" where
  "placed_node i n = (let m = with_safe_position i n in if nd_type m = ''start'' then m\<lparr>nd_deletable := Some False\<rparr> else m)"

definition placed_nodes :: "ivr_node list \<Rightarrow> ivr_node list" where
  "placed_nodes ns = map (\<lambda>p. placed_node (fst p) (snd p)) (enumerate 0 ns)"

text \<open>A copy of a node's data; a menu's options get new handles. \<open>None\<close> is the exception of options that are no array.\<close>

definition data_kind :: "json \<Rightarrow> json option" where
  "data_kind d = j_prop (Some d) ''kind''"

definition set_field :: "string \<Rightarrow> json \<Rightarrow> json \<Rightarrow> json" where
  "set_field k v d = (case d of J_Obj m \<Rightarrow> J_Obj (m_set k v m) | _ \<Rightarrow> d)"

definition menu_options :: "json \<Rightarrow> json list option" where
  "menu_options d = (case j_prop (Some d) ''options'' of Some (J_Arr os) \<Rightarrow> Some os | _ \<Rightarrow> None)"

definition clone_node_data :: "builder_tick \<Rightarrow> json \<Rightarrow> json option" where
  "clone_node_data k d =
     (if data_kind d \<noteq> Some (J_Str ''menu'') then Some d
      else map_option (\<lambda>os. set_field ''options'' (J_Arr (map (\<lambda>p.
          set_field ''id'' (J_Str (''opt_'' @ bt_stamp k @ ''_'' @ bt_random k (fst p))) (snd p)) (enumerate 0 os))) d) (menu_options d))"

section \<open>Lifecycle\<close>

definition create_empty_flow :: "builder_tick \<Rightarrow> string \<Rightarrow> string \<Rightarrow> builder \<Rightarrow> ivr_flow \<times> builder" where
  "create_empty_flow k name ext s =
     (case new_node_id k ''start'' s of (i, s1) \<Rightarrow>
        (case default_node_data k (bd_option_seq s1) K_Start ext of (d, n) \<Rightarrow>
          (\<lparr>fl_id = ''flow_'' @ bt_stamp k @ ''_'' @ bt_random k 0, fl_name = name, fl_extension = ext, fl_enabled = True,
            fl_nodes = [\<lparr>nd_id = i, nd_type = ''start'', nd_position = Some (xy 80 200), nd_data = d, nd_deletable = Some False\<rparr>],
            fl_edges = []\<rparr>, s1\<lparr>bd_option_seq := n\<rparr>)))"

definition open_flow :: "ivr_flow \<Rightarrow> ivr_node list \<Rightarrow> bool \<Rightarrow> builder \<Rightarrow> builder" where
  "open_flow f ns dirty s = s\<lparr>bd_flow := Some (fl_id f), bd_name := fl_name f, bd_extension := fl_extension f, bd_enabled := fl_enabled f,
     bd_nodes := ns, bd_edges := fl_edges f, bd_selected := None, bd_past := [], bd_future := [], bd_dirty := dirty\<rparr>"

definition load_flow :: "ivr_flow \<Rightarrow> builder \<Rightarrow> builder" where
  "load_flow f s = open_flow f (placed_nodes (fl_nodes f)) False s"

definition start_new_flow :: "builder_tick \<Rightarrow> string \<Rightarrow> string \<Rightarrow> builder \<Rightarrow> builder" where
  "start_new_flow k name ext s = (case create_empty_flow k name ext s of (f, s1) \<Rightarrow> open_flow f (fl_nodes f) True s1)"

text \<open>Saving begins with a request and ends with its answer.\<close>

definition save_begin :: "builder \<Rightarrow> ivr_flow option \<times> builder" where
  "save_begin s =
     (case bd_flow s of
        Some i \<Rightarrow> if bd_read_only s \<or> i = [] then (None, s)
          else (Some \<lparr>fl_id = i, fl_name = bd_name s, fl_extension = bd_extension s, fl_enabled = bd_enabled s,
            fl_nodes = bd_nodes s, fl_edges = bd_edges s\<rparr>, s\<lparr>bd_saving := True\<rparr>)
      | None \<Rightarrow> (None, s))"

definition save_end :: "bool \<Rightarrow> builder \<Rightarrow> builder" where
  "save_end ok s = (if ok then s\<lparr>bd_dirty := False, bd_saving := False\<rparr> else s\<lparr>bd_saving := False\<rparr>)"

definition reset_builder :: "builder \<Rightarrow> builder" where
  "reset_builder s = s\<lparr>bd_flow := None, bd_name := [], bd_extension := [], bd_enabled := True, bd_nodes := [], bd_edges := [],
     bd_selected := None, bd_past := [], bd_future := [], bd_dirty := False, bd_saving := False\<rparr>"

definition set_read_only :: "bool \<Rightarrow> builder \<Rightarrow> builder" where
  "set_read_only v s = s\<lparr>bd_read_only := v\<rparr>"

definition set_meta :: "string option \<Rightarrow> string option \<Rightarrow> bool option \<Rightarrow> builder \<Rightarrow> builder" where
  "set_meta name ext enabled s =
     (if bd_read_only s then s
      else s\<lparr>bd_name := or_else name (bd_name s), bd_extension := or_else ext (bd_extension s),
        bd_enabled := or_else enabled (bd_enabled s), bd_dirty := True\<rparr>)"

section \<open>Import and export\<close>

definition is_object :: "json option \<Rightarrow> bool" where
  "is_object v \<longleftrightarrow> (case v of Some (J_Obj m) \<Rightarrow> True | Some (J_Arr xs) \<Rightarrow> True | _ \<Rightarrow> False)"

definition is_text :: "json option \<Rightarrow> bool" where
  "is_text v \<longleftrightarrow> (case v of Some (J_Str s) \<Rightarrow> True | _ \<Rightarrow> False)"

definition text_of :: "json option \<Rightarrow> string" where
  "text_of v = (case v of Some (J_Str s) \<Rightarrow> s | _ \<Rightarrow> [])"

definition node_valid :: "json \<Rightarrow> bool" where
  "node_valid n \<longleftrightarrow> is_object (Some n) \<and> is_text (j_prop (Some n) ''id'') \<and> is_text (j_prop (Some n) ''type'') \<and>
     is_object (j_prop (Some n) ''data'')"

definition edge_valid :: "json \<Rightarrow> bool" where
  "edge_valid e \<longleftrightarrow> is_object (Some e) \<and> is_text (j_prop (Some e) ''source'') \<and> is_text (j_prop (Some e) ''target'')"

definition node_of :: "json \<Rightarrow> ivr_node" where
  "node_of n = \<lparr>nd_id = text_of (j_prop (Some n) ''id''), nd_type = text_of (j_prop (Some n) ''type''),
     nd_position = j_prop (Some n) ''position'', nd_data = the (j_prop (Some n) ''data''),
     nd_deletable = (case j_prop (Some n) ''deletable'' of Some (J_Bool b) \<Rightarrow> Some b | _ \<Rightarrow> None)\<rparr>"

definition edge_of :: "json \<Rightarrow> ivr_edge" where
  "edge_of e = \<lparr>ed_id = (case j_prop (Some e) ''id'' of Some (J_Str s) \<Rightarrow> Some s | _ \<Rightarrow> None), ed_source = text_of (j_prop (Some e) ''source''),
     ed_handle = (case j_prop (Some e) ''sourceHandle'' of Some (J_Str s) \<Rightarrow> Some s | _ \<Rightarrow> None),
     ed_target = text_of (j_prop (Some e) ''target'')\<rparr>"

definition normalize_import :: "json \<Rightarrow> ivr_flow option" where
  "normalize_import data =
     (case (j_prop (Some data) ''nodes'', j_prop (Some data) ''edges'') of
        (Some (J_Arr ns), Some (J_Arr es)) \<Rightarrow>
          if list_all node_valid ns \<and> list_ex (\<lambda>n. j_prop (Some n) ''type'' = Some (J_Str ''start'')) ns \<and> list_all edge_valid es
          then Some \<lparr>fl_id = [], fl_name = text_of (j_prop (Some data) ''name''), fl_extension = text_of (j_prop (Some data) ''extension''),
            fl_enabled = (case j_prop (Some data) ''enabled'' of Some (J_Bool b) \<Rightarrow> b | _ \<Rightarrow> True),
            fl_nodes = map node_of ns, fl_edges = map edge_of es\<rparr>
          else None
      | _ \<Rightarrow> None)"

definition import_flow :: "json \<Rightarrow> builder \<Rightarrow> builder \<times> (string + unit)" where
  "import_flow data s =
     (if bd_read_only s then (s, Inl ''This flow is read-only.'')
      else case normalize_import data of None \<Rightarrow> (s, Inl ''This file is not a valid IVR flow.'')
      | Some f \<Rightarrow> ((push_history s)\<lparr>bd_name := (if fl_name f = [] then bd_name s else fl_name f),
          bd_extension := (if fl_extension f = [] then bd_extension s else fl_extension f), bd_enabled := fl_enabled f,
          bd_nodes := placed_nodes (fl_nodes f), bd_edges := fl_edges f, bd_selected := None, bd_dirty := True\<rparr>, Inr ()))"

definition export_flow :: "builder \<Rightarrow> ivr_flow" where
  "export_flow s = \<lparr>fl_id = [], fl_name = bd_name s, fl_extension = bd_extension s, fl_enabled = bd_enabled s,
     fl_nodes = bd_nodes s, fl_edges = bd_edges s\<rparr>"

section \<open>The canvas\<close>

definition is_remove :: "node_change \<Rightarrow> bool" where
  "is_remove c \<longleftrightarrow> (case c of Nc_Remove i \<Rightarrow> True | _ \<Rightarrow> False)"

definition is_drag :: "bool \<Rightarrow> node_change \<Rightarrow> bool" where
  "is_drag b c \<longleftrightarrow> (case c of Nc_Position i d p \<Rightarrow> d = Some b | _ \<Rightarrow> False)"

text \<open>One checkpoint per removal and per drag: a drag's first move records, and its last one ends it.\<close>

definition on_nodes_change :: "canvas \<Rightarrow> node_change list \<Rightarrow> builder \<Rightarrow> builder" where
  "on_nodes_change cv cs s =
     (if bd_read_only s
      then s\<lparr>bd_nodes := cv_nodes cv (filter (\<lambda>c. case c of Nc_Select i b \<Rightarrow> True | Nc_Dimensions i \<Rightarrow> True | _ \<Rightarrow> False) cs) (bd_nodes s)\<rparr>
      else let begins = (list_ex (is_drag True) cs \<and> \<not> bd_drag s \<and> \<not> list_ex is_remove cs);
               s1 = (if list_ex is_remove cs \<or> begins then push_history s else s)
           in s1\<lparr>bd_nodes := cv_nodes cv cs (bd_nodes s), bd_dirty := True,
               bd_drag := ((bd_drag s \<or> begins) \<and> \<not> list_ex (is_drag False) cs)\<rparr>)"

definition on_edges_change :: "canvas \<Rightarrow> edge_change list \<Rightarrow> builder \<Rightarrow> builder" where
  "on_edges_change cv cs s =
     (if bd_read_only s
      then s\<lparr>bd_edges := cv_edges cv (filter (\<lambda>c. case c of Ec_Select i b \<Rightarrow> True | _ \<Rightarrow> False) cs) (bd_edges s)\<rparr>
      else let s1 = (if list_ex (\<lambda>c. case c of Ec_Remove i \<Rightarrow> True | _ \<Rightarrow> False) cs then push_history s else s)
           in s1\<lparr>bd_edges := cv_edges cv cs (bd_edges s), bd_dirty := True\<rparr>)"

text \<open>A source handle leads to one place: the edges that left it go.\<close>

definition on_connect :: "canvas \<Rightarrow> connection \<Rightarrow> builder \<Rightarrow> builder" where
  "on_connect cv c s =
     (if bd_read_only s then s
      else (push_history s)\<lparr>bd_edges := cv_connect cv c
          (filter (\<lambda>e. \<not> (ed_source e = cn_source c \<and> ed_handle e = cn_handle c)) (bd_edges s)), bd_dirty := True\<rparr>)"

section \<open>Nodes\<close>

definition node_at :: "string \<Rightarrow> builder \<Rightarrow> ivr_node option" where
  "node_at i s = List.find (\<lambda>n. nd_id n = i) (bd_nodes s)"

definition insert_node :: "ivr_node \<Rightarrow> builder \<Rightarrow> builder" where
  "insert_node n s = (push_history s)\<lparr>bd_nodes := bd_nodes s @ [n], bd_selected := Some (nd_id n), bd_dirty := True\<rparr>"

definition add_node :: "builder_tick \<Rightarrow> ivr_kind \<Rightarrow> json option \<Rightarrow> builder \<Rightarrow> builder" where
  "add_node k kind pos s =
     (if bd_read_only s then s
      else case new_node_id k (kind_name kind) s of (i, s1) \<Rightarrow>
        (case default_node_data k (bd_option_seq s1) kind (bd_extension s) of (d, n) \<Rightarrow>
          insert_node \<lparr>nd_id = i, nd_type = kind_name kind,
            nd_position = Some (or_else pos (xy 360 (80 + of_nat (length (bd_nodes s)) * 40))), nd_data = d, nd_deletable = None\<rparr>
            (s1\<lparr>bd_option_seq := n\<rparr>)))"

text \<open>\<^verbatim>\<open>{ ...data, ...patch }\<close>.\<close>

definition merge_data :: "(string, json) js_map \<Rightarrow> json \<Rightarrow> json" where
  "merge_data patch d = (case d of J_Obj m \<Rightarrow> J_Obj (fold (\<lambda>p. m_set (fst p) (snd p)) patch m) | _ \<Rightarrow> d)"

definition update_node_data :: "string \<Rightarrow> (string, json) js_map \<Rightarrow> builder \<Rightarrow> builder" where
  "update_node_data i patch s =
     (if bd_read_only s then s
      else s\<lparr>bd_nodes := map (\<lambda>n. if nd_id n = i then n\<lparr>nd_data := merge_data patch (nd_data n)\<rparr> else n) (bd_nodes s), bd_dirty := True\<rparr>)"

definition remove_node :: "string \<Rightarrow> builder \<Rightarrow> builder" where
  "remove_node i s =
     (if bd_read_only s \<or> map_option nd_type (node_at i s) = Some ''start'' then s
      else (push_history s)\<lparr>bd_nodes := filter (\<lambda>n. nd_id n \<noteq> i) (bd_nodes s),
        bd_edges := filter (\<lambda>e. ed_source e \<noteq> i \<and> ed_target e \<noteq> i) (bd_edges s),
        bd_selected := (if bd_selected s = Some i then None else bd_selected s), bd_dirty := True\<rparr>)"

definition remove_edge :: "string \<Rightarrow> builder \<Rightarrow> builder" where
  "remove_edge i s =
     (if bd_read_only s then s
      else (push_history s)\<lparr>bd_edges := filter (\<lambda>e. ed_id e \<noteq> Some i) (bd_edges s), bd_dirty := True\<rparr>)"

definition select_node :: "string option \<Rightarrow> builder \<Rightarrow> builder" where
  "select_node i s = s\<lparr>bd_selected := i\<rparr>"

definition get_selected_node :: "builder \<Rightarrow> ivr_node option" where
  "get_selected_node s = List.find (\<lambda>n. Some (nd_id n) = bd_selected s) (bd_nodes s)"

section \<open>Clipboard\<close>

text \<open>The node's data where it may be copied.\<close>

definition copyable :: "string \<Rightarrow> builder \<Rightarrow> json option" where
  "copyable i s = (case node_at i s of None \<Rightarrow> None
     | Some n \<Rightarrow> if data_kind (nd_data n) = Some (J_Str ''start'') then None else Some (nd_data n))"

definition copy_node :: "builder_tick \<Rightarrow> string \<Rightarrow> builder \<Rightarrow> builder" where
  "copy_node k i s = (case Option.bind (copyable i s) (clone_node_data k) of None \<Rightarrow> s | Some d \<Rightarrow> s\<lparr>bd_clipboard := Some d\<rparr>)"

definition cut_node :: "builder_tick \<Rightarrow> string \<Rightarrow> builder \<Rightarrow> builder" where
  "cut_node k i s = (case Option.bind (copyable i s) (clone_node_data k) of None \<Rightarrow> s
     | Some d \<Rightarrow> remove_node i (s\<lparr>bd_clipboard := Some d\<rparr>))"

text \<open>A copy is a node of the data's kind.\<close>

definition insert_copy :: "builder_tick \<Rightarrow> json \<Rightarrow> json \<Rightarrow> builder \<Rightarrow> builder" where
  "insert_copy k d pos s =
     (let kind = text_of (data_kind d)
      in case new_node_id k kind s of (i, s1) \<Rightarrow>
        insert_node \<lparr>nd_id = i, nd_type = kind, nd_position = Some pos, nd_data = d, nd_deletable = None\<rparr> s1)"

definition paste_node :: "builder_tick \<Rightarrow> json option \<Rightarrow> builder \<Rightarrow> builder" where
  "paste_node k pos s =
     (case bd_clipboard s of None \<Rightarrow> s
      | Some c \<Rightarrow> if data_kind c = Some (J_Str ''start'') then s
          else (case clone_node_data k c of None \<Rightarrow> s
            | Some d \<Rightarrow> insert_copy k d (or_else pos (xy 380 (120 + of_nat (length (bd_nodes s)) * 28))) s))"

definition shifted :: "json option \<Rightarrow> json option" where
  "shifted p = (case (j_prop p ''x'', j_prop p ''y'') of (Some (J_Num x), Some (J_Num y)) \<Rightarrow> Some (xy (x + 48) (y + 48)) | _ \<Rightarrow> None)"

definition duplicate_node :: "builder_tick \<Rightarrow> string \<Rightarrow> builder \<Rightarrow> builder" where
  "duplicate_node k i s =
     (case Option.bind (copyable i s) (clone_node_data k) of None \<Rightarrow> s
      | Some d \<Rightarrow> (case Option.bind (node_at i s) (\<lambda>n. shifted (nd_position n)) of
          None \<Rightarrow> s | Some p \<Rightarrow> insert_copy k d p s))"

definition clear_all :: "builder \<Rightarrow> builder" where
  "clear_all s = (push_history s)\<lparr>bd_nodes := (case List.find (\<lambda>n. nd_type n = ''start'') (bd_nodes s) of Some n \<Rightarrow> [n] | None \<Rightarrow> []),
     bd_edges := [], bd_selected := None, bd_dirty := True\<rparr>"

section \<open>Undo and redo\<close>

definition undo :: "builder \<Rightarrow> builder" where
  "undo s = (if bd_past s = [] then s
     else s\<lparr>bd_past := butlast (bd_past s), bd_future := take history_limit (graph s # bd_future s),
       bd_nodes := fst (last (bd_past s)), bd_edges := snd (last (bd_past s)), bd_selected := None, bd_dirty := True\<rparr>)"

definition redo :: "builder \<Rightarrow> builder" where
  "redo s = (case bd_future s of [] \<Rightarrow> s
     | g # gs \<Rightarrow> s\<lparr>bd_past := last_n history_limit (bd_past s @ [graph s]), bd_future := gs,
         bd_nodes := fst g, bd_edges := snd g, bd_selected := None, bd_dirty := True\<rparr>)"

section \<open>Menu options\<close>

text \<open>A menu's options and the digits that follow from them.\<close>

definition with_options :: "json list \<Rightarrow> json \<Rightarrow> json" where
  "with_options os d = set_field ''validDigits'' (J_Str (concat (map (\<lambda>x. text_of (j_prop (Some x) ''digit'')) os)))
     (set_field ''options'' (J_Arr os) d)"

definition is_menu :: "string \<Rightarrow> ivr_node \<Rightarrow> bool" where
  "is_menu i n \<longleftrightarrow> nd_id n = i \<and> data_kind (nd_data n) = Some (J_Str ''menu'')"

text \<open>
  The options of every menu with the identifier, the function given how many such menus went before;
  \<open>None\<close> is the exception of options that are no array.
\<close>

fun map_menus :: "string \<Rightarrow> (nat \<Rightarrow> json list \<Rightarrow> json list) \<Rightarrow> nat \<Rightarrow> ivr_node list \<Rightarrow> ivr_node list option" where
  "map_menus i f j [] = Some []"
| "map_menus i f j (n # ns) =
     (if is_menu i n
      then (case menu_options (nd_data n) of None \<Rightarrow> None
        | Some os \<Rightarrow> map_option ((#) (n\<lparr>nd_data := with_options (f j os) (nd_data n)\<rparr>)) (map_menus i f (Suc j) ns))
      else map_option ((#) n) (map_menus i f j ns))"

definition add_menu_option :: "builder_tick \<Rightarrow> string \<Rightarrow> string \<Rightarrow> builder \<Rightarrow> builder" where
  "add_menu_option k i digit s =
     (case map_menus i (\<lambda>j os. os @ [make_menu_option k (bd_option_seq s + j + 1) digit []]) 0 (bd_nodes s) of None \<Rightarrow> s
      | Some ns \<Rightarrow> (push_history s)\<lparr>bd_nodes := ns, bd_dirty := True,
          bd_option_seq := bd_option_seq s + length (filter (is_menu i) (bd_nodes s))\<rparr>)"

definition option_id :: "json \<Rightarrow> json option" where
  "option_id x = j_prop (Some x) ''id''"

definition update_menu_option :: "string \<Rightarrow> string \<Rightarrow> (string, json) js_map \<Rightarrow> builder \<Rightarrow> builder" where
  "update_menu_option i opt patch s =
     (case map_menus i (\<lambda>j. map (\<lambda>x. if option_id x = Some (J_Str opt) then merge_data patch x else x)) 0 (bd_nodes s) of None \<Rightarrow> s
      | Some ns \<Rightarrow> s\<lparr>bd_nodes := ns, bd_dirty := True\<rparr>)"

definition remove_menu_option :: "string \<Rightarrow> string \<Rightarrow> builder \<Rightarrow> builder" where
  "remove_menu_option i opt s =
     (case map_menus i (\<lambda>j. filter (\<lambda>x. option_id x \<noteq> Some (J_Str opt))) 0 (bd_nodes s) of None \<Rightarrow> s
      | Some ns \<Rightarrow> (push_history s)\<lparr>bd_nodes := ns,
          bd_edges := filter (\<lambda>e. \<not> (ed_source e = i \<and> ed_handle e = Some opt)) (bd_edges s), bd_dirty := True\<rparr>)"

section \<open>Steps\<close>

datatype builder_op =
    Op_Load ivr_flow
  | Op_New string string
  | Op_Save
  | Op_Saved bool
  | Op_Reset
  | Op_Read_Only bool
  | Op_Meta "string option" "string option" "bool option"
  | Op_Import json
  | Op_Nodes "node_change list"
  | Op_Edges "edge_change list"
  | Op_Connect connection
  | Op_Add ivr_kind "json option"
  | Op_Update string "(string, json) js_map"
  | Op_Remove string
  | Op_Remove_Edge string
  | Op_Select "string option"
  | Op_Copy string
  | Op_Cut string
  | Op_Paste "json option"
  | Op_Duplicate string
  | Op_Clear
  | Op_Undo
  | Op_Redo
  | Op_Add_Option string string
  | Op_Update_Option string string "(string, json) js_map"
  | Op_Remove_Option string string

definition builder_step :: "canvas \<Rightarrow> builder_tick \<Rightarrow> builder_op \<Rightarrow> builder \<Rightarrow> builder" where
  "builder_step cv k p s = (case p of
     Op_Load f \<Rightarrow> load_flow f s
   | Op_New name ext \<Rightarrow> start_new_flow k name ext s
   | Op_Save \<Rightarrow> snd (save_begin s)
   | Op_Saved ok \<Rightarrow> save_end ok s
   | Op_Reset \<Rightarrow> reset_builder s
   | Op_Read_Only v \<Rightarrow> set_read_only v s
   | Op_Meta name ext en \<Rightarrow> set_meta name ext en s
   | Op_Import j \<Rightarrow> fst (import_flow j s)
   | Op_Nodes cs \<Rightarrow> on_nodes_change cv cs s
   | Op_Edges cs \<Rightarrow> on_edges_change cv cs s
   | Op_Connect c \<Rightarrow> on_connect cv c s
   | Op_Add kind pos \<Rightarrow> add_node k kind pos s
   | Op_Update i patch \<Rightarrow> update_node_data i patch s
   | Op_Remove i \<Rightarrow> remove_node i s
   | Op_Remove_Edge i \<Rightarrow> remove_edge i s
   | Op_Select i \<Rightarrow> select_node i s
   | Op_Copy i \<Rightarrow> copy_node k i s
   | Op_Cut i \<Rightarrow> cut_node k i s
   | Op_Paste pos \<Rightarrow> paste_node k pos s
   | Op_Duplicate i \<Rightarrow> duplicate_node k i s
   | Op_Clear \<Rightarrow> clear_all s
   | Op_Undo \<Rightarrow> undo s
   | Op_Redo \<Rightarrow> redo s
   | Op_Add_Option i digit \<Rightarrow> add_menu_option k i digit s
   | Op_Update_Option i opt patch \<Rightarrow> update_menu_option i opt patch s
   | Op_Remove_Option i opt \<Rightarrow> remove_menu_option i opt s)"

definition builder_run :: "canvas \<Rightarrow> (builder_tick \<times> builder_op) list \<Rightarrow> builder \<Rightarrow> builder" where
  "builder_run cv = fold (\<lambda>x. builder_step cv (fst x) (snd x))"

section \<open>The canvas library\<close>

text \<open>
  What the library documents of its functions: changes that add and replace nothing keep the nodes and
  the edges that they do not remove, and a connection is one more edge, or none when it is there.
\<close>

definition node_key :: "ivr_node \<Rightarrow> string \<times> string" where
  "node_key n = (nd_id n, nd_type n)"

definition exit_of :: "ivr_edge \<Rightarrow> string \<times> string option" where
  "exit_of e = (ed_source e, ed_handle e)"

definition plain_node_change :: "node_change \<Rightarrow> bool" where
  "plain_node_change c \<longleftrightarrow> (case c of Nc_Add n \<Rightarrow> False | Nc_Replace i n \<Rightarrow> False | _ \<Rightarrow> True)"

definition plain_edge_change :: "edge_change \<Rightarrow> bool" where
  "plain_edge_change c \<longleftrightarrow> (case c of Ec_Add e \<Rightarrow> False | Ec_Replace i e \<Rightarrow> False | _ \<Rightarrow> True)"

definition canvas_laws :: "canvas \<Rightarrow> bool" where
  "canvas_laws cv \<longleftrightarrow>
     (\<forall>cs ns. list_all plain_node_change cs \<longrightarrow>
        map node_key (cv_nodes cv cs ns) = map node_key (filter (\<lambda>n. Nc_Remove (nd_id n) \<notin> set cs) ns)) \<and>
     (\<forall>cs es. list_all plain_edge_change cs \<longrightarrow>
        cv_edges cv cs es = filter (\<lambda>e. case ed_id e of None \<Rightarrow> True | Some i \<Rightarrow> Ec_Remove i \<notin> set cs) es) \<and>
     (\<forall>c es. cv_connect cv c es = es \<or>
        (\<exists>i. cv_connect cv c es = es @ [\<lparr>ed_id = i, ed_source = cn_source c, ed_handle = cn_handle c, ed_target = cn_target c\<rparr>]))"

section \<open>History\<close>

lemma last_n_length [simp]: "length (last_n n xs) = min n (length xs)"
  by (auto simp: last_n_def)

lemma last_n_short: "length xs \<le> n \<Longrightarrow> last_n n xs = xs"
  by (simp add: last_n_def)

lemma last_n_snoc: "last_n (Suc n) (xs @ [x]) = last_n n xs @ [x]"
  by (simp add: last_n_def)

lemma last_n_set: "set (last_n n xs) \<subseteq> set xs"
  by (auto simp: last_n_def dest: in_set_dropD)

lemma last_n_again: "last_n n (last_n n xs @ ys) = last_n n (xs @ ys)"
proof (cases "length xs \<le> n")
  case False
  then show ?thesis
    by (cases "length ys \<le> n") (simp_all add: last_n_def add.commute)
qed (simp add: last_n_short)

lemma last_n_suffix: "length ys \<le> n \<Longrightarrow> \<exists>ps. last_n n (xs @ ys) = ps @ ys"
  by (rule exI [where x = "drop (length xs + length ys - n) xs"]) (simp add: last_n_def)

lemma push_history_simps [simp]:
  "bd_past (push_history s) = last_n history_limit (bd_past s @ [graph s])" "bd_future (push_history s) = []"
  "bd_nodes (push_history s) = bd_nodes s" "bd_edges (push_history s) = bd_edges s" "bd_flow (push_history s) = bd_flow s"
  "bd_read_only (push_history s) = bd_read_only s" "graph (push_history s) = graph s"
  "bd_name (push_history s) = bd_name s" "bd_extension (push_history s) = bd_extension s" "bd_selected (push_history s) = bd_selected s"
  by (simp_all add: push_history_def graph_def)

lemma graph_eqI: "\<lbrakk>bd_nodes t = bd_nodes s; bd_edges t = bd_edges s\<rbrakk> \<Longrightarrow> graph t = graph s"
  by (simp add: graph_def)

lemma take_append_take: "take n (xs @ take n ys) = take n (xs @ ys)"
  by (simp add: min_def)

text \<open>A run of undos walks back along the past, and a run of redos forth along the future.\<close>

lemma undo_snoc:
  assumes "bd_past s = ps @ [g]"
  shows "bd_past (undo s) = ps" and "graph (undo s) = g" and "bd_future (undo s) = take history_limit (graph s # bd_future s)"
  using assms by (simp_all add: undo_def graph_def)

lemma undos_walk_back:
  assumes "bd_past s = ps @ gs"
  shows "bd_past ((undo ^^ length gs) s) = ps \<and> graph ((undo ^^ length gs) s) = hd (gs @ [graph s]) \<and>
    bd_future ((undo ^^ length gs) s) = take history_limit (tl (gs @ [graph s]) @ bd_future s) \<or> gs = []"
  using assms
proof (induction gs arbitrary: s rule: rev_induct)
  case (snoc g gs)
  then have p: "bd_past s = (ps @ gs) @ [g]" by simp
  note u = undo_snoc [OF p]
  have step: "(undo ^^ length (gs @ [g])) s = (undo ^^ length gs) (undo s)"
    by (simp add: funpow_swap1)
  show ?case
  proof (cases "gs = []")
    case True
    then show ?thesis using u step by simp
  next
    case False
    then show ?thesis
      using snoc.IH [OF u(1)] u step take_append_take [of history_limit "tl (gs @ [g])" "graph s # bd_future s"]
      by (simp add: hd_append)
  qed
qed simp

lemma redos_walk_forth:
  assumes "bd_future s = gs @ fs"
  shows "graph ((redo ^^ length gs) s) = last (graph s # gs)"
  using assms
proof (induction gs arbitrary: s)
  case (Cons g gs)
  have "bd_future (redo s) = gs @ fs" "graph (redo s) = g"
    using Cons.prems by (simp_all add: redo_def graph_def)
  then show ?case using Cons.IH [of "redo s"] by (simp add: funpow_swap1)
qed simp

text \<open>An edit either leaves the graph and its history alone or records the graph that it found.\<close>

definition records :: "builder \<Rightarrow> builder \<Rightarrow> bool" where
  "records s t \<longleftrightarrow> bd_past t = last_n history_limit (bd_past s @ [graph s])"

definition untouched :: "builder \<Rightarrow> builder \<Rightarrow> bool" where
  "untouched s t \<longleftrightarrow> bd_past t = bd_past s \<and> graph t = graph s"

definition recorded_op :: "builder_op \<Rightarrow> bool" where
  "recorded_op p \<longleftrightarrow> (case p of Op_Import j \<Rightarrow> True | Op_Connect c \<Rightarrow> True | Op_Add t pos \<Rightarrow> True | Op_Remove i \<Rightarrow> True
     | Op_Remove_Edge i \<Rightarrow> True | Op_Copy i \<Rightarrow> True | Op_Cut i \<Rightarrow> True | Op_Paste pos \<Rightarrow> True | Op_Duplicate i \<Rightarrow> True
     | Op_Clear \<Rightarrow> True | Op_Add_Option i d \<Rightarrow> True | Op_Remove_Option i opt \<Rightarrow> True | Op_Select i \<Rightarrow> True
     | Op_Meta name ext en \<Rightarrow> True | Op_Save \<Rightarrow> True | Op_Saved ok \<Rightarrow> True | Op_Read_Only v \<Rightarrow> True | _ \<Rightarrow> False)"

lemma node_at_frame [simp]: "node_at i (s\<lparr>bd_clipboard := c\<rparr>) = node_at i s"
  by (simp add: node_at_def)

lemmas lifecycle_defs = save_begin_def save_end_def set_meta_def set_read_only_def select_node_def import_flow_def
lemmas node_defs = on_connect_def add_node_def insert_node_def remove_node_def remove_edge_def new_node_id_def insert_copy_def
lemmas copy_defs = copy_node_def cut_node_def paste_node_def duplicate_node_def clear_all_def
lemmas option_defs = add_menu_option_def remove_menu_option_def

lemma edit_recorded:
  assumes "recorded_op p"
  shows "records s (builder_step cv k p s) \<or> untouched s (builder_step cv k p s)"
  using assms
  by (cases p) (auto simp: recorded_op_def builder_step_def records_def untouched_def graph_def push_history_def lifecycle_defs
      node_defs copy_defs option_defs Let_def split_beta split: option.split if_split)

lemma edits_recorded:
  assumes "list_all (\<lambda>x. recorded_op (snd x)) ps" and "length (bd_past s) \<le> history_limit"
  shows "\<exists>gs. length gs \<le> length ps \<and> bd_past (builder_run cv ps s) = last_n history_limit (bd_past s @ gs) \<and>
    hd (gs @ [graph (builder_run cv ps s)]) = graph s"
  using assms
proof (induction ps arbitrary: s)
  case Nil
  then show ?case by (intro exI [where x = "[]"]) (simp add: builder_run_def last_n_short)
next
  case (Cons x ps)
  let ?t = "builder_step cv (fst x) (snd x) s"
  have run: "builder_run cv (x # ps) s = builder_run cv ps ?t" by (simp add: builder_run_def)
  have e: "records s ?t \<or> untouched s ?t" using Cons.prems(1) edit_recorded by simp
  then have "length (bd_past ?t) \<le> history_limit"
    using Cons.prems(2) by (auto simp: records_def untouched_def)
  then obtain gs where gs: "length gs \<le> length ps" "bd_past (builder_run cv ps ?t) = last_n history_limit (bd_past ?t @ gs)"
      "hd (gs @ [graph (builder_run cv ps ?t)]) = graph ?t"
    using Cons.IH [of ?t] Cons.prems(1) by auto
  from e show ?case
  proof
    assume "records s ?t"
    then have "bd_past (builder_run cv ps ?t) = last_n history_limit (bd_past s @ graph s # gs)"
      using gs(2) by (simp add: records_def last_n_again)
    then show ?thesis using gs(1) run by (intro exI [where x = "graph s # gs"]) simp
  next
    assume "untouched s ?t"
    then show ?thesis using gs run by (intro exI [where x = gs]) (simp add: untouched_def)
  qed
qed

text \<open>C21: Edits are undone and redone: after at most fifty operations of the store that record what they change, some
  number of undos, no more than there were operations, brings back the graph that stood before them, and as many redos
  bring back the graph that they made.\<close>

theorem edits_undone_redone:
  assumes "list_all (\<lambda>x. recorded_op (snd x)) ps" and "length ps \<le> history_limit" and "length (bd_past s) \<le> history_limit"
  shows "\<exists>n\<le>length ps. graph ((undo ^^ n) (builder_run cv ps s)) = graph s \<and>
    graph ((redo ^^ n) ((undo ^^ n) (builder_run cv ps s))) = graph (builder_run cv ps s)"
proof -
  let ?t = "builder_run cv ps s"
  obtain gs where gs: "length gs \<le> length ps" "bd_past ?t = last_n history_limit (bd_past s @ gs)" "hd (gs @ [graph ?t]) = graph s"
    using edits_recorded [OF assms(1,3)] by blast
  obtain qs where "bd_past ?t = qs @ gs"
    using last_n_suffix [of gs history_limit "bd_past s"] gs assms(2) by auto
  note u = undos_walk_back [OF this]
  have "graph ((undo ^^ length gs) ?t) = graph s" using u gs(3) by auto
  moreover have "graph ((redo ^^ length gs) ((undo ^^ length gs) ?t)) = graph ?t"
  proof (cases gs)
    case (Cons g hs)
    let ?f = "hs @ [graph ?t]"
    have "bd_future ((undo ^^ length gs) ?t) = ?f @ take (history_limit - length ?f) (bd_future ?t)"
      using u Cons gs(1) assms(2) by (simp add: take_Cons')
    from redos_walk_forth [OF this] show ?thesis using Cons by simp
  qed simp
  ultimately show ?thesis using gs(1) by blast
qed

definition plain_canvas :: canvas where
  "plain_canvas = \<lparr>cv_nodes = (\<lambda>cs. filter (\<lambda>n. Nc_Remove (nd_id n) \<notin> set cs)),
     cv_edges = (\<lambda>cs. filter (\<lambda>e. case ed_id e of None \<Rightarrow> True | Some i \<Rightarrow> Ec_Remove i \<notin> set cs)),
     cv_connect = (\<lambda>c es. es @ [\<lparr>ed_id = None, ed_source = cn_source c, ed_handle = cn_handle c, ed_target = cn_target c\<rparr>])\<rparr>"

definition tick0 :: builder_tick where
  "tick0 = \<lparr>bt_stamp = ''m0'', bt_random = (\<lambda>n. ''r'' @ show_nat n)\<rparr>"

theorem edits_undone_redone_witness:
  "\<exists>n\<le>3. graph ((undo ^^ n) (builder_run plain_canvas [(tick0, Op_Add K_Play None), (tick0, Op_Connect
       \<lparr>cn_source = ''start_m0_1'', cn_handle = None, cn_target = ''play_m0_2''\<rparr>), (tick0, Op_Clear)]
       (start_new_flow tick0 ''Main'' ''5000'' new_builder)))
     = graph (start_new_flow tick0 ''Main'' ''5000'' new_builder)"
proof -
  let ?s = "start_new_flow tick0 ''Main'' ''5000'' new_builder"
  let ?ps = "[(tick0, Op_Add K_Play None), (tick0, Op_Connect
       \<lparr>cn_source = ''start_m0_1'', cn_handle = None, cn_target = ''play_m0_2''\<rparr>), (tick0, Op_Clear)]"
  have "bd_past ?s = []" by (simp add: start_new_flow_def open_flow_def split_beta)
  then show ?thesis
    using edits_undone_redone [where ps = ?ps and s = ?s and cv = plain_canvas]
    by (simp add: recorded_op_def history_limit_def numeral_3_eq_3) blast
qed

section \<open>The entry and the exits\<close>

text \<open>A flow has its entry, and nothing else goes by the entry's name; an exit of a node leads to one place.\<close>

definition start_ok :: "ivr_node list \<Rightarrow> bool" where
  "start_ok ns \<longleftrightarrow> list_ex (\<lambda>n. nd_type n = ''start'') ns \<and>
     list_all (\<lambda>n. nd_type n = ''start'' \<longrightarrow> list_all (\<lambda>m. nd_id m = nd_id n \<longrightarrow> nd_type m = ''start'') ns) ns"

definition exits_ok :: "ivr_edge list \<Rightarrow> bool" where
  "exits_ok es \<longleftrightarrow> distinct (map exit_of es)"

definition builder_ok :: "builder \<Rightarrow> bool" where
  "builder_ok s \<longleftrightarrow> length (bd_past s) \<le> history_limit \<and> length (bd_future s) \<le> history_limit \<and>
     list_all (\<lambda>g. exits_ok (snd g) \<and> (bd_flow s \<noteq> None \<longrightarrow> start_ok (fst g))) (graph s # bd_past s @ bd_future s)"

lemma key_iff: "(i, t) \<in> node_key ` set ns \<longleftrightarrow> (\<exists>n\<in>set ns. nd_id n = i \<and> nd_type n = t)"
  by (auto simp: node_key_def)

lemma start_ok_iff:
  "start_ok ns \<longleftrightarrow> (\<exists>i. (i, ''start'') \<in> node_key ` set ns) \<and>
     (\<forall>i t. (i, ''start'') \<in> node_key ` set ns \<and> (i, t) \<in> node_key ` set ns \<longrightarrow> t = ''start'')"
  unfolding start_ok_def list_ex_iff list_all_iff key_iff by blast

lemma start_ok_keys: "node_key ` set ns = node_key ` set ms \<Longrightarrow> start_ok ns = start_ok ms"
  by (simp add: start_ok_iff)

lemma start_ok_map_keys: "map node_key ns = map node_key ms \<Longrightarrow> start_ok ns = start_ok ms"
  by (rule start_ok_keys) (metis list.set_map)

lemma start_ok_filter: "\<lbrakk>start_ok ns; \<And>n. \<lbrakk>n \<in> set ns; nd_type n = ''start''\<rbrakk> \<Longrightarrow> P n\<rbrakk> \<Longrightarrow> start_ok (filter P ns)"
  by (auto simp: start_ok_def list_ex_iff list_all_iff)

lemma start_ok_snoc: "\<lbrakk>start_ok ns; \<And>m. m \<in> set ns \<Longrightarrow> nd_id m \<noteq> nd_id n\<rbrakk> \<Longrightarrow> start_ok (ns @ [n])"
  unfolding start_ok_def list_ex_iff list_all_iff by (metis Un_iff empty_iff insert_iff list.set set_append)

lemma exits_ok_filter: "exits_ok es \<Longrightarrow> exits_ok (filter P es)"
  by (simp add: exits_ok_def distinct_map_filter)

lemma placed_node_key [simp]: "node_key (placed_node i n) = node_key n"
  by (simp add: placed_node_def with_safe_position_def node_key_def Let_def)

lemma placed_nodes_keys: "map node_key (placed_nodes ns) = map node_key ns"
  by (simp add: placed_nodes_def comp_def) (metis (no_types, lifting) map_eq_conv map_map comp_apply map_snd_enumerate)

lemma map_menus_keys: "map_menus i f j ns = Some ms \<Longrightarrow> map node_key ms = map node_key ns"
  by (induction ns arbitrary: j ms) (auto simp: node_key_def split: if_splits option.splits)

text \<open>What an operation brings from outside: the flow of a load or of a file, the library's changes, and a fresh name.\<close>

definition fresh_name :: "builder_tick \<Rightarrow> builder \<Rightarrow> bool" where
  "fresh_name k s \<longleftrightarrow> list_all (\<lambda>n. \<not> suffix (''_'' @ bt_stamp k @ ''_'' @ show_nat (bd_node_seq s + 1)) (nd_id n)) (bd_nodes s)"

definition op_ok :: "builder_tick \<Rightarrow> builder_op \<Rightarrow> builder \<Rightarrow> bool" where
  "op_ok k p s \<longleftrightarrow> (case p of
     Op_Load f \<Rightarrow> start_ok (fl_nodes f) \<and> exits_ok (fl_edges f)
   | Op_Import j \<Rightarrow> (case normalize_import j of None \<Rightarrow> True | Some f \<Rightarrow> start_ok (fl_nodes f) \<and> exits_ok (fl_edges f))
   | Op_Nodes cs \<Rightarrow> list_all plain_node_change cs \<and>
       list_all (\<lambda>n. nd_type n = ''start'' \<longrightarrow> Nc_Remove (nd_id n) \<notin> set cs) (bd_nodes s)
   | Op_Edges cs \<Rightarrow> list_all plain_edge_change cs
   | Op_Add t pos \<Rightarrow> fresh_name k s
   | Op_Paste pos \<Rightarrow> fresh_name k s
   | Op_Duplicate i \<Rightarrow> fresh_name k s
   | _ \<Rightarrow> True)"

lemma fresh_name_new: "\<lbrakk>fresh_name k s; m \<in> set (bd_nodes s)\<rbrakk> \<Longrightarrow> nd_id m \<noteq> fst (new_node_id k t s)"
  by (auto simp: fresh_name_def list_all_iff new_node_id_def suffix_def)

text \<open>What an operation leaves of the history, in four ways.\<close>

lemma ok_recorded:
  assumes "builder_ok s" and "bd_past t = last_n history_limit (bd_past s @ [graph s])" and "bd_future t = []"
    and "bd_flow t = bd_flow s" and "exits_ok (bd_edges t)" and "bd_flow s \<noteq> None \<Longrightarrow> start_ok (bd_nodes t)"
  shows "builder_ok t"
proof -
  have "set (bd_past t) \<subseteq> insert (graph s) (set (bd_past s))"
    using last_n_set [of history_limit "bd_past s @ [graph s]"] assms(2) by auto
  then show ?thesis
    using assms unfolding builder_ok_def list_all_iff by (auto simp: graph_def dest!: subsetD)
qed

lemma ok_kept:
  assumes "builder_ok s" and "bd_past t = bd_past s" and "bd_future t = bd_future s" and "bd_flow t = bd_flow s"
    and "exits_ok (bd_edges t)" and "bd_flow s \<noteq> None \<Longrightarrow> start_ok (bd_nodes t)"
  shows "builder_ok t"
  using assms by (auto simp: builder_ok_def list_all_iff graph_def)

text \<open>An operation that edits the graph records what it found, or keeps the history.\<close>

definition edited :: "builder \<Rightarrow> builder \<Rightarrow> bool" where
  "edited s t \<longleftrightarrow> bd_past t = last_n history_limit (bd_past s @ [graph s]) \<and> bd_future t = [] \<or>
     bd_past t = bd_past s \<and> bd_future t = bd_future s"

lemma ok_edited:
  assumes "builder_ok s" and "edited s t" and "bd_flow t = bd_flow s" and "exits_ok (bd_edges t)"
    and "bd_flow s \<noteq> None \<Longrightarrow> start_ok (bd_nodes t)"
  shows "builder_ok t"
  using assms(2) ok_recorded [OF assms(1) _ _ assms(3-5)] ok_kept [OF assms(1) _ _ assms(3-5)] by (auto simp: edited_def)

lemma ok_opened:
  assumes "bd_past t = []" and "bd_future t = []" and "exits_ok (bd_edges t)" and "bd_flow t \<noteq> None \<Longrightarrow> start_ok (bd_nodes t)"
  shows "builder_ok t"
  using assms by (auto simp: builder_ok_def list_all_iff graph_def)

lemma ok_graph:
  assumes "builder_ok s"
  shows "exits_ok (bd_edges s)" and "bd_flow s \<noteq> None \<Longrightarrow> start_ok (bd_nodes s)"
  using assms by (auto simp: builder_ok_def graph_def)

lemma ok_same: "\<lbrakk>builder_ok s; bd_past t = bd_past s; bd_future t = bd_future s; bd_flow t = bd_flow s; graph t = graph s\<rbrakk> \<Longrightarrow> builder_ok t"
  by (simp add: builder_ok_def)

lemma load_ok: "\<lbrakk>start_ok (fl_nodes f); exits_ok (fl_edges f)\<rbrakk> \<Longrightarrow> builder_ok (load_flow f s)"
  by (rule ok_opened) (simp_all add: load_flow_def open_flow_def start_ok_map_keys [OF placed_nodes_keys])

lemma new_flow_ok: "builder_ok (start_new_flow k name ext s)"
  by (rule ok_opened) (simp_all add: start_new_flow_def open_flow_def create_empty_flow_def split_beta new_node_id_def
      exits_ok_def start_ok_def)

lemma import_ok:
  assumes "builder_ok s" and "op_ok k (Op_Import j) s"
  shows "builder_ok (fst (import_flow j s))"
proof (cases "bd_read_only s \<or> normalize_import j = None")
  case True
  then show ?thesis using assms by (auto simp: import_flow_def)
next
  case False
  then obtain f where f: "normalize_import j = Some f" "\<not> bd_read_only s" by auto
  show ?thesis
    by (rule ok_recorded [OF assms(1)]) (use f assms(2) in \<open>simp_all add: import_flow_def op_ok_def start_ok_map_keys [OF placed_nodes_keys]\<close>)
qed

lemma canvas_nodes_ok:
  assumes "canvas_laws cv" and "list_all plain_node_change cs" and "start_ok ns"
    and "list_all (\<lambda>n. nd_type n = ''start'' \<longrightarrow> Nc_Remove (nd_id n) \<notin> set cs) ns"
  shows "start_ok (cv_nodes cv cs ns)"
proof -
  have "map node_key (cv_nodes cv cs ns) = map node_key (filter (\<lambda>n. Nc_Remove (nd_id n) \<notin> set cs) ns)"
    using assms(1,2) unfolding canvas_laws_def by blast
  moreover have "start_ok (filter (\<lambda>n. Nc_Remove (nd_id n) \<notin> set cs) ns)"
    by (rule start_ok_filter [OF assms(3)]) (use assms(4) in \<open>auto simp: list_all_iff\<close>)
  ultimately show ?thesis using start_ok_map_keys by blast
qed

lemma nodes_change_ok:
  assumes "builder_ok s" and "canvas_laws cv" and "op_ok k (Op_Nodes cs) s"
  shows "builder_ok (on_nodes_change cv cs s)"
proof -
  have cs: "list_all plain_node_change cs"
      "list_all (\<lambda>n. nd_type n = ''start'' \<longrightarrow> Nc_Remove (nd_id n) \<notin> set cs) (bd_nodes s)"
    using assms(3) by (simp_all add: op_ok_def)
  have sub: "start_ok (bd_nodes s) \<Longrightarrow> start_ok (cv_nodes cv (filter P cs) (bd_nodes s))" for P
    by (rule canvas_nodes_ok [OF assms(2)]) (use cs in \<open>auto simp: list_all_iff\<close>)
  note g = ok_graph [OF assms(1)] and all = sub [of "\<lambda>c. True", simplified]
  let ?t = "on_nodes_change cv cs s"
  have frame: "bd_flow ?t = bd_flow s" "bd_edges ?t = bd_edges s"
    by (simp_all add: on_nodes_change_def Let_def)
  have nodes: "start_ok (bd_nodes s) \<Longrightarrow> start_ok (bd_nodes ?t)"
    using sub all by (simp add: on_nodes_change_def Let_def)
  have "edited s ?t" by (auto simp: edited_def on_nodes_change_def Let_def)
  then show ?thesis by (rule ok_edited [OF assms(1)]) (use frame g nodes in simp_all)
qed

lemma edges_change_ok:
  assumes "builder_ok s" and "canvas_laws cv" and "list_all plain_edge_change cs"
  shows "builder_ok (on_edges_change cv cs s)"
proof -
  have e: "exits_ok (cv_edges cv (filter P cs) (bd_edges s))" for P
  proof -
    have "list_all plain_edge_change (filter P cs)" using assms(3) by (auto simp: list_all_iff)
    then have "\<exists>Q. cv_edges cv (filter P cs) (bd_edges s) = filter Q (bd_edges s)"
      using assms(2) unfolding canvas_laws_def by blast
    then show ?thesis using exits_ok_filter ok_graph(1) [OF assms(1)] by metis
  qed
  note g = ok_graph [OF assms(1)] and all = e [of "\<lambda>c. True", simplified]
  let ?t = "on_edges_change cv cs s"
  have frame: "bd_flow ?t = bd_flow s" "bd_nodes ?t = bd_nodes s" "exits_ok (bd_edges ?t)"
    using e all by (simp_all add: on_edges_change_def Let_def)
  have "edited s ?t" by (auto simp: edited_def on_edges_change_def Let_def)
  then show ?thesis by (rule ok_edited [OF assms(1)]) (use frame g in simp_all)
qed

lemma connect_ok:
  assumes "builder_ok s" and "canvas_laws cv"
  shows "builder_ok (on_connect cv c s)"
proof (cases "bd_read_only s")
  case False
  let ?es = "filter (\<lambda>e. \<not> (ed_source e = cn_source c \<and> ed_handle e = cn_handle c)) (bd_edges s)"
  have es: "exits_ok ?es" using ok_graph(1) [OF assms(1)] by (rule exits_ok_filter)
  have "exits_ok (cv_connect cv c ?es)"
    using assms(2) es unfolding canvas_laws_def exits_ok_def
    by (auto dest!: spec [where x = c] spec [where x = ?es] simp: exit_of_def)
  then show ?thesis
    by (intro ok_recorded [OF assms(1)]) (use False ok_graph [OF assms(1)] in \<open>simp_all add: on_connect_def\<close>)
qed (simp add: on_connect_def assms(1))


lemma insert_node_ok:
  assumes "builder_ok s" and "\<And>m. m \<in> set (bd_nodes s) \<Longrightarrow> nd_id m \<noteq> nd_id n"
  shows "builder_ok (insert_node n s)"
  by (rule ok_recorded [OF assms(1)]) (use ok_graph [OF assms(1)] start_ok_snoc assms(2) in \<open>simp_all add: insert_node_def\<close>)

lemma seq_frame:
  "builder_ok (s\<lparr>bd_node_seq := a\<rparr>) = builder_ok s" "builder_ok (s\<lparr>bd_option_seq := b\<rparr>) = builder_ok s"
  "builder_ok (s\<lparr>bd_clipboard := c\<rparr>) = builder_ok s"
  by (simp_all add: builder_ok_def graph_def)

lemma add_node_ok:
  assumes "builder_ok s" and "fresh_name k s"
  shows "builder_ok (add_node k kind pos s)"
  using assms fresh_name_new [OF assms(2)]
  by (auto simp: add_node_def split_beta seq_frame new_node_id_def intro!: insert_node_ok)

lemma insert_copy_ok:
  assumes "builder_ok s" and "fresh_name k s"
  shows "builder_ok (insert_copy k d pos s)"
  using assms fresh_name_new [OF assms(2)]
  by (auto simp: insert_copy_def Let_def split_beta seq_frame new_node_id_def intro!: insert_node_ok)

lemma find_at: "List.find P xs = Some x \<Longrightarrow> x \<in> set xs \<and> P x"
  by (auto simp: find_Some_iff)

lemma start_not_named:
  assumes "start_ok (bd_nodes s)" and "n \<in> set (bd_nodes s)" and "nd_type n = ''start''"
    and "map_option nd_type (node_at i s) \<noteq> Some ''start''"
  shows "nd_id n \<noteq> i"
proof
  assume i: "nd_id n = i"
  have "node_at i s \<noteq> None"
    using assms(2) i find_None_iff [of "\<lambda>n. nd_id n = i" "bd_nodes s"] by (auto simp only: node_at_def)
  then obtain m where m: "node_at i s = Some m" by blast
  note at = find_at [OF m [unfolded node_at_def]]
  have "list_all (\<lambda>m. nd_id m = nd_id n \<longrightarrow> nd_type m = ''start'') (bd_nodes s)"
    using assms(1-3) by (simp only: start_ok_def list_all_iff) blast
  then have "nd_type m = ''start''" using at i by (simp add: list_all_iff)
  then show False using assms(4) m by simp
qed

lemma remove_node_ok:
  assumes "builder_ok s"
  shows "builder_ok (remove_node i s)"
proof (cases "bd_read_only s \<or> map_option nd_type (node_at i s) = Some ''start''")
  case False
  then have b: "(bd_read_only s \<or> map_option nd_type (node_at i s) = Some ''start'') = False" by blast
  note step = remove_node_def [of i s, unfolded b if_False]
  have keep: "nd_id n \<noteq> i" if "start_ok (bd_nodes s)" "n \<in> set (bd_nodes s)" "nd_type n = ''start''" for n
    using start_not_named [OF that] False by blast
  show ?thesis
  proof (rule ok_recorded [OF assms])
    show "exits_ok (bd_edges (remove_node i s))"
      using exits_ok_filter [OF ok_graph(1) [OF assms]] by (simp add: step)
    show "start_ok (bd_nodes (remove_node i s))" if "bd_flow s \<noteq> None"
      using start_ok_filter [OF ok_graph(2) [OF assms that], of "\<lambda>n. nd_id n \<noteq> i"] keep [OF ok_graph(2) [OF assms that]] by (simp add: step)
  qed (simp_all add: step)
qed (auto simp: remove_node_def assms)

lemma clear_all_ok:
  assumes "builder_ok s"
  shows "builder_ok (clear_all s)"
  using ok_graph [OF assms]
  by (intro ok_recorded [OF assms])
     (auto simp: clear_all_def exits_ok_def start_ok_def list_ex_iff find_None_iff split: option.split dest: find_at)

lemma undo_ok:
  assumes "builder_ok s"
  shows "builder_ok (undo s)"
proof (cases "bd_past s = []")
  case False
  then obtain gs g where "bd_past s = gs @ [g]" by (metis rev_exhaust)
  moreover from this have "set (bd_future (undo s)) \<subseteq> insert (graph s) (set (bd_future s))"
    by (auto simp: undo_def dest!: in_set_takeD)
  ultimately show ?thesis
    using assms by (cases g) (auto simp: undo_def builder_ok_def list_all_iff graph_def dest!: subsetD)
qed (simp add: undo_def assms)

lemma redo_ok:
  assumes "builder_ok s"
  shows "builder_ok (redo s)"
proof (cases "bd_future s")
  case (Cons g gs)
  have "set (bd_past (redo s)) \<subseteq> insert (graph s) (set (bd_past s))"
    using last_n_set [of history_limit "bd_past s @ [graph s]"] Cons by (auto simp: redo_def)
  then show ?thesis
    using assms Cons by (cases g) (auto simp: redo_def builder_ok_def list_all_iff graph_def dest!: subsetD)
qed (simp add: redo_def assms)

lemma update_node_data_ok:
  assumes "builder_ok s"
  shows "builder_ok (update_node_data i patch s)"
proof -
  have "map node_key (map (\<lambda>n. if nd_id n = i then n\<lparr>nd_data := merge_data patch (nd_data n)\<rparr> else n) ns) = map node_key ns" for ns
    by (auto simp: node_key_def)
  then have "start_ok (map (\<lambda>n. if nd_id n = i then n\<lparr>nd_data := merge_data patch (nd_data n)\<rparr> else n) ns) = start_ok ns" for ns
    by (rule start_ok_map_keys)
  then show ?thesis
    using ok_graph [OF assms] by (intro ok_edited [OF assms]) (simp_all add: update_node_data_def edited_def)
qed

lemma options_ok:
  assumes "builder_ok s"
  shows "builder_ok (add_menu_option k i digit s)" and "builder_ok (update_menu_option i opt patch s)"
    and "builder_ok (remove_menu_option i opt s)"
proof -
  note g = ok_graph [OF assms] and keys = start_ok_map_keys [OF map_menus_keys]
  show "builder_ok (add_menu_option k i digit s)"
    by (rule ok_edited [OF assms]) (use g keys in \<open>auto simp: add_menu_option_def edited_def split: option.splits\<close>)
  show "builder_ok (update_menu_option i opt patch s)"
    by (rule ok_edited [OF assms]) (use g keys in \<open>auto simp: update_menu_option_def edited_def split: option.splits\<close>)
  show "builder_ok (remove_menu_option i opt s)"
    by (rule ok_edited [OF assms]) (use g keys in \<open>auto simp: remove_menu_option_def edited_def split: option.splits intro: exits_ok_filter\<close>)
qed


lemma copy_ok:
  assumes "builder_ok s"
  shows "builder_ok (copy_node k i s)" and "builder_ok (cut_node k i s)"
    and "fresh_name k s \<Longrightarrow> builder_ok (paste_node k pos s)" and "fresh_name k s \<Longrightarrow> builder_ok (duplicate_node k i s)"
  using assms
  by (auto simp: copy_defs seq_frame insert_copy_ok remove_node_ok split: option.split)

lemma plain_ok:
  assumes "builder_ok s"
  shows "builder_ok (snd (save_begin s))" and "builder_ok (save_end ok s)" and "builder_ok (set_read_only v s)"
    and "builder_ok (set_meta name ext en s)" and "builder_ok (select_node i' s)" and "builder_ok (remove_edge i s)"
  using ok_graph [OF assms]
  by (auto intro!: ok_edited [OF assms] exits_ok_filter simp: edited_def lifecycle_defs remove_edge_def split: option.splits)

lemma reset_ok: "builder_ok (reset_builder s)"
  by (rule ok_opened) (simp_all add: reset_builder_def exits_ok_def)

text \<open>Every operation keeps the builder's invariant.\<close>

lemma builder_step_ok:
  assumes "builder_ok s" and "canvas_laws cv" and "op_ok k p s"
  shows "builder_ok (builder_step cv k p s)"
proof (cases p)
  case (Op_Edges cs)
  then show ?thesis using assms edges_change_ok by (simp add: builder_step_def op_ok_def)
qed (use assms load_ok new_flow_ok import_ok nodes_change_ok connect_ok add_node_ok remove_node_ok clear_all_ok undo_ok redo_ok
      update_node_data_ok options_ok copy_ok plain_ok reset_ok in \<open>simp_all add: builder_step_def op_ok_def\<close>)


section \<open>What the store promises\<close>

inductive builder_reached :: "canvas \<Rightarrow> builder \<Rightarrow> bool" for cv where
  opened: "builder_reached cv new_builder"
| stepped: "\<lbrakk>builder_reached cv s; op_ok k p s\<rbrakk> \<Longrightarrow> builder_reached cv (builder_step cv k p s)"

lemma reached_ok: "\<lbrakk>builder_reached cv s; canvas_laws cv\<rbrakk> \<Longrightarrow> builder_ok s"
proof (induction rule: builder_reached.induct)
  case opened
  show ?case by (rule ok_opened) (simp_all add: new_builder_def exits_ok_def)
next
  case (stepped s k p)
  then show ?case using builder_step_ok by blast
qed

text \<open>C15: Whatever is done in the flow builder, in any order, the undo and the redo history hold fifty graphs at most, and in
  the graph on the canvas and in every graph of the history an exit of a node (a digit of a menu, say) leads to one place
  at most; while a flow is open, each of them also has its entry. The canvas library is assumed to keep what it is not told
  to remove, the entry to be undeletable there, and the flows loaded and imported to have these properties.\<close>

theorem builder_keeps_entry_and_exits:
  assumes "builder_reached cv s" and "canvas_laws cv" and "g \<in> set (graph s # bd_past s @ bd_future s)"
  shows "length (bd_past s) \<le> 50 \<and> length (bd_future s) \<le> 50 \<and> distinct (map exit_of (snd g)) \<and>
    (bd_flow s \<noteq> None \<longrightarrow> list_ex (\<lambda>n. nd_type n = ''start'') (fst g))"
  using reached_ok [OF assms(1,2)] assms(3)
  by (auto simp: builder_ok_def list_all_iff history_limit_def exits_ok_def start_ok_def)

lemma plain_canvas_laws: "canvas_laws plain_canvas"
  by (simp add: canvas_laws_def plain_canvas_def)

definition drawn :: builder where
  "drawn = builder_step plain_canvas tick0 (Op_Remove ''start_m0_1'') (builder_step plain_canvas tick0
     (Op_Connect \<lparr>cn_source = ''start_m0_1'', cn_handle = None, cn_target = ''play_m0_2''\<rparr>)
     (builder_step plain_canvas tick0 (Op_Add K_Play None)
     (builder_step plain_canvas tick0 (Op_New ''Main'' ''5000'') new_builder)))"

theorem builder_keeps_entry_and_exits_witness:
  "builder_reached plain_canvas drawn \<and> bd_flow drawn \<noteq> None \<and> length (bd_past drawn) = 2 \<and> list_ex (\<lambda>n. nd_type n = ''start'') (bd_nodes drawn)"
proof -
  have "fresh_name tick0 (builder_step plain_canvas tick0 (Op_New ''Main'' ''5000'') new_builder)"
    by code_simp
  then have r: "builder_reached plain_canvas drawn"
    unfolding drawn_def by (intro stepped opened) (simp_all add: op_ok_def)
  moreover have f: "bd_flow drawn \<noteq> None" by code_simp
  moreover have "length (bd_past drawn) = 2" by code_simp
  moreover have "graph drawn \<in> set (graph drawn # bd_past drawn @ bd_future drawn)" by simp
  from builder_keeps_entry_and_exits [OF r plain_canvas_laws this] f
  have "list_ex (\<lambda>n. nd_type n = ''start'') (bd_nodes drawn)" by (simp add: graph_def)
  ultimately show ?thesis by blast
qed

definition guarded_op :: "builder_op \<Rightarrow> bool" where
  "guarded_op p \<longleftrightarrow> (case p of Op_Meta name ext en \<Rightarrow> True | Op_Import j \<Rightarrow> True | Op_Connect c \<Rightarrow> True | Op_Add t pos \<Rightarrow> True
     | Op_Update i patch \<Rightarrow> True | Op_Remove i \<Rightarrow> True | Op_Remove_Edge i \<Rightarrow> True | _ \<Rightarrow> False)"

text \<open>In a flow shown read-only, changing the meta data, importing, connecting, adding, updating or removing does
  nothing at all; but pasting still adds a node, clearing still drops every node but the entry and every edge, undo still
  goes back and redo forth, and adding or removing a menu's option still changes the graph: these operations do not look at
  the flag of which the store says that all mutations are no-ops.\<close>

theorem read_only_leaks:
  assumes "bd_read_only s"
  shows "(guarded_op p \<longrightarrow> builder_step cv k p s = s) \<and>
    bd_nodes (builder_step cv k Op_Clear s) = (case List.find (\<lambda>n. nd_type n = ''start'') (bd_nodes s) of Some n \<Rightarrow> [n] | None \<Rightarrow> []) \<and>
    bd_edges (builder_step cv k Op_Clear s) = [] \<and>
    (bd_past s \<noteq> [] \<longrightarrow> graph (builder_step cv k Op_Undo s) = last (bd_past s)) \<and>
    (bd_future s \<noteq> [] \<longrightarrow> graph (builder_step cv k Op_Redo s) = hd (bd_future s)) \<and>
    (\<forall>d. bd_clipboard s = Some d \<and> data_kind d = Some (J_Str ''play'') \<longrightarrow>
       length (bd_nodes (builder_step cv k (Op_Paste None) s)) = Suc (length (bd_nodes s)))"
  using assms
  by (auto simp: guarded_op_def builder_step_def set_meta_def import_flow_def on_connect_def add_node_def update_node_data_def remove_node_def
      remove_edge_def clear_all_def undo_def redo_def graph_def paste_node_def clone_node_data_def insert_copy_def Let_def split_beta
      insert_node_def new_node_id_def split: builder_op.splits list.splits)

theorem read_only_leaks_witness:
  "length (bd_nodes (set_read_only True drawn)) = 2 \<and>
   map nd_id (bd_nodes (builder_step plain_canvas tick0 Op_Clear (set_read_only True drawn))) = [''start_m0_1'']"
proof -
  have "bd_read_only (set_read_only True drawn)" by (simp add: set_read_only_def)
  from read_only_leaks [where s = "set_read_only True drawn" and cv = plain_canvas and k = tick0 and p = Op_Clear, OF this]
  have "bd_nodes (builder_step plain_canvas tick0 Op_Clear (set_read_only True drawn)) =
      (case List.find (\<lambda>n. nd_type n = ''start'') (bd_nodes (set_read_only True drawn)) of Some n \<Rightarrow> [n] | None \<Rightarrow> [])"
    by blast
  moreover have "length (bd_nodes (set_read_only True drawn)) = 2 \<and> map_option nd_id (List.find (\<lambda>n. nd_type n = ''start'') (bd_nodes (set_read_only True drawn)))
      = Some ''start_m0_1''" by code_simp
  ultimately show ?thesis by auto
qed

text \<open>A save sends the graph as it is when it begins. What is edited while the request is under way is not sent, but the
  answer marks the flow as saved: the flow is clean although its graph is not the one that was sent.\<close>

theorem save_forgets_edits:
  assumes "bd_flow s = Some i" and "i \<noteq> []" and "\<not> bd_read_only s"
  shows "\<exists>f. fst (save_begin s) = Some f \<and> (fl_nodes f, fl_edges f) = graph s \<and>
    (let t = save_end True (add_node k kind pos (snd (save_begin s)))
     in \<not> bd_dirty t \<and> \<not> bd_saving t \<and> length (bd_nodes t) = Suc (length (fl_nodes f)))"
  using assms by (auto simp: save_begin_def save_end_def add_node_def graph_def insert_node_def new_node_id_def Let_def split_beta)

theorem save_forgets_edits_witness:
  "\<exists>f. fst (save_begin drawn) = Some f \<and>
    \<not> bd_dirty (save_end True (add_node tick0 K_Hangup None (snd (save_begin drawn)))) \<and>
    length (bd_nodes (save_end True (add_node tick0 K_Hangup None (snd (save_begin drawn))))) = Suc (length (fl_nodes f))"
proof -
  have "bd_flow drawn = Some ''flow_m0_r0''" and "\<not> bd_read_only drawn" by code_simp+
  from save_forgets_edits [OF this(1) _ this(2), where k = tick0 and kind = K_Hangup and pos = None]
  show ?thesis by (auto simp: Let_def)
qed

end
