(* ===== verification/Phone_Line.thy ===== *)
theory Phone_Line
  imports Prelude
begin

text \<open>
  The registration of the web phone: \<^verbatim>\<open>register\<close> and \<^verbatim>\<open>disconnect\<close> of
  \<^verbatim>\<open>src/web/app/hooks/useSipPhone.ts\<close>. Both are asynchronous: a call that waits is an entry of the list of
  flights, and a step lets one of them go on, with the answer that it waited for. The SIP library's user agents are
  numbered; the list of those started and not stopped is what the library holds.
\<close>

section \<open>State\<close>

record reg_request =
  rq_extension :: string
  rq_display :: "string option"
  rq_domain :: string
  rq_uri_ok :: bool

datatype flight =
    Fl_Unregister reg_request
  | Fl_Stop reg_request
  | Fl_Start nat
  | Fl_Register
  | Dc_Unregister
  | Dc_Stop

record line =
  ln_ua :: "nat option"
  ln_registerer :: "nat option"
  ln_name :: string
  ln_registering :: "string option"
  ln_connected :: bool
  ln_registered :: bool
  ln_agents :: "string list"
  ln_started :: "nat list"
  ln_flights :: "flight list"

definition new_line :: line where
  "new_line = \<lparr>ln_ua = None, ln_registerer = None, ln_name = [], ln_registering = None, ln_connected = False,
     ln_registered = False, ln_agents = [], ln_started = [], ln_flights = []\<rparr>"

section \<open>Operations\<close>

definition from_name :: "reg_request \<Rightarrow> string" where
  "from_name q = str_or (map_option trim (rq_display q)) (rq_extension q)"

definition waits_for :: "flight \<Rightarrow> line \<Rightarrow> line" where
  "waits_for f s = s\<lparr>ln_flights := ln_flights s @ [f]\<rparr>"

definition new_agent :: "reg_request \<Rightarrow> line \<Rightarrow> line" where
  "new_agent q s =
     (if \<not> rq_uri_ok q then s\<lparr>ln_registering := None\<rparr>
      else waits_for (Fl_Start (length (ln_agents s)))
        (s\<lparr>ln_name := from_name q, ln_agents := ln_agents s @ [rq_domain q], ln_started := ln_started s @ [length (ln_agents s)]\<rparr>))"

definition register :: "reg_request \<Rightarrow> line \<Rightarrow> line" where
  "register q s =
     (if ln_ua s \<noteq> None \<and> ln_name s = from_name q then s
      else if ln_registering s = Some (from_name q) then s
      else let s1 = s\<lparr>ln_registering := Some (from_name q)\<rparr>
        in if ln_ua s \<noteq> None then waits_for (Fl_Unregister q) s1 else new_agent q s1)"

definition rebuild :: "reg_request \<Rightarrow> line \<Rightarrow> line" where
  "rebuild q s = new_agent q (s\<lparr>ln_ua := None, ln_registerer := None\<rparr>)"

definition stop_agent :: "nat \<Rightarrow> line \<Rightarrow> line" where
  "stop_agent u s = s\<lparr>ln_started := removeAll u (ln_started s)\<rparr>"

definition signed_off :: "line \<Rightarrow> line" where
  "signed_off s = s\<lparr>ln_name := [], ln_connected := False, ln_registered := False\<rparr>"

definition stop_for_good :: "line \<Rightarrow> line" where
  "stop_for_good s = (case ln_ua s of None \<Rightarrow> signed_off s | Some u \<Rightarrow> waits_for Dc_Stop (stop_agent u s))"

definition disconnect :: "line \<Rightarrow> line" where
  "disconnect s = (if ln_registerer s \<noteq> None then waits_for Dc_Unregister s else stop_for_good s)"

text \<open>A flight goes on. What was waited for has succeeded or failed; only starting and registering ask which.\<close>

definition go_on :: "flight \<Rightarrow> bool \<Rightarrow> line \<Rightarrow> line" where
  "go_on f ok s = (case f of
     Fl_Unregister q \<Rightarrow> (case ln_ua s of None \<Rightarrow> rebuild q s | Some u \<Rightarrow> waits_for (Fl_Stop q) (stop_agent u s))
   | Fl_Stop q \<Rightarrow> rebuild q s
   | Fl_Start u \<Rightarrow> if ok then waits_for Fl_Register (s\<lparr>ln_ua := Some u, ln_connected := True, ln_registerer := Some u\<rparr>)
       else (stop_agent u s)\<lparr>ln_connected := False, ln_registering := None\<rparr>
   | Fl_Register \<Rightarrow> if ok then s\<lparr>ln_registering := None\<rparr> else s\<lparr>ln_connected := False, ln_registering := None\<rparr>
   | Dc_Unregister \<Rightarrow> stop_for_good s
   | Dc_Stop \<Rightarrow> signed_off (s\<lparr>ln_ua := None\<rparr>))"

definition flight_step :: "nat \<Rightarrow> bool \<Rightarrow> line \<Rightarrow> line" where
  "flight_step j ok s =
     (if j < length (ln_flights s)
      then go_on (ln_flights s ! j) ok (s\<lparr>ln_flights := take j (ln_flights s) @ drop (Suc j) (ln_flights s)\<rparr>)
      else s)"

definition registration_changed :: "bool \<Rightarrow> line \<Rightarrow> line" where
  "registration_changed b s = s\<lparr>ln_registered := b\<rparr>"

datatype line_event = Ln_Register reg_request | Ln_Disconnect | Ln_Flight nat bool | Ln_Changed bool

definition line_step :: "line_event \<Rightarrow> line \<Rightarrow> line" where
  "line_step e s = (case e of Ln_Register q \<Rightarrow> register q s | Ln_Disconnect \<Rightarrow> disconnect s | Ln_Flight j ok \<Rightarrow> flight_step j ok s
     | Ln_Changed b \<Rightarrow> registration_changed b s)"

section \<open>One agent for one identity\<close>

text \<open>While all requests are for one identity, one flight is under way at most, and it is the only place where an agent can be.\<close>

definition one_identity :: "string \<Rightarrow> line \<Rightarrow> bool" where
  "one_identity n s \<longleftrightarrow>
     (ln_flights s = [] \<and> ln_registering s = None \<and> (ln_ua s = None \<and> ln_started s = [] \<or> (\<exists>u. ln_ua s = Some u \<and> ln_started s = [u] \<and> ln_name s = n))) \<or>
     (\<exists>u. ln_flights s = [Fl_Start u] \<and> ln_registering s = Some n \<and> ln_ua s = None \<and> ln_started s = [u] \<and> ln_name s = n) \<or>
     (\<exists>u. ln_flights s = [Fl_Register] \<and> ln_registering s = Some n \<and> ln_ua s = Some u \<and> ln_started s = [u] \<and> ln_name s = n)"

definition asks_for :: "string \<Rightarrow> line_event \<Rightarrow> bool" where
  "asks_for n e \<longleftrightarrow> (case e of Ln_Register q \<Rightarrow> from_name q = n | Ln_Disconnect \<Rightarrow> False | _ \<Rightarrow> True)"

lemma one_identity_step:
  assumes "one_identity n s" and "asks_for n e"
  shows "one_identity n (line_step e s)"
  using assms
  by (cases e) (auto simp: one_identity_def asks_for_def line_step_def register_def new_agent_def waits_for_def flight_step_def
      go_on_def stop_agent_def registration_changed_def Let_def)

lemma one_identity_length: "one_identity n s \<Longrightarrow> length (ln_started s) \<le> 1"
  by (auto simp: one_identity_def)

text \<open>However often the page asks to be registered under one identity, and however the waiting calls go on and fail,
  one user agent at most is started and not stopped: mounting the page twice makes no second channel.\<close>

theorem one_agent_per_identity:
  assumes "list_all (asks_for n) es"
  shows "length (ln_started (fold line_step es new_line)) \<le> 1"
proof -
  have "one_identity n (fold line_step es s)" if "one_identity n s" for s
    using that assms by (induction es arbitrary: s) (auto intro: one_identity_step)
  from this [of new_line] have "one_identity n (fold line_step es new_line)"
    by (simp add: one_identity_def new_line_def)
  then show ?thesis by (elim one_identity_length)
qed

definition asking :: "string \<Rightarrow> reg_request" where
  "asking n = \<lparr>rq_extension = ''1001'', rq_display = Some n, rq_domain = ''d'', rq_uri_ok = True\<rparr>"

theorem one_agent_per_identity_witness:
  "length (ln_started (fold line_step [Ln_Register (asking ''Ann''), Ln_Register (asking ''Ann''), Ln_Flight 0 True, Ln_Register (asking ''Ann'')] new_line)) \<le> 1 \<and>
   ln_started (fold line_step [Ln_Register (asking ''Ann''), Ln_Register (asking ''Ann''), Ln_Flight 0 True] new_line) = [0]"
proof -
  have a: "from_name (asking ''Ann'') = ''Ann''" by code_simp
  have "list_all (asks_for ''Ann'') [Ln_Register (asking ''Ann''), Ln_Register (asking ''Ann''), Ln_Flight 0 True, Ln_Register (asking ''Ann'')]"
    using a by (simp add: asks_for_def)
  from one_agent_per_identity [OF this] show ?thesis by code_simp
qed

text \<open>The guard looks at the name only. When a second name is asked for while the first registration is under way (the
  page learns the user's display name, say), both start a user agent, the reference to the first is lost, and what then ends
  the registration stops the second: the first stays started.\<close>

theorem two_names_two_agents:
  assumes "from_name p \<noteq> from_name q" and "rq_uri_ok p" and "rq_uri_ok q"
  shows "let s = fold line_step [Ln_Register p, Ln_Register q, Ln_Flight 0 True, Ln_Flight 0 True] new_line;
      t = fold line_step [Ln_Flight 0 True, Ln_Flight 0 True, Ln_Disconnect, Ln_Flight 0 True, Ln_Flight 0 True] s
    in ln_started s = [0, 1] \<and> ln_ua s = Some 1 \<and> ln_ua t = None \<and> ln_started t = [0]"
  using assms
  by (simp add: Let_def line_step_def register_def new_agent_def waits_for_def new_line_def flight_step_def go_on_def stop_agent_def
      disconnect_def stop_for_good_def signed_off_def)

theorem two_names_two_agents_witness:
  "ln_started (fold line_step [Ln_Register (asking ''1001''), Ln_Register (asking ''Ann''), Ln_Flight 0 True, Ln_Flight 0 True] new_line) = [0, 1]"
proof -
  have "from_name (asking ''1001'') \<noteq> from_name (asking ''Ann'')" by code_simp
  from two_names_two_agents [OF this] show ?thesis by (simp add: asking_def Let_def)
qed

text \<open>A registration that fails after the transport is up is never tried again: the reference to the agent stays, and every
  further request for the same identity finds it and does nothing, although the phone says that it is not connected.\<close>

theorem failed_registration_stays:
  assumes "ln_flights s = [Fl_Register]" and "ln_ua s = Some u" and "ln_name s = from_name q"
  shows "let t = line_step (Ln_Flight 0 False) s in \<not> ln_connected t \<and> line_step (Ln_Register q) t = t"
  using assms by (simp add: Let_def line_step_def flight_step_def go_on_def register_def)

theorem failed_registration_stays_witness:
  "let t = fold line_step [Ln_Register (asking ''Ann''), Ln_Flight 0 True, Ln_Flight 0 False] new_line
   in \<not> ln_connected t \<and> line_step (Ln_Register (asking ''Ann'')) t = t"
proof -
  let ?s = "fold line_step [Ln_Register (asking ''Ann''), Ln_Flight 0 True] new_line"
  have "ln_flights ?s = [Fl_Register]" "ln_ua ?s = Some 0" "ln_name ?s = from_name (asking ''Ann'')" by code_simp+
  from failed_registration_stays [OF this] show ?thesis by (simp add: Let_def)
qed

text \<open>Signing off while the transport is being opened does not close it: the agent comes up afterwards, is registered and
  stays so, on a phone that was disconnected.\<close>

theorem signed_off_phone_registers:
  assumes "rq_uri_ok q"
  shows "let t = fold line_step [Ln_Register q, Ln_Disconnect, Ln_Flight 0 True] new_line
    in ln_ua t = Some 0 \<and> ln_started t = [0] \<and> ln_connected t \<and> Fl_Register \<in> set (ln_flights t)"
  using assms
  by (simp add: Let_def line_step_def register_def new_agent_def waits_for_def new_line_def flight_step_def go_on_def
      disconnect_def stop_for_good_def signed_off_def)

theorem signed_off_phone_registers_witness:
  "ln_started (fold line_step [Ln_Register (asking ''Ann''), Ln_Disconnect, Ln_Flight 0 True] new_line) = [0]"
  using signed_off_phone_registers [of "asking ''Ann''"] by (simp add: asking_def Let_def)

end
