(* ===== verification/Phone_Book.thy ===== *)
theory Phone_Book
  imports Prelude
begin

text \<open>
  Numbers and names in the web phone: the formatting and the dialling of \<^verbatim>\<open>src/web/app/lib/phone.ts\<close> and
  the contacts of \<^verbatim>\<open>src/web/app/stores/contact.store.ts\<close>. The server's lists are given with each call;
  the collation of the browser's locale is a parameter.
\<close>

section \<open>Numbers\<close>

definition named_target :: "string \<Rightarrow> bool" where
  "named_target s \<longleftrightarrow> list_ex (\<lambda>c. is_letter c \<or> c = CHR ''@'') s"

fun groups_of_five :: "string \<Rightarrow> string list" where
  "groups_of_five s = (if length s \<le> 5 then (if s = [] then [] else [s]) else take 5 s # groups_of_five (drop 5 s))"

declare groups_of_five.simps [simp del]

text \<open>\<^verbatim>\<open>xs.join(' ')\<close>.\<close>

fun with_spaces :: "string list \<Rightarrow> string" where
  "with_spaces [] = []"
| "with_spaces [s] = s"
| "with_spaces (s # ss) = s @ '' '' @ with_spaces ss"

definition group_five_five :: "string \<Rightarrow> string" where
  "group_five_five s = (if length s \<le> 5 then s else with_spaces (groups_of_five s))"

definition trim_end :: "string \<Rightarrow> string" where
  "trim_end s = rev (dropWhile is_space (rev s))"

definition format_dial_display :: "string \<Rightarrow> string" where
  "format_dial_display s =
     (if s = [] then []
      else if hd s = CHR ''+''
      then (let ds = only_digits (tl s)
            in if length ds \<le> 2 then ''+'' @ ds else trim_end (''+'' @ take 2 ds @ '' '' @ group_five_five (drop 2 ds)))
      else group_five_five (only_digits s))"

definition split_five :: "string \<Rightarrow> string" where
  "split_five s = take 5 s @ '' '' @ drop 5 s"

definition format_phone :: "string option \<Rightarrow> string" where
  "format_phone raw =
     (if \<not> truthy raw then []
      else let v = trim (the raw); ds = only_digits v
        in if named_target v then v
           else if length ds = 10 then split_five ds
           else if length ds = 11 \<and> prefix ''0'' ds then split_five (drop 1 ds)
           else if length ds = 12 \<and> prefix ''91'' ds then ''+91 '' @ split_five (drop 2 ds)
           else v)"

definition to_sip_number :: "string option \<Rightarrow> string \<Rightarrow> string" where
  "to_sip_number raw cc =
     (if \<not> truthy raw then []
      else let v = trim (the raw); ds = only_digits v
        in if named_target v then v
           else if prefix ''+'' (trim v) then ds
           else if length ds = 10 then cc @ ds
           else if length ds = 11 \<and> prefix ''0'' ds then cc @ drop 1 ds
           else if ds = [] then v else ds)"

section \<open>Contacts\<close>

record contact =
  co_id :: "nat option"
  co_extension :: string
  co_name :: string
  co_username :: string
  co_online :: bool
  co_registered :: bool

record go_contact =
  gc_id :: nat
  gc_extension :: string
  gc_name :: string
  gc_username :: "string option"

record phone_user =
  pu_extension :: string
  pu_name :: string
  pu_username :: string
  pu_registered :: bool

definition to_contact :: "go_contact \<Rightarrow> contact" where
  "to_contact c = \<lparr>co_id = Some (gc_id c), co_extension = gc_extension c, co_name = gc_name c,
     co_username = str_or (gc_username c) (gc_extension c), co_online = False, co_registered = False\<rparr>"

record contacts =
  cb_contacts :: "contact list"
  cb_search :: string
  cb_loaded_at :: nat
  cb_loading :: bool
  cb_mine :: "contact list"
  cb_my_loaded_at :: nat
  cb_my_loading :: bool

definition no_contacts :: contacts where
  "no_contacts = \<lparr>cb_contacts = [], cb_search = [], cb_loaded_at = 0, cb_loading = False, cb_mine = [], cb_my_loaded_at = 0,
     cb_my_loading = False\<rparr>"

text \<open>The user's own entry stays out; \<^term>\<open>me\<close> is the extension that is logged in.\<close>

definition exclude_self :: "string option \<Rightarrow> contact list \<Rightarrow> contact list" where
  "exclude_self me cs = (if truthy me then filter (\<lambda>c. co_extension c \<noteq> the me) cs else cs)"

definition set_contacts :: "string option \<Rightarrow> nat \<Rightarrow> contact list \<Rightarrow> contacts \<Rightarrow> contacts" where
  "set_contacts me now cs s = s\<lparr>cb_contacts := exclude_self me cs, cb_loaded_at := now\<rparr>"

definition set_search :: "string \<Rightarrow> contacts \<Rightarrow> contacts" where
  "set_search q s = s\<lparr>cb_search := q\<rparr>"

text \<open>A load begins with a request, or does nothing, and ends with the users or a failure.\<close>

definition fetch_contacts :: "bool \<Rightarrow> contacts \<Rightarrow> bool \<times> contacts" where
  "fetch_contacts force s =
     (if cb_loading s \<or> \<not> force \<and> cb_loaded_at s > 0 then (False, s) else (True, s\<lparr>cb_loading := True\<rparr>))"

definition merge_user :: "bool \<Rightarrow> phone_user \<Rightarrow> (string, contact) js_map \<Rightarrow> (string, contact) js_map" where
  "merge_user force u m = m_set (pu_extension u) \<lparr>co_id = None, co_extension = pu_extension u, co_name = pu_name u,
     co_username = pu_username u,
     co_online = (case m_get m (pu_extension u) of Some p \<Rightarrow> if force then pu_registered u else co_online p | None \<Rightarrow> pu_registered u),
     co_registered = pu_registered u\<rparr> m"

definition by_extension :: "contact list \<Rightarrow> (string, contact) js_map" where
  "by_extension cs = fold (\<lambda>c. m_set (co_extension c) c) cs []"

definition contacts_fetched :: "string option \<Rightarrow> nat \<Rightarrow> bool \<Rightarrow> phone_user list option \<Rightarrow> contacts \<Rightarrow> contacts" where
  "contacts_fetched me now force r s = (case r of
     None \<Rightarrow> s\<lparr>cb_loading := False\<rparr>
   | Some us \<Rightarrow> s\<lparr>cb_contacts := exclude_self me (m_vals (fold (merge_user force) us (by_extension (cb_contacts s)))),
       cb_loaded_at := now, cb_loading := False\<rparr>)"

definition fetch_my_contacts :: "bool \<Rightarrow> contacts \<Rightarrow> bool \<times> contacts" where
  "fetch_my_contacts force s =
     (if cb_my_loading s \<or> \<not> force \<and> cb_my_loaded_at s > 0 then (False, s) else (True, s\<lparr>cb_my_loading := True\<rparr>))"

definition my_contacts_fetched :: "nat \<Rightarrow> go_contact list option \<Rightarrow> contacts \<Rightarrow> contacts" where
  "my_contacts_fetched now r s = (case r of
     None \<Rightarrow> s\<lparr>cb_my_loading := False\<rparr>
   | Some rows \<Rightarrow> s\<lparr>cb_mine := map to_contact rows, cb_my_loaded_at := now, cb_my_loading := False\<rparr>)"

text \<open>Changes of the address book are made when the server has answered.\<close>

definition contact_created :: "go_contact \<Rightarrow> contacts \<Rightarrow> contacts" where
  "contact_created c s = s\<lparr>cb_mine := cb_mine s @ [to_contact c]\<rparr>"

definition contact_updated :: "nat \<Rightarrow> go_contact \<Rightarrow> contacts \<Rightarrow> contacts" where
  "contact_updated i c s = s\<lparr>cb_mine := map (\<lambda>x. if co_id x = Some i then to_contact c else x) (cb_mine s)\<rparr>"

definition contact_removed :: "nat \<Rightarrow> contacts \<Rightarrow> contacts" where
  "contact_removed i s = s\<lparr>cb_mine := filter (\<lambda>x. co_id x \<noteq> Some i) (cb_mine s)\<rparr>"

fun insert_named :: "(string \<Rightarrow> string \<Rightarrow> bool) \<Rightarrow> contact \<Rightarrow> contact list \<Rightarrow> contact list" where
  "insert_named le c [] = [c]"
| "insert_named le c (d # ds) = (if le (co_name c) (co_name d) then c # d # ds else d # insert_named le c ds)"

text \<open>The stable sort by names.\<close>

definition sort_named :: "(string \<Rightarrow> string \<Rightarrow> bool) \<Rightarrow> contact list \<Rightarrow> contact list" where
  "sort_named le cs = foldr (insert_named le) cs []"

definition filtered_my_contacts :: "(string \<Rightarrow> string \<Rightarrow> bool) \<Rightarrow> contacts \<Rightarrow> contact list" where
  "filtered_my_contacts le s =
     (let q = to_lower (cb_search s)
      in sort_named le (if q \<noteq> [] then filter (\<lambda>c. sublist q (to_lower (co_name c)) \<or> sublist q (co_extension c)) (cb_mine s)
           else cb_mine s))"

definition contact_matches :: "string \<Rightarrow> contact \<Rightarrow> bool" where
  "contact_matches n c \<longleftrightarrow>
     (let ds = only_digits n; ext = only_digits (co_extension c); user = only_digits (co_username c)
      in co_extension c = n \<or> co_username c = n \<or>
         ds \<noteq> [] \<and> (ext = ds \<or> user = ds \<or> suffix ds ext \<or> suffix ext ds))"

definition find_contact :: "string \<Rightarrow> contacts \<Rightarrow> contact option" where
  "find_contact n s =
     (if n = [] then None
      else case List.find (contact_matches n) (cb_mine s) of Some c \<Rightarrow> Some c | None \<Rightarrow> List.find (contact_matches n) (cb_contacts s))"

section \<open>What is shown is what is dialled\<close>

lemma digit_facts:
  assumes "is_digit c"
  shows "\<not> is_space c" and "\<not> is_letter c" and "c \<noteq> CHR ''@''" and "c \<noteq> CHR ''+''"
  using assms by (auto simp: is_digit_def is_space_def is_letter_def is_lower_def is_upper_def)

lemma space_facts: "is_space (CHR '' '')" "\<not> is_digit (CHR '' '')" "\<not> is_letter (CHR '' '')" "\<not> is_digit (CHR ''+'')"
    "\<not> is_letter (CHR ''+'')" "\<not> is_space (CHR ''+'')"
  by (simp_all add: char_class_defs)

lemma groups_concat: "concat (groups_of_five s) = s"
proof (induction s rule: groups_of_five.induct)
  case (1 s)
  then show ?case by (subst groups_of_five.simps) simp
qed

lemma spaces_digits: "only_digits (with_spaces ss) = only_digits (concat ss)"
  by (induction ss rule: with_spaces.induct) (simp_all add: only_digits_def space_facts)

lemma group_digits: "only_digits (group_five_five s) = only_digits s"
  by (simp add: group_five_five_def spaces_digits groups_concat)

lemma only_digits_trim [simp]: "only_digits (trim s) = only_digits s"
proof -
  have d: "only_digits (dropWhile is_space t) = only_digits t" for t
    by (induction t) (auto simp: only_digits_def digit_facts(1))
  have "only_digits (rev t) = rev (only_digits t)" for t by (simp add: only_digits_def rev_filter)
  then show ?thesis by (simp add: trim_def d)
qed

lemma only_digits_trim_end [simp]: "only_digits (trim_end s) = only_digits s"
proof -
  have d: "only_digits (dropWhile is_space t) = only_digits t" for t
    by (induction t) (auto simp: only_digits_def digit_facts(1))
  have "only_digits (rev t) = rev (only_digits t)" for t by (simp add: only_digits_def rev_filter)
  then show ?thesis by (simp add: trim_end_def d)
qed

lemma trim_head: "\<not> is_space c \<Longrightarrow> \<exists>t. trim (c # s) = c # t"
proof -
  assume c: "\<not> is_space c"
  have "dropWhile is_space (rev s @ [c]) = dropWhile is_space (rev s) @ [c]"
    by (induction "rev s") (use c in \<open>auto simp: dropWhile_append\<close>)
  then show ?thesis using c by (simp add: trim_def)
qed

lemma trim_end_head: "\<not> is_space c \<Longrightarrow> \<exists>t. trim_end (c # s) = c # t"
  using trim_head [of c s] by (simp add: trim_def trim_end_def)

lemma trim_idem [simp]: "trim (trim s) = trim s"
proof -
  let ?u = "dropWhile is_space s"
  have "rev ?u = takeWhile is_space (rev ?u) @ dropWhile is_space (rev ?u)" by simp
  then have u: "?u = trim s @ rev (takeWhile is_space (rev ?u))" by (metis rev_append rev_rev_ident trim_def)
  have "trim s \<noteq> [] \<Longrightarrow> \<not> is_space (hd (trim s))"
    using u hd_dropWhile [of is_space s] by (metis append_is_Nil_conv hd_append2)
  then have front: "dropWhile is_space (trim s) = trim s" by (cases "trim s") auto
  have "dropWhile is_space (rev (trim s)) = rev (trim s)" by (simp add: trim_def)
  then show ?thesis using front by (simp add: trim_def [of "trim s"])
qed

lemma set_trim: "x \<in> set (trim s) \<Longrightarrow> x \<in> set s" and set_trim_end: "x \<in> set (trim_end s) \<Longrightarrow> x \<in> set s"
  unfolding trim_def trim_end_def by (metis set_dropWhileD set_rev)+

lemma unnamed_subset: "\<lbrakk>\<not> named_target s; set d \<subseteq> set s\<rbrakk> \<Longrightarrow> \<not> named_target d"
  unfolding named_target_def list_ex_iff by blast

lemma unnamed_trim: "\<not> named_target s \<Longrightarrow> \<not> named_target (trim s)"
  by (erule unnamed_subset) (blast dest: set_trim)

lemma unnamed_trim_end: "\<not> named_target s \<Longrightarrow> \<not> named_target (trim_end s)"
  by (erule unnamed_subset) (blast dest: set_trim_end)

lemma unnamed_append [simp]: "named_target (s @ t) \<longleftrightarrow> named_target s \<or> named_target t"
  by (simp add: named_target_def)

lemma unnamed_digits: "list_all is_digit s \<Longrightarrow> \<not> named_target s"
  by (auto simp: named_target_def list_ex_iff list_all_iff digit_facts)

text \<open>What is dialled, for a text that is no name.\<close>

definition dialled :: "bool \<Rightarrow> string \<Rightarrow> string \<Rightarrow> string" where
  "dialled pl cc ds = (if pl then ds else if length ds = 10 then cc @ ds
     else if length ds = 11 \<and> prefix ''0'' ds then cc @ drop 1 ds else ds)"

lemma to_sip_dialled:
  assumes "\<not> named_target s" and "only_digits s \<noteq> []"
  shows "to_sip_number (Some s) cc = dialled (prefix ''+'' (trim s)) cc (only_digits s)"
proof -
  have "s \<noteq> []" using assms(2) by (auto simp: only_digits_def)
  then show ?thesis using assms unnamed_trim [OF assms(1)] by (simp add: to_sip_number_def dialled_def Let_def)
qed


lemma dials_same:
  assumes "\<not> named_target s" and "only_digits s \<noteq> []" and "\<not> named_target d" and "only_digits d = only_digits s"
    and "prefix ''+'' (trim d) = prefix ''+'' (trim s)"
  shows "to_sip_number (Some d) cc = to_sip_number (Some s) cc"
  using to_sip_dialled [OF assms(1,2)] to_sip_dialled [OF assms(3)] assms(2,4,5) by simp

lemma spaces_set: "set (with_spaces ss) \<subseteq> insert (CHR '' '') (set (concat ss))"
  by (induction ss rule: with_spaces.induct) auto

lemma group_set: "set (group_five_five s) \<subseteq> insert (CHR '' '') (set s)"
  using spaces_set [of "groups_of_five s"] by (auto simp: group_five_five_def groups_concat)

lemma plain_unnamed: "set d \<subseteq> insert (CHR '' '') (insert (CHR ''+'') (set ds)) \<Longrightarrow> list_all is_digit ds \<Longrightarrow> \<not> named_target d"
  by (auto simp: named_target_def list_ex_iff list_all_iff space_facts dest!: subsetD digit_facts(2))
    (auto simp: char_class_defs)

lemma no_plus: "CHR ''+'' \<notin> set d \<Longrightarrow> \<not> prefix ''+'' (trim d)"
  using set_trim [of "CHR ''+''" d] by (cases "trim d") auto

lemma plus_first: "prefix ''+'' (trim (CHR ''+'' # t))"
  using trim_head [OF space_facts(6), of t] by auto

lemma digits_no_plus: "list_all is_digit ds \<Longrightarrow> CHR ''+'' \<notin> set ds"
  by (auto simp: list_all_iff space_facts)

lemma only_digits_join: "list_all is_digit ds \<Longrightarrow> only_digits (take n ds @ '' '' @ drop n ds) = ds"
proof -
  assume "list_all is_digit ds"
  then have "only_digits (take n ds) = take n ds" "only_digits (drop n ds) = drop n ds"
    by (auto intro!: only_digits_id simp: list_all_iff dest!: in_set_takeD in_set_dropD)
  moreover have "only_digits '' '' = []" by (simp add: only_digits_def space_facts)
  ultimately show ?thesis by (simp only: only_digits_append) simp
qed

lemma split_five_simps:
  "list_all is_digit ds \<Longrightarrow> only_digits (split_five ds) = ds" "set (split_five ds) \<subseteq> insert (CHR '' '') (set ds)"
  using only_digits_join [of ds 5] by (auto simp del: only_digits_append simp: split_five_def dest: in_set_takeD in_set_dropD)

text \<open>What the display shows of a number has its digits, is no name, and begins with the plus sign exactly if it did.\<close>

lemma international_display:
  assumes "only_digits t = ds" and "d = format_dial_display (CHR ''+'' # t)"
  shows "only_digits d = ds" and "\<not> named_target d" and "prefix ''+'' (trim d)"
proof -
  have ds: "list_all is_digit ds" "list_all is_digit (drop 2 ds)" "list_all is_digit (take 2 ds)"
    using assms(1) by (auto simp: list_all_iff only_digits_def dest: in_set_dropD in_set_takeD)
  let ?y = "''+'' @ take 2 ds @ '' '' @ group_five_five (drop 2 ds)"
  have y: "only_digits ?y = ds"
    using only_digits_join [OF ds(1), of 2] group_digits [of "drop 2 ds"]
    by (simp only: only_digits_append) (simp add: only_digits_def space_facts)
  have "set ?y \<subseteq> insert (CHR '' '') (insert (CHR ''+'') (set ds))"
    using group_set [of "drop 2 ds"] by (auto dest: in_set_takeD in_set_dropD)
  then have n: "\<not> named_target ?y" using plain_unnamed ds(1) by blast
  have p: "prefix ''+'' (trim ?y)" using plus_first by simp
  have e: "d = (if length ds \<le> 2 then ''+'' @ ds else trim_end ?y)"
    using assms by (simp add: format_dial_display_def Let_def)
  obtain z where z: "trim_end ?y = CHR ''+'' # z" using trim_end_head [OF space_facts(6)] by fastforce
  show "only_digits d = ds"
  proof (cases "length ds \<le> 2")
    case True
    then show ?thesis using only_digits_id [OF ds(1)] by (simp add: e) (simp add: only_digits_def space_facts)
  next
    case False
    then show ?thesis using y by (simp only: e if_False only_digits_trim_end)
  qed
  show "\<not> named_target d"
    using unnamed_trim_end [OF n] plain_unnamed [of "''+'' @ ds" ds] ds(1) by (auto simp: e)
  show "prefix ''+'' (trim d)"
    using plus_first [of ds] plus_first [of z] z by (simp add: e)
qed

lemma national_display:
  assumes "list_all is_digit ds"
  shows "only_digits (group_five_five ds) = ds" and "\<not> named_target (group_five_five ds)"
    and "\<not> prefix ''+'' (trim (group_five_five ds))"
proof -
  show "only_digits (group_five_five ds) = ds" using assms by (simp add: group_digits only_digits_id)
  show "\<not> named_target (group_five_five ds)" by (rule plain_unnamed [OF _ assms]) (use group_set in blast)
  show "\<not> prefix ''+'' (trim (group_five_five ds))"
    by (rule no_plus) (use group_set [of ds] digits_no_plus [OF assms] in auto)
qed

lemma split_display:
  assumes "list_all is_digit ds"
  shows "only_digits (split_five ds) = ds" and "\<not> named_target (split_five ds)" and "\<not> prefix ''+'' (trim (split_five ds))"
proof -
  show "only_digits (split_five ds) = ds" using assms by (rule split_five_simps)
  show "\<not> named_target (split_five ds)" by (rule plain_unnamed [OF _ assms]) (use split_five_simps(2) in blast)
  show "\<not> prefix ''+'' (trim (split_five ds))"
    by (rule no_plus) (use split_five_simps(2) [of ds] digits_no_plus [OF assms] in auto)
qed

lemma format_phone_number:
  assumes "\<not> named_target (trim s)" and "s \<noteq> []"
  shows "format_phone (Some s) = (let ds = only_digits s in
    if length ds = 10 then split_five ds else if length ds = 11 \<and> prefix ''0'' ds then split_five (drop 1 ds)
    else if length ds = 12 \<and> prefix ''91'' ds then ''+91 '' @ split_five (drop 2 ds) else trim s)"
  using assms by (simp add: format_phone_def Let_def)

text \<open>What the dialler shows is what it dials. A typed number, with or without its plus sign, dials the same after it
  has been grouped for the display; and a number formatted for a list dials the same as the number itself, unless it is an
  international number of ten digits, or of eleven that begin with a zero, which loses its plus sign on the display.\<close>

theorem display_dials_same:
  assumes "\<not> named_target s" and "only_digits s \<noteq> []"
  shows "(hd s = CHR ''+'' \<or> is_digit (hd s) \<longrightarrow> to_sip_number (Some (format_dial_display s)) cc = to_sip_number (Some s) cc) \<and>
    (\<not> (prefix ''+'' (trim s) \<and> (length (only_digits s) = 10 \<or> length (only_digits s) = 11 \<and> prefix ''0'' (only_digits s))) \<longrightarrow>
      to_sip_number (Some (format_phone (Some s))) ''91'' = to_sip_number (Some s) ''91'')"
proof (intro conjI impI)
  let ?ds = "only_digits s"
  obtain c t where s: "s = c # t" using assms(2) by (cases s) (auto simp: only_digits_def)
  have dig: "list_all is_digit ?ds" "list_all is_digit (drop n ?ds)" for n
    by (auto simp: list_all_iff only_digits_def dest: in_set_dropD)
  {
    assume h: "hd s = CHR ''+'' \<or> is_digit (hd s)"
    show "to_sip_number (Some (format_dial_display s)) cc = to_sip_number (Some s) cc"
    proof (cases "c = CHR ''+''")
      case True
      then have "only_digits t = ?ds" by (simp add: s only_digits_def space_facts)
      from international_display [OF this refl] show ?thesis
        by (intro dials_same assms) (use True s plus_first in auto)
    next
      case False
      then have c: "is_digit c" "\<not> is_space c" using h s digit_facts(1) by auto
      then have "\<not> prefix ''+'' (trim s)" using trim_head [OF c(2), of t] False s by auto
      then show ?thesis
        using national_display [OF dig(1)] False s by (intro dials_same assms) (auto simp: format_dial_display_def)
    qed
  }
  assume h: "\<not> (prefix ''+'' (trim s) \<and> (length ?ds = 10 \<or> length ?ds = 11 \<and> prefix ''0'' ?ds))"
  have n: "\<not> named_target (trim s)" using assms(1) by (rule unnamed_trim)
  consider "length ?ds = 10" | "length ?ds = 11" "prefix ''0'' ?ds" | "length ?ds = 12" "prefix ''91'' ?ds"
    | "format_phone (Some s) = trim s"
    using format_phone_number [OF n] s by (auto simp: Let_def split: if_splits)
  then show "to_sip_number (Some (format_phone (Some s))) ''91'' = to_sip_number (Some s) ''91''"
  proof cases
    case 1
    then have "format_phone (Some s) = split_five ?ds" using format_phone_number [OF n] s by (simp add: Let_def)
    then show ?thesis using split_display [OF dig(1)] h 1 by (intro dials_same assms) auto
  next
    case 2
    let ?n = "drop 1 ?ds"
    have "format_phone (Some s) = split_five ?n" using format_phone_number [OF n] s 2 by (simp add: Let_def)
    moreover have "only_digits (split_five ?n) \<noteq> []" using split_display(1) [OF dig(2), of 1] 2 by auto
    ultimately show ?thesis
      using to_sip_dialled [OF assms] to_sip_dialled [OF split_display(2) [OF dig(2)], of 1] split_display [OF dig(2), of 1] h 2
      by (simp add: dialled_def)
  next
    case 3
    let ?n = "split_five (drop 2 ?ds)"
    have f: "format_phone (Some s) = ''+91 '' @ ?n" using format_phone_number [OF n] s 3 by (simp add: Let_def)
    have d: "only_digits (''+91 '' @ ?n) = ?ds"
      using 3(2) split_display(1) [OF dig(2), of 2] by (auto simp: prefix_def) (simp add: only_digits_def is_digit_def)
    have u: "\<not> named_target (''+91 '' @ ?n)"
      using split_display(2) [OF dig(2), of 2] by (simp add: named_target_def char_class_defs)
    show ?thesis
      using to_sip_dialled [OF assms, of "''91''"] to_sip_dialled [OF u, of "''91''"] d plus_first [of "''91 '' @ ?n"] f assms(2) 3(1)
      by (simp add: dialled_def)
  next
    case 4
    then show ?thesis using n by (intro dials_same assms) auto
  qed
qed

theorem display_dials_same_witness:
  "to_sip_number (Some (format_dial_display ''+919876543210'')) ''91'' = ''919876543210'' \<and>
   to_sip_number (Some (format_phone (Some ''09876543210''))) ''91'' = ''919876543210'' \<and>
   to_sip_number (Some (format_phone (Some ''+6512345678''))) ''91'' \<noteq> to_sip_number (Some ''+6512345678'') ''91''"
proof -
  have "\<not> named_target ''+919876543210''" "only_digits ''+919876543210'' \<noteq> []" "\<not> named_target ''09876543210''"
    "only_digits ''09876543210'' \<noteq> []" by code_simp+
  from display_dials_same [OF this(1,2), of "''91''"] display_dials_same [OF this(3,4), of "''91''"]
  have "to_sip_number (Some (format_dial_display ''+919876543210'')) ''91'' = to_sip_number (Some ''+919876543210'') ''91''"
    "to_sip_number (Some (format_phone (Some ''09876543210''))) ''91'' = to_sip_number (Some ''09876543210'') ''91''"
    by (simp_all add: char_class_defs trim_def prefix_def)
  moreover have "to_sip_number (Some ''+919876543210'') ''91'' = ''919876543210''" "to_sip_number (Some ''09876543210'') ''91'' = ''919876543210''"
    "to_sip_number (Some (format_phone (Some ''+6512345678''))) ''91'' \<noteq> to_sip_number (Some ''+6512345678'') ''91''"
    by code_simp+
  ultimately show ?thesis by simp
qed

text \<open>A contact whose extension has no digits, such as a name, matches every number that has some: \<^verbatim>\<open>endsWith\<close> holds of the
  empty text. If it comes first in the address book, every caller is shown under its name.\<close>

theorem named_contact_matches_all:
  assumes "only_digits (co_extension c) = []" and "only_digits n \<noteq> []" and "cb_mine s = c # cs"
  shows "contact_matches n c \<and> find_contact n s = Some c"
proof -
  have "contact_matches n c" using assms(1,2) by (simp add: contact_matches_def Let_def)
  then show ?thesis using assms(2,3) by (auto simp: find_contact_def only_digits_def)
qed

theorem named_contact_matches_all_witness:
  "find_contact ''911'' (contact_created \<lparr>gc_id = 1, gc_extension = ''alice'', gc_name = ''Alice'', gc_username = None\<rparr> no_contacts)
    = Some (to_contact \<lparr>gc_id = 1, gc_extension = ''alice'', gc_name = ''Alice'', gc_username = None\<rparr>)"
proof -
  let ?c = "\<lparr>gc_id = 1, gc_extension = ''alice'', gc_name = ''Alice'', gc_username = None\<rparr>"
  have "only_digits (co_extension (to_contact ?c)) = []" "only_digits ''911'' \<noteq> []" by code_simp+
  from named_contact_matches_all [OF this] show ?thesis by (simp add: contact_created_def no_contacts_def)
qed

end
