(* ===== verification/Softphone.thy ===== *)
theory Softphone
  imports Phone_Line Phone_Book
begin

text \<open>
  The calls of the web phone: the call store of \<^verbatim>\<open>src/web/app/stores/call.store.ts\<close> and the sessions, tones and
  recordings of \<^verbatim>\<open>src/web/app/hooks/useSipPhone.ts\<close>. Sessions are objects that the listeners share, so they
  live in a store and the phone refers to one of them; what waits (a tone's file, a hang-up, a timer) is part of the
  state, and a step lets it go on.
\<close>

section \<open>The call store\<close>

datatype phone_status = Ps_Dialing | Ps_Ringing | Ps_Connected | Ps_Ended | Ps_Declined | Ps_No_Answer | Ps_Blocked

datatype call_source = Cs_Sip | Cs_Bridge | Cs_Conference

record active_call =
  ac_id :: string
  ac_peer :: string
  ac_name :: string
  ac_inbound :: bool
  ac_status :: phone_status
  ac_start :: nat
  ac_source :: "call_source option"
  ac_room :: "string option"

datatype tone = To_Dialing | To_Ringback | To_Ringtone | To_Busy

record call_store =
  sc_call :: "active_call option"
  sc_tone :: "tone option"
  sc_muted :: bool
  sc_speaker :: bool

definition start_call :: "active_call \<Rightarrow> 'a call_store_scheme \<Rightarrow> 'a call_store_scheme" where
  "start_call c s = s\<lparr>sc_call := Some c, sc_tone := Some To_Dialing\<rparr>"

definition update_active :: "(active_call \<Rightarrow> active_call) \<Rightarrow> 'a call_store_scheme \<Rightarrow> 'a call_store_scheme" where
  "update_active f s = s\<lparr>sc_call := map_option f (sc_call s)\<rparr>"

definition end_call :: "'a call_store_scheme \<Rightarrow> 'a call_store_scheme" where
  "end_call s = s\<lparr>sc_call := None, sc_tone := None, sc_muted := False, sc_speaker := False\<rparr>"

definition set_tone :: "tone option \<Rightarrow> 'a call_store_scheme \<Rightarrow> 'a call_store_scheme" where
  "set_tone t s = s\<lparr>sc_tone := t\<rparr>"

definition toggle_mute :: "'a call_store_scheme \<Rightarrow> 'a call_store_scheme" where
  "toggle_mute s = s\<lparr>sc_muted := \<not> sc_muted s\<rparr>"

definition toggle_speaker :: "'a call_store_scheme \<Rightarrow> 'a call_store_scheme" where
  "toggle_speaker s = s\<lparr>sc_speaker := \<not> sc_speaker s\<rparr>"

section \<open>The phone\<close>

datatype session_state = Ss_Initial | Ss_Establishing | Ss_Established | Ss_Terminating | Ss_Terminated

record phone_session =
  se_outgoing :: bool
  se_state :: session_state

datatype sound = So_Ringtone | So_Ringback | So_Caller_Tune | So_Busy

text \<open>The phone extends the call store that it shares; a load is a tone whose file is being fetched.\<close>

record phone = call_store +
  fp_line :: line
  fp_session :: "nat option"
  fp_sessions :: "phone_session list"
  fp_tone_id :: nat
  fp_audio :: "(sound \<times> bool) option"
  fp_loads :: "(nat \<times> sound \<times> bool) list"
  fp_timers :: nat
  fp_hanging :: nat
  fp_chunks :: "nat list option"

definition new_phone :: phone where
  "new_phone = \<lparr>sc_call = None, sc_tone = None, sc_muted = False, sc_speaker = False, fp_line = new_line, fp_session = None,
     fp_sessions = [], fp_tone_id = 0, fp_audio = None, fp_loads = [], fp_timers = 0, fp_hanging = 0, fp_chunks = None\<rparr>"

text \<open>What the phone asks of a session.\<close>

datatype phone_act =
    Do_Invite nat string "string list"
  | Do_Accept nat
  | Do_Reject nat
  | Do_Cancel nat
  | Do_Bye nat
  | Do_Dtmf nat string

fun act_session :: "phone_act \<Rightarrow> nat" where
  "act_session (Do_Invite i t h) = i"
| "act_session (Do_Accept i) = i"
| "act_session (Do_Reject i) = i"
| "act_session (Do_Cancel i) = i"
| "act_session (Do_Bye i) = i"
| "act_session (Do_Dtmf i d) = i"

definition state_of :: "nat \<Rightarrow> phone \<Rightarrow> session_state" where
  "state_of i s = se_state (fp_sessions s ! i)"

subsection \<open>Tones\<close>

definition stop_tone :: "phone \<Rightarrow> phone" where
  "stop_tone s = set_tone None (s\<lparr>fp_tone_id := fp_tone_id s + 1, fp_audio := None\<rparr>)"

definition play_tone :: "sound \<Rightarrow> bool \<Rightarrow> phone \<Rightarrow> phone" where
  "play_tone w loop s = s\<lparr>fp_tone_id := fp_tone_id s + 1, fp_audio := None, fp_loads := fp_loads s @ [(fp_tone_id s + 1, w, loop)]\<rparr>"

definition tone_loaded :: "nat \<Rightarrow> phone \<Rightarrow> phone" where
  "tone_loaded j s =
     (if j < length (fp_loads s)
      then (case fp_loads s ! j of (i, a) \<Rightarrow>
        (if fp_tone_id s = i then (\<lambda>t. t\<lparr>fp_audio := Some a\<rparr>) else id)
          (s\<lparr>fp_loads := take j (fp_loads s) @ drop (Suc j) (fp_loads s)\<rparr>))
      else s)"

subsection \<open>Incoming calls\<close>

definition caller_name :: "contacts \<Rightarrow> string \<Rightarrow> string option \<Rightarrow> string" where
  "caller_name book n disp = str_or (map_option co_name (find_contact n book)) (str_or disp n)"

definition on_invite :: "contacts \<Rightarrow> string option \<Rightarrow> string option \<Rightarrow> string \<Rightarrow> nat \<Rightarrow> phone \<Rightarrow> phone" where
  "on_invite book user disp call_id now s =
     (let n = str_or user ''unknown''
      in play_tone So_Ringtone True (set_tone (Some To_Ringtone) (start_call
        \<lparr>ac_id = call_id, ac_peer = n, ac_name = caller_name book n disp, ac_inbound = True, ac_status = Ps_Ringing, ac_start = now,
         ac_source = None, ac_room = None\<rparr>
        (s\<lparr>fp_session := Some (length (fp_sessions s)),
          fp_sessions := fp_sessions s @ [\<lparr>se_outgoing = False, se_state = Ss_Initial\<rparr>]\<rparr>))))"

subsection \<open>Outgoing calls\<close>

text \<open>\<^term>\<open>uri_ok\<close> says whether the library makes a URI of the number; the source and the room are the meta data of a call.\<close>

definition make_call :: "contacts \<Rightarrow> bool \<Rightarrow> string \<Rightarrow> nat \<Rightarrow> string \<Rightarrow> string option \<Rightarrow> string list \<Rightarrow> (call_source \<times> string) option \<Rightarrow> phone
    \<Rightarrow> phone \<times> phone_act list" where
  "make_call book uri_ok call_id now target name headers meta s =
     (if ln_ua (fp_line s) = None \<or> \<not> uri_ok then (s, [])
      else let dial = to_sip_number (Some target) ''91''; i = length (fp_sessions s)
        in (play_tone So_Ringback True (set_tone (Some To_Dialing) (start_call
            \<lparr>ac_id = call_id, ac_peer = dial, ac_name = str_or name (str_or (map_option co_name (find_contact target book)) target),
             ac_inbound = False, ac_status = Ps_Dialing, ac_start = now, ac_source = map_option fst meta, ac_room = map_option snd meta\<rparr>
            (s\<lparr>fp_session := Some i, fp_sessions := fp_sessions s @ [\<lparr>se_outgoing = True, se_state = Ss_Initial\<rparr>]\<rparr>))),
           [Do_Invite i dial headers]))"

definition join_teams_meeting :: "contacts \<Rightarrow> bool \<Rightarrow> string \<Rightarrow> nat \<Rightarrow> string \<Rightarrow> string option \<Rightarrow> phone \<Rightarrow> phone \<times> phone_act list" where
  "join_teams_meeting book uri_ok call_id now conf dial_in s =
     (let c = only_digits conf; d = trim (or_else dial_in [])
      in if c = [] then (s, [])
         else make_call book uri_ok call_id now ''teams'' (Some ''Teams Meeting'')
           ((''X-Teams-Conf-Id: '' @ c) # (if d \<noteq> [] then [''X-Teams-Number: '' @ d] else [])) None s)"

definition join_conference :: "contacts \<Rightarrow> bool \<Rightarrow> string \<Rightarrow> nat \<Rightarrow> string \<Rightarrow> string option \<Rightarrow> phone \<Rightarrow> phone \<times> phone_act list" where
  "join_conference book uri_ok call_id now room name s =
     (let r = to_lower (trim room)
      in if r = [] then (s, [])
         else make_call book uri_ok call_id now (''conf-'' @ r) (Some (str_or name ''Conference'')) [] (Some (Cs_Conference, r)) s)"

text \<open>The tone of a refused call, and the timer that ends it three seconds later.\<close>

definition busy_then_end :: "phone \<Rightarrow> phone" where
  "busy_then_end s = s\<lparr>fp_timers := fp_timers s + 1\<rparr>"

definition invite_failed :: "phone \<Rightarrow> phone" where
  "invite_failed s = busy_then_end (set_tone (Some To_Busy) (play_tone So_Busy False (stop_tone s)))\<lparr>fp_session := None\<rparr>"

definition timer_fired :: "phone \<Rightarrow> phone" where
  "timer_fired s = (if fp_timers s = 0 then s else end_call (stop_tone (s\<lparr>fp_timers := fp_timers s - 1\<rparr>)))"

subsection \<open>Sessions\<close>

definition connected_call :: "nat \<Rightarrow> phone \<Rightarrow> phone" where
  "connected_call now s = update_active (\<lambda>c. c\<lparr>ac_status := Ps_Connected, ac_start := now\<rparr>) (stop_tone s)"

definition incoming_changed :: "nat \<Rightarrow> session_state \<Rightarrow> phone \<Rightarrow> phone" where
  "incoming_changed now st s = (case st of
     Ss_Established \<Rightarrow> connected_call now s
   | Ss_Terminated \<Rightarrow> (end_call (stop_tone s))\<lparr>fp_session := None\<rparr>
   | _ \<Rightarrow> s)"

definition outgoing_changed :: "nat \<Rightarrow> nat \<Rightarrow> session_state \<Rightarrow> phone \<Rightarrow> phone" where
  "outgoing_changed i now st s = (case st of
     Ss_Establishing \<Rightarrow> play_tone So_Caller_Tune True (stop_tone (set_tone (Some To_Ringback)
       (update_active (\<lambda>c. c\<lparr>ac_status := Ps_Ringing\<rparr>) s)))
   | Ss_Established \<Rightarrow> connected_call now s
   | Ss_Terminated \<Rightarrow>
       if fp_session s \<noteq> Some i then s
       else (let t = stop_tone s
         in case sc_call t of
              Some c \<Rightarrow> if ac_status c \<noteq> Ps_Connected
                then busy_then_end (play_tone So_Busy False (set_tone (Some To_Busy) (update_active (\<lambda>c. c\<lparr>ac_status := Ps_Declined\<rparr>) t)))
                else end_call t
            | None \<Rightarrow> end_call t)\<lparr>fp_session := None\<rparr>
   | _ \<Rightarrow> s)"

definition session_changed :: "nat \<Rightarrow> nat \<Rightarrow> session_state \<Rightarrow> phone \<Rightarrow> phone" where
  "session_changed i now st s =
     (if i < length (fp_sessions s)
      then (if se_outgoing (fp_sessions s ! i) then outgoing_changed i now st else incoming_changed now st)
        (s\<lparr>fp_sessions := (fp_sessions s)[i := (fp_sessions s ! i)\<lparr>se_state := st\<rparr>]\<rparr>)
      else s)"

definition answer :: "phone \<Rightarrow> phone \<times> phone_act list" where
  "answer s = (case fp_session s of None \<Rightarrow> (s, [])
     | Some i \<Rightarrow> if state_of i s = Ss_Initial \<or> state_of i s = Ss_Establishing
         then (stop_tone s, if se_outgoing (fp_sessions s ! i) then [] else [Do_Accept i]) else (s, []))"

text \<open>Hanging up waits for the session's request, and clears the phone when it goes on.\<close>

definition cleared :: "phone \<Rightarrow> phone" where
  "cleared s = (end_call s)\<lparr>fp_session := None\<rparr>"

definition hang_up :: "phone \<Rightarrow> phone \<times> phone_act list" where
  "hang_up s =
     (let t = stop_tone s; waiting = t\<lparr>fp_hanging := fp_hanging t + 1\<rparr>
      in case fp_session s of None \<Rightarrow> (end_call t, [])
         | Some i \<Rightarrow> (case state_of i s of
             Ss_Initial \<Rightarrow> (waiting, [if se_outgoing (fp_sessions s ! i) then Do_Cancel i else Do_Reject i])
           | Ss_Establishing \<Rightarrow> (waiting, [if se_outgoing (fp_sessions s ! i) then Do_Cancel i else Do_Reject i])
           | Ss_Established \<Rightarrow> (waiting, [Do_Bye i])
           | _ \<Rightarrow> (cleared t, [])))"

definition hung_up :: "phone \<Rightarrow> phone" where
  "hung_up s = (if fp_hanging s = 0 then s else cleared (s\<lparr>fp_hanging := fp_hanging s - 1\<rparr>))"

definition send_dtmf :: "string \<Rightarrow> phone \<Rightarrow> phone_act list" where
  "send_dtmf d s = (case fp_session s of Some i \<Rightarrow> if state_of i s = Ss_Established then [Do_Dtmf i d] else [] | None \<Rightarrow> [])"

subsection \<open>Recording\<close>

definition start_recording :: "bool \<Rightarrow> phone \<Rightarrow> bool \<times> phone" where
  "start_recording platform_ok s = (case fp_session s of None \<Rightarrow> (False, s)
     | Some i \<Rightarrow> if state_of i s \<noteq> Ss_Established then (False, s)
         else if fp_chunks s \<noteq> None then (True, s)
         else if platform_ok then (True, s\<lparr>fp_chunks := Some []\<rparr>) else (False, s))"

definition recording_chunk :: "nat \<Rightarrow> phone \<Rightarrow> phone" where
  "recording_chunk n s = s\<lparr>fp_chunks := map_option (\<lambda>cs. if n > 0 then cs @ [n] else cs) (fp_chunks s)\<rparr>"

definition stop_recording :: "phone \<Rightarrow> nat option \<times> phone" where
  "stop_recording s = (case fp_chunks s of None \<Rightarrow> (None, s)
     | Some cs \<Rightarrow> (if sum_list cs > 0 then Some (sum_list cs) else None, s\<lparr>fp_chunks := None\<rparr>))"

section \<open>Steps\<close>

datatype phone_event =
    Ph_Line line_event
  | Ph_Invite contacts "string option" "string option" string nat
  | Ph_Call contacts bool string nat string "string option" "string list" "(call_source \<times> string) option"
  | Ph_Teams contacts bool string nat string "string option"
  | Ph_Conference contacts bool string nat string "string option"
  | Ph_Invite_Failed
  | Ph_Session nat nat session_state
  | Ph_Answer
  | Ph_Hang_Up
  | Ph_Hung_Up
  | Ph_Dtmf string
  | Ph_Tone_Loaded nat
  | Ph_Timer
  | Ph_Stop_Tone
  | Ph_Mute
  | Ph_Speaker
  | Ph_Record bool
  | Ph_Chunk nat
  | Ph_Record_Stop

definition phone_step :: "phone_event \<Rightarrow> phone \<Rightarrow> phone \<times> phone_act list" where
  "phone_step e s = (case e of
     Ph_Line l \<Rightarrow> (s\<lparr>fp_line := line_step l (fp_line s)\<rparr>, [])
   | Ph_Invite book user disp i now \<Rightarrow> (on_invite book user disp i now s, [])
   | Ph_Call book ok i now t name hs meta \<Rightarrow> make_call book ok i now t name hs meta s
   | Ph_Teams book ok i now c d \<Rightarrow> join_teams_meeting book ok i now c d s
   | Ph_Conference book ok i now r name \<Rightarrow> join_conference book ok i now r name s
   | Ph_Invite_Failed \<Rightarrow> (invite_failed s, [])
   | Ph_Session i now st \<Rightarrow> (session_changed i now st s, [])
   | Ph_Answer \<Rightarrow> answer s
   | Ph_Hang_Up \<Rightarrow> hang_up s
   | Ph_Hung_Up \<Rightarrow> (hung_up s, [])
   | Ph_Dtmf d \<Rightarrow> (s, send_dtmf d s)
   | Ph_Tone_Loaded j \<Rightarrow> (tone_loaded j s, [])
   | Ph_Timer \<Rightarrow> (timer_fired s, [])
   | Ph_Stop_Tone \<Rightarrow> (stop_tone s, [])
   | Ph_Mute \<Rightarrow> (toggle_mute s, [])
   | Ph_Speaker \<Rightarrow> (toggle_speaker s, [])
   | Ph_Record ok \<Rightarrow> (snd (start_recording ok s), [])
   | Ph_Chunk n \<Rightarrow> (recording_chunk n s, [])
   | Ph_Record_Stop \<Rightarrow> (snd (stop_recording s), []))"

fun phone_run :: "phone_event list \<Rightarrow> phone \<Rightarrow> phone \<times> phone_act list" where
  "phone_run [] s = (s, [])"
| "phone_run (e # es) s = (case phone_step e s of (t, xs) \<Rightarrow> (case phone_run es t of (u, ys) \<Rightarrow> (u, xs @ ys)))"

section \<open>The call on the screen\<close>

text \<open>A call that is shown has a session or a timer that will end it; no tone is older than the last that was asked for.\<close>

definition phone_ok :: "phone \<Rightarrow> bool" where
  "phone_ok s \<longleftrightarrow> (\<forall>i. fp_session s = Some i \<longrightarrow> i < length (fp_sessions s)) \<and>
     (sc_call s \<noteq> None \<longrightarrow> fp_session s \<noteq> None \<or> fp_timers s > 0) \<and>
     list_all (\<lambda>l. fst l \<le> fp_tone_id s) (fp_loads s)"

lemmas tone_defs = stop_tone_def play_tone_def set_tone_def
lemmas store_defs = start_call_def update_active_def end_call_def toggle_mute_def toggle_speaker_def
lemmas session_defs = incoming_changed_def outgoing_changed_def connected_call_def busy_then_end_def session_changed_def
lemmas ending_defs = invite_failed_def busy_then_end_def timer_fired_def hung_up_def cleared_def

lemma loads_older [simp]: "list_all (\<lambda>l. fst l \<le> n) ls \<Longrightarrow> list_all (\<lambda>l. fst l \<le> Suc n) ls"
  by (auto simp: list_all_iff)

lemma loads_without [simp]: "list_all P ls \<Longrightarrow> list_all P (take j ls)" "list_all P ls \<Longrightarrow> list_all P (drop k ls)"
  by (auto simp: list_all_iff dest: in_set_takeD in_set_dropD)

lemma ok_invite: "phone_ok s \<Longrightarrow> phone_ok (on_invite book user disp i now s)"
  by (simp add: phone_ok_def on_invite_def Let_def tone_defs start_call_def)

lemma ok_call: "phone_ok s \<Longrightarrow> phone_ok (fst (make_call book ok i now t name hs meta s))"
  by (auto simp: phone_ok_def make_call_def Let_def tone_defs start_call_def)

lemma ok_session: "phone_ok s \<Longrightarrow> phone_ok (session_changed i now st s)"
  by (auto simp: phone_ok_def session_defs tone_defs store_defs Let_def split: session_state.split option.splits)

lemma ok_hang_up: "phone_ok s \<Longrightarrow> phone_ok (fst (hang_up s))"
  by (auto simp: phone_ok_def hang_up_def cleared_def tone_defs store_defs Let_def split: session_state.split option.splits)

lemma ok_ending: "phone_ok s \<Longrightarrow> phone_ok (invite_failed s)" "phone_ok s \<Longrightarrow> phone_ok (timer_fired s)" "phone_ok s \<Longrightarrow> phone_ok (hung_up s)"
  by (auto simp: phone_ok_def ending_defs tone_defs store_defs split: option.splits)

lemma ok_tone: "phone_ok s \<Longrightarrow> phone_ok (tone_loaded j s)" "phone_ok s \<Longrightarrow> phone_ok (stop_tone s)"
  by (auto simp: phone_ok_def tone_loaded_def tone_defs split: option.splits prod.splits)

lemma ok_rest:
  "phone_ok s \<Longrightarrow> phone_ok (fst (answer s))" "phone_ok s \<Longrightarrow> phone_ok (toggle_mute s)" "phone_ok s \<Longrightarrow> phone_ok (toggle_speaker s)"
  "phone_ok s \<Longrightarrow> phone_ok (snd (start_recording ok s))" "phone_ok s \<Longrightarrow> phone_ok (recording_chunk n s)"
  "phone_ok s \<Longrightarrow> phone_ok (snd (stop_recording s))" "phone_ok s \<Longrightarrow> phone_ok (s\<lparr>fp_line := l\<rparr>)"
  by (auto simp: phone_ok_def answer_def tone_defs store_defs start_recording_def recording_chunk_def stop_recording_def
      split: option.splits if_splits)

lemma phone_step_ok: "phone_ok s \<Longrightarrow> phone_ok (fst (phone_step e s))"
  by (cases e) (simp_all add: phone_step_def join_teams_meeting_def join_conference_def Let_def ok_invite ok_call ok_session ok_hang_up
      ok_ending ok_tone ok_rest)

lemma phone_run_ok: "phone_ok s \<Longrightarrow> phone_ok (fst (phone_run es s))"
  by (induction es arbitrary: s) (auto simp: split_beta phone_step_ok)

lemma new_phone_ok: "phone_ok new_phone"
  by (simp add: phone_ok_def new_phone_def)


section \<open>Sessions that lost their place\<close>

text \<open>The phone acts on the session that it refers to, or on a new one.\<close>

lemma acts_on_current:
  assumes "x \<in> set (snd (phone_step e s))"
  shows "fp_session s = Some (act_session x) \<or> act_session x = length (fp_sessions s)"
  using assms
  by (cases e) (auto simp: phone_step_def make_call_def join_teams_meeting_def join_conference_def answer_def hang_up_def send_dtmf_def Let_def
      split: if_splits option.splits session_state.splits)

definition lost :: "nat \<Rightarrow> phone \<Rightarrow> bool" where
  "lost i s \<longleftrightarrow> i < length (fp_sessions s) \<and> fp_session s \<noteq> Some i"

lemma lost_step:
  assumes "lost i s"
  shows "lost i (fst (phone_step e s))"
    and "(\<forall>now st. e \<noteq> Ph_Session i now st) \<Longrightarrow> state_of i (fst (phone_step e s)) = state_of i s"
  using assms
  by (cases e; auto simp: lost_def state_of_def phone_step_def on_invite_def make_call_def join_teams_meeting_def join_conference_def answer_def
      hang_up_def session_defs ending_defs tone_defs store_defs tone_loaded_def start_recording_def recording_chunk_def stop_recording_def
      nth_append Let_def split: if_splits option.splits session_state.splits prod.splits)+


text \<open>An operation leaves a lost session alone, and so does every continuation.\<close>

lemma lost_run:
  assumes "lost i s"
  shows "lost i (fst (phone_run es s)) \<and> (\<forall>x\<in>set (snd (phone_run es s)). act_session x \<noteq> i) \<and>
    ((\<forall>now st. Ph_Session i now st \<notin> set es) \<longrightarrow> state_of i (fst (phone_run es s)) = state_of i s)"
  using assms
proof (induction es arbitrary: s)
  case (Cons e es)
  let ?t = "fst (phone_step e s)"
  have acts: "act_session x \<noteq> i" if "x \<in> set (snd (phone_step e s))" for x
    using acts_on_current [OF that] Cons.prems by (auto simp: lost_def)
  show ?case
    using Cons.IH [OF lost_step(1) [OF Cons.prems, of e]] lost_step(2) [OF Cons.prems, of e] acts
    by (auto simp: split_beta)
qed simp

text \<open>A second caller takes the first call away for good. When an INVITE arrives during an established call, the phone
  refers to the new session from then on, and nothing that the user or the phone does afterwards, in any order, ever asks
  anything of the first: it cannot be hung up, and stays established as long as the other side wants, with its microphone.\<close>

theorem second_invite_orphans_call:
  assumes "fp_session (fst (phone_run ds new_phone)) = Some i" and "state_of i (fst (phone_run ds new_phone)) = Ss_Established"
  shows "case phone_run es (on_invite book user disp cid now (fst (phone_run ds new_phone))) of
    (t, acts) \<Rightarrow> fp_session t \<noteq> Some i \<and> (\<forall>x\<in>set acts. act_session x \<noteq> i) \<and>
      ((\<forall>k st. Ph_Session i k st \<notin> set es) \<longrightarrow> state_of i t = Ss_Established)"
proof -
  let ?s = "fst (phone_run ds new_phone)"
  have i: "i < length (fp_sessions ?s)" using phone_run_ok [OF new_phone_ok, of ds] assms(1) by (simp add: phone_ok_def)
  have "lost i (on_invite book user disp cid now ?s)"
    using i by (simp add: lost_def on_invite_def tone_defs start_call_def Let_def)
  moreover have "state_of i (on_invite book user disp cid now ?s) = Ss_Established"
    using i assms(2) by (simp add: state_of_def on_invite_def tone_defs start_call_def Let_def nth_append)
  ultimately show ?thesis using lost_run [of i _ es] by (auto simp: split_beta lost_def)
qed

text \<open>Only the current session of an outgoing call takes the phone down with it: the end of an outgoing session that was
  replaced changes neither the call on the screen nor the tone nor the current session. The same is not seen to for an
  incoming session: its end clears the screen of whatever call is current, and loses that call's session.\<close>

theorem stale_session_ends:
  assumes "i < length (fp_sessions s)" and "fp_session s \<noteq> Some i"
  shows "let t = session_changed i now Ss_Terminated s in
    (if se_outgoing (fp_sessions s ! i)
     then sc_call t = sc_call s \<and> sc_tone t = sc_tone s \<and> fp_audio t = fp_audio s \<and> fp_session t = fp_session s
     else sc_call t = None \<and> fp_session t = None)"
  using assms by (simp add: Let_def session_defs store_defs tone_defs)

text \<open>The timer of a refused call ends the next one. Where the current outgoing call ends before it was connected and a new
  call is placed within the three seconds, the timer takes the new call from the screen, with its tone, although its session
  is the phone's and goes on.\<close>

theorem busy_timer_ends_next_call:
  assumes "fp_session s = Some i" and "i < length (fp_sessions s)" and "se_outgoing (fp_sessions s ! i)"
    and "sc_call s = Some c" and "ac_status c \<noteq> Ps_Connected" and "ln_ua (fp_line s) \<noteq> None" and "fp_timers s = 0"
  shows "let t = fst (make_call book True cid now target name hs meta (session_changed i k Ss_Terminated s)); u = timer_fired t in
    sc_call t \<noteq> None \<and> fp_session t = Some (length (fp_sessions s)) \<and>
    sc_call u = None \<and> fp_audio u = None \<and> fp_session u = Some (length (fp_sessions s))"
  using assms by (simp add: Let_def session_defs store_defs tone_defs make_call_def timer_fired_def)

section \<open>Silence\<close>

lemma loads_silent:
  assumes "list_all (\<lambda>l. fst l < fp_tone_id s) (fp_loads s)" and "fp_audio s = None"
  shows "fp_audio (tone_loaded j s) = None \<and> list_all (\<lambda>l. fst l < fp_tone_id (tone_loaded j s)) (fp_loads (tone_loaded j s))"
proof (cases "j < length (fp_loads s)")
  case True
  then have "fst (fp_loads s ! j) < fp_tone_id s" using assms(1) by (simp add: list_all_iff)
  then show ?thesis using True assms by (auto simp: tone_loaded_def split: prod.splits)
qed (use assms in \<open>simp add: tone_loaded_def\<close>)

text \<open>A call that is taken is silent. Whatever tones were asked for before, and whenever their files arrive, none is heard
  once the current call is connected, until a new one is asked for.\<close>

theorem connected_call_is_silent:
  assumes "i < length (fp_sessions (fst (phone_run es new_phone)))"
  shows "fp_audio (fold tone_loaded js (session_changed i now Ss_Established (fst (phone_run es new_phone)))) = None"
proof -
  let ?t = "session_changed i now Ss_Established (fst (phone_run es new_phone))"
  have "list_all (\<lambda>l. fst l \<le> fp_tone_id (fst (phone_run es new_phone))) (fp_loads (fst (phone_run es new_phone)))"
    using phone_run_ok [OF new_phone_ok, of es] by (simp add: phone_ok_def)
  then have "list_all (\<lambda>l. fst l < fp_tone_id ?t) (fp_loads ?t) \<and> fp_audio ?t = None"
    using assms by (simp add: session_defs store_defs tone_defs list_all_iff less_Suc_eq_le)
  then have "fp_audio (fold tone_loaded js ?t) = None \<and> list_all (\<lambda>l. fst l < fp_tone_id (fold tone_loaded js ?t)) (fp_loads (fold tone_loaded js ?t))"
    by (induction js arbitrary: i rule: rev_induct) (use loads_silent in auto)
  then show ?thesis by blast
qed

section \<open>Instances\<close>

definition ring_in :: "string \<Rightarrow> phone_event" where
  "ring_in n = Ph_Invite no_contacts (Some n) None n 0"

definition dial_out :: "string \<Rightarrow> phone_event" where
  "dial_out n = Ph_Call no_contacts True n 0 n None [] None"

text \<open>A phone that is registered.\<close>

definition line_up :: "phone_event list" where
  "line_up = [Ph_Line (Ln_Register (asking ''Ann'')), Ph_Line (Ln_Flight 0 True), Ph_Line (Ln_Flight 0 True)]"


theorem second_invite_orphans_call_witness:
  "case phone_run [Ph_Hang_Up, Ph_Hung_Up] (on_invite no_contacts (Some ''1003'') None ''c2'' 5
       (fst (phone_run [ring_in ''1002'', Ph_Answer, Ph_Session 0 2 Ss_Established] new_phone)))
   of (t, acts) \<Rightarrow> acts = [Do_Reject 1] \<and> state_of 0 t = Ss_Established \<and> fp_session t = None"
proof -
  let ?s = "on_invite no_contacts (Some ''1003'') None ''c2'' 5 (fst (phone_run [ring_in ''1002'', Ph_Answer, Ph_Session 0 2 Ss_Established] new_phone))"
  have "fp_session (fst (phone_run [ring_in ''1002'', Ph_Answer, Ph_Session 0 2 Ss_Established] new_phone)) = Some 0"
    "state_of 0 (fst (phone_run [ring_in ''1002'', Ph_Answer, Ph_Session 0 2 Ss_Established] new_phone)) = Ss_Established"
    by code_simp+
  from second_invite_orphans_call [OF this, where es = "[Ph_Hang_Up, Ph_Hung_Up]" and book = no_contacts and user = "Some ''1003''"
      and disp = None and cid = "''c2''" and now = 5]
  have "state_of 0 (fst (phone_run [Ph_Hang_Up, Ph_Hung_Up] ?s)) = Ss_Established" by (simp add: split_beta)
  moreover have "snd (phone_run [Ph_Hang_Up, Ph_Hung_Up] ?s) = [Do_Reject 1]" "fp_session (fst (phone_run [Ph_Hang_Up, Ph_Hung_Up] ?s)) = None"
    by code_simp+
  ultimately show ?thesis by (simp add: split_beta)
qed

theorem stale_session_ends_witness:
  "sc_call (session_changed 0 9 Ss_Terminated (fst (phone_run [ring_in ''1002'', ring_in ''1003''] new_phone))) = None \<and>
   fp_session (fst (phone_run [ring_in ''1002'', ring_in ''1003''] new_phone)) = Some 1"
proof -
  let ?s = "fst (phone_run [ring_in ''1002'', ring_in ''1003''] new_phone)"
  have "0 < length (fp_sessions ?s)" "fp_session ?s \<noteq> Some 0" "\<not> se_outgoing (fp_sessions ?s ! 0)" "fp_session ?s = Some 1" by code_simp+
  with stale_session_ends [OF this(1,2), of 9] show ?thesis by (simp add: Let_def)
qed

theorem busy_timer_ends_next_call_witness:
  "let s = fst (phone_run (line_up @ [dial_out ''1002'']) new_phone);
     u = timer_fired (fst (make_call no_contacts True ''c2'' 3 ''1003'' None [] None (session_changed 0 2 Ss_Terminated s)))
   in sc_call u = None \<and> fp_session u = Some 1"
proof -
  let ?s = "fst (phone_run (line_up @ [dial_out ''1002'']) new_phone)"
  have h: "fp_session ?s = Some 0" "0 < length (fp_sessions ?s)" "se_outgoing (fp_sessions ?s ! 0)"
    "sc_call ?s \<noteq> None" "ln_ua (fp_line ?s) \<noteq> None" "fp_timers ?s = 0" "length (fp_sessions ?s) = 1"
    "map_option ac_status (sc_call ?s) = Some Ps_Dialing" by code_simp+
  then obtain c where c: "sc_call ?s = Some c" "ac_status c \<noteq> Ps_Connected" by auto
  from busy_timer_ends_next_call [OF h(1-3) c h(5,6)] h(7) show ?thesis by (simp add: Let_def)
qed

theorem connected_call_is_silent_witness:
  "fp_loads (fst (phone_run [ring_in ''1002''] new_phone)) \<noteq> [] \<and>
   fp_audio (fold tone_loaded [0] (session_changed 0 1 Ss_Established (fst (phone_run [ring_in ''1002''] new_phone)))) = None"
proof -
  have "0 < length (fp_sessions (fst (phone_run [ring_in ''1002''] new_phone)))" by code_simp
  moreover have "fp_loads (fst (phone_run [ring_in ''1002''] new_phone)) \<noteq> []" by code_simp
  ultimately show ?thesis using connected_call_is_silent by blast
qed

end
