(* ===== verification/Bridge_Phone.thy ===== *)
theory Bridge_Phone
  imports Softphone
begin

text \<open>
  The browser's side of the PSTN bridge, \<^verbatim>\<open>src/web/app/hooks/useBrowserBridge.ts\<close>: a caller forwarded to the
  browser is shown through the call store that the SIP phone shares. What waits (the ringtone's file, the audio
  output, the microphone, the reconnection) is part of the state, and a step lets it go on.
\<close>

section \<open>State\<close>

record browser_leg =
  bl_ws :: "nat option"
  bl_sockets :: nat
  bl_open :: "nat list"
  bl_extension :: string
  bl_closed :: bool
  bl_timer :: "nat option"
  bl_timers :: "nat list"
  bl_next_timer :: nat
  bl_player :: bool
  bl_mic :: bool
  bl_ringtone :: bool
  bl_ring_loads :: nat
  bl_answered :: bool
  bl_call :: "string option"
  bl_resuming :: nat
  bl_asking_mic :: nat

definition no_leg :: browser_leg where
  "no_leg = \<lparr>bl_ws = None, bl_sockets = 0, bl_open = [], bl_extension = [], bl_closed = False, bl_timer = None, bl_timers = [],
     bl_next_timer = 0, bl_player = False, bl_mic = False, bl_ringtone = False, bl_ring_loads = 0, bl_answered = False, bl_call = None,
     bl_resuming = 0, bl_asking_mic = 0\<rparr>"

type_synonym web_phone = "phone \<times> browser_leg"

text \<open>The control message that goes to the server, by its socket.\<close>

datatype leg_act = Leg_Hang_Up nat

section \<open>Operations\<close>

definition stop_ringtone :: "browser_leg \<Rightarrow> browser_leg" where
  "stop_ringtone b = b\<lparr>bl_ringtone := False\<rparr>"

definition play_ringtone :: "browser_leg \<Rightarrow> browser_leg" where
  "play_ringtone b = (stop_ringtone b)\<lparr>bl_ring_loads := bl_ring_loads b + 1\<rparr>"

definition ringtone_loaded :: "browser_leg \<Rightarrow> browser_leg" where
  "ringtone_loaded b = (if bl_ring_loads b = 0 then b else b\<lparr>bl_ring_loads := bl_ring_loads b - 1, bl_ringtone := True\<rparr>)"

definition teardown_audio :: "browser_leg \<Rightarrow> browser_leg" where
  "teardown_audio b = (stop_ringtone b)\<lparr>bl_mic := False, bl_player := False, bl_answered := False\<rparr>"

definition on_linked :: "string option \<Rightarrow> string option \<Rightarrow> string \<Rightarrow> nat \<Rightarrow> web_phone \<Rightarrow> web_phone \<times> leg_act list" where
  "on_linked call_id caller own_id now w = (case w of (s, b) \<Rightarrow>
     (case sc_call s of
        Some c \<Rightarrow> (w, case (bl_call b, bl_ws b) of (Some i, Some k) \<Rightarrow> if i \<noteq> [] \<and> ac_id c \<noteq> i then [Leg_Hang_Up k] else [] | _ \<Rightarrow> [])
      | None \<Rightarrow>
        (let i = str_or call_id own_id; peer = str_or (map_option trim caller) ''Unknown''
         in ((set_tone (Some To_Ringtone) (start_call \<lparr>ac_id = i, ac_peer = peer, ac_name = peer, ac_inbound = True, ac_status = Ps_Ringing,
               ac_start = now, ac_source = Some Cs_Bridge, ac_room = None\<rparr> s),
              play_ringtone (b\<lparr>bl_call := Some i, bl_answered := False\<rparr>)), []))))"

definition on_stop :: "web_phone \<Rightarrow> web_phone" where
  "on_stop w = (end_call (set_tone None (fst w)), (teardown_audio (snd w))\<lparr>bl_call := None\<rparr>)"

text \<open>\<^term>\<open>url\<close> says whether the page has an address of the bridge.\<close>

definition connect_leg :: "bool \<Rightarrow> string \<Rightarrow> browser_leg \<Rightarrow> browser_leg" where
  "connect_leg url ext b =
     (let b1 = b\<lparr>bl_extension := ext, bl_closed := False\<rparr>
      in if (case bl_ws b of Some k \<Rightarrow> k \<in> set (bl_open b) | None \<Rightarrow> False) \<or> \<not> url then b1
         else b1\<lparr>bl_ws := Some (bl_sockets b), bl_sockets := bl_sockets b + 1\<rparr>)"

definition socket_opened :: "nat \<Rightarrow> browser_leg \<Rightarrow> browser_leg" where
  "socket_opened k b = b\<lparr>bl_open := bl_open b @ [k]\<rparr>"

definition in_call :: "browser_leg \<Rightarrow> bool" where
  "in_call b \<longleftrightarrow> truthy (bl_call b)"

definition socket_closed :: "nat \<Rightarrow> web_phone \<Rightarrow> web_phone" where
  "socket_closed k w =
     (let b = snd w; b1 = b\<lparr>bl_open := removeAll k (bl_open b), bl_ws := (if bl_ws b = Some k then None else bl_ws b)\<rparr>;
          w1 = (if in_call b1 then on_stop (fst w, b1) else (fst w, b1)); b2 = snd w1
      in if bl_closed b2 then w1
         else (fst w1, b2\<lparr>bl_timer := Some (bl_next_timer b2), bl_timers := bl_timers b2 @ [bl_next_timer b2], bl_next_timer := bl_next_timer b2 + 1\<rparr>))"

definition reconnect :: "bool \<Rightarrow> nat \<Rightarrow> browser_leg \<Rightarrow> browser_leg" where
  "reconnect url t b = (if t \<in> set (bl_timers b) then connect_leg url (bl_extension b) (b\<lparr>bl_timers := removeAll t (bl_timers b)\<rparr>) else b)"

definition disconnect_leg :: "browser_leg \<Rightarrow> browser_leg" where
  "disconnect_leg b =
     (let b1 = (case bl_timer b of Some t \<Rightarrow> b\<lparr>bl_timers := removeAll t (bl_timers b)\<rparr> | None \<Rightarrow> b)
      in (teardown_audio (b1\<lparr>bl_closed := True, bl_timer := None\<rparr>))\<lparr>bl_call := None, bl_ws := None\<rparr>)"

definition answer_leg :: "web_phone \<Rightarrow> web_phone" where
  "answer_leg w = (if \<not> in_call (snd w) \<or> bl_answered (snd w) then w
     else (set_tone None (fst w), (stop_ringtone (snd w))\<lparr>bl_resuming := bl_resuming (snd w) + 1\<rparr>))"

definition player_resumed :: "browser_leg \<Rightarrow> browser_leg" where
  "player_resumed b = (if bl_resuming b = 0 then b
     else b\<lparr>bl_resuming := bl_resuming b - 1, bl_player := True, bl_answered := True, bl_asking_mic := bl_asking_mic b + 1\<rparr>)"

definition mic_started :: "bool \<Rightarrow> web_phone \<Rightarrow> web_phone" where
  "mic_started ok w = (if bl_asking_mic (snd w) = 0 then w
     else (update_active (\<lambda>c. c\<lparr>ac_status := Ps_Connected\<rparr>) (fst w),
       (snd w)\<lparr>bl_asking_mic := bl_asking_mic (snd w) - 1, bl_mic := (ok \<or> bl_mic (snd w))\<rparr>))"

definition hang_up_leg :: "web_phone \<Rightarrow> web_phone \<times> leg_act list" where
  "hang_up_leg w = (on_stop w, case bl_ws (snd w) of Some k \<Rightarrow> if k \<in> set (bl_open (snd w)) then [Leg_Hang_Up k] else [] | None \<Rightarrow> [])"

text \<open>The caller's audio is heard once the call is answered, and the microphone's frames go out while the socket is open.\<close>

definition frame_heard :: "browser_leg \<Rightarrow> bool" where
  "frame_heard b \<longleftrightarrow> bl_answered b \<and> bl_player b"

definition mic_sends :: "browser_leg \<Rightarrow> bool" where
  "mic_sends b \<longleftrightarrow> bl_mic b \<and> (case bl_ws b of Some k \<Rightarrow> k \<in> set (bl_open b) | None \<Rightarrow> False)"

datatype leg_event =
    Lg_Connect bool string
  | Lg_Opened nat
  | Lg_Linked "string option" "string option" string nat
  | Lg_Stop
  | Lg_Closed nat
  | Lg_Reconnect bool nat
  | Lg_Disconnect
  | Lg_Answer
  | Lg_Resumed
  | Lg_Mic bool
  | Lg_Hang_Up
  | Lg_Ringtone
  | Lg_Phone phone_event

definition leg_step :: "leg_event \<Rightarrow> web_phone \<Rightarrow> web_phone" where
  "leg_step e w = (case e of
     Lg_Connect url ext \<Rightarrow> (fst w, connect_leg url ext (snd w))
   | Lg_Opened k \<Rightarrow> (fst w, socket_opened k (snd w))
   | Lg_Linked i caller own now \<Rightarrow> fst (on_linked i caller own now w)
   | Lg_Stop \<Rightarrow> on_stop w
   | Lg_Closed k \<Rightarrow> socket_closed k w
   | Lg_Reconnect url t \<Rightarrow> (fst w, reconnect url t (snd w))
   | Lg_Disconnect \<Rightarrow> (fst w, disconnect_leg (snd w))
   | Lg_Answer \<Rightarrow> answer_leg w
   | Lg_Resumed \<Rightarrow> (fst w, player_resumed (snd w))
   | Lg_Mic ok \<Rightarrow> mic_started ok w
   | Lg_Hang_Up \<Rightarrow> fst (hang_up_leg w)
   | Lg_Ringtone \<Rightarrow> (fst w, ringtone_loaded (snd w))
   | Lg_Phone p \<Rightarrow> (fst (phone_step p (fst w)), snd w))"

section \<open>The microphone\<close>

definition deaf :: "browser_leg \<Rightarrow> bool" where
  "deaf b \<longleftrightarrow> \<not> bl_mic b \<and> \<not> bl_answered b \<and> bl_resuming b = 0 \<and> bl_asking_mic b = 0"

lemmas leg_defs = stop_ringtone_def play_ringtone_def ringtone_loaded_def teardown_audio_def on_stop_def

lemma deaf_step: "\<lbrakk>deaf (snd w); e \<noteq> Lg_Answer\<rbrakk> \<Longrightarrow> deaf (snd (leg_step e w))"
  by (cases e; cases w) (auto simp: deaf_def leg_step_def connect_leg_def socket_opened_def on_linked_def socket_closed_def reconnect_def
      disconnect_leg_def player_resumed_def mic_started_def hang_up_leg_def leg_defs Let_def split: option.splits)


text \<open>Hanging up does not stop an answer that is under way. If the call ends, from either side, while the audio output is
  being woken, the answer goes on: the microphone is opened and sent to the bridge's socket, with no call on the screen
  and none known to the bridge's hook, so that the user has nothing to hang up.\<close>

theorem late_answer_opens_microphone:
  assumes "in_call b" and "\<not> bl_answered b" and "bl_resuming b = 0" and "bl_asking_mic b = 0"
    and "bl_ws b = Some k" and "k \<in> set (bl_open b)"
  shows "let w = fold leg_step [Lg_Answer, Lg_Stop, Lg_Resumed, Lg_Mic True] (s, b)
    in mic_sends (snd w) \<and> frame_heard (snd w) \<and> sc_call (fst w) = None \<and> bl_call (snd w) = None"
  using assms
  by (simp add: Let_def leg_step_def answer_leg_def leg_defs player_resumed_def mic_started_def mic_sends_def frame_heard_def
      in_call_def store_defs set_tone_def)

text \<open>A ringtone whose file arrives after the call has ended rings: the load is not cancelled, and the tone loops until the
  next call or the end of the page.\<close>

theorem late_ringtone_rings:
  assumes "sc_call s = None" and "bl_ring_loads b = 0"
  shows "let w = fold leg_step [Lg_Linked i caller own now, Lg_Stop, Lg_Ringtone] (s, b)
    in bl_ringtone (snd w) \<and> sc_call (fst w) = None \<and> bl_call (snd w) = None"
  using assms
  by (simp add: Let_def leg_step_def on_linked_def leg_defs store_defs set_tone_def)

text \<open>A bridged caller who comes during a call is neither shown nor refused, be it a SIP call or the bridge's own: the answer
  that the line is busy is only given where the hook knows a call other than the one on the screen. And when the caller who
  came during a SIP call gives up, the stop clears the SIP call from the screen, although its session is still the phone's.\<close>

theorem bridge_caller_ends_sip_call:
  assumes "sc_call s = Some c" and "bl_call b = None \<or> bl_call b = Some (ac_id c)"
  shows "on_linked cid caller own now (s, b) = ((s, b), []) \<and>
    sc_call (fst (leg_step Lg_Stop (s, b))) = None \<and> fp_session (fst (leg_step Lg_Stop (s, b))) = fp_session s"
  using assms by (auto simp: on_linked_def leg_step_def leg_defs store_defs set_tone_def split: option.split)

section \<open>Instances\<close>

definition linked_in :: web_phone where
  "linked_in = fold leg_step [Lg_Connect True ''1001'', Lg_Opened 0, Lg_Linked (Some ''c1'') (Some ''+9198'') ''b1'' 5] (new_phone, no_leg)"


theorem late_answer_opens_microphone_witness:
  "mic_sends (snd (fold leg_step [Lg_Answer, Lg_Stop, Lg_Resumed, Lg_Mic True] linked_in))"
proof -
  have "in_call (snd linked_in)" "\<not> bl_answered (snd linked_in)" "bl_resuming (snd linked_in) = 0" "bl_asking_mic (snd linked_in) = 0"
    "bl_ws (snd linked_in) = Some 0" "0 \<in> set (bl_open (snd linked_in))" by code_simp+
  from late_answer_opens_microphone [OF this, where s = "fst linked_in"] show ?thesis by (simp add: Let_def)
qed

theorem late_ringtone_rings_witness:
  "bl_ringtone (snd (fold leg_step [Lg_Linked None None ''b1'' 5, Lg_Stop, Lg_Ringtone] (new_phone, no_leg)))"
proof -
  have "sc_call new_phone = None" "bl_ring_loads no_leg = 0" by code_simp+
  from late_ringtone_rings [OF this] show ?thesis by (simp add: Let_def)
qed

theorem bridge_caller_ends_sip_call_witness:
  "fp_session (fst (leg_step Lg_Stop (fst (phone_run [ring_in ''1002'', Ph_Answer, Ph_Session 0 2 Ss_Established] new_phone), no_leg))) = Some 0 \<and>
   sc_call (fst (leg_step Lg_Stop (fst (phone_run [ring_in ''1002'', Ph_Answer, Ph_Session 0 2 Ss_Established] new_phone), no_leg))) = None"
proof -
  let ?s = "fst (phone_run [ring_in ''1002'', Ph_Answer, Ph_Session 0 2 Ss_Established] new_phone)"
  have s: "sc_call ?s \<noteq> None" "bl_call no_leg = None" "fp_session ?s = Some 0" by code_simp+
  then obtain c where "sc_call ?s = Some c" by blast
  from bridge_caller_ends_sip_call [OF this, of no_leg] s show ?thesis by simp
qed

end
