(* ===== verification/Voice_Widget.thy ===== *)
theory Voice_Widget
  imports Json
begin

text \<open>
  The click-to-call widget: the requests of \<^verbatim>\<open>src/packages/voice-widget/src/api.ts\<close>, the options of
  \<^verbatim>\<open>embed.ts\<close>, the call of \<^verbatim>\<open>sip-call.ts\<close> and the widget of \<^verbatim>\<open>widget.ts\<close>. The methods are asynchronous:
  what waits (a request, the microphone and the transport, an invitation) is part of the state, and a
  step lets it go on with what the browser, the server or the SIP library answered.
\<close>

section \<open>Requests\<close>

text \<open>What \<^verbatim>\<open>fetch\<close> gives: nothing, or a status with the parsed body, if it could be parsed.\<close>

datatype http_result = Unreachable | Answered nat "json option"

record widget_error =
  we_message :: string
  we_status :: nat

definition status_ok :: "nat \<Rightarrow> bool" where
  "status_ok n \<longleftrightarrow> 200 \<le> n \<and> n \<le> 299"

definition error_text :: "nat \<Rightarrow> json option \<Rightarrow> string" where
  "error_text n j = (case j_prop j ''message'' of Some (J_Str (c # s)) \<Rightarrow> c # s | _ \<Rightarrow> ''Request failed ('' @ show_nat n @ '')'')"

definition post_json :: "http_result \<Rightarrow> widget_error + json" where
  "post_json r = (case r of
     Unreachable \<Rightarrow> Inl \<lparr>we_message = ''Could not reach the voice service'', we_status = 0\<rparr>
   | Answered n j \<Rightarrow>
       if \<not> status_ok n \<or> \<not> j_true j \<or> j_prop j ''success'' = Some (J_Bool False)
       then Inl \<lparr>we_message = error_text n j, we_status = n\<rparr>
       else Inr (case j_prop j ''data'' of Some J_Null \<Rightarrow> the j | Some d \<Rightarrow> d | None \<Rightarrow> the j))"

definition text_field :: "json \<Rightarrow> string \<Rightarrow> string" where
  "text_field j k = (case j_prop (Some j) k of Some (J_Str s) \<Rightarrow> s | _ \<Rightarrow> [])"

record connect_params =
  cp_sip_ws :: string
  cp_domain :: string
  cp_caller_id :: "string option"

record widget_session = connect_params +
  ws_token :: string
  ws_destination :: string

definition opt_field :: "json \<Rightarrow> string \<Rightarrow> string option" where
  "opt_field j k = (case j_prop (Some j) k of Some (J_Str s) \<Rightarrow> Some s | _ \<Rightarrow> None)"

definition config_of :: "json \<Rightarrow> connect_params" where
  "config_of j = \<lparr>cp_sip_ws = text_field j ''sipWsUrl'', cp_domain = text_field j ''domain'', cp_caller_id = opt_field j ''callerId''\<rparr>"

definition session_of :: "json \<Rightarrow> widget_session" where
  "session_of j = \<lparr>cp_sip_ws = text_field j ''sipWsUrl'', cp_domain = text_field j ''domain'', cp_caller_id = opt_field j ''callerId'',
     ws_token = text_field j ''token'', ws_destination = text_field j ''destination''\<rparr>"

definition strip_slashes :: "string \<Rightarrow> string" where
  "strip_slashes s = rev (dropWhile (\<lambda>c. c = CHR ''/'') (rev s))"

definition resolve_api_base :: "string option \<Rightarrow> string option \<Rightarrow> string" where
  "resolve_api_base explicit page = (if truthy explicit then strip_slashes (the explicit) else or_else page [])"

section \<open>The script tag\<close>

type_synonym attributes = "string \<Rightarrow> string option"

definition attr :: "attributes option \<Rightarrow> string \<Rightarrow> string option" where
  "attr script k = (case script of None \<Rightarrow> None | Some a \<Rightarrow> non_empty (map_option trim (a k)))"

definition is_off :: "string option \<Rightarrow> bool" where
  "is_off v \<longleftrightarrow> truthy v \<and> to_lower (the v) \<in> {''no'', ''false'', ''off'', ''0''}"

record widget_options =
  wo_public_key :: string
  wo_api_base :: "string option"
  wo_bottom_left :: bool
  wo_theme :: string
  wo_gifs :: bool
  wo_gif_blend :: "string option"

text \<open>The tag of the bundle, when it has the key, or the last tag of the page that has one.\<close>

definition find_script :: "attributes option \<Rightarrow> attributes list \<Rightarrow> attributes option" where
  "find_script own tags =
     (if (case own of Some a \<Rightarrow> truthy (a ''data-enjoys-key'') | None \<Rightarrow> False) then own
      else case filter (\<lambda>a. a ''data-enjoys-key'' \<noteq> None) tags of [] \<Rightarrow> None | xs \<Rightarrow> Some (last xs))"

definition boot :: "attributes option \<Rightarrow> attributes list \<Rightarrow> (attributes \<Rightarrow> string option) \<Rightarrow> widget_options option" where
  "boot own tags origin_of =
     (let sc = find_script own tags
      in case (case attr sc ''data-enjoys-key'' of Some k \<Rightarrow> Some k | None \<Rightarrow> attr sc ''data-key'') of
           None \<Rightarrow> None
         | Some key \<Rightarrow> Some \<lparr>wo_public_key = key,
             wo_api_base = (case attr sc ''data-api-base'' of Some b \<Rightarrow> Some b | None \<Rightarrow> Option.bind sc origin_of),
             wo_bottom_left = (attr sc ''data-position'' = Some ''bottom-left''),
             wo_theme = (case attr sc ''data-theme'' of Some t \<Rightarrow> if t \<in> {''light'', ''dark''} then t else ''auto'' | None \<Rightarrow> ''auto''),
             wo_gifs = (\<not> is_off (attr sc ''data-gifs'')),
             wo_gif_blend = (case attr sc ''data-gif-blend'' of Some t \<Rightarrow> if t \<in> {''multiply'', ''screen''} then Some t else None | None \<Rightarrow> None)\<rparr>)"

section \<open>The widget and its call\<close>

datatype widget_state = Wg_Validating | Wg_Invalid | Wg_Idle | Wg_Connecting | Wg_Ringing | Wg_In_Call | Wg_Ended | Wg_Error

datatype call_state = Ca_Connecting | Ca_Ready | Ca_Ringing | Ca_In_Call | Ca_Ended | Ca_Failed

datatype inviter_state = Iv_Initial | Iv_Establishing | Iv_Established | Iv_Terminating | Iv_Terminated

text \<open>Who waits for the transport: the warm-up after validation, or a call with its session.\<close>

datatype waiter = Wt_Preconnect | Wt_Start widget_session

record widget =
  wg_state :: widget_state
  wg_config :: "connect_params option"
  wg_call :: bool
  wg_ua :: "string option"
  wg_connected :: bool
  wg_opening :: "connect_params option"
  wg_granted :: bool
  wg_waiters :: "waiter list"
  wg_inviters :: "inviter_state list"
  wg_session :: "nat option"
  wg_minting :: nat
  wg_ended_timers :: nat
  wg_error_timers :: nat

definition new_widget :: widget where
  "new_widget = \<lparr>wg_state = Wg_Validating, wg_config = None, wg_call = False, wg_ua = None, wg_connected = False, wg_opening = None,
     wg_granted = False, wg_waiters = [], wg_inviters = [], wg_session = None, wg_minting = 0, wg_ended_timers = 0, wg_error_timers = 0\<rparr>"

datatype widget_act =
    Mint
  | Ask_Microphone
  | Open_Transport string string string
  | Send_Invite nat string string
  | Cancel_Call nat
  | Bye_Call nat

text \<open>The user part of the guest's address: the key's caller identity where it is safe in a URI.\<close>

definition safe_user_char :: "char \<Rightarrow> bool" where
  "safe_user_char c \<longleftrightarrow> is_letter c \<or> is_digit c \<or> c = CHR ''.'' \<or> c = CHR ''_'' \<or> c = CHR ''-''"

definition from_user :: "string option \<Rightarrow> string" where
  "from_user cid = (let raw = or_else cid [] in if list_all safe_user_char raw \<and> raw \<noteq> [] \<and> length raw \<le> 40 then raw else ''widget'')"

definition on_call_state :: "call_state \<Rightarrow> widget \<Rightarrow> widget" where
  "on_call_state cs w = (case cs of
     Ca_Ready \<Rightarrow> if wg_state w = Wg_Idle \<or> wg_state w = Wg_Validating then w\<lparr>wg_state := Wg_Idle\<rparr> else w
   | Ca_Connecting \<Rightarrow> w\<lparr>wg_state := Wg_Connecting\<rparr>
   | Ca_Ringing \<Rightarrow> w\<lparr>wg_state := Wg_Ringing\<rparr>
   | Ca_In_Call \<Rightarrow> w\<lparr>wg_state := Wg_In_Call\<rparr>
   | Ca_Ended \<Rightarrow> w\<lparr>wg_state := Wg_Ended, wg_ended_timers := wg_ended_timers w + 1\<rparr>
   | Ca_Failed \<Rightarrow> w\<lparr>wg_state := Wg_Error, wg_error_timers := wg_error_timers w + 1\<rparr>)"

definition ended_timer :: "widget \<Rightarrow> widget" where
  "ended_timer w = (if wg_ended_timers w = 0 then w
     else w\<lparr>wg_ended_timers := wg_ended_timers w - 1, wg_state := (if wg_state w = Wg_Ended then Wg_Idle else wg_state w)\<rparr>)"

definition error_timer :: "widget \<Rightarrow> widget" where
  "error_timer w = (if wg_error_timers w = 0 then w
     else w\<lparr>wg_error_timers := wg_error_timers w - 1, wg_state := (if wg_state w = Wg_Error then Wg_Idle else wg_state w)\<rparr>)"

text \<open>\<^verbatim>\<open>connect\<close>: at once when the transport is up, with the opening that is under way, or with a new one.\<close>

definition end_session :: "widget \<Rightarrow> widget" where
  "end_session w = w\<lparr>wg_session := None\<rparr>"

definition place_call :: "bool \<Rightarrow> widget_session \<Rightarrow> widget \<Rightarrow> widget \<times> widget_act list" where
  "place_call uri_ok ses w =
     (let w1 = on_call_state Ca_Connecting w
      in if wg_ua w1 = None \<or> \<not> uri_ok then (on_call_state Ca_Failed w1, [])
         else (w1\<lparr>wg_session := Some (length (wg_inviters w1)), wg_inviters := wg_inviters w1 @ [Iv_Initial]\<rparr>,
           [Send_Invite (length (wg_inviters w1)) (ws_destination ses) (ws_token ses)]))"

definition connect_call :: "'a connect_params_scheme \<Rightarrow> waiter \<Rightarrow> widget \<Rightarrow> widget \<times> widget_act list" where
  "connect_call p x w =
     (if wg_opening w \<noteq> None then (w\<lparr>wg_waiters := wg_waiters w @ [x]\<rparr>, [])
      else (w\<lparr>wg_opening := Some (connect_params.truncate p), wg_granted := False, wg_waiters := [x]\<rparr>, [Ask_Microphone]))"

definition start_session :: "bool \<Rightarrow> widget_session \<Rightarrow> widget \<Rightarrow> widget \<times> widget_act list" where
  "start_session uri_ok ses w =
     (if wg_connected w \<and> wg_ua w \<noteq> None then place_call uri_ok ses w else connect_call ses (Wt_Start ses) w)"

text \<open>The microphone was granted: the transport is opened.\<close>

definition mic_granted :: "widget \<Rightarrow> widget \<times> widget_act list" where
  "mic_granted w = (case wg_opening w of None \<Rightarrow> (w, []) | Some p \<Rightarrow> if wg_granted w then (w, [])
       else (w\<lparr>wg_ua := Some (from_user (cp_caller_id p)), wg_granted := True\<rparr>,
         [Open_Transport (cp_sip_ws p) (from_user (cp_caller_id p)) (cp_domain p)]))"

fun waiter_ready :: "bool \<Rightarrow> waiter list \<Rightarrow> widget \<Rightarrow> widget \<times> widget_act list" where
  "waiter_ready ok [] w = (w, [])"
| "waiter_ready ok (Wt_Preconnect # xs) w = waiter_ready ok xs w"
| "waiter_ready ok (Wt_Start ses # xs) w =
     (case place_call ok ses w of (w1, as) \<Rightarrow> (case waiter_ready ok xs w1 of (w2, bs) \<Rightarrow> (w2, as @ bs)))"

definition fail_call :: "widget \<Rightarrow> widget" where
  "fail_call w = w\<lparr>wg_state := Wg_Error\<rparr>"

fun waiter_failed :: "waiter list \<Rightarrow> widget \<Rightarrow> widget" where
  "waiter_failed [] w = w"
| "waiter_failed (Wt_Preconnect # xs) w = waiter_failed xs (w\<lparr>wg_call := False, wg_ua := None, wg_connected := False\<rparr>)"
| "waiter_failed (Wt_Start ses # xs) w = waiter_failed xs (fail_call w)"

definition transport_up :: "bool \<Rightarrow> widget \<Rightarrow> widget \<times> widget_act list" where
  "transport_up uri_ok w =
     (if wg_opening w = None \<or> \<not> wg_granted w then (w, [])
      else waiter_ready uri_ok (wg_waiters w) (on_call_state Ca_Ready (w\<lparr>wg_connected := True, wg_opening := None, wg_waiters := []\<rparr>)))"

definition transport_failed :: "widget \<Rightarrow> widget" where
  "transport_failed w = (if wg_opening w = None then w else waiter_failed (wg_waiters w) (w\<lparr>wg_opening := None, wg_waiters := []\<rparr>))"

definition validated :: "http_result \<Rightarrow> widget \<Rightarrow> widget \<times> widget_act list" where
  "validated r w =
     (if wg_state w \<noteq> Wg_Validating then (w, [])
      else case post_json r of
        Inl e \<Rightarrow> (w\<lparr>wg_state := Wg_Invalid\<rparr>, [])
      | Inr j \<Rightarrow> connect_call (config_of j) Wt_Preconnect (w\<lparr>wg_config := Some (config_of j), wg_state := Wg_Idle, wg_call := True\<rparr>))"

definition start_call :: "widget \<Rightarrow> widget \<times> widget_act list" where
  "start_call w =
     (if wg_state w \<in> {Wg_Validating, Wg_Invalid, Wg_Connecting, Wg_Ringing, Wg_In_Call} then (w, [])
      else (w\<lparr>wg_state := Wg_Connecting, wg_minting := wg_minting w + 1\<rparr>, [Mint]))"

definition session_minted :: "bool \<Rightarrow> http_result \<Rightarrow> widget \<Rightarrow> widget \<times> widget_act list" where
  "session_minted uri_ok r w =
     (if wg_minting w = 0 then (w, [])
      else let w1 = w\<lparr>wg_minting := wg_minting w - 1\<rparr>
        in case post_json r of Inl e \<Rightarrow> (fail_call w1, []) | Inr j \<Rightarrow> start_session uri_ok (session_of j) (w1\<lparr>wg_call := True\<rparr>))"

definition inviter_changed :: "nat \<Rightarrow> inviter_state \<Rightarrow> widget \<Rightarrow> widget" where
  "inviter_changed i st w =
     (if i < length (wg_inviters w)
      then let w1 = w\<lparr>wg_inviters := (wg_inviters w)[i := st]\<rparr>
        in case st of Iv_Establishing \<Rightarrow> on_call_state Ca_Ringing w1
           | Iv_Established \<Rightarrow> on_call_state Ca_In_Call w1
           | Iv_Terminated \<Rightarrow> end_session (on_call_state Ca_Ended w1)
           | _ \<Rightarrow> w1
      else w)"

definition invite_rejected :: "widget \<Rightarrow> widget" where
  "invite_rejected w = (if wg_inviters w = [] then w else end_session (on_call_state Ca_Failed w))"

definition hang_up :: "widget \<Rightarrow> widget_act list" where
  "hang_up w = (case wg_session w of None \<Rightarrow> []
     | Some i \<Rightarrow> (case wg_inviters w ! i of Iv_Initial \<Rightarrow> [Cancel_Call i] | Iv_Establishing \<Rightarrow> [Cancel_Call i]
         | Iv_Established \<Rightarrow> [Bye_Call i] | _ \<Rightarrow> []))"

definition destroy :: "widget \<Rightarrow> widget \<times> widget_act list" where
  "destroy w = (if wg_call w then ((end_session w)\<lparr>wg_ua := None, wg_connected := False\<rparr>, hang_up w) else (w, []))"

section \<open>Steps\<close>

datatype widget_event =
    We_Validated http_result
  | We_Click
  | We_Minted bool http_result
  | We_Mic_Granted
  | We_Transport bool
  | We_Transport_Failed
  | We_Inviter nat inviter_state
  | We_Rejected
  | We_Hang_Up
  | We_Destroy
  | We_Ended_Timer
  | We_Error_Timer

definition widget_step :: "widget_event \<Rightarrow> widget \<Rightarrow> widget \<times> widget_act list" where
  "widget_step e w = (case e of
     We_Validated r \<Rightarrow> validated r w
   | We_Click \<Rightarrow> start_call w
   | We_Minted ok r \<Rightarrow> session_minted ok r w
   | We_Mic_Granted \<Rightarrow> mic_granted w
   | We_Transport ok \<Rightarrow> transport_up ok w
   | We_Transport_Failed \<Rightarrow> (transport_failed w, [])
   | We_Inviter i st \<Rightarrow> (inviter_changed i st w, [])
   | We_Rejected \<Rightarrow> (invite_rejected w, [])
   | We_Hang_Up \<Rightarrow> (w, hang_up w)
   | We_Destroy \<Rightarrow> destroy w
   | We_Ended_Timer \<Rightarrow> (ended_timer w, [])
   | We_Error_Timer \<Rightarrow> (error_timer w, []))"

fun widget_run :: "widget_event list \<Rightarrow> widget \<Rightarrow> widget \<times> widget_act list" where
  "widget_run [] w = (w, [])"
| "widget_run (e # es) w = (case widget_step e w of (v, as) \<Rightarrow> (case widget_run es v of (u, bs) \<Rightarrow> (u, as @ bs)))"


section \<open>What the widget asks for\<close>

text \<open>Before the key is accepted nothing has been made.\<close>

definition unproven :: "widget \<Rightarrow> bool" where
  "unproven w \<longleftrightarrow> wg_state w \<in> {Wg_Validating, Wg_Invalid} \<and> \<not> wg_call w \<and> wg_opening w = None \<and> wg_inviters w = [] \<and>
     wg_session w = None \<and> wg_minting w = 0 \<and> wg_ended_timers w = 0 \<and> wg_error_timers w = 0"

definition refused :: "widget_event \<Rightarrow> bool" where
  "refused e \<longleftrightarrow> (case e of We_Validated r \<Rightarrow> (case post_json r of Inl x \<Rightarrow> True | Inr j \<Rightarrow> False) | _ \<Rightarrow> True)"

lemma unproven_step:
  assumes "unproven w" and "refused e"
  shows "unproven (fst (widget_step e w)) \<and> snd (widget_step e w) = []"
  using assms
  by (cases e) (auto simp: unproven_def refused_def widget_step_def validated_def start_call_def session_minted_def mic_granted_def
      transport_up_def transport_failed_def inviter_changed_def hang_up_def destroy_def invite_rejected_def ended_timer_def error_timer_def split: sum.splits)

text \<open>The widget loads only if its key is valid. As long as the server has not accepted the key, whatever the visitor and the
  page do, the widget asks for no microphone, opens no transport, mints no session and sends no INVITE, and its state is
  that it is validating or invalid.\<close>

theorem widget_needs_valid_key:
  assumes "list_all refused es"
  shows "snd (widget_run es new_widget) = [] \<and> wg_state (fst (widget_run es new_widget)) \<in> {Wg_Validating, Wg_Invalid}"
proof -
  have "snd (widget_run es w) = [] \<and> unproven (fst (widget_run es w))" if "unproven w" for w
    using that assms
  proof (induction es arbitrary: w)
    case (Cons e es)
    with unproven_step [of w e] show ?case by (simp add: split_beta)
  qed simp
  from this [of new_widget] show ?thesis by (simp add: unproven_def new_widget_def)
qed

text \<open>An INVITE comes from a session that the server minted, through the list of those who wait for the transport.\<close>

definition minted_in :: "widget_event list \<Rightarrow> string \<Rightarrow> string \<Rightarrow> bool" where
  "minted_in es d t \<longleftrightarrow> (\<exists>ok r j. We_Minted ok r \<in> set es \<and> post_json r = Inr j \<and> ws_destination (session_of j) = d \<and> ws_token (session_of j) = t)"

definition waiting_in :: "widget_event list \<Rightarrow> widget \<Rightarrow> bool" where
  "waiting_in es w \<longleftrightarrow> (\<forall>ses. Wt_Start ses \<in> set (wg_waiters w) \<longrightarrow> minted_in es (ws_destination ses) (ws_token ses))"

definition invites :: "widget_act list \<Rightarrow> nat" where
  "invites as = length (filter (\<lambda>a. case a of Send_Invite i d t \<Rightarrow> True | _ \<Rightarrow> False) as)"

definition mints :: "widget_act list \<Rightarrow> nat" where
  "mints as = length (filter (\<lambda>a. a = Mint) as)"

definition starters :: "waiter list \<Rightarrow> nat" where
  "starters xs = length (filter (\<lambda>x. x \<noteq> Wt_Preconnect) xs)"

lemma count_simps [simp]:
  "invites [] = 0" "invites (as @ bs) = invites as + invites bs" "mints [] = 0" "mints (as @ bs) = mints as + mints bs"
  "invites (Mint # as) = invites as" "invites (Ask_Microphone # as) = invites as" "invites (Open_Transport a b c # as) = invites as"
  "invites (Send_Invite i d t # as) = Suc (invites as)" "invites (Cancel_Call i # as) = invites as" "invites (Bye_Call i # as) = invites as"
  "mints (Mint # as) = Suc (mints as)" "mints (Ask_Microphone # as) = mints as" "mints (Open_Transport a b c # as) = mints as"
  "mints (Send_Invite i d t # as) = mints as" "mints (Cancel_Call i # as) = mints as" "mints (Bye_Call i # as) = mints as"
  "starters [] = 0" "starters (xs @ ys) = starters xs + starters ys" "starters (Wt_Preconnect # xs) = starters xs"
  "starters (Wt_Start ses # xs) = Suc (starters xs)"
  by (simp_all add: invites_def mints_def starters_def)

lemma on_call_state_frame [simp]:
  "wg_waiters (on_call_state cs w) = wg_waiters w" "wg_minting (on_call_state cs w) = wg_minting w"
  "wg_opening (on_call_state cs w) = wg_opening w" "wg_ua (on_call_state cs w) = wg_ua w" "wg_connected (on_call_state cs w) = wg_connected w"
  by (simp_all add: on_call_state_def split: call_state.split)

lemma place_call_frame [simp]:
  "wg_waiters (fst (place_call ok ses w)) = wg_waiters w" "wg_minting (fst (place_call ok ses w)) = wg_minting w"
  "mints (snd (place_call ok ses w)) = 0" "invites (snd (place_call ok ses w)) \<le> 1"
  by (simp_all add: place_call_def Let_def)

lemma waiter_ready_frame:
  "wg_waiters (fst (waiter_ready ok xs w)) = wg_waiters w \<and> wg_minting (fst (waiter_ready ok xs w)) = wg_minting w \<and>
   mints (snd (waiter_ready ok xs w)) = 0 \<and> invites (snd (waiter_ready ok xs w)) \<le> starters xs"
proof (induction xs arbitrary: w)
  case (Cons x xs)
  show ?case
  proof (cases x)
    case (Wt_Start ses)
    then show ?thesis using Cons [of "fst (place_call ok ses w)"] place_call_frame [of ok ses w] by (simp add: split_beta)
  qed (use Cons in simp)
qed simp

lemma waiter_failed_frame [simp]:
  "wg_waiters (waiter_failed xs w) = wg_waiters w" "wg_minting (waiter_failed xs w) = wg_minting w"
  by (induction xs w rule: waiter_failed.induct) (simp_all add: fail_call_def)

lemma place_call_invite: "Send_Invite i d t \<in> set (snd (place_call ok ses w)) \<Longrightarrow> d = ws_destination ses \<and> t = ws_token ses"
  by (auto simp: place_call_def Let_def split: if_splits)

lemma waiter_ready_invite:
  "Send_Invite i d t \<in> set (snd (waiter_ready ok xs w)) \<Longrightarrow> \<exists>ses. Wt_Start ses \<in> set xs \<and> d = ws_destination ses \<and> t = ws_token ses"
proof (induction xs arbitrary: w)
  case (Cons x xs)
  show ?case
  proof (cases x)
    case (Wt_Start ses)
    then show ?thesis using Cons.IH [of "fst (place_call ok ses w)"] Cons.prems by (auto simp: split_beta dest: place_call_invite)
  qed (use Cons in auto)
qed simp


lemma connect_call_frame [simp]:
  "wg_minting (fst (connect_call p x w)) = wg_minting w" "mints (snd (connect_call p x w)) = 0" "invites (snd (connect_call p x w)) = 0"
  "wg_waiters (fst (connect_call p x w)) = (if wg_opening w = None then [x] else wg_waiters w @ [x])"
  by (simp_all add: connect_call_def)

lemma hang_up_counts [simp]: "invites (hang_up w) = 0" "mints (hang_up w) = 0" "Send_Invite i d t \<notin> set (hang_up w)"
  by (auto simp: hang_up_def split: option.split inviter_state.split)

lemma start_session_counts:
  "wg_minting (fst (start_session ok ses w)) = wg_minting w"
  "invites (snd (start_session ok ses w)) + starters (wg_waiters (fst (start_session ok ses w))) \<le> Suc (starters (wg_waiters w))"
  "mints (snd (start_session ok ses w)) = 0"
  using place_call_frame(4) [of ok ses w] by (auto simp: start_session_def)

lemma quiet_frame [simp]:
  "wg_waiters (inviter_changed i st w) = wg_waiters w" "wg_minting (inviter_changed i st w) = wg_minting w"
  "wg_waiters (invite_rejected w) = wg_waiters w" "wg_minting (invite_rejected w) = wg_minting w"
  "wg_waiters (fst (destroy w)) = wg_waiters w" "wg_minting (fst (destroy w)) = wg_minting w"
  "wg_waiters (ended_timer w) = wg_waiters w" "wg_minting (ended_timer w) = wg_minting w"
  "wg_waiters (error_timer w) = wg_waiters w" "wg_minting (error_timer w) = wg_minting w"
  "wg_waiters (fst (mic_granted w)) = wg_waiters w" "wg_minting (fst (mic_granted w)) = wg_minting w"
  "wg_waiters (fst (start_call w)) = wg_waiters w" "starters (wg_waiters (transport_failed w)) \<le> starters (wg_waiters w)"
  "wg_minting (transport_failed w) = wg_minting w" "wg_minting (fst (validated r w)) = wg_minting w"
  by (auto simp: inviter_changed_def invite_rejected_def end_session_def destroy_def ended_timer_def error_timer_def mic_granted_def
      start_call_def transport_failed_def validated_def Let_def split: inviter_state.split option.split sum.split)

lemma widget_step_counts:
  "invites (snd (widget_step e w)) + starters (wg_waiters (fst (widget_step e w))) + wg_minting (fst (widget_step e w))
    \<le> mints (snd (widget_step e w)) + starters (wg_waiters w) + wg_minting w"
proof (cases e)
  case (We_Validated r)
  then show ?thesis by (auto simp: widget_step_def validated_def split: sum.split)
next
  case We_Click
  then show ?thesis by (auto simp: widget_step_def start_call_def)
next
  case (We_Minted ok r)
  show ?thesis
  proof (cases "wg_minting w = 0")
    case False
    let ?w = "w\<lparr>wg_minting := wg_minting w - 1, wg_call := True\<rparr>"
    have "invites (snd (start_session ok ses ?w)) + starters (wg_waiters (fst (start_session ok ses ?w))) \<le> Suc (starters (wg_waiters w))" for ses
      using start_session_counts(2) [of ok ses ?w] by simp
    note le = this
    show ?thesis
    proof (cases "post_json r")
      case (Inr j)
      then show ?thesis
        using We_Minted False le [of "session_of j"] by (simp add: widget_step_def session_minted_def Let_def start_session_counts(1,3))
    qed (use We_Minted False in \<open>simp add: widget_step_def session_minted_def Let_def fail_call_def\<close>)
  qed (simp add: widget_step_def We_Minted session_minted_def)
next
  case We_Mic_Granted
  then show ?thesis by (auto simp: widget_step_def mic_granted_def split: option.split)
next
  case (We_Transport ok)
  then show ?thesis
    using waiter_ready_frame [of ok "wg_waiters w"] by (auto simp: widget_step_def transport_up_def)
next
  case We_Destroy
  then show ?thesis by (simp add: widget_step_def) (simp add: destroy_def)
qed (simp_all add: widget_step_def)


lemma waiting_more: "waiting_in es w \<Longrightarrow> waiting_in (es @ fs) w"
  unfolding waiting_in_def minted_in_def by fastforce

lemma waiting_subset: "\<lbrakk>waiting_in es w; \<And>ses. Wt_Start ses \<in> set (wg_waiters v) \<Longrightarrow> Wt_Start ses \<in> set (wg_waiters w)\<rbrakk> \<Longrightarrow> waiting_in es v"
  by (auto simp: waiting_in_def)

text \<open>A step invites for a session that waits or that it brings, and lets only such sessions wait.\<close>

definition brings :: "widget_event \<Rightarrow> widget_session \<Rightarrow> bool" where
  "brings e ses \<longleftrightarrow> (\<exists>ok r j. e = We_Minted ok r \<and> post_json r = Inr j \<and> ses = session_of j)"

lemma start_session_from:
  "Send_Invite i d t \<in> set (snd (start_session ok ses w)) \<Longrightarrow> d = ws_destination ses \<and> t = ws_token ses"
  "Wt_Start x \<in> set (wg_waiters (fst (start_session ok ses w))) \<Longrightarrow> x = ses \<or> Wt_Start x \<in> set (wg_waiters w)"
  by (auto simp: start_session_def connect_call_def dest: place_call_invite split: if_splits)

lemma widget_step_from:
  "Send_Invite i d t \<in> set (snd (widget_step e w)) \<Longrightarrow>
    \<exists>ses. (Wt_Start ses \<in> set (wg_waiters w) \<or> brings e ses) \<and> d = ws_destination ses \<and> t = ws_token ses"
  "Wt_Start x \<in> set (wg_waiters (fst (widget_step e w))) \<Longrightarrow> Wt_Start x \<in> set (wg_waiters w) \<or> brings e x"
proof -
  assume "Send_Invite i d t \<in> set (snd (widget_step e w))"
  then show "\<exists>ses. (Wt_Start ses \<in> set (wg_waiters w) \<or> brings e ses) \<and> d = ws_destination ses \<and> t = ws_token ses"
  proof (cases e)
    case (We_Minted ok r)
    then show ?thesis
      using \<open>Send_Invite i d t \<in> _\<close>
      by (auto simp: widget_step_def session_minted_def Let_def brings_def dest!: start_session_from(1) split: if_splits sum.splits)
  next
    case (We_Transport ok)
    then show ?thesis
      using \<open>Send_Invite i d t \<in> _\<close> by (auto simp: widget_step_def transport_up_def dest!: waiter_ready_invite split: if_splits)
  qed (auto simp: widget_step_def validated_def connect_call_def start_call_def mic_granted_def destroy_def split: if_splits sum.splits option.splits)
next
  assume "Wt_Start x \<in> set (wg_waiters (fst (widget_step e w)))"
  then show "Wt_Start x \<in> set (wg_waiters w) \<or> brings e x"
  proof (cases e)
    case (We_Minted ok r)
    then show ?thesis
      using \<open>Wt_Start x \<in> _\<close>
      by (auto simp: widget_step_def session_minted_def Let_def brings_def fail_call_def dest!: start_session_from(2) split: if_splits sum.splits)
  next
    case (We_Transport ok)
    then show ?thesis
      using \<open>Wt_Start x \<in> _\<close> by (auto simp: widget_step_def transport_up_def waiter_ready_frame split: if_splits)
  next
    case We_Transport_Failed
    then show ?thesis using \<open>Wt_Start x \<in> _\<close> by (auto simp: widget_step_def transport_failed_def split: if_splits)
  qed (auto simp: widget_step_def validated_def split: if_splits sum.splits)
qed

lemma widget_run_snoc:
  "widget_run (es @ [e]) w = (fst (widget_step e (fst (widget_run es w))), snd (widget_run es w) @ snd (widget_step e (fst (widget_run es w))))"
  by (induction es arbitrary: w) (simp_all add: split_beta)

text \<open>C13: The widget calls only what the server allowed, once. In every run, each INVITE goes to the destination and carries
  the token of a session that the server minted in this run, and there are no more INVITEs than requests for a session.\<close>

theorem invites_carry_minted_sessions:
  "(\<forall>i d t. Send_Invite i d t \<in> set (snd (widget_run es new_widget)) \<longrightarrow> minted_in es d t) \<and>
   invites (snd (widget_run es new_widget)) \<le> mints (snd (widget_run es new_widget))"
proof -
  have "(\<forall>i d t. Send_Invite i d t \<in> set (snd (widget_run es new_widget)) \<longrightarrow> minted_in es d t) \<and> waiting_in es (fst (widget_run es new_widget))
    \<and> invites (snd (widget_run es new_widget)) + starters (wg_waiters (fst (widget_run es new_widget))) + wg_minting (fst (widget_run es new_widget))
      \<le> mints (snd (widget_run es new_widget))"
  proof (induction es rule: rev_induct)
    case Nil
    then show ?case by (simp add: new_widget_def waiting_in_def)
  next
    case (snoc e es)
    let ?w = "fst (widget_run es new_widget)"
    have more: "minted_in (es @ [e]) d t" if "minted_in es d t" for d t
      using that by (force simp: minted_in_def)
    have own: "minted_in (es @ [e]) (ws_destination ses) (ws_token ses)" if "Wt_Start ses \<in> set (wg_waiters ?w) \<or> brings e ses" for ses
      using that snoc.IH more by (auto simp: waiting_in_def brings_def minted_in_def)
    have "minted_in (es @ [e]) d t" if "Send_Invite i d t \<in> set (snd (widget_run (es @ [e]) new_widget))" for i d t
      using that snoc.IH more own widget_step_from(1) [of i d t e ?w] by (auto simp: widget_run_snoc)
    moreover have "waiting_in (es @ [e]) (fst (widget_run (es @ [e]) new_widget))"
      using own widget_step_from(2) [of _ e ?w] by (auto simp: waiting_in_def widget_run_snoc)
    ultimately show ?case
      using snoc.IH widget_step_counts [of e ?w] by (simp add: widget_run_snoc)
  qed
  then show ?thesis by simp
qed

text \<open>The end of a replaced call takes the next one down. When the termination of an earlier invitation arrives after a new one
  was sent (its failure was reported first, say), the widget shows that the call has ended and forgets the session of the
  new one: hanging up then does nothing, while the visitor's call goes on.\<close>

theorem stale_termination_loses_call:
  assumes "i < length (wg_inviters w)" and "wg_session w = Some j" and "i \<noteq> j"
  shows "let v = inviter_changed i Iv_Terminated w in wg_state v = Wg_Ended \<and> wg_inviters v ! j = wg_inviters w ! j \<and>
    wg_session v = None \<and> hang_up v = []"
  using assms by (simp add: inviter_changed_def Let_def on_call_state_def end_session_def hang_up_def)

text \<open>A call that is still being set up cannot be stopped. While the session is being minted, hanging up does nothing, and the
  INVITE is sent when the session comes; not even destroying the widget stops it: the microphone is asked for
  and the transport opened again, and the call is placed by a widget that is gone from the page.\<close>

theorem ended_before_invite_still_calls:
  assumes "wg_session w = None" and "wg_minting w > 0" and "wg_connected w" and "wg_ua w = Some u" and "wg_call w"
    and "wg_opening w = None" and "post_json r = Inr j"
  shows "snd (widget_run [We_Hang_Up, We_Minted True r] w) =
      [Send_Invite (length (wg_inviters w)) (ws_destination (session_of j)) (ws_token (session_of j))] \<and>
    Send_Invite (length (wg_inviters w)) (ws_destination (session_of j)) (ws_token (session_of j)) \<in>
      set (snd (widget_run [We_Destroy, We_Minted True r, We_Mic_Granted, We_Transport True] w))"
  using assms
  by (simp add: widget_step_def hang_up_def session_minted_def Let_def start_session_def place_call_def on_call_state_def destroy_def
      end_session_def connect_call_def mic_granted_def transport_up_def)

section \<open>Instances\<close>

definition reply :: "(string \<times> string) list \<Rightarrow> http_result" where
  "reply fs = Answered 200 (Some (J_Obj [(''success'', J_Bool True), (''data'', J_Obj (map (\<lambda>p. (fst p, J_Str (snd p))) fs))]))"

definition minted_reply :: http_result where
  "minted_reply = reply [(''token'', ''t1''), (''destination'', ''1001''), (''domain'', ''d''), (''sipWsUrl'', ''wss:d'')]"

definition ready_widget :: "widget_event list" where
  "ready_widget = [We_Validated (reply [(''destination'', ''1001''), (''domain'', ''d''), (''sipWsUrl'', ''wss:d'')]), We_Mic_Granted, We_Transport True]"

theorem widget_needs_valid_key_witness:
  "snd (widget_run [We_Click, We_Validated (Answered 403 None), We_Click, We_Hang_Up] new_widget) = [] \<and>
   snd (widget_run (ready_widget @ [We_Click]) new_widget) \<noteq> []"
proof -
  have "list_all refused [We_Click, We_Validated (Answered 403 None), We_Click, We_Hang_Up]" by code_simp
  moreover have "snd (widget_run (ready_widget @ [We_Click]) new_widget) \<noteq> []" by code_simp
  ultimately show ?thesis using widget_needs_valid_key by blast
qed

theorem invites_carry_minted_sessions_witness:
  "snd (widget_run (ready_widget @ [We_Click, We_Minted True minted_reply]) new_widget) =
     [Ask_Microphone, Open_Transport ''wss:d'' ''widget'' ''d'', Mint, Send_Invite 0 ''1001'' ''t1''] \<and>
   minted_in (ready_widget @ [We_Click, We_Minted True minted_reply]) ''1001'' ''t1''"
proof -
  let ?es = "ready_widget @ [We_Click, We_Minted True minted_reply]"
  have a: "snd (widget_run ?es new_widget) = [Ask_Microphone, Open_Transport ''wss:d'' ''widget'' ''d'', Mint, Send_Invite 0 ''1001'' ''t1'']"
    by code_simp
  then have "Send_Invite 0 ''1001'' ''t1'' \<in> set (snd (widget_run ?es new_widget))" by simp
  with invites_carry_minted_sessions [of ?es] have "minted_in ?es ''1001'' ''t1''" by blast
  with a show ?thesis by simp
qed

theorem stale_termination_loses_call_witness:
  "hang_up (inviter_changed 0 Iv_Terminated (fst (widget_run (ready_widget @ [We_Click, We_Minted True minted_reply, We_Rejected, We_Click,
     We_Minted True minted_reply, We_Inviter 1 Iv_Established]) new_widget))) = []"
proof -
  let ?w = "fst (widget_run (ready_widget @ [We_Click, We_Minted True minted_reply, We_Rejected, We_Click,
     We_Minted True minted_reply, We_Inviter 1 Iv_Established]) new_widget)"
  have "0 < length (wg_inviters ?w)" "wg_session ?w = Some 1" by code_simp+
  from stale_termination_loses_call [OF this] show ?thesis by (simp add: Let_def)
qed

theorem ended_before_invite_still_calls_witness:
  "snd (widget_run [We_Hang_Up, We_Minted True minted_reply] (fst (widget_run (ready_widget @ [We_Click]) new_widget))) = [Send_Invite 0 ''1001'' ''t1'']"
proof -
  let ?w = "fst (widget_run (ready_widget @ [We_Click]) new_widget)"
  have w: "wg_session ?w = None" "wg_minting ?w > 0" "wg_connected ?w" "wg_ua ?w = Some ''widget''" "wg_call ?w" "wg_opening ?w = None"
    "length (wg_inviters ?w) = 0" by code_simp+
  have "\<exists>j. post_json minted_reply = Inr j \<and> ws_destination (session_of j) = ''1001'' \<and> ws_token (session_of j) = ''t1''"
    by (simp add: post_json_def minted_reply_def reply_def status_ok_def j_prop_def j_true_def session_of_def text_field_def)
  then obtain j where j: "post_json minted_reply = Inr j" "ws_destination (session_of j) = ''1001''" "ws_token (session_of j) = ''t1''" by blast
  from ended_before_invite_still_calls [OF w(1-6) j(1)] w(7) j(2,3) show ?thesis by simp
qed

end
