(* ===== verification/Change_Feed.thy ===== *)
theory Change_Feed
  imports Database Json
begin

text \<open>
  How the engine hears of changes that the dashboard makes in the shared database: the listener with its reconnects
  (\<^verbatim>\<open>src/src/services/postgres/pg-listener.ts\<close>), the eight feeds over it with the triggers that they install
  (\<^verbatim>\<open>src/src/services/postgres/*notify.ts\<close>), what \<^verbatim>\<open>src/src/index.ts\<close> does on each, and the set of flow entries
  that one of them keeps. The clients of the listener are numbered in the order they are made, and each await of
  \<^verbatim>\<open>connect\<close> ends in an event of its own.
\<close>

section \<open>The listener\<close>

datatype client_phase = Cl_Connecting | Cl_Installing | Cl_Subscribing | Cl_Catching_Up | Cl_Ready | Cl_Failed

record feed_client =
  fc_phase :: client_phase
  fc_open :: bool
  fc_listens :: bool
  fc_ended :: bool

record feed =
  fd_stopped :: bool
  fd_client :: "nat option"
  fd_delay :: int
  fd_timers :: "int list"
  fd_clients :: "feed_client list"

definition max_delay :: int where
  "max_delay = 30000"

definition new_feed :: feed where
  "new_feed = \<lparr>fd_stopped = False, fd_client = None, fd_delay = 1000, fd_timers = [], fd_clients = []\<rparr>"

definition new_client :: feed_client where
  "new_client = \<lparr>fc_phase = Cl_Connecting, fc_open = False, fc_listens = False, fc_ended = False\<rparr>"

definition with_client :: "nat \<Rightarrow> (feed_client \<Rightarrow> feed_client) \<Rightarrow> feed \<Rightarrow> feed" where
  "with_client k g f = f\<lparr>fd_clients := (fd_clients f)[k := g (fd_clients f ! k)]\<rparr>"

definition schedule_reconnect :: "feed \<Rightarrow> feed" where
  "schedule_reconnect f = (if fd_stopped f \<or> fd_client f = None then f
     else f\<lparr>fd_client := None, fd_delay := min (fd_delay f * 2) max_delay, fd_timers := fd_timers f @ [fd_delay f]\<rparr>)"

definition connect_feed :: "feed \<Rightarrow> feed" where
  "connect_feed f = (if fd_stopped f then f
     else f\<lparr>fd_client := Some (length (fd_clients f)), fd_clients := fd_clients f @ [new_client]\<rparr>)"

definition start_feed :: "feed \<Rightarrow> feed" where
  "start_feed f = connect_feed (f\<lparr>fd_stopped := False\<rparr>)"

definition drop_connection :: "feed_client \<Rightarrow> feed_client" where
  "drop_connection c = c\<lparr>fc_open := False, fc_listens := False\<rparr>"

definition stop_feed :: "feed \<Rightarrow> feed" where
  "stop_feed f = (case fd_client f of None \<Rightarrow> f\<lparr>fd_stopped := True\<rparr>
     | Some k \<Rightarrow> (with_client k (\<lambda>c. (drop_connection c)\<lparr>fc_ended := True\<rparr>) f)\<lparr>fd_stopped := True, fd_client := None\<rparr>)"

text \<open>An await of \<^verbatim>\<open>connect\<close> ends: the client goes on to the next phase, or the exception schedules a reconnect.\<close>

definition await_ends :: "client_phase \<Rightarrow> bool \<Rightarrow> (feed_client \<Rightarrow> feed_client) \<Rightarrow> nat \<Rightarrow> feed \<Rightarrow> feed" where
  "await_ends p ok g k f =
     (if k < length (fd_clients f) \<and> fc_phase (fd_clients f ! k) = p then
        (if ok then with_client k g f else schedule_reconnect (with_client k (\<lambda>c. c\<lparr>fc_phase := Cl_Failed\<rparr>) f))
      else f)"

definition client_opened :: "nat \<Rightarrow> bool \<Rightarrow> feed \<Rightarrow> feed" where
  "client_opened k ok f = await_ends Cl_Connecting (ok \<and> \<not> fc_ended (fd_clients f ! k))
     (\<lambda>c. c\<lparr>fc_phase := Cl_Installing, fc_open := True\<rparr>) k f"

definition trigger_installed :: "nat \<Rightarrow> bool \<Rightarrow> feed \<Rightarrow> feed" where
  "trigger_installed k ok f = await_ends Cl_Installing (ok \<and> fc_open (fd_clients f ! k))
     (\<lambda>c. c\<lparr>fc_phase := Cl_Subscribing\<rparr>) k f"

definition channel_subscribed :: "nat \<Rightarrow> bool \<Rightarrow> feed \<Rightarrow> feed" where
  "channel_subscribed k ok f =
     (let now = ok \<and> fc_open (fd_clients f ! k);
          f1 = await_ends Cl_Subscribing now (\<lambda>c. c\<lparr>fc_phase := Cl_Catching_Up, fc_listens := True\<rparr>) k f
      in if now \<and> k < length (fd_clients f) \<and> fc_phase (fd_clients f ! k) = Cl_Subscribing then f1\<lparr>fd_delay := 1000\<rparr> else f1)"

definition caught_up :: "nat \<Rightarrow> bool \<Rightarrow> feed \<Rightarrow> feed" where
  "caught_up k ok f = await_ends Cl_Catching_Up ok (\<lambda>c. c\<lparr>fc_phase := Cl_Ready\<rparr>) k f"

definition connection_lost :: "nat \<Rightarrow> feed \<Rightarrow> feed" where
  "connection_lost k f = (if k < length (fd_clients f) then schedule_reconnect (with_client k drop_connection f) else f)"

definition retry_fired :: "nat \<Rightarrow> feed \<Rightarrow> feed" where
  "retry_fired i f = (if i < length (fd_timers f)
     then connect_feed (f\<lparr>fd_timers := take i (fd_timers f) @ drop (Suc i) (fd_timers f)\<rparr>) else f)"

datatype feed_event = Fe_Start | Fe_Stop | Fe_Retry nat | Fe_Opened nat bool | Fe_Installed nat bool | Fe_Subscribed nat bool
  | Fe_Caught_Up nat bool | Fe_Lost nat

fun feed_step :: "feed_event \<Rightarrow> feed \<Rightarrow> feed" where
  "feed_step Fe_Start f = start_feed f"
| "feed_step Fe_Stop f = stop_feed f"
| "feed_step (Fe_Retry i) f = retry_fired i f"
| "feed_step (Fe_Opened k ok) f = client_opened k ok f"
| "feed_step (Fe_Installed k ok) f = trigger_installed k ok f"
| "feed_step (Fe_Subscribed k ok) f = channel_subscribed k ok f"
| "feed_step (Fe_Caught_Up k ok) f = caught_up k ok f"
| "feed_step (Fe_Lost k) f = connection_lost k f"

text \<open>The clients that a notification reaches, each of which hands it to the handler.\<close>

definition listening :: "feed \<Rightarrow> nat" where
  "listening f = length (filter fc_listens (fd_clients f))"

section \<open>The listener heals itself\<close>

abbreviation feed_run :: "feed_event list \<Rightarrow> feed \<Rightarrow> feed" where
  "feed_run es f \<equiv> fold feed_step es f"

lemmas feed_defs = start_feed_def connect_feed_def stop_feed_def retry_fired_def client_opened_def trigger_installed_def
  channel_subscribed_def caught_up_def connection_lost_def await_ends_def schedule_reconnect_def with_client_def
  drop_connection_def new_client_def max_delay_def Let_def

text \<open>The delays stay within their bounds, and the current client is one whose connection has not failed.\<close>

definition client_sound :: "feed_client \<Rightarrow> bool" where
  "client_sound c \<longleftrightarrow> fc_phase c \<noteq> Cl_Failed \<and> \<not> fc_ended c \<and> (fc_phase c \<in> {Cl_Catching_Up, Cl_Ready} \<longrightarrow> fc_listens c) \<and>
     (fc_phase c = Cl_Connecting \<or> fc_open c)"

definition delays_ok :: "feed \<Rightarrow> bool" where
  "delays_ok f \<longleftrightarrow> 1000 \<le> fd_delay f \<and> fd_delay f \<le> max_delay \<and> (\<forall>d\<in>set (fd_timers f). 1000 \<le> d \<and> d \<le> max_delay)"

definition current_ok :: "feed \<Rightarrow> bool" where
  "current_ok f \<longleftrightarrow> (fd_stopped f \<longrightarrow> fd_client f = None) \<and> (\<forall>k. fd_client f = Some k \<longrightarrow> k < length (fd_clients f) \<and> client_sound (fd_clients f ! k))"

definition alive :: "feed \<Rightarrow> bool" where
  "alive f \<longleftrightarrow> fd_stopped f \<or> fd_client f \<noteq> None \<or> fd_timers f \<noteq> []"

lemma delays_step: "delays_ok f \<Longrightarrow> delays_ok (feed_step e f)"
  by (cases e) (auto simp: feed_defs delays_ok_def min_def dest: in_set_takeD in_set_dropD split: option.splits)

lemma alive_step: "alive f \<Longrightarrow> alive (feed_step e f)"
  by (cases e) (auto simp: feed_defs alive_def split: option.splits)

lemma current_step: "current_ok f \<Longrightarrow> current_ok (feed_step e f)"
  by (cases e) (auto simp: feed_defs current_ok_def client_sound_def nth_append nth_list_update split: option.splits if_splits)

lemma new_feed_sound: "delays_ok new_feed \<and> current_ok new_feed"
  by (simp add: new_feed_def delays_ok_def current_ok_def max_delay_def)

lemma feed_run_sound: "delays_ok (feed_run es new_feed) \<and> current_ok (feed_run es new_feed)"
  by (induction es rule: rev_induct) (simp_all add: delays_step current_step new_feed_sound)

lemma feed_run_alive: "Fe_Start \<in> set es \<Longrightarrow> alive (feed_run es f)"
proof (induction es rule: rev_induct)
  case (snoc e es)
  then show ?case
    by (cases "e = Fe_Start") (auto simp: alive_step, simp add: alive_def start_feed_def connect_feed_def)
qed simp

text \<open>C29: The listener heals itself. Once it is started and as long as it is not stopped, whatever fails and in whatever order, it
  has a client whose connection has not been lost, and which listens when it is caught up, or a retry is on its way; and no retry
  waits for less than one or more than thirty seconds.\<close>

theorem feed_heals:
  assumes "Fe_Start \<in> set es" "\<not> fd_stopped (feed_run es new_feed)"
  shows "(case fd_client (feed_run es new_feed) of
      None \<Rightarrow> fd_timers (feed_run es new_feed) \<noteq> []
    | Some k \<Rightarrow> k < length (fd_clients (feed_run es new_feed)) \<and>
        (let c = fd_clients (feed_run es new_feed) ! k in fc_phase c \<noteq> Cl_Failed \<and> (fc_open c \<or> fc_phase c = Cl_Connecting) \<and>
           (fc_phase c = Cl_Ready \<longrightarrow> fc_listens c))) \<and>
    list_all (\<lambda>d. 1000 \<le> d \<and> d \<le> 30000) (fd_timers (feed_run es new_feed))"
  using feed_run_alive [OF assms(1), of new_feed] feed_run_sound [of es] assms(2)
  by (auto simp: alive_def current_ok_def client_sound_def delays_ok_def max_delay_def list_all_iff Let_def split: option.split)

text \<open>Each catch-up that fails leaves a connection behind. Where the re-hydration after a connect raises, the client is given up but
  never ended: after n such rounds n connections listen beside the current one, every change is handled n + 1 times, and stopping the
  listener ends only the last.\<close>

definition first_connect :: "feed_event list" where
  "first_connect = [Fe_Start, Fe_Opened 0 True, Fe_Installed 0 True, Fe_Subscribed 0 True]"

definition failed_round :: "nat \<Rightarrow> feed_event list" where
  "failed_round k = [Fe_Caught_Up k False, Fe_Retry 0, Fe_Opened (Suc k) True, Fe_Installed (Suc k) True, Fe_Subscribed (Suc k) True]"

lemma nth_after: "(xs @ [a, b]) ! Suc (length xs) = b" "(xs @ [a, b])[Suc (length xs) := c] = xs @ [a, c]"
  "(xs @ [a]) ! length xs = a" "(xs @ [a])[length xs := c] = xs @ [c]"
  by (simp_all add: nth_append list_update_append)

lemma failed_rounds:
  "feed_run (first_connect @ concat (map failed_round [0..<n])) new_feed =
     \<lparr>fd_stopped = False, fd_client = Some n, fd_delay = 1000, fd_timers = [],
      fd_clients = replicate n \<lparr>fc_phase = Cl_Failed, fc_open = True, fc_listens = True, fc_ended = False\<rparr> @
        [\<lparr>fc_phase = Cl_Catching_Up, fc_open = True, fc_listens = True, fc_ended = False\<rparr>]\<rparr>"
proof (induction n)
  case 0
  show ?case by (simp add: first_connect_def new_feed_def feed_defs)
next
  case (Suc n)
  have r: "replicate (Suc n) x = replicate n x @ [x]" for x :: feed_client
    by (simp flip: replicate_append_same)
  show ?case using Suc.IH
    by (simp add: failed_round_def feed_defs nth_append list_update_append r del: replicate.simps)
qed

theorem failed_catch_up_leaks:
  "let f = feed_run (first_connect @ concat (map failed_round [0..<n])) new_feed
   in listening f = n + 1 \<and> fd_client f = Some n \<and> listening (stop_feed f) = n"
  unfolding failed_rounds Let_def
  by (simp add: listening_def stop_feed_def with_client_def drop_connection_def nth_append list_update_append)

section \<open>The feeds\<close>

text \<open>A row of a watched table with its extension (or owner) and its id, and what happened to it. A trigger
  notifies with the new row, or the old one where there is no new.\<close>

record table_row =
  tr_extension :: string
  tr_id :: nat

datatype row_change = Row_Insert table_row | Row_Update table_row table_row | Row_Delete table_row

fun changed_row :: "row_change \<Rightarrow> table_row" where
  "changed_row (Row_Insert n) = n"
| "changed_row (Row_Update old n) = n"
| "changed_row (Row_Delete old) = old"

fun op_name :: "row_change \<Rightarrow> string" where
  "op_name (Row_Insert n) = ''INSERT''"
| "op_name (Row_Update old n) = ''UPDATE''"
| "op_name (Row_Delete old) = ''DELETE''"

text \<open>The functions that the triggers run. \<open>text\<close> is the database's text of a JSON object.\<close>

definition users_trigger :: "(json \<Rightarrow> string) \<Rightarrow> row_change \<Rightarrow> string" where
  "users_trigger text c = text (J_Obj [(''extension'', J_Str (tr_extension (changed_row c))), (''op'', J_Str (op_name c))])"

definition settings_tables :: "string list" where
  "settings_tables = [''blocked_numbers'', ''forwarding_rules'', ''user_settings'', ''user_balances'']"

definition settings_trigger :: "(json \<Rightarrow> string) \<Rightarrow> string \<Rightarrow> row_change \<Rightarrow> string" where
  "settings_trigger text tbl c = text (J_Obj [(''extension'', J_Str (tr_extension (changed_row c))),
     (''op'', J_Str (op_name c)), (''source'', J_Str tbl)])"

definition rates_trigger :: "string \<Rightarrow> row_change \<Rightarrow> string" where
  "rates_trigger tbl c = tbl"

definition connectors_trigger :: "row_change \<Rightarrow> string" where
  "connectors_trigger c = show_nat (tr_id (changed_row c))"

definition flows_trigger :: "row_change \<Rightarrow> string" where
  "flows_trigger c = tr_extension (changed_row c)"

definition rules_trigger :: "row_change \<Rightarrow> string" where
  "rules_trigger c = tr_extension (changed_row c)"

definition webhooks_trigger :: "row_change \<Rightarrow> string" where
  "webhooks_trigger c = tr_extension (changed_row c)"

definition agents_trigger :: "row_change \<Rightarrow> string" where
  "agents_trigger c = tr_extension (changed_row c)"

text \<open>What the store and the rate book are asked to do.\<close>

datatype sync_call = Hydrate_All | Sync_User json | Hydrate_Detail json | Reload_Rates | Invalidate_Connector rat | Clear_Connectors
  | Sync_Flow string | Clear_Flow_Graphs | Hydrate_Flows | Clear_Rules | Clear_Webhooks | Clear_Agents

text \<open>The extension of a payload; a payload that is no JSON, or whose value has no properties at all, is taken for the extension.\<close>

definition payload_extension :: "(string \<Rightarrow> json option) \<Rightarrow> string \<Rightarrow> json option" where
  "payload_extension parse p = (case parse p of None \<Rightarrow> Some (J_Str p) | Some J_Null \<Rightarrow> Some (J_Str p)
     | Some j \<Rightarrow> j_prop (Some j) ''extension'')"

definition on_users_payload :: "(string \<Rightarrow> json option) \<Rightarrow> string option \<Rightarrow> json option" where
  "on_users_payload parse payload = (case payload of None \<Rightarrow> None
     | Some p \<Rightarrow> if p = [] then None else if j_true (payload_extension parse p) then payload_extension parse p else None)"

definition on_settings_payload :: "(string \<Rightarrow> json option) \<Rightarrow> string option \<Rightarrow> json option" where
  "on_settings_payload parse payload = (case payload of None \<Rightarrow> None
     | Some p \<Rightarrow> if p = [] then None else if j_true (payload_extension parse p) then payload_extension parse p else None)"

definition on_connectors_payload :: "string option \<Rightarrow> rat option" where
  "on_connectors_payload payload = (case payload of None \<Rightarrow> None
     | Some p \<Rightarrow> if p = [] then None else (case js_number p of Num q \<Rightarrow> Some q | _ \<Rightarrow> None))"

definition on_flows_payload :: "string option \<Rightarrow> string option" where
  "on_flows_payload payload = (case payload of None \<Rightarrow> None | Some p \<Rightarrow> if p = [] then None else Some p)"

text \<open>The wiring of the process: what each feed does with a payload, and after each connect.\<close>

datatype feed_name = Users_Feed | Settings_Feed | Rates_Feed | Connectors_Feed | Flows_Feed | Rules_Feed | Webhooks_Feed | Agents_Feed

fun on_payload :: "(string \<Rightarrow> json option) \<Rightarrow> feed_name \<Rightarrow> string option \<Rightarrow> sync_call list" where
  "on_payload parse Users_Feed p = (case on_users_payload parse p of Some e \<Rightarrow> [Sync_User e] | None \<Rightarrow> [])"
| "on_payload parse Settings_Feed p = (case on_settings_payload parse p of Some e \<Rightarrow> [Hydrate_Detail e] | None \<Rightarrow> [])"
| "on_payload parse Rates_Feed p = [Reload_Rates]"
| "on_payload parse Connectors_Feed p = (case on_connectors_payload p of Some q \<Rightarrow> [Invalidate_Connector q] | None \<Rightarrow> [])"
| "on_payload parse Flows_Feed p = (case on_flows_payload p of Some e \<Rightarrow> [Sync_Flow e] | None \<Rightarrow> [])"
| "on_payload parse Rules_Feed p = [Clear_Rules]"
| "on_payload parse Webhooks_Feed p = [Clear_Webhooks]"
| "on_payload parse Agents_Feed p = [Clear_Agents]"

fun on_connected :: "feed_name \<Rightarrow> sync_call list" where
  "on_connected Users_Feed = [Hydrate_All]"
| "on_connected Settings_Feed = [Hydrate_All]"
| "on_connected Rates_Feed = [Reload_Rates]"
| "on_connected Connectors_Feed = [Clear_Connectors]"
| "on_connected Flows_Feed = [Clear_Flow_Graphs, Hydrate_Flows]"
| "on_connected Rules_Feed = [Clear_Rules]"
| "on_connected Webhooks_Feed = [Clear_Webhooks]"
| "on_connected Agents_Feed = [Clear_Agents]"

text \<open>A change reaches its row: what a trigger writes into a notification is read back by the feed, and names the user, the
  flow or the connector that was changed.\<close>

theorem changes_name_their_rows:
  assumes "\<And>j. parse (text j) = Some j" "\<And>j. text j \<noteq> []" "tr_extension (changed_row c) \<noteq> []"
  shows "on_payload parse Users_Feed (Some (users_trigger text c)) = [Sync_User (J_Str (tr_extension (changed_row c)))]"
    "on_payload parse Settings_Feed (Some (settings_trigger text tbl c)) = [Hydrate_Detail (J_Str (tr_extension (changed_row c)))]"
    "on_payload parse Flows_Feed (Some (flows_trigger c)) = [Sync_Flow (tr_extension (changed_row c))]"
    "on_payload parse Connectors_Feed (Some (connectors_trigger c)) = [Invalidate_Connector (of_nat (tr_id (changed_row c)))]"
  using assms
  by (simp_all add: on_users_payload_def on_settings_payload_def payload_extension_def users_trigger_def settings_trigger_def
      j_prop_def j_true_def flows_trigger_def on_flows_payload_def connectors_trigger_def on_connectors_payload_def js_number_show)

text \<open>A plain payload of digits is dropped. The comment says that a payload that is not the object is taken for the
  extension itself; but the digits of an extension are a JSON number, which parses, has no property and is ignored.\<close>

theorem plain_extension_ignored:
  assumes "parse (show_nat n) = Some (J_Num (of_nat n))"
  shows "on_payload parse Users_Feed (Some (show_nat n)) = [] \<and> on_payload parse Settings_Feed (Some (show_nat n)) = []"
  using assms by (simp add: on_users_payload_def on_settings_payload_def payload_extension_def j_prop_def j_true_def)

text \<open>A user who is deleted while the feed is not connected stays. The re-hydration that is to catch what was missed only adds and
  refreshes users: whatever the tables hold, everyone who was known is known after it.\<close>

lemma known_fold:
  assumes "\<And>x s. m_get (db_users s) k \<noteq> None \<Longrightarrow> m_get (db_users (g x s)) k \<noteq> None"
  shows "m_get (db_users s) k \<noteq> None \<Longrightarrow> m_get (db_users (fold g xs s)) k \<noteq> None"
proof (induction xs arbitrary: s)
  case (Cons x xs)
  show ?case unfolding fold_simps by (rule Cons.IH [OF assms [OF Cons.prems]])
qed simp

lemma upsert_known: "m_get (db_users s) k \<noteq> None \<Longrightarrow> m_get (db_users (upsert_user r s)) k \<noteq> None"
  by (simp add: upsert_user_def store_user_def Let_def update_conv')

lemma modify_fold_users: "db_users (fold (\<lambda>x. modify_user (h x) (g x)) xs s) = db_users s"
  by (induction xs arbitrary: s) simp_all

lemma detail_keeps_users: "db_users (hydrate_all_detail b f p l s) = db_users s"
  by (simp add: hydrate_all_detail_def Let_def modify_fold_users)

theorem offline_deletion_survives:
  assumes "get_user s k \<noteq> None"
  shows "get_user (fst (hydrate_from_postgres rows b f p l flows s)) k \<noteq> None"
proof -
  have "m_get (db_users (fold upsert_user rows s)) k \<noteq> None"
    using assms by (intro known_fold upsert_known) (auto simp: get_user_def)
  then show ?thesis
    by (simp add: hydrate_from_postgres_def get_user_def hydrate_ivr_flow_extensions_def detail_keeps_users split: option.split)
qed

section \<open>The set of flow entries\<close>

text \<open>
  The table of flows (the extension of a flow is unique), the notifications on their way, the lookups of
  \<^verbatim>\<open>syncIvrFlowExtension\<close> that have read the table and not yet come back, and the store with its set of entries. Two handlers
  wait independently, so a lookup may be made, and may come back, out of turn: the number of an event says which one.
\<close>

record flow_world =
  fl_rows :: "(string, bool) js_map"
  fl_notes :: "string list"
  fl_loads :: "(string \<times> bool) list"
  fl_db :: database

datatype flow_event = Fl_Save string bool | Fl_Move string string | Fl_Delete string | Fl_Load nat | Fl_Apply nat

definition enabled_flow :: "flow_world \<Rightarrow> string \<Rightarrow> bool" where
  "enabled_flow w e \<longleftrightarrow> m_get (fl_rows w) e = Some True"

definition row_at :: "string \<Rightarrow> table_row" where
  "row_at e = \<lparr>tr_extension = e, tr_id = 0\<rparr>"

definition note_flow :: "row_change \<Rightarrow> flow_world \<Rightarrow> flow_world" where
  "note_flow c w = w\<lparr>fl_notes := fl_notes w @ [flows_trigger c]\<rparr>"

definition without :: "nat \<Rightarrow> 'a list \<Rightarrow> 'a list" where
  "without i xs = take i xs @ drop (Suc i) xs"

fun flow_step :: "flow_event \<Rightarrow> flow_world \<Rightarrow> flow_world" where
  "flow_step (Fl_Save e on) w = note_flow (if m_has (fl_rows w) e then Row_Update (row_at e) (row_at e) else Row_Insert (row_at e))
     (w\<lparr>fl_rows := m_set e on (fl_rows w)\<rparr>)"
| "flow_step (Fl_Move e e') w = (case m_get (fl_rows w) e of None \<Rightarrow> w
     | Some on \<Rightarrow> if m_has (fl_rows w) e' then w
         else note_flow (Row_Update (row_at e) (row_at e')) (w\<lparr>fl_rows := m_set e' on (m_del e (fl_rows w))\<rparr>))"
| "flow_step (Fl_Delete e) w = (if m_has (fl_rows w) e then note_flow (Row_Delete (row_at e)) (w\<lparr>fl_rows := m_del e (fl_rows w)\<rparr>) else w)"
| "flow_step (Fl_Load i) w = (if i < length (fl_notes w) then
       (case on_flows_payload (Some (fl_notes w ! i)) of None \<Rightarrow> w\<lparr>fl_notes := without i (fl_notes w)\<rparr>
        | Some e \<Rightarrow> w\<lparr>fl_notes := without i (fl_notes w), fl_loads := fl_loads w @ [(e, enabled_flow w e)]\<rparr>)
     else w)"
| "flow_step (Fl_Apply i) w = (if i < length (fl_loads w) then
       w\<lparr>fl_loads := without i (fl_loads w), fl_db := sync_ivr_flow_extension (Some (snd (fl_loads w ! i))) (fst (fl_loads w ! i)) (fl_db w)\<rparr>
     else w)"

abbreviation flow_run :: "flow_event list \<Rightarrow> flow_world \<Rightarrow> flow_world" where
  "flow_run es w \<equiv> fold flow_step es w"

definition no_flows :: "database \<Rightarrow> flow_world" where
  "no_flows d = \<lparr>fl_rows = [], fl_notes = [], fl_loads = [], fl_db = d\<lparr>db_ivr_flows := []\<rparr>\<rparr>"

text \<open>In turn, and with no flow moved to another extension.\<close>

fun in_turn :: "flow_event \<Rightarrow> bool" where
  "in_turn (Fl_Load i) \<longleftrightarrow> i = 0"
| "in_turn (Fl_Apply i) \<longleftrightarrow> i = 0"
| "in_turn (Fl_Move e e') \<longleftrightarrow> False"
| "in_turn (Fl_Save e on) \<longleftrightarrow> e \<noteq> []"
| "in_turn (Fl_Delete e) \<longleftrightarrow> True"

text \<open>What the set of entries will say of an extension when the lookups on their way have come back.\<close>

definition settled_flow :: "flow_world \<Rightarrow> string \<Rightarrow> bool" where
  "settled_flow w e \<longleftrightarrow> is_ivr_flow_extension (fold (\<lambda>(x, on). sync_ivr_flow_extension (Some on) x) (fl_loads w) (fl_db w)) e"

lemma sync_flow [simp]:
  "is_ivr_flow_extension (sync_ivr_flow_extension (Some on) x d) e \<longleftrightarrow> (if e = x then on else is_ivr_flow_extension d e)"
  by (cases on) (auto simp: sync_ivr_flow_extension_def is_ivr_flow_extension_def)

lemma without_0 [simp]: "without 0 xs = tl xs"
  by (cases xs) (simp_all add: without_def)

definition flows_agree :: "flow_world \<Rightarrow> bool" where
  "flows_agree w \<longleftrightarrow> (\<forall>e. e \<noteq> [] \<and> e \<notin> set (fl_notes w) \<longrightarrow> settled_flow w e = enabled_flow w e)"

lemma flows_agree_step:
  assumes "in_turn ev" "flows_agree w"
  shows "flows_agree (flow_step ev w)"
proof (cases ev)
  case (Fl_Load i)
  then show ?thesis using assms
    by (cases "fl_notes w")
       (auto simp: flows_agree_def settled_flow_def enabled_flow_def on_flows_payload_def split: option.splits if_splits)
next
  case (Fl_Apply i)
  then show ?thesis using assms
    by (cases "fl_loads w") (auto simp: flows_agree_def settled_flow_def enabled_flow_def split_beta)
qed (use assms in \<open>auto simp: flows_agree_def settled_flow_def enabled_flow_def note_flow_def flows_trigger_def row_at_def
       update_conv' delete_conv' split: option.splits if_splits\<close>)

lemma flows_agree_run: "list_all in_turn es \<Longrightarrow> flows_agree w \<Longrightarrow> flows_agree (flow_run es w)"
  by (induction es arbitrary: w) (simp_all add: flows_agree_step)

text \<open>The entries follow the flows. Whatever flows are saved, enabled, disabled and deleted, once the notifications and the lookups they
  caught have been handled in turn, a number is an entry exactly if the table has an enabled flow for it.\<close>

theorem entries_follow_flows:
  assumes "list_all in_turn es" "fl_notes (flow_run es (no_flows d)) = []" "fl_loads (flow_run es (no_flows d)) = []" "e \<noteq> []"
  shows "is_ivr_flow_extension (fl_db (flow_run es (no_flows d))) e \<longleftrightarrow> m_get (fl_rows (flow_run es (no_flows d))) e = Some True"
proof -
  have "flows_agree (no_flows d)"
    by (simp add: flows_agree_def no_flows_def settled_flow_def enabled_flow_def is_ivr_flow_extension_def)
  from flows_agree_run [OF assms(1) this] show ?thesis
    using assms(2-4) by (simp add: flows_agree_def settled_flow_def enabled_flow_def)
qed

lemma m_has_singleton: "m_has [(a, b)] x \<longleftrightarrow> x = a"
  by (simp add: m_has_def)

lemma flow_eval:
  "flow_step (Fl_Save e on) \<lparr>fl_rows = r, fl_notes = n, fl_loads = l, fl_db = d\<rparr> =
     \<lparr>fl_rows = m_set e on r, fl_notes = n @ [e], fl_loads = l, fl_db = d\<rparr>"
  "e \<noteq> [] \<Longrightarrow> flow_step (Fl_Load 0) \<lparr>fl_rows = r, fl_notes = e # n, fl_loads = l, fl_db = d\<rparr> =
     \<lparr>fl_rows = r, fl_notes = n, fl_loads = l @ [(e, m_get r e = Some True)], fl_db = d\<rparr>"
  "flow_step (Fl_Apply 0) \<lparr>fl_rows = r, fl_notes = n, fl_loads = (e, on) # l, fl_db = d\<rparr> =
     \<lparr>fl_rows = r, fl_notes = n, fl_loads = l, fl_db = sync_ivr_flow_extension (Some on) e d\<rparr>"
  "flow_step (Fl_Apply (Suc 0)) \<lparr>fl_rows = r, fl_notes = n, fl_loads = x # (e, on) # l, fl_db = d\<rparr> =
     \<lparr>fl_rows = r, fl_notes = n, fl_loads = x # l, fl_db = sync_ivr_flow_extension (Some on) e d\<rparr>"
  "m_get r e = Some on \<Longrightarrow> m_get r e' = None \<Longrightarrow>
   flow_step (Fl_Move e e') \<lparr>fl_rows = r, fl_notes = n, fl_loads = l, fl_db = d\<rparr> =
     \<lparr>fl_rows = m_set e' on (m_del e r), fl_notes = n @ [e'], fl_loads = l, fl_db = d\<rparr>"
  by (simp_all add: note_flow_def flows_trigger_def row_at_def on_flows_payload_def enabled_flow_def without_def m_has_def)

text \<open>A flow that is moved keeps its old number. The trigger names the new extension only, so the old one stays an entry with no
  flow behind it.\<close>

theorem moved_flow_keeps_old_entry:
  assumes "e \<noteq> []" "e' \<noteq> []" "e \<noteq> e'"
  shows "let w = flow_run [Fl_Save e True, Fl_Load 0, Fl_Apply 0, Fl_Move e e', Fl_Load 0, Fl_Apply 0] (no_flows d)
    in fl_notes w = [] \<and> fl_loads w = [] \<and> m_get (fl_rows w) e = None \<and> is_ivr_flow_extension (fl_db w) e"
  using assms by (simp add: no_flows_def flow_eval Let_def del: flow_step.simps)

text \<open>A lookup that comes back late wins. Of two lookups for one flow the older may come back last: the flow is then disabled
  in the table and an entry all the same, with nothing left to be handled.\<close>

theorem late_lookup_wins:
  assumes "e \<noteq> []"
  shows "let w = flow_run [Fl_Save e True, Fl_Load 0, Fl_Save e False, Fl_Load 0, Fl_Apply 1, Fl_Apply 0] (no_flows d)
    in fl_notes w = [] \<and> fl_loads w = [] \<and> m_get (fl_rows w) e = Some False \<and> is_ivr_flow_extension (fl_db w) e"
  using assms by (simp add: no_flows_def flow_eval Let_def del: flow_step.simps)

section \<open>Instances\<close>

theorem feed_heals_witness:
  "let f = feed_run (first_connect @ [Fe_Caught_Up 0 True, Fe_Lost 0]) new_feed
   in fd_client f = None \<and> fd_timers f = [1000] \<and> list_all (\<lambda>d. 1000 \<le> d \<and> d \<le> 30000) (fd_timers f)"
proof -
  have "Fe_Start \<in> set (first_connect @ [Fe_Caught_Up 0 True, Fe_Lost 0])"
    "\<not> fd_stopped (feed_run (first_connect @ [Fe_Caught_Up 0 True, Fe_Lost 0]) new_feed)"
    by code_simp+
  note feed_heals [OF this]
  moreover have "fd_client (feed_run (first_connect @ [Fe_Caught_Up 0 True, Fe_Lost 0]) new_feed) = None"
    "fd_timers (feed_run (first_connect @ [Fe_Caught_Up 0 True, Fe_Lost 0]) new_feed) = [1000]"
    by code_simp+
  ultimately show ?thesis by (simp only: Let_def)
qed

definition flow_day :: "flow_event list" where
  "flow_day = [Fl_Save ''6001'' True, Fl_Save ''6002'' True, Fl_Load 0, Fl_Save ''6001'' False, Fl_Load 0, Fl_Load 0,
     Fl_Apply 0, Fl_Apply 0, Fl_Apply 0]"

theorem entries_follow_flows_witness:
  "\<not> is_ivr_flow_extension (fl_db (flow_run flow_day (no_flows (empty_db False ''USD'')))) ''6001'' \<and>
   is_ivr_flow_extension (fl_db (flow_run flow_day (no_flows (empty_db False ''USD'')))) ''6002''"
proof -
  have t: "list_all in_turn flow_day" "fl_notes (flow_run flow_day (no_flows (empty_db False ''USD''))) = []"
    "fl_loads (flow_run flow_day (no_flows (empty_db False ''USD''))) = []"
    by code_simp+
  have "m_get (fl_rows (flow_run flow_day (no_flows (empty_db False ''USD'')))) ''6001'' \<noteq> Some True"
    "m_get (fl_rows (flow_run flow_day (no_flows (empty_db False ''USD'')))) ''6002'' = Some True"
    by code_simp+
  then show ?thesis using entries_follow_flows [OF t, of "''6001''"] entries_follow_flows [OF t, of "''6002''"] by simp
qed

end
