(* ===== verification/Web_Client.thy ===== *)
theory Web_Client
  imports Json
begin

text \<open>
  How the web application reads and writes through the REST services: the cache of reads of
  \<^verbatim>\<open>src/web/app/lib/request-cache.ts\<close>, the requests of \<^verbatim>\<open>go-api.ts\<close> and \<^verbatim>\<open>api.ts\<close> with their
  single retry, and the session of \<^verbatim>\<open>jwt-verify.ts\<close>. What the network and the JWT library answer is given
  with each step.
\<close>

section \<open>One request\<close>

record reply =
  rp_status :: nat
  rp_status_text :: string
  rp_body :: "json option"

datatype api_error = Network_Failure | Api_Error nat string

definition reply_ok :: "reply \<Rightarrow> bool" where
  "reply_ok r \<longleftrightarrow> 200 \<le> rp_status r \<and> rp_status r \<le> 299"

definition refused_reply :: "reply \<Rightarrow> bool" where
  "refused_reply r \<longleftrightarrow> \<not> reply_ok r \<or> \<not> j_true (rp_body r) \<or> j_prop (rp_body r) ''success'' = Some (J_Bool False)"

definition body_message :: "reply \<Rightarrow> string" where
  "body_message r = (case j_prop (rp_body r) ''message'' of Some (J_Str s) \<Rightarrow> s | _ \<Rightarrow> [])"

definition go_unwrap :: "reply \<Rightarrow> api_error + json option" where
  "go_unwrap r =
     (if refused_reply r
      then Inl (Api_Error (rp_status r) (if body_message r \<noteq> [] then body_message r
        else if rp_status_text r \<noteq> [] then rp_status_text r else ''Request failed''))
      else Inr (j_prop (rp_body r) ''data''))"

definition node_unwrap :: "reply \<Rightarrow> api_error + json option" where
  "node_unwrap r =
     (if refused_reply r
      then Inl (Api_Error (rp_status r) (if body_message r \<noteq> [] then body_message r
        else show_nat (rp_status r) @ '' '' @ rp_status_text r))
      else Inr (j_prop (rp_body r) ''data''))"

text \<open>The new access token of a refresh; \<open>None\<close> stands for every failure.\<close>

definition refreshed_token :: "reply option \<Rightarrow> string option" where
  "refreshed_token a = (case a of None \<Rightarrow> None
     | Some r \<Rightarrow> if \<not> reply_ok r \<or> \<not> j_true (j_prop (rp_body r) ''success'') then None
         else (case j_prop (j_prop (rp_body r) ''data'') ''token'' of Some (J_Str (c # s)) \<Rightarrow> Some (c # s) | _ \<Rightarrow> None))"

record api_effects =
  ae_fetches :: nat
  ae_refreshes :: nat
  ae_logout :: bool

text \<open>A request with its one retry: the answers to the request, to the refresh and to the replay.\<close>

definition raw_go_request :: "reply option \<Rightarrow> reply option \<Rightarrow> reply option \<Rightarrow> (api_error + json option) \<times> api_effects" where
  "raw_go_request a1 fresh a2 = (case a1 of
     None \<Rightarrow> (Inl Network_Failure, \<lparr>ae_fetches = 1, ae_refreshes = 0, ae_logout = False\<rparr>)
   | Some r \<Rightarrow>
       if rp_status r \<noteq> 401 then (go_unwrap r, \<lparr>ae_fetches = 1, ae_refreshes = 0, ae_logout = False\<rparr>)
       else if refreshed_token fresh \<noteq> None
       then (case a2 of None \<Rightarrow> Inl Network_Failure | Some q \<Rightarrow> go_unwrap q, \<lparr>ae_fetches = 2, ae_refreshes = 1, ae_logout = False\<rparr>)
       else (go_unwrap r, \<lparr>ae_fetches = 1, ae_refreshes = 1, ae_logout = True\<rparr>))"

definition raw_request :: "reply option \<Rightarrow> reply option \<Rightarrow> reply option \<Rightarrow> (api_error + json option) \<times> api_effects" where
  "raw_request a1 fresh a2 = (case a1 of
     None \<Rightarrow> (Inl Network_Failure, \<lparr>ae_fetches = 1, ae_refreshes = 0, ae_logout = False\<rparr>)
   | Some r \<Rightarrow>
       if rp_status r \<noteq> 401 then (node_unwrap r, \<lparr>ae_fetches = 1, ae_refreshes = 0, ae_logout = False\<rparr>)
       else if refreshed_token fresh \<noteq> None
       then (case a2 of None \<Rightarrow> Inl Network_Failure | Some q \<Rightarrow> node_unwrap q, \<lparr>ae_fetches = 2, ae_refreshes = 1, ae_logout = False\<rparr>)
       else (node_unwrap r, \<lparr>ae_fetches = 1, ae_refreshes = 1, ae_logout = False\<rparr>))"

section \<open>The cache of reads\<close>

text \<open>A request on its way: its number, its key and the freshness window of the call that started it.\<close>

record get_cache =
  gc_store :: "(string, nat \<times> json) js_map"
  gc_flight :: "(string, nat) js_map"
  gc_next :: nat
  gc_out :: "(nat \<times> string \<times> nat) list"

definition empty_cache :: get_cache where
  "empty_cache = \<lparr>gc_store = [], gc_flight = [], gc_next = 0, gc_out = []\<rparr>"

definition default_ttl :: nat where
  "default_ttl = 30000"

datatype read_outcome = Served json | Joined nat | Started nat

definition cached_get :: "nat \<Rightarrow> nat \<Rightarrow> string \<Rightarrow> get_cache \<Rightarrow> read_outcome \<times> get_cache" where
  "cached_get now ttl k c =
     (case (if ttl > 0 then m_get (gc_store c) k else None) of
        Some (ts, d) \<Rightarrow> if now - ts < ttl then (Served d, c) else
          (case m_get (gc_flight c) k of Some r \<Rightarrow> (Joined r, c)
           | None \<Rightarrow> (Started (gc_next c), c\<lparr>gc_flight := m_set k (gc_next c) (gc_flight c), gc_next := gc_next c + 1, gc_out := gc_out c @ [(gc_next c, k, ttl)]\<rparr>))
      | None \<Rightarrow>
          (case m_get (gc_flight c) k of Some r \<Rightarrow> (Joined r, c)
           | None \<Rightarrow> (Started (gc_next c), c\<lparr>gc_flight := m_set k (gc_next c) (gc_flight c), gc_next := gc_next c + 1, gc_out := gc_out c @ [(gc_next c, k, ttl)]\<rparr>)))"

text \<open>A request comes back, with its data or with a failure.\<close>

definition get_done :: "nat \<Rightarrow> nat \<Rightarrow> json option \<Rightarrow> get_cache \<Rightarrow> get_cache" where
  "get_done now r res c = (case List.find (\<lambda>x. fst x = r) (gc_out c) of None \<Rightarrow> c
     | Some (_, k, ttl) \<Rightarrow> c\<lparr>gc_store := (case res of Some d \<Rightarrow> if ttl > 0 then m_set k (now, d) (gc_store c) else gc_store c | None \<Rightarrow> gc_store c),
         gc_flight := m_del k (gc_flight c), gc_out := filter (\<lambda>x. fst x \<noteq> r) (gc_out c)\<rparr>)"

definition invalidate_cache :: "string \<Rightarrow> get_cache \<Rightarrow> get_cache" where
  "invalidate_cache p c = c\<lparr>gc_store := (if p = [] then [] else filter (\<lambda>x. \<not> prefix p (fst x)) (gc_store c))\<rparr>"

definition invalidate_go_cache :: "string \<Rightarrow> get_cache \<Rightarrow> get_cache" where
  "invalidate_go_cache ep c =
     (if prefix ''/auth'' ep then invalidate_cache [] c
      else invalidate_cache (''g:/'' @ hd (split_on (CHR ''/'') (dropWhile (\<lambda>x. x = CHR ''/'') ep))) c)"

text \<open>\<^verbatim>\<open>goRequest\<close>: a read goes through the cache; a write that succeeded drops the reads of its family.\<close>

definition go_read :: "nat \<Rightarrow> string \<Rightarrow> get_cache \<Rightarrow> read_outcome \<times> get_cache" where
  "go_read now ep c = cached_get now default_ttl (''g:'' @ ep) c"

definition go_write :: "string \<Rightarrow> bool \<Rightarrow> get_cache \<Rightarrow> get_cache" where
  "go_write ep ok c = (if ok then invalidate_go_cache ep c else c)"

definition node_read :: "nat \<Rightarrow> string \<Rightarrow> get_cache \<Rightarrow> (read_outcome \<times> get_cache) option" where
  "node_read now ep c = (if ep = ''/metrics'' then None else Some (cached_get now 0 (''n:'' @ ep) c))"

section \<open>Sessions of the web server\<close>

text \<open>What the library makes of a token, verified with the secret or, without one, only decoded; times in milliseconds.\<close>

definition to_session :: "json \<Rightarrow> (string \<times> rat option) option" where
  "to_session p =
     (let ext = (case j_prop (Some p) ''extension'' of Some (J_Str s) \<Rightarrow> s
          | _ \<Rightarrow> (case j_prop (Some p) ''sub'' of Some (J_Str s) \<Rightarrow> s | _ \<Rightarrow> []))
      in if (case j_prop (Some p) ''type'' of Some (J_Str t) \<Rightarrow> t \<noteq> ''access'' | _ \<Rightarrow> False) \<or> ext = [] then None
         else Some (ext, case j_prop (Some p) ''user_id'' of Some (J_Num n) \<Rightarrow> Some n | _ \<Rightarrow> None))"

definition verify_auth_token :: "bool \<Rightarrow> (string \<Rightarrow> json option) \<Rightarrow> (string \<Rightarrow> json option) \<Rightarrow> rat \<Rightarrow> string option \<Rightarrow> (string \<times> rat option) option" where
  "verify_auth_token secret verify decode now token =
     (if \<not> truthy token then None
      else if secret then Option.bind (verify (the token)) to_session
      else Option.bind (decode (the token)) (\<lambda>p.
        (let e = (case j_prop (Some p) ''exp'' of Some (J_Num n) \<Rightarrow> n * 1000 | _ \<Rightarrow> 0)
         in if e \<noteq> 0 \<and> e \<le> now then None else to_session p)))"

text \<open>The gate of the pages under \<^verbatim>\<open>/admin\<close>: pass, or go to the front page.\<close>

definition admin_page :: "bool \<Rightarrow> (string \<Rightarrow> json option) \<Rightarrow> (string \<Rightarrow> json option) \<Rightarrow> rat \<Rightarrow> string option \<Rightarrow> string option" where
  "admin_page secret verify decode now token = (if verify_auth_token secret verify decode now token = None then Some ''/'' else None)"

section \<open>Requests\<close>

text \<open>A request is tried twice at most, and refreshes the session at most once: it is replayed exactly if the first answer was
  a refusal for want of a session and the refresh gave a token; the session of the browser is ended exactly if the refresh failed;
  and what the caller gets is the data of the last answer or its error.\<close>

theorem one_retry:
  "let (res, ef) = raw_go_request a1 fresh a2; unauthorized = (case a1 of Some r \<Rightarrow> rp_status r = 401 | None \<Rightarrow> False)
   in ae_fetches ef \<le> 2 \<and> ae_refreshes ef \<le> 1 \<and>
      (ae_fetches ef = 2) = (unauthorized \<and> refreshed_token fresh \<noteq> None) \<and>
      ae_logout ef = (unauthorized \<and> refreshed_token fresh = None) \<and>
      res = (case (if ae_fetches ef = 2 then a2 else a1) of None \<Rightarrow> Inl Network_Failure | Some r \<Rightarrow> go_unwrap r)"
  by (auto simp: raw_go_request_def Let_def split: option.split)

section \<open>Reads\<close>

datatype cache_event = Read nat nat string | Done nat nat "json option" | Write string bool

definition cache_step :: "cache_event \<Rightarrow> get_cache \<Rightarrow> get_cache" where
  "cache_step e c = (case e of Read now ttl k \<Rightarrow> snd (cached_get now ttl k c) | Done now r res \<Rightarrow> get_done now r res c
     | Write ep ok \<Rightarrow> go_write ep ok c)"

text \<open>Each key has one request on its way at most, and the map of those in flight says which.\<close>

definition cache_ok :: "get_cache \<Rightarrow> bool" where
  "cache_ok c \<longleftrightarrow> (\<forall>x\<in>set (gc_out c). fst x < gc_next c) \<and> distinct (map fst (gc_out c)) \<and> distinct (map (fst \<circ> snd) (gc_out c)) \<and>
     (\<forall>r k ttl. (r, k, ttl) \<in> set (gc_out c) \<longrightarrow> m_get (gc_flight c) k = Some r)"

lemma started_ok: "\<lbrakk>cache_ok c; m_get (gc_flight c) k = None\<rbrakk> \<Longrightarrow>
    cache_ok (c\<lparr>gc_flight := m_set k (gc_next c) (gc_flight c), gc_next := gc_next c + 1, gc_out := gc_out c @ [(gc_next c, k, ttl)]\<rparr>)"
  by (fastforce simp: cache_ok_def js.get_put)

lemma read_ok: "cache_ok c \<Longrightarrow> cache_ok (snd (cached_get now ttl k c))"
  by (auto simp: cached_get_def started_ok simp del: One_nat_def split: option.split)

lemma done_ok:
  assumes "cache_ok c"
  shows "cache_ok (get_done now r res c)"
proof (cases "List.find (\<lambda>x. fst x = r) (gc_out c)")
  case (Some x)
  obtain s k ttl where x: "x = (s, k, ttl)" by (metis prod_cases3)
  have m: "(r, k, ttl) \<in> set (gc_out c)" using find_SomeD [OF Some] x by auto
  have other: "j \<noteq> k" if "(q, j, t) \<in> set (gc_out c)" "q \<noteq> r" for q j t
  proof
    assume "j = k"
    then have "m_get (gc_flight c) k = Some q" "m_get (gc_flight c) k = Some r"
      using assms that(1) m unfolding cache_ok_def by blast+
    then show False using that(2) by simp
  qed
  show ?thesis
    using assms other unfolding cache_ok_def get_done_def Some x
    by (auto simp: distinct_map_filter js.get_del split: option.split)
qed (simp add: get_done_def assms)

lemma write_ok: "cache_ok c \<Longrightarrow> cache_ok (go_write ep ok c)"
  by (simp add: cache_ok_def go_write_def invalidate_go_cache_def invalidate_cache_def)

text \<open>Identical reads are one request. Whatever reads, answers and writes have happened, no two requests for the same key
  are on their way, and a further read of a key that is on its way joins that request.\<close>

theorem one_request_per_key:
  "let c = fold cache_step es empty_cache
   in distinct (map (fst \<circ> snd) (gc_out c)) \<and>
      (\<forall>r k ttl. (r, k, ttl) \<in> set (gc_out c) \<longrightarrow> fst (cached_get now 0 k c) = Joined r)"
proof -
  have "cache_ok (fold cache_step es c)" if "cache_ok c" for c
    using that
    by (induction es arbitrary: c) (auto simp: cache_step_def read_ok done_ok write_ok split: cache_event.split)
  from this [of empty_cache] have "cache_ok (fold cache_step es empty_cache)" by (simp add: cache_ok_def empty_cache_def)
  then show ?thesis by (auto simp: Let_def cache_ok_def cached_get_def)
qed

text \<open>A write does not reach the reads that are on their way. A read that was sent before the write and comes back after it
  stores what the server held before; for half a minute every read is served this, although the write had dropped the family so
  that the next read would fetch anew.\<close>

theorem read_before_write_is_kept:
  assumes "cache_ok c" and "m_get (gc_store c) (''g:'' @ ep) = None" and "m_get (gc_flight c) (''g:'' @ ep) = None"
    and "later < t + 30000"
  shows "let c1 = snd (go_read now ep c); c2 = go_write ep ok c1; c3 = get_done t (gc_next c) (Some old) c2
    in fst (go_read now ep c) = Started (gc_next c) \<and> fst (go_read later ep c3) = Served old"
proof -
  have "\<forall>x\<in>set (gc_out c). fst x \<noteq> gc_next c" using assms(1) by (auto simp: cache_ok_def)
  then have "List.find (\<lambda>x. fst x = gc_next c) (gc_out c) = None" by (auto simp: find_None_iff)
  then have "List.find (\<lambda>x. fst x = gc_next c) (gc_out c @ [(gc_next c, ''g:'' @ ep, 30000)]) = Some (gc_next c, ''g:'' @ ep, 30000)"
    by (simp add: find_append)
  then show ?thesis
    using assms(2-4)
    by (auto simp: Let_def go_read_def default_ttl_def cached_get_def go_write_def invalidate_go_cache_def invalidate_cache_def get_done_def)
qed

text \<open>Nor does a new session. A read that the previous user's page has on its way answers the same read of the user who has
  just logged in, although logging in drops every cached answer so that nothing leaks from one session to the next.\<close>

theorem next_user_joins_old_read:
  assumes "m_get (gc_flight c) (''g:'' @ ep) = Some r"
  shows "fst (go_read now ep (go_write ''/auth/login'' True c)) = Joined r"
  using assms by (simp add: go_write_def invalidate_go_cache_def invalidate_cache_def go_read_def cached_get_def)

section \<open>Instances\<close>

theorem one_request_per_key_witness:
  "fst (cached_get 5 0 ''n:/users'' (fold cache_step [Read 1 0 ''n:/users'', Read 2 0 ''n:/health''] empty_cache)) = Joined 0"
proof -
  let ?es = "[Read 1 0 ''n:/users'', Read 2 0 ''n:/health'']"
  have "(0, ''n:/users'', 0) \<in> set (gc_out (fold cache_step ?es empty_cache))" by code_simp
  then show ?thesis using one_request_per_key [where es = ?es and now = 5] unfolding Let_def by blast
qed

theorem read_before_write_is_kept_witness:
  "fst (go_read 200 ''/webhooks'' (get_done 100 0 (Some (J_Str ''old'')) (go_write ''/webhooks'' True (snd (go_read 0 ''/webhooks'' empty_cache)))))
    = Served (J_Str ''old'')"
proof -
  have "cache_ok empty_cache" by (simp add: cache_ok_def empty_cache_def)
  from read_before_write_is_kept [OF this, where ep = "''/webhooks''" and now = 0 and t = 100 and later = 200 and ok = True and old = "J_Str ''old''"]
  show ?thesis by (simp add: Let_def empty_cache_def)
qed

theorem next_user_joins_old_read_witness:
  "fst (go_read 9 ''/balance'' (go_write ''/auth/login'' True (snd (go_read 0 ''/balance'' empty_cache)))) = Joined 0"
proof -
  have "m_get (gc_flight (snd (go_read 0 ''/balance'' empty_cache))) (''g:'' @ ''/balance'') = Some 0" by code_simp
  then show ?thesis by (rule next_user_joins_old_read)
qed

end
