(* ===== verification/Presence_Socket.thy ===== *)
theory Presence_Socket
  imports Phone_Book
begin

text \<open>
  The signalling socket of the web phone, \<^verbatim>\<open>src/web/app/hooks/useWebSocket.ts\<close>: its connection, the contacts'
  presence and the lookups; and the list of messages of \<^verbatim>\<open>src/web/app/stores/voicemail.store.ts\<close>.
\<close>

section \<open>The connection\<close>

text \<open>A socket has the extension that it was made for; the timers of reconnections have theirs.\<close>

record presence =
  ws_current :: "nat option"
  ws_sockets :: "string list"
  ws_open :: "nat list"
  ws_connected :: bool
  ws_extension :: string
  ws_timers :: "string list"
  ws_book :: contacts
  ws_lookups :: "(nat \<times> string) list"
  ws_next_lookup :: nat

definition new_presence :: presence where
  "new_presence = \<lparr>ws_current = None, ws_sockets = [], ws_open = [], ws_connected = False, ws_extension = [], ws_timers = [],
     ws_book = no_contacts, ws_lookups = [], ws_next_lookup = 0\<rparr>"

definition is_open :: "presence \<Rightarrow> bool" where
  "is_open s \<longleftrightarrow> (case ws_current s of Some k \<Rightarrow> k \<in> set (ws_open s) | None \<Rightarrow> False)"

datatype ws_out = Send_Register nat string | Send_Lookup nat string | Close_Socket nat

definition ws_connect :: "string \<Rightarrow> presence \<Rightarrow> presence" where
  "ws_connect ext s =
     (let t = s\<lparr>ws_extension := ext\<rparr>
      in if is_open s then t else t\<lparr>ws_current := Some (length (ws_sockets s)), ws_sockets := ws_sockets s @ [ext]\<rparr>)"

definition ws_opened :: "nat \<Rightarrow> presence \<Rightarrow> presence \<times> ws_out list" where
  "ws_opened k s = (if k < length (ws_sockets s) then (s\<lparr>ws_open := k # ws_open s, ws_connected := True\<rparr>, [Send_Register k (ws_sockets s ! k)]) else (s, []))"

definition ws_closed :: "nat \<Rightarrow> presence \<Rightarrow> presence" where
  "ws_closed k s = (if k < length (ws_sockets s)
     then s\<lparr>ws_open := removeAll k (ws_open s), ws_connected := False, ws_timers := ws_timers s @ [ws_sockets s ! k]\<rparr> else s)"

definition ws_timer :: "presence \<Rightarrow> presence" where
  "ws_timer s = (case ws_timers s of [] \<Rightarrow> s | e # es \<Rightarrow> ws_connect e (s\<lparr>ws_timers := es\<rparr>))"

definition ws_disconnect :: "presence \<Rightarrow> presence \<times> ws_out list" where
  "ws_disconnect s = (s\<lparr>ws_current := None\<rparr>, case ws_current s of Some k \<Rightarrow> [Close_Socket k] | None \<Rightarrow> [])"

section \<open>Messages\<close>

record online_user =
  ou_extension :: string
  ou_name :: string
  ou_username :: string
  ou_online :: bool

datatype ws_message =
    Online_Users "online_user list"
  | User_Online string string
  | User_Offline string
  | Lookup_Result string bool "string option"
  | Other_Message

definition presence_of :: "bool \<Rightarrow> string \<Rightarrow> contact \<Rightarrow> contact" where
  "presence_of b ext c = (if co_extension c = ext then c\<lparr>co_online := b, co_registered := b\<rparr> else c)"

definition presence_list :: "ws_message \<Rightarrow> contact list \<Rightarrow> contact list option" where
  "presence_list m cs = (case m of
     Online_Users us \<Rightarrow> Some (map (\<lambda>u. \<lparr>co_id = None, co_extension = ou_extension u, co_name = ou_name u, co_username = ou_username u,
       co_online = ou_online u, co_registered = ou_online u\<rparr>) us)
   | User_Online ext name \<Rightarrow>
       if list_ex (\<lambda>c. co_extension c = ext) cs then Some (map (presence_of True ext) cs)
       else Some (cs @ [\<lparr>co_id = None, co_extension = ext, co_name = name, co_username = ext, co_online = True, co_registered = True\<rparr>])
   | User_Offline ext \<Rightarrow> Some (map (presence_of False ext) cs)
   | _ \<Rightarrow> None)"

text \<open>The answers that the message gives to the lookups that wait, by their numbers.\<close>

definition lookup_answers :: "ws_message \<Rightarrow> presence \<Rightarrow> (nat \<times> string option) list" where
  "lookup_answers m s = (case m of
     Lookup_Result t found ext \<Rightarrow> map (\<lambda>l. (fst l, if found then non_empty ext else None)) (filter (\<lambda>l. snd l = t) (ws_lookups s))
   | _ \<Rightarrow> [])"

definition ws_message :: "string option \<Rightarrow> nat \<Rightarrow> ws_message \<Rightarrow> presence \<Rightarrow> presence \<times> (nat \<times> string option) list" where
  "ws_message me now m s =
     (let t = (case presence_list m (cb_contacts (ws_book s)) of Some cs \<Rightarrow> s\<lparr>ws_book := set_contacts me now cs (ws_book s)\<rparr> | None \<Rightarrow> s);
          as = lookup_answers m s
      in (t\<lparr>ws_lookups := filter (\<lambda>l. fst l \<notin> set (map fst as)) (ws_lookups t)\<rparr>, as))"

text \<open>A lookup answers at once when the socket is closed; otherwise it waits for the result or for its timer.\<close>

definition ws_lookup :: "string \<Rightarrow> presence \<Rightarrow> presence \<times> ws_out list \<times> bool" where
  "ws_lookup t s = (case ws_current s of
     Some k \<Rightarrow> if k \<in> set (ws_open s)
       then (s\<lparr>ws_lookups := ws_lookups s @ [(ws_next_lookup s, t)], ws_next_lookup := ws_next_lookup s + 1\<rparr>, [Send_Lookup k t], False) else (s, [], True)
   | None \<Rightarrow> (s, [], True))"

definition lookup_timeout :: "nat \<Rightarrow> presence \<Rightarrow> presence" where
  "lookup_timeout i s = s\<lparr>ws_lookups := filter (\<lambda>l. fst l \<noteq> i) (ws_lookups s)\<rparr>"

section \<open>Voicemail list\<close>

record vm_item =
  vi_id :: string
  vi_read :: bool

record vm_store =
  vs_items :: "vm_item list"
  vs_loading :: bool
  vs_loaded_at :: nat

definition fetch_voicemails :: "nat \<Rightarrow> string \<Rightarrow> bool \<Rightarrow> vm_store \<Rightarrow> bool \<times> vm_store" where
  "fetch_voicemails now ext force s =
     (if ext = [] \<or> vs_loading s \<or> \<not> force \<and> now < vs_loaded_at s + 60000 then (False, s) else (True, s\<lparr>vs_loading := True\<rparr>))"

definition voicemails_fetched :: "nat \<Rightarrow> vm_item list option \<Rightarrow> vm_store \<Rightarrow> vm_store" where
  "voicemails_fetched now r s = (case r of None \<Rightarrow> s\<lparr>vs_loading := False\<rparr>
     | Some vs \<Rightarrow> s\<lparr>vs_items := vs, vs_loaded_at := now, vs_loading := False\<rparr>)"

definition add_voicemail :: "vm_item \<Rightarrow> vm_store \<Rightarrow> vm_store" where
  "add_voicemail v s = s\<lparr>vs_items := (if list_ex (\<lambda>x. vi_id x = vi_id v) (vs_items s) then vs_items s else v # vs_items s)\<rparr>"

definition mark_voicemail_read :: "string \<Rightarrow> vm_store \<Rightarrow> vm_store" where
  "mark_voicemail_read i s = s\<lparr>vs_items := map (\<lambda>x. if vi_id x = i then x\<lparr>vi_read := True\<rparr> else x) (vs_items s)\<rparr>"

definition remove_voicemail_item :: "string \<Rightarrow> vm_store \<Rightarrow> vm_store" where
  "remove_voicemail_item i s = s\<lparr>vs_items := filter (\<lambda>x. vi_id x \<noteq> i) (vs_items s)\<rparr>"

definition reset_voicemails :: "vm_store \<Rightarrow> vm_store" where
  "reset_voicemails s = \<lparr>vs_items = [], vs_loading = False, vs_loaded_at = 0\<rparr>"

definition unread_count :: "vm_store \<Rightarrow> nat" where
  "unread_count s = length (filter (\<lambda>x. \<not> vi_read x) (vs_items s))"

section \<open>Presence\<close>

definition online_in :: "presence \<Rightarrow> string \<Rightarrow> bool" where
  "online_in s ext \<longleftrightarrow> list_ex (\<lambda>c. co_extension c = ext \<and> co_online c) (cb_contacts (ws_book s))"

text \<open>The reference: who is online after the messages, as a set of extensions.\<close>

fun online_after :: "ws_message list \<Rightarrow> string set \<Rightarrow> string set" where
  "online_after [] on = on"
| "online_after (Online_Users us # ms) on = online_after ms (ou_extension ` {u \<in> set us. ou_online u})"
| "online_after (User_Online e n # ms) on = online_after ms (insert e on)"
| "online_after (User_Offline e # ms) on = online_after ms (on - {e})"
| "online_after (_ # ms) on = online_after ms on"

definition hear_all :: "string option \<Rightarrow> ws_message list \<Rightarrow> presence \<Rightarrow> presence" where
  "hear_all me ms s = fold (\<lambda>m t. fst (ws_message me 1 m t)) ms s"

lemma heard_contacts:
  "cb_contacts (ws_book (fst (ws_message me now m s))) =
     (case presence_list m (cb_contacts (ws_book s)) of Some cs \<Rightarrow> exclude_self me cs | None \<Rightarrow> cb_contacts (ws_book s))"
  by (simp add: ws_message_def Let_def set_contacts_def split: option.split)

definition listed_online :: "contact list \<Rightarrow> string \<Rightarrow> bool" where
  "listed_online cs e \<longleftrightarrow> list_ex (\<lambda>c. co_extension c = e \<and> co_online c) cs"

lemma listed_exclude: "e \<noteq> self \<Longrightarrow> listed_online (exclude_self (Some self) cs) e = listed_online cs e"
  by (auto simp: listed_online_def exclude_self_def list_ex_iff)

lemma listed_presence:
  "listed_online (map (presence_of b x) cs) e = (if e = x then b \<and> list_ex (\<lambda>c. co_extension c = x) cs else listed_online cs e)"
  by (induction cs) (auto simp: listed_online_def presence_of_def)

lemma online_message:
  assumes "\<And>e. e \<noteq> self \<Longrightarrow> online_in s e \<longleftrightarrow> e \<in> on" and "e \<noteq> self"
  shows "online_in (fst (ws_message (Some self) now m s)) e \<longleftrightarrow> e \<in> online_after [m] on"
proof -
  have s: "listed_online (cb_contacts (ws_book s)) e \<longleftrightarrow> e \<in> on"
    using assms by (simp add: online_in_def listed_online_def)
  have "online_in (fst (ws_message (Some self) now m s)) e =
      (case presence_list m (cb_contacts (ws_book s)) of Some cs \<Rightarrow> listed_online cs e | None \<Rightarrow> listed_online (cb_contacts (ws_book s)) e)"
    using listed_exclude [OF assms(2)] by (simp add: online_in_def heard_contacts listed_online_def split: option.split)
  then show ?thesis
    using s
  proof (cases m)
    case (Online_Users us)
    then show ?thesis
      using \<open>online_in _ e = _\<close> by (auto simp: presence_list_def listed_online_def list_ex_iff)
  next
    case (User_Online x n)
    have "listed_online (cs @ [c]) e \<longleftrightarrow> listed_online cs e \<or> co_extension c = e \<and> co_online c" for cs c
      by (simp add: listed_online_def)
    then show ?thesis
      using User_Online \<open>online_in _ e = _\<close> s by (auto simp: presence_list_def listed_presence)
  qed (auto simp: presence_list_def listed_presence)
qed

lemma online_after_cons: "online_after (m # ms) on = online_after ms (online_after [m] on)"
  by (cases m) simp_all

text \<open>C22: The contacts show who is online. After any messages of the server the contact list has an extension as online exactly if
  the messages make it so, the last snapshot and the changes since; and the user's own extension is never listed.\<close>

theorem contacts_follow_presence:
  assumes "self \<noteq> []" and "e \<noteq> self"
  shows "(online_in (hear_all (Some self) ms new_presence) e \<longleftrightarrow> e \<in> online_after ms {}) \<and>
    \<not> list_ex (\<lambda>c. co_extension c = self) (cb_contacts (ws_book (hear_all (Some self) ms new_presence)))"
proof -
  have "online_in (hear_all (Some self) ms s) e \<longleftrightarrow> e \<in> online_after ms on" if "\<And>e. e \<noteq> self \<Longrightarrow> online_in s e \<longleftrightarrow> e \<in> on" for s on
    using that
  proof (induction ms arbitrary: s on)
    case (Cons m ms)
    have "online_in (hear_all (Some self) ms (fst (ws_message (Some self) 1 m s))) e \<longleftrightarrow> e \<in> online_after ms (online_after [m] on)"
      by (rule Cons.IH) (rule online_message [OF Cons.prems])
    then show ?case by (simp add: hear_all_def online_after_cons [of m ms])
  qed (simp add: hear_all_def assms(2))
  moreover have "\<not> online_in new_presence e" for e by (simp add: online_in_def new_presence_def no_contacts_def)
  moreover have "\<not> list_ex (\<lambda>c. co_extension c = self) (cb_contacts (ws_book (hear_all (Some self) ms s)))"
    if "\<not> list_ex (\<lambda>c. co_extension c = self) (cb_contacts (ws_book s))" for s
    using that
  proof (induction ms arbitrary: s)
    case (Cons m ms)
    have "\<not> list_ex (\<lambda>c. co_extension c = self) (cb_contacts (ws_book (fst (ws_message (Some self) 1 m s))))"
      using Cons.prems assms(1) by (auto simp: heard_contacts exclude_self_def list_ex_iff split: option.split)
    then show ?case using Cons.IH by (simp add: hear_all_def)
  qed (simp add: hear_all_def)
  moreover have "\<not> list_ex (\<lambda>c. co_extension c = self) (cb_contacts (ws_book new_presence))" by (simp add: new_presence_def no_contacts_def)
  ultimately show ?thesis by simp
qed

text \<open>Signing off does not last. A disconnected socket's close starts the reconnection like any other, and three seconds later a
  new socket is opened and registers the extension that had signed off.\<close>

theorem sign_off_reconnects:
  assumes "ws_current s = Some k" and "k < length (ws_sockets s)" and "ws_timers s = []"
  shows "let t = ws_timer (ws_closed k (fst (ws_disconnect s))) in
    ws_current t = Some (length (ws_sockets s)) \<and>
    snd (ws_opened (length (ws_sockets s)) t) = [Send_Register (length (ws_sockets s)) (ws_sockets s ! k)]"
  using assms by (simp add: Let_def ws_disconnect_def ws_closed_def ws_timer_def ws_connect_def is_open_def ws_opened_def)

theorem contacts_follow_presence_witness:
  "online_in (hear_all (Some ''1001'') [User_Online ''1002'' ''Bob'', User_Online ''1001'' ''Ann'', User_Offline ''1003''] new_presence) ''1002''"
proof -
  have "''1002'' \<in> online_after [User_Online ''1002'' ''Bob'', User_Online ''1001'' ''Ann'', User_Offline ''1003''] {}" by simp
  then show ?thesis
    using contacts_follow_presence [where self = "''1001''" and e = "''1002''" and
      ms = "[User_Online ''1002'' ''Bob'', User_Online ''1001'' ''Ann'', User_Offline ''1003'']"] by simp
qed

theorem sign_off_reconnects_witness:
  "snd (ws_opened 1 (ws_timer (ws_closed 0 (fst (ws_disconnect (fst (ws_opened 0 (ws_connect ''1001'' new_presence)))))))) = [Send_Register 1 ''1001'']"
proof -
  let ?s = "fst (ws_opened 0 (ws_connect ''1001'' new_presence))"
  have "ws_current ?s = Some 0" "0 < length (ws_sockets ?s)" "ws_timers ?s = []" "length (ws_sockets ?s) = 1" "ws_sockets ?s ! 0 = ''1001''" by code_simp+
  with sign_off_reconnects [OF this(1-3)] show ?thesis by (simp add: Let_def)
qed

end
