(* ===== verification/Live_Feeds.thy ===== *)
theory Live_Feeds
  imports Json
begin

text \<open>
  The live feeds of the dashboard: the queues (\<^verbatim>\<open>src/web/app/hooks/useLiveQueues.ts\<close>), the audit trail
  (\<^verbatim>\<open>useLiveAudit.ts\<close>) and the metrics with their polling (\<^verbatim>\<open>useLiveMetrics.ts\<close>). Sockets, timers and intervals
  are numbered as they are made; a socket is heard of until it has closed, whichever the hook refers to.
\<close>

section \<open>What is heard\<close>

definition max_entries :: nat where
  "max_entries = 200"

definition same_id :: "json \<Rightarrow> json \<Rightarrow> bool" where
  "same_id x y \<longleftrightarrow> j_prop (Some x) ''id'' = j_prop (Some y) ''id''"

fun upsert_queue :: "json \<Rightarrow> json list \<Rightarrow> json list" where
  "upsert_queue q [] = [q]"
| "upsert_queue q (x # xs) = (if same_id x q then q # xs else x # upsert_queue q xs)"

definition is_text :: "json option \<Rightarrow> string \<Rightarrow> bool" where
  "is_text v s \<longleftrightarrow> v = Some (J_Str s)"

definition hear_queues :: "json \<Rightarrow> json list \<Rightarrow> json list" where
  "hear_queues msg qs =
     (if \<not> is_text (j_prop (Some msg) ''type'') ''queue_event'' then qs
      else case (j_prop (Some msg) ''event'', j_prop (Some msg) ''queues'') of
          (ev, Some (J_Arr all)) \<Rightarrow> if is_text ev ''snapshot'' then all
            else if is_text ev ''queue'' \<and> j_true (j_prop (Some msg) ''queue'') then upsert_queue (the (j_prop (Some msg) ''queue'')) qs else qs
        | (ev, _) \<Rightarrow> if is_text ev ''queue'' \<and> j_true (j_prop (Some msg) ''queue'') then upsert_queue (the (j_prop (Some msg) ''queue'')) qs else qs)"

definition hear_audit :: "json \<Rightarrow> json list \<Rightarrow> json list" where
  "hear_audit msg es =
     (let entry = j_prop (Some msg) ''entry'';
          live = (if is_text (j_prop (Some msg) ''type'') ''audit_entry'' \<and> j_true entry then take max_entries (the entry # es) else es)
      in case j_prop (Some msg) ''entries'' of
          Some (J_Arr h) \<Rightarrow> if is_text (j_prop (Some msg) ''type'') ''audit_history'' then take max_entries h else live
        | _ \<Rightarrow> live)"

definition hear_metrics :: "json \<Rightarrow> json option \<Rightarrow> json option" where
  "hear_metrics msg m = (if is_text (j_prop (Some msg) ''type'') ''metrics'' then Some msg else m)"

section \<open>The socket of a feed\<close>

record live =
  lv_ws :: "nat option"
  lv_connected :: bool
  lv_closed :: bool
  lv_timer :: "nat option"
  lv_poll :: "nat option"
  lv_sockets :: "nat list"
  lv_timers :: "nat list"
  lv_polls :: "nat list"
  lv_next :: nat

definition no_live :: live where
  "no_live = \<lparr>lv_ws = None, lv_connected = False, lv_closed = False, lv_timer = None, lv_poll = None, lv_sockets = [], lv_timers = [],
     lv_polls = [], lv_next = 0\<rparr>"

definition stop_polling :: "live \<Rightarrow> live" where
  "stop_polling l = (case lv_poll l of None \<Rightarrow> l | Some p \<Rightarrow> l\<lparr>lv_poll := None, lv_polls := removeAll p (lv_polls l)\<rparr>)"

definition start_polling :: "live \<Rightarrow> live" where
  "start_polling l = (case lv_poll l of Some p \<Rightarrow> l
     | None \<Rightarrow> l\<lparr>lv_poll := Some (lv_next l), lv_polls := lv_polls l @ [lv_next l], lv_next := lv_next l + 1\<rparr>)"

text \<open>\<open>url\<close>: there is an address and the socket can be made.\<close>

definition metrics_connect :: "bool \<Rightarrow> live \<Rightarrow> live" where
  "metrics_connect url l = (if \<not> url then start_polling l
     else l\<lparr>lv_ws := Some (lv_next l), lv_sockets := lv_sockets l @ [lv_next l], lv_next := lv_next l + 1\<rparr>)"

definition metrics_opened :: "nat \<Rightarrow> live \<Rightarrow> live" where
  "metrics_opened k l = (if k \<in> set (lv_sockets l) then stop_polling (l\<lparr>lv_connected := True\<rparr>) else l)"

definition schedule_connect :: "live \<Rightarrow> live" where
  "schedule_connect l = l\<lparr>lv_timer := Some (lv_next l), lv_timers := lv_timers l @ [lv_next l], lv_next := lv_next l + 1\<rparr>"

definition metrics_closed :: "nat \<Rightarrow> live \<Rightarrow> live" where
  "metrics_closed k l = (if k \<notin> set (lv_sockets l) then l
     else let l1 = l\<lparr>lv_connected := False, lv_ws := None, lv_sockets := removeAll k (lv_sockets l)\<rparr>
       in if lv_closed l1 then l1 else schedule_connect (start_polling l1))"

definition clear_timer :: "live \<Rightarrow> live" where
  "clear_timer l = (case lv_timer l of None \<Rightarrow> l | Some t \<Rightarrow> l\<lparr>lv_timers := removeAll t (lv_timers l)\<rparr>)"

definition metrics_mount :: "bool \<Rightarrow> live \<Rightarrow> live" where
  "metrics_mount url l = metrics_connect url (l\<lparr>lv_closed := False\<rparr>)"

definition metrics_unmount :: "live \<Rightarrow> live" where
  "metrics_unmount l = (stop_polling (clear_timer (l\<lparr>lv_closed := True\<rparr>)))\<lparr>lv_ws := None\<rparr>"

definition timer_connects :: "(live \<Rightarrow> live) \<Rightarrow> nat \<Rightarrow> live \<Rightarrow> live" where
  "timer_connects connect t l = (if t \<in> set (lv_timers l) then connect (l\<lparr>lv_timers := removeAll t (lv_timers l)\<rparr>) else l)"

text \<open>The queues and the audit trail have no polling.\<close>

definition queues_connect :: "bool \<Rightarrow> live \<Rightarrow> live" where
  "queues_connect url l = (if \<not> url then l
     else l\<lparr>lv_ws := Some (lv_next l), lv_sockets := lv_sockets l @ [lv_next l], lv_next := lv_next l + 1\<rparr>)"

definition queues_closed :: "nat \<Rightarrow> live \<Rightarrow> live" where
  "queues_closed k l = (if k \<notin> set (lv_sockets l) then l
     else let l1 = l\<lparr>lv_connected := False, lv_ws := None, lv_sockets := removeAll k (lv_sockets l)\<rparr>
       in if lv_closed l1 then l1 else schedule_connect l1)"

definition set_paused :: "(nat \<Rightarrow> bool) \<Rightarrow> bool \<Rightarrow> string option \<Rightarrow> live \<Rightarrow> (nat \<times> json) option" where
  "set_paused is_open p queue l = (case lv_ws l of None \<Rightarrow> None
     | Some k \<Rightarrow> if is_open k then Some (k, J_Obj ([(''type'', J_Str ''queue''), (''action'', J_Str (if p then ''pause'' else ''unpause''))]
         @ (case queue of None \<Rightarrow> [] | Some q \<Rightarrow> [(''queueId'', J_Str q)]))) else None)"

datatype metrics_event = Me_Mount bool | Me_Unmount | Me_Opened nat | Me_Closed nat | Me_Timer nat bool

fun metrics_step :: "metrics_event \<Rightarrow> live \<Rightarrow> live" where
  "metrics_step (Me_Mount url) l = metrics_mount url l"
| "metrics_step Me_Unmount l = metrics_unmount l"
| "metrics_step (Me_Opened k) l = metrics_opened k l"
| "metrics_step (Me_Closed k) l = metrics_closed k l"
| "metrics_step (Me_Timer t url) l = timer_connects (metrics_connect url) t l"

abbreviation metrics_run :: "metrics_event list \<Rightarrow> live \<Rightarrow> live" where
  "metrics_run es l \<equiv> fold metrics_step es l"

section \<open>The audit feed\<close>

text \<open>The feed shows the newest entries. After a history and any entries that came since, it holds the entries, newest first, before
  the history, and of these the first two hundred.\<close>

definition audit_history :: "json list \<Rightarrow> json" where
  "audit_history h = J_Obj [(''type'', J_Str ''audit_history''), (''entries'', J_Arr h)]"

definition audit_entry :: "json \<Rightarrow> json" where
  "audit_entry e = J_Obj [(''type'', J_Str ''audit_entry''), (''entry'', e)]"

lemma hear_entry: "j_true (Some e) \<Longrightarrow> hear_audit (audit_entry e) es = take max_entries (e # es)"
  by (simp add: hear_audit_def audit_entry_def j_prop_def is_text_def Let_def)

lemma hear_history: "hear_audit (audit_history h) es = take max_entries h"
  by (simp add: hear_audit_def audit_history_def j_prop_def is_text_def)

lemma take_cons_take: "take n (e # take n h) = take n (e # h)"
  by (cases n) (simp_all add: take_take min_def)

lemma hear_entries: "list_all (\<lambda>e. j_true (Some e)) es \<Longrightarrow>
    fold (\<lambda>e. hear_audit (audit_entry e)) es (take max_entries h) = take max_entries (rev es @ h)"
proof (induction es arbitrary: h)
  case (Cons e es)
  then show ?case by (simp add: hear_entry take_cons_take)
qed simp

theorem feed_shows_newest:
  assumes "list_all (\<lambda>e. j_true (Some e)) es"
  shows "fold (\<lambda>e. hear_audit (audit_entry e)) es (hear_audit (audit_history h) seen) = take 200 (rev es @ h)"
  using hear_entries [OF assms, of h] by (simp add: hear_history max_entries_def)

lemma entries_bounded: "length es \<le> max_entries \<Longrightarrow> length (hear_audit msg es) \<le> max_entries"
  by (auto simp: hear_audit_def Let_def split: option.splits json.splits)

section \<open>Queues by identifier\<close>

text \<open>The list shows each queue as it was last heard, in its place.\<close>

definition queue_shown :: "json option \<Rightarrow> json list \<Rightarrow> json option" where
  "queue_shown i qs = List.find (\<lambda>x. j_prop (Some x) ''id'' = i) qs"

theorem queue_list_follows:
  "queue_shown i (upsert_queue q qs) = (if j_prop (Some q) ''id'' = i then Some q else queue_shown i qs)"
  by (induction qs) (auto simp: queue_shown_def same_id_def)

section \<open>Polling ends with the page\<close>

fun is_mount :: "metrics_event \<Rightarrow> bool" where
  "is_mount (Me_Mount url) \<longleftrightarrow> True"
| "is_mount e \<longleftrightarrow> False"

definition one_line :: "live \<Rightarrow> bool" where
  "one_line l \<longleftrightarrow> lv_polls l = (case lv_poll l of None \<Rightarrow> [] | Some p \<Rightarrow> [p]) \<and> length (lv_timers l) + length (lv_sockets l) \<le> 1 \<and>
     (\<forall>t\<in>set (lv_timers l). lv_timer l = Some t)"

lemmas live_defs = metrics_unmount_def metrics_opened_def metrics_closed_def timer_connects_def metrics_connect_def
  stop_polling_def start_polling_def schedule_connect_def clear_timer_def Let_def

lemma short_list: "length xs \<le> Suc 0 \<Longrightarrow> x \<in> set xs \<Longrightarrow> xs = [x]"
  by (cases xs) auto

lemma removeAll_only: "\<forall>t\<in>set xs. x = t \<Longrightarrow> removeAll x xs = []"
  by (induction xs) auto

lemma one_line_step:
  assumes "one_line l" "\<not> is_mount e"
  shows "one_line (metrics_step e l)"
proof (cases e)
  case (Me_Timer t url)
  then show ?thesis using assms short_list [of "lv_timers l" t]
    by (auto simp: one_line_def live_defs split: option.splits)
next
  case (Me_Closed k)
  then show ?thesis using assms short_list [of "lv_sockets l" k]
    by (auto simp: one_line_def live_defs split: option.splits)
qed (use assms in \<open>auto simp: one_line_def live_defs removeAll_only split: option.splits\<close>)

lemma one_line_run: "list_all (\<lambda>e. \<not> is_mount e) es \<Longrightarrow> one_line l \<Longrightarrow> one_line (metrics_run es l)"
  by (induction es arbitrary: l) (simp_all add: one_line_step)

definition quiet :: "live \<Rightarrow> bool" where
  "quiet l \<longleftrightarrow> lv_closed l \<and> lv_poll l = None \<and> lv_polls l = [] \<and> lv_timers l = []"

lemma quiet_step: "quiet l \<Longrightarrow> \<not> is_mount e \<Longrightarrow> quiet (metrics_step e l)"
  by (cases e) (auto simp: quiet_def live_defs split: option.splits)

lemma quiet_run: "list_all (\<lambda>e. \<not> is_mount e) es \<Longrightarrow> quiet l \<Longrightarrow> quiet (metrics_run es l)"
  by (induction es arbitrary: l) (simp_all add: quiet_step)

text \<open>A page that was left does not poll. A dashboard that is opened once and left polls nothing afterwards and connects no more, whatever
  its socket and its timers did and do: no interval and no timer is left.\<close>

theorem left_page_is_quiet:
  assumes "list_all (\<lambda>e. \<not> is_mount e) es" "list_all (\<lambda>e. \<not> is_mount e) later"
  shows "lv_polls (metrics_run (Me_Mount url # es @ Me_Unmount # later) no_live) = [] \<and>
    lv_timers (metrics_run (Me_Mount url # es @ Me_Unmount # later) no_live) = []"
proof -
  have "one_line (metrics_mount url no_live)"
    by (simp add: metrics_mount_def metrics_connect_def start_polling_def one_line_def no_live_def)
  from one_line_run [OF assms(1) this] have "quiet (metrics_unmount (metrics_run es (metrics_mount url no_live)))"
    by (auto simp: one_line_def quiet_def live_defs removeAll_only split: option.splits)
  from quiet_run [OF assms(2) this] show ?thesis by (simp add: quiet_def)
qed

text \<open>A page that is mounted twice keeps a socket. Where the effect runs again before the first socket has reported its close, as in
  React's strict mode, that close clears the reference to the second socket: the page polls although the second is open, and
  when it is left nothing closes the second.\<close>

theorem late_close_loses_socket:
  "let l = metrics_run [Me_Mount True, Me_Unmount, Me_Mount True, Me_Opened 1, Me_Closed 0] no_live
   in lv_sockets l = [1] \<and> lv_ws l = None \<and> lv_polls l \<noteq> [] \<and> \<not> lv_connected l"
  by (simp add: no_live_def metrics_mount_def live_defs)

theorem feed_shows_newest_witness:
  "fold (\<lambda>e. hear_audit (audit_entry e)) [J_Str ''a'', J_Str ''b''] (hear_audit (audit_history [J_Str ''c'']) []) =
    [J_Str ''b'', J_Str ''a'', J_Str ''c'']"
  using feed_shows_newest [of "[J_Str ''a'', J_Str ''b'']" "[J_Str ''c'']" "[]"] by (simp add: j_true_def)

theorem left_page_is_quiet_witness:
  "lv_polls (metrics_run [Me_Mount True, Me_Opened 0, Me_Closed 0, Me_Unmount, Me_Timer 2 True] no_live) = []"
  using left_page_is_quiet [of "[Me_Opened 0, Me_Closed 0]" "[Me_Timer 2 True]" True] by simp

end
