(* ===== verification/Web_Session.thy ===== *)
theory Web_Session
  imports Json
begin

text \<open>
  Who is signed in to the web application, and what it remembers for them: the store of
  \<^verbatim>\<open>src/web/app/stores/auth.store.ts\<close>, the settings of \<^verbatim>\<open>settings.store.ts\<close> with their loading
  (\<^verbatim>\<open>src/web/app/hooks/useSettingsSync.ts\<close>), and the call history (\<^verbatim>\<open>useCallHistory.ts\<close>), whose cache is a
  variable of the module. Requests that are waiting for their answer are part of the state, in the order they were
  made, and are answered in any order.
\<close>

section \<open>The state\<close>

record web_user =
  wu_extension :: string
  wu_username :: string
  wu_name :: string
  wu_mobile :: "string option"
  wu_avatar :: "string option"
  wu_admin :: "bool option"

definition bare_user :: "string \<Rightarrow> web_user" where
  "bare_user e = \<lparr>wu_extension = e, wu_username = e, wu_name = e, wu_mobile = None, wu_avatar = None, wu_admin = None\<rparr>"

record forwardings =
  fo_busy :: "string option"
  fo_no_answer :: "string option"
  fo_unavailable :: "string option"

record user_settings =
  us_display_name :: string
  us_caller_tune :: string
  us_ringtone :: string
  us_sounds :: bool
  us_dtmf :: bool
  us_pstn :: bool
  us_pstn_mobile :: string
  us_pstn_country :: string
  us_recording :: bool
  us_voicemail :: bool
  us_blocked :: "string list"
  us_forwarding :: forwardings
  us_pstn_to_browser :: bool
  us_pstn_target :: string
  us_dnd :: bool

text \<open>What the four requests of a settings load answer; the last is caught.\<close>

record loaded_settings =
  lo_blocked :: "string list"
  lo_forwarding :: forwardings
  lo_enabled :: bool
  lo_target :: string
  lo_dnd :: "bool option"

text \<open>A fetch of the history: the user it is for, and whether it has fallen back to the calls of everyone.\<close>

record web_session =
  au_user :: "web_user option"
  au_token :: "string option"
  au_refresh :: "string option"
  au_sip :: "string option"
  au_authenticated :: bool
  hc_calls :: "json list"
  hc_fetched_at :: int
  hc_pending :: "(string \<times> bool) list"
  hs_calls :: "json list"
  hs_error :: bool
  st_settings :: user_settings
  st_stored_name :: string
  st_loaded :: bool
  st_pending :: "string list"

definition stale_ms :: int where
  "stale_ms = 30000"

definition default_settings :: "string \<Rightarrow> user_settings" where
  "default_settings name = \<lparr>us_display_name = name, us_caller_tune = ''caller_tune.wav'', us_ringtone = ''ringtone.wav'',
     us_sounds = True, us_dtmf = True, us_pstn = False, us_pstn_mobile = [], us_pstn_country = ''+91'', us_recording = False,
     us_voicemail = False, us_blocked = [], us_forwarding = \<lparr>fo_busy = None, fo_no_answer = None, fo_unavailable = None\<rparr>,
     us_pstn_to_browser = False, us_pstn_target = [], us_dnd = False\<rparr>"

definition new_session :: "string \<Rightarrow> web_session" where
  "new_session name = \<lparr>au_user = None, au_token = None, au_refresh = None, au_sip = None, au_authenticated = False,
     hc_calls = [], hc_fetched_at = 0, hc_pending = [], hs_calls = [], hs_error = False,
     st_settings = default_settings name, st_stored_name = name, st_loaded = False, st_pending = []\<rparr>"

section \<open>Signing in and out\<close>

definition sign_in :: "web_user \<Rightarrow> string \<Rightarrow> string \<Rightarrow> string \<Rightarrow> web_session \<Rightarrow> web_session" where
  "sign_in u t r c s = s\<lparr>au_user := Some u, au_token := Some t, au_refresh := Some r, au_sip := Some c, au_authenticated := True\<rparr>"

definition set_tokens :: "string \<Rightarrow> string \<Rightarrow> web_session \<Rightarrow> web_session" where
  "set_tokens t r s = s\<lparr>au_token := Some t, au_refresh := Some r\<rparr>"

definition set_user :: "web_user \<Rightarrow> web_session \<Rightarrow> web_session" where
  "set_user u s = s\<lparr>au_user := Some u\<rparr>"

definition set_sip_config :: "string \<Rightarrow> web_session \<Rightarrow> web_session" where
  "set_sip_config c s = s\<lparr>au_sip := Some c\<rparr>"

definition signed_out :: "web_session \<Rightarrow> web_session" where
  "signed_out s = s\<lparr>au_user := None, au_token := None, au_refresh := None, au_sip := None, au_authenticated := False\<rparr>"

definition apply_server_session :: "string option \<Rightarrow> web_session \<Rightarrow> web_session" where
  "apply_server_session ext s =
     (if \<not> truthy ext then (if \<not> au_authenticated s \<and> au_user s = None then s else signed_out s)
      else let e = the ext; same = (map_option wu_extension (au_user s) = Some e) in
        if same \<and> au_authenticated s then s
        else s\<lparr>au_user := (if same then au_user s else Some (bare_user e)), au_authenticated := True\<rparr>)"

definition reset_history :: "web_session \<Rightarrow> web_session" where
  "reset_history s = s\<lparr>hc_fetched_at := 0, hc_calls := []\<rparr>"

definition reset_settings :: "web_session \<Rightarrow> web_session" where
  "reset_settings s = s\<lparr>st_loaded := False\<rparr>"

text \<open>The resets are loaded on demand; they are taken as made at once.\<close>

definition log_out :: "web_session \<Rightarrow> web_session" where
  "log_out s = signed_out (reset_settings (reset_history s))"

text \<open>What is persisted, and what a reload starts from.\<close>

definition reloaded :: "web_session \<Rightarrow> web_session" where
  "reloaded s = (new_session (st_stored_name s))\<lparr>au_user := au_user s, au_sip := au_sip s\<rparr>"

section \<open>The history of calls\<close>

definition fetch_history :: "bool \<Rightarrow> int \<Rightarrow> web_session \<Rightarrow> web_session" where
  "fetch_history force now s = (case au_user s of None \<Rightarrow> s
     | Some u \<Rightarrow> if \<not> force \<and> now - hc_fetched_at s < stale_ms
         then (if hc_calls s \<noteq> [] then s\<lparr>hs_calls := hc_calls s\<rparr> else s)
         else s\<lparr>hc_pending := hc_pending s @ [(wu_extension u, False)], hs_error := False\<rparr>)"

definition history_answered :: "nat \<Rightarrow> json list option \<Rightarrow> int \<Rightarrow> web_session \<Rightarrow> web_session" where
  "history_answered i ans now s =
     (if i < length (hc_pending s) then
        case ans of
          Some calls \<Rightarrow> s\<lparr>hc_pending := take i (hc_pending s) @ drop (Suc i) (hc_pending s), hc_calls := calls, hc_fetched_at := now, hs_calls := calls\<rparr>
        | None \<Rightarrow> if snd (hc_pending s ! i) then s\<lparr>hc_pending := take i (hc_pending s) @ drop (Suc i) (hc_pending s), hs_error := True\<rparr>
            else s\<lparr>hc_pending := (hc_pending s)[i := (fst (hc_pending s ! i), True)]\<rparr>
      else s)"

text \<open>The server has answered, or not, the request to clear the history.\<close>

definition history_cleared :: "bool \<Rightarrow> int \<Rightarrow> web_session \<Rightarrow> web_session" where
  "history_cleared ok now s = s\<lparr>hs_error := (hs_error s \<or> \<not> ok), hc_calls := [], hc_fetched_at := now, hs_calls := []\<rparr>"

section \<open>The settings\<close>

definition load_settings :: "web_session \<Rightarrow> web_session" where
  "load_settings s = (case au_user s of None \<Rightarrow> s
     | Some u \<Rightarrow> if st_loaded s then s else s\<lparr>st_loaded := True, st_pending := st_pending s @ [wu_extension u]\<rparr>)"

text \<open>\<^verbatim>\<open>x || undefined\<close>.\<close>

definition if_any :: "string option \<Rightarrow> string option" where
  "if_any x = (if truthy x then x else None)"

definition settings_answered :: "nat \<Rightarrow> loaded_settings option \<Rightarrow> web_session \<Rightarrow> web_session" where
  "settings_answered i ans s =
     (if i < length (st_pending s) then
        let s1 = s\<lparr>st_pending := take i (st_pending s) @ drop (Suc i) (st_pending s)\<rparr> in
        case ans of None \<Rightarrow> s1\<lparr>st_loaded := False\<rparr>
        | Some l \<Rightarrow> s1\<lparr>st_settings := (st_settings s)\<lparr>us_blocked := lo_blocked l,
              us_forwarding := \<lparr>fo_busy = if_any (fo_busy (lo_forwarding l)), fo_no_answer = if_any (fo_no_answer (lo_forwarding l)),
                fo_unavailable = if_any (fo_unavailable (lo_forwarding l))\<rparr>,
              us_pstn_to_browser := lo_enabled l, us_pstn_target := lo_target l, us_dnd := or_else (lo_dnd l) (us_dnd (st_settings s))\<rparr>\<rparr>
      else s)"

text \<open>A partial update of the settings; a display name in it is kept in the browser.\<close>

definition set_settings :: "(user_settings \<Rightarrow> user_settings) \<Rightarrow> string option \<Rightarrow> web_session \<Rightarrow> web_session" where
  "set_settings f name s = s\<lparr>st_settings := (case name of None \<Rightarrow> f (st_settings s) | Some n \<Rightarrow> (f (st_settings s))\<lparr>us_display_name := n\<rparr>),
     st_stored_name := or_else name (st_stored_name s)\<rparr>"

definition add_blocked_number :: "string \<Rightarrow> web_session \<Rightarrow> web_session" where
  "add_blocked_number n s = s\<lparr>st_settings := (st_settings s)\<lparr>us_blocked := us_blocked (st_settings s) @ [n]\<rparr>\<rparr>"

definition remove_blocked_number :: "string \<Rightarrow> web_session \<Rightarrow> web_session" where
  "remove_blocked_number n s = s\<lparr>st_settings := (st_settings s)\<lparr>us_blocked := filter (\<lambda>x. x \<noteq> n) (us_blocked (st_settings s))\<rparr>\<rparr>"

datatype forwarding_kind = On_Busy | On_No_Answer | On_Unavailable

fun set_forwarding_of :: "forwarding_kind \<Rightarrow> string option \<Rightarrow> forwardings \<Rightarrow> forwardings" where
  "set_forwarding_of On_Busy t f = f\<lparr>fo_busy := t\<rparr>"
| "set_forwarding_of On_No_Answer t f = f\<lparr>fo_no_answer := t\<rparr>"
| "set_forwarding_of On_Unavailable t f = f\<lparr>fo_unavailable := t\<rparr>"

definition set_forwarding :: "forwarding_kind \<Rightarrow> string option \<Rightarrow> web_session \<Rightarrow> web_session" where
  "set_forwarding k t s = s\<lparr>st_settings := (st_settings s)\<lparr>us_forwarding := set_forwarding_of k t (us_forwarding (st_settings s))\<rparr>\<rparr>"

section \<open>What the next user sees\<close>

text \<open>The server answers with the calls and the settings of the user who was asked for, or with everyone's calls.\<close>

record web_server =
  sv_calls :: "string \<Rightarrow> json list"
  sv_everyone :: "json list"
  sv_settings :: "string \<Rightarrow> loaded_settings"

datatype web_event = We_Sign_In web_user string string string | We_Log_Out | We_Fetch bool int | We_History nat bool int
  | We_Clear bool int | We_Load | We_Settings nat bool

fun web_step :: "web_server \<Rightarrow> web_event \<Rightarrow> web_session \<Rightarrow> web_session" where
  "web_step v (We_Sign_In u t r c) s = sign_in u t r c s"
| "web_step v We_Log_Out s = log_out s"
| "web_step v (We_Fetch force now) s = fetch_history force now s"
| "web_step v (We_History i ok now) s = history_answered i (if ok \<and> i < length (hc_pending s) then
     Some (if snd (hc_pending s ! i) then sv_everyone v else sv_calls v (fst (hc_pending s ! i))) else None) now s"
| "web_step v (We_Clear ok now) s = history_cleared ok now s"
| "web_step v We_Load s = load_settings s"
| "web_step v (We_Settings i ok) s = settings_answered i (if ok \<and> i < length (st_pending s) then Some (sv_settings v (st_pending s ! i)) else None) s"

abbreviation web_run :: "web_server \<Rightarrow> web_event list \<Rightarrow> web_session \<Rightarrow> web_session" where
  "web_run v es s \<equiv> fold (web_step v) es s"

text \<open>Users change only while no history is being fetched, and sign in only when nobody is signed in.\<close>

fun calm :: "web_session \<Rightarrow> web_event \<Rightarrow> bool" where
  "calm s (We_Sign_In u t r c) \<longleftrightarrow> hc_pending s = [] \<and> au_user s = None"
| "calm s We_Log_Out \<longleftrightarrow> hc_pending s = []"
| "calm s e \<longleftrightarrow> True"

fun calm_run :: "web_server \<Rightarrow> web_event list \<Rightarrow> web_session \<Rightarrow> bool" where
  "calm_run v [] s \<longleftrightarrow> True"
| "calm_run v (e # es) s \<longleftrightarrow> calm s e \<and> calm_run v es (web_step v e s)"

definition own_history :: "web_server \<Rightarrow> web_session \<Rightarrow> bool" where
  "own_history v s \<longleftrightarrow> (case au_user s of None \<Rightarrow> hc_calls s = [] \<and> hc_pending s = []
     | Some u \<Rightarrow> (\<forall>p\<in>set (hc_pending s). fst p = wu_extension u) \<and> hc_calls s \<in> {[], sv_calls v (wu_extension u), sv_everyone v})"

lemmas session_defs = sign_in_def log_out_def signed_out_def reset_settings_def reset_history_def fetch_history_def
  history_answered_def history_cleared_def load_settings_def settings_answered_def

lemma own_history_step:
  assumes "own_history v s" "calm s e"
  shows "own_history v (web_step v e s)"
proof (cases e)
  case (We_History i ok now)
  show ?thesis
  proof (cases "i < length (hc_pending s)")
    case True
    then have "hc_pending s ! i \<in> set (hc_pending s)" by simp
    then show ?thesis using assms True We_History
      by (auto simp: own_history_def history_answered_def split: option.splits
          dest: in_set_takeD in_set_dropD set_update_subset_insert [THEN subsetD])
  qed (use assms We_History in \<open>simp add: history_answered_def\<close>)
qed (use assms in \<open>auto simp: own_history_def session_defs Let_def split: option.splits\<close>)

lemma own_history_run: "calm_run v es s \<Longrightarrow> own_history v s \<Longrightarrow> own_history v (web_run v es s)"
  by (induction es arbitrary: s) (simp_all add: own_history_step)

text \<open>The history is one's own. As long as users change only while no fetch is waiting, the calls that are remembered are those of
  the user who is signed in, or the ones the server shows to everyone; and nothing is remembered when nobody is.\<close>

theorem history_is_own:
  assumes "calm_run v es (new_session name)"
  shows "case au_user (web_run v es (new_session name)) of None \<Rightarrow> hc_calls (web_run v es (new_session name)) = []
    | Some u \<Rightarrow> hc_calls (web_run v es (new_session name)) \<in> {[], sv_calls v (wu_extension u), sv_everyone v}"
proof -
  have "own_history v (new_session name)" by (simp add: own_history_def new_session_def)
  from own_history_run [OF assms this] show ?thesis by (auto simp: own_history_def split: option.splits)
qed

text \<open>The next user sees the last one's calls. A fetch that is answered after its user has signed out fills the cache, and for half a
  minute the user who signs in next is shown it without a request.\<close>

theorem late_history_shown_to_next:
  assumes "sv_calls v (wu_extension a) \<noteq> []" "now \<le> later" "later - now < 30000"
  shows "let s = web_run v [We_Sign_In a ta ra ca, We_Fetch True begun, We_Log_Out, We_Sign_In b tb rb cb, We_History 0 True now,
      We_Fetch False later] (new_session name)
    in au_user s = Some b \<and> hs_calls s = sv_calls v (wu_extension a) \<and> hc_pending s = []"
  using assms by (simp add: session_defs new_session_def stale_ms_def Let_def)

text \<open>The next user has the last one's settings. Signing out forgets that the settings were loaded, but keeps them; where the load of
  the next user fails, the block list shown is the last user's.\<close>

theorem settings_outlive_session:
  "let s = web_run v [We_Sign_In a ta ra ca, We_Load, We_Settings 0 True, We_Log_Out, We_Sign_In b tb rb cb, We_Load, We_Settings 0 False]
      (new_session name)
    in au_user s = Some b \<and> us_blocked (st_settings s) = lo_blocked (sv_settings v (wu_extension a)) \<and> \<not> st_loaded s"
  by (simp add: session_defs new_session_def Let_def)

lemma server_session_same:
  "truthy ext \<Longrightarrow> map_option wu_extension (au_user t) = ext \<Longrightarrow> au_authenticated t \<Longrightarrow> apply_server_session ext t = t"
  unfolding apply_server_session_def Let_def by (cases ext) simp_all

lemma server_session_none:
  "\<not> truthy ext \<Longrightarrow> au_user t = None \<Longrightarrow> \<not> au_authenticated t \<Longrightarrow> apply_server_session ext t = t"
  unfolding apply_server_session_def by simp

lemma server_session_set:
  assumes "truthy ext"
  shows "au_authenticated (apply_server_session ext s)" "map_option wu_extension (au_user (apply_server_session ext s)) = ext"
  using assms unfolding apply_server_session_def Let_def by (cases ext; simp add: bare_user_def)+

lemma server_session_unset:
  assumes "\<not> truthy ext"
  shows "\<not> au_authenticated (apply_server_session ext s)" "au_user (apply_server_session ext s) = None"
  using assms unfolding apply_server_session_def signed_out_def by simp_all

text \<open>The page follows the server's session: whatever it had stored, it is then signed in as that user exactly if there is a session, and
  applying the same session again changes nothing.\<close>

theorem session_follows_server:
  "(if truthy ext then au_authenticated (apply_server_session ext s) \<and> map_option wu_extension (au_user (apply_server_session ext s)) = ext
    else \<not> au_authenticated (apply_server_session ext s) \<and> au_user (apply_server_session ext s) = None) \<and>
   apply_server_session ext (apply_server_session ext s) = apply_server_session ext s"
  using server_session_set [of ext s] server_session_unset [of ext s]
    server_session_same [of ext "apply_server_session ext s"] server_session_none [of ext "apply_server_session ext s"]
  by (cases "truthy ext") (simp_all only: if_True if_False simp_thms)

definition some_server :: web_server where
  "some_server = \<lparr>sv_calls = (\<lambda>e. [J_Str e]), sv_everyone = [], sv_settings = (\<lambda>e. \<lparr>lo_blocked = [], lo_forwarding =
     \<lparr>fo_busy = None, fo_no_answer = None, fo_unavailable = None\<rparr>, lo_enabled = False, lo_target = [], lo_dnd = None\<rparr>)\<rparr>"

theorem history_is_own_witness:
  "hc_calls (web_run some_server [We_Sign_In (bare_user ''1001'') [] [] [], We_Fetch True 0, We_History 0 True 5] (new_session []))
     \<in> {[], [J_Str ''1001'']}"
  using history_is_own [of some_server "[We_Sign_In (bare_user ''1001'') [] [] [], We_Fetch True 0, We_History 0 True 5]" "[]"]
  by (simp add: session_defs new_session_def bare_user_def some_server_def)

theorem late_history_shown_to_next_witness:
  "hs_calls (web_run some_server [We_Sign_In (bare_user ''1001'') [] [] [], We_Fetch True 0, We_Log_Out,
      We_Sign_In (bare_user ''1002'') [] [] [], We_History 0 True 5, We_Fetch False 6] (new_session [])) = [J_Str ''1001'']"
  using late_history_shown_to_next [of some_server "bare_user ''1001''" 5 6 "[]" "[]" "[]" 0 "bare_user ''1002''" "[]" "[]" "[]" "[]"]
  unfolding Let_def by (simp add: some_server_def bare_user_def del: web_step.simps fold_simps)

end
