(* ===== verification/Hours_Editor.thy ===== *)
theory Hours_Editor
  imports Schedule Js_Number
begin

text \<open>
  The editors of the working hours, \<^verbatim>\<open>web/app/admin/components/HoursTab.tsx\<close>: the rows of windows and exceptions, the cards of
  the business hours, of a user's availability and of the announcements, with every interleaving of their loads and saves; the service
  that checks and stores what they save, \<^verbatim>\<open>server/internal/service/schedule_service.go\<close> over \<^verbatim>\<open>schedule_repo.go\<close> and the
  constraints of the migrations; and what the routing of \<^theory_text>\<open>Schedule\<close> decides from the tables afterwards. The value of a time input
  is empty or two numbers of two digits, as the element delivers it.
\<close>

section \<open>Times of day\<close>

definition time_to_minutes :: "string \<Rightarrow> int option" where
  "time_to_minutes v = (case split_on CHR '':'' v of
      h # m # _ \<Rightarrow> (case (num_int (js_number h), num_int (js_number m)) of
          (Some hours, Some mins) \<Rightarrow> Some (hours * 60 + mins)
        | _ \<Rightarrow> None)
    | _ \<Rightarrow> None)"

definition minutes_to_time :: "int \<Rightarrow> string" where
  "minutes_to_time n = (let clamped = max 0 (min 1439 n)
     in pad2 (nat (clamped div 60)) @ '':'' @ pad2 (nat (clamped mod 60)))"

section \<open>Rows of windows\<close>

record editable_window =
  ew_day :: int
  ew_start :: int
  ew_end :: int
  ew_enabled :: bool

definition window_valid :: "editable_window \<Rightarrow> bool" where
  "window_valid w \<longleftrightarrow> 0 \<le> ew_day w \<and> ew_day w \<le> 6 \<and> 0 \<le> ew_start w \<and> ew_start w \<le> 1439 \<and>
     1 \<le> ew_end w \<and> ew_end w \<le> 1440 \<and> ew_start w < ew_end w"

definition update_row :: "nat \<Rightarrow> ('a \<Rightarrow> 'a) \<Rightarrow> 'a list \<Rightarrow> 'a list" where
  "update_row i f rows = map (\<lambda>(j, r). if j = i then f r else r) (enumerate 0 rows)"

definition remove_row :: "nat \<Rightarrow> 'a list \<Rightarrow> 'a list" where
  "remove_row i rows = map snd (filter (\<lambda>(j, _). j \<noteq> i) (enumerate 0 rows))"

definition typed_time :: "string \<Rightarrow> (int \<Rightarrow> 'a \<Rightarrow> 'a) \<Rightarrow> 'a \<Rightarrow> 'a" where
  "typed_time v set_minute r = (case time_to_minutes v of Some m \<Rightarrow> set_minute m r | None \<Rightarrow> r)"

datatype window_edit =
    Pick_Day nat int
  | Type_Start nat string
  | Type_End nat string
  | Switch_Window nat bool
  | Remove_Window nat
  | Add_Window

fun edit_windows :: "window_edit \<Rightarrow> editable_window list \<Rightarrow> editable_window list" where
  "edit_windows (Pick_Day i d) ws = update_row i (\<lambda>w. w\<lparr>ew_day := d\<rparr>) ws"
| "edit_windows (Type_Start i v) ws = update_row i (typed_time v (\<lambda>m (w :: editable_window). w\<lparr>ew_start := m\<rparr>)) ws"
| "edit_windows (Type_End i v) ws = update_row i (typed_time v (\<lambda>m (w :: editable_window). w\<lparr>ew_end := m\<rparr>)) ws"
| "edit_windows (Switch_Window i b) ws = update_row i (\<lambda>w. w\<lparr>ew_enabled := b\<rparr>) ws"
| "edit_windows (Remove_Window i) ws = remove_row i ws"
| "edit_windows Add_Window ws = ws @ [\<lparr>ew_day = 1, ew_start = 540, ew_end = 1020, ew_enabled = True\<rparr>]"

section \<open>Rows of exceptions\<close>

record editable_exception =
  ee_date :: string
  ee_closed :: bool
  ee_start :: int
  ee_end :: int
  ee_note :: string

definition date_form :: "string \<Rightarrow> bool" where
  "date_form s = (case split_on CHR ''-'' s of
      [y, m, d] \<Rightarrow> length y = 4 \<and> length m = 2 \<and> length d = 2 \<and> list_all is_digit (y @ m @ d)
    | _ \<Rightarrow> False)"

definition exception_valid :: "editable_exception \<Rightarrow> bool" where
  "exception_valid e \<longleftrightarrow> date_form (ee_date e) \<and>
     (ee_closed e \<or> 0 \<le> ee_start e \<and> ee_start e \<le> 1439 \<and> 1 \<le> ee_end e \<and> ee_end e \<le> 1440 \<and> ee_start e < ee_end e)"

datatype exception_edit =
    Type_Date nat string
  | Switch_Closed nat bool
  | Type_From nat string
  | Type_To nat string
  | Type_Note nat string
  | Remove_Exception nat
  | Add_Exception

fun edit_exceptions :: "exception_edit \<Rightarrow> editable_exception list \<Rightarrow> editable_exception list" where
  "edit_exceptions (Type_Date i v) es = update_row i (\<lambda>e. e\<lparr>ee_date := v\<rparr>) es"
| "edit_exceptions (Switch_Closed i b) es = update_row i (\<lambda>e. e\<lparr>ee_closed := b\<rparr>) es"
| "edit_exceptions (Type_From i v) es = update_row i (typed_time v (\<lambda>m (e :: editable_exception). e\<lparr>ee_start := m\<rparr>)) es"
| "edit_exceptions (Type_To i v) es = update_row i (typed_time v (\<lambda>m (e :: editable_exception). e\<lparr>ee_end := m\<rparr>)) es"
| "edit_exceptions (Type_Note i v) es = update_row i (\<lambda>e. e\<lparr>ee_note := v\<rparr>) es"
| "edit_exceptions (Remove_Exception i) es = remove_row i es"
| "edit_exceptions Add_Exception es =
     es @ [\<lparr>ee_date = [], ee_closed = True, ee_start = 540, ee_end = 1020, ee_note = []\<rparr>]"

text \<open>The dates marked as duplicates are those of a later row with the date of an earlier one.\<close>

definition dup_dates :: "editable_exception list \<Rightarrow> string list" where
  "dup_dates es = (let arr = map ee_date es
     in map snd (filter (\<lambda>(i, d). d \<noteq> [] \<and> d \<in> set (take i arr)) (enumerate 0 arr)))"

definition row_marked :: "editable_exception list \<Rightarrow> editable_exception \<Rightarrow> bool" where
  "row_marked es e \<longleftrightarrow> \<not> exception_valid e \<or> ee_date e \<in> set (dup_dates es)"

section \<open>The card of the business hours\<close>

record window_input =
  wi_day :: int
  wi_start :: int
  wi_end :: int
  wi_enabled :: "bool option"

record exception_input =
  xi_date :: string
  xi_closed :: bool
  xi_start :: "int option"
  xi_end :: "int option"
  xi_note :: "string option"

record hours_input =
  hi_timezone :: string
  hi_enabled :: bool
  hi_windows :: "window_input list"
  hi_exceptions :: "exception_input list"

datatype save_status = Nothing_Saved | Was_Saved | Was_Refused

record hours_card =
  bc_active :: bool
  bc_loading :: bool
  bc_saving :: bool
  bc_enabled :: bool
  bc_timezone :: string
  bc_windows :: "editable_window list"
  bc_exceptions :: "editable_exception list"
  bc_status :: save_status
  bc_error :: string

definition new_hours_card :: hours_card where
  "new_hours_card = \<lparr>bc_active = True, bc_loading = True, bc_saving = False, bc_enabled = False, bc_timezone = ''UTC'',
     bc_windows = [], bc_exceptions = [], bc_status = Nothing_Saved, bc_error = []\<rparr>"

definition editable_hours :: "hours_window \<Rightarrow> editable_window" where
  "editable_hours w = \<lparr>ew_day = hw_day w, ew_start = hw_start w, ew_end = hw_end w, ew_enabled = True\<rparr>"

definition editable_day :: "hours_exception \<Rightarrow> editable_exception" where
  "editable_day e = \<lparr>ee_date = he_date e, ee_closed = he_closed e, ee_start = or_else (he_start e) 540,
     ee_end = or_else (he_end e) 1020, ee_note = or_else (he_note e) []\<rparr>"

definition show_policy :: "hours_policy \<Rightarrow> hours_card \<Rightarrow> hours_card" where
  "show_policy p c = c\<lparr>bc_enabled := hp_enabled p, bc_timezone := (if hp_timezone p = [] then ''UTC'' else hp_timezone p),
     bc_windows := map editable_hours (hp_windows p), bc_exceptions := map editable_day (hp_exceptions p)\<rparr>"

definition hours_loaded :: "hours_policy option \<Rightarrow> hours_card \<Rightarrow> hours_card" where
  "hours_loaded answer c =
     (let c1 = (case answer of
          Some p \<Rightarrow> if bc_active c then show_policy p c else c
        | None \<Rightarrow> c\<lparr>bc_error := ''Failed to load business hours'', bc_status := Was_Refused\<rparr>)
      in if bc_active c then c1\<lparr>bc_loading := False\<rparr> else c1)"

definition hours_valid :: "hours_card \<Rightarrow> bool" where
  "hours_valid c \<longleftrightarrow> list_all window_valid (bc_windows c) \<and> list_all exception_valid (bc_exceptions c) \<and>
     distinct (filter (\<lambda>d. d \<noteq> []) (map ee_date (bc_exceptions c)))"

definition exception_payload :: "editable_exception \<Rightarrow> exception_input" where
  "exception_payload e = \<lparr>xi_date = ee_date e, xi_closed = ee_closed e,
     xi_start = (if ee_closed e then None else Some (ee_start e)),
     xi_end = (if ee_closed e then None else Some (ee_end e)),
     xi_note = (if trim (ee_note e) = [] then None else Some (trim (ee_note e)))\<rparr>"

definition hours_payload :: "hours_card \<Rightarrow> hours_input" where
  "hours_payload c = \<lparr>hi_timezone = (if trim (bc_timezone c) = [] then ''UTC'' else trim (bc_timezone c)),
     hi_enabled = bc_enabled c,
     hi_windows = map (\<lambda>w. \<lparr>wi_day = ew_day w, wi_start = ew_start w, wi_end = ew_end w, wi_enabled = None\<rparr>) (bc_windows c),
     hi_exceptions = map exception_payload (bc_exceptions c)\<rparr>"

text \<open>The button is there when the card has loaded, and is disabled during a save and while a row is not valid.\<close>

definition can_save_hours :: "hours_card \<Rightarrow> bool" where
  "can_save_hours c \<longleftrightarrow> \<not> bc_loading c \<and> \<not> bc_saving c \<and> hours_valid c"

definition save_hours :: "hours_card \<Rightarrow> hours_input option \<times> hours_card" where
  "save_hours c = (if can_save_hours c
     then (Some (hours_payload c), c\<lparr>bc_saving := True, bc_status := Nothing_Saved, bc_error := []\<rparr>) else (None, c))"

definition hours_saved :: "(string + hours_policy) \<Rightarrow> hours_card \<Rightarrow> hours_card" where
  "hours_saved answer c = (case answer of
      Inr p \<Rightarrow> (show_policy p c)\<lparr>bc_status := Was_Saved, bc_saving := False\<rparr>
    | Inl message \<Rightarrow> c\<lparr>bc_error := message, bc_status := Was_Refused, bc_saving := False\<rparr>)"

section \<open>The service and the tables\<close>

datatype go_error = Schedule_Invalid | Prompt_Key_Invalid | Store_Failed

definition go_valid_window :: "window_input \<Rightarrow> bool" where
  "go_valid_window w \<longleftrightarrow> \<not> (wi_day w < 0 \<or> wi_day w > 6) \<and> \<not> (wi_start w < 0 \<or> wi_start w > 1439) \<and>
     \<not> (wi_end w < 1 \<or> wi_end w > 1440) \<and> wi_start w < wi_end w"

definition days_in :: "nat \<Rightarrow> nat \<Rightarrow> nat" where
  "days_in y m = (if m = 2 then (if y mod 4 = 0 \<and> (y mod 100 \<noteq> 0 \<or> y mod 400 = 0) then 29 else 28)
     else if m \<in> {4, 6, 9, 11} then 30 else 31)"

text \<open>\<^verbatim>\<open>time.Parse\<close> with the layout of a date: the form, the months and the days of the calendar.\<close>

definition date_numbers :: "string \<Rightarrow> nat \<times> nat \<times> nat" where
  "date_numbers s = (case split_on CHR ''-'' s of [y, m, d] \<Rightarrow> (dec_val y, dec_val m, dec_val d) | _ \<Rightarrow> (0, 0, 0))"

definition calendar_date :: "nat \<times> nat \<times> nat \<Rightarrow> bool" where
  "calendar_date date = (case date of (y, m, d) \<Rightarrow> 1 \<le> m \<and> m \<le> 12 \<and> 1 \<le> d \<and> d \<le> days_in y m)"

definition go_parse_date :: "string \<Rightarrow> (nat \<times> nat \<times> nat) option" where
  "go_parse_date s = (if date_form s \<and> calendar_date (date_numbers s) then Some (date_numbers s) else None)"

definition go_exception_hours :: "exception_input \<Rightarrow> (int option \<times> int option) option" where
  "go_exception_hours e = (if xi_closed e then Some (None, None)
     else case (xi_start e, xi_end e) of
       (Some s, Some t) \<Rightarrow> if s < 0 \<or> s > 1439 \<or> t < 1 \<or> t > 1440 \<or> s \<ge> t then None else Some (Some s, Some t)
     | _ \<Rightarrow> None)"

fun go_build_exceptions :: "string list \<Rightarrow> exception_input list \<Rightarrow> exception_row list option" where
  "go_build_exceptions seen [] = Some []"
| "go_build_exceptions seen (e # es) = (let date = trim (xi_date e) in
     case go_parse_date date of
       None \<Rightarrow> None
     | Some parsed \<Rightarrow> if date \<in> set seen then None
         else case go_exception_hours e of
           None \<Rightarrow> None
         | Some (s, t) \<Rightarrow> map_option ((#) \<lparr>er_policy = 0, er_date = parsed, er_closed = xi_closed e, er_start = s, er_end = t,
                er_note = Some (take 200 (trim (or_else (xi_note e) [])))\<rparr>) (go_build_exceptions (date # seen) es))"

definition normalize_timezone :: "string \<Rightarrow> string" where
  "normalize_timezone tz = (if trim tz = [] then ''UTC'' else trim tz)"

text \<open>The columns and the uniqueness constraints of the migrations 005 and 006, as far as the service has not checked them.\<close>

definition rows_stored :: "string \<Rightarrow> hours_window list \<Rightarrow> exception_row list \<Rightarrow> bool" where
  "rows_stored tz ws es \<longleftrightarrow> length tz \<le> 64 \<and> distinct ws \<and> distinct (map er_date es) \<and>
     list_all (\<lambda>e. case er_date e of (y, _) \<Rightarrow> 1 \<le> y) es"

text \<open>What the object mapper inserts for a boolean column whose default is true is a parameter, \<open>create\<close>: its documentation says that
  a zero value, false, is not stored where the field has a default.\<close>

definition insert_exception :: "(bool \<Rightarrow> bool) \<Rightarrow> int \<Rightarrow> exception_row \<Rightarrow> exception_row" where
  "insert_exception create i e = e\<lparr>er_policy := i, er_closed := create (er_closed e)\<rparr>"

definition store_business_hours ::
  "(bool \<Rightarrow> bool) \<Rightarrow> int \<Rightarrow> string \<Rightarrow> bool \<Rightarrow> hours_window list \<Rightarrow> exception_row list \<Rightarrow> routing_tables \<Rightarrow> routing_tables option" where
  "store_business_hours create fresh tz on ws es t =
     (case (tb_policies t, tb_windows t, tb_exceptions t) of
        (Rows ps, Rows old_ws, Rows old_es) \<Rightarrow>
          (let first = sort_key pl_id ps;
               i = (case first of [] \<Rightarrow> fresh | p # _ \<Rightarrow> pl_id p);
               ps1 = (case first of [] \<Rightarrow> [\<lparr>pl_id = fresh, pl_timezone = tz, pl_enabled = on\<rparr>]
                      | p # _ \<Rightarrow> map (\<lambda>q. if pl_id q = pl_id p then q\<lparr>pl_timezone := tz, pl_enabled := on\<rparr> else q) ps)
           in if rows_stored tz ws es
              then Some (t\<lparr>tb_policies := Rows ps1,
                tb_windows := Rows (filter (\<lambda>w. fst w \<noteq> i) old_ws @ map (Pair i) ws),
                tb_exceptions := Rows (filter (\<lambda>e. er_policy e \<noteq> i) old_es @ map (insert_exception create i) es)\<rparr>)
              else None)
      | _ \<Rightarrow> None)"

definition go_save_business_hours :: "(bool \<Rightarrow> bool) \<Rightarrow> int \<Rightarrow> hours_input \<Rightarrow> routing_tables \<Rightarrow> go_error + routing_tables" where
  "go_save_business_hours create fresh inp t =
     (if \<not> list_all go_valid_window (hi_windows inp) then Inl Schedule_Invalid
      else case go_build_exceptions [] (hi_exceptions inp) of
        None \<Rightarrow> Inl Schedule_Invalid
      | Some es \<Rightarrow>
          (case store_business_hours create fresh (normalize_timezone (hi_timezone inp)) (hi_enabled inp)
             (map (\<lambda>w. \<lparr>hw_day = wi_day w, hw_start = wi_start w, hw_end = wi_end w\<rparr>) (hi_windows inp)) es t of
             None \<Rightarrow> Inl Store_Failed
           | Some t1 \<Rightarrow> Inr t1))"

text \<open>What the service answers to a read: the policy with every exception, past ones included; a policy never set reads as a
  disabled one.\<close>

definition go_business_hours :: "routing_tables \<Rightarrow> hours_policy option" where
  "go_business_hours t =
     (case tb_policies t of
        Rows ps \<Rightarrow> (case sort_key pl_id ps of
            [] \<Rightarrow> Some \<lparr>hp_timezone = ''UTC'', hp_enabled = False, hp_windows = [], hp_exceptions = []\<rparr>
          | p # _ \<Rightarrow> (case (tb_windows t, tb_exceptions t) of
              (Rows ws, Rows es) \<Rightarrow> Some \<lparr>hp_timezone = pl_timezone p, hp_enabled = pl_enabled p,
                hp_windows = sort_key (\<lambda>w. (hw_day w, hw_start w)) (map snd (filter (\<lambda>w. fst w = pl_id p) ws)),
                hp_exceptions = map row_to_exception (sort_key er_date (filter (\<lambda>e. er_policy e = pl_id p) es))\<rparr>
            | _ \<Rightarrow> None))
      | _ \<Rightarrow> None)"

section \<open>Dates and times read back\<close>

definition padded :: "nat \<Rightarrow> nat \<Rightarrow> string" where
  "padded k n = replicate (k - length (show_nat n)) CHR ''0'' @ show_nat n"

lemma pads: "pad2 n = padded 2 n" "pad4 n = padded 4 n"
  by (simp_all add: pad2_def pad4_def padded_def Let_def)

lemma digit_char_val: "is_digit c \<Longrightarrow> char_of (48 + digit_val c) = c \<and> digit_val c < 10"
  by (auto simp: is_digit_def digit_val_def)

lemma numeral_char_zero: "char_of (48 :: nat) = CHR ''0''"
  by code_simp

lemma padded_dec_val: "ds \<noteq> [] \<Longrightarrow> list_all is_digit ds \<Longrightarrow> padded (length ds) (dec_val ds) = ds"
proof (induction ds rule: rev_induct)
  case (snoc c ds)
  then have c: "char_of (48 + digit_val c) = c" "digit_val c < 10" by (auto dest: digit_char_val)
  have v: "dec_val (ds @ [c]) = 10 * dec_val ds + digit_val c" by (simp add: dec_val_def)
  show ?case
  proof (cases "ds = []")
    case True
    then show ?thesis using c by (simp add: v dec_val_def padded_def show_nat.simps)
  next
    case False
    then have ih: "padded (length ds) (dec_val ds) = ds" using snoc by simp
    show ?thesis
    proof (cases "dec_val ds = 0")
      case True
      then have "replicate (length ds - 1) CHR ''0'' @ [CHR ''0''] = ds"
        using ih by (simp add: padded_def show_nat.simps True numeral_char_zero)
      then have "ds = replicate (length ds) CHR ''0''"
        using False by (cases ds) (auto simp: replicate_append_same)
      then show ?thesis using c by (simp add: v True padded_def show_nat.simps)
    next
      case nz: False
      then have "show_nat (10 * dec_val ds + digit_val c) = show_nat (dec_val ds) @ [c]"
        using c by (subst show_nat.simps) simp
      then show ?thesis using ih by (simp add: v padded_def)
    qed
  qed
qed simp

lemma padded_digits: "list_all is_digit (padded k n)"
  using show_nat_digits [of n] by (auto simp: padded_def list_all_iff is_digit_def)

lemma padded_nonempty [simp]: "padded k n \<noteq> []"
  by (simp add: padded_def)

lemma dec_val_zeros: "dec_val (replicate k CHR ''0'' @ s) = dec_val s"
  by (induction k) (simp_all add: dec_val_def digit_val_def)

lemma dec_val_padded [simp]: "dec_val (padded k n) = n"
  by (simp add: padded_def dec_val_zeros)

lemma digits_no_sep: "list_all is_digit s \<Longrightarrow> \<not> is_digit c \<Longrightarrow> split_on c (s @ c # t) = s # split_on c t"
    "list_all is_digit s \<Longrightarrow> \<not> is_digit c \<Longrightarrow> split_on c s = [s]"
  by (auto simp: list_all_iff intro!: split_on_append split_on_no_sep)

lemma padded_read: "num_int (js_number (padded k n)) = Some (int n)"
  by (simp add: js_number_digits padded_digits)

text \<open>Times read back. What the editor shows for a minute of the day is read as that minute again when it is typed; only the end of
  the day, which a window may have, is shown and read as the minute before.\<close>

theorem time_shown_is_read:
  assumes "0 \<le> n" "n \<le> 1440"
  shows "time_to_minutes (minutes_to_time n) = Some (min n 1439)"
proof -
  let ?c = "min n 1439"
  have "max 0 (min 1439 n) = ?c" "0 \<le> ?c" using assms by simp_all
  moreover have "\<not> is_digit CHR '':''" by (simp add: is_digit_def)
  ultimately show ?thesis
    by (simp add: minutes_to_time_def time_to_minutes_def Let_def pads digits_no_sep padded_digits padded_read
        pos_imp_zdiv_nonneg_iff del: min_def)
qed

lemma date_rejoins: "s = hd (split_on c s) @ concat (map ((#) c) (tl (split_on c s)))"
  by (induction s) (auto split: list.splits)

lemma date_form_parts:
  assumes "date_form s"
  obtains y m d where "s = y @ CHR ''-'' # m @ CHR ''-'' # d" "length y = 4" "length m = 2" "length d = 2"
    "list_all is_digit y" "list_all is_digit m" "list_all is_digit d" "date_numbers s = (dec_val y, dec_val m, dec_val d)"
  using assms date_rejoins [of s "CHR ''-''"]
  by (auto simp: date_form_def date_numbers_def split: list.splits)

lemma padded_back: "list_all is_digit ds \<Longrightarrow> length ds = Suc k \<Longrightarrow> padded (Suc k) (dec_val ds) = ds"
  using padded_dec_val [of ds] by force

lemma date_shown: "date_form s \<Longrightarrow> to_char_date (date_numbers s) = s"
  by (erule date_form_parts) (simp add: to_char_date_def pads padded_back numeral_eq_Suc)

lemma date_read: "date_numbers (to_char_date d) = d"
proof -
  have "\<not> is_digit CHR ''-''" by (simp add: is_digit_def)
  then show ?thesis
    by (cases d) (simp add: to_char_date_def date_numbers_def pads digits_no_sep padded_digits)
qed

lemma date_trimmed: "date_form s \<Longrightarrow> trim s = s"
proof (erule date_form_parts)
  fix y m d assume "s = y @ CHR ''-'' # m @ CHR ''-'' # d" "list_all is_digit y" "list_all is_digit m" "list_all is_digit d"
  moreover have "\<not> is_space CHR ''-''" by (simp add: is_space_def)
  ultimately have "list_all (\<lambda>c. \<not> is_space c) s" by (auto simp: list_all_iff dest: digit_not_space)
  then show "trim s = s" by (simp add: trim_def dropWhile_all list_all_rev)
qed

definition date_of :: "local_time \<Rightarrow> nat \<times> nat \<times> nat" where
  "date_of now = (lt_year now, lt_month now + 1, lt_date now)"

lemma longer_number: "10 \<le> n \<Longrightarrow> length (show_nat n) = Suc (length (show_nat (n div 10)))"
  by (subst show_nat.simps) simp

lemma long_year: "1000 \<le> y \<Longrightarrow> pad4 y = show_nat y"
proof -
  assume y: "1000 \<le> y"
  then have "length (show_nat y) = Suc (Suc (Suc (length (show_nat (y div 10 div 10 div 10)))))"
    by (simp add: longer_number)
  moreover have "0 < length (show_nat (y div 10 div 10 div 10))" by simp
  ultimately have "4 \<le> length (show_nat y)" by linarith
  then show ?thesis by (simp add: pad4_def Let_def)
qed

lemma date_key: "1000 \<le> lt_year now \<Longrightarrow> local_date_key now = to_char_date (date_of now)"
  by (simp add: local_date_key_def date_of_def to_char_date_def long_year)

section \<open>What is saved is what is decided\<close>

text \<open>The hours that the card shows: the row of the day among the exceptions where there is one, else the windows of the weekday.\<close>

definition shown_open :: "(bool \<Rightarrow> bool) \<Rightarrow> hours_card \<Rightarrow> local_time \<Rightarrow> bool" where
  "shown_open create c now \<longleftrightarrow> \<not> bc_enabled c \<or>
     (case List.find (\<lambda>e. ee_date e = local_date_key now) (bc_exceptions c) of
        Some e \<Rightarrow> \<not> create (ee_closed e) \<and> \<not> ee_closed e \<and> ee_start e \<le> minute_of now \<and> minute_of now < ee_end e
      | None \<Rightarrow> list_ex (\<lambda>w. ew_day w = lt_day now \<and> ew_start w \<le> minute_of now \<and> minute_of now < ew_end w) (bc_windows c))"

definition stored_window :: "editable_window \<Rightarrow> hours_window" where
  "stored_window w = \<lparr>hw_day = ew_day w, hw_start = ew_start w, hw_end = ew_end w\<rparr>"

definition stored_day :: "editable_exception \<Rightarrow> exception_row" where
  "stored_day e = \<lparr>er_policy = 0, er_date = date_numbers (ee_date e), er_closed = ee_closed e,
     er_start = (if ee_closed e then None else Some (ee_start e)), er_end = (if ee_closed e then None else Some (ee_end e)),
     er_note = Some (take 200 (trim (or_else (if trim (ee_note e) = [] then None else Some (trim (ee_note e))) [])))\<rparr>"

definition dates_exist :: "hours_card \<Rightarrow> bool" where
  "dates_exist c \<longleftrightarrow> list_all (\<lambda>e. calendar_date (date_numbers (ee_date e))) (bc_exceptions c)"

lemma valid_exception_read:
  assumes "exception_valid e"
  shows "trim (xi_date (exception_payload e)) = ee_date e"
    "go_parse_date (ee_date e) = (if calendar_date (date_numbers (ee_date e)) then Some (date_numbers (ee_date e)) else None)"
    "go_exception_hours (exception_payload e) =
      Some (if ee_closed e then None else Some (ee_start e), if ee_closed e then None else Some (ee_end e))"
  using assms by (auto simp: exception_payload_def exception_valid_def date_trimmed go_parse_date_def go_exception_hours_def)

lemma exceptions_built:
  "list_all exception_valid es \<Longrightarrow>
   go_build_exceptions seen (map exception_payload es) =
     (if list_all (\<lambda>e. calendar_date (date_numbers (ee_date e))) es \<and> distinct (map ee_date es) \<and> set (map ee_date es) \<inter> set seen = {}
      then Some (map stored_day es) else None)"
proof (induction es arbitrary: seen)
  case (Cons e es)
  then have v: "exception_valid e" "list_all exception_valid es" by simp_all
  have "\<lparr>er_policy = 0, er_date = date_numbers (ee_date e), er_closed = xi_closed (exception_payload e),
      er_start = (if ee_closed e then None else Some (ee_start e)), er_end = (if ee_closed e then None else Some (ee_end e)),
      er_note = Some (take 200 (trim (or_else (xi_note (exception_payload e)) [])))\<rparr> = stored_day e"
    by (simp add: stored_day_def exception_payload_def)
  then have "go_build_exceptions seen (map exception_payload (e # es)) =
      (if calendar_date (date_numbers (ee_date e)) \<and> ee_date e \<notin> set seen
       then map_option ((#) (stored_day e)) (go_build_exceptions (ee_date e # seen) (map exception_payload es)) else None)"
    by (simp add: valid_exception_read [OF v(1)] Let_def)
  then show ?case by (simp add: Cons.IH [OF v(2)])
qed simp

lemma valid_dates_distinct: "hours_valid c \<Longrightarrow> distinct (map ee_date (bc_exceptions c))"
proof -
  assume v: "hours_valid c"
  have "ee_date e \<noteq> []" if "e \<in> set (bc_exceptions c)" for e
    using v that by (auto simp: hours_valid_def list_all_iff exception_valid_def date_form_def)
  then have "filter (\<lambda>d. d \<noteq> []) (map ee_date (bc_exceptions c)) = map ee_date (bc_exceptions c)" by auto
  with v show ?thesis by (simp add: hours_valid_def)
qed

lemma valid_saved:
  assumes "hours_valid c"
  shows "go_save_business_hours create fresh (hours_payload c) t =
    (if dates_exist c then
       case store_business_hours create fresh (normalize_timezone (hi_timezone (hours_payload c))) (bc_enabled c)
         (map stored_window (bc_windows c)) (map stored_day (bc_exceptions c)) t of
         None \<Rightarrow> Inl Store_Failed | Some t1 \<Rightarrow> Inr t1
     else Inl Schedule_Invalid)"
proof -
  have "list_all go_valid_window (hi_windows (hours_payload c))"
    using assms by (auto simp: hours_valid_def hours_payload_def list_all_iff go_valid_window_def window_valid_def)
  then show ?thesis
    using assms exceptions_built [of "bc_exceptions c" "[]"] valid_dates_distinct [OF assms]
    by (simp add: go_save_business_hours_def hours_payload_def hours_valid_def dates_exist_def stored_window_def [abs_def] comp_def)
qed

lemma sort_key_same_keys: "(\<And>x. k (f x) = k x) \<Longrightarrow> sort_key k (map f xs) = map f (sort_key k xs)"
proof (induction xs)
  case (Cons x xs)
  have "insort_key k (f x) (map f ys) = map f (insort_key k x ys)" for ys
    using Cons.prems by (induction ys) auto
  with Cons show ?case by simp
qed simp

lemma of_policy:
  "map (snd \<circ> Pair i) ws = ws"
  "filter (\<lambda>w. fst w = i \<and> fst w \<noteq> i) ows = []"
  "filter (\<lambda>w. fst w = i) (map (Pair i) ws) = map (Pair i) ws"
  "filter (\<lambda>e. er_policy e = i \<and> P e) (map (insert_exception create i) es) = filter P (map (insert_exception create i) es)"
  "filter (\<lambda>e. er_policy e = i \<and> d \<le> er_date e \<and> er_policy e \<noteq> i) oes = []"
  by (simp_all add: comp_def filter_map insert_exception_def cong: filter_cong)

lemma saved_policy:
  assumes "store_business_hours create fresh tz on ws es t = Some t1"
  shows "get_policy t1 = Some (Some \<lparr>hp_timezone = tz, hp_enabled = on,
      hp_windows = sort_key (\<lambda>w. (hw_day w, hw_start w)) ws,
      hp_exceptions = map row_to_exception (sort_key er_date
        (filter (\<lambda>e. tb_today t1 \<le> er_date e) (map (insert_exception create (case sort_key pl_id (case tb_policies t of Rows ps \<Rightarrow> ps) of
            [] \<Rightarrow> fresh | p # _ \<Rightarrow> pl_id p)) es)))\<rparr>)"
proof -
  obtain ps ows oes where r: "tb_policies t = Rows ps" "tb_windows t = Rows ows" "tb_exceptions t = Rows oes"
    using assms by (auto simp: store_business_hours_def split: query.splits)
  show ?thesis
  proof (cases "sort_key pl_id ps")
    case Nil
    then show ?thesis using assms by (auto simp: store_business_hours_def r get_policy_def of_policy split: if_splits)
  next
    case (Cons p qs)
    have "sort_key pl_id (map (\<lambda>q. if pl_id q = pl_id p then q\<lparr>pl_timezone := tz, pl_enabled := on\<rparr> else q) ps) =
        map (\<lambda>q. if pl_id q = pl_id p then q\<lparr>pl_timezone := tz, pl_enabled := on\<rparr> else q) (sort_key pl_id ps)"
      by (rule sort_key_same_keys) simp
    then show ?thesis using assms Cons
      by (auto simp: store_business_hours_def r get_policy_def of_policy Let_def split: if_splits)
  qed
qed

lemma find_mapped: "List.find P (map f xs) = map_option f (List.find (\<lambda>x. P (f x)) xs)"
  by (induction xs) auto

lemma found_in_same: "set xs = set ys \<Longrightarrow> distinct (map f xs) \<Longrightarrow> distinct (map f ys) \<Longrightarrow>
    List.find (\<lambda>x. f x = k) xs = List.find (\<lambda>x. f x = k) ys"
  by (cases "\<exists>x\<in>set xs. f x = k") (auto simp: find_unique find_None_iff [THEN iffD2])

lemma day_found:
  assumes "distinct (map ee_date es)" "list_all (\<lambda>e. date_form (ee_date e)) es"
    and "k = to_char_date d" "today \<le> d"
  shows "List.find (\<lambda>e. he_date e = k) (map row_to_exception (sort_key er_date
      (filter (\<lambda>e. today \<le> er_date e) (map (insert_exception create i) (map stored_day es))))) =
    map_option (\<lambda>e. row_to_exception (insert_exception create i (stored_day e))) (List.find (\<lambda>e. ee_date e = k) es)"
proof -
  let ?row = "\<lambda>e. insert_exception create i (stored_day e)"
  let ?rows = "filter (\<lambda>e. today \<le> er_date e) (map ?row es)"
  have date [simp]: "er_date (insert_exception create i e) = er_date e" for e by (simp add: insert_exception_def)
  have shown: "to_char_date (er_date (stored_day e)) = ee_date e" if "e \<in> set es" for e
    using assms(2) that by (simp add: stored_day_def list_all_iff date_shown)
  have numbers: "er_date (stored_day e) = d \<longleftrightarrow> ee_date e = k" if "e \<in> set es" for e
    using shown [OF that] assms(3) date_read [of d] date_read [of "er_date (stored_day e)"] by metis
  have "map ee_date es = map to_char_date (map er_date (map ?row es))" using shown by simp
  with assms(1) have dist: "distinct (map er_date (map ?row es))" by (metis distinct_map)
  then have d1: "distinct (map er_date ?rows)"
    by (simp add: distinct_map_filter del: map_map)
  then have d2: "distinct (map er_date (sort_key er_date ?rows))"
    by (metis distinct_map distinct_sort set_sort)
  have inj: "to_char_date a = to_char_date b \<longleftrightarrow> a = b" for a b
    using date_read by metis
  have key: "List.find (\<lambda>e. he_date e = k) (map row_to_exception rs) = map_option row_to_exception (List.find (\<lambda>r. er_date r = d) rs)" for rs
    by (auto simp: find_mapped row_to_exception_def assms(3) inj)
  have "List.find (\<lambda>r. er_date r = d) (sort_key er_date ?rows) = List.find (\<lambda>r. er_date r = d) ?rows"
    by (rule found_in_same) (use d1 d2 in simp_all)
  also have "\<dots> = List.find (\<lambda>r. er_date r = d) (map ?row es)"
    using assms(4) by (induction es) (auto simp: find_mapped)
  also have "\<dots> = map_option ?row (List.find (\<lambda>e. ee_date e = k) es)"
    using numbers by (auto simp: find_mapped intro!: arg_cong [where f = "map_option _"] find_cong)
  finally show ?thesis by (cases "List.find (\<lambda>e. ee_date e = k) es") (simp_all add: key comp_def)
qed

lemma saved_hours_read:
  assumes "hours_valid c" "go_save_business_hours create fresh (hours_payload c) t = Inr t1"
    and "1000 \<le> lt_year now" "tb_today t1 \<le> date_of now"
  shows "is_open t1 now = Some (shown_open create c now)"
proof -
  have dates: "list_all (\<lambda>e. date_form (ee_date e)) (bc_exceptions c)"
    using assms(1) by (auto simp: hours_valid_def exception_valid_def list_all_iff)
  obtain tz where st: "store_business_hours create fresh tz (bc_enabled c) (map stored_window (bc_windows c))
      (map stored_day (bc_exceptions c)) t = Some t1"
    using assms(2) by (auto simp: valid_saved [OF assms(1)] split: if_splits option.splits)
  have ex: "list_ex (\<lambda>w. hw_day w = lt_day now \<and> hw_start w \<le> minute_of now \<and> minute_of now < hw_end w)
      (sort_key (\<lambda>w. (hw_day w, hw_start w)) (map stored_window (bc_windows c))) \<longleftrightarrow>
      list_ex (\<lambda>w. ew_day w = lt_day now \<and> ew_start w \<le> minute_of now \<and> minute_of now < ew_end w) (bc_windows c)"
    by (simp add: list_ex_iff stored_window_def)
  note found = day_found [OF valid_dates_distinct [OF assms(1)] dates date_key [OF assms(3)] assms(4)]
  show ?thesis
    unfolding is_open_def saved_policy [OF st] policy_open_def shown_open_def
    by (simp add: found ex del: map_map sort_key_simps split: option.split)
      (auto simp: row_to_exception_def stored_day_def insert_exception_def split: option.split)
qed

text \<open>Special hours become a closed day. Where the object mapper replaces a false by the default, as it is documented to, a day saved with
  hours of its own is stored as closed, and the company is closed on it at every time.\<close>

theorem special_hours_close:
  assumes "create False" "hours_valid c" "go_save_business_hours create fresh (hours_payload c) t = Inr t1"
    and "bc_enabled c" "e \<in> set (bc_exceptions c)" "\<not> ee_closed e" "ee_date e = local_date_key now"
    and "1000 \<le> lt_year now" "tb_today t1 \<le> date_of now"
  shows "is_open t1 now = Some False"
proof -
  have "List.find (\<lambda>x. ee_date x = local_date_key now) (bc_exceptions c) = Some e"
    using find_unique [OF valid_dates_distinct [OF assms(2)] assms(5)] assms(7) by simp
  then show ?thesis
    using saved_hours_read [OF assms(2,3,8,9)] assms(1,4,6) by (simp add: shown_open_def)
qed

text \<open>The editor lets nothing through that the service refuses, but dates that no calendar has: where the tables are there, what
  the card may save is stored unless a date does not exist, a window is there twice or the name of the time zone is too long.\<close>

theorem savable_is_accepted:
  assumes "hours_valid c" "tb_policies t = Rows ps" "tb_windows t = Rows ws" "tb_exceptions t = Rows es"
  shows "go_save_business_hours create fresh (hours_payload c) t = Inl Schedule_Invalid \<longleftrightarrow> \<not> dates_exist c"
    and "isl (go_save_business_hours create fresh (hours_payload c) t) \<longleftrightarrow>
      \<not> (dates_exist c \<and> rows_stored (normalize_timezone (hi_timezone (hours_payload c)))
           (map stored_window (bc_windows c)) (map stored_day (bc_exceptions c)))"
  using assms(2-4) by (auto simp: valid_saved [OF assms(1)] store_business_hours_def Let_def split: option.splits)

text \<open>Enforced hours without windows close the company. The card says of an empty list that it is treated as always available; where
  the hours are enforced, the engine lets no call through at any time of any day that is not an exception.\<close>

theorem enforced_without_windows_closes:
  assumes "go_save_business_hours create fresh (hours_payload (c\<lparr>bc_enabled := True, bc_windows := [], bc_exceptions := []\<rparr>)) t = Inr t1"
    and "1000 \<le> lt_year now" "tb_today t1 \<le> date_of now"
  shows "is_open t1 now = Some False"
  using saved_hours_read [OF _ assms] by (simp add: hours_valid_def shown_open_def)

text \<open>A failed load may be saved. When the hours cannot be read the card is left with its first values and the button enabled: saving
  them deletes every window and exception of the company and opens it around the clock.\<close>

theorem failed_load_opens_company:
  assumes "tb_policies t = Rows ps" "tb_windows t = Rows ws" "tb_exceptions t = Rows es"
    and "1000 \<le> lt_year now" "tb_today t \<le> date_of now"
  shows "\<exists>inp t1. fst (save_hours (hours_loaded None new_hours_card)) = Some inp \<and>
    go_save_business_hours create fresh inp t = Inr t1 \<and> is_open t1 now = Some True"
proof -
  let ?c = "hours_loaded None new_hours_card"
  have v: "hours_valid ?c" and off: "\<not> bc_enabled ?c"
    by (simp_all add: hours_loaded_def new_hours_card_def hours_valid_def)
  have inp: "fst (save_hours ?c) = Some (hours_payload ?c)"
    by (simp add: save_hours_def can_save_hours_def v) (simp add: hours_loaded_def new_hours_card_def)
  have tz: "length (normalize_timezone (hi_timezone (hours_payload ?c))) \<le> 64"
    by (simp add: hours_loaded_def new_hours_card_def hours_payload_def normalize_timezone_def trim_def is_space_def)
  have none: "bc_windows ?c = []" "bc_exceptions ?c = []" by (simp_all add: hours_loaded_def new_hours_card_def)
  obtain t1 where t1: "go_save_business_hours create fresh (hours_payload ?c) t = Inr t1" "tb_today t1 = tb_today t"
    using assms(1-3) tz by (simp add: valid_saved [OF v] dates_exist_def none store_business_hours_def Let_def rows_stored_def)
  have "is_open t1 now = Some True"
    using saved_hours_read [OF v t1(1) assms(4)] assms(5) off by (simp add: t1(2) shown_open_def)
  with inp t1(1) show ?thesis by blast
qed

section \<open>The card of a user's availability\<close>

record availability_input =
  ai_timezone :: string
  ai_windows :: "window_input list"

text \<open>A load remembers the extension it was begun for and whether its effect is still the current one; a save remembers nothing.\<close>

record availability_card =
  av_ext :: string
  av_loads :: "(string \<times> bool) list"
  av_loading :: bool
  av_saving :: bool
  av_timezone :: string
  av_windows :: "editable_window list"
  av_status :: save_status
  av_error :: string

definition new_availability_card :: availability_card where
  "new_availability_card = \<lparr>av_ext = [], av_loads = [], av_loading = False, av_saving = False, av_timezone = ''UTC'',
     av_windows = [], av_status = Nothing_Saved, av_error = []\<rparr>"

definition choose_user :: "string \<Rightarrow> availability_card \<Rightarrow> availability_card" where
  "choose_user e c =
     (if e = av_ext c then c
      else let c1 = c\<lparr>av_ext := e, av_loads := map (\<lambda>(x, _). (x, False)) (av_loads c)\<rparr>
        in if e = [] then c1
           else c1\<lparr>av_loads := av_loads c1 @ [(e, True)], av_loading := True, av_status := Nothing_Saved\<rparr>)"

definition editable_availability :: "availability_window \<Rightarrow> editable_window" where
  "editable_availability w = \<lparr>ew_day = aw_day w, ew_start = aw_start w, ew_end = aw_end w, ew_enabled = aw_enabled w\<rparr>"

definition availability_loaded :: "nat \<Rightarrow> availability_window list option \<Rightarrow> availability_card \<Rightarrow> availability_card" where
  "availability_loaded i answer c =
     (if length (av_loads c) \<le> i then c
      else let active = snd (av_loads c ! i);
        c1 = c\<lparr>av_loads := remove_row i (av_loads c)\<rparr>;
        c2 = (case answer of
            Some rows \<Rightarrow> if active then c1\<lparr>av_timezone := (case rows of [] \<Rightarrow> ''UTC''
                | r # _ \<Rightarrow> if aw_timezone r = [] then ''UTC'' else aw_timezone r),
              av_windows := map editable_availability rows\<rparr> else c1
          | None \<Rightarrow> c1\<lparr>av_error := ''Failed to load availability'', av_status := Was_Refused\<rparr>)
      in if active then c2\<lparr>av_loading := False\<rparr> else c2)"

definition availability_payload :: "availability_card \<Rightarrow> availability_input" where
  "availability_payload c = \<lparr>ai_timezone = (if trim (av_timezone c) = [] then ''UTC'' else trim (av_timezone c)),
     ai_windows = map (\<lambda>w. \<lparr>wi_day = ew_day w, wi_start = ew_start w, wi_end = ew_end w, wi_enabled = Some (ew_enabled w)\<rparr>)
       (av_windows c)\<rparr>"

definition save_availability :: "availability_card \<Rightarrow> (string \<times> availability_input) option \<times> availability_card" where
  "save_availability c =
     (if av_ext c = [] \<or> av_saving c \<or> av_loading c \<or> \<not> list_all window_valid (av_windows c) then (None, c)
      else (Some (av_ext c, availability_payload c), c\<lparr>av_saving := True, av_status := Nothing_Saved, av_error := []\<rparr>))"

definition availability_saved :: "(string + availability_window list) \<Rightarrow> availability_card \<Rightarrow> availability_card" where
  "availability_saved answer c = (case answer of
      Inr rows \<Rightarrow> c\<lparr>av_windows := map editable_availability rows, av_status := Was_Saved, av_saving := False\<rparr>
    | Inl message \<Rightarrow> c\<lparr>av_error := message, av_status := Was_Refused, av_saving := False\<rparr>)"

text \<open>The service replaces the windows of the extension; a window whose flag is missing is enabled.\<close>

definition go_list_availability :: "string \<Rightarrow> routing_tables \<Rightarrow> availability_window list option" where
  "go_list_availability extension t = (case tb_availability t of
      Rows rows \<Rightarrow> Some (sort_key (\<lambda>w. (aw_day w, aw_start w)) (filter (\<lambda>w. aw_extension w = extension) rows))
    | _ \<Rightarrow> None)"

definition availability_row :: "(bool \<Rightarrow> bool) \<Rightarrow> string \<Rightarrow> string \<Rightarrow> window_input \<Rightarrow> availability_window" where
  "availability_row create extension tz w = \<lparr>aw_extension = extension, aw_day = wi_day w, aw_start = wi_start w, aw_end = wi_end w,
     aw_timezone = tz, aw_enabled = create (or_else (wi_enabled w) True)\<rparr>"

definition availability_stored :: "string \<Rightarrow> string \<Rightarrow> window_input list \<Rightarrow> bool" where
  "availability_stored extension tz ws \<longleftrightarrow> length extension \<le> 20 \<and> length tz \<le> 64 \<and>
     distinct (map (\<lambda>w. (wi_day w, wi_start w, wi_end w)) ws)"

definition go_save_availability ::
  "(bool \<Rightarrow> bool) \<Rightarrow> string \<Rightarrow> availability_input \<Rightarrow> routing_tables \<Rightarrow> go_error + routing_tables" where
  "go_save_availability create extension inp t =
     (let tz = normalize_timezone (ai_timezone inp)
      in if \<not> list_all go_valid_window (ai_windows inp) then Inl Schedule_Invalid
         else case tb_availability t of
             Rows rows \<Rightarrow> if ai_windows inp = [] \<or> availability_stored extension tz (ai_windows inp)
               then Inr (t\<lparr>tb_availability := Rows (filter (\<lambda>w. aw_extension w \<noteq> extension) rows @
                 map (availability_row create extension tz) (ai_windows inp))\<rparr>)
               else Inl Store_Failed
           | _ \<Rightarrow> Inl Store_Failed)"

text \<open>A user's windows are kept. After a save the engine counts a user in at the minutes of the windows of the day that are stored as enabled,
  and always when the list is empty.\<close>

theorem saved_availability_decides:
  assumes "go_save_availability create extension (availability_payload c) t = Inr t1" "extension \<noteq> []"
  shows "is_within_user_hours t1 extension now = Some (av_windows c = [] \<or>
    list_ex (\<lambda>w. create (ew_enabled w) \<and> ew_day w = lt_day now \<and> ew_start w \<le> minute_of now \<and> minute_of now < ew_end w) (av_windows c))"
proof -
  let ?tz = "normalize_timezone (ai_timezone (availability_payload c))"
  let ?rows = "map (availability_row create extension ?tz) (ai_windows (availability_payload c))"
  obtain rows where t1: "tb_availability t1 = Rows (filter (\<lambda>w. aw_extension w \<noteq> extension) rows @ ?rows)"
    using assms(1) by (auto simp: go_save_availability_def Let_def split: if_splits query.splits)
  have "filter (\<lambda>w. aw_extension w = extension) (filter (\<lambda>w. aw_extension w \<noteq> extension) rows @ ?rows) = ?rows"
    by (simp add: filter_map availability_row_def comp_def)
  then have "get_windows t1 extension = Some (sort_key (\<lambda>w. (aw_day w, aw_start w)) ?rows)"
    using assms(2) by (simp only: get_windows_def t1 tolerant_def query.case option.map if_False)
  then show ?thesis
    by (simp add: is_within_user_hours_def list_ex_iff availability_payload_def availability_row_def del: sort_key_simps)
      (simp add: set_empty [symmetric] del: set_empty)
qed

text \<open>A window that is switched off still counts. Where the object mapper replaces a false by the default, the windows that the card
  switched off are stored as enabled, and the user is rung in them.\<close>

theorem switched_off_window_counts:
  assumes "create False" "create True" "go_save_availability create extension (availability_payload c) t = Inr t1" "extension \<noteq> []"
    and "w \<in> set (av_windows c)" "ew_day w = lt_day now" "ew_start w \<le> minute_of now" "minute_of now < ew_end w"
  shows "is_within_user_hours t1 extension now = Some True"
  using saved_availability_decides [OF assms(3,4), of now] assms(1,2,5-8)
  by (cases "ew_enabled w") (auto simp: list_ex_iff intro: bexI [of _ w])

text \<open>Disabled windows close a user. A user who has windows in the table but none enabled is never within hours, although the editor
  and the model of the service say that no enabled window means always available.\<close>

theorem disabled_windows_close_user:
  assumes "tb_availability t = Rows rows" "extension \<noteq> []" "\<exists>w\<in>set rows. aw_extension w = extension"
    and "\<forall>w\<in>set rows. aw_extension w = extension \<longrightarrow> \<not> aw_enabled w"
  shows "is_within_user_hours t extension now = Some False"
proof -
  have "get_windows t extension = Some (sort_key (\<lambda>w. (aw_day w, aw_start w)) (filter (\<lambda>w. aw_extension w = extension) rows))"
    using assms(1,2) by (simp add: get_windows_def tolerant_def)
  moreover have "sort_key (\<lambda>w. (aw_day w, aw_start w)) (filter (\<lambda>w. aw_extension w = extension) rows) \<noteq> []"
  proof -
    have "set (sort_key (\<lambda>w. (aw_day w, aw_start w)) (filter (\<lambda>w. aw_extension w = extension) rows)) \<noteq> {}"
      using assms(3) by (auto simp only: set_sort set_filter)
    then show ?thesis by force
  qed
  ultimately show ?thesis
    using assms(4) by (auto simp: is_within_user_hours_def list_ex_iff)
qed

section \<open>Loads and saves that overlap\<close>

datatype availability_event =
    Av_Choose string
  | Av_Loaded nat bool
  | Av_Save
  | Av_Saved "string + availability_window list"
  | Av_Edit window_edit
  | Av_Timezone string

text \<open>\<open>rows\<close> is what the service answers for an extension when a load succeeds.\<close>

definition availability_step ::
  "(string \<Rightarrow> availability_window list) \<Rightarrow> availability_event \<Rightarrow> availability_card \<Rightarrow> availability_card" where
  "availability_step rows ev c = (case ev of
      Av_Choose e \<Rightarrow> choose_user e c
    | Av_Loaded i ok \<Rightarrow> availability_loaded i (if ok \<and> i < length (av_loads c) then Some (rows (fst (av_loads c ! i))) else None) c
    | Av_Save \<Rightarrow> snd (save_availability c)
    | Av_Saved answer \<Rightarrow> availability_saved answer c
    | Av_Edit ed \<Rightarrow> c\<lparr>av_windows := edit_windows ed (av_windows c)\<rparr>
    | Av_Timezone tz \<Rightarrow> c\<lparr>av_timezone := tz\<rparr>)"

fun just_loads :: "availability_event \<Rightarrow> bool" where
  "just_loads (Av_Choose e) \<longleftrightarrow> True"
| "just_loads (Av_Loaded i ok) \<longleftrightarrow> ok"
| "just_loads _ \<longleftrightarrow> False"

definition shows_chosen :: "(string \<Rightarrow> availability_window list) \<Rightarrow> availability_card \<Rightarrow> bool" where
  "shows_chosen rows c \<longleftrightarrow> (\<forall>(x, active)\<in>set (av_loads c). active \<longrightarrow> x = av_ext c) \<and>
     (av_ext c \<noteq> [] \<and> \<not> av_loading c \<longrightarrow> av_windows c = map editable_availability (rows (av_ext c)))"

lemma remove_row_subset: "set (remove_row i xs) \<subseteq> set xs"
  by (auto simp: remove_row_def in_set_enumerate_eq)

lemma shows_chosen_step: "shows_chosen rows c \<Longrightarrow> just_loads ev \<Longrightarrow> shows_chosen rows (availability_step rows ev c)"
proof (cases ev)
  case (Av_Choose e)
  assume "shows_chosen rows c"
  then show ?thesis using Av_Choose
    by (auto simp: availability_step_def choose_user_def shows_chosen_def Let_def)
next
  case (Av_Loaded i ok)
  assume c: "shows_chosen rows c" and "just_loads ev"
  then have "ok" using Av_Loaded by simp
  show ?thesis
  proof (cases "i < length (av_loads c)")
    case True
    then have "av_loads c ! i \<in> set (av_loads c)" by simp
    then have "snd (av_loads c ! i) \<Longrightarrow> fst (av_loads c ! i) = av_ext c"
      using c by (fastforce simp: shows_chosen_def)
    then show ?thesis using c \<open>ok\<close> True Av_Loaded remove_row_subset [of i "av_loads c"]
      by (auto simp: availability_step_def availability_loaded_def shows_chosen_def Let_def split_beta)
  qed (use c Av_Loaded in \<open>simp add: availability_step_def availability_loaded_def\<close>)
qed simp_all

text \<open>The windows shown are those of the user chosen. Whatever users are picked in whatever order and whenever their loads come back, once
  the card is not loading it shows the windows of the user it names, and a load of another user changes nothing.\<close>

theorem shown_windows_are_chosen:
  assumes "list_all just_loads evs" "c = fold (availability_step rows) evs new_availability_card"
    and "av_ext c \<noteq> []" "\<not> av_loading c"
  shows "av_windows c = map editable_availability (rows (av_ext c))"
proof -
  have "shows_chosen rows (fold (availability_step rows) evs d)" if "shows_chosen rows d" for d
    using assms(1) that by (induction evs arbitrary: d) (auto intro: shows_chosen_step)
  from this [of new_availability_card] show ?thesis
    using assms(2-4) by (simp add: shows_chosen_def new_availability_card_def)
qed

text \<open>A load that fails leaves the last user's windows. The card names the new user, shows the windows of the one before, and saving
  writes these for the new user.\<close>

theorem failed_load_saves_for_other:
  assumes "a \<noteq> []" "b \<noteq> []" "a \<noteq> b" "list_all window_valid (map editable_availability (rows a))"
  shows "map_option (map_prod id ai_windows) (fst (save_availability (fold (availability_step rows)
      [Av_Choose a, Av_Loaded 0 True, Av_Choose b, Av_Loaded 0 False] new_availability_card))) =
    Some (b, map (\<lambda>w. \<lparr>wi_day = aw_day w, wi_start = aw_start w, wi_end = aw_end w, wi_enabled = Some (aw_enabled w)\<rparr>) (rows a))"
  using assms
  by (simp add: availability_step_def choose_user_def availability_loaded_def new_availability_card_def Let_def remove_row_def
      save_availability_def availability_payload_def editable_availability_def comp_def)

text \<open>A save that comes back late shows its windows under another user. A user is saved, the next one picked and loaded, and then the answer
  arrives: the card shows the first user's windows as saved, under the second's name.\<close>

theorem late_save_shown_for_other:
  assumes "a \<noteq> []" "b \<noteq> []" "a \<noteq> b" "list_all window_valid (map editable_availability (rows a))"
  shows "let c = fold (availability_step rows)
      [Av_Choose a, Av_Loaded 0 True, Av_Save, Av_Choose b, Av_Loaded 0 True, Av_Saved (Inr (rows a))] new_availability_card
    in av_ext c = b \<and> av_status c = Was_Saved \<and> av_windows c = map editable_availability (rows a)"
  using assms
  by (simp add: availability_step_def choose_user_def availability_loaded_def new_availability_card_def Let_def remove_row_def
      save_availability_def availability_saved_def)

section \<open>The card of the announcements\<close>

definition announcement_fields :: "(string \<times> string) list" where
  "announcement_fields =
    [(''company_closed'', ''Our company is currently closed. Please call us during business hours.''),
     (''user_unavailable_by_schedule'', ''The person you are trying to reach is currently unavailable. Please try again later.''),
     (''user_unreachable'', ''The person you are trying to reach is unavailable. Please leave a message after the beep.''),
     (''all_agents_busy'', ''All of our agents are currently busy. Please hold, or try again later.''),
     (''no_agents_online'', ''No agents are currently online. Please call back during working hours.'')]"

record prompts_card =
  pc_active :: bool
  pc_loading :: bool
  pc_saving :: bool
  pc_values :: "(string, string) js_map"
  pc_status :: save_status
  pc_error :: string

definition new_prompts_card :: prompts_card where
  "new_prompts_card = \<lparr>pc_active = True, pc_loading = True, pc_saving = False, pc_values = [], pc_status = Nothing_Saved, pc_error = []\<rparr>"

definition prompt_values :: "(string \<times> string) list \<Rightarrow> (string, string) js_map" where
  "prompt_values rows = foldl (\<lambda>m (k, text). m_set k text m) [] rows"

definition prompts_loaded :: "(string \<times> string) list option \<Rightarrow> prompts_card \<Rightarrow> prompts_card" where
  "prompts_loaded answer c =
     (let c1 = (case answer of
          Some rows \<Rightarrow> if pc_active c then c\<lparr>pc_values := prompt_values rows\<rparr> else c
        | None \<Rightarrow> c\<lparr>pc_error := ''Failed to load announcements'', pc_status := Was_Refused\<rparr>)
      in if pc_active c then c1\<lparr>pc_loading := False\<rparr> else c1)"

definition type_prompt :: "string \<Rightarrow> string \<Rightarrow> prompts_card \<Rightarrow> prompts_card" where
  "type_prompt k text c = c\<lparr>pc_values := m_set k text (pc_values c)\<rparr>"

definition prompts_payload :: "prompts_card \<Rightarrow> (string \<times> string) list" where
  "prompts_payload c = map (\<lambda>(k, _). (k, trim (or_else (m_get (pc_values c) k) [])))
     (filter (\<lambda>(k, _). trim (or_else (m_get (pc_values c) k) []) \<noteq> []) announcement_fields)"

definition save_prompts :: "prompts_card \<Rightarrow> (string \<times> string) list option \<times> prompts_card" where
  "save_prompts c = (if pc_loading c \<or> pc_saving c then (None, c)
     else (Some (prompts_payload c), c\<lparr>pc_saving := True, pc_status := Nothing_Saved, pc_error := []\<rparr>))"

definition prompts_saved :: "(string + (string \<times> string) list) \<Rightarrow> prompts_card \<Rightarrow> prompts_card" where
  "prompts_saved answer c = (case answer of
      Inr rows \<Rightarrow> c\<lparr>pc_values := prompt_values rows, pc_status := Was_Saved, pc_saving := False\<rparr>
    | Inl message \<Rightarrow> c\<lparr>pc_error := message, pc_status := Was_Refused, pc_saving := False\<rparr>)"

definition known_prompt_keys :: "string list" where
  "known_prompt_keys = [''company_closed'', ''user_unavailable_by_schedule'', ''user_unreachable'', ''all_agents_busy'', ''no_agents_online'']"

fun go_check_prompts :: "string list \<Rightarrow> (string \<times> string) list \<Rightarrow> (string \<times> string) list option" where
  "go_check_prompts seen [] = Some []"
| "go_check_prompts seen ((k, v) # ps) =
     (let key = trim k; text = trim v
      in if key \<notin> set known_prompt_keys \<or> key \<in> set seen then None
         else map_option (if text = [] then id else (#) (key, text)) (go_check_prompts (key # seen) ps))"

definition go_save_prompts :: "(string \<times> string) list \<Rightarrow> routing_tables \<Rightarrow> go_error + routing_tables" where
  "go_save_prompts ps t = (case go_check_prompts [] ps of
      None \<Rightarrow> Inl Prompt_Key_Invalid
    | Some rows \<Rightarrow> (case tb_prompts t of Rows _ \<Rightarrow> Inr (t\<lparr>tb_prompts := Rows rows\<rparr>) | _ \<Rightarrow> Inl Store_Failed))"

lemma trim_ends: "trim s = [] \<or> \<not> is_space (hd (trim s)) \<and> \<not> is_space (last (trim s))"
proof (cases "trim s = []")
  case False
  let ?r = "dropWhile is_space (rev (dropWhile is_space s))"
  have r: "?r \<noteq> []" "trim s = rev ?r" using False by (simp_all add: trim_def)
  have "\<not> is_space (hd ?r)" using r(1) by (rule hd_dropWhile)
  moreover have "last ?r = last (rev (dropWhile is_space s))"
    using r(1) by (metis dropWhile_eq_drop last_drop length_drop length_greater_0_conv zero_less_diff)
  moreover have "dropWhile is_space s \<noteq> []"
    using r(1) by (metis dropWhile.simps(1) rev.simps(1))
  ultimately show ?thesis by (simp add: r hd_rev last_rev hd_dropWhile)
qed simp

lemma trim_trim [simp]: "trim (trim s) = trim s"
proof (cases "trim s = []")
  case False
  with trim_ends [of s] have e: "\<not> is_space (hd (trim s))" "\<not> is_space (last (trim s))" by simp_all
  then have "dropWhile is_space (trim s) = trim s" by (cases "trim s") simp_all
  moreover have "dropWhile is_space (rev (trim s)) = rev (trim s)"
    using e(2) False by (cases "rev (trim s)") (simp_all add: rev_eq_Cons_iff)
  ultimately show ?thesis by (subst trim_def) simp
next
  case True
  have "trim [] = []" by (simp add: trim_def)
  then show ?thesis by (simp only: True)
qed

lemma keys_plain: "\<forall>(k, d)\<in>set announcement_fields. k \<in> set known_prompt_keys \<and> trim k = k \<and> k \<noteq> [] \<and> announcement_text (Some k) = Some d"
  by (simp add: announcement_fields_def) (simp add: known_prompt_keys_def announcement_text_def announcement_prompts_def strip_say_def trim_def is_space_def)

lemma prompts_checked:
  "list_all (\<lambda>(k, v). k \<in> set known_prompt_keys \<and> trim k = k \<and> trim v = v \<and> v \<noteq> []) ps \<Longrightarrow> distinct (map fst ps) \<Longrightarrow>
   set (map fst ps) \<inter> set seen = {} \<Longrightarrow> go_check_prompts seen ps = Some ps"
  by (induction seen ps rule: go_check_prompts.induct) auto

lemma overrides_read:
  "list_all (\<lambda>(k, v). trim v = v \<and> v \<noteq> []) rows \<Longrightarrow> distinct (map fst rows) \<Longrightarrow>
   m_get (foldl (\<lambda>m (k, text). if trim text \<noteq> [] then m_set k (trim text) m else m) m rows) k =
     (case map_of rows k of Some v \<Rightarrow> Some v | None \<Rightarrow> m_get m k)"
proof (induction rows arbitrary: m)
  case (Cons row rows)
  obtain k' v where "row = (k', v)" by force
  moreover from this Cons.prems have "map_of rows k' = None" by (simp add: map_of_eq_None_iff)
  ultimately show ?case using Cons by (auto simp: js_map split: option.split)
qed simp

lemma payload_keys: "map fst (prompts_payload c) = filter (\<lambda>k. trim (or_else (m_get (pc_values c) k) []) \<noteq> []) (map fst announcement_fields)"
  by (simp add: prompts_payload_def comp_def case_prod_unfold filter_map)

lemma fields_distinct: "distinct (map fst announcement_fields)"
  by (simp add: announcement_fields_def)

lemma payload_value:
  assumes "k \<in> fst ` set announcement_fields"
  shows "map_of (prompts_payload c) k =
    (let v = trim (or_else (m_get (pc_values c) k) []) in if v = [] then None else Some v)"
proof -
  have "map_of (map (\<lambda>(k, _). (k, f k)) (filter (\<lambda>(k, _). f k \<noteq> []) xs)) k = (if f k = [] then None else Some (f k))"
    if "k \<in> fst ` set xs" for f :: "string \<Rightarrow> string" and xs :: "(string \<times> string) list"
  proof -
    have "map_of (map (\<lambda>(k, _). (k, f k)) (filter (\<lambda>(k, _). f k \<noteq> []) xs)) k =
        (if k \<in> fst ` set xs \<and> f k \<noteq> [] then Some (f k) else None)"
      by (induction xs) auto
    with that show ?thesis by simp
  qed
  from this [OF assms] show ?thesis by (simp add: prompts_payload_def Let_def)
qed

text \<open>C30: Announcements are spoken as written. What the card saves is always accepted, and afterwards the engine speaks, for every announcement, the
  text of its field without the space around it, or, where the field is blank, the text the card shows as its default.\<close>

theorem announcements_spoken_as_written:
  assumes "tb_prompts t = Rows old" "(k, text) \<in> set announcement_fields"
  shows "\<exists>t1. go_save_prompts (prompts_payload c) t = Inr t1 \<and>
    announcement (Some t1) (Some k) = Some (let v = trim (or_else (m_get (pc_values c) k) []) in if v = [] then text else v)"
proof -
  have ok: "list_all (\<lambda>(k, v). k \<in> set known_prompt_keys \<and> trim k = k \<and> trim v = v \<and> v \<noteq> []) (prompts_payload c)"
    using keys_plain by (fastforce simp: prompts_payload_def list_all_iff)
  have d: "distinct (map fst (prompts_payload c))"
    unfolding payload_keys using fields_distinct by (rule distinct_filter)
  have "go_save_prompts (prompts_payload c) t = Inr (t\<lparr>tb_prompts := Rows (prompts_payload c)\<rparr>)"
    using prompts_checked [OF ok d, of "[]"] by (simp add: go_save_prompts_def assms(1))
  moreover have "m_get (foldl (\<lambda>m (k, text). if trim text \<noteq> [] then m_set k (trim text) m else m) [] (prompts_payload c)) k =
      (let v = trim (or_else (m_get (pc_values c) k) []) in if v = [] then None else Some v)"
    using overrides_read [OF _ d, of "[]" k] ok payload_value [of k c] assms(2)
    by (force simp: list_all_iff js_map split: option.split)
  moreover have "k \<noteq> []" "announcement_text (Some k) = Some text" using keys_plain assms(2) by auto
  ultimately show ?thesis
    by (auto simp: announcement_def get_overrides_def tolerant_def Let_def)
qed


definition office_card :: hours_card where
  "office_card = new_hours_card\<lparr>bc_loading := False, bc_enabled := True, bc_timezone := '' Asia/Kolkata'',
     bc_windows := [\<lparr>ew_day = 4, ew_start = 540, ew_end = 1080, ew_enabled = True\<rparr>],
     bc_exceptions := [\<lparr>ee_date = ''2025-12-25'', ee_closed = True, ee_start = 540, ee_end = 1020, ee_note = ''Christmas''\<rparr>]\<rparr>"


theorem announcements_spoken_as_written_witness:
  "\<exists>t1. go_save_prompts (prompts_payload (type_prompt ''company_closed'' '' Come back later '' new_prompts_card)) (office\<lparr>tb_prompts := Rows []\<rparr>) = Inr t1 \<and>
     announcement (Some t1) (Some ''company_closed'') = Some ''Come back later''"
  using announcements_spoken_as_written [of "office\<lparr>tb_prompts := Rows []\<rparr>" "[]" "''company_closed''"
      "''Our company is currently closed. Please call us during business hours.''" "type_prompt ''company_closed'' '' Come back later '' new_prompts_card"]
  by (simp add: announcement_fields_def type_prompt_def trim_def is_space_def)

definition evenings :: "availability_window list" where
  "evenings = [\<lparr>aw_extension = ''2'', aw_day = 1, aw_start = 1020, aw_end = 1320, aw_timezone = ''UTC'', aw_enabled = True\<rparr>]"

theorem shown_windows_are_chosen_witness:
  "av_windows (fold (availability_step (\<lambda>e. if e = ''2'' then evenings else [])) [Av_Choose ''1'', Av_Choose ''2'', Av_Loaded 1 True,
      Av_Loaded 0 True] new_availability_card) = map editable_availability evenings"
proof -
  let ?c = "fold (availability_step (\<lambda>e. if e = ''2'' then evenings else [])) [Av_Choose ''1'', Av_Choose ''2'', Av_Loaded 1 True,
      Av_Loaded 0 True] new_availability_card"
  have "av_ext ?c = ''2'' \<and> \<not> av_loading ?c"
    by (simp add: availability_step_def choose_user_def availability_loaded_def new_availability_card_def Let_def remove_row_def)
  then show ?thesis
    using shown_windows_are_chosen [of "[Av_Choose ''1'', Av_Choose ''2'', Av_Loaded 1 True, Av_Loaded 0 True]" ?c] by simp
qed

end
