(* ===== verification/Prompt_Recorder.thy ===== *)
theory Prompt_Recorder
  imports Schedule
begin

text \<open>
  The recorder of prompts: the dialog \<^verbatim>\<open>web/app/admin/ivr/components/AudioRecorderModal.tsx\<close>, the audio engine and its
  configuration, \<^verbatim>\<open>web/lib/voxfront\<close>, and the worklet that hosts the core, \<^verbatim>\<open>web/public/worklet/dsp-processor.js\<close>. The state of the
  dialog has its references and, beside them, what they refer to: the microphones that are live, the engines, the recorders and the
  interval timers. Each await is a step that may succeed or fail, and the events come in any order. Samples are exact rationals.
  The drawing of the waveform, the audio graph beyond the microphone and the computing of the core are left out.
\<close>

section \<open>The configuration\<close>

record dsp_config =
  dc_aec_on :: bool
  dc_aec_mu :: rat
  dc_ns_on :: bool
  dc_ns_strength :: rat
  dc_agc_on :: bool
  dc_agc_target :: rat
  dc_comp_on :: bool
  dc_comp_threshold :: rat
  dc_comp_ratio :: rat
  dc_comp_makeup :: rat
  dc_vad_on :: bool
  dc_vad_sensitivity :: rat
  dc_vad_gate :: bool
  dc_fx_hp :: bool
  dc_fx_echo :: bool
  dc_fx_delay :: rat
  dc_fx_fb :: rat
  dc_fx_mix :: rat

definition default_config :: dsp_config where
  "default_config = \<lparr>dc_aec_on = False, dc_aec_mu = 3 / 10, dc_ns_on = True, dc_ns_strength = 1, dc_agc_on = True, dc_agc_target = 3 / 25,
     dc_comp_on = False, dc_comp_threshold = 3 / 10, dc_comp_ratio = 3, dc_comp_makeup = 6 / 5, dc_vad_on = True, dc_vad_sensitivity = 1 / 2,
     dc_vad_gate = False, dc_fx_hp = True, dc_fx_echo = False, dc_fx_delay = 9600, dc_fx_fb = 3 / 10, dc_fx_mix = 2 / 5\<rparr>"

definition initial_config :: dsp_config where
  "initial_config = \<lparr>dc_aec_on = False, dc_aec_mu = 3 / 10, dc_ns_on = True, dc_ns_strength = 4 / 5, dc_agc_on = False, dc_agc_target = 3 / 25,
     dc_comp_on = False, dc_comp_threshold = 3 / 10, dc_comp_ratio = 3, dc_comp_makeup = 6 / 5, dc_vad_on = True, dc_vad_sensitivity = 1 / 2,
     dc_vad_gate = False, dc_fx_hp = True, dc_fx_echo = False, dc_fx_delay = 9600, dc_fx_fb = 3 / 10, dc_fx_mix = 2 / 5\<rparr>"

definition presets :: "(string \<times> dsp_config) list" where
  "presets = [
   (''studio'', \<lparr>dc_aec_on = False, dc_aec_mu = 3 / 10, dc_ns_on = True, dc_ns_strength = 2 / 5, dc_agc_on = True, dc_agc_target = 3 / 25,
     dc_comp_on = False, dc_comp_threshold = 3 / 10, dc_comp_ratio = 3, dc_comp_makeup = 6 / 5, dc_vad_on = True, dc_vad_sensitivity = 2 / 5,
     dc_vad_gate = False, dc_fx_hp = False, dc_fx_echo = False, dc_fx_delay = 9600, dc_fx_fb = 3 / 10, dc_fx_mix = 2 / 5\<rparr>),
   (''bedroom'', \<lparr>dc_aec_on = True, dc_aec_mu = 1 / 4, dc_ns_on = True, dc_ns_strength = 9 / 10, dc_agc_on = True, dc_agc_target = 3 / 25,
     dc_comp_on = False, dc_comp_threshold = 3 / 10, dc_comp_ratio = 3, dc_comp_makeup = 6 / 5, dc_vad_on = True, dc_vad_sensitivity = 1 / 2,
     dc_vad_gate = False, dc_fx_hp = True, dc_fx_echo = False, dc_fx_delay = 9600, dc_fx_fb = 3 / 10, dc_fx_mix = 2 / 5\<rparr>),
   (''livingRoom'', \<lparr>dc_aec_on = True, dc_aec_mu = 3 / 10, dc_ns_on = True, dc_ns_strength = 6 / 5, dc_agc_on = True, dc_agc_target = 13 / 100,
     dc_comp_on = True, dc_comp_threshold = 7 / 20, dc_comp_ratio = 5 / 2, dc_comp_makeup = 11 / 10, dc_vad_on = True, dc_vad_sensitivity = 1 / 2,
     dc_vad_gate = False, dc_fx_hp = True, dc_fx_echo = False, dc_fx_delay = 9600, dc_fx_fb = 3 / 10, dc_fx_mix = 2 / 5\<rparr>),
   (''office'', \<lparr>dc_aec_on = True, dc_aec_mu = 3 / 10, dc_ns_on = True, dc_ns_strength = 7 / 5, dc_agc_on = True, dc_agc_target = 13 / 100,
     dc_comp_on = True, dc_comp_threshold = 3 / 10, dc_comp_ratio = 3, dc_comp_makeup = 6 / 5, dc_vad_on = True, dc_vad_sensitivity = 11 / 20,
     dc_vad_gate = False, dc_fx_hp = True, dc_fx_echo = False, dc_fx_delay = 9600, dc_fx_fb = 3 / 10, dc_fx_mix = 2 / 5\<rparr>),
   (''openOffice'', \<lparr>dc_aec_on = True, dc_aec_mu = 3 / 10, dc_ns_on = True, dc_ns_strength = 9 / 5, dc_agc_on = True, dc_agc_target = 7 / 50,
     dc_comp_on = True, dc_comp_threshold = 7 / 25, dc_comp_ratio = 7 / 2, dc_comp_makeup = 5 / 4, dc_vad_on = True, dc_vad_sensitivity = 13 / 20,
     dc_vad_gate = True, dc_fx_hp = True, dc_fx_echo = False, dc_fx_delay = 9600, dc_fx_fb = 3 / 10, dc_fx_mix = 2 / 5\<rparr>),
   (''cafe'', \<lparr>dc_aec_on = True, dc_aec_mu = 3 / 10, dc_ns_on = True, dc_ns_strength = 2, dc_agc_on = True, dc_agc_target = 3 / 20,
     dc_comp_on = True, dc_comp_threshold = 1 / 4, dc_comp_ratio = 4, dc_comp_makeup = 13 / 10, dc_vad_on = True, dc_vad_sensitivity = 7 / 10,
     dc_vad_gate = True, dc_fx_hp = True, dc_fx_echo = False, dc_fx_delay = 9600, dc_fx_fb = 3 / 10, dc_fx_mix = 2 / 5\<rparr>),
   (''street'', \<lparr>dc_aec_on = False, dc_aec_mu = 3 / 10, dc_ns_on = True, dc_ns_strength = 2, dc_agc_on = True, dc_agc_target = 4 / 25,
     dc_comp_on = True, dc_comp_threshold = 11 / 50, dc_comp_ratio = 5, dc_comp_makeup = 7 / 5, dc_vad_on = True, dc_vad_sensitivity = 3 / 4,
     dc_vad_gate = True, dc_fx_hp = True, dc_fx_echo = False, dc_fx_delay = 9600, dc_fx_fb = 3 / 10, dc_fx_mix = 2 / 5\<rparr>),
   (''car'', \<lparr>dc_aec_on = True, dc_aec_mu = 3 / 10, dc_ns_on = True, dc_ns_strength = 8 / 5, dc_agc_on = True, dc_agc_target = 3 / 20,
     dc_comp_on = True, dc_comp_threshold = 7 / 25, dc_comp_ratio = 7 / 2, dc_comp_makeup = 5 / 4, dc_vad_on = True, dc_vad_sensitivity = 3 / 5,
     dc_vad_gate = False, dc_fx_hp = True, dc_fx_echo = False, dc_fx_delay = 9600, dc_fx_fb = 3 / 10, dc_fx_mix = 2 / 5\<rparr>),
   (''hall'', \<lparr>dc_aec_on = True, dc_aec_mu = 1 / 2, dc_ns_on = True, dc_ns_strength = 1, dc_agc_on = True, dc_agc_target = 13 / 100,
     dc_comp_on = False, dc_comp_threshold = 3 / 10, dc_comp_ratio = 3, dc_comp_makeup = 6 / 5, dc_vad_on = True, dc_vad_sensitivity = 1 / 2,
     dc_vad_gate = False, dc_fx_hp = True, dc_fx_echo = False, dc_fx_delay = 9600, dc_fx_fb = 3 / 10, dc_fx_mix = 2 / 5\<rparr>),
   (''aggressive'', \<lparr>dc_aec_on = True, dc_aec_mu = 3 / 10, dc_ns_on = True, dc_ns_strength = 2, dc_agc_on = True, dc_agc_target = 3 / 20,
     dc_comp_on = True, dc_comp_threshold = 1 / 4, dc_comp_ratio = 4, dc_comp_makeup = 13 / 10, dc_vad_on = True, dc_vad_sensitivity = 7 / 10,
     dc_vad_gate = True, dc_fx_hp = True, dc_fx_echo = False, dc_fx_delay = 9600, dc_fx_fb = 3 / 10, dc_fx_mix = 2 / 5\<rparr>),
   (''enhanceLo'', \<lparr>dc_aec_on = False, dc_aec_mu = 3 / 10, dc_ns_on = True, dc_ns_strength = 4 / 5, dc_agc_on = True, dc_agc_target = 3 / 25,
     dc_comp_on = True, dc_comp_threshold = 2 / 5, dc_comp_ratio = 2, dc_comp_makeup = 11 / 10, dc_vad_on = True, dc_vad_sensitivity = 1 / 2,
     dc_vad_gate = False, dc_fx_hp = True, dc_fx_echo = False, dc_fx_delay = 9600, dc_fx_fb = 3 / 10, dc_fx_mix = 2 / 5\<rparr>),
   (''enhanceMid'', \<lparr>dc_aec_on = False, dc_aec_mu = 3 / 10, dc_ns_on = True, dc_ns_strength = 1, dc_agc_on = True, dc_agc_target = 13 / 100,
     dc_comp_on = True, dc_comp_threshold = 3 / 10, dc_comp_ratio = 3, dc_comp_makeup = 5 / 4, dc_vad_on = True, dc_vad_sensitivity = 1 / 2,
     dc_vad_gate = False, dc_fx_hp = True, dc_fx_echo = False, dc_fx_delay = 9600, dc_fx_fb = 3 / 10, dc_fx_mix = 2 / 5\<rparr>),
   (''enhanceHi'', \<lparr>dc_aec_on = False, dc_aec_mu = 3 / 10, dc_ns_on = True, dc_ns_strength = 6 / 5, dc_agc_on = True, dc_agc_target = 7 / 50,
     dc_comp_on = True, dc_comp_threshold = 11 / 50, dc_comp_ratio = 5, dc_comp_makeup = 3 / 2, dc_vad_on = True, dc_vad_sensitivity = 1 / 2,
     dc_vad_gate = False, dc_fx_hp = True, dc_fx_echo = False, dc_fx_delay = 9600, dc_fx_fb = 3 / 10, dc_fx_mix = 2 / 5\<rparr>),
   (''telephone'', \<lparr>dc_aec_on = True, dc_aec_mu = 3 / 10, dc_ns_on = True, dc_ns_strength = 6 / 5, dc_agc_on = True, dc_agc_target = 4 / 25,
     dc_comp_on = True, dc_comp_threshold = 1 / 5, dc_comp_ratio = 6, dc_comp_makeup = 7 / 5, dc_vad_on = True, dc_vad_sensitivity = 1 / 2,
     dc_vad_gate = False, dc_fx_hp = True, dc_fx_echo = False, dc_fx_delay = 9600, dc_fx_fb = 3 / 10, dc_fx_mix = 2 / 5\<rparr>),
   (''raw'', \<lparr>dc_aec_on = False, dc_aec_mu = 3 / 10, dc_ns_on = False, dc_ns_strength = 1, dc_agc_on = False, dc_agc_target = 3 / 25,
     dc_comp_on = False, dc_comp_threshold = 3 / 10, dc_comp_ratio = 3, dc_comp_makeup = 6 / 5, dc_vad_on = True, dc_vad_sensitivity = 1 / 2,
     dc_vad_gate = False, dc_fx_hp = False, dc_fx_echo = False, dc_fx_delay = 9600, dc_fx_fb = 3 / 10, dc_fx_mix = 2 / 5\<rparr>)]"

text \<open>Two configurations have the same text exactly if they are equal: every one has its fields in the order of the type.\<close>

definition match_preset :: "dsp_config \<Rightarrow> string" where
  "match_preset cfg = (case List.find (\<lambda>(_, p). p = cfg) presets of Some (key, _) \<Rightarrow> key | None \<Rightarrow> ''custom'')"

definition apply_preset :: "string \<Rightarrow> dsp_config \<Rightarrow> dsp_config" where
  "apply_preset key cfg = (case map_of presets key of Some p \<Rightarrow> p | None \<Rightarrow> cfg)"

section \<open>The waveform and the file\<close>

definition sample_at :: "rat list \<Rightarrow> nat \<Rightarrow> rat" where
  "sample_at samples i = (if i < length samples then samples ! i else 0)"

definition local_peak :: "rat list \<Rightarrow> nat \<Rightarrow> nat \<Rightarrow> rat" where
  "local_peak samples start block =
     foldl (\<lambda>m i. let v = \<bar>sample_at samples (start + i)\<bar> in if v > m then v else m) 0 [0..<block]"

definition compute_peaks :: "rat list \<Rightarrow> nat \<Rightarrow> rat list" where
  "compute_peaks samples buckets =
     (let block = (if length samples div buckets = 0 then 1 else length samples div buckets);
          peaks = map (\<lambda>b. local_peak samples (b * block) block) [0..<buckets];
          top = foldl (\<lambda>m p. if p > m then p else m) 0 peaks
      in if top > 0 then map (\<lambda>p. p / top) peaks else peaks)"

definition format_secs :: "nat \<Rightarrow> string" where
  "format_secs secs = show_nat (secs div 60) @ '':'' @ pad2 (secs mod 60)"

definition recording_mimes :: "string list" where
  "recording_mimes = [''audio/webm;codecs=opus'', ''audio/webm'', ''audio/ogg;codecs=opus'', ''audio/ogg'', ''audio/mp4'']"

definition pick_recording_mime :: "(string \<Rightarrow> bool) \<Rightarrow> string option" where
  "pick_recording_mime supported = List.find supported recording_mimes"

definition container_of :: "string \<Rightarrow> string" where
  "container_of mime = (if sublist ''ogg'' mime then ''ogg'' else if sublist ''mp4'' mime then ''m4a'' else ''webm'')"

text \<open>A preset that is chosen is shown as chosen, except that two of them have the same values: the loud room is shown as the cafe.\<close>

theorem chosen_preset_is_shown:
  assumes "key \<in> set (map fst presets)"
  shows "match_preset (apply_preset key cfg) = (if key = ''aggressive'' then ''cafe'' else key)"
proof -
  have "list_all (\<lambda>k. match_preset (case map_of presets k of Some p \<Rightarrow> p | None \<Rightarrow> default_config) =
      (if k = ''aggressive'' then ''cafe'' else k)) (map fst presets)"
    by code_simp
  moreover obtain p where "map_of presets key = Some p"
    using assms by (metis image_set map_of_eq_None_iff option.exhaust)
  ultimately show ?thesis using assms by (auto simp: list_all_iff apply_preset_def)
qed

lemma running_max: "foldl (\<lambda>m x. let v = f x in if v > m then v else m) (a :: rat) xs = foldl max a (map f xs)"
  by (induction xs arbitrary: a) (auto simp: max_def Let_def)

lemma foldl_max: "a \<le> foldl max (a :: rat) xs \<and> (\<forall>x\<in>set xs. x \<le> foldl max a xs) \<and>
    (foldl max a xs = a \<or> foldl max a xs \<in> set xs)"
proof (induction xs arbitrary: a)
  case (Cons x xs)
  have "a \<le> max a x" "x \<le> max a x" "max a x = a \<or> max a x = x" by (auto simp: max_def)
  with Cons [of "max a x"] show ?case by (auto intro: order_trans)
qed simp

lemma local_peak_max: "local_peak samples start block = foldl max 0 (map (\<lambda>i. \<bar>sample_at samples (start + i)\<bar>) [0..<block])"
  unfolding local_peak_def by (rule running_max)

lemma peaks_by_max:
  "compute_peaks samples buckets =
     (let block = (if length samples div buckets = 0 then 1 else length samples div buckets);
          peaks = map (\<lambda>b. local_peak samples (b * block) block) [0..<buckets];
          top = foldl max 0 peaks
      in if top > 0 then map (\<lambda>p. p / top) peaks else peaks)"
  using running_max [of "\<lambda>x. x" 0] by (simp add: compute_peaks_def Let_def)

text \<open>The bars of the waveform. There are as many as asked for, none is below zero or above the full height, and where one of the samples
  looked at is not silent, some bar has the full height.\<close>

theorem peaks_fill_the_view:
  "length (compute_peaks samples buckets) = buckets \<and> list_all (\<lambda>p. 0 \<le> p \<and> p \<le> 1) (compute_peaks samples buckets) \<and>
   (list_ex (\<lambda>p. p \<noteq> 0) (compute_peaks samples buckets) \<longrightarrow> 1 \<in> set (compute_peaks samples buckets))"
proof -
  let ?block = "if length samples div buckets = 0 then 1 else length samples div buckets"
  let ?peaks = "map (\<lambda>b. local_peak samples (b * ?block) ?block) [0..<buckets]"
  let ?top = "foldl max 0 ?peaks"
  have e: "compute_peaks samples buckets = (if ?top > 0 then map (\<lambda>p. p / ?top) ?peaks else ?peaks)"
    by (simp only: peaks_by_max Let_def)
  have pos: "\<forall>p\<in>set ?peaks. 0 \<le> p" by (simp add: local_peak_max foldl_max)
  have top: "\<forall>p\<in>set ?peaks. p \<le> ?top" "?top = 0 \<or> ?top \<in> set ?peaks" "0 \<le> ?top"
    using foldl_max [of 0 ?peaks] by auto
  show ?thesis
  proof (cases "?top > 0")
    case True
    then have "1 \<in> (\<lambda>p. p / ?top) ` set ?peaks" using top(2) by (intro image_eqI [of _ _ ?top]) auto
    then show ?thesis using pos top True unfolding e
      by (simp only: if_True length_map list_all_iff set_map ball_simps) (simp add: divide_le_eq)
  next
    case False
    then have "\<forall>p\<in>set ?peaks. p = 0" using pos top by (metis order.antisym leI)
    then show ?thesis using False unfolding e
      by (simp only: if_False list_all_iff list_ex_iff) auto
  qed
qed

section \<open>The engine and its worklet\<close>

text \<open>What the engine posts is delivered in order. The core is what has been set in it: a configuration and whether it is bypassed. A patch
  of the configuration is the function that it makes of one.\<close>

datatype worklet_msg = Wk_Init dsp_config | Wk_Config dsp_config | Wk_Bypass bool

record worklet =
  wk_ready :: bool
  wk_config :: "dsp_config option"
  wk_bypass :: bool
  wk_pending_config :: "dsp_config option"
  wk_pending_bypass :: "bool option"

definition new_worklet :: worklet where
  "new_worklet = \<lparr>wk_ready = False, wk_config = None, wk_bypass = False, wk_pending_config = None, wk_pending_bypass = None\<rparr>"

definition worklet_init :: "bool \<Rightarrow> dsp_config \<Rightarrow> worklet \<Rightarrow> worklet" where
  "worklet_init compiles cfg w =
     (if \<not> compiles then w
      else w\<lparr>wk_ready := True, wk_config := Some (or_else (wk_pending_config w) cfg), wk_pending_config := None,
        wk_bypass := or_else (wk_pending_bypass w) (wk_bypass w), wk_pending_bypass := None\<rparr>)"

fun worklet_message :: "bool \<Rightarrow> worklet_msg \<Rightarrow> worklet \<Rightarrow> worklet" where
  "worklet_message compiles (Wk_Init cfg) w = worklet_init compiles cfg w"
| "worklet_message compiles (Wk_Config cfg) w =
     (if wk_ready w then w\<lparr>wk_config := Some cfg\<rparr> else w\<lparr>wk_pending_config := Some cfg\<rparr>)"
| "worklet_message compiles (Wk_Bypass on) w =
     (if wk_ready w then w\<lparr>wk_bypass := on\<rparr> else w\<lparr>wk_pending_bypass := Some on\<rparr>)"

datatype listen_mode = Listen_Off | Listen_Processed | Listen_Raw

record audio_engine =
  ae_node :: bool
  ae_config :: dsp_config
  ae_bypass :: bool
  ae_listen :: listen_mode
  ae_gains :: "nat \<times> nat"
  ae_posted :: "worklet_msg list"

definition new_audio_engine :: audio_engine where
  "new_audio_engine = \<lparr>ae_node = False, ae_config = default_config, ae_bypass = False, ae_listen = Listen_Off, ae_gains = (0, 0),
     ae_posted = []\<rparr>"

definition post_worklet :: "worklet_msg \<Rightarrow> audio_engine \<Rightarrow> audio_engine" where
  "post_worklet msg e = (if ae_node e then e\<lparr>ae_posted := ae_posted e @ [msg]\<rparr> else e)"

definition apply_listen_mode :: "audio_engine \<Rightarrow> audio_engine" where
  "apply_listen_mode e = (if \<not> ae_node e then e
     else e\<lparr>ae_gains := (if ae_listen e = Listen_Raw then 1 else 0, if ae_listen e = Listen_Processed then 1 else 0)\<rparr>)"

definition engine_started :: "audio_engine \<Rightarrow> audio_engine" where
  "engine_started e = (if ae_node e then e
     else apply_listen_mode (post_worklet (Wk_Bypass (ae_bypass e)) (post_worklet (Wk_Init (ae_config e)) (e\<lparr>ae_node := True\<rparr>))))"

definition set_config :: "dsp_config \<Rightarrow> audio_engine \<Rightarrow> audio_engine" where
  "set_config cfg e = post_worklet (Wk_Config cfg) (e\<lparr>ae_config := cfg\<rparr>)"

definition update_config :: "(dsp_config \<Rightarrow> dsp_config) \<Rightarrow> audio_engine \<Rightarrow> audio_engine" where
  "update_config patch e = post_worklet (Wk_Config (patch (ae_config e))) (e\<lparr>ae_config := patch (ae_config e)\<rparr>)"

definition set_bypass :: "bool \<Rightarrow> audio_engine \<Rightarrow> audio_engine" where
  "set_bypass on e = post_worklet (Wk_Bypass on) (e\<lparr>ae_bypass := on\<rparr>)"

definition set_listen_mode :: "listen_mode \<Rightarrow> audio_engine \<Rightarrow> audio_engine" where
  "set_listen_mode mode e = apply_listen_mode (e\<lparr>ae_listen := mode\<rparr>)"

datatype engine_op =
    Op_Start
  | Op_Config dsp_config
  | Op_Update "dsp_config \<Rightarrow> dsp_config"
  | Op_Bypass bool
  | Op_Listen listen_mode
  | Op_Deliver

fun engine_step :: "bool \<Rightarrow> engine_op \<Rightarrow> audio_engine \<times> worklet \<Rightarrow> audio_engine \<times> worklet" where
  "engine_step compiles Op_Start (e, w) = (engine_started e, w)"
| "engine_step compiles (Op_Config cfg) (e, w) = (set_config cfg e, w)"
| "engine_step compiles (Op_Update patch) (e, w) = (update_config patch e, w)"
| "engine_step compiles (Op_Bypass on) (e, w) = (set_bypass on e, w)"
| "engine_step compiles (Op_Listen mode) (e, w) = (set_listen_mode mode e, w)"
| "engine_step compiles Op_Deliver (e, w) = (case ae_posted e of
     [] \<Rightarrow> (e, w) | msg # rest \<Rightarrow> (e\<lparr>ae_posted := rest\<rparr>, worklet_message compiles msg w))"

lemmas engine_defs = set_config_def update_config_def set_bypass_def set_listen_mode_def engine_started_def post_worklet_def
  apply_listen_mode_def worklet_init_def

text \<open>What the worklet will be when all that is posted has been delivered is what the engine is.\<close>

definition worklet_agrees :: "audio_engine \<times> worklet \<Rightarrow> bool" where
  "worklet_agrees s \<longleftrightarrow>
     (if ae_node (fst s)
      then let w = fold (worklet_message True) (ae_posted (fst s)) (snd s)
        in wk_ready w \<and> wk_config w = Some (ae_config (fst s)) \<and> wk_bypass w = ae_bypass (fst s)
      else ae_posted (fst s) = [] \<and> snd s = new_worklet)"

lemma worklet_agrees_op: "worklet_agrees s \<Longrightarrow> worklet_agrees (engine_step True c s)"
  by (cases s; cases c)
    (auto simp: worklet_agrees_def engine_defs new_worklet_def Let_def split: list.splits)

text \<open>The worklet follows the engine. Whatever is configured before and after the start and however the messages are delayed, once all are
  delivered to a core that compiles, it has the configuration and the bypass of the engine.\<close>

theorem worklet_follows_engine:
  assumes "(e, w) = fold (engine_step True) ops (new_audio_engine, new_worklet)" "ae_node e" "ae_posted e = []"
  shows "wk_config w = Some (ae_config e) \<and> wk_bypass w = ae_bypass e"
proof -
  have "worklet_agrees (fold (engine_step True) ops s)" if "worklet_agrees s" for s
    using that by (induction ops arbitrary: s) (simp_all add: worklet_agrees_op)
  from this [of "(new_audio_engine, new_worklet)"] show ?thesis
    unfolding assms(1) [symmetric] using assms(2,3)
    by (simp add: worklet_agrees_def new_audio_engine_def Let_def)
qed

section \<open>The dialog\<close>

datatype rec_phase = Rp_Idle | Rp_Recording | Rp_Recorded

datatype recorder_state = Rs_Active | Rs_Stopping | Rs_Done

text \<open>Where a start waits: for the microphone of the browser, or in the engine for the microphone, for the worklet and the core, and for
  the core to report that it is ready.\<close>

datatype start = Asking_Mic | Engine_Asking nat | Engine_Loading nat | Engine_Waiting nat

record engine_of_dialog =
  eg_mic :: "nat option"
  eg_running :: bool

record recorder_dialog =
  rd_open :: bool
  rd_phase :: rec_phase
  rd_elapsed :: nat
  rd_dsp :: "bool option"
  rd_probing :: bool
  rd_saving :: bool
  rd_failed :: bool
  rd_stream :: "nat option"
  rd_engine :: "nat option"
  rd_engines :: "engine_of_dialog list"
  rd_recorder :: "nat option"
  rd_recorders :: "recorder_state list"
  rd_chunks :: "nat list"
  rd_blob :: "(nat \<times> string) option"
  rd_timer :: "nat option"
  rd_timers :: "(nat \<times> nat) list"
  rd_begun :: nat
  rd_starts :: "start list"
  rd_mics :: "nat list"
  rd_granted :: nat
  rd_sent :: "(nat \<times> string) list"

definition closed_dialog :: recorder_dialog where
  "closed_dialog = \<lparr>rd_open = False, rd_phase = Rp_Idle, rd_elapsed = 0, rd_dsp = None, rd_probing = False, rd_saving = False,
     rd_failed = False, rd_stream = None, rd_engine = None, rd_engines = [], rd_recorder = None, rd_recorders = [], rd_chunks = [],
     rd_blob = None, rd_timer = None, rd_timers = [], rd_begun = 0, rd_starts = [], rd_mics = [], rd_granted = 0, rd_sent = []\<rparr>"

definition max_record_secs :: nat where
  "max_record_secs = 60"

definition max_upload_bytes :: nat where
  "max_upload_bytes = 250 * 1024"

definition mic_off :: "nat option \<Rightarrow> recorder_dialog \<Rightarrow> recorder_dialog" where
  "mic_off k d = (case k of None \<Rightarrow> d | Some k \<Rightarrow> d\<lparr>rd_mics := removeAll k (rd_mics d)\<rparr>)"

definition engine_stop :: "nat \<Rightarrow> recorder_dialog \<Rightarrow> recorder_dialog" where
  "engine_stop i d = (if length (rd_engines d) \<le> i then d
     else (mic_off (eg_mic (rd_engines d ! i)) d)\<lparr>rd_engines := (rd_engines d)[i := \<lparr>eg_mic = None, eg_running = False\<rparr>]\<rparr>)"

definition clear_recorded :: "recorder_dialog \<Rightarrow> recorder_dialog" where
  "clear_recorded d = d\<lparr>rd_blob := None, rd_elapsed := 0\<rparr>"

definition release_capture :: "recorder_dialog \<Rightarrow> recorder_dialog" where
  "release_capture d =
     (let d1 = (mic_off (rd_stream d) d)\<lparr>rd_stream := None\<rparr>;
          d2 = (case rd_engine d1 of None \<Rightarrow> d1 | Some i \<Rightarrow> engine_stop i d1)
      in d2\<lparr>rd_engine := None\<rparr>)"

definition clear_timer :: "recorder_dialog \<Rightarrow> recorder_dialog" where
  "clear_timer d = (case rd_timer d of None \<Rightarrow> d
     | Some t \<Rightarrow> d\<lparr>rd_timers := filter (\<lambda>x. fst x \<noteq> t) (rd_timers d), rd_timer := None\<rparr>)"

definition stop_recorder :: "recorder_dialog \<Rightarrow> recorder_dialog" where
  "stop_recorder d = (case rd_recorder d of None \<Rightarrow> d
     | Some r \<Rightarrow> if r < length (rd_recorders d) \<and> rd_recorders d ! r = Rs_Active
         then d\<lparr>rd_recorders := (rd_recorders d)[r := Rs_Stopping]\<rparr> else d)"

definition teardown :: "recorder_dialog \<Rightarrow> recorder_dialog" where
  "teardown d = (clear_recorded (release_capture ((stop_recorder (clear_timer d))\<lparr>rd_recorder := None\<rparr>)))
     \<lparr>rd_phase := Rp_Idle, rd_failed := False, rd_saving := False\<rparr>"

definition open_dialog :: "recorder_dialog \<Rightarrow> recorder_dialog" where
  "open_dialog d = (if rd_open d then d else (teardown d)\<lparr>rd_open := True, rd_dsp := None, rd_probing := True\<rparr>)"

definition close_dialog :: "recorder_dialog \<Rightarrow> recorder_dialog" where
  "close_dialog d = (if rd_open d then (teardown d)\<lparr>rd_open := False, rd_probing := False\<rparr> else d)"

definition probe_answered :: "bool \<Rightarrow> recorder_dialog \<Rightarrow> recorder_dialog" where
  "probe_answered there d = (if rd_probing d then d\<lparr>rd_dsp := Some there, rd_probing := False\<rparr> else d)"

definition stop_recording :: "recorder_dialog \<Rightarrow> recorder_dialog" where
  "stop_recording d = stop_recorder (clear_timer d)"

definition finalize_stopped :: "string \<Rightarrow> recorder_dialog \<Rightarrow> recorder_dialog" where
  "finalize_stopped mime d = release_capture (d\<lparr>rd_blob := Some (sum_list (rd_chunks d), mime), rd_phase := Rp_Recorded\<rparr>)"

definition begin_capture :: "recorder_dialog \<Rightarrow> recorder_dialog" where
  "begin_capture d = d\<lparr>rd_chunks := [], rd_recorder := Some (length (rd_recorders d)), rd_recorders := rd_recorders d @ [Rs_Active],
     rd_phase := Rp_Recording, rd_elapsed := 0, rd_timer := Some (rd_begun d), rd_timers := rd_timers d @ [(rd_begun d, 0)],
     rd_begun := Suc (rd_begun d)\<rparr>"

text \<open>The button that starts: shown unless a recording runs, disabled while the core is probed for and, after a recording, during a save.\<close>

definition can_start :: "recorder_dialog \<Rightarrow> bool" where
  "can_start d \<longleftrightarrow> rd_open d \<and> (case rd_phase d of Rp_Recording \<Rightarrow> False | Rp_Recorded \<Rightarrow> \<not> rd_saving d | Rp_Idle \<Rightarrow> rd_dsp d \<noteq> None)"

definition start_recording :: "recorder_dialog \<Rightarrow> recorder_dialog" where
  "start_recording d =
     (if \<not> can_start d then d
      else let d1 = clear_recorded (d\<lparr>rd_failed := False\<rparr>)
        in if rd_dsp d = Some True
           then d1\<lparr>rd_engine := Some (length (rd_engines d)), rd_engines := rd_engines d @ [\<lparr>eg_mic = None, eg_running = False\<rparr>],
                  rd_starts := rd_starts d @ [Engine_Asking (length (rd_engines d))]\<rparr>
           else d1\<lparr>rd_starts := rd_starts d @ [Asking_Mic]\<rparr>)"

definition start_failed :: "recorder_dialog \<Rightarrow> recorder_dialog" where
  "start_failed d = (release_capture d)\<lparr>rd_failed := True, rd_phase := Rp_Idle\<rparr>"

definition without_start :: "nat \<Rightarrow> recorder_dialog \<Rightarrow> recorder_dialog" where
  "without_start i d = d\<lparr>rd_starts := take i (rd_starts d) @ drop (Suc i) (rd_starts d)\<rparr>"

definition start_step :: "nat \<Rightarrow> bool \<Rightarrow> recorder_dialog \<Rightarrow> recorder_dialog" where
  "start_step i ok d =
     (if length (rd_starts d) \<le> i then d
      else let k = rd_granted d in case rd_starts d ! i of
        Asking_Mic \<Rightarrow> if ok then begin_capture ((without_start i d)\<lparr>rd_mics := rd_mics d @ [k], rd_granted := Suc k, rd_stream := Some k\<rparr>)
          else start_failed (without_start i d)
      | Engine_Asking e \<Rightarrow> if ok then d\<lparr>rd_mics := rd_mics d @ [k], rd_granted := Suc k,
            rd_engines := (rd_engines d)[e := (rd_engines d ! e)\<lparr>eg_mic := Some k\<rparr>], rd_starts := (rd_starts d)[i := Engine_Loading e]\<rparr>
          else start_failed (engine_stop e (without_start i d))
      | Engine_Loading e \<Rightarrow> if ok \<and> eg_mic (rd_engines d ! e) \<noteq> None
          then d\<lparr>rd_engines := (rd_engines d)[e := (rd_engines d ! e)\<lparr>eg_running := True\<rparr>], rd_starts := (rd_starts d)[i := Engine_Waiting e]\<rparr>
          else start_failed (engine_stop e (without_start i d))
      | Engine_Waiting e \<Rightarrow> if eg_running (rd_engines d ! e) then begin_capture (without_start i d) else start_failed (without_start i d))"

definition timer_ticks :: "nat \<Rightarrow> recorder_dialog \<Rightarrow> recorder_dialog" where
  "timer_ticks t d = (case map_of (rd_timers d) t of
      None \<Rightarrow> d
    | Some n \<Rightarrow> let d1 = d\<lparr>rd_timers := map (\<lambda>(u, m). if u = t then (u, Suc m) else (u, m)) (rd_timers d), rd_elapsed := Suc n\<rparr>
        in if Suc n \<ge> max_record_secs then stop_recording d1 else d1)"

definition data_available :: "nat \<Rightarrow> recorder_dialog \<Rightarrow> recorder_dialog" where
  "data_available n d = (if n > 0 then d\<lparr>rd_chunks := rd_chunks d @ [n]\<rparr> else d)"

definition recorder_stopped :: "nat \<Rightarrow> string \<Rightarrow> recorder_dialog \<Rightarrow> recorder_dialog" where
  "recorder_stopped r mime d =
     (if r < length (rd_recorders d) \<and> rd_recorders d ! r \<noteq> Rs_Done
      then finalize_stopped mime (d\<lparr>rd_recorders := (rd_recorders d)[r := Rs_Done]\<rparr>) else d)"

definition handle_save :: "recorder_dialog \<Rightarrow> recorder_dialog" where
  "handle_save d = (case rd_blob d of
      Some (n, mime) \<Rightarrow>
        if rd_saving d \<or> rd_phase d \<noteq> Rp_Recorded \<or> \<not> rd_open d then d
        else if n > max_upload_bytes then d\<lparr>rd_failed := True\<rparr>
        else d\<lparr>rd_failed := False, rd_saving := True, rd_sent := rd_sent d @ [(n, container_of mime)]\<rparr>
    | None \<Rightarrow> d)"

definition upload_answered :: "bool \<Rightarrow> recorder_dialog \<Rightarrow> recorder_dialog" where
  "upload_answered ok d = (if ok then close_dialog d else d\<lparr>rd_failed := True\<rparr>)\<lparr>rd_saving := False\<rparr>"

datatype dialog_event =
    Rd_Open
  | Rd_Close
  | Rd_Probed bool
  | Rd_Start
  | Rd_Step nat bool
  | Rd_Data nat
  | Rd_Tick nat
  | Rd_Stop
  | Rd_Stopped nat string
  | Rd_Save
  | Rd_Answer bool

definition dialog_step :: "dialog_event \<Rightarrow> recorder_dialog \<Rightarrow> recorder_dialog" where
  "dialog_step ev d = (case ev of
      Rd_Open \<Rightarrow> open_dialog d
    | Rd_Close \<Rightarrow> close_dialog d
    | Rd_Probed there \<Rightarrow> probe_answered there d
    | Rd_Start \<Rightarrow> start_recording d
    | Rd_Step i ok \<Rightarrow> start_step i ok d
    | Rd_Data n \<Rightarrow> data_available n d
    | Rd_Tick t \<Rightarrow> timer_ticks t d
    | Rd_Stop \<Rightarrow> if rd_phase d = Rp_Recording then stop_recording d else d
    | Rd_Stopped r mime \<Rightarrow> recorder_stopped r mime d
    | Rd_Save \<Rightarrow> handle_save d
    | Rd_Answer ok \<Rightarrow> upload_answered ok d)"

definition dialog_run :: "dialog_event list \<Rightarrow> recorder_dialog \<Rightarrow> recorder_dialog" where
  "dialog_run = fold dialog_step"

section \<open>The microphone is released\<close>

definition mics_held :: "recorder_dialog \<Rightarrow> bool" where
  "mics_held d \<longleftrightarrow> (\<forall>k\<in>set (rd_mics d). rd_stream d = Some k \<or>
     (\<exists>e. rd_engine d = Some e \<and> e < length (rd_engines d) \<and> eg_mic (rd_engines d ! e) = Some k))"

fun start_fits :: "start list \<Rightarrow> bool \<Rightarrow> nat list \<Rightarrow> nat option \<Rightarrow> nat \<Rightarrow> bool" where
  "start_fits [] running mics engine n \<longleftrightarrow> running \<or> mics = []"
| "start_fits [Asking_Mic] running mics engine n \<longleftrightarrow> mics = []"
| "start_fits [Engine_Asking e] running mics engine n \<longleftrightarrow> mics = [] \<and> engine = Some e \<and> e < n"
| "start_fits [Engine_Loading e] running mics engine n \<longleftrightarrow> engine = Some e \<and> e < n"
| "start_fits [Engine_Waiting e] running mics engine n \<longleftrightarrow> engine = Some e \<and> e < n"
| "start_fits (_ # _ # _) running mics engine n \<longleftrightarrow> False"

definition start_held :: "recorder_dialog \<Rightarrow> bool" where
  "start_held d \<longleftrightarrow> start_fits (rd_starts d) (rd_phase d = Rp_Recording) (rd_mics d) (rd_engine d) (length (rd_engines d))"

definition dialog_sound :: "recorder_dialog \<Rightarrow> bool" where
  "dialog_sound d \<longleftrightarrow> mics_held d \<and> start_held d \<and> (\<not> rd_open d \<longrightarrow> rd_starts d = [] \<and> rd_mics d = [])"

text \<open>A person who is not in a hurry: a start is not pressed, the dialog not closed and no recorder reports its stop while a start waits.\<close>

fun unhurried :: "dialog_event \<Rightarrow> bool" where
  "unhurried Rd_Start \<longleftrightarrow> False"
| "unhurried Rd_Close \<longleftrightarrow> False"
| "unhurried (Rd_Answer ok) \<longleftrightarrow> \<not> ok"
| "unhurried (Rd_Stopped r mime) \<longleftrightarrow> False"
| "unhurried _ \<longleftrightarrow> True"

fun patient_run :: "dialog_event list \<Rightarrow> recorder_dialog \<Rightarrow> bool" where
  "patient_run [] d \<longleftrightarrow> True"
| "patient_run (ev # evs) d \<longleftrightarrow> (rd_starts d = [] \<or> unhurried ev) \<and> patient_run evs (dialog_step ev d)"

lemmas dialog_defs = mic_off_def engine_stop_def clear_recorded_def release_capture_def clear_timer_def stop_recorder_def teardown_def
  open_dialog_def close_dialog_def probe_answered_def stop_recording_def finalize_stopped_def begin_capture_def can_start_def
  start_recording_def start_failed_def without_start_def start_step_def timer_ticks_def data_available_def recorder_stopped_def
  handle_save_def upload_answered_def

lemma removed_all: "\<forall>x\<in>set xs. x = k \<Longrightarrow> removeAll k xs = []"
  by (induction xs) auto

lemma release_empties: "mics_held d \<Longrightarrow> rd_mics (release_capture d) = []"
proof -
  assume h: "mics_held d"
  let ?m = "case rd_stream d of None \<Rightarrow> rd_mics d | Some k \<Rightarrow> removeAll k (rd_mics d)"
  have "\<forall>k\<in>set ?m. \<exists>e. rd_engine d = Some e \<and> e < length (rd_engines d) \<and> eg_mic (rd_engines d ! e) = Some k"
    using h by (auto simp: mics_held_def split: option.splits)
  then show ?thesis
    by (auto simp: release_capture_def mic_off_def engine_stop_def Let_def removed_all split: option.splits)
qed

lemma release_frame [simp]:
  "rd_stream (release_capture d) = None" "rd_engine (release_capture d) = None" "rd_starts (release_capture d) = rd_starts d"
  "rd_open (release_capture d) = rd_open d" "rd_phase (release_capture d) = rd_phase d"
  by (simp_all add: release_capture_def mic_off_def engine_stop_def Let_def split: option.split)

lemma stop_frame [simp]:
  "rd_mics (stop_recording d) = rd_mics d" "rd_stream (stop_recording d) = rd_stream d" "rd_engine (stop_recording d) = rd_engine d"
  "rd_engines (stop_recording d) = rd_engines d" "rd_starts (stop_recording d) = rd_starts d" "rd_open (stop_recording d) = rd_open d"
  "rd_phase (stop_recording d) = rd_phase d"
  by (simp_all add: stop_recording_def stop_recorder_def clear_timer_def split: option.split)

lemma teardown_empties:
  "mics_held d \<Longrightarrow> rd_mics (teardown d) = []" "rd_starts (teardown d) = rd_starts d" "rd_open (teardown d) = rd_open d"
proof -
  assume h: "mics_held d"
  then have "mics_held ((stop_recorder (clear_timer d))\<lparr>rd_recorder := None\<rparr>)"
    by (simp add: mics_held_def stop_recorder_def clear_timer_def split: option.split)
  then show "rd_mics (teardown d) = []"
    by (simp add: teardown_def clear_recorded_def release_empties)
qed (simp_all add: teardown_def clear_recorded_def stop_recorder_def clear_timer_def split: option.split)

lemma engine_stop_held: "mics_held d \<Longrightarrow> mics_held (engine_stop e d)"
  by (auto simp: mics_held_def engine_stop_def mic_off_def nth_list_update split: option.split)
    (metis option.distinct(1) option.inject)+

lemma failed_sound: "mics_held d \<Longrightarrow> rd_starts d = [] \<Longrightarrow> dialog_sound (start_failed d)"
  by (simp add: dialog_sound_def start_failed_def release_empties mics_held_def [of "_\<lparr>rd_failed := _, rd_phase := _\<rparr>"] start_held_def)

lemma same_mics:
  "mics_held d \<Longrightarrow> rd_mics d' = rd_mics d \<Longrightarrow> rd_stream d' = rd_stream d \<Longrightarrow> rd_engine d' = rd_engine d \<Longrightarrow>
   rd_engines d' = rd_engines d \<Longrightarrow> mics_held d'"
  by (simp add: mics_held_def)

lemma same_sound:
  "dialog_sound d \<Longrightarrow> rd_mics d' = rd_mics d \<Longrightarrow> rd_stream d' = rd_stream d \<Longrightarrow> rd_engine d' = rd_engine d \<Longrightarrow>
   rd_engines d' = rd_engines d \<Longrightarrow> rd_starts d' = rd_starts d \<Longrightarrow> rd_open d' = rd_open d \<Longrightarrow> rd_phase d' = rd_phase d \<Longrightarrow> dialog_sound d'"
  by (simp only: dialog_sound_def start_held_def mics_held_def) blast

lemma closed_sound: "rd_mics d = [] \<Longrightarrow> rd_starts d = [] \<Longrightarrow> dialog_sound d"
  by (simp add: dialog_sound_def start_held_def mics_held_def)

lemma start_step_sound: "dialog_sound d \<Longrightarrow> dialog_sound (start_step i ok d)"
proof (cases "length (rd_starts d) \<le> i")
  case False
  assume s: "dialog_sound d"
  then obtain st where st: "rd_starts d = [st]" "i = 0"
    using False by (cases "(rd_starts d, rd_phase d = Rp_Recording, rd_mics d, rd_engine d, length (rd_engines d))" rule: start_fits.cases)
      (auto simp: dialog_sound_def start_held_def)
  then have w: "without_start 0 d = d\<lparr>rd_starts := []\<rparr>" by (simp add: without_start_def)
  have o: "rd_open d" and held: "mics_held d" and fits: "start_fits [st] (rd_phase d = Rp_Recording) (rd_mics d) (rd_engine d) (length (rd_engines d))"
    using s st by (auto simp: dialog_sound_def start_held_def)
  have h: "mics_held (d\<lparr>rd_starts := []\<rparr>)" using held by (simp add: mics_held_def)
  have failed: "dialog_sound (start_failed (d\<lparr>rd_starts := []\<rparr>))" "dialog_sound (start_failed (engine_stop e (d\<lparr>rd_starts := []\<rparr>)))" for e
    using failed_sound [OF h] failed_sound [OF engine_stop_held [OF h], of e]
    by (auto simp: engine_stop_def mic_off_def split: option.split)
  show ?thesis
  proof (cases st)
    case Asking_Mic
    have "dialog_sound (begin_capture (d\<lparr>rd_starts := [], rd_mics := [k], rd_granted := g, rd_stream := Some k\<rparr>))" for k g
      using o by (simp add: dialog_sound_def start_held_def mics_held_def begin_capture_def)
    then show ?thesis using fits failed Asking_Mic by (simp add: start_step_def st w Let_def)
  next
    case (Engine_Asking e)
    have "dialog_sound (d\<lparr>rd_mics := [k], rd_granted := g, rd_engines := (rd_engines d)[e := (rd_engines d ! e)\<lparr>eg_mic := Some k\<rparr>],
        rd_starts := [Engine_Loading e]\<rparr>)" for k g
      using o fits Engine_Asking by (simp add: dialog_sound_def start_held_def mics_held_def)
    then show ?thesis using fits failed Engine_Asking by (simp add: start_step_def st w Let_def)
  next
    case (Engine_Loading e)
    have "dialog_sound (d\<lparr>rd_engines := (rd_engines d)[e := (rd_engines d ! e)\<lparr>eg_running := True\<rparr>], rd_starts := [Engine_Waiting e]\<rparr>)"
      using o fits held Engine_Loading by (simp add: dialog_sound_def start_held_def mics_held_def)
    then show ?thesis using failed Engine_Loading by (simp add: start_step_def st w Let_def)
  next
    case (Engine_Waiting e)
    have "dialog_sound (begin_capture (d\<lparr>rd_starts := []\<rparr>))"
      using o held by (simp add: dialog_sound_def start_held_def mics_held_def begin_capture_def)
    then show ?thesis using failed Engine_Waiting by (simp add: start_step_def st w Let_def)
  qed
qed (simp add: start_step_def)

lemma opened_sound: "dialog_sound d \<Longrightarrow> dialog_sound (open_dialog d)"
  by (cases "rd_open d") (simp_all add: open_dialog_def closed_sound teardown_empties dialog_sound_def [of d])

lemma closing_sound: "dialog_sound d \<Longrightarrow> rd_starts d = [] \<Longrightarrow> dialog_sound (close_dialog d)"
  by (cases "rd_open d") (simp_all add: close_dialog_def closed_sound teardown_empties dialog_sound_def [of d])

lemma dialog_sound_step: "dialog_sound d \<Longrightarrow> rd_starts d = [] \<or> unhurried ev \<Longrightarrow> dialog_sound (dialog_step ev d)"
proof (cases ev)
  case Rd_Open
  assume "dialog_sound d"
  then show ?thesis using Rd_Open by (simp add: dialog_step_def opened_sound)
next
  case Rd_Close
  assume "dialog_sound d" "rd_starts d = [] \<or> unhurried ev"
  then show ?thesis using Rd_Close by (simp add: dialog_step_def closing_sound)
next
  case (Rd_Probed there)
  assume "dialog_sound d"
  then show ?thesis using Rd_Probed
    by (auto simp: dialog_step_def probe_answered_def intro: same_sound)
next
  case Rd_Start
  assume "dialog_sound d" "rd_starts d = [] \<or> unhurried ev"
  then show ?thesis using Rd_Start
    by (auto simp: dialog_step_def start_recording_def can_start_def clear_recorded_def dialog_sound_def start_held_def mics_held_def Let_def
        split: rec_phase.splits)
next
  case (Rd_Step i ok)
  assume "dialog_sound d"
  then show ?thesis using Rd_Step by (simp add: dialog_step_def start_step_sound)
next
  case (Rd_Data n)
  assume "dialog_sound d"
  then show ?thesis using Rd_Data by (auto simp: dialog_step_def data_available_def intro: same_sound)
next
  case (Rd_Tick t)
  assume "dialog_sound d"
  then show ?thesis using Rd_Tick
    by (auto simp: dialog_step_def timer_ticks_def Let_def intro: same_sound split: option.split)
next
  case Rd_Stop
  assume "dialog_sound d"
  then show ?thesis using Rd_Stop by (auto simp: dialog_step_def intro: same_sound)
next
  case (Rd_Stopped r mime)
  assume s: "dialog_sound d" and "rd_starts d = [] \<or> unhurried ev"
  then have "rd_starts d = []" using Rd_Stopped by simp
  moreover have "mics_held (d\<lparr>rd_recorders := rs, rd_blob := b, rd_phase := Rp_Recorded\<rparr>)" for rs b
    using s by (simp add: dialog_sound_def mics_held_def)
  ultimately show ?thesis using s Rd_Stopped
    by (simp add: dialog_step_def recorder_stopped_def finalize_stopped_def closed_sound release_empties)
next
  case Rd_Save
  assume "dialog_sound d"
  then show ?thesis using Rd_Save
    by (auto simp: dialog_step_def handle_save_def intro: same_sound split: option.split)
next
  case (Rd_Answer ok)
  assume s: "dialog_sound d" and q: "rd_starts d = [] \<or> unhurried ev"
  have "dialog_sound ((if ok then close_dialog d else d\<lparr>rd_failed := True\<rparr>))"
    using s q Rd_Answer closing_sound by (auto intro: same_sound)
  then show ?thesis using Rd_Answer by (auto simp: dialog_step_def upload_answered_def intro: same_sound)
qed

lemma dialog_sound_run: "patient_run evs d \<Longrightarrow> dialog_sound d \<Longrightarrow> dialog_sound (dialog_run evs d)"
  by (induction evs arbitrary: d) (simp_all add: dialog_run_def dialog_sound_step)


text \<open>No file above the limit is sent, and each is named after what it contains.\<close>

lemma sent_frame [simp]:
  "rd_sent (mic_off k d) = rd_sent d" "rd_sent (engine_stop e d) = rd_sent d" "rd_sent (release_capture d) = rd_sent d"
  "rd_sent (stop_recording d) = rd_sent d" "rd_sent (teardown d) = rd_sent d"
  by (simp_all add: mic_off_def engine_stop_def release_capture_def stop_recording_def stop_recorder_def clear_timer_def teardown_def
      clear_recorded_def Let_def split: option.split)

lemma sent_ops [simp]:
  "rd_sent (open_dialog d) = rd_sent d" "rd_sent (close_dialog d) = rd_sent d" "rd_sent (probe_answered there d) = rd_sent d"
  "rd_sent (start_recording d) = rd_sent d" "rd_sent (start_failed d) = rd_sent d" "rd_sent (begin_capture d) = rd_sent d"
  "rd_sent (without_start i d) = rd_sent d" "rd_sent (data_available n d) = rd_sent d" "rd_sent (timer_ticks t d) = rd_sent d"
  "rd_sent (recorder_stopped r mime d) = rd_sent d" "rd_sent (upload_answered ok d) = rd_sent d"
  by (simp_all add: open_dialog_def close_dialog_def probe_answered_def start_recording_def clear_recorded_def
      start_failed_def begin_capture_def without_start_def data_available_def timer_ticks_def recorder_stopped_def finalize_stopped_def
      upload_answered_def Let_def split: option.split)

lemma sent_start_step [simp]: "rd_sent (start_step i ok d) = rd_sent d"
  by (simp add: start_step_def Let_def split: start.split)

lemma sent_step: "\<forall>x\<in>set (rd_sent d). fst x \<le> max_upload_bytes \<Longrightarrow> \<forall>x\<in>set (rd_sent (dialog_step ev d)). fst x \<le> max_upload_bytes"
  by (cases ev) (auto simp: dialog_step_def handle_save_def split: option.splits)

lemma sent_run: "\<forall>x\<in>set (rd_sent d). fst x \<le> max_upload_bytes \<Longrightarrow> \<forall>x\<in>set (rd_sent (dialog_run evs d)). fst x \<le> max_upload_bytes"
proof (induction evs arbitrary: d)
  case (Cons ev evs)
  from Cons.IH [OF sent_step [OF Cons.prems]] show ?case by (simp add: dialog_run_def)
qed (simp add: dialog_run_def)

theorem uploads_bounded:
  "list_all (\<lambda>x. fst x \<le> 256000) (rd_sent (dialog_run evs closed_dialog))"
proof -
  have "rd_sent closed_dialog = []" by (simp add: closed_dialog_def)
  then have "\<forall>x\<in>set (rd_sent closed_dialog). fst x \<le> max_upload_bytes" by simp
  from sent_run [OF this] have "\<forall>x\<in>set (rd_sent (dialog_run evs closed_dialog)). fst x \<le> 250 * 1024"
    unfolding max_upload_bytes_def .
  then show ?thesis by (simp add: list_all_iff)
qed

text \<open>A dialog that was closed records. Where the microphone is granted after the dialog has been closed, the recording begins all the same:
  the microphone is live behind the closed dialog.\<close>

lemmas dialog_eval = dialog_run_def dialog_step_def closed_dialog_def open_dialog_def close_dialog_def teardown_def release_capture_def
  mic_off_def clear_recorded_def stop_recorder_def clear_timer_def probe_answered_def start_recording_def can_start_def start_step_def
  without_start_def begin_capture_def Let_def

theorem late_grant_records_closed:
  "let d = dialog_run [Rd_Open, Rd_Probed False, Rd_Start, Rd_Close, Rd_Step 0 True] closed_dialog
   in \<not> rd_open d \<and> rd_phase d = Rp_Recording \<and> rd_mics d = [0]"
  by (simp add: dialog_eval)

text \<open>The start button pressed twice leaves a microphone on. The button is not disabled while a start waits; a second press before the grant
  takes over the only reference, and nothing that happens afterwards, no stop, no save and no closing, turns the first microphone off.\<close>

definition unreferenced :: "nat \<Rightarrow> recorder_dialog \<Rightarrow> bool" where
  "unreferenced k d \<longleftrightarrow> k \<in> set (rd_mics d) \<and> k < rd_granted d \<and> rd_stream d \<noteq> Some k \<and>
     (\<forall>e\<in>set (rd_engines d). eg_mic e \<noteq> Some k)"

lemma unreferenced_parts [simp]:
  "unreferenced k d \<Longrightarrow> unreferenced k (engine_stop e d)"
  "unreferenced k d \<Longrightarrow> unreferenced k (release_capture d)"
  "unreferenced k d \<Longrightarrow> unreferenced k (stop_recording d)"
proof -
  have stop: "unreferenced k (engine_stop e d)" if "unreferenced k d" for e d
    using that by (auto simp: unreferenced_def engine_stop_def mic_off_def dest!: set_update_subset_insert [THEN subsetD] split: option.splits)
  then show "unreferenced k d \<Longrightarrow> unreferenced k (engine_stop e d)" .
  have released: "unreferenced k (d\<lparr>rd_engine := x\<rparr>) \<longleftrightarrow> unreferenced k d" for x and d :: recorder_dialog
    by (simp add: unreferenced_def)
  have "unreferenced k ((mic_off (rd_stream d) d)\<lparr>rd_stream := None\<rparr>)" if "unreferenced k d"
    using that by (auto simp: unreferenced_def mic_off_def split: option.splits)
  then show "unreferenced k d \<Longrightarrow> unreferenced k (release_capture d)"
    using stop by (simp add: release_capture_def Let_def released split: option.split)
  show "unreferenced k d \<Longrightarrow> unreferenced k (stop_recording d)"
    by (auto simp: unreferenced_def stop_recording_def stop_recorder_def clear_timer_def split: option.split)
qed

lemma unreferenced_updates [simp]:
  "unreferenced k (rd_open_update f1 d) \<longleftrightarrow> unreferenced k d"
  "unreferenced k (rd_phase_update f2 d) \<longleftrightarrow> unreferenced k d"
  "unreferenced k (rd_elapsed_update f3 d) \<longleftrightarrow> unreferenced k d"
  "unreferenced k (rd_dsp_update f4 d) \<longleftrightarrow> unreferenced k d"
  "unreferenced k (rd_probing_update f5 d) \<longleftrightarrow> unreferenced k d"
  "unreferenced k (rd_saving_update f6 d) \<longleftrightarrow> unreferenced k d"
  "unreferenced k (rd_failed_update f7 d) \<longleftrightarrow> unreferenced k d"
  "unreferenced k (rd_engine_update f8 d) \<longleftrightarrow> unreferenced k d"
  "unreferenced k (rd_recorder_update f9 d) \<longleftrightarrow> unreferenced k d"
  "unreferenced k (rd_recorders_update f10 d) \<longleftrightarrow> unreferenced k d"
  "unreferenced k (rd_chunks_update f11 d) \<longleftrightarrow> unreferenced k d"
  "unreferenced k (rd_blob_update f12 d) \<longleftrightarrow> unreferenced k d"
  "unreferenced k (rd_timer_update f13 d) \<longleftrightarrow> unreferenced k d"
  "unreferenced k (rd_timers_update f14 d) \<longleftrightarrow> unreferenced k d"
  "unreferenced k (rd_begun_update f15 d) \<longleftrightarrow> unreferenced k d"
  "unreferenced k (rd_starts_update f16 d) \<longleftrightarrow> unreferenced k d"
  "unreferenced k (rd_sent_update f17 d) \<longleftrightarrow> unreferenced k d"
  by (simp_all add: unreferenced_def)

lemma unreferenced_teardown [simp]: "unreferenced k d \<Longrightarrow> unreferenced k (teardown d)"
  using unreferenced_parts(3) [of k d] by (simp add: teardown_def clear_recorded_def stop_recording_def)

lemma unreferenced_start: "unreferenced k d \<Longrightarrow> unreferenced k (start_recording d)"
  by (auto simp: unreferenced_def start_recording_def clear_recorded_def Let_def)

lemma unreferenced_step: "unreferenced k d \<Longrightarrow> unreferenced k (dialog_step ev d)"
proof (cases ev)
  case (Rd_Step i ok)
  assume u: "unreferenced k d"
  have w: "unreferenced k (without_start i d)" using u by (simp add: unreferenced_def without_start_def)
  have failed: "unreferenced k (start_failed d')" if "unreferenced k d'" for d'
    using unreferenced_parts(2) [OF that] by (simp add: start_failed_def unreferenced_def)
  have capture: "unreferenced k (begin_capture d')" if "unreferenced k d'" for d'
    using that by (simp add: begin_capture_def unreferenced_def)
  have granted: "unreferenced k ((without_start i d)\<lparr>rd_mics := rd_mics d @ [rd_granted d], rd_granted := Suc (rd_granted d),
      rd_stream := Some (rd_granted d)\<rparr>)"
    using u by (auto simp: unreferenced_def without_start_def)
  have engine: "unreferenced k (d\<lparr>rd_mics := rd_mics d @ [rd_granted d], rd_granted := Suc (rd_granted d),
      rd_engines := (rd_engines d)[e := (rd_engines d ! e)\<lparr>eg_mic := Some (rd_granted d)\<rparr>], rd_starts := ss\<rparr>)" for e ss
    using u by (auto simp: unreferenced_def dest!: set_update_subset_insert [THEN subsetD])
  have running: "unreferenced k (d\<lparr>rd_engines := (rd_engines d)[e := (rd_engines d ! e)\<lparr>eg_running := True\<rparr>], rd_starts := ss\<rparr>)" for e ss
  proof (cases "e < length (rd_engines d)")
    case True
    then have "eg_mic (rd_engines d ! e) \<noteq> Some k" using u by (simp add: unreferenced_def)
    then show ?thesis using u by (auto simp: unreferenced_def dest!: set_update_subset_insert [THEN subsetD])
  next
    case False
    then show ?thesis using u by (simp add: unreferenced_def list_update_beyond)
  qed
  show ?thesis unfolding Rd_Step dialog_step_def dialog_event.case start_step_def Let_def
    using u w failed capture granted engine running by (simp split: start.split)
qed (simp_all add: dialog_step_def open_dialog_def close_dialog_def probe_answered_def unreferenced_start data_available_def timer_ticks_def
    recorder_stopped_def finalize_stopped_def handle_save_def upload_answered_def Let_def split: option.split)

lemma unreferenced_run: "unreferenced k d \<Longrightarrow> unreferenced k (dialog_run evs d)"
  by (induction evs arbitrary: d) (simp_all add: dialog_run_def unreferenced_step)

theorem double_start_keeps_microphone:
  "0 \<in> set (rd_mics (dialog_run ([Rd_Open, Rd_Probed False, Rd_Start, Rd_Start, Rd_Step 0 True, Rd_Step 0 True] @ evs) closed_dialog))"
proof -
  let ?d = "dialog_run [Rd_Open, Rd_Probed False, Rd_Start, Rd_Start, Rd_Step 0 True, Rd_Step 0 True] closed_dialog"
  have "unreferenced 0 ?d" by (simp add: unreferenced_def dialog_eval)
  then have "unreferenced 0 (dialog_run evs ?d)" by (rule unreferenced_run)
  then show ?thesis by (simp add: unreferenced_def dialog_run_def)
qed

lemmas capture_eval = stop_recording_def data_available_def recorder_stopped_def finalize_stopped_def handle_save_def max_upload_bytes_def
  upload_answered_def


end
