(* ===== verification/Spec2Isabelle.thy ===== *)
theory Spec2Isabelle
  imports Outgoing_Calls Callee_Rights Responses Requests Queue_Waiting Charging Metrics Widget_Endpoints Write_Behind Signaling_Safety Http_Api Audio_Codec Voice_Agent Carriers Flow_Builder Bridge_Phone Voice_Widget Change_Feed Env_Config Web_Client Presence_Socket Live_Feeds Web_Session Hours_Editor Prompt_Recorder
begin

text \<open>
  A verification library for Enjoys Voice, a self-hosted telephone system: an engine of TypeScript
  (\<^verbatim>\<open>src/src\<close>) that speaks SIP over drachtio and media over FreeSWITCH, a web phone and dashboard
  (\<^verbatim>\<open>src/web/app\<close>), and a click-to-call widget for other people's pages (\<^verbatim>\<open>src/packages/voice-widget\<close>).

  \<^bold>\<open>How the parts interact.\<close> A device registers with the SIP server. An INVITE passes the server's limiter and
  abuse guard, is classified by the dial plan, logged in the store, and offered to a chain of route handlers: Teams joins,
  widget calls, calls from the trunk, queues, conferences, routing rules, IVR flows, internal extensions, SIP URIs and the
  trunk. A handler answers it by ringing a device, dialling the trunk, or giving it to the media side (IVR, voicemail,
  queue, conference). The store emits every change of a call; the metrics, the webhooks, the signalling server and the
  write queue, which carries records and wallet debits to Postgres, hear it. The HTTP routes and the signalling server serve the
  web phone. Carriers reach the system through the voice webhook and the media streams, where an AI agent answers
  or the caller is bridged to a browser.

  \<^bold>\<open>The theories\<close>, in the order of the layers:
  \<^item> \<^theory_text>\<open>Prelude\<close>: the string and number operations of JavaScript, insertion-ordered maps, the locale \<open>keyed_store\<close>,
    and the state monad's rules. \<^theory_text>\<open>Js_Number\<close>, \<^theory_text>\<open>Json\<close>, \<^theory_text>\<open>Form_Url\<close>: conversions of strings to numbers,
    parsed JSON values, query strings. \<^theory_text>\<open>Core_Types\<close>: \<^verbatim>\<open>core/types.ts\<close>.
  \<^item> Services: \<^theory_text>\<open>Dialplan\<close>, \<^theory_text>\<open>Rating\<close>, \<^theory_text>\<open>Trunk\<close>, \<^theory_text>\<open>Rate_Limit\<close>, \<^theory_text>\<open>Abuse_Guard\<close>, \<^theory_text>\<open>Acd_Queue\<close>,
    \<^theory_text>\<open>Conference\<close>, \<^theory_text>\<open>Schedule\<close> (\<^verbatim>\<open>modules/routing\<close>), \<^theory_text>\<open>Registration\<close>, \<^theory_text>\<open>Database\<close>,
    \<^theory_text>\<open>Postgres\<close> and \<^theory_text>\<open>Voicemails\<close> (\<^verbatim>\<open>services/postgres\<close>, \<^verbatim>\<open>push.service.ts\<close>), \<^theory_text>\<open>Api_Keys\<close>, \<^theory_text>\<open>Metrics\<close>,
    \<^theory_text>\<open>Audit_Log\<close>, \<^theory_text>\<open>Webhooks\<close>, \<^theory_text>\<open>Write_Queue\<close>, \<^theory_text>\<open>Access_Token\<close>, \<^theory_text>\<open>Env_Config\<close> (\<^verbatim>\<open>core/config.ts\<close>), \<^theory_text>\<open>Change_Feed\<close>
    (the listeners of \<^verbatim>\<open>services/postgres\<close> and what \<^verbatim>\<open>index.ts\<close> does at a change).
  \<^item> The SIP engine (\<^verbatim>\<open>sip/\<close>): \<^theory_text>\<open>Engine\<close> (state, environment, steps), \<^theory_text>\<open>Call_Routing\<close> and \<^theory_text>\<open>Sip_Server\<close>
    (\<^verbatim>\<open>sip.server.ts\<close>), \<^theory_text>\<open>Ivr_System\<close> (\<^verbatim>\<open>ivr.system.ts\<close>), \<^theory_text>\<open>Flow_Runner\<close> (\<^verbatim>\<open>ivr/flow-runner.ts\<close>),
    \<^theory_text>\<open>Route_Handlers\<close> (\<^verbatim>\<open>routes/\<close>). Its properties: \<^theory_text>\<open>Step_Invariants\<close> (the method), \<^theory_text>\<open>Requests\<close>, \<^theory_text>\<open>Responses\<close>,
    \<^theory_text>\<open>Outgoing_Calls\<close>, \<^theory_text>\<open>Callee_Rights\<close>, \<^theory_text>\<open>Queue_Waiting\<close>, \<^theory_text>\<open>Charging\<close>; \<^theory_text>\<open>Laboratory\<close> is a small installation for
    their concrete instances.
  \<^item> What the process serves and writes: \<^theory_text>\<open>Widget_Endpoints\<close> and \<^theory_text>\<open>Http_Api\<close> (\<^verbatim>\<open>http/routes/api.routes.ts\<close>), \<^theory_text>\<open>Signaling\<close> and
    \<^theory_text>\<open>Signaling_Safety\<close> (\<^verbatim>\<open>websocket/signaling.server.ts\<close>), \<^theory_text>\<open>Write_Behind\<close> (the wiring of \<^verbatim>\<open>index.ts\<close>).
  \<^item> Carriers (\<^verbatim>\<open>trunk\<close>): \<^theory_text>\<open>Carriers\<close> (the clients of the four providers, up to the request and from the reply), \<^theory_text>\<open>Answer_Xml\<close>, \<^theory_text>\<open>Pstn_Webhook\<close>, \<^theory_text>\<open>Media_Protocol\<close>, \<^theory_text>\<open>Media_Server\<close>,
    \<^theory_text>\<open>Audio_Codec\<close>, \<^theory_text>\<open>Voice_Agent\<close>, \<^theory_text>\<open>Browser_Bridge\<close>.
  \<^item> The web application: \<^theory_text>\<open>Flow_Builder\<close> (\<^verbatim>\<open>admin/ivr/store\<close>), \<^theory_text>\<open>Phone_Book\<close>, \<^theory_text>\<open>Phone_Line\<close>, \<^theory_text>\<open>Softphone\<close>,
    \<^theory_text>\<open>Bridge_Phone\<close>, \<^theory_text>\<open>Presence_Socket\<close>, \<^theory_text>\<open>Live_Feeds\<close>, \<^theory_text>\<open>Web_Session\<close> (\<^verbatim>\<open>hooks/\<close> and \<^verbatim>\<open>stores/\<close>),
    \<^theory_text>\<open>Hours_Editor\<close> (\<^verbatim>\<open>admin/components/HoursTab.tsx\<close> with the service of \<^verbatim>\<open>server/\<close> that stores its schedules),
    \<^theory_text>\<open>Prompt_Recorder\<close> (\<^verbatim>\<open>admin/ivr/components/AudioRecorderModal.tsx\<close> and \<^verbatim>\<open>lib/voxfront\<close>), \<^theory_text>\<open>Web_Client\<close> (\<^verbatim>\<open>lib/\<close>), and the widget,
    \<^theory_text>\<open>Voice_Widget\<close>.

  \<^bold>\<open>How code is modelled.\<close> A class is a record of its fields and a function per method, named as in the source where the name
  is free. A \<^verbatim>\<open>Map\<close> whose order is observed is an association list; objects that several parts hold are kept in a heap
  under their addresses (the users of the store, the pairs of the bridge). Errors are values of an option or sum. Numbers of
  the language are integers or, where fractions occur, rationals; bit operations are on words of their width (the 32-bit
  masks of the trunk, the samples and bytes of the codec, the 32-bit delay of a timer).

  The engine threads \<open>engine\<close> through the state monad. What the outside answers (drachtio, FreeSWITCH, Postgres, clock,
  key presses) is read from the environment \<open>env\<close> at \<open>en_tick\<close>, the count of the answers so far, so a theorem about all \<open>env\<close>
  holds for every behaviour of the outside, failures included. What the engine does to the outside is appended to a trace.
  \<open>Requests.serves\<close> is the server as a machine: INVITEs, REGISTERs, timer callbacks, ends of legs and the passing of time in any
  order. The servers over sockets (\<open>Signaling_Safety.signal_reach\<close>, \<open>Browser_Bridge.bridge_reach\<close>) are inductive
  relations over their events. In the browser an \<^verbatim>\<open>await\<close> splits a function into steps: the state holds what is being waited
  for, and the events may come in any order, which is where the interleavings of the web theories come from.

  \<^bold>\<open>The locales\<close> and what interprets them: \<open>keyed_store\<close> (lookup after insertion and removal; the maps of JavaScript, the registrations
  of the store), \<open>registration_store\<close> (the interface of \<^verbatim>\<open>services/registration\<close>; the in-memory store), \<open>window_limiter\<close> (a
  fixed window admits at most its limit; the SIP, HTTP and Teams limiters), \<open>call_rater\<close> (the rater that the store is given; the
  rate book), \<open>flow_host\<close> (what a flow may do to its host; the IVR system), \<open>escaping\<close> (text put into XML reads back; the two
  escapers), \<open>speech\<close> (who a signalling message may speak to and for), and the chain \<open>step_invariant\<close>, \<open>answering\<close>,
  \<open>call_policy\<close>, \<open>invite_policy\<close>: an invariant of the engine and a set of permitted effects are shown for the single steps, and the
  locale carries them through every handler and the whole pipeline. The toll rule, the soundness of the store, the count of final
  responses, Do Not Disturb, the pinning of widget calls and the absence of debits are interpretations of it.

  \<^bold>\<open>What the lemmas show.\<close> For the engine: which INVITEs can make the trunk dial, one final response to each INVITE, inert refused
  requests, a sound store after any input, registration and its removal, the end of each wait in a queue and no caller left behind
  in it, each charge made once. For the services: the limits, the allowlist, rating by the longest prefix, agents serving one
  caller, the schedule's decision, contracts of the stores, the audit trail, each webhook once, metrics equal to a recount. For
  the servers: tokens and keys gate what they should, messages speak for their sender, callers bridged to browsers are kept apart,
  streams are begun and ended once. For the web: an edited flow keeps its entry and its exits and is restored by undo and redo; a
  shown call can end; nobody is heard before answering; the widget calls only with a minted session; contacts follow
  presence; hours and announcements that are saved are what the engine decides and speaks; a closed recorder leaves no microphone on. Between
  the parts: a listener for changes heals itself, the entries of the flows follow their table, a carrier is asked once and at home. The theorems named as errors show a behaviour that a comment or the intent
  rules out.

  \<^bold>\<open>Bounds and fuel.\<close> The walk of a flow stops after \<open>max_hops\<close> = 50 nodes, as the code does. The wait in a queue is given
  \<open>k\<close> rounds; a round takes time, so \<open>Queue_Waiting.queue_wait_ends\<close> shows that one round for each millisecond of the
  wait is enough. The worker of the write queue is given rounds; five for each waiting job are enough, since a job is tried
  five times (\<open>Write_Queue.writes_settle\<close>). The history of the flow builder holds 50 snapshots, the seen events of the
  dispatcher 10000, the audit service 5000 entries, as in the code. Every other recursion is structural or over lists.

  \<^bold>\<open>Not modelled.\<close> React pages and components but for the two named above; the lists of REST endpoints of the web clients, whose request, retry and
  cache are modelled; the sample clients of language and speech providers in \<^verbatim>\<open>src/src/agents\<close>, which the engine does not import; the DOM of the widget; audio devices and peer
  connections; connecting to Redis and Postgres, the server in Go but for the schedules, and the text of the SQL beyond its meaning over rows. Libraries are
  parameters: the JWT library, SHA-256, HMAC, JSON text, URL and SIP URI parsers, regular expressions of a flow's author,
  the user agent of the SIP library, what the object mapper of the Go server inserts for a false flag. Floating point is exact in the model, so rounding of the last digit of a
  price or of a resampled value is not covered.
\<close>

end
